(* ===== verification/GoPrelude.thy ===== *)
theory GoPrelude
  imports Main "HOL-Library.AList" "HOL-Library.Char_ord" "HOL-Library.List_Lexorder"
begin

text \<open>
  Shared vocabulary of the development.  A Go \<open>string\<close> or \<open>[]byte\<close> is a HOL \<open>string\<close>, read as a
  list of bytes; the order on strings is the bytewise lexicographic one, as Go's operator \<open><\<close>.
  Case mapping and white space follow the ASCII rows of Go's tables, so the
  functions that use them are exact on ASCII text, which is what labels, host names, paths,
  schedules and header values of this program are.  A Go \<open>map\<close> is an association list with
  distinct keys, whose order stands for the iteration order the Go runtime happens to choose:
  a statement about every such list is a statement about every iteration order.  The first half
  holds the functions of Go's \<open>strings\<close> and \<open>strconv\<close> packages that the source calls, the second
  half the lemmas the component theories share and the contracts (locales) they are proved from.
\<close>

named_theorems go_defs \<open>definitions of the small string helpers, for evaluation\<close>
named_theorems codec_simps \<open>decoder-after-encoder equations\<close>
named_theorems keeps \<open>preservation facts of invariants\<close>

section \<open>Go's string library\<close>

type_synonym byte = char
type_synonym ('k, 'v) gomap = "('k \<times> 'v) list"

subsection \<open>Bytes and case\<close>

definition isSpace :: "char \<Rightarrow> bool" where
  "isSpace c = (let n = of_char c :: nat in (9 \<le> n \<and> n \<le> 13) \<or> n = 32)"

definition isDigit :: "char \<Rightarrow> bool" where
  "isDigit c = (let n = of_char c :: nat in 48 \<le> n \<and> n \<le> 57)"

definition isLowerLetter :: "char \<Rightarrow> bool" where
  "isLowerLetter c = (let n = of_char c :: nat in 97 \<le> n \<and> n \<le> 122)"

definition isUpperLetter :: "char \<Rightarrow> bool" where
  "isUpperLetter c = (let n = of_char c :: nat in 65 \<le> n \<and> n \<le> 90)"

definition isLetter :: "char \<Rightarrow> bool" where
  "isLetter c = (isLowerLetter c \<or> isUpperLetter c)"

definition toLowerChar :: "char \<Rightarrow> char" where
  "toLowerChar c = (if isUpperLetter c then char_of (of_char c + 32 :: nat) else c)"

definition toUpperChar :: "char \<Rightarrow> char" where
  "toUpperChar c = (if isLowerLetter c then char_of (of_char c - 32 :: nat) else c)"

definition toLower :: "string \<Rightarrow> string" where
  "toLower s = map toLowerChar s"

definition toUpper :: "string \<Rightarrow> string" where
  "toUpper s = map toUpperChar s"

subsection \<open>Trimming, prefixes, splitting, joining\<close>

definition trimBy :: "(char \<Rightarrow> bool) \<Rightarrow> string \<Rightarrow> string" where
  "trimBy p s = rev (dropWhile p (rev (dropWhile p s)))"

definition trimSpace :: "string \<Rightarrow> string" where
  "trimSpace s = trimBy isSpace s"

text \<open>\<open>strings.Trim\<close> with a cutset.\<close>

definition trimSet :: "string \<Rightarrow> string \<Rightarrow> string" where
  "trimSet cs s = trimBy (\<lambda>c. c \<in> set cs) s"

definition hasPrefix :: "string \<Rightarrow> string \<Rightarrow> bool" where
  "hasPrefix p s = (take (length p) s = p)"

definition hasSuffix :: "string \<Rightarrow> string \<Rightarrow> bool" where
  "hasSuffix p s = hasPrefix (rev p) (rev s)"

definition trimPrefix :: "string \<Rightarrow> string \<Rightarrow> string" where
  "trimPrefix p s = (if hasPrefix p s then drop (length p) s else s)"

definition trimSuffix :: "string \<Rightarrow> string \<Rightarrow> string" where
  "trimSuffix p s = (if hasSuffix p s then take (length s - length p) s else s)"

text \<open>\<open>strings.Split\<close> with a one-byte separator: never empty, \<open>n\<close> separators give \<open>n + 1\<close> parts.\<close>

fun splitOn :: "char \<Rightarrow> string \<Rightarrow> string list" where
  "splitOn c [] = [[]]"
| "splitOn c (x # xs) =
     (if x = c then [] # splitOn c xs
      else case splitOn c xs of [] \<Rightarrow> [[x]] | w # ws \<Rightarrow> (x # w) # ws)"

fun joinWith :: "string \<Rightarrow> string list \<Rightarrow> string" where
  "joinWith sep [] = []"
| "joinWith sep [w] = w"
| "joinWith sep (w # v # ws) = w @ sep @ joinWith sep (v # ws)"

text \<open>\<open>strings.Cut\<close> with a one-byte separator: before, after, found.\<close>

definition cut :: "char \<Rightarrow> string \<Rightarrow> string \<times> string \<times> bool" where
  "cut c s = (if c \<in> set s
              then (takeWhile (\<lambda>x. x \<noteq> c) s, tl (dropWhile (\<lambda>x. x \<noteq> c) s), True)
              else (s, [], False))"

text \<open>\<open>strings.Index\<close> of a substring.\<close>

fun indexOf :: "string \<Rightarrow> string \<Rightarrow> nat option" where
  "indexOf p [] = (if p = [] then Some 0 else None)"
| "indexOf p (x # xs) = (if hasPrefix p (x # xs) then Some 0 else map_option Suc (indexOf p xs))"

text \<open>\<open>strings.Fields\<close>: the maximal runs of non-space bytes.\<close>

fun fieldsAcc :: "string \<Rightarrow> string \<Rightarrow> string list" where
  "fieldsAcc acc [] = (if acc = [] then [] else [rev acc])"
| "fieldsAcc acc (x # xs) =
     (if isSpace x then (if acc = [] then fieldsAcc [] xs else rev acc # fieldsAcc [] xs)
      else fieldsAcc (x # acc) xs)"

definition fields :: "string \<Rightarrow> string list" where
  "fields s = fieldsAcc [] s"

subsection \<open>Numbers in decimal\<close>

definition int64_min :: int where "int64_min = - (2 ^ 63)"
definition int64_max :: int where "int64_max = 2 ^ 63 - 1"

text \<open>Two's complement wrap-around of Go's \<open>int\<close> (64 bits).\<close>

definition wrap64 :: "int \<Rightarrow> int" where
  "wrap64 i = (i + 2 ^ 63) mod 2 ^ 64 - 2 ^ 63"

definition digitVal :: "char \<Rightarrow> nat" where
  "digitVal c = of_char c - 48"

fun decValue :: "nat \<Rightarrow> string \<Rightarrow> nat" where
  "decValue acc [] = acc"
| "decValue acc (c # cs) = decValue (10 * acc + digitVal c) cs"

text \<open>\<open>strconv.Atoi\<close>: an optional sign and digits, in the range of \<open>int\<close>; \<open>None\<close> is the error.\<close>

definition atoi :: "string \<Rightarrow> int option" where
  "atoi s =
     (let neg = hasPrefix ''-'' s;
          ds = (if hasPrefix ''-'' s \<or> hasPrefix ''+'' s then tl s else s)
      in if ds = [] \<or> \<not> list_all isDigit ds then None
         else let v = (if neg then - int (decValue 0 ds) else int (decValue 0 ds))
              in if int64_min \<le> v \<and> v \<le> int64_max then Some v else None)"

fun itoaNat :: "nat \<Rightarrow> string" where
  "itoaNat n = (if n < 10 then [char_of (48 + n)]
                else itoaNat (n div 10) @ [char_of (48 + n mod 10)])"

declare itoaNat.simps [simp del]

definition itoa :: "int \<Rightarrow> string" where
  "itoa i = (if i < 0 then CHR ''-'' # itoaNat (nat (- i)) else itoaNat (nat i))"

text \<open>\<open>strconv.Quote\<close> (the verb \<open>%q\<close>) of ASCII text.\<close>

definition hexDigit :: "nat \<Rightarrow> char" where
  "hexDigit n = (if n < 10 then char_of (48 + n) else char_of (87 + n))"

definition quoteChar :: "char \<Rightarrow> string" where
  "quoteChar c =
     (let n = of_char c :: nat; bs = char_of (92 :: nat) in
      if n = 34 \<or> n = 92 then [bs, c]
      else if 32 \<le> n \<and> n < 127 then [c]
      else if n = 7 then [bs, CHR ''a''] else if n = 8 then [bs, CHR ''b'']
      else if n = 12 then [bs, CHR ''f''] else if n = 10 then [bs, CHR ''n'']
      else if n = 13 then [bs, CHR ''r''] else if n = 9 then [bs, CHR ''t'']
      else if n = 11 then [bs, CHR ''v'']
      else [bs, CHR ''x'', hexDigit (n div 16), hexDigit (n mod 16)])"

definition goQuote :: "string \<Rightarrow> string" where
  "goQuote s = (let q = char_of (34 :: nat) in q # concat (map quoteChar s) @ [q])"

text \<open>Go's integer division truncates towards zero.\<close>

definition quot :: "int \<Rightarrow> int \<Rightarrow> int" where
  "quot a b = sgn a * sgn b * (\<bar>a\<bar> div \<bar>b\<bar>)"


section \<open>Outcomes of a Go call\<close>

text \<open>
  A call returns, returns an error, or panics.  Code that never panics in the model uses the
  sum type instead.
\<close>

datatype ('e, 'a) outcome = Ret 'a | Fail 'e | Panic

fun obind :: "('e, 'a) outcome \<Rightarrow> ('a \<Rightarrow> ('e, 'b) outcome) \<Rightarrow> ('e, 'b) outcome" where
  "obind (Ret a) f = f a"
| "obind (Fail e) f = Fail e"
| "obind Panic f = Panic"

lemma obind_eq_Ret: "(obind m f = Ret b) = (\<exists>a. m = Ret a \<and> f a = Ret b)"
  by (cases m) auto

lemma obind_eq_Fail: "(obind m f = Fail e) = (m = Fail e \<or> (\<exists>a. m = Ret a \<and> f a = Fail e))"
  by (cases m) auto

lemma obind_eq_Panic: "(obind m f = Panic) = (m = Panic \<or> (\<exists>a. m = Ret a \<and> f a = Panic))"
  by (cases m) auto

lemma find_In: "find P l = Some x \<Longrightarrow> x \<in> set l \<and> P x"
  by (auto simp: find_Some_iff)

section \<open>Lemmas on the string library\<close>

subsection \<open>Trimming\<close>

lemma dropWhile_hd: "dropWhile p s = x # xs \<Longrightarrow> \<not> p x"
  by (induction s) (auto split: if_splits)

lemma dropWhile_fixed: "s = [] \<or> \<not> p (hd s) \<Longrightarrow> dropWhile p s = s"
  by (cases s) auto

lemma hd_dropWhile_not: "dropWhile p s = [] \<or> \<not> p (hd (dropWhile p s))"
  by (cases "dropWhile p s") (auto dest: dropWhile_hd)

lemma trimBy_fixed: "s = [] \<or> (\<not> p (hd s) \<and> \<not> p (last s)) \<Longrightarrow> trimBy p s = s"
  by (cases "s = []") (auto simp: trimBy_def dropWhile_fixed hd_rev)

lemma dropWhile_suffix: "\<exists>us. s = us @ dropWhile p s \<and> list_all p us"
  by (rule exI [of _ "takeWhile p s"]) (auto simp: list_all_iff dest: set_takeWhileD)

lemma trimBy_ends: "trimBy p s = [] \<or> (\<not> p (hd (trimBy p s)) \<and> \<not> p (last (trimBy p s)))"
proof (cases "trimBy p s = []")
  case False
  let ?t = "dropWhile p s"
  obtain us where us: "rev ?t = us @ dropWhile p (rev ?t)" "list_all p us"
    using dropWhile_suffix by blast
  have t: "?t = trimBy p s @ rev us"
    using us(1) by (metis rev_append rev_rev_ident trimBy_def)
  have "hd ?t = hd (trimBy p s)" using t False by (metis hd_append2)
  moreover have "\<not> p (hd ?t)" using hd_dropWhile_not [of p s] t False by auto
  moreover have "\<not> p (last (trimBy p s))"
    using hd_dropWhile_not [of p "rev ?t"] False by (auto simp: trimBy_def last_rev)
  ultimately show ?thesis by simp
qed simp

lemma trimBy_idem [simp]: "trimBy p (trimBy p s) = trimBy p s"
  by (rule trimBy_fixed) (rule trimBy_ends)

lemma set_trimBy: "set (trimBy p s) \<subseteq> set s"
  by (auto simp: trimBy_def dest!: set_dropWhileD)

lemma length_trimBy: "length (trimBy p s) \<le> length s"
  by (simp add: trimBy_def) (metis length_dropWhile_le length_rev order_trans)

lemma trimBy_id_iff: "trimBy p s = s \<longleftrightarrow> s = [] \<or> (\<not> p (hd s) \<and> \<not> p (last s))"
  by (metis trimBy_ends trimBy_fixed)

lemma trimBy_Nil_iff: "trimBy p s = [] \<longleftrightarrow> list_all p s"
  by (auto simp: trimBy_def dropWhile_eq_Nil_conv list_all_iff dest: set_dropWhileD)
    (metis dropWhile_eq_Nil_conv hd_dropWhile list.set_sel(1))

lemma trimSpace_idem [simp]: "trimSpace (trimSpace s) = trimSpace s"
  by (simp add: trimSpace_def)

lemma trimSpace_Nil [simp]: "trimSpace [] = []"
  by (simp add: trimSpace_def trimBy_def)

subsection \<open>Case\<close>

lemma foldl_invariant:
  "P c \<Longrightarrow> (\<And>c x. P c \<Longrightarrow> x \<in> set xs \<Longrightarrow> P (f c x)) \<Longrightarrow> P (foldl f c xs)"
  by (induction xs arbitrary: c) auto

lemma set_update_subset: "set (AList.update k v m) \<subseteq> insert (k, v) (set m)"
  by (induction m) auto

text \<open>For evaluation, the character classes read the bits of the byte.\<close>

lemma isSpace_code [code]:
  "isSpace (Char b0 b1 b2 b3 b4 b5 b6 b7) =
     (\<not> b7 \<and> \<not> b6 \<and> (if b5 then \<not> b4 \<and> \<not> b3 \<and> \<not> b2 \<and> \<not> b1 \<and> \<not> b0 else \<not> b4 \<and> b3 \<and> (if b2 then \<not> b1 else b1 \<or> b0)))"
  by (cases b0; cases b1; cases b2; cases b3; cases b4; cases b5; cases b6; cases b7; simp add: isSpace_def)

lemma isDigit_code [code]:
  "isDigit (Char b0 b1 b2 b3 b4 b5 b6 b7) = (\<not> b7 \<and> \<not> b6 \<and> b5 \<and> b4 \<and> (b3 \<longrightarrow> \<not> b2 \<and> \<not> b1))"
  by (cases b0; cases b1; cases b2; cases b3; cases b4; cases b5; cases b6; cases b7; simp add: isDigit_def)

lemma isLowerLetter_code [code]:
  "isLowerLetter (Char b0 b1 b2 b3 b4 b5 b6 b7) =
     (\<not> b7 \<and> b6 \<and> b5 \<and> (if b4 then b3 \<longrightarrow> \<not> b2 \<and> (b1 \<longrightarrow> \<not> b0) else b3 \<or> b2 \<or> b1 \<or> b0))"
  by (cases b0; cases b1; cases b2; cases b3; cases b4; cases b5; cases b6; cases b7; simp add: isLowerLetter_def)

lemma isUpperLetter_code [code]:
  "isUpperLetter (Char b0 b1 b2 b3 b4 b5 b6 b7) =
     (\<not> b7 \<and> b6 \<and> \<not> b5 \<and> (if b4 then b3 \<longrightarrow> \<not> b2 \<and> (b1 \<longrightarrow> \<not> b0) else b3 \<or> b2 \<or> b1 \<or> b0))"
  by (cases b0; cases b1; cases b2; cases b3; cases b4; cases b5; cases b6; cases b7; simp add: isUpperLetter_def)

lemma toLowerChar_code [code]:
  "toLowerChar (Char b0 b1 b2 b3 b4 b5 b6 b7) =
     (if isUpperLetter (Char b0 b1 b2 b3 b4 b5 b6 b7) then Char b0 b1 b2 b3 b4 True b6 b7 else Char b0 b1 b2 b3 b4 b5 b6 b7)"
  unfolding toLowerChar_def isUpperLetter_code
  by (cases b0; cases b1; cases b2; cases b3; cases b4; cases b5; cases b6; cases b7; simp add: char_of_def bit_0)

lemma of_char_toLowerChar:
  "(of_char (toLowerChar c) :: nat) = (if isUpperLetter c then of_char c + 32 else of_char c)"
  by (auto simp: toLowerChar_def isUpperLetter_def Let_def of_char_of)

lemma toLowerChar_not_upper: "\<not> isUpperLetter (toLowerChar c)"
  by (auto simp: isUpperLetter_def Let_def of_char_toLowerChar)

lemma toLowerChar_idem [simp]: "toLowerChar (toLowerChar c) = toLowerChar c"
  using toLowerChar_not_upper [of c] by (simp add: toLowerChar_def [of "toLowerChar c"])

lemma toLower_idem [simp]: "toLower (toLower s) = toLower s"
  by (simp add: toLower_def)

lemma length_toLower [simp]: "length (toLower s) = length s"
  by (simp add: toLower_def)

lemma isSpace_toLowerChar [simp]: "isSpace (toLowerChar c) = isSpace c"
  by (auto simp: isSpace_def isUpperLetter_def Let_def of_char_toLowerChar)

subsection \<open>Splitting and joining\<close>

lemma splitOn_ne [simp]: "splitOn c s \<noteq> []"
  by (cases s) (auto split: list.splits)

lemma splitOn_no_sep: "w \<in> set (splitOn c s) \<Longrightarrow> c \<notin> set w"
  by (induction s arbitrary: w) (auto split: list.splits if_splits)

lemma splitOn_notin: "c \<notin> set s \<Longrightarrow> splitOn c s = [s]"
  by (induction s) auto

lemma splitOn_append: "c \<notin> set w \<Longrightarrow> splitOn c (w @ c # s) = w # splitOn c s"
  by (induction w) auto

lemma joinWith_Cons: "ws \<noteq> [] \<Longrightarrow> joinWith sep (w # ws) = w @ sep @ joinWith sep ws"
  by (cases ws) auto

lemma joinWith_splitOn: "joinWith [c] (splitOn c s) = s"
proof (induction s)
  case (Cons x xs)
  obtain w ws where "splitOn c xs = w # ws"
    by (cases "splitOn c xs") auto
  with Cons show ?case by (cases ws) (auto simp: joinWith_Cons)
qed simp

lemma splitOn_joinWith:
  "ws \<noteq> [] \<Longrightarrow> \<forall>w \<in> set ws. c \<notin> set w \<Longrightarrow> splitOn c (joinWith [c] ws) = ws"
proof (induction ws)
  case (Cons w ws)
  then show ?case
    by (cases "ws = []") (auto simp: joinWith_Cons splitOn_notin splitOn_append)
qed simp

lemma splitOn_inject: "splitOn c s = splitOn c t \<Longrightarrow> s = t"
  by (metis joinWith_splitOn)

lemma cut_append: "c \<notin> set a \<Longrightarrow> cut c (a @ c # b) = (a, b, True)"
proof -
  assume h: "c \<notin> set a"
  then have "takeWhile (\<lambda>x. x \<noteq> c) (a @ c # b) = a"
    and "dropWhile (\<lambda>x. x \<noteq> c) (a @ c # b) = c # b"
    by (induction a) auto
  then show ?thesis by (simp add: cut_def)
qed

lemma cut_found: "cut c s = (a, b, True) \<Longrightarrow> s = a @ c # b \<and> c \<notin> set a"
proof -
  assume h: "cut c s = (a, b, True)"
  then have "c \<in> set s" by (simp add: cut_def split: if_splits)
  then obtain u v where s: "s = u @ c # v" "c \<notin> set u"
    by (metis split_list_first)
  have "cut c s = (u, v, True)"
    unfolding s(1) by (rule cut_append) (rule s(2))
  with h s show ?thesis by simp
qed

subsection \<open>Decimal numbers\<close>

lemma wrap64_id: "int64_min \<le> i \<Longrightarrow> i \<le> int64_max \<Longrightarrow> wrap64 i = i"
  by (simp add: wrap64_def int64_min_def int64_max_def)

lemma wrap64_range: "int64_min \<le> wrap64 i \<and> wrap64 i \<le> int64_max"
proof -
  have "0 \<le> (i + 2 ^ 63) mod 2 ^ 64" "(i + 2 ^ 63) mod 2 ^ 64 < (2 ^ 64 :: int)"
    by (rule pos_mod_sign, simp) (rule pos_mod_bound, simp)
  then show ?thesis by (simp add: wrap64_def int64_min_def int64_max_def)
qed

lemma decValue_append: "decValue acc (xs @ [c]) = 10 * decValue acc xs + digitVal c"
  by (induction xs arbitrary: acc) auto

lemma digit_char: "n < 10 \<Longrightarrow> isDigit (char_of (48 + n)) \<and> digitVal (char_of (48 + n)) = n"
  by (simp add: isDigit_def digitVal_def Let_def of_char_of)

lemma itoaNat_digits: "list_all isDigit (itoaNat n) \<and> itoaNat n \<noteq> [] \<and> decValue 0 (itoaNat n) = n"
proof (induction n rule: itoaNat.induct)
  case (1 n)
  show ?case
  proof (cases "n < 10")
    case True
    then show ?thesis by (simp add: itoaNat.simps [of n] digit_char)
  next
    case False
    with 1 show ?thesis
      by (simp add: itoaNat.simps [of n] decValue_append digit_char)
  qed
qed

lemma itoaNat_hd: "itoaNat n = c # cs \<Longrightarrow> c \<noteq> CHR ''-'' \<and> c \<noteq> CHR ''+''"
  using itoaNat_digits [of n] by (auto simp: isDigit_def Let_def)

lemma atoi_itoa:
  assumes "int64_min \<le> i" "i \<le> int64_max"
  shows "atoi (itoa i) = Some i"
proof (cases "i < 0")
  case True
  then show ?thesis
    using assms itoaNat_digits [of "nat (- i)"]
    by (simp add: atoi_def itoa_def hasPrefix_def)
next
  case False
  then show ?thesis
    using assms itoaNat_digits [of "nat i"] itoaNat_hd [of "nat i"]
    by (cases "itoaNat (nat i)") (auto simp: atoi_def itoa_def hasPrefix_def)
qed

section \<open>Contracts\<close>

text \<open>
  A self-delimiting encoding: the decoder reads one value and hands the remaining bytes back.
\<close>

locale codec =
  fixes valid :: "'a \<Rightarrow> bool"
    and enc :: "'a \<Rightarrow> string"
    and dec :: "string \<Rightarrow> ('e, 'a \<times> string) outcome"
  assumes dec_enc: "valid a \<Longrightarrow> dec (enc a @ rest) = Ret (a, rest)"
begin

lemma enc_cancel:
  assumes "valid a" "valid b" "enc a @ r = enc b @ s"
  shows "a = b \<and> r = s"
proof -
  have "dec (enc a @ r) = Ret (b, s)" unfolding assms(3) by (rule dec_enc) (rule assms(2))
  with dec_enc [OF assms(1), of r] show ?thesis by simp
qed

lemma enc_inj: "valid a \<Longrightarrow> valid b \<Longrightarrow> enc a = enc b \<Longrightarrow> a = b"
  using enc_cancel [of a b "[]" "[]"] by simp

lemma enc_prefix_free: "valid a \<Longrightarrow> valid b \<Longrightarrow> enc b = enc a @ s \<Longrightarrow> s = []"
  using enc_cancel [of a b s "[]"] by simp

end

text \<open>A normal form: applying the function twice changes nothing more.\<close>

locale normal_form =
  fixes norm :: "'a \<Rightarrow> 'a"
  assumes norm_norm [simp]: "norm (norm x) = norm x"
begin

lemma norm_range: "y \<in> range norm \<longleftrightarrow> norm y = y"
  by (metis norm_norm rangeE rangeI)

lemma same_key_sym: "norm x = norm y \<longleftrightarrow> norm (norm x) = norm (norm y)"
  by simp

end

interpretation trim: normal_form trimSpace
  by unfold_locales simp

interpretation lower: normal_form toLower
  by unfold_locales simp

text \<open>A state machine and an invariant that its start states have and its steps keep.\<close>

locale safe_machine =
  fixes init :: "'s \<Rightarrow> bool" and step :: "'s \<Rightarrow> 's \<Rightarrow> bool" and inv :: "'s \<Rightarrow> bool"
  assumes init_inv: "init s \<Longrightarrow> inv s"
    and step_inv: "inv s \<Longrightarrow> step s t \<Longrightarrow> inv t"
begin

lemma run_inv: "step\<^sup>*\<^sup>* s t \<Longrightarrow> inv s \<Longrightarrow> inv t"
  by (induction rule: rtranclp_induct) (auto intro: step_inv)

lemma reach_inv: "init s \<Longrightarrow> step\<^sup>*\<^sup>* s t \<Longrightarrow> inv t"
  by (blast intro: run_inv init_inv)

end

text \<open>
  A machine that implements an abstract one: every step, taken in a state with the invariant, is a
  (possibly empty) run of the abstract machine between the abstractions of the two states.
\<close>

locale refines = safe_machine +
  fixes abs :: "'s \<Rightarrow> 'a" and astep :: "'a \<Rightarrow> 'a \<Rightarrow> bool"
  assumes simulates: "inv s \<Longrightarrow> step s t \<Longrightarrow> astep\<^sup>*\<^sup>* (abs s) (abs t)"
begin

lemma run_simulates: "step\<^sup>*\<^sup>* s t \<Longrightarrow> inv s \<Longrightarrow> astep\<^sup>*\<^sup>* (abs s) (abs t)"
proof (induction rule: rtranclp_induct)
  case (step t u)
  then have "inv t" using run_inv by blast
  with step simulates show ?case by (meson rtranclp_trans)
qed simp

lemma reach_simulates: "init s \<Longrightarrow> step\<^sup>*\<^sup>* s t \<Longrightarrow> astep\<^sup>*\<^sup>* (abs s) (abs t)"
  by (blast intro: run_simulates init_inv)

end

end
