(* ===== verification/Calendar.thy ===== *)
theory Calendar
  imports GoPrelude
begin

text \<open>
  The part of Go's \<open>time\<close> package the scheduler uses.  A \<open>time.Time\<close> in UTC is the number of
  nanoseconds since the Unix epoch, without bound; the zero \<open>time.Time{}\<close> that the source uses for
  \<^emph>\<open>no time\<close> is \<open>None\<close> where it can occur.  The civil date is the proleptic Gregorian one, computed by
  splitting off cycles of 400, 100, 4 and 1 years, and checked below against the ordinary count of
  days per year.
\<close>

section \<open>Definitions\<close>

type_synonym gotime = int

definition nsPerSecond :: int where "nsPerSecond = 1000000000"
definition nsPerMinute :: int where "nsPerMinute = 60000000000"
definition nsPerHour :: int where "nsPerHour = 3600000000000"

definition timeUnix :: "gotime \<Rightarrow> int" where
  "timeUnix t = t div nsPerSecond"

definition fromUnix :: "int \<Rightarrow> gotime" where
  "fromUnix s = s * nsPerSecond"

text \<open>\<open>Truncate\<close> by a minute: the zero time is a whole number of minutes before the epoch.\<close>

definition truncateMinute :: "gotime \<Rightarrow> gotime" where
  "truncateMinute t = t div nsPerMinute * nsPerMinute"

definition timeSecond :: "gotime \<Rightarrow> int" where "timeSecond t = timeUnix t mod 60"
definition timeMinute :: "gotime \<Rightarrow> int" where "timeMinute t = timeUnix t mod 3600 div 60"
definition timeHour :: "gotime \<Rightarrow> int" where "timeHour t = timeUnix t mod 86400 div 3600"
definition unixDay :: "gotime \<Rightarrow> int" where "unixDay t = timeUnix t div 86400"
definition timeWeekday :: "gotime \<Rightarrow> int" where "timeWeekday t = (unixDay t + 4) mod 7"

definition isLeap :: "int \<Rightarrow> bool" where
  "isLeap y = (y mod 4 = 0 \<and> (y mod 100 \<noteq> 0 \<or> y mod 400 = 0))"

text \<open>Year and day of the year of a day, counted from 1 January of year 1.\<close>

definition yearAndDay :: "int \<Rightarrow> int \<times> int" where
  "yearAndDay z =
     (let n400 = z div 146097; r = z mod 146097;
          n100 = min 3 (r div 36524); r = r - 36524 * n100;
          n4 = r div 1461; r = r mod 1461;
          n1 = min 3 (r div 365); r = r - 365 * n1
      in (400 * n400 + 100 * n100 + 4 * n4 + n1 + 1, r))"

definition monthStarts :: "bool \<Rightarrow> int list" where
  "monthStarts leap =
     (if leap then [0, 31, 60, 91, 121, 152, 182, 213, 244, 274, 305, 335]
      else [0, 31, 59, 90, 120, 151, 181, 212, 243, 273, 304, 334])"

definition civil :: "int \<Rightarrow> int \<times> int \<times> int" where
  "civil d =
     (let (y, yday) = yearAndDay (d + 719162);
          starts = filter (\<lambda>b. b \<le> yday) (monthStarts (isLeap y))
      in (y, int (length starts), yday - last starts + 1))"

definition timeYear :: "gotime \<Rightarrow> int" where "timeYear t = fst (civil (unixDay t))"
definition timeMonth :: "gotime \<Rightarrow> int" where "timeMonth t = fst (snd (civil (unixDay t)))"
definition timeDay :: "gotime \<Rightarrow> int" where "timeDay t = snd (snd (civil (unixDay t)))"

section \<open>Lemmas\<close>

lemmas ns_defs = nsPerSecond_def nsPerMinute_def nsPerHour_def

text \<open>Days before 1 January of a year.\<close>

definition daysBeforeYear :: "int \<Rightarrow> int" where
  "daysBeforeYear y = 365 * (y - 1) + (y - 1) div 4 - (y - 1) div 100 + (y - 1) div 400"

lemma daysBeforeYear_parts:
  assumes "0 \<le> a" "a \<le> 3" "0 \<le> b" "b \<le> 24" "0 \<le> c" "c \<le> 3"
  shows "daysBeforeYear (400 * n + 100 * a + 4 * b + c + 1) = 146097 * n + 36524 * a + 1461 * b + 365 * c"
proof -
  have "(400 * n + 100 * a + 4 * b + c) div 4 = 100 * n + 25 * a + b"
    by (rule int_div_pos_eq [where r = c]) (use assms in auto)
  moreover have "(400 * n + 100 * a + 4 * b + c) div 100 = 4 * n + a"
    by (rule int_div_pos_eq [where r = "4 * b + c"]) (use assms in auto)
  moreover have "(400 * n + 100 * a + 4 * b + c) div 400 = n"
    by (rule int_div_pos_eq [where r = "100 * a + 4 * b + c"]) (use assms in auto)
  ultimately show ?thesis by (simp add: daysBeforeYear_def)
qed

lemma mod_zero_between: "0 < r \<Longrightarrow> r \<le> (k :: int) \<Longrightarrow> (k * q + r) mod k = 0 \<longleftrightarrow> r = k"
  by (cases "r = k") (auto simp: mod_pos_pos_trivial)

lemma isLeap_parts:
  assumes "0 \<le> a" "a \<le> 3" "0 \<le> b" "b \<le> 24" "0 \<le> c" "c \<le> 3"
  shows "isLeap (400 * n + 100 * a + 4 * b + c + 1) \<longleftrightarrow> c = 3 \<and> (b \<noteq> 24 \<or> a = 3)"
proof -
  let ?y = "400 * n + 100 * a + 4 * b + c + 1"
  have "?y mod 4 = 0 \<longleftrightarrow> c + 1 = 4"
    using mod_zero_between [of "c + 1" 4 "100 * n + 25 * a + b"] assms by (simp add: algebra_simps)
  moreover have "?y mod 100 = 0 \<longleftrightarrow> 4 * b + c + 1 = 100"
    using mod_zero_between [of "4 * b + c + 1" 100 "4 * n + a"] assms by (simp add: algebra_simps)
  moreover have "?y mod 400 = 0 \<longleftrightarrow> 100 * a + 4 * b + c + 1 = 400"
    using mod_zero_between [of "100 * a + 4 * b + c + 1" 400 n] assms by (simp add: algebra_simps)
  ultimately show ?thesis
    using assms unfolding isLeap_def by auto
qed

text \<open>Splitting off at most three cycles of a length, as the date algorithm does twice.\<close>

lemma split_three:
  fixes r k :: int
  assumes "0 \<le> r" "0 < k" "r \<le> 4 * k"
  defines "a \<equiv> min 3 (r div k)"
  shows "0 \<le> a" "a \<le> 3" "0 \<le> r - k * a" "r - k * a \<le> k" "a < 3 \<Longrightarrow> r - k * a < k"
proof -
  define q m where "q = r div k" and "m = r mod k"
  have d: "r = k * q + m" "0 \<le> m" "m < k" using assms(2) by (simp_all add: q_def m_def)
  have q: "0 \<le> q" using assms by (simp add: q_def pos_imp_zdiv_nonneg_iff)
  have a: "a = min 3 q" by (simp add: a_def q_def)
  show "0 \<le> a" "a \<le> 3" using q by (simp_all add: a)
  show "a < 3 \<Longrightarrow> r - k * a < k" using d by (auto simp: a min_def split: if_splits)
  have "q \<le> 3 \<or> q = 4 \<and> m = 0"
  proof (cases "q \<le> 3")
    case False
    then have "k * 4 \<le> k * q" using assms(2) by simp
    then have "m \<le> 0" "k * q \<le> k * 4" using d assms(3) by linarith+
    with False d(2) assms(2) show ?thesis by (auto dest: mult_left_le_imp_le)
  qed auto
  then show "0 \<le> r - k * a" "r - k * a \<le> k" using d by (auto simp: a min_def)
qed

lemma yearAndDay_correct:
  assumes "yearAndDay z = (y, yday)"
  shows "z = daysBeforeYear y + yday" "0 \<le> yday" "yday < (if isLeap y then 366 else 365)"
proof -
  define n r where "n = z div 146097" and "r = z mod 146097"
  define a r1 where "a = min 3 (r div 36524)" and "r1 = r - 36524 * a"
  define b r2 where "b = r1 div 1461" and "r2 = r1 mod 1461"
  define c where "c = min 3 (r2 div 365)"
  have y: "y = 400 * n + 100 * a + 4 * b + c + 1" "yday = r2 - 365 * c"
    using assms by (simp_all add: yearAndDay_def Let_def n_def r_def a_def r1_def b_def r2_def c_def)
  have r: "0 \<le> r" "r < 146097" "z = 146097 * n + r" by (simp_all add: r_def n_def)
  have a: "0 \<le> a" "a \<le> 3" "0 \<le> r1" "r1 \<le> 36524" "a < 3 \<longrightarrow> r1 < 36524"
    using split_three [of r 36524] r unfolding a_def [symmetric] r1_def by auto
  have b2: "r1 = 1461 * b + r2" "0 \<le> r2" "r2 < 1461" by (simp_all add: b_def r2_def)
  then have b: "0 \<le> b" "b \<le> 24" "0 \<le> r2" "r2 \<le> 1460" "r1 = 1461 * b + r2" "b = 24 \<and> a < 3 \<longrightarrow> r2 < 1460"
    using a by linarith+
  have c: "0 \<le> c" "c \<le> 3" "0 \<le> yday" "yday \<le> 365" "c < 3 \<longrightarrow> yday < 365"
    using split_three [of r2 365] b unfolding c_def [symmetric] y(2) by auto
  have c3: "r2 < 1460 \<longrightarrow> yday < 365" using c unfolding y(2) by (cases "c < 3") auto
  show "z = daysBeforeYear y + yday"
    using daysBeforeYear_parts [OF a(1,2) b(1,2) c(1,2), of n] r(3) b(5) unfolding y r1_def by simp
  show "0 \<le> yday" by (rule c)
  show "yday < (if isLeap y then 366 else 365)"
    using isLeap_parts [OF a(1,2) b(1,2) c(1,2), of n] c c3 b a unfolding y(1) by auto
qed

lemma civil_ranges:
  assumes "civil d = (y, m, dd)"
  shows "1 \<le> m" "m \<le> 12" "1 \<le> dd" "dd \<le> 31"
proof -
  obtain yd where z: "yearAndDay (d + 719162) = (y, yd)"
    using assms by (auto simp: civil_def Let_def split: prod.splits)
  note yd = yearAndDay_correct [OF z]
  have "1 \<le> m \<and> m \<le> 12 \<and> 1 \<le> dd \<and> dd \<le> 31"
    using assms yd(2,3) z by (auto simp: civil_def monthStarts_def Let_def split: if_splits)
  then show "1 \<le> m" "m \<le> 12" "1 \<le> dd" "dd \<le> 31" by auto
qed

lemma time_ranges:
  "0 \<le> timeMinute t" "timeMinute t \<le> 59" "0 \<le> timeHour t" "timeHour t \<le> 23"
  "0 \<le> timeWeekday t" "timeWeekday t \<le> 6" "1 \<le> timeMonth t" "timeMonth t \<le> 12" "1 \<le> timeDay t" "timeDay t \<le> 31"
proof -
  show "0 \<le> timeMinute t" "timeMinute t \<le> 59" "0 \<le> timeHour t" "timeHour t \<le> 23" "0 \<le> timeWeekday t" "timeWeekday t \<le> 6"
    using zdiv_mono1 [of "timeUnix t mod 3600" 3599 60] zdiv_mono1 [of "timeUnix t mod 86400" 86399 3600]
      pos_mod_bound [of 3600 "timeUnix t"] pos_mod_bound [of 86400 "timeUnix t"] pos_mod_bound [of 7 "unixDay t + 4"]
    by (simp_all add: timeMinute_def timeHour_def timeWeekday_def pos_imp_zdiv_nonneg_iff)
  obtain y m d where c: "civil (unixDay t) = (y, m, d)" by (cases "civil (unixDay t)")
  show "1 \<le> timeMonth t" "timeMonth t \<le> 12" "1 \<le> timeDay t" "timeDay t \<le> 31"
    using civil_ranges [OF c] by (simp_all add: timeMonth_def timeDay_def c)
qed

end
