(* ===== verification/Cron.thy ===== *)
theory Cron
  imports Calendar
begin

text \<open>
  The scheduler of \<open>runtime/cron.go\<close>: interval and calendar plans, the parser of cron expressions, the
  validation of jobs, the translation to Temporal calendars, and the loop that runs a job.  Errors are
  their messages.  The loop that fills a field is a \<open>partial_function\<close>, because with a non-positive step it
  would not end; \<open>None\<close> is divergence and \<open>Panic\<close> an index out of range.  Integers that the source
  computes in \<open>int\<close> and that can overflow are wrapped to 64 bits.
\<close>

section \<open>Definitions\<close>

subsection \<open>Plans\<close>

record cronField =
  cf_any :: bool
  cf_min :: int
  cf_max :: int
  cf_values :: "bool list"

definition newCronField :: "int \<Rightarrow> int \<Rightarrow> cronField" where
  "newCronField lo hi = \<lparr>cf_any = False, cf_min = lo, cf_max = hi, cf_values = replicate (nat (hi - lo + 1)) False\<rparr>"

definition Has :: "cronField \<Rightarrow> int \<Rightarrow> bool" where
  "Has f v =
     (if cf_any f then True
      else if v < cf_min f \<or> v > cf_max f then False
      else cf_values f ! nat (v - cf_min f))"

record parsedCronPlan =
  cp_minute :: cronField
  cp_hour :: cronField
  cp_dom :: cronField
  cp_month :: cronField
  cp_dow :: cronField

datatype cronPlan = EveryCronPlan int | ParsedCronPlan parsedCronPlan

definition everyNext :: "int \<Rightarrow> gotime \<Rightarrow> gotime" where
  "everyNext interval after =
     (let seconds = quot interval nsPerSecond
      in fromUnix (wrap64 (wrap64 (quot (timeUnix after) seconds + 1) * seconds)))"

definition matches :: "parsedCronPlan \<Rightarrow> gotime \<Rightarrow> bool" where
  "matches p t =
     (if \<not> Has (cp_minute p) (timeMinute t) \<or> \<not> Has (cp_hour p) (timeHour t) \<or> \<not> Has (cp_month p) (timeMonth t)
      then False
      else let domMatch = Has (cp_dom p) (timeDay t);
               dow = timeWeekday t;
               dowMatch = (Has (cp_dow p) dow \<or> (dow = 0 \<and> Has (cp_dow p) 7))
           in if cf_any (cp_dom p) \<and> cf_any (cp_dow p) then True
              else if cf_any (cp_dom p) then dowMatch
              else if cf_any (cp_dow p) then domMatch
              else domMatch \<or> dowMatch)"

definition maxCronScheduleHorizon :: int where
  "maxCronScheduleHorizon = 5 * 366 * 24 * nsPerHour"

text \<open>The loop of \<open>parsedCronPlan.Next\<close>; \<open>None\<close> is the zero time.\<close>

function nextFrom :: "parsedCronPlan \<Rightarrow> gotime \<Rightarrow> gotime \<Rightarrow> gotime option" where
  "nextFrom p deadline t =
     (if t \<le> deadline then (if matches p t then Some t else nextFrom p deadline (t + nsPerMinute)) else None)"
  by pat_completeness auto
termination
  by (relation "measure (\<lambda>(p, deadline, t). nat (deadline + 1 - t))") (auto simp: nsPerMinute_def)

declare nextFrom.simps [simp del]

definition parsedNext :: "parsedCronPlan \<Rightarrow> gotime \<Rightarrow> gotime option" where
  "parsedNext p after =
     (let t = truncateMinute after + nsPerMinute in nextFrom p (t + maxCronScheduleHorizon) t)"

fun Next :: "cronPlan \<Rightarrow> gotime \<Rightarrow> gotime option" where
  "Next (EveryCronPlan interval) after = Some (everyNext interval after)"
| "Next (ParsedCronPlan p) after = parsedNext p after"

subsection \<open>Parsing\<close>

definition cronMonthNames :: "(string, int) gomap" where
  "cronMonthNames =
     [(''JAN'', 1), (''FEB'', 2), (''MAR'', 3), (''APR'', 4), (''MAY'', 5), (''JUN'', 6),
      (''JUL'', 7), (''AUG'', 8), (''SEP'', 9), (''OCT'', 10), (''NOV'', 11), (''DEC'', 12)]"

definition cronDayNames :: "(string, int) gomap" where
  "cronDayNames =
     [(''SUN'', 0), (''MON'', 1), (''TUE'', 2), (''WED'', 3), (''THU'', 4), (''FRI'', 5), (''SAT'', 6)]"

definition parseCronValue :: "string \<Rightarrow> (string, int) gomap option \<Rightarrow> string + int" where
  "parseCronValue expr names =
     (let expr = trimSpace (toUpper expr)
      in if expr = [] then Inl ''empty value''
         else case (case names of None \<Rightarrow> None | Some m \<Rightarrow> map_of m expr) of
                Some v \<Rightarrow> Inr v
              | None \<Rightarrow> (case atoi expr of None \<Rightarrow> Inl (''invalid value '' @ goQuote expr) | Some v \<Rightarrow> Inr v))"

definition splitCronStep :: "string \<Rightarrow> string + (string \<times> int)" where
  "splitCronStep part =
     (if CHR ''/'' \<notin> set part then Inr (part, 1)
      else let (base, stepExpr, _) = cut CHR ''/'' part
           in if base = [] \<or> stepExpr = [] then Inl (''invalid step '' @ goQuote part)
              else case atoi stepExpr of
                     None \<Rightarrow> Inl (''invalid step '' @ goQuote part)
                   | Some step \<Rightarrow> if step \<le> 0 then Inl (''invalid step '' @ goQuote part) else Inr (base, step))"

text \<open>The inner loop \<open>for value := start; value <= end; value += step\<close>.\<close>

partial_function (option) setValues ::
  "int \<Rightarrow> int \<Rightarrow> int \<Rightarrow> int \<Rightarrow> bool list \<Rightarrow> (string, bool list) outcome option" where
  "setValues lo step stop v vs =
     (if v \<le> stop
      then let i = wrap64 (v - lo)
           in if i < 0 \<or> int (length vs) \<le> i then Some Panic
              else setValues lo step stop (wrap64 (v + step)) (vs[nat i := True])
      else Some (Ret vs))"

declare setValues.simps [code]

definition cronRange :: "string \<Rightarrow> int \<Rightarrow> int \<Rightarrow> (string, int) gomap option \<Rightarrow> string + (int \<times> int)" where
  "cronRange base lo hi names =
     (if base = ''*'' then Inr (lo, hi)
      else if CHR ''-'' \<in> set base
      then let (left, right, _) = cut CHR ''-'' base
           in case parseCronValue left names of
                Inl e \<Rightarrow> Inl e
              | Inr a \<Rightarrow> (case parseCronValue right names of Inl e \<Rightarrow> Inl e | Inr b \<Rightarrow> Inr (a, b))
      else case parseCronValue base names of Inl e \<Rightarrow> Inl e | Inr a \<Rightarrow> Inr (a, a))"

fun parseCronParts ::
  "int \<Rightarrow> int \<Rightarrow> (string, int) gomap option \<Rightarrow> string list \<Rightarrow> bool list \<Rightarrow> (string, bool list) outcome option" where
  "parseCronParts lo hi names [] vs = Some (Ret vs)"
| "parseCronParts lo hi names (part # parts) vs =
     (let part = trimSpace part
      in if part = [] then Some (Fail ''empty field segment'')
         else case splitCronStep part of
           Inl e \<Rightarrow> Some (Fail e)
         | Inr (base, step) \<Rightarrow>
           (case cronRange base lo hi names of
              Inl e \<Rightarrow> Some (Fail e)
            | Inr (start, stop) \<Rightarrow>
              if start < lo \<or> stop > hi \<or> start > stop
              then Some (Fail (''value '' @ goQuote base @ '' out of range ['' @ itoa lo @ '','' @ itoa hi @ '']''))
              else (case setValues lo step stop start vs of
                      None \<Rightarrow> None
                    | Some (Ret vs) \<Rightarrow> parseCronParts lo hi names parts vs
                    | Some (Fail e) \<Rightarrow> Some (Fail e)
                    | Some Panic \<Rightarrow> Some Panic)))"

definition parseCronField ::
  "string \<Rightarrow> int \<Rightarrow> int \<Rightarrow> (string, int) gomap option \<Rightarrow> (string, cronField) outcome option" where
  "parseCronField expr lo hi names =
     (let field = newCronField lo hi
      in if expr = ''*'' then Some (Ret (field\<lparr>cf_any := True\<rparr>))
         else map_option (\<lambda>r. obind r (\<lambda>vs. if True \<in> set vs then Ret (field\<lparr>cf_values := vs\<rparr>)
                                             else Fail ''field matches no values''))
                (parseCronParts lo hi names (splitOn CHR '','' expr) (cf_values field)))"

text \<open>Go on with the value of a field, or return its error as \<open>fmt.Errorf("invalid ... field: %w", err)\<close>.\<close>

definition bindField ::
  "(string, 'a) outcome option \<Rightarrow> string \<Rightarrow> ('a \<Rightarrow> (string, 'b) outcome option) \<Rightarrow> (string, 'b) outcome option" where
  "bindField r name k =
     (case r of None \<Rightarrow> None
      | Some (Ret a) \<Rightarrow> k a
      | Some (Fail e) \<Rightarrow> Some (Fail (''invalid '' @ name @ '' field: '' @ e))
      | Some Panic \<Rightarrow> Some Panic)"

definition parseCronSchedule :: "string \<Rightarrow> (string, parsedCronPlan) outcome option" where
  "parseCronSchedule expr =
     (case GoPrelude.fields (trimSpace expr) of
        [f0, f1, f2, f3, f4] \<Rightarrow>
          bindField (parseCronField f0 0 59 None) ''minute'' (\<lambda>mi.
          bindField (parseCronField f1 0 23 None) ''hour'' (\<lambda>h.
          bindField (parseCronField f2 1 31 None) ''day-of-month'' (\<lambda>dom.
          bindField (parseCronField f3 1 12 (Some cronMonthNames)) ''month'' (\<lambda>mo.
          bindField (parseCronField f4 0 7 (Some cronDayNames)) ''day-of-week'' (\<lambda>dow.
            Some (Ret \<lparr>cp_minute = mi, cp_hour = h, cp_dom = dom, cp_month = mo, cp_dow = dow\<rparr>))))))
      | _ \<Rightarrow> Some (Fail (''invalid cron schedule '' @ goQuote expr @ '': expected 5 fields'')))"

subsection \<open>Jobs\<close>

text \<open>Of the \<open>float64\<close> coefficient only the comparisons with zero are used.\<close>

datatype floatSign = FNegative | FZero | FPositive | FNaN

record CronRetryPolicy =
  rp_InitialInterval :: int
  rp_BackoffCoefficient :: floatSign
  rp_MaximumInterval :: int
  rp_MaximumAttempts :: int
  rp_NonRetryableErrorTypes :: "string list"

record CronJob =
  cj_ID :: string
  cj_Title :: string
  cj_Every :: int
  cj_Schedule :: string
  cj_OverlapPolicy :: string
  cj_CatchupWindow :: int
  cj_ActivityStartToClose :: int
  cj_ActivityRetryPolicy :: CronRetryPolicy
  cj_hasInvoke :: bool
  cj_plan :: "cronPlan option"

definition isValidCronJobID :: "string \<Rightarrow> bool" where
  "isValidCronJobID i =
     (let lowerDigit = (\<lambda>c. isLowerLetter c \<or> isDigit c) in
      if i = [] \<or> length i > 63 then False
      else isLowerLetter (hd i)
           \<and> (length i = 1 \<or> lowerDigit (last i))
           \<and> list_all (\<lambda>c. lowerDigit c \<or> c = CHR ''-'') (tl (butlast i)))"

definition validateCronOverlapPolicy :: "string \<Rightarrow> string option" where
  "validateCronOverlapPolicy policy =
     (if trimSpace (toLower policy) \<in> set [[], ''skip'', ''buffer_one'', ''buffer_all'', ''cancel_other'',
            ''terminate_other'', ''allow_all'']
      then None else Some (''runtime: cron overlap policy '' @ goQuote policy @ '' is invalid''))"

definition cronRetryPolicyIsZero :: "CronRetryPolicy \<Rightarrow> bool" where
  "cronRetryPolicyIsZero p =
     (rp_InitialInterval p = 0 \<and> rp_BackoffCoefficient p = FZero \<and> rp_MaximumInterval p = 0
      \<and> rp_MaximumAttempts p = 0 \<and> rp_NonRetryableErrorTypes p = [])"

definition validateCronRetryPolicy :: "string \<Rightarrow> CronRetryPolicy \<Rightarrow> string option" where
  "validateCronRetryPolicy jobID p =
     (let pre = ''runtime: cron job '' @ jobID @ '' ActivityRetryPolicy.'' in
      if cronRetryPolicyIsZero p then None
      else if rp_InitialInterval p \<le> 0 then Some (pre @ ''InitialInterval must be positive'')
      else if rp_BackoffCoefficient p = FNegative then Some (pre @ ''BackoffCoefficient cannot be negative'')
      else if rp_MaximumInterval p < 0 then Some (pre @ ''MaximumInterval cannot be negative'')
      else if rp_MaximumAttempts p < 0 then Some (pre @ ''MaximumAttempts cannot be negative'')
      else None)"

text \<open>
  \<open>validateCronJob\<close> fills in the title and the plan of the job it is given and returns an error or nil;
  the model returns the job as it is left behind with the outcome.
\<close>

definition validateCronJob :: "CronJob \<Rightarrow> (CronJob \<times> (string, unit) outcome) option" where
  "validateCronJob job =
     (if \<not> isValidCronJobID (cj_ID job) then Some (job, Fail (''runtime: invalid cron job id '' @ goQuote (cj_ID job)))
      else if \<not> cj_hasInvoke job then Some (job, Fail (''runtime: cron job '' @ cj_ID job @ '' is missing an endpoint''))
      else
        let job = (if cj_Title job = [] then job\<lparr>cj_Title := cj_ID job\<rparr> else job);
            pre = ''runtime: cron job '' @ cj_ID job;
            hasEvery = (cj_Every job > 0);
            hasSchedule = (trimSpace (cj_Schedule job) \<noteq> [])
        in if hasEvery = hasSchedule
           then Some (job, Fail (pre @ '' must define exactly one of Every or Schedule''))
           else case validateCronOverlapPolicy (cj_OverlapPolicy job) of
             Some e \<Rightarrow> Some (job, Fail e)
           | None \<Rightarrow>
             if cj_CatchupWindow job < 0 then Some (job, Fail (pre @ '' CatchupWindow cannot be negative''))
             else if cj_ActivityStartToClose job < 0
             then Some (job, Fail (pre @ '' ActivityStartToClose cannot be negative''))
             else (case validateCronRetryPolicy (cj_ID job) (cj_ActivityRetryPolicy job) of
               Some e \<Rightarrow> Some (job, Fail e)
             | None \<Rightarrow>
               if hasEvery
               then (if cj_Every job mod nsPerSecond \<noteq> 0
                     then Some (job, Fail (pre @ '' Every must be a whole number of seconds''))
                     else if (24 * nsPerHour) mod cj_Every job \<noteq> 0
                     then Some (job, Fail (pre @ '' Every must divide 24 hours evenly''))
                     else Some (job\<lparr>cj_plan := Some (EveryCronPlan (cj_Every job))\<rparr>, Ret ()))
               else (case parseCronSchedule (cj_Schedule job) of
                       None \<Rightarrow> None
                     | Some (Ret plan) \<Rightarrow> Some (job\<lparr>cj_plan := Some (ParsedCronPlan plan)\<rparr>, Ret ())
                     | Some (Fail e) \<Rightarrow> Some (job, Fail (pre @ '': '' @ e))
                     | Some Panic \<Rightarrow> Some (job, Panic))))"

subsection \<open>Temporal calendars\<close>

record TemporalCronScheduleRange =
  tr_Start :: int
  tr_End :: int
  tr_Step :: int

record TemporalCronCalendarSpec =
  tc_Second :: "TemporalCronScheduleRange list"
  tc_Minute :: "TemporalCronScheduleRange list"
  tc_Hour :: "TemporalCronScheduleRange list"
  tc_DayOfMonth :: "TemporalCronScheduleRange list"
  tc_Month :: "TemporalCronScheduleRange list"
  tc_DayOfWeek :: "TemporalCronScheduleRange list"
  tc_Comment :: string

record TemporalCronScheduleSpec =
  ts_Intervals :: "int list"
  ts_Calendars :: "TemporalCronCalendarSpec list"

definition single :: "int \<Rightarrow> TemporalCronScheduleRange" where
  "single v = \<lparr>tr_Start = v, tr_End = 0, tr_Step = 0\<rparr>"

definition cronFieldRanges :: "cronField \<Rightarrow> bool \<Rightarrow> TemporalCronScheduleRange list" where
  "cronFieldRanges f forceAny =
     (if forceAny \<or> cf_any f then [\<lparr>tr_Start = cf_min f, tr_End = cf_max f, tr_Step = 1\<rparr>]
      else map single (filter (Has f) [cf_min f..cf_max f]))"

fun dowRanges :: "cronField \<Rightarrow> int list \<Rightarrow> int list \<Rightarrow> TemporalCronScheduleRange list" where
  "dowRanges f seen [] = []"
| "dowRanges f seen (v # vs) =
     (if \<not> Has f v then dowRanges f seen vs
      else let dow = (if v = 7 then 0 else v)
           in if dow < 0 \<or> dow > 6 \<or> dow \<in> set seen then dowRanges f seen vs
              else single dow # dowRanges f (dow # seen) vs)"

definition cronDayOfWeekRanges :: "cronField \<Rightarrow> bool \<Rightarrow> TemporalCronScheduleRange list" where
  "cronDayOfWeekRanges f forceAny =
     (if forceAny \<or> cf_any f then [\<lparr>tr_Start = 0, tr_End = 6, tr_Step = 1\<rparr>]
      else dowRanges f [] [cf_min f..cf_max f])"

definition cronCalendarSpecs :: "parsedCronPlan \<Rightarrow> TemporalCronCalendarSpec list" where
  "cronCalendarSpecs plan =
     (let base = \<lparr>tc_Second = [single 0], tc_Minute = cronFieldRanges (cp_minute plan) False,
                  tc_Hour = cronFieldRanges (cp_hour plan) False, tc_DayOfMonth = [],
                  tc_Month = cronFieldRanges (cp_month plan) False, tc_DayOfWeek = [],
                  tc_Comment = ''scenery cron schedule''\<rparr>
      in if cf_any (cp_dom plan) \<or> cf_any (cp_dow plan)
         then [base\<lparr>tc_DayOfMonth := cronFieldRanges (cp_dom plan) False,
                    tc_DayOfWeek := cronDayOfWeekRanges (cp_dow plan) False\<rparr>]
         else [base\<lparr>tc_DayOfMonth := cronFieldRanges (cp_dom plan) False,
                    tc_DayOfWeek := cronDayOfWeekRanges (cp_dow plan) True\<rparr>,
               base\<lparr>tc_DayOfMonth := cronFieldRanges (cp_dom plan) True,
                    tc_DayOfWeek := cronDayOfWeekRanges (cp_dow plan) False\<rparr>])"

definition TemporalCronScheduleSpecForJob :: "CronJob \<Rightarrow> string + TemporalCronScheduleSpec" where
  "TemporalCronScheduleSpecForJob job =
     (if cj_Every job > 0 then Inr \<lparr>ts_Intervals = [cj_Every job], ts_Calendars = []\<rparr>
      else case cj_plan job of
        Some (ParsedCronPlan plan) \<Rightarrow> Inr \<lparr>ts_Intervals = [], ts_Calendars = cronCalendarSpecs plan\<rparr>
      | _ \<Rightarrow> Inl (''runtime: cron job '' @ cj_ID job @ '' schedule was not parsed''))"

subsection \<open>Running a job\<close>

text \<open>
  One turn of \<open>runCronJobLoop\<close>: the clock reading before \<open>Next\<close>, when the timer fired (\<open>None\<close> when the
  context was cancelled first), the random suffix (\<open>None\<close> when the source of randomness failed), and
  the error of the job, if any.
\<close>

record cronTurn =
  tn_now :: gotime
  tn_fired :: "gotime option"
  tn_suffix :: "string option"
  tn_err :: "string option"

definition pad :: "nat \<Rightarrow> int \<Rightarrow> string" where
  "pad n v = (let s = itoa v in replicate (n - length s) CHR ''0'' @ s)"

definition formatUTC :: "gotime \<Rightarrow> string" where
  "formatUTC t =
     pad 4 (timeYear t) @ pad 2 (timeMonth t) @ pad 2 (timeDay t) @ ''T''
     @ pad 2 (timeHour t) @ pad 2 (timeMinute t) @ pad 2 (timeSecond t) @ ''Z''"

definition newCronExecutionID :: "string option \<Rightarrow> string \<Rightarrow> gotime \<Rightarrow> string option" where
  "newCronExecutionID suffix jobID scheduledAt =
     map_option (\<lambda>s. jobID @ ''-'' @ formatUTC scheduledAt @ ''-'' @ s) suffix"

datatype cronRun = Executed gotime string "string option" | Disabled | Cancelled

fun runCronJobLoop :: "string \<Rightarrow> cronPlan \<Rightarrow> cronTurn list \<Rightarrow> cronRun list" where
  "runCronJobLoop jobID plan [] = []"
| "runCronJobLoop jobID plan (tn # turns) =
     (case Next plan (tn_now tn) of
        None \<Rightarrow> [Disabled]
      | Some t \<Rightarrow>
        (case tn_fired tn of
           None \<Rightarrow> [Cancelled]
         | Some _ \<Rightarrow>
           (case newCronExecutionID (tn_suffix tn) jobID t of
              None \<Rightarrow> runCronJobLoop jobID plan turns
            | Some eid \<Rightarrow> Executed t eid (tn_err tn) # runCronJobLoop jobID plan turns)))"

section \<open>The next firing time\<close>

text \<open>
  The contract of a plan: from any usable instant it gives the first firing time strictly later.
\<close>

locale cron_plan =
  fixes Nx :: "gotime \<Rightarrow> gotime option" and fires :: "gotime \<Rightarrow> bool" and usable :: "gotime \<Rightarrow> bool"
  assumes Nx_first: "usable a \<Longrightarrow> Nx a = Some t \<Longrightarrow> a < t \<and> fires t \<and> (\<forall>u. a < u \<and> u < t \<longrightarrow> \<not> fires u)"
begin

lemma Nx_mono:
  assumes "usable a" "usable b" "a \<le> b" "Nx a = Some s" "Nx b = Some t"
  shows "s \<le> t"
proof (rule ccontr)
  assume "\<not> s \<le> t"
  with Nx_first [OF assms(1,4)] Nx_first [OF assms(2,5)] assms(3) show False by auto
qed

text \<open>Asking again before the firing time gives the same firing time.\<close>

lemma Nx_stable:
  assumes "usable a" "usable b" "a \<le> b" "b < s" "Nx a = Some s" "Nx b = Some t"
  shows "t = s"
  using Nx_first [OF assms(1,5)] Nx_first [OF assms(2,6)] assms(3,4)
  by (metis linorder_neqE_linordered_idom order_le_less_trans)

end

lemma dvd_step:
  fixes m t w :: int
  assumes "0 < m" "t \<le> w" "m dvd w - t" "w \<noteq> t"
  shows "t + m \<le> w" "m dvd w - (t + m)"
proof -
  have "m \<le> w - t" using assms by (intro zdvd_imp_le) auto
  then show "t + m \<le> w" by simp
  show "m dvd w - (t + m)" using assms(3) by (metis add_diff_cancel_left' diff_diff_eq dvd_diff dvd_refl)
qed

lemma nsPerMinute_pos: "0 < nsPerMinute" by (simp add: nsPerMinute_def)

lemma nextFrom_first:
  "case nextFrom p dl t of
     Some u \<Rightarrow> t \<le> u \<and> u \<le> dl \<and> nsPerMinute dvd u - t \<and> matches p u
               \<and> (\<forall>w. t \<le> w \<and> w < u \<and> nsPerMinute dvd w - t \<longrightarrow> \<not> matches p w)
   | None \<Rightarrow> (\<forall>w. t \<le> w \<and> w \<le> dl \<and> nsPerMinute dvd w - t \<longrightarrow> \<not> matches p w)"
proof (induction p dl t rule: nextFrom.induct)
  case (1 p dl t)
  show ?case
  proof (cases "t \<le> dl \<and> \<not> matches p t")
    case True
    then have e: "nextFrom p dl t = nextFrom p dl (t + nsPerMinute)" by (simp add: nextFrom.simps [of p dl t])
    have later: "t + nsPerMinute \<le> w \<and> nsPerMinute dvd w - (t + nsPerMinute)"
      if "t \<le> w" "nsPerMinute dvd w - t" "matches p w" for w
    proof -
      have "w \<noteq> t" using that True by blast
      then show ?thesis using dvd_step [OF nsPerMinute_pos that(1,2)] by blast
    qed
    have earlier: "nsPerMinute dvd w - t" if "nsPerMinute dvd w - (t + nsPerMinute)" for w
      using that by (metis diff_add_cancel diff_diff_eq dvd_add dvd_refl)
    show ?thesis
    proof (cases "nextFrom p dl (t + nsPerMinute)")
      case None
      have "\<forall>w. t + nsPerMinute \<le> w \<and> w \<le> dl \<and> nsPerMinute dvd w - (t + nsPerMinute) \<longrightarrow> \<not> matches p w"
        using 1 True unfolding None option.case by blast
      with later show ?thesis unfolding e None option.case by blast
    next
      case (Some u)
      have u: "t + nsPerMinute \<le> u" "u \<le> dl" "nsPerMinute dvd u - (t + nsPerMinute)" "matches p u"
        "\<forall>w. t + nsPerMinute \<le> w \<and> w < u \<and> nsPerMinute dvd w - (t + nsPerMinute) \<longrightarrow> \<not> matches p w"
        using 1 True unfolding Some option.case by blast+
      have "t \<le> u" using u(1) nsPerMinute_pos by linarith
      with u later earlier show ?thesis unfolding e Some option.case by blast
    qed
  qed (auto simp: nextFrom.simps [of p dl t])
qed

definition fires :: "parsedCronPlan \<Rightarrow> gotime \<Rightarrow> bool" where
  "fires p t = (nsPerMinute dvd t \<and> matches p t)"

lemma minute_after:
  "nsPerMinute dvd truncateMinute a + nsPerMinute" "a < truncateMinute a + nsPerMinute"
  "nsPerMinute dvd w \<Longrightarrow> a < w \<Longrightarrow> truncateMinute a + nsPerMinute \<le> w"
proof -
  show "nsPerMinute dvd truncateMinute a + nsPerMinute" by (simp add: truncateMinute_def)
  have m: "a = truncateMinute a + a mod nsPerMinute" by (simp add: truncateMinute_def)
  moreover have b: "0 \<le> a mod nsPerMinute" "a mod nsPerMinute < nsPerMinute" using nsPerMinute_pos by simp_all
  ultimately show "a < truncateMinute a + nsPerMinute" by linarith
  assume w: "nsPerMinute dvd w" "a < w"
  have "truncateMinute a \<le> a" using m b by linarith
  with w have "nsPerMinute dvd w - truncateMinute a" "truncateMinute a \<le> w" "w \<noteq> truncateMinute a"
    by (auto simp: truncateMinute_def [of a])
  then show "truncateMinute a + nsPerMinute \<le> w" using dvd_step [OF nsPerMinute_pos] by blast
qed

lemma dvd_minutes: "nsPerMinute dvd u - (truncateMinute a + nsPerMinute) \<longleftrightarrow> nsPerMinute dvd u"
  by (metis diff_add_cancel dvd_add_left_iff minute_after(1))

lemma parsedNext_first:
  "case parsedNext p after of
     Some t \<Rightarrow> after < t \<and> fires p t \<and> (\<forall>u. after < u \<and> u < t \<longrightarrow> \<not> fires p u)
   | None \<Rightarrow> (\<forall>u. after < u \<and> u \<le> truncateMinute after + nsPerMinute + maxCronScheduleHorizon \<longrightarrow> \<not> fires p u)"
proof -
  let ?t = "truncateMinute after + nsPerMinute"
  have n: "parsedNext p after = nextFrom p (?t + maxCronScheduleHorizon) ?t" by (simp add: parsedNext_def Let_def)
  note first = nextFrom_first [where p = p and dl = "?t + maxCronScheduleHorizon" and t = ?t, unfolded dvd_minutes]
  have lo: "?t \<le> w" if "after < w" "fires p w" for w
    using minute_after(3) that by (simp add: fires_def)
  show ?thesis
  proof (cases "parsedNext p after")
    case None
    have "\<not> fires p u" if "after < u" "u \<le> ?t + maxCronScheduleHorizon" for u
      using first lo [of u] that unfolding n [symmetric] None option.case fires_def by blast
    then show ?thesis unfolding None option.case by blast
  next
    case (Some u)
    have u: "?t \<le> u" "fires p u" "\<forall>w. ?t \<le> w \<and> w < u \<and> nsPerMinute dvd w \<longrightarrow> \<not> matches p w"
      using first unfolding n [symmetric] Some option.case fires_def by blast+
    have "after < u" using u(1) minute_after(2) [of after] by linarith
    moreover have "\<not> fires p w" if "after < w" "w < u" for w
      using u(3) lo [of w] that unfolding fires_def by blast
    ultimately show ?thesis using u(2) unfolding Some option.case by blast
  qed
qed

interpretation parsed: cron_plan "parsedNext p" "fires p" "\<lambda>_. True" for p
proof
  fix a t
  assume "parsedNext p a = Some t"
  with parsedNext_first [where p = p and after = a] show "a < t \<and> fires p t \<and> (\<forall>u. a < u \<and> u < t \<longrightarrow> \<not> fires p u)"
    by simp
qed

text \<open>An interval that \<open>validateCronJob\<close> accepts: whole seconds, dividing a day.\<close>

definition okInterval :: "int \<Rightarrow> bool" where
  "okInterval i = (0 < i \<and> i mod nsPerSecond = 0 \<and> (24 * nsPerHour) mod i = 0)"

definition usableEvery :: "int \<Rightarrow> gotime \<Rightarrow> bool" where
  "usableEvery i a = (okInterval i \<and> 0 \<le> a \<and> timeUnix a \<le> 2 ^ 62)"

lemma floor_le: "0 < i \<Longrightarrow> a div i * i \<le> (a :: int)"
  using pos_mod_sign [of i a] div_mult_mod_eq [of a i] by linarith

lemma everyNext_floor:
  assumes "usableEvery i a"
  shows "everyNext i a = (a div i + 1) * i"
proof -
  define s where "s = i div nsPerSecond"
  have i: "i = s * nsPerSecond" "0 < s"
    using assms by (auto simp: usableEvery_def okInterval_def s_def nsPerSecond_def)
  have "i \<le> 24 * nsPerHour"
    using assms by (auto simp: usableEvery_def okInterval_def ns_defs intro!: zdvd_imp_le)
  then have s: "s \<le> 86400" using i by (simp add: ns_defs)
  let ?u = "timeUnix a"
  have u: "0 \<le> ?u" "?u \<le> 2 ^ 62"
    using assms by (simp_all add: usableEvery_def timeUnix_def ns_defs pos_imp_zdiv_nonneg_iff)
  have q: "quot i nsPerSecond = s" "quot ?u s = ?u div s"
    using i u by (auto simp: quot_def sgn_if ns_defs)
  have d: "0 \<le> ?u div s" "?u div s * s \<le> ?u" "?u div s \<le> ?u"
    using u i zdiv_mono2 [of ?u 1 s] by (simp_all add: pos_imp_zdiv_nonneg_iff floor_le)
  have "(?u div s + 1) * s \<le> 2 ^ 62 + 86400" using d u s by (simp add: distrib_right)
  moreover have "0 \<le> (?u div s + 1) * s" using d i by simp
  ultimately have "wrap64 (wrap64 (?u div s + 1) * s) = (?u div s + 1) * s"
    using d u by (simp add: wrap64_id int64_min_def int64_max_def)
  moreover have "?u div s = a div i"
    using i by (simp add: timeUnix_def zdiv_zmult2_eq [symmetric] ns_defs mult.commute)
  moreover have "everyNext i a = wrap64 (wrap64 (?u div s + 1) * s) * nsPerSecond"
    unfolding everyNext_def Let_def q fromUnix_def ..
  ultimately show ?thesis
    using i(1) by (metis mult.assoc)
qed

lemma everyNext_first:
  assumes "usableEvery i a"
  shows "a < everyNext i a \<and> i dvd everyNext i a \<and> (\<forall>u. a < u \<and> u < everyNext i a \<longrightarrow> \<not> i dvd u)"
proof -
  have i: "0 < i" using assms by (simp add: usableEvery_def okInterval_def)
  let ?q = "a div i"
  have a: "a = i * ?q + a mod i" "0 \<le> a mod i" "a mod i < i" using i by simp_all
  have n: "everyNext i a = i * ?q + i" by (simp add: everyNext_floor [OF assms] algebra_simps)
  have "\<not> i dvd u" if "a < u" "u < everyNext i a" for u
  proof
    assume "i dvd u"
    moreover have "i * ?q \<le> a" using a by linarith
    ultimately have "i dvd u - i * ?q" "i * ?q \<le> u" "u \<noteq> i * ?q" using that by auto
    with dvd_step [OF i] have "i * ?q + i \<le> u" by blast
    with that n show False by simp
  qed
  moreover have "a < everyNext i a" using a n by linarith
  ultimately show ?thesis using n by (auto simp: everyNext_floor [OF assms])
qed

interpretation every: cron_plan "\<lambda>a. Some (everyNext i a)" "\<lambda>t. i dvd t" "usableEvery i" for i
  by unfold_locales (use everyNext_first in blast)

subsection \<open>Properties of the plans\<close>

text \<open>
  (C3) A cron expression fires at the right minute: \<open>Next\<close> gives \<open>t\<close> only if \<open>t\<close> is a whole minute strictly
  after the given instant that the expression matches, no whole minute in between matches,
  and it gives the zero time only if no minute of the following five 366-day years matches.
\<close>

theorem parsed_next_is_first:
  "case Next (ParsedCronPlan p) after of
     Some t \<Rightarrow> after < t \<and> nsPerMinute dvd t \<and> matches p t
               \<and> \<not> (\<exists>u. after < u \<and> u < t \<and> nsPerMinute dvd u \<and> matches p u)
   | None \<Rightarrow> \<not> (\<exists>u. after < u \<and> u \<le> after + maxCronScheduleHorizon \<and> nsPerMinute dvd u \<and> matches p u)"
proof -
  have "after < truncateMinute after + nsPerMinute" by (rule minute_after(2))
  then show ?thesis
    using parsedNext_first [where p = p and after = after]
    by (cases "parsedNext p after") (auto simp: fires_def)
qed

text \<open>
  A job with \<open>Every\<close> runs on the multiples of its interval, counted from the Unix epoch: for an
  interval that validation accepts and an instant since 1970, \<open>Next\<close> is the first multiple strictly later.
\<close>

lemma every_next_is_first:
  assumes "okInterval i" "0 \<le> after" "timeUnix after \<le> 2 ^ 62"
  shows "\<exists>t. Next (EveryCronPlan i) after = Some t \<and> after < t \<and> i dvd t \<and> t - i \<le> after"
proof -
  have u: "usableEvery i after" using assms by (simp add: usableEvery_def)
  have "0 < i" using assms by (simp add: okInterval_def)
  then have "after div i * i \<le> after" by (simp add: floor_le)
  then show ?thesis
    using everyNext_first [OF u] by (simp add: everyNext_floor [OF u] distrib_right)
qed

lemma every_next_is_first_witness:
  "\<exists>t. Next (EveryCronPlan (15 * nsPerMinute)) 1700000000123456789 = Some t \<and> 1700000000123456789 < t
     \<and> 15 * nsPerMinute dvd t \<and> t - 15 * nsPerMinute \<le> 1700000000123456789"
  by (rule every_next_is_first) (simp_all add: okInterval_def ns_defs timeUnix_def)

subsection \<open>The loop that runs a job\<close>

definition planFires :: "cronPlan \<Rightarrow> gotime \<Rightarrow> bool" where
  "planFires plan t = (case plan of EveryCronPlan i \<Rightarrow> i dvd t | ParsedCronPlan p \<Rightarrow> fires p t)"

definition planUsable :: "cronPlan \<Rightarrow> gotime \<Rightarrow> bool" where
  "planUsable plan a = (case plan of EveryCronPlan i \<Rightarrow> usableEvery i a | ParsedCronPlan p \<Rightarrow> True)"

interpretation plan: cron_plan "Next plan" "planFires plan" "planUsable plan" for plan
  by unfold_locales
    (cases plan; use every.Nx_first parsed.Nx_first in \<open>simp add: planFires_def planUsable_def\<close>)

text \<open>A clock that does not go back: a timer fires at its time or later, and later readings are later.\<close>

fun clockOK :: "cronPlan \<Rightarrow> cronTurn list \<Rightarrow> bool" where
  "clockOK plan [] = True"
| "clockOK plan (tn # turns) =
     (planUsable plan (tn_now tn)
      \<and> (case (Next plan (tn_now tn), tn_fired tn) of
           (Some t, Some f) \<Rightarrow> t \<le> f \<and> list_all (\<lambda>tn'. f \<le> tn_now tn') turns
         | _ \<Rightarrow> True)
      \<and> clockOK plan turns)"

definition scheduledTimes :: "cronRun list \<Rightarrow> gotime list" where
  "scheduledTimes rs = concat (map (\<lambda>r. case r of Executed t _ _ \<Rightarrow> [t] | _ \<Rightarrow> []) rs)"

lemma scheduledTimes_simps [simp]:
  "scheduledTimes [] = []" "scheduledTimes (Executed t i e # rs) = t # scheduledTimes rs"
  "scheduledTimes (Disabled # rs) = scheduledTimes rs" "scheduledTimes (Cancelled # rs) = scheduledTimes rs"
  by (simp_all add: scheduledTimes_def)

lemma loop_times_after:
  assumes "clockOK plan turns" "list_all (\<lambda>tn. f \<le> tn_now tn) turns" "t \<in> set (scheduledTimes (runCronJobLoop jobID plan turns))"
  shows "f < t \<and> planFires plan t"
  using assms
proof (induction turns)
  case (Cons tn turns)
  show ?case
  proof (cases "Next plan (tn_now tn)")
    case (Some u)
    with plan.Nx_first [of plan "tn_now tn" u] Cons.prems(1) have "tn_now tn < u" "planFires plan u" by auto
    with Cons Some show ?thesis by (auto split: option.splits)
  qed (use Cons in simp)
qed simp

text \<open>
  While the clock does not go back, the in-process scheduler never runs a slot twice and never out of
  order, whatever the jobs do and however long they take: the scheduled times of the executions are strictly increasing, and
  each is a time at which the plan fires.
\<close>

lemma cron_loop_increasing:
  assumes "clockOK plan turns"
  shows "sorted_wrt (<) (scheduledTimes (runCronJobLoop jobID plan turns))
         \<and> (\<forall>t \<in> set (scheduledTimes (runCronJobLoop jobID plan turns)). planFires plan t)"
  using assms
proof (induction turns)
  case (Cons tn turns)
  show ?case
  proof (cases "Next plan (tn_now tn)")
    case (Some t)
    show ?thesis
    proof (cases "tn_fired tn")
      case f: (Some f)
      have tf: "t \<le> f" "list_all (\<lambda>tn'. f \<le> tn_now tn') turns" "clockOK plan turns" "planFires plan t"
        using Cons.prems Some f plan.Nx_first [of plan "tn_now tn" t] by auto
      have "\<forall>u \<in> set (scheduledTimes (runCronJobLoop jobID plan turns)). t < u"
        using loop_times_after [OF tf(3,2)] tf(1) by fastforce
      with Cons.IH [OF tf(3)] tf(4) Some f show ?thesis by (auto split: option.splits)
    qed (use Some in simp)
  qed simp
qed simp

definition twoTurns :: "cronTurn list" where
  "twoTurns =
     [\<lparr>tn_now = 5, tn_fired = Some (nsPerHour + 7), tn_suffix = Some ''ab'', tn_err = None\<rparr>,
      \<lparr>tn_now = nsPerHour + 9, tn_fired = Some (2 * nsPerHour), tn_suffix = Some ''cd'', tn_err = None\<rparr>]"

lemma cron_loop_increasing_witness:
  "sorted_wrt (<) (scheduledTimes (runCronJobLoop ''job'' (EveryCronPlan nsPerHour) twoTurns))
   \<and> clockOK (EveryCronPlan nsPerHour) twoTurns"
proof -
  have "clockOK (EveryCronPlan nsPerHour) twoTurns"
    by (simp add: twoTurns_def planUsable_def usableEvery_def okInterval_def ns_defs timeUnix_def everyNext_def
        quot_def fromUnix_def wrap64_def Let_def)
  with cron_loop_increasing [OF this] show ?thesis by blast
qed

section \<open>The parser\<close>

definition fieldDomain :: "int \<Rightarrow> int \<Rightarrow> bool" where
  "fieldDomain lo hi = (0 \<le> lo \<and> lo \<le> hi \<and> hi \<le> 100)"

lemma wrap64_over: "int64_max < i \<Longrightarrow> i \<le> 2 * int64_max \<Longrightarrow> wrap64 i = i - 2 ^ 64"
proof -
  assume "int64_max < i" "i \<le> 2 * int64_max"
  then have "(i + 2 ^ 63) mod 2 ^ 64 = i - 2 ^ 63"
    by (intro int_mod_pos_eq [where q = 1]) (auto simp: int64_max_def)
  then show ?thesis by (simp add: wrap64_def)
qed

lemma setValues_stop: "stop < v \<Longrightarrow> setValues lo step stop v vs = Some (Ret vs)"
  by (simp add: setValues.simps)

lemma setValues_step:
  assumes "fieldDomain lo hi" "length vs = nat (hi - lo + 1)" "lo \<le> v" "v \<le> stop" "stop \<le> hi"
  shows "setValues lo step stop v vs = setValues lo step stop (wrap64 (v + step)) (vs[nat (v - lo) := True])"
proof -
  have "wrap64 (v - lo) = v - lo" "0 \<le> v - lo" "v - lo < int (length vs)"
    using assms by (auto simp: wrap64_id fieldDomain_def int64_min_def int64_max_def)
  with assms(4) show ?thesis by (subst setValues.simps) simp
qed

text \<open>The values the loop sets, when \<open>value += step\<close> does not overflow.\<close>

lemma setValues_sets:
  assumes "fieldDomain lo hi" "0 < step" "stop \<le> hi"
  shows "length vs = nat (hi - lo + 1) \<Longrightarrow> lo \<le> v \<Longrightarrow> stop < v \<or> v + step \<le> int64_max \<Longrightarrow>
    \<exists>vs'. setValues lo step stop v vs = Some (Ret vs') \<and> length vs' = length vs
      \<and> (\<forall>x. lo \<le> x \<and> x \<le> hi \<longrightarrow> vs' ! nat (x - lo) = (vs ! nat (x - lo) \<or> v \<le> x \<and> x \<le> stop \<and> step dvd x - v))"
proof (induction "nat (stop + 1 - v)" arbitrary: v vs rule: less_induct)
  case less
  show ?case
  proof (cases "stop < v")
    case True
    then show ?thesis by (auto simp: setValues_stop)
  next
    case False
    let ?vs = "vs[nat (v - lo) := True]"
    have v: "v \<le> stop" "wrap64 (v + step) = v + step"
      using False less.prems assms by (auto simp: wrap64_id fieldDomain_def int64_min_def)
    have "stop < v + step \<or> v + step + step \<le> int64_max"
      using assms v less.prems(2) by (auto simp: fieldDomain_def int64_max_def)
    then obtain vs' where vs': "setValues lo step stop (v + step) ?vs = Some (Ret vs')" "length vs' = length vs"
        "\<And>x. lo \<le> x \<Longrightarrow> x \<le> hi \<Longrightarrow> vs' ! nat (x - lo) = (?vs ! nat (x - lo) \<or> v + step \<le> x \<and> x \<le> stop \<and> step dvd x - (v + step))"
      using less.hyps [of "v + step" ?vs] less.prems assms v by (auto simp: fieldDomain_def)
    have "vs' ! nat (x - lo) = (vs ! nat (x - lo) \<or> v \<le> x \<and> x \<le> stop \<and> step dvd x - v)" if x: "lo \<le> x" "x \<le> hi" for x
    proof (cases "x = v")
      case True
      then show ?thesis using vs'(3) [OF x] less.prems x v by (simp add: nth_list_update)
    next
      case False
      have "v + step \<le> x \<and> step dvd x - (v + step) \<longleftrightarrow> v \<le> x \<and> step dvd x - v"
        using dvd_step [OF assms(2), of v x] False assms(2) by (auto simp: algebra_simps dvd_diff_right_iff)
      with False vs'(3) [OF x] less.prems x show ?thesis by (auto simp: nth_list_update)
    qed
    moreover have "setValues lo step stop v vs = Some (Ret vs')"
      using setValues_step [OF assms(1) less.prems(1,2) v(1) assms(3)] v vs' by simp
    ultimately show ?thesis using vs'(2) by blast
  qed
qed

text \<open>When it does overflow the index is out of range.\<close>

lemma setValues_overflow:
  assumes "fieldDomain lo hi" "length vs = nat (hi - lo + 1)" "lo \<le> v" "v \<le> stop" "stop \<le> hi"
    and "step \<le> int64_max" "int64_max < v + step"
  shows "setValues lo step stop v vs = Some Panic"
proof -
  let ?w = "v + step - 2 ^ 64"
  have v: "0 \<le> v" "v \<le> 100" "0 \<le> lo" "lo \<le> 100" using assms by (auto simp: fieldDomain_def)
  have w: "wrap64 (v + step) = ?w" "?w < 0" "- (2 ^ 63) \<le> ?w"
    using assms v by (auto simp: wrap64_over int64_max_def)
  have "wrap64 (?w - lo) < 0 \<or> 2 ^ 62 \<le> wrap64 (?w - lo)"
  proof (cases "- (2 ^ 63) \<le> ?w - lo")
    case True
    with w v show ?thesis by (simp add: wrap64_id int64_min_def int64_max_def)
  next
    case False
    then have "(?w - lo + 2 ^ 63) mod 2 ^ 64 = ?w - lo + 2 ^ 63 + 2 ^ 64"
      using w v by (intro int_mod_pos_eq [where q = "-1"]) auto
    with False w v show ?thesis by (simp add: wrap64_def)
  qed
  moreover have "length vs < 2 ^ 62" using assms(1,2) by (auto simp: fieldDomain_def)
  ultimately have "wrap64 (?w - lo) < 0 \<or> int (length vs) \<le> wrap64 (?w - lo)" by auto
  moreover have "?w \<le> stop" using w(2) v(1) assms(4) by linarith
  ultimately have "setValues lo step stop ?w (vs[nat (v - lo) := True]) = Some Panic"
    by (subst setValues.simps) (simp add: Let_def)
  then show ?thesis using setValues_step [OF assms(1-5)] w(1) by metis
qed

lemma setValues_outcome:
  assumes "fieldDomain lo hi" "length vs = nat (hi - lo + 1)" "lo \<le> v" "v \<le> stop" "stop \<le> hi" "0 < step" "step \<le> int64_max"
  obtains "setValues lo step stop v vs = Some Panic"
  | vs' where "setValues lo step stop v vs = Some (Ret vs')" "length vs' = length vs"
      "\<And>x. lo \<le> x \<Longrightarrow> x \<le> hi \<Longrightarrow> vs' ! nat (x - lo) = (vs ! nat (x - lo) \<or> v \<le> x \<and> x \<le> stop \<and> step dvd x - v)"
proof (cases "v + step \<le> int64_max")
  case True
  with setValues_sets [OF assms(1,6,5,2,3)] that(2) show ?thesis by blast
next
  case False
  with setValues_overflow [OF assms(1-5,7)] that(1) show ?thesis by simp
qed

lemma atoi_range: "atoi s = Some v \<Longrightarrow> int64_min \<le> v \<and> v \<le> int64_max"
  by (auto simp: atoi_def Let_def split: if_splits)

lemma splitCronStep_pos: "splitCronStep part = Inr (base, step) \<Longrightarrow> 0 < step \<and> step \<le> int64_max"
  by (auto simp: splitCronStep_def int64_max_def split: if_splits option.splits prod.splits dest!: atoi_range)

text \<open>The meaning of one comma-separated part of a field.\<close>

definition partHas :: "int \<Rightarrow> int \<Rightarrow> (string, int) gomap option \<Rightarrow> string \<Rightarrow> int \<Rightarrow> bool" where
  "partHas lo hi names part x =
     (case splitCronStep (trimSpace part) of
        Inl e \<Rightarrow> False
      | Inr (base, step) \<Rightarrow>
        (case cronRange base lo hi names of Inl e \<Rightarrow> False | Inr (a, b) \<Rightarrow> a \<le> x \<and> x \<le> b \<and> step dvd x - a))"

lemma parseCronParts_ret:
  assumes "fieldDomain lo hi"
  shows "parseCronParts lo hi names parts vs = Some (Ret vs') \<Longrightarrow> length vs = nat (hi - lo + 1) \<Longrightarrow>
    length vs' = length vs
    \<and> (\<forall>x. lo \<le> x \<and> x \<le> hi \<longrightarrow> vs' ! nat (x - lo) = (vs ! nat (x - lo) \<or> (\<exists>part \<in> set parts. partHas lo hi names part x)))
    \<and> (parts \<noteq> [] \<longrightarrow> (\<exists>x. lo \<le> x \<and> x \<le> hi \<and> (\<exists>part \<in> set parts. partHas lo hi names part x)))"
proof (induction parts arbitrary: vs)
  case (Cons part parts)
  from Cons.prems(1) obtain base step start stop vs1 where p:
      "splitCronStep (trimSpace part) = Inr (base, step)" "cronRange base lo hi names = Inr (start, stop)"
      "lo \<le> start" "stop \<le> hi" "start \<le> stop"
      "setValues lo step stop start vs = Some (Ret vs1)" "parseCronParts lo hi names parts vs1 = Some (Ret vs')"
    by (auto simp: Let_def split: if_splits sum.splits option.splits outcome.splits)
  have step: "0 < step" "step \<le> int64_max" using splitCronStep_pos [OF p(1)] by auto
  have ph: "partHas lo hi names part x \<longleftrightarrow> start \<le> x \<and> x \<le> stop \<and> step dvd x - start" for x
    by (simp add: partHas_def p)
  have vs1: "length vs1 = length vs"
      "\<And>x. lo \<le> x \<Longrightarrow> x \<le> hi \<Longrightarrow> vs1 ! nat (x - lo) = (vs ! nat (x - lo) \<or> partHas lo hi names part x)"
    using setValues_outcome [OF assms Cons.prems(2) p(3,5,4) step] p(6) unfolding ph by auto
  have "partHas lo hi names part start" "lo \<le> start" "start \<le> hi" using ph p by auto
  with Cons.IH [OF p(7)] Cons.prems(2) vs1 show ?case by auto
qed simp

lemma parseCronParts_total:
  assumes "fieldDomain lo hi"
  shows "length vs = nat (hi - lo + 1) \<Longrightarrow> parseCronParts lo hi names parts vs \<noteq> None"
proof (induction parts arbitrary: vs)
  case (Cons part parts)
  show ?case
  proof (cases "splitCronStep (trimSpace part)")
    case (Inr bs)
    then obtain base step where bs: "splitCronStep (trimSpace part) = Inr (base, step)" by (cases bs) auto
    show ?thesis
    proof (cases "cronRange base lo hi names")
      case (Inr ab)
      then obtain a b where ab: "cronRange base lo hi names = Inr (a, b)" by (cases ab) auto
      show ?thesis
      proof (cases "a < lo \<or> b > hi \<or> a > b")
        case False
        then have c: "lo \<le> a" "a \<le> b" "b \<le> hi" by auto
        from splitCronStep_pos [OF bs] have "0 < step" "step \<le> int64_max" by auto
        with setValues_outcome [OF assms Cons.prems c]
        consider "setValues lo step b a vs = Some Panic"
          | vs' where "setValues lo step b a vs = Some (Ret vs')" "length vs' = nat (hi - lo + 1)"
          using Cons.prems by metis
        then show ?thesis
        proof cases
          case (2 vs')
          with Cons.IH [OF 2(2)] False show ?thesis by (simp add: bs ab Let_def)
        qed (use False in \<open>simp add: bs ab Let_def\<close>)
      qed (simp add: bs ab Let_def)
    qed (simp add: bs Let_def)
  qed (simp add: Let_def)
qed simp

definition fieldOK :: "int \<Rightarrow> int \<Rightarrow> cronField \<Rightarrow> bool" where
  "fieldOK lo hi f =
     (cf_min f = lo \<and> cf_max f = hi \<and> length (cf_values f) = nat (hi - lo + 1)
      \<and> (cf_any f \<or> (\<exists>x. lo \<le> x \<and> x \<le> hi \<and> Has f x)))"

text \<open>The last check of \<open>parseCronField\<close> never fails: a part that is accepted sets at least its first value.\<close>

lemma parseCronField_ret:
  assumes d: "fieldDomain lo hi" and r: "parseCronField expr lo hi names = Some (Ret f)"
  shows "fieldOK lo hi f" "cf_any f \<longleftrightarrow> expr = ''*''"
    "expr \<noteq> ''*'' \<Longrightarrow> lo \<le> x \<Longrightarrow> x \<le> hi \<Longrightarrow> Has f x \<longleftrightarrow> (\<exists>part \<in> set (splitOn CHR '','' expr). partHas lo hi names part x)"
proof -
  have "fieldOK lo hi f \<and> (cf_any f \<longleftrightarrow> expr = ''*'')
    \<and> (expr \<noteq> ''*'' \<longrightarrow> lo \<le> x \<longrightarrow> x \<le> hi \<longrightarrow> (Has f x \<longleftrightarrow> (\<exists>part \<in> set (splitOn CHR '','' expr). partHas lo hi names part x)))"
  proof (cases "expr = ''*''")
    case True
    with r show ?thesis by (auto simp: parseCronField_def newCronField_def fieldOK_def Let_def)
  next
    case False
    then obtain vs where vs: "parseCronParts lo hi names (splitOn CHR '','' expr) (replicate (nat (hi - lo + 1)) False) = Some (Ret vs)"
        "f = (newCronField lo hi)\<lparr>cf_values := vs\<rparr>"
      using r by (auto simp: parseCronField_def newCronField_def Let_def obind_eq_Ret split: if_splits)
    have H: "Has f y \<longleftrightarrow> (\<exists>part \<in> set (splitOn CHR '','' expr). partHas lo hi names part y)" if "lo \<le> y" "y \<le> hi" for y
      using parseCronParts_ret [OF d vs(1)] that by (simp add: vs(2) Has_def newCronField_def)
    have "\<exists>y. lo \<le> y \<and> y \<le> hi \<and> Has f y" "length vs = nat (hi - lo + 1)"
      using parseCronParts_ret [OF d vs(1)] H by auto
    with False H show ?thesis by (simp add: fieldOK_def vs(2) newCronField_def)
  qed
  then show "fieldOK lo hi f" "cf_any f \<longleftrightarrow> expr = ''*''"
    "expr \<noteq> ''*'' \<Longrightarrow> lo \<le> x \<Longrightarrow> x \<le> hi \<Longrightarrow> Has f x \<longleftrightarrow> (\<exists>part \<in> set (splitOn CHR '','' expr). partHas lo hi names part x)"
    by auto
qed

lemma parseCronField_total: "fieldDomain lo hi \<Longrightarrow> parseCronField expr lo hi names \<noteq> None"
  using parseCronParts_total by (auto simp: parseCronField_def newCronField_def Let_def)

lemma domains: "fieldDomain 0 59" "fieldDomain 0 23" "fieldDomain 1 31" "fieldDomain 1 12" "fieldDomain 0 7"
  by (simp_all add: fieldDomain_def)

definition planOK :: "parsedCronPlan \<Rightarrow> bool" where
  "planOK p = (fieldOK 0 59 (cp_minute p) \<and> fieldOK 0 23 (cp_hour p) \<and> fieldOK 1 31 (cp_dom p)
     \<and> fieldOK 1 12 (cp_month p) \<and> fieldOK 0 7 (cp_dow p))"

lemma bindField_total: "r \<noteq> None \<Longrightarrow> (\<And>a. k a \<noteq> None) \<Longrightarrow> bindField r name k \<noteq> None"
  by (auto simp: bindField_def split: outcome.splits)

lemma bindField_ret: "bindField r name k = Some (Ret b) \<Longrightarrow> \<exists>a. r = Some (Ret a) \<and> k a = Some (Ret b)"
  by (auto simp: bindField_def split: option.splits outcome.splits)

lemma parseCronSchedule_fields:
  assumes "parseCronSchedule expr = Some (Ret p)"
  obtains f0 f1 f2 f3 f4 where "GoPrelude.fields (trimSpace expr) = [f0, f1, f2, f3, f4]"
    "parseCronField f0 0 59 None = Some (Ret (cp_minute p))" "parseCronField f1 0 23 None = Some (Ret (cp_hour p))"
    "parseCronField f2 1 31 None = Some (Ret (cp_dom p))" "parseCronField f3 1 12 (Some cronMonthNames) = Some (Ret (cp_month p))"
    "parseCronField f4 0 7 (Some cronDayNames) = Some (Ret (cp_dow p))"
  using assms by (auto simp: parseCronSchedule_def split: list.splits dest!: bindField_ret)

lemma parseCronSchedule_planOK: "parseCronSchedule expr = Some (Ret p) \<Longrightarrow> planOK p"
  by (erule parseCronSchedule_fields) (auto simp: planOK_def intro: parseCronField_ret domains)

subsection \<open>Properties of the parser\<close>

text \<open>
  Parsing a cron expression always ends, and an accepted schedule is well formed: every field has
  the bounds of its position, a table of exactly that size, and at least one value inside those
  bounds (so the plan can be consulted without an index out of range).
\<close>

lemma cron_parse_total:
  "\<exists>r. parseCronSchedule expr = Some r \<and> (case r of Ret p \<Rightarrow> planOK p | _ \<Rightarrow> True)"
proof -
  have "parseCronSchedule expr \<noteq> None"
    unfolding parseCronSchedule_def
    by (simp split: list.split del: not_None_eq)
      (intro allI impI bindField_total parseCronField_total domains option.distinct)
  then show ?thesis
    using parseCronSchedule_planOK [of expr] by (auto split: outcome.split)
qed

text \<open>
  A parsed field contains exactly what its text says: for a field other than the star, a value
  in range belongs to the field if and only if one of its comma-separated parts, a value, a
  range or a star with an optional step, covers it.
\<close>

lemma cron_field_meaning:
  assumes "fieldDomain lo hi" "parseCronField expr lo hi names = Some (Ret f)" "expr \<noteq> ''*''" "lo \<le> x" "x \<le> hi"
  shows "Has f x \<longleftrightarrow> (\<exists>part \<in> set (splitOn CHR '','' expr). partHas lo hi names part x)"
  using assms by (intro parseCronField_ret) auto

lemma cron_field_meaning_witness:
  "Has (newCronField 0 7\<lparr>cf_values := [False, True, False, True, False, True, False, False]\<rparr>) 3
     \<longleftrightarrow> (\<exists>part \<in> set (splitOn CHR '','' ''mon-fri/2,5''). partHas 0 7 (Some cronDayNames) part 3)"
  by (rule cron_field_meaning) code_simp+

text \<open>Printing values in decimal and parsing them again.\<close>

lemma digits_plain:
  assumes "list_all isDigit s"
  shows "trimSpace s = s" "toUpper s = s" "c \<in> set s \<Longrightarrow> isDigit c"
proof -
  have d: "\<not> isSpace c \<and> toUpperChar c = c" if "isDigit c" for c
    using that by (auto simp: isDigit_def isSpace_def toUpperChar_def isLowerLetter_def Let_def)
  show "c \<in> set s \<Longrightarrow> isDigit c" using assms by (simp add: list_all_iff)
  show "toUpper s = s" using assms d by (auto simp: toUpper_def list_all_iff intro: map_idI)
  show "trimSpace s = s"
    unfolding trimSpace_def using assms d by (intro trimBy_fixed) (cases "s = []"; auto simp: list_all_iff)
qed

definition knownNames :: "(string, int) gomap option \<Rightarrow> bool" where
  "knownNames names = (names = None \<or> names = Some cronMonthNames \<or> names = Some cronDayNames)"

lemma names_not_digits: "knownNames names \<Longrightarrow> s \<noteq> [] \<Longrightarrow> list_all isDigit s \<Longrightarrow>
    (case names of None \<Rightarrow> None | Some m \<Rightarrow> map_of m s) = None"
proof -
  assume k: "knownNames names" and s: "s \<noteq> []" "list_all isDigit s"
  have "list_all (\<lambda>k. \<not> list_all isDigit (fst k)) (cronMonthNames @ cronDayNames)" by code_simp
  then have "s \<notin> fst ` set cronMonthNames" "s \<notin> fst ` set cronDayNames"
    using s by (auto simp: list_all_iff)
  then show ?thesis using k by (auto simp: knownNames_def map_of_eq_None_iff)
qed

lemma itoa_part:
  assumes "0 \<le> v" "v \<le> 100" "knownNames names"
  shows "trimSpace (itoa v) = itoa v" "itoa v \<noteq> []" "splitCronStep (itoa v) = Inr (itoa v, 1)"
    "cronRange (itoa v) lo hi names = Inr (v, v)" "CHR '','' \<notin> set (itoa v)"
proof -
  have i: "itoa v = itoaNat (nat v)" using assms by (simp add: itoa_def)
  note ds = itoaNat_digits [of "nat v", folded i]
  show t: "trimSpace (itoa v) = itoa v" "itoa v \<noteq> []" using digits_plain(1) ds by auto
  have no: "CHR ''/'' \<notin> set (itoa v)" "CHR ''-'' \<notin> set (itoa v)" "CHR ''*'' \<notin> set (itoa v)"
    and "CHR '','' \<notin> set (itoa v)"
    using ds by (auto simp: list_all_iff isDigit_def Let_def)
  then show "splitCronStep (itoa v) = Inr (itoa v, 1)" "CHR '','' \<notin> set (itoa v)"
    by (simp_all add: splitCronStep_def)
  have "atoi (itoa v) = Some v" using assms by (intro atoi_itoa) (simp_all add: int64_min_def int64_max_def)
  then have "parseCronValue (itoa v) names = Inr v"
    using names_not_digits [OF assms(3) t(2)] ds by (simp add: parseCronValue_def Let_def digits_plain)
  then show "cronRange (itoa v) lo hi names = Inr (v, v)"
    using no by (auto simp: cronRange_def)
qed

lemma parseCronParts_values:
  assumes "fieldDomain lo hi" "knownNames names"
  shows "length vs = nat (hi - lo + 1) \<Longrightarrow> \<forall>v \<in> set xs. lo \<le> v \<and> v \<le> hi \<Longrightarrow>
    \<exists>vs'. parseCronParts lo hi names (map itoa xs) vs = Some (Ret vs')"
proof (induction xs arbitrary: vs)
  case (Cons v xs)
  have v: "0 \<le> v" "v \<le> 100" "lo \<le> v" "v \<le> hi" using Cons.prems assms(1) by (auto simp: fieldDomain_def)
  note part = itoa_part [OF v(1,2) assms(2)]
  obtain vs1 where "setValues lo 1 v v vs = Some (Ret vs1)" "length vs1 = length vs"
    using setValues_sets [OF assms(1), of 1 v vs v] v Cons.prems(1) by (auto simp: int64_max_def)
  with Cons part v show ?case by (auto simp: Let_def)
qed simp

text \<open>
  Writing out the values of a field separated by commas and parsing the text gives a field with
  exactly these values, whatever their order and number of repetitions.
\<close>

lemma cron_field_roundtrip:
  assumes "fieldDomain lo hi" "knownNames names" "xs \<noteq> []" "\<forall>v \<in> set xs. lo \<le> v \<and> v \<le> hi"
  shows "\<exists>f. parseCronField (joinWith '','' (map itoa xs)) lo hi names = Some (Ret f)
           \<and> (\<forall>x. lo \<le> x \<and> x \<le> hi \<longrightarrow> Has f x = (x \<in> set xs))"
proof -
  let ?e = "joinWith '','' (map itoa xs)"
  have v: "0 \<le> v \<and> v \<le> 100" if "v \<in> set xs" for v using assms that by (fastforce simp: fieldDomain_def)
  have split: "splitOn CHR '','' ?e = map itoa xs"
    using assms(3) itoa_part(5) [OF _ _ assms(2)] v by (intro splitOn_joinWith) auto
  have star: "?e \<noteq> ''*''"
  proof
    assume "?e = ''*''"
    then have "map itoa xs = [''*'']" using split by simp
    then obtain v where "v \<in> set xs" "itoa v = ''*''" by auto
    then have "Inr (0, 1) = (Inr (v, v) :: string + (int \<times> int))"
      using itoa_part(4) [OF _ _ assms(2), of v 0 1] v by (auto simp: cronRange_def)
    then show False by auto
  qed
  have part: "partHas lo hi names (itoa v) x \<longleftrightarrow> x = v" if "v \<in> set xs" for v x
    using itoa_part [OF _ _ assms(2), of v] v [OF that] by (auto simp: partHas_def)
  have len: "length (replicate (nat (hi - lo + 1)) False) = nat (hi - lo + 1)" by simp
  obtain vs where vs: "parseCronParts lo hi names (map itoa xs) (replicate (nat (hi - lo + 1)) False) = Some (Ret vs)"
    using parseCronParts_values [OF assms(1,2) len assms(4)] by blast
  note spec = parseCronParts_ret [OF assms(1) vs len]
  obtain y where "lo \<le> y" "y \<le> hi" "vs ! nat (y - lo)" using spec assms(3) by auto
  then have "True \<in> set vs" using spec by (auto simp: in_set_conv_nth intro!: exI [of _ "nat (y - lo)"])
  then have r: "parseCronField ?e lo hi names = Some (Ret (newCronField lo hi\<lparr>cf_values := vs\<rparr>))"
    using star split vs by (simp add: parseCronField_def newCronField_def Let_def)
  moreover have "Has (newCronField lo hi\<lparr>cf_values := vs\<rparr>) x = (x \<in> set xs)" if "lo \<le> x" "x \<le> hi" for x
    using parseCronField_ret(3) [OF assms(1) r star that] split part by auto
  ultimately show ?thesis by blast
qed

lemma cron_field_roundtrip_witness:
  "\<exists>f. parseCronField (joinWith '','' (map itoa [30, 0, 45])) 0 59 None = Some (Ret f) \<and> Has f 45 \<and> \<not> Has f 44"
  using cron_field_roundtrip [of 0 59 None "[30, 0, 45]"]
  by (fastforce simp: fieldDomain_def knownNames_def)

text \<open>
  A step near the largest \<open>int\<close> is accepted by \<open>splitCronStep\<close>, but adding it to the loop variable
  overflows, the negative value passes the loop test, and indexing the table with it panics.
\<close>

lemma cron_step_overflow_panics: "parseCronSchedule ''1-5/9223372036854775807 * * * *'' = Some Panic"
proof -
  let ?p = "''1-5/9223372036854775807''"
  have f: "GoPrelude.fields (trimSpace ''1-5/9223372036854775807 * * * *'') = [?p, ''*'', ''*'', ''*'', ''*'']"
    "splitOn CHR '','' ?p = [?p]" "trimSpace ?p = ?p"
    "cut CHR ''/'' ?p = (''1-5'', ''9223372036854775807'', True)"
    "cronRange ''1-5'' 0 59 None = Inr (1, 5)"
    by code_simp+
  have "atoi ''9223372036854775807'' = Some 9223372036854775807"
    by (simp add: atoi_def hasPrefix_def isDigit_def digitVal_def int64_min_def int64_max_def)
  then have "splitCronStep ?p = Inr (''1-5'', 9223372036854775807)"
    using f(4) by (simp add: splitCronStep_def)
  moreover have "setValues 0 9223372036854775807 5 1 (replicate 60 False) = Some Panic"
    by (rule setValues_overflow [where hi = 59]) (simp_all add: fieldDomain_def int64_max_def)
  ultimately have "parseCronField ?p 0 59 None = Some Panic"
    using f(2,3,5) by (simp add: parseCronField_def newCronField_def Let_def)
  then show ?thesis by (simp add: parseCronSchedule_def f(1) bindField_def)
qed

section \<open>Temporal calendars\<close>

text \<open>
  How Temporal reads a calendar: a time matches when each of its components is in some range of the
  field.  What a range contains is the argument \<open>rh\<close>.
\<close>

definition rangesHave :: "(TemporalCronScheduleRange \<Rightarrow> int \<Rightarrow> bool) \<Rightarrow> TemporalCronScheduleRange list \<Rightarrow> int \<Rightarrow> bool" where
  "rangesHave rh rs x = list_ex (\<lambda>r. rh r x) rs"

definition calendarHas :: "(TemporalCronScheduleRange \<Rightarrow> int \<Rightarrow> bool) \<Rightarrow> TemporalCronCalendarSpec \<Rightarrow> gotime \<Rightarrow> bool" where
  "calendarHas rh cal t =
     (rangesHave rh (tc_Second cal) (timeSecond t) \<and> rangesHave rh (tc_Minute cal) (timeMinute t)
      \<and> rangesHave rh (tc_Hour cal) (timeHour t) \<and> rangesHave rh (tc_DayOfMonth cal) (timeDay t)
      \<and> rangesHave rh (tc_Month cal) (timeMonth t) \<and> rangesHave rh (tc_DayOfWeek cal) (timeWeekday t))"

text \<open>The documented reading: a lone start is that value, start to end with step one is the interval.\<close>

definition rangeReading :: "(TemporalCronScheduleRange \<Rightarrow> int \<Rightarrow> bool) \<Rightarrow> bool" where
  "rangeReading rh =
     ((\<forall>v x. rh (single v) x = (x = v))
      \<and> (\<forall>a b x. a \<le> b \<longrightarrow> rh \<lparr>tr_Start = a, tr_End = b, tr_Step = 1\<rparr> x = (a \<le> x \<and> x \<le> b)))"

lemma fieldRanges_have:
  assumes "rangeReading rh" "fieldOK lo hi f" "lo \<le> hi" "lo \<le> x" "x \<le> hi"
  shows "rangesHave rh (cronFieldRanges f False) x = Has f x" "rangesHave rh (cronFieldRanges f True) x"
  using assms by (auto simp: rangesHave_def cronFieldRanges_def rangeReading_def fieldOK_def list_ex_iff Has_def)

lemma dowRanges_have:
  assumes "rangeReading rh"
  shows "rangesHave rh (dowRanges f seen vs) x
    \<longleftrightarrow> x \<notin> set seen \<and> (\<exists>v \<in> set vs. Has f v \<and> x = (if v = 7 then 0 else v) \<and> 0 \<le> x \<and> x \<le> 6)"
proof -
  have s: "rh (single v) x \<longleftrightarrow> x = v" for v using assms by (simp add: rangeReading_def)
  show ?thesis
    by (induction f seen vs rule: dowRanges.induct) (auto simp: rangesHave_def Let_def s)
qed

lemma dayOfWeekRanges_have:
  assumes "rangeReading rh" "fieldOK 0 7 f" "0 \<le> x" "x \<le> 6"
  shows "rangesHave rh (cronDayOfWeekRanges f False) x \<longleftrightarrow> Has f x \<or> (x = 0 \<and> Has f 7)"
    "rangesHave rh (cronDayOfWeekRanges f True) x"
proof -
  show "rangesHave rh (cronDayOfWeekRanges f True) x"
    using assms by (simp add: cronDayOfWeekRanges_def rangesHave_def rangeReading_def)
  show "rangesHave rh (cronDayOfWeekRanges f False) x \<longleftrightarrow> Has f x \<or> (x = 0 \<and> Has f 7)"
  proof (cases "cf_any f")
    case True
    with assms show ?thesis by (auto simp: cronDayOfWeekRanges_def rangesHave_def rangeReading_def Has_def)
  next
    case False
    have "set [cf_min f..cf_max f] = {0..7}" using assms(2) by (simp add: fieldOK_def)
    moreover have "\<exists>v \<in> {0..7}. Has f v \<and> x = (if v = 7 then 0 else v)" if "Has f x \<or> (x = 0 \<and> Has f 7)"
      using that assms(3,4) by (auto intro: bexI [of _ x] bexI [of _ 7])
    ultimately show ?thesis
      using False assms(3,4) unfolding cronDayOfWeekRanges_def
      by (auto simp: dowRanges_have [OF assms(1)] split: if_splits)
  qed
qed

text \<open>
  (C20) Moving a schedule to Temporal does not change when it fires: for every accepted expression, the
  calendars handed to Temporal together match a time exactly when it is on a whole minute (second
  zero) that the in-process scheduler would match, with both day fields given (either may match), with one, with
  none, and with Sunday written as 0 or 7.
\<close>

theorem temporal_calendars_agree:
  assumes "rangeReading rh" "parseCronSchedule expr = Some (Ret p)"
  shows "list_ex (\<lambda>cal. calendarHas rh cal t) (cronCalendarSpecs p) \<longleftrightarrow> timeSecond t = 0 \<and> matches p t"
proof -
  note ok = parseCronSchedule_planOK [OF assms(2), unfolded planOK_def]
  have sec: "rangesHave rh [single 0] (timeSecond t) \<longleftrightarrow> timeSecond t = 0"
    using assms(1) by (simp add: rangesHave_def rangeReading_def)
  have f: "rangesHave rh (cronFieldRanges (cp_minute p) False) (timeMinute t) = Has (cp_minute p) (timeMinute t)"
    "rangesHave rh (cronFieldRanges (cp_hour p) False) (timeHour t) = Has (cp_hour p) (timeHour t)"
    "rangesHave rh (cronFieldRanges (cp_month p) False) (timeMonth t) = Has (cp_month p) (timeMonth t)"
    "rangesHave rh (cronFieldRanges (cp_dom p) False) (timeDay t) = Has (cp_dom p) (timeDay t)"
    "rangesHave rh (cronFieldRanges (cp_dom p) True) (timeDay t)"
    using ok time_ranges [of t] by (auto simp: fieldRanges_have [OF assms(1)])
  have d: "rangesHave rh (cronDayOfWeekRanges (cp_dow p) False) (timeWeekday t)
      \<longleftrightarrow> Has (cp_dow p) (timeWeekday t) \<or> (timeWeekday t = 0 \<and> Has (cp_dow p) 7)"
    "rangesHave rh (cronDayOfWeekRanges (cp_dow p) True) (timeWeekday t)"
    using ok time_ranges [of t] by (auto simp: dayOfWeekRanges_have [OF assms(1)])
  have any: "cf_any g \<Longrightarrow> Has g x" for g x by (simp add: Has_def)
  show ?thesis
    using any [of "cp_dom p" "timeDay t"] any [of "cp_dow p" "timeWeekday t"]
    by (cases "cf_any (cp_dom p)"; cases "cf_any (cp_dow p)")
      (auto simp: cronCalendarSpecs_def calendarHas_def matches_def Let_def sec f d)
qed

definition temporalRange :: "TemporalCronScheduleRange \<Rightarrow> int \<Rightarrow> bool" where
  "temporalRange r x =
     (let stop = (if tr_End r < tr_Start r \<or> tr_Step r = 0 \<and> tr_End r = 0 then tr_Start r else tr_End r)
      in tr_Start r \<le> x \<and> x \<le> stop)"

definition weekdayMornings :: parsedCronPlan where
  "weekdayMornings =
     \<lparr>cp_minute = newCronField 0 59\<lparr>cf_values := map (\<lambda>i. i = 30) [0..<60]\<rparr>,
      cp_hour = newCronField 0 23\<lparr>cf_values := map (\<lambda>i. i = 9) [0..<24]\<rparr>,
      cp_dom = newCronField 1 31\<lparr>cf_any := True\<rparr>, cp_month = newCronField 1 12\<lparr>cf_any := True\<rparr>,
      cp_dow = newCronField 0 7\<lparr>cf_values := map (\<lambda>i. 1 \<le> i \<and> i \<le> 5) [0..<8]\<rparr>\<rparr>"

theorem temporal_calendars_agree_witness:
  "list_ex (\<lambda>cal. calendarHas temporalRange cal 1700000000123456789) (cronCalendarSpecs weekdayMornings)
    \<longleftrightarrow> timeSecond 1700000000123456789 = 0 \<and> matches weekdayMornings 1700000000123456789"
  by (rule temporal_calendars_agree [where expr = "''30 9 * * mon-fri''"])
    (fastforce simp: rangeReading_def temporalRange_def single_def Let_def, code_simp)

section \<open>The horizon of a leap-day schedule\<close>

lemma leap_day_year:
  assumes "civil d = (y, 2, 29)"
  shows "isLeap y" "d + 719162 = daysBeforeYear y + 59"
proof -
  obtain yd where z: "yearAndDay (d + 719162) = (y, yd)"
    using assms by (auto simp: civil_def Let_def split: prod.splits)
  have "isLeap y \<and> yd = 59"
    using assms z by (auto simp: civil_def monthStarts_def Let_def split: if_splits)
  then show "isLeap y" "d + 719162 = daysBeforeYear y + 59" using yearAndDay_correct(1) [OF z] by auto
qed

text \<open>No 29 February lies in the 1830 days after 29 February 2096: 2100 is not a leap year.\<close>

lemma no_leap_day:
  assumes "46080 < d" "d \<le> 46080 + 1830"
  shows "civil d \<noteq> (y, 2, 29)"
proof
  assume c: "civil d = (y, 2, 29)"
  define x where "x = y - 1"
  have d: "d + 719162 = 365 * x + x div 4 - x div 100 + x div 400 + 59" and l: "isLeap y"
    using leap_day_year [OF c] by (simp_all add: daysBeforeYear_def x_def)
  from l have "y mod 4 = 0" by (simp add: isLeap_def)
  then obtain k where k: "y = 4 * k" by auto
  then have x4: "x div 4 = k - 1" by (simp add: x_def)
  have b: "x div 100 * 100 \<le> x" "x < x div 100 * 100 + 100" "x div 400 * 400 \<le> x" "x < x div 400 * 400 + 400"
    using div_mult_mod_eq [of x 100] div_mult_mod_eq [of x 400] pos_mod_bound [of 100 x] pos_mod_bound [of 400 x]
      pos_mod_sign [of 100 x] pos_mod_sign [of 400 x] by linarith+
  have "x = 4 * k - 1" using k by (simp add: x_def)
  then have "524 < k" "k < 526" using d b x4 assms by linarith+
  then have "k = 525" by simp
  with k l show False by (simp add: isLeap_def)
qed

definition leapPlan :: parsedCronPlan where
  "leapPlan =
     \<lparr>cp_minute = newCronField 0 59\<lparr>cf_values := map (\<lambda>i. i = 0) [0..<60]\<rparr>,
      cp_hour = newCronField 0 23\<lparr>cf_values := map (\<lambda>i. i = 0) [0..<24]\<rparr>,
      cp_dom = newCronField 1 31\<lparr>cf_values := map (\<lambda>i. i = 28) [0..<31]\<rparr>,
      cp_month = newCronField 1 12\<lparr>cf_values := map (\<lambda>i. i = 1) [0..<12]\<rparr>,
      cp_dow = newCronField 0 7\<lparr>cf_any := True\<rparr>\<rparr>"

lemma leapPlan_matches: "matches leapPlan t \<Longrightarrow> snd (civil (unixDay t)) = (2, 29)"
proof -
  assume m: "matches leapPlan t"
  have "Has (cp_month leapPlan) x \<Longrightarrow> x = 2" "Has (cp_dom leapPlan) x \<Longrightarrow> x = 29" for x
    by (auto simp: leapPlan_def Has_def newCronField_def split: if_splits)
  with m have "timeMonth t = 2" "timeDay t = 29"
    by (auto simp: matches_def leapPlan_def newCronField_def Let_def split: if_splits)
  then show ?thesis by (simp add: timeMonth_def timeDay_def prod_eq_iff)
qed

definition leapDay2096 :: gotime where "leapDay2096 = 3981312000000000000"
definition leapDay2104 :: gotime where "leapDay2104 = 4233686400000000000"

text \<open>On 29 February 2096 itself the plan only matches midnight.\<close>

lemma leapPlan_first_day:
  assumes "matches leapPlan t" "46080 * 86400 + 60 \<le> timeUnix t"
  shows "unixDay t \<noteq> 46080"
proof
  assume day: "unixDay t = 46080"
  define r where "r = timeUnix t mod 86400"
  have u: "timeUnix t = 46080 * 86400 + r" "0 \<le> r"
    using day div_mult_mod_eq [of "timeUnix t" 86400] by (simp_all add: r_def unixDay_def)
  have z: "Has (cp_minute leapPlan) x \<Longrightarrow> x = 0" "Has (cp_hour leapPlan) x \<Longrightarrow> x = 0" for x
    by (auto simp: leapPlan_def Has_def newCronField_def split: if_splits)
  have h: "timeHour t = 0" "timeMinute t = 0"
    using assms(1) z by (auto simp: matches_def split: if_splits)
  then have "r div 3600 = 0" by (simp add: timeHour_def r_def)
  then have "r < 3600" using div_mult_mod_eq [of r 3600] pos_mod_bound [of 3600 r] by simp
  moreover have "timeUnix t = r + 1105920 * 3600" using u(1) by simp
  then have "timeUnix t mod 3600 = r mod 3600" by (metis mod_mult_self1)
  ultimately have "r div 60 = 0" using h(2) u(2) by (simp add: timeMinute_def)
  then have "r < 60" using div_mult_mod_eq [of r 60] pos_mod_bound [of 60 r] by simp
  with assms(2) u(1) show False by simp
qed

lemma leapPlan_gap: "parsedNext leapPlan leapDay2096 = None"
proof (rule ccontr)
  let ?s = "leapDay2096 + nsPerMinute"
  have tr: "truncateMinute leapDay2096 = leapDay2096" by (simp add: truncateMinute_def leapDay2096_def ns_defs)
  assume "parsedNext leapPlan leapDay2096 \<noteq> None"
  then obtain t where "nextFrom leapPlan (?s + maxCronScheduleHorizon) ?s = Some t"
    by (auto simp: parsedNext_def Let_def tr)
  then have r: "?s \<le> t" "t \<le> ?s + maxCronScheduleHorizon" and m: "matches leapPlan t"
    using nextFrom_first [where p = leapPlan and dl = "?s + maxCronScheduleHorizon" and t = ?s] by simp_all
  have u: "46080 * 86400 + 60 \<le> timeUnix t" "timeUnix t \<le> 46080 * 86400 + 60 + 1830 * 86400"
    using zdiv_mono1 [OF r(1), of nsPerSecond] zdiv_mono1 [OF r(2), of nsPerSecond]
    by (simp_all add: timeUnix_def leapDay2096_def ns_defs maxCronScheduleHorizon_def)
  have "46080 \<le> unixDay t" "unixDay t \<le> 46080 + 1830"
    using zdiv_mono1 [OF u(1), of 86400] zdiv_mono1 [OF u(2), of 86400] by (simp_all add: unixDay_def)
  with leapPlan_first_day [OF m u(1)] have "46080 < unixDay t" "unixDay t \<le> 46080 + 1830" by auto
  moreover obtain y where "civil (unixDay t) = (y, 2, 29)"
    using leapPlan_matches [OF m] by (cases "civil (unixDay t)") auto
  ultimately show False using no_leap_day by blast
qed

text \<open>
  A valid schedule can be given up for good.  The search of \<open>Next\<close> is cut off after five 366-day
  years, but 29 February occurs in 2096 and then not until 2104.  A job scheduled for every 29
  February gets the zero time after its run of 2096, on which the loop disables it, although
  it has a firing time in 2104.
\<close>

lemma leap_day_schedule_disabled:
  "parseCronSchedule ''0 0 29 2 *'' = Some (Ret leapPlan) \<and> fires leapPlan leapDay2096
   \<and> Next (ParsedCronPlan leapPlan) leapDay2096 = None \<and> fires leapPlan leapDay2104"
proof -
  have "parseCronSchedule ''0 0 29 2 *'' = Some (Ret leapPlan)"
    "fires leapPlan leapDay2096" "fires leapPlan leapDay2104" by code_simp+
  with leapPlan_gap show ?thesis by simp
qed

section \<open>Validation\<close>

lemma validID_nonempty: "isValidCronJobID i \<Longrightarrow> i \<noteq> []"
  by (auto simp: isValidCronJobID_def)

text \<open>
  A job that passes validation can be scheduled: its identifier is a lower-case label of at most
  63 bytes, it has exactly one kind of schedule, its plan is either an interval of whole seconds that divides
  a day or a well-formed calendar plan, its limits are not negative, and the translation to Temporal succeeds.
\<close>

lemma validated_job_schedulable:
  assumes "validateCronJob job = Some (job', Ret ())"
  shows "isValidCronJobID (cj_ID job') \<and> cj_ID job' = cj_ID job \<and> cj_Title job' \<noteq> []
         \<and> 0 \<le> cj_CatchupWindow job' \<and> 0 \<le> cj_ActivityStartToClose job'
         \<and> (case cj_plan job' of
              Some (EveryCronPlan i) \<Rightarrow> okInterval i \<and> i = cj_Every job \<and> trimSpace (cj_Schedule job) = []
            | Some (ParsedCronPlan p) \<Rightarrow> planOK p \<and> cj_Every job \<le> 0 \<and> parseCronSchedule (cj_Schedule job) = Some (Ret p)
            | None \<Rightarrow> False)
         \<and> (\<exists>spec. TemporalCronScheduleSpecForJob job' = Inr spec)"
proof (cases "0 < cj_Every job")
  case True
  with assms validID_nonempty [of "cj_ID job"] show ?thesis
    by (auto simp: validateCronJob_def Let_def okInterval_def TemporalCronScheduleSpecForJob_def
        split: if_splits option.splits)
next
  case False
  have "parseCronSchedule (cj_Schedule job) = Some (Ret p) \<Longrightarrow> planOK p" for p
    by (rule parseCronSchedule_planOK)
  with False assms validID_nonempty [of "cj_ID job"] show ?thesis
    by (auto simp: validateCronJob_def Let_def TemporalCronScheduleSpecForJob_def
        split: if_splits option.splits outcome.splits)
qed

definition nightlyJob :: CronJob where
  "nightlyJob =
     \<lparr>cj_ID = ''nightly'', cj_Title = [], cj_Every = 0, cj_Schedule = ''0 0 29 2 *'', cj_OverlapPolicy = ''Skip'',
      cj_CatchupWindow = 0, cj_ActivityStartToClose = 5,
      cj_ActivityRetryPolicy = \<lparr>rp_InitialInterval = 0, rp_BackoffCoefficient = FZero, rp_MaximumInterval = 0,
        rp_MaximumAttempts = 0, rp_NonRetryableErrorTypes = []\<rparr>,
      cj_hasInvoke = True, cj_plan = None\<rparr>"

lemma validated_job_schedulable_witness:
  "\<exists>spec. TemporalCronScheduleSpecForJob (nightlyJob\<lparr>cj_Title := ''nightly'', cj_plan := Some (ParsedCronPlan leapPlan)\<rparr>) = Inr spec"
proof -
  have "validateCronJob nightlyJob
      = Some (nightlyJob\<lparr>cj_Title := ''nightly'', cj_plan := Some (ParsedCronPlan leapPlan)\<rparr>, Ret ())" by code_simp
  from validated_job_schedulable [OF this] show ?thesis by blast
qed

end
