(* ===== verification/GoPath.thy ===== *)
theory GoPath
  imports GoPrelude
begin

text \<open>
  The functions of \<open>path/filepath\<close> (on Unix) and of \<open>net\<close> that the agent uses to compare
  application roots and to split host names from ports.  The working directory is an argument of
  \<open>filepath.Abs\<close>; \<open>None\<close> is its failure.
\<close>

section \<open>Definitions\<close>

text \<open>
  \<open>filepath.Clean\<close>: the elements of the path with empty elements and dots dropped and each
  dot-dot cancelled against the element before it, kept only at the start of a relative path.
\<close>

fun cleanParts :: "bool \<Rightarrow> string list \<Rightarrow> string list \<Rightarrow> string list" where
  "cleanParts rooted acc [] = rev acc"
| "cleanParts rooted acc (w # ws) =
     (if w = [] \<or> w = ''.'' then cleanParts rooted acc ws
      else if w = ''..''
      then (case acc of
              [] \<Rightarrow> cleanParts rooted (if rooted then [] else [''..'']) ws
            | a # as \<Rightarrow> if a = ''..'' then cleanParts rooted (''..'' # acc) ws else cleanParts rooted as ws)
      else cleanParts rooted (w # acc) ws)"

definition pathRooted :: "string \<Rightarrow> bool" where
  "pathRooted p = hasPrefix ''/'' p"

definition pathClean :: "string \<Rightarrow> string" where
  "pathClean p =
     (let body = joinWith ''/'' (cleanParts (pathRooted p) [] (splitOn CHR ''/'' p))
      in if pathRooted p then CHR ''/'' # body else if body = [] then ''.'' else body)"

definition pathAbs :: "string option \<Rightarrow> string \<Rightarrow> string option" where
  "pathAbs cwd p =
     (if pathRooted p then Some (pathClean p)
      else map_option (\<lambda>wd. pathClean (wd @ ''/'' @ p)) cwd)"

definition pathJoin :: "string \<Rightarrow> string \<Rightarrow> string" where
  "pathJoin a b = (if a = [] \<and> b = [] then [] else if a = [] then pathClean b else pathClean (a @ ''/'' @ b))"

text \<open>\<open>filepath.Dir\<close>: all but the last element.\<close>

definition pathDir :: "string \<Rightarrow> string" where
  "pathDir p = pathClean (rev (dropWhile (\<lambda>c. c \<noteq> CHR ''/'') (rev p)))"

definition pathBase :: "string \<Rightarrow> string" where
  "pathBase p =
     (if p = [] then ''.''
      else let q = rev (dropWhile (\<lambda>c. c = CHR ''/'') (rev p))
           in if q = [] then ''/'' else last (splitOn CHR ''/'' q))"

text \<open>Position of the last occurrence of a byte, and \<open>net.SplitHostPort\<close>; \<open>None\<close> is its error.\<close>

definition lastIndexByte :: "char \<Rightarrow> string \<Rightarrow> nat option" where
  "lastIndexByte c s =
     (if c \<in> set s then Some (length s - 1 - length (takeWhile (\<lambda>x. x \<noteq> c) (rev s))) else None)"

definition splitHostPort :: "string \<Rightarrow> (string \<times> string) option" where
  "splitHostPort hp =
     (case lastIndexByte CHR '':'' hp of
        None \<Rightarrow> None
      | Some i \<Rightarrow>
        if hasPrefix ''['' hp
        then (if CHR '']'' \<notin> set hp then None
              else let e = length (takeWhile (\<lambda>x. x \<noteq> CHR '']'') hp)
                   in if e + 1 \<noteq> i then None
                      else if CHR ''['' \<in> set (drop 1 hp) \<or> CHR '']'' \<in> set (drop (e + 1) hp) then None
                      else Some (take (e - 1) (drop 1 hp), drop (i + 1) hp))
        else (let host = take i hp
              in if CHR '':'' \<in> set host then None
                 else if CHR ''['' \<in> set hp \<or> CHR '']'' \<in> set hp then None
                 else Some (host, drop (i + 1) hp)))"

section \<open>Lemmas\<close>

text \<open>The elements that stay: no empty ones, no dots, and dot-dots only in front of a relative path.\<close>

definition partsOK :: "bool \<Rightarrow> string list \<Rightarrow> bool" where
  "partsOK rooted ws =
     ((\<forall>w \<in> set ws. w \<noteq> [] \<and> w \<noteq> ''.'' \<and> CHR ''/'' \<notin> set w)
      \<and> (\<exists>n us. ws = replicate n ''..'' @ us \<and> ''..'' \<notin> set us \<and> (rooted \<longrightarrow> n = 0)))"

lemma cleanParts_fixed:
  "partsOK rooted (rev acc @ ws) \<Longrightarrow> cleanParts rooted acc ws = rev acc @ ws"
proof (induction rooted acc ws rule: cleanParts.induct)
  case (2 rooted acc w ws)
  have ok: "partsOK rooted (rev acc @ w # ws)" by (rule "2.prems")
  then have w: "w \<noteq> []" "w \<noteq> ''.''" by (auto simp: partsOK_def)
  obtain n us where n: "rev acc @ w # ws = replicate n ''..'' @ us" "''..'' \<notin> set us" "rooted \<longrightarrow> n = 0"
    using ok by (auto simp: partsOK_def)
  show ?case
  proof (cases "w = ''..''")
    case False
    with 2 w show ?thesis by simp
  next
    case True
    have "length acc < n"
    proof (rule ccontr)
      assume "\<not> length acc < n"
      then have "w \<in> set us"
        using arg_cong [OF n(1), of "\<lambda>l. l ! length acc"] arg_cong [OF n(1), of length]
        by (auto simp: nth_append split: if_splits)
      with True n(2) show False by simp
    qed
    then have "rev acc = replicate (length acc) ''..''" "\<not> rooted"
      using arg_cong [OF n(1), of "take (length acc)"] n(3) by (auto simp: take_replicate min_def)
    then have "acc = replicate (length acc) ''..''" by (metis rev_replicate rev_rev_ident)
    then show ?thesis
      using 2 True \<open>\<not> rooted\<close> by (cases acc) (auto simp: replicate_append_same)
  qed
qed simp

lemma partsOK_snoc: "partsOK rooted ws \<Longrightarrow> w \<noteq> [] \<Longrightarrow> w \<noteq> ''.'' \<Longrightarrow> w \<noteq> ''..'' \<Longrightarrow> CHR ''/'' \<notin> set w \<Longrightarrow> partsOK rooted (ws @ [w])"
proof -
  assume h: "partsOK rooted ws" and w: "w \<noteq> []" "w \<noteq> ''.''" "w \<noteq> ''..''" "CHR ''/'' \<notin> set w"
  then obtain n us where "ws = replicate n ''..'' @ us" "''..'' \<notin> set us" "rooted \<longrightarrow> n = 0" by (auto simp: partsOK_def)
  then have "ws @ [w] = replicate n ''..'' @ (us @ [w]) \<and> ''..'' \<notin> set (us @ [w]) \<and> (rooted \<longrightarrow> n = 0)" using w by auto
  then have "\<exists>n us. ws @ [w] = replicate n ''..'' @ us \<and> ''..'' \<notin> set us \<and> (rooted \<longrightarrow> n = 0)" by blast
  with h w show ?thesis unfolding partsOK_def by auto
qed

lemma partsOK_butlast:
  assumes "partsOK rooted (ws @ [w])" "w \<noteq> ''..''"
  shows "partsOK rooted ws"
proof -
  obtain n us where n: "ws @ [w] = replicate n ''..'' @ us" "''..'' \<notin> set us" "rooted \<longrightarrow> n = 0"
    using assms(1) by (auto simp: partsOK_def)
  have "us \<noteq> []"
  proof
    assume "us = []"
    with n(1) have "ws @ [w] = replicate n ''..''" by simp
    then have "w \<in> set (replicate n ''..'')" by (metis in_set_conv_decomp)
    with assms(2) show False by (simp split: if_splits)
  qed
  then obtain us' where "us = us' @ [w]" using n(1) by (metis append_butlast_last_id last_appendR last_snoc)
  with n assms(1) show ?thesis by (auto simp: partsOK_def)
qed

lemma partsOK_dots: "\<not> rooted \<Longrightarrow> set ws \<subseteq> {''..''} \<Longrightarrow> partsOK rooted (ws @ [''..''])"
proof -
  assume h: "\<not> rooted" "set ws \<subseteq> {''..''}"
  then have "ws = replicate (length ws) ''..''" by (intro replicate_eqI) auto
  then have "ws @ [''..''] = replicate (Suc (length ws)) ''..''" by (metis replicate_append_same replicate_Suc)
  then have "ws @ [''..''] = replicate (Suc (length ws)) ''..'' @ []" by simp
  then have "\<exists>n us. ws @ [''..''] = replicate n ''..'' @ us \<and> ''..'' \<notin> set us \<and> (rooted \<longrightarrow> n = 0)"
    using h(1) by (metis empty_iff empty_set)
  with h show ?thesis unfolding partsOK_def by auto
qed

lemma cleanParts_ok:
  "partsOK rooted (rev acc) \<Longrightarrow> \<forall>w \<in> set ws. CHR ''/'' \<notin> set w \<Longrightarrow> partsOK rooted (cleanParts rooted acc ws)"
proof (induction rooted acc ws rule: cleanParts.induct)
  case (2 rooted acc w ws)
  show ?case
  proof (cases "w = [] \<or> w = ''.'' \<or> w \<noteq> ''..''")
    case True
    with 2 partsOK_snoc [of rooted "rev acc" w] show ?thesis by auto
  next
    case False
    then have w: "w = ''..''" by simp
    show ?thesis
    proof (cases acc)
      case Nil
      have "partsOK rooted (rev (if rooted then [] else [''..'']))"
        using "2.prems"(1) partsOK_dots [of rooted "[]"] Nil by auto
      with 2 w Nil show ?thesis by simp
    next
      case (Cons a as)
      show ?thesis
      proof (cases "a = ''..''")
        case True
        obtain n us where n: "rev as @ [''..''] = replicate n ''..'' @ us" "''..'' \<notin> set us" "rooted \<longrightarrow> n = 0"
          using "2.prems"(1) Cons True by (auto simp: partsOK_def)
        then have "us = []" by (metis last_appendR last_in_set last_snoc)
        then have "rev as @ [''..''] = replicate n ''..''" "\<not> rooted" using n by auto
        then have "set (rev as @ [''..'']) \<subseteq> {''..''}" by (metis in_set_replicate singletonI subsetI insertI1)
        with partsOK_dots [of rooted "rev as @ [''..'']"] \<open>\<not> rooted\<close>
        have "partsOK rooted (rev (''..'' # acc))" using Cons True by simp
        with 2 w Cons True show ?thesis by simp
      next
        case False
        have "partsOK rooted (rev as)" using partsOK_butlast "2.prems"(1) Cons False by simp
        with 2 w Cons False show ?thesis by simp
      qed
    qed
  qed
qed simp

lemma partsOK_Nil: "partsOK rooted []" by (simp add: partsOK_def)

lemma pathClean_idem: "pathClean (pathClean p) = pathClean p"
proof -
  let ?ws = "cleanParts (pathRooted p) [] (splitOn CHR ''/'' p)"
  have ok: "partsOK (pathRooted p) ?ws"
    by (rule cleanParts_ok) (auto simp: partsOK_Nil dest: splitOn_no_sep)
  have fixed: "cleanParts r [] ?ws = ?ws" if "r = pathRooted p" for r
    using cleanParts_fixed [of r "[]" ?ws] ok that by simp
  have split: "splitOn CHR ''/'' (joinWith ''/'' ?ws) = ?ws" if "?ws \<noteq> []"
    using that ok by (intro splitOn_joinWith) (auto simp: partsOK_def)
  show ?thesis
  proof (cases "?ws = []")
    case True
    then show ?thesis by (simp add: pathClean_def Let_def pathRooted_def hasPrefix_def)
  next
    case False
    obtain w ws where ws: "?ws = w # ws" using False by (cases ?ws) auto
    then have w: "w \<noteq> []" "CHR ''/'' \<notin> set w" using ok by (auto simp: partsOK_def)
    have ne: "joinWith ''/'' ?ws \<noteq> []" "hd (joinWith ''/'' ?ws) \<noteq> CHR ''/''"
      using w unfolding ws by (cases ws; cases w; auto)+
    show ?thesis
    proof (cases "pathRooted p")
      case True
      then have "pathClean p = CHR ''/'' # joinWith ''/'' ?ws" by (simp add: pathClean_def Let_def)
      then show ?thesis using True fixed split [OF False] False by (simp add: pathClean_def pathRooted_def hasPrefix_def)
    next
      case r: False
      then have c: "pathClean p = joinWith ''/'' ?ws" using ne by (simp add: pathClean_def Let_def)
      have "\<not> pathRooted (joinWith ''/'' ?ws)" using ne by (cases "joinWith ''/'' ?ws") (auto simp: pathRooted_def hasPrefix_def)
      then show ?thesis using r fixed split [OF False] ne unfolding c by (simp add: pathClean_def)
    qed
  qed
qed

interpretation clean: normal_form pathClean
  by unfold_locales (rule pathClean_idem)

lemma pathAbs_clean: "pathAbs cwd p = Some q \<Longrightarrow> pathClean q = q"
  by (auto simp: pathAbs_def pathClean_idem split: if_splits)

lemma pathAbs_nonempty: "pathAbs cwd p = Some q \<Longrightarrow> q \<noteq> []"
  by (auto simp: pathAbs_def pathClean_def Let_def split: if_splits)

end
