(* ===== verification/AgentSession.thy ===== *)
theory AgentSession
  imports GoPath
begin

text \<open>
  Sessions and owners of the local agent: \<open>internal/agent/types.go\<close>, \<open>owner.go\<close> and \<open>session.go\<close>.  What
  these functions read from the machine is the record \<open>agentEnv\<close>: the clock (one reading per
  operation), the process table, the working directory, the branch that git reports and SHA-256.  A nil Go map is the
  empty association list; a \<open>time.Time\<close> that may be zero is an option.
\<close>

section \<open>Definitions\<close>

subsection \<open>Data\<close>

type_synonym timestamp = "int option"

record Backend =
  bk_Network :: string
  bk_Addr :: string

record Owner =
  ow_PID :: int
  ow_StartedAt :: string
  ow_Exe :: string
  ow_CmdlineHash :: string
  ow_AgentPID :: int
  ow_CreatedBy :: string
  ow_RecordedAt :: timestamp

definition noOwner :: Owner where
  "noOwner = \<lparr>ow_PID = 0, ow_StartedAt = [], ow_Exe = [], ow_CmdlineHash = [], ow_AgentPID = 0,
              ow_CreatedBy = [], ow_RecordedAt = None\<rparr>"

record Process =
  pr_PID :: int
  pr_Owner :: Owner

record RouteNamespace =
  rn_Workspace :: string
  rn_BaseDomain :: string
  rn_Hosts :: "(string, string) gomap"

record AliasLease =
  al_Host :: string
  al_Route :: string
  al_SessionID :: string
  al_AppRoot :: string
  al_OwnerPID :: int
  al_Owner :: Owner
  al_URL :: string
  al_CreatedAt :: timestamp
  al_UpdatedAt :: timestamp

record Session =
  ss_SchemaVersion :: string
  ss_SessionID :: string
  ss_BaseAppID :: string
  ss_RuntimeAppID :: string
  ss_RouteNamespace :: RouteNamespace
  ss_AppRoot :: string
  ss_StateRoot :: string
  ss_Branch :: string
  ss_Status :: string
  ss_StatusReason :: string
  ss_OwnerPID :: int
  ss_Owner :: Owner
  ss_AppPID :: string
  ss_Processes :: "(string, Process) gomap"
  ss_Routes :: "(string, string) gomap"
  ss_Aliases :: "(string, string) gomap"
  ss_AliasConflicts :: "(string, AliasLease) gomap"
  ss_Backends :: "(string, Backend) gomap"
  ss_ReportToken :: string
  ss_CreatedAt :: timestamp
  ss_UpdatedAt :: timestamp

record RegisterRequest =
  rq_BaseAppID :: string
  rq_AppRoot :: string
  rq_SessionID :: string
  rq_Branch :: string
  rq_Status :: string
  rq_OwnerPID :: int
  rq_Owner :: Owner
  rq_AppPID :: string
  rq_Processes :: "(string, Process) gomap"
  rq_Backends :: "(string, Backend) gomap"
  rq_RouteNamespace :: RouteNamespace
  rq_ReportToken :: string
  rq_ClaimOwner :: bool
  rq_ClaimAliases :: bool

definition RouteAPI :: string where "RouteAPI = ''api''"
definition RouteDashboard :: string where "RouteDashboard = ''dashboard''"
definition DefaultRouteBaseDomain :: string where "DefaultRouteBaseDomain = ''local.dev''"
definition SessionSchemaVersion :: string where "SessionSchemaVersion = ''scenery.dev.session.v1''"
definition SubstrateSchemaVersion :: string where "SubstrateSchemaVersion = ''scenery.dev.substrate.v1''"

record ownerProcessInfo =
  pi_StartedAt :: string
  pi_Exe :: string
  pi_Cmdline :: "string list"

record agentEnv =
  env_now :: int
  env_pid :: int
  env_cwd :: "string option"
  env_exe :: "string option"
  env_args :: "string list"
  env_processOwnerInfo :: "int \<Rightarrow> ownerProcessInfo"
  env_sha256hex :: "string \<Rightarrow> string"
  env_git :: "string \<Rightarrow> string option"

text \<open>A lookup in a Go map gives the zero value for a missing key.\<close>

definition lookupStr :: "(string, string) gomap \<Rightarrow> string \<Rightarrow> string" where
  "lookupStr m k = (case map_of m k of None \<Rightarrow> [] | Some v \<Rightarrow> v)"

subsection \<open>Labels and hosts\<close>

fun sanitizeLoop :: "string \<Rightarrow> bool \<Rightarrow> string \<Rightarrow> string" where
  "sanitizeLoop b dash [] = b"
| "sanitizeLoop b dash (r # rs) =
     (if isLetter r \<or> isDigit r then sanitizeLoop (b @ [r]) False rs
      else if r \<in> set ''-_/.'' \<or> isSpace r
      then (if \<not> dash \<and> b \<noteq> [] then sanitizeLoop (b @ ''-'') True rs else sanitizeLoop b dash rs)
      else sanitizeLoop b dash rs)"

definition sanitizeLabel :: "string \<Rightarrow> string" where
  "sanitizeLabel s = trimSet ''-'' (sanitizeLoop [] False (toLower (trimSpace s)))"

definition NormalizeSessionID :: "string \<Rightarrow> string + string" where
  "NormalizeSessionID s =
     (let i = sanitizeLabel s in if trimSpace s \<noteq> [] \<and> i = [] then Inl (''invalid session id '' @ goQuote s) else Inr i)"

definition discoverGitBranch :: "agentEnv \<Rightarrow> string \<Rightarrow> string" where
  "discoverGitBranch env root = (case env_git env root of None \<Rightarrow> [] | Some out \<Rightarrow> trimSpace out)"

definition SessionID :: "agentEnv \<Rightarrow> string \<Rightarrow> string \<Rightarrow> string" where
  "SessionID env appRoot branch =
     (let label = sanitizeLabel branch;
          label = (if label = [] then sanitizeLabel (pathBase appRoot) else label);
          label = (if label = [] then ''session'' else label);
          suffix = take 6 (env_sha256hex env (pathClean appRoot));
          label = (if length label > 48 then trimSet ''-'' (take 48 label) else label)
      in label @ ''-'' @ suffix)"

text \<open>The four random bytes of \<open>UniqueSessionID\<close>, in hexadecimal, are the argument \<open>rnd\<close>.\<close>

definition UniqueSessionID :: "agentEnv \<Rightarrow> string option \<Rightarrow> string \<Rightarrow> string \<Rightarrow> string option" where
  "UniqueSessionID env rnd appRoot branch =
     (let branch = trimSpace branch;
          branch = (if branch = [] then discoverGitBranch env appRoot else branch);
          base = SessionID env appRoot branch
      in case rnd of None \<Rightarrow> None
         | Some hex \<Rightarrow>
           (let base = (if length base > 55 then trimSet ''-'' (take 55 base) else base)
            in Some (base @ ''-'' @ hex)))"

definition normalizeRouteHost :: "string \<Rightarrow> string" where
  "normalizeRouteHost s =
     (let v = toLower (trimSpace s)
      in if v = [] then []
         else let v = (case indexOf ''://'' v of None \<Rightarrow> v | Some i \<Rightarrow> drop (i + 3) v);
                  v = takeWhile (\<lambda>c. c \<noteq> CHR ''/'') v;
                  v = (case splitHostPort v of None \<Rightarrow> v | Some (h, _) \<Rightarrow> h)
              in trimSet ''[]'' v)"

definition routeURL :: "string \<Rightarrow> string \<Rightarrow> string \<Rightarrow> string \<Rightarrow> string" where
  "routeURL scheme host routerAddr path =
     (let scheme = trimSpace scheme;
          scheme = (if scheme = [] then ''http'' else scheme);
          port = (case splitHostPort routerAddr of None \<Rightarrow> [] | Some (_, p) \<Rightarrow> p);
          defaultPort = (if scheme = ''https'' then ''443'' else ''80'');
          host = (if port \<noteq> [] \<and> port \<noteq> defaultPort then host @ '':'' @ port else host);
          path = (if path = [] then ''/'' else path)
      in scheme @ ''://'' @ host @ path)"

definition insertSessionIntoHost :: "string \<Rightarrow> string \<Rightarrow> string" where
  "insertSessionIntoHost host sessionID =
     (let host = normalizeRouteHost host; sessionID = sanitizeLabel sessionID
      in if host = [] \<or> sessionID = [] then host
         else let labels = splitOn CHR ''.'' host
              in if length labels < 2 then host
                 else joinWith ''.'' (take 1 labels @ sessionID # drop 1 labels))"

definition sessionRouteHost :: "string \<Rightarrow> string \<Rightarrow> RouteNamespace \<Rightarrow> string" where
  "sessionRouteHost route sessionID ns =
     (let route = sanitizeLabel route; sessionID = sanitizeLabel sessionID
      in if route = [] \<or> sessionID = [] then []
         else if lookupStr (rn_Hosts ns) route \<noteq> []
         then insertSessionIntoHost (lookupStr (rn_Hosts ns) route) sessionID
         else let baseDomain = normalizeRouteHost (rn_BaseDomain ns);
                  baseDomain = (if baseDomain = [] then DefaultRouteBaseDomain else baseDomain)
              in route @ ''.'' @ sessionID @ ''.'' @ baseDomain)"

definition routesForSession ::
  "string \<Rightarrow> string \<Rightarrow> string \<Rightarrow> (string, Backend) gomap \<Rightarrow> RouteNamespace \<Rightarrow> (string, string) gomap" where
  "routesForSession sessionID routerAddr routerScheme backends ns =
     (let routes = (if map_of backends RouteAPI \<noteq> None
                    then [(RouteAPI, routeURL routerScheme (sessionRouteHost RouteAPI sessionID ns) routerAddr [])] else []);
          routes = AList.update RouteDashboard
                     (routeURL routerScheme (sessionRouteHost ''console'' sessionID ns) routerAddr []) routes
      in foldl (\<lambda>rs (kind, b). if kind = RouteAPI \<or> kind = RouteDashboard then rs
                  else AList.update kind (routeURL routerScheme (sessionRouteHost kind sessionID ns) routerAddr []) rs)
           routes backends)"

definition copyBackends :: "(string, Backend) gomap \<Rightarrow> (string, Backend) gomap" where
  "copyBackends backends =
     foldl (\<lambda>copied (key, b).
       let key = sanitizeLabel key;
           b = b\<lparr>bk_Network := (if trimSpace (bk_Network b) = [] then ''tcp'' else trimSpace (bk_Network b)),
                 bk_Addr := trimSpace (bk_Addr b)\<rparr>
       in if key = [] \<or> bk_Addr b = [] then copied else AList.update key b copied) [] backends"

definition copyRouteHosts :: "(string, string) gomap \<Rightarrow> (string, string) gomap" where
  "copyRouteHosts hosts =
     foldl (\<lambda>copied (key, host).
       let key = sanitizeLabel key; host = normalizeRouteHost host
       in if key = [] \<or> host = [] then copied else AList.update key host copied) [] hosts"

definition normalizeRouteNamespace :: "RouteNamespace \<Rightarrow> string \<Rightarrow> RouteNamespace" where
  "normalizeRouteNamespace ns baseAppID =
     (let ns = ns\<lparr>rn_Workspace := sanitizeLabel (rn_Workspace ns), rn_BaseDomain := normalizeRouteHost (rn_BaseDomain ns),
                  rn_Hosts := copyRouteHosts (rn_Hosts ns)\<rparr>
      in if rn_BaseDomain ns = []
         then let fallback = sanitizeLabel baseAppID;
                  ns = (if fallback \<noteq> [] \<and> rn_Workspace ns = [] \<and> rn_Hosts ns = [] then ns\<lparr>rn_Workspace := fallback\<rparr> else ns)
              in ns\<lparr>rn_BaseDomain := DefaultRouteBaseDomain\<rparr>
         else ns)"

definition routeNamespaceEmpty :: "RouteNamespace \<Rightarrow> bool" where
  "routeNamespaceEmpty ns = (trimSpace (rn_Workspace ns) = [] \<and> trimSpace (rn_BaseDomain ns) = [] \<and> rn_Hosts ns = [])"

subsection \<open>Owners\<close>

fun firstPositive :: "int list \<Rightarrow> int" where
  "firstPositive [] = 0"
| "firstPositive (v # vs) = (if v > 0 then v else firstPositive vs)"

fun firstNonEmpty :: "string list \<Rightarrow> string" where
  "firstNonEmpty [] = []"
| "firstNonEmpty (v # vs) = (if trimSpace v \<noteq> [] then trimSpace v else firstNonEmpty vs)"

definition hashCmdline :: "agentEnv \<Rightarrow> string list \<Rightarrow> string" where
  "hashCmdline env args = ''sha256:'' @ env_sha256hex env (joinWith [char_of (0 :: nat)] args)"

definition CaptureOwner :: "agentEnv \<Rightarrow> int \<Rightarrow> string \<Rightarrow> Owner" where
  "CaptureOwner env pid createdBy =
     (if pid \<le> 0 then noOwner
      else let info = env_processOwnerInfo env pid;
               owner = \<lparr>ow_PID = pid, ow_StartedAt = trimSpace (pi_StartedAt info), ow_Exe = trimSpace (pi_Exe info),
                        ow_CmdlineHash = (if pi_Cmdline info \<noteq> [] then hashCmdline env (pi_Cmdline info) else []),
                        ow_AgentPID = env_pid env, ow_CreatedBy = trimSpace createdBy, ow_RecordedAt = Some (env_now env)\<rparr>
           in if pid = env_pid env
              then let owner = (if ow_Exe owner = []
                                then (case env_exe env of None \<Rightarrow> owner | Some exe \<Rightarrow> owner\<lparr>ow_Exe := exe\<rparr>) else owner)
                   in (if ow_CmdlineHash owner = [] then owner\<lparr>ow_CmdlineHash := hashCmdline env (env_args env)\<rparr> else owner)
              else owner)"

definition CurrentOwner :: "agentEnv \<Rightarrow> string \<Rightarrow> Owner" where
  "CurrentOwner env createdBy = CaptureOwner env (env_pid env) createdBy"

definition OwnerFromRequest :: "agentEnv \<Rightarrow> int \<Rightarrow> Owner \<Rightarrow> string \<Rightarrow> Owner" where
  "OwnerFromRequest env pid owner createdBy =
     (let owner = (if pid > 0 \<and> ow_PID owner > 0 \<and> ow_PID owner \<noteq> pid then noOwner else owner);
          owner = (if ow_PID owner \<le> 0 then owner\<lparr>ow_PID := pid\<rparr> else owner)
      in if ow_PID owner \<le> 0 then noOwner
         else let captured = CaptureOwner env (ow_PID owner) (firstNonEmpty [ow_CreatedBy owner, createdBy]);
                  owner = (if ow_StartedAt owner = [] \<and> ow_Exe owner = [] \<and> ow_CmdlineHash owner = [] \<and> ow_PID captured > 0
                           then let owner = (if ow_AgentPID owner = 0 then owner\<lparr>ow_AgentPID := ow_AgentPID captured\<rparr> else owner);
                                    owner = (if ow_RecordedAt owner = None then owner\<lparr>ow_RecordedAt := ow_RecordedAt captured\<rparr> else owner)
                                in owner\<lparr>ow_StartedAt := ow_StartedAt captured, ow_Exe := ow_Exe captured,
                                         ow_CmdlineHash := ow_CmdlineHash captured\<rparr>
                           else owner);
                  owner = (if ow_AgentPID owner = 0 then owner\<lparr>ow_AgentPID := env_pid env\<rparr> else owner);
                  owner = (if ow_CreatedBy owner = [] then owner\<lparr>ow_CreatedBy := trimSpace createdBy\<rparr> else owner)
              in (if ow_RecordedAt owner = None then owner\<lparr>ow_RecordedAt := Some (env_now env)\<rparr> else owner))"

definition sameOwnerExe :: "string \<Rightarrow> string \<Rightarrow> bool" where
  "sameOwnerExe a b =
     (let a = pathClean (trimSpace a); b = pathClean (trimSpace b) in a = b \<or> pathBase a = pathBase b)"

text \<open>\<open>None\<close> is nil: the owner is the live process.\<close>

definition VerifyOwner :: "agentEnv \<Rightarrow> Owner \<Rightarrow> string option" where
  "VerifyOwner env owner =
     (if ow_PID owner \<le> 0 then Some ''owner pid is missing''
      else let live = CaptureOwner env (ow_PID owner) [] in
        if ow_PID live \<le> 0 then Some ''owner process is not inspectable''
        else if ow_StartedAt live = [] \<and> ow_CmdlineHash live = [] \<and> ow_Exe live = []
        then Some ''owner process is not inspectable''
        else if ow_StartedAt owner \<noteq> [] \<and> ow_StartedAt live \<noteq> [] \<and> ow_StartedAt owner \<noteq> ow_StartedAt live
        then Some ''owner process start time changed''
        else if ow_CmdlineHash owner \<noteq> [] \<and> ow_CmdlineHash live \<noteq> [] \<and> ow_CmdlineHash owner \<noteq> ow_CmdlineHash live
        then Some ''owner process command fingerprint changed''
        else if ow_Exe owner \<noteq> [] \<and> ow_Exe live \<noteq> [] \<and> \<not> sameOwnerExe (ow_Exe owner) (ow_Exe live)
        then Some ''owner process executable changed''
        else if ow_StartedAt owner = [] \<and> ow_CmdlineHash owner = [] \<and> ow_Exe owner = []
        then Some ''owner fingerprint is missing''
        else None)"

definition ownerForSignal :: "agentEnv \<Rightarrow> int \<Rightarrow> Owner \<Rightarrow> Owner \<times> string option" where
  "ownerForSignal env pid owner =
     (let owner = (if pid > 0 \<and> ow_PID owner > 0 \<and> ow_PID owner \<noteq> pid then noOwner else owner);
          owner = (if ow_PID owner \<le> 0 then owner\<lparr>ow_PID := pid\<rparr> else owner)
      in if ow_PID owner \<le> 0 then (noOwner, Some ''owner pid is missing'')
         else (owner, VerifyOwner env owner))"

subsection \<open>Sessions\<close>

definition copyProcesses :: "(string, Process) gomap \<Rightarrow> (string, Process) gomap" where
  "copyProcesses ps =
     foldl (\<lambda>copied (key, p).
       let key = sanitizeLabel key
       in if key = [] \<or> pr_PID p \<le> 0 then copied else AList.update key p copied) [] ps"

definition claimProcess :: "agentEnv \<Rightarrow> (string, Process) gomap \<Rightarrow> string \<Rightarrow> Process \<Rightarrow> Process" where
  "claimProcess env existing name p =
     (let p = (case map_of existing name of
                 Some e \<Rightarrow> if pr_PID e = pr_PID p \<and> ow_PID (pr_Owner p) = 0 then p\<lparr>pr_Owner := pr_Owner e\<rparr> else p
               | None \<Rightarrow> p)
      in p\<lparr>pr_Owner := OwnerFromRequest env (pr_PID p) (pr_Owner p) (''scenery up '' @ name)\<rparr>)"

definition processesForSession ::
  "agentEnv \<Rightarrow> (string, Process) gomap \<Rightarrow> (string, Process) gomap \<Rightarrow> (string, Process) gomap" where
  "processesForSession env requested existing =
     (if requested = [] then copyProcesses existing
      else map (\<lambda>(name, p). (name, claimProcess env existing name p))
             (filter (\<lambda>(name, p). \<not> pr_PID p \<le> 0) (copyProcesses requested)))"

fun parsePIDLoop :: "int \<Rightarrow> string \<Rightarrow> int" where
  "parsePIDLoop pid [] = pid"
| "parsePIDLoop pid (r # rs) =
     (if \<not> isDigit r then 0 else parsePIDLoop (wrap64 (wrap64 (pid * 10) + int (digitVal r))) rs)"

definition parseProcessPID :: "string \<Rightarrow> int" where
  "parseProcessPID s = parsePIDLoop 0 (trimSpace s)"

definition claimAppProcess :: "agentEnv \<Rightarrow> string \<Rightarrow> (string, Process) gomap \<Rightarrow> (string, Process) gomap" where
  "claimAppProcess env appPID processes =
     (let pid = parseProcessPID appPID
      in if trimSpace appPID \<noteq> [] \<and> pid > 0
         then let p = (case map_of processes RouteAPI of
                         Some p \<Rightarrow> if pr_PID p \<noteq> pid then \<lparr>pr_PID = pid, pr_Owner = noOwner\<rparr> else p
                       | None \<Rightarrow> \<lparr>pr_PID = pid, pr_Owner = noOwner\<rparr>);
                  p = p\<lparr>pr_Owner := OwnerFromRequest env pid (pr_Owner p) ''scenery up api''\<rparr>
              in AList.update RouteAPI p processes
         else processes)"

definition StateRoot :: "string \<Rightarrow> string \<Rightarrow> string" where
  "StateRoot appRoot sessionID = pathJoin appRoot (''.scenery/sessions/'' @ sessionID)"

definition sessionOwner :: "agentEnv \<Rightarrow> RegisterRequest \<Rightarrow> Session option \<Rightarrow> int \<Rightarrow> Owner" where
  "sessionOwner env req existing ownerPID =
     (let owner = rq_Owner req;
          owner = (case existing of
             Some e \<Rightarrow> if ow_PID owner = 0 \<and> ow_PID (ss_Owner e) > 0
                          \<and> (ownerPID = 0 \<or> ownerPID = ow_PID (ss_Owner e) \<or> ownerPID = ss_OwnerPID e)
                       then ss_Owner e else owner
           | None \<Rightarrow> owner)
      in OwnerFromRequest env ownerPID owner ''scenery up'')"

definition sessionBranch :: "agentEnv \<Rightarrow> RegisterRequest \<Rightarrow> Session option \<Rightarrow> string \<Rightarrow> string \<Rightarrow> string" where
  "sessionBranch env req existing requested appRoot =
     (let branch = trimSpace (rq_Branch req);
          branch = (case existing of
             Some e \<Rightarrow> if branch = [] \<and> requested \<noteq> [] \<and> ss_SessionID e = requested then ss_Branch e else branch
           | None \<Rightarrow> branch)
      in if branch = [] then discoverGitBranch env appRoot else branch)"

text \<open>The last part of \<open>NewSession\<close>, once the root, the identifier and the branch are known.\<close>

definition buildSession ::
  "agentEnv \<Rightarrow> RegisterRequest \<Rightarrow> string \<Rightarrow> string \<Rightarrow> Session option \<Rightarrow> string \<Rightarrow> string \<Rightarrow> string \<Rightarrow> Session" where
  "buildSession env req routerAddr routerScheme existing appRoot sessionID branch =
     (let baseAppID = trimSpace (rq_BaseAppID req);
          now = Some (env_now env);
          createdAt = (case existing of Some e \<Rightarrow> if ss_CreatedAt e \<noteq> None then ss_CreatedAt e else now | None \<Rightarrow> now);
          status = (if trimSpace (rq_Status req) = [] then ''registered'' else trimSpace (rq_Status req));
          reportToken = (case existing of
             Some e \<Rightarrow> if trimSpace (rq_ReportToken req) = [] then ss_ReportToken e else trimSpace (rq_ReportToken req)
           | None \<Rightarrow> trimSpace (rq_ReportToken req));
          ownerPID = (case existing of
             Some e \<Rightarrow> if rq_OwnerPID req = 0 then ss_OwnerPID e else rq_OwnerPID req
           | None \<Rightarrow> rq_OwnerPID req);
          owner = sessionOwner env req existing ownerPID;
          processes = processesForSession env (rq_Processes req)
                        (case existing of Some e \<Rightarrow> ss_Processes e | None \<Rightarrow> []);
          processes = claimAppProcess env (rq_AppPID req) processes;
          backends = copyBackends (rq_Backends req);
          ns = (case existing of
             Some e \<Rightarrow> if routeNamespaceEmpty (rq_RouteNamespace req) \<and> \<not> routeNamespaceEmpty (ss_RouteNamespace e)
                       then ss_RouteNamespace e else normalizeRouteNamespace (rq_RouteNamespace req) baseAppID
           | None \<Rightarrow> normalizeRouteNamespace (rq_RouteNamespace req) baseAppID)
      in \<lparr>ss_SchemaVersion = SessionSchemaVersion, ss_SessionID = sessionID, ss_BaseAppID = baseAppID,
          ss_RuntimeAppID = baseAppID @ ''--'' @ sessionID, ss_RouteNamespace = ns, ss_AppRoot = appRoot,
          ss_StateRoot = StateRoot appRoot sessionID, ss_Branch = branch, ss_Status = status,
          ss_StatusReason = [], ss_OwnerPID = ownerPID, ss_Owner = owner,
          ss_AppPID = trimSpace (rq_AppPID req), ss_Processes = processes,
          ss_Routes = routesForSession sessionID routerAddr routerScheme backends ns,
          ss_Aliases = [], ss_AliasConflicts = [], ss_Backends = backends,
          ss_ReportToken = reportToken, ss_CreatedAt = createdAt, ss_UpdatedAt = now\<rparr>)"

definition NewSession ::
  "agentEnv \<Rightarrow> RegisterRequest \<Rightarrow> string \<Rightarrow> string \<Rightarrow> Session option \<Rightarrow> string + Session" where
  "NewSession env req routerAddr routerScheme existing =
     (case pathAbs (env_cwd env) (trimSpace (rq_AppRoot req)) of
        None \<Rightarrow> Inl ''getwd failed''
      | Some appRoot \<Rightarrow>
        if appRoot = [] then Inl ''app_root must not be empty''
        else if trimSpace (rq_BaseAppID req) = [] then Inl ''base_app_id must not be empty''
        else case NormalizeSessionID (rq_SessionID req) of
          Inl e \<Rightarrow> Inl e
        | Inr requested \<Rightarrow>
          (let branch = sessionBranch env req existing requested appRoot;
               sessionID = (if requested \<noteq> [] then requested else SessionID env appRoot branch)
           in if (case existing of Some e \<Rightarrow> pathClean (ss_AppRoot e) \<noteq> appRoot | None \<Rightarrow> False)
              then Inl (''session '' @ goQuote sessionID @ '' already belongs to app root '' @ ss_AppRoot (the existing))
              else Inr (buildSession env req routerAddr routerScheme existing appRoot sessionID branch)))"

section \<open>Owners\<close>

lemma OwnerFromRequest_PID: "0 < pid \<Longrightarrow> ow_PID (OwnerFromRequest env pid owner by) = pid"
  by (simp add: OwnerFromRequest_def Let_def noOwner_def)

section \<open>Labels\<close>

text \<open>A label: lower-case letters, digits and single inner dashes.\<close>

definition labelChar :: "char \<Rightarrow> bool" where
  "labelChar c = (isLowerLetter c \<or> isDigit c)"

fun wellSpaced :: "string \<Rightarrow> bool" where
  "wellSpaced (a # b # cs) = (\<not> (a = CHR ''-'' \<and> b = CHR ''-'') \<and> wellSpaced (b # cs))"
| "wellSpaced _ = True"

definition isLabel :: "string \<Rightarrow> bool" where
  "isLabel s = (list_all (\<lambda>c. labelChar c \<or> c = CHR ''-'') s \<and> wellSpaced s
     \<and> (s = [] \<or> hd s \<noteq> CHR ''-'' \<and> last s \<noteq> CHR ''-''))"

lemma wellSpaced_append:
  "wellSpaced (xs @ ys) \<longleftrightarrow> wellSpaced xs \<and> wellSpaced ys
     \<and> \<not> (xs \<noteq> [] \<and> ys \<noteq> [] \<and> last xs = CHR ''-'' \<and> hd ys = CHR ''-'')"
  by (induction xs rule: wellSpaced.induct; cases ys) auto

lemma sanitizeLoop_shape:
  assumes "list_all (\<lambda>c. labelChar c \<or> c = CHR ''-'') b \<and> wellSpaced b"
    and "dash \<longleftrightarrow> b \<noteq> [] \<and> last b = CHR ''-''"
    and "\<forall>c \<in> set s. \<not> isUpperLetter c"
  shows "list_all (\<lambda>c. labelChar c \<or> c = CHR ''-'') (sanitizeLoop b dash s) \<and> wellSpaced (sanitizeLoop b dash s)"
  using assms
proof (induction b dash s rule: sanitizeLoop.induct)
  case (2 b dash r rs)
  have d: "isLetter r \<or> isDigit r \<Longrightarrow> labelChar r \<and> r \<noteq> CHR ''-''"
    using "2.prems"(3) by (auto simp: labelChar_def isLetter_def isLowerLetter_def isUpperLetter_def isDigit_def Let_def)
  show ?case
  proof (cases "isLetter r \<or> isDigit r")
    case True
    with 2 d show ?thesis by (auto simp: wellSpaced_append)
  next
    case False
    then show ?thesis
      using 2 by (cases "r \<in> set ''-_/.'' \<or> isSpace r"; cases "\<not> dash \<and> b \<noteq> []") (auto simp: wellSpaced_append)
  qed
qed simp

lemma wellSpaced_sub: "wellSpaced (xs @ ys @ zs) \<Longrightarrow> wellSpaced ys"
  by (simp add: wellSpaced_append)

lemma trimBy_infix: "\<exists>us vs. s = us @ trimBy p s @ vs"
proof -
  obtain us where "s = us @ dropWhile p s" using dropWhile_suffix [of s p] by blast
  moreover obtain vs where "rev (dropWhile p s) = vs @ dropWhile p (rev (dropWhile p s))"
    using dropWhile_suffix [of "rev (dropWhile p s)" p] by blast
  then have "dropWhile p s = trimBy p s @ rev vs" by (metis rev_append rev_rev_ident trimBy_def)
  ultimately show ?thesis by metis
qed

lemma sanitizeLabel_isLabel: "isLabel (sanitizeLabel s)"
proof -
  let ?b = "sanitizeLoop [] False (toLower (trimSpace s))"
  have "\<forall>c \<in> set (toLower (trimSpace s)). \<not> isUpperLetter c"
    by (auto simp: toLower_def toLowerChar_not_upper)
  then have b: "list_all (\<lambda>c. labelChar c \<or> c = CHR ''-'') ?b" "wellSpaced ?b"
    using sanitizeLoop_shape [of "[]" False] by auto
  obtain us vs where "?b = us @ sanitizeLabel s @ vs"
    using trimBy_infix [of ?b "\<lambda>c. c \<in> set ''-''"] unfolding sanitizeLabel_def trimSet_def by blast
  then have "list_all (\<lambda>c. labelChar c \<or> c = CHR ''-'') (sanitizeLabel s)" "wellSpaced (sanitizeLabel s)"
    using b wellSpaced_sub by auto
  then show ?thesis
    using trimBy_ends [of "\<lambda>c. c \<in> set ''-''" ?b] by (auto simp: isLabel_def sanitizeLabel_def trimSet_def)
qed

lemma sanitizeLoop_label:
  "list_all (\<lambda>c. labelChar c \<or> c = CHR ''-'') s \<Longrightarrow> wellSpaced (b @ s) \<Longrightarrow> (b @ s = [] \<or> hd (b @ s) \<noteq> CHR ''-'') \<Longrightarrow>
    (dash \<longleftrightarrow> b \<noteq> [] \<and> last b = CHR ''-'') \<Longrightarrow> sanitizeLoop b dash s = b @ s"
proof (induction b dash s rule: sanitizeLoop.induct)
  case (2 b dash r rs)
  show ?case
  proof (cases "r = CHR ''-''")
    case True
    have "b \<noteq> []" using "2.prems"(3) True by (cases b) auto
    moreover have "\<not> dash" using "2.prems"(2,4) True calculation by (auto simp: wellSpaced_append)
    ultimately show ?thesis using 2 True by (auto simp: isLetter_def isLowerLetter_def isUpperLetter_def isDigit_def Let_def)
  next
    case False
    with "2.prems"(1) have "labelChar r" "isLetter r \<or> isDigit r" by (auto simp: labelChar_def isLetter_def)
    with 2 False show ?thesis by auto
  qed
qed simp

lemma labelChar_plain: "labelChar c \<or> c = CHR ''-'' \<Longrightarrow> \<not> isSpace c \<and> toLowerChar c = c"
  by (auto simp: labelChar_def isSpace_def isLowerLetter_def isDigit_def toLowerChar_def isUpperLetter_def Let_def)

lemma label_trimSpace:
  assumes "isLabel s"
  shows "trimSpace s = s"
proof -
  have "list_all (\<lambda>c. labelChar c \<or> c = CHR ''-'') s" using assms by (simp add: isLabel_def)
  then show ?thesis
    unfolding trimSpace_def using labelChar_plain by (intro trimBy_fixed) (cases "s = []"; auto simp: list_all_iff)
qed

lemma sanitizeLabel_fixed:
  assumes "isLabel s"
  shows "sanitizeLabel s = s"
proof -
  have all: "list_all (\<lambda>c. labelChar c \<or> c = CHR ''-'') s" using assms by (simp add: isLabel_def)
  have "trimSpace s = s" using assms by (rule label_trimSpace)
  moreover have "toLower s = s"
    using all labelChar_plain by (auto simp: toLower_def list_all_iff intro: map_idI)
  moreover have "sanitizeLoop [] False s = s"
    using assms sanitizeLoop_label [of s "[]" False] by (auto simp: isLabel_def)
  moreover have "trimSet ''-'' s = s"
    unfolding trimSet_def using assms by (intro trimBy_fixed) (auto simp: isLabel_def)
  ultimately show ?thesis by (simp add: sanitizeLabel_def)
qed

interpretation label: normal_form sanitizeLabel
  by unfold_locales (rule sanitizeLabel_fixed, rule sanitizeLabel_isLabel)

section \<open>Session identifiers\<close>

text \<open>What the code relies on of SHA-256 in hexadecimal.\<close>

definition hexDigest :: "(string \<Rightarrow> string) \<Rightarrow> bool" where
  "hexDigest h = (\<forall>s. length (h s) = 64 \<and> list_all (\<lambda>c. isDigit c \<or> c \<in> set ''abcdef'') (h s))"

lemma hex_labelChar: "isDigit c \<or> c \<in> set ''abcdef'' \<Longrightarrow> labelChar c \<and> c \<noteq> CHR ''-''"
  by (auto simp: labelChar_def isDigit_def isLowerLetter_def Let_def)

lemma wellSpaced_no_dash: "CHR ''-'' \<notin> set s \<Longrightarrow> wellSpaced s"
  by (induction s rule: wellSpaced.induct) auto

lemma isLabel_take:
  assumes "isLabel l" "l \<noteq> []" "0 < n"
  shows "isLabel (trimSet ''-'' (take n l))" "trimSet ''-'' (take n l) \<noteq> []"
proof -
  let ?p = "\<lambda>c. c \<in> set ''-''"
  obtain us vs where t: "take n l = us @ trimBy ?p (take n l) @ vs" using trimBy_infix by blast
  have "list_all (\<lambda>c. labelChar c \<or> c = CHR ''-'') (take n l)" "wellSpaced (take n l)"
    using assms(1) wellSpaced_append [of "take n l" "drop n l"] by (auto simp: isLabel_def list_all_iff dest: in_set_takeD)
  then have "list_all (\<lambda>c. labelChar c \<or> c = CHR ''-'') (trimBy ?p (take n l))" "wellSpaced (trimBy ?p (take n l))"
    using t wellSpaced_sub [of us "trimBy ?p (take n l)" vs] by (metis list_all_append)+
  then show "isLabel (trimSet ''-'' (take n l))"
    using trimBy_ends [of ?p "take n l"] by (auto simp: isLabel_def trimSet_def)
  have "hd l \<in> set (take n l)" "hd l \<noteq> CHR ''-''" using assms by (cases l; cases n; auto simp: isLabel_def)+
  then show "trimSet ''-'' (take n l) \<noteq> []"
    by (auto simp: trimSet_def trimBy_Nil_iff list_all_iff)
qed

lemma isLabel_suffix:
  assumes "isLabel l" "l \<noteq> []" "list_all (\<lambda>c. isDigit c \<or> c \<in> set ''abcdef'') h" "h \<noteq> []"
  shows "isLabel (l @ ''-'' @ h)"
proof -
  have h: "list_all (\<lambda>c. labelChar c \<or> c = CHR ''-'') h" "CHR ''-'' \<notin> set h"
    using assms(3) hex_labelChar by (auto simp: list_all_iff)
  then have "wellSpaced h" "hd h \<noteq> CHR ''-''" "last h \<noteq> CHR ''-''"
    using assms(4) h(2) wellSpaced_no_dash by (metis hd_in_set last_in_set)+
  moreover have "wellSpaced (''-'' @ h)"
    unfolding wellSpaced_append using calculation by simp
  ultimately show ?thesis
    using assms h by (auto simp: isLabel_def wellSpaced_append)
qed

lemma SessionID_label:
  assumes "hexDigest (env_sha256hex env)"
  shows "isLabel (SessionID env appRoot branch)" "length (SessionID env appRoot branch) \<le> 55"
proof -
  define l0 where "l0 = (let label = sanitizeLabel branch;
          label = (if label = [] then sanitizeLabel (pathBase appRoot) else label)
      in if label = [] then ''session'' else label)"
  define l where "l = (if length l0 > 48 then trimSet ''-'' (take 48 l0) else l0)"
  define h where "h = take 6 (env_sha256hex env (pathClean appRoot))"
  have i: "SessionID env appRoot branch = l @ ''-'' @ h"
    by (simp add: SessionID_def l_def l0_def h_def Let_def)
  have s: "isLabel ''session''" by code_simp
  then have l0: "isLabel l0" "l0 \<noteq> []" by (simp_all add: l0_def Let_def sanitizeLabel_isLabel)
  then have l: "isLabel l" "l \<noteq> []" using isLabel_take [of l0 48] by (auto simp: l_def)
  have len: "length l \<le> 48"
    using length_trimBy [of "\<lambda>c. c \<in> set ''-''" "take 48 l0"] by (auto simp: l_def trimSet_def)
  have "list_all (\<lambda>c. isDigit c \<or> c \<in> set ''abcdef'') (env_sha256hex env (pathClean appRoot))"
    "length (env_sha256hex env (pathClean appRoot)) = 64"
    using assms by (simp_all only: hexDigest_def)
  then have h: "list_all (\<lambda>c. isDigit c \<or> c \<in> set ''abcdef'') h" "length h = 6"
    by (auto simp: h_def list_all_iff dest: in_set_takeD)
  have "isLabel (l @ ''-'' @ h)" using isLabel_suffix [OF l h(1)] h(2) by (cases h) auto
  then show "isLabel (SessionID env appRoot branch)" by (simp add: i)
  show "length (SessionID env appRoot branch) \<le> 55" using len h(2) by (simp add: i)
qed

text \<open>
  Every session identifier the agent derives is in normal form: a DNS label of lower-case letters,
  digits and single inner dashes, at most 55 bytes long, which normalisation leaves as it is.  So a
  client that sends a derived identifier back names the same session.
\<close>

lemma session_id_canonical:
  assumes "hexDigest (env_sha256hex env)"
  shows "isLabel (SessionID env appRoot branch) \<and> length (SessionID env appRoot branch) \<le> 55
         \<and> NormalizeSessionID (SessionID env appRoot branch) = Inr (SessionID env appRoot branch)"
proof -
  note l = SessionID_label [OF assms, of appRoot branch]
  have "SessionID env appRoot branch \<noteq> []" by (simp add: SessionID_def Let_def)
  with l sanitizeLabel_fixed [OF l(1)] show ?thesis by (simp add: NormalizeSessionID_def Let_def)
qed

definition plainEnv :: agentEnv where
  "plainEnv = \<lparr>env_now = 1000, env_pid = 7, env_cwd = Some ''/home'', env_exe = None, env_args = [],
     env_processOwnerInfo = (\<lambda>pid. if pid = 42 then \<lparr>pi_StartedAt = ''t42'', pi_Exe = ''/bin/up'', pi_Cmdline = []\<rparr>
                                   else \<lparr>pi_StartedAt = [], pi_Exe = [], pi_Cmdline = []\<rparr>),
     env_sha256hex = (\<lambda>s. if s = ''/srv/app'' then replicate 64 CHR ''a'' else replicate 64 CHR ''b''),
     env_git = (\<lambda>root. Some ''main'')\<rparr>"

lemma session_id_canonical_witness:
  "NormalizeSessionID (SessionID plainEnv ''/srv/app'' ''Feature/New_Login'') = Inr ''feature-new-login-aaaaaa''"
proof -
  have h: "hexDigest (env_sha256hex plainEnv)" by (simp add: hexDigest_def plainEnv_def list_all_iff)
  have "SessionID plainEnv ''/srv/app'' ''Feature/New_Login'' = ''feature-new-login-aaaaaa''" by code_simp
  with session_id_canonical [OF h, of "''/srv/app''" "''Feature/New_Login''"] show ?thesis by simp
qed

end
