(* ===== verification/AgentRegistry.thy ===== *)
theory AgentRegistry
  imports AgentSession "HOL-Library.Multiset"
begin

text \<open>
  The session registry of the local agent, \<open>internal/agent/registry.go\<close>: registration and removal of
  sessions and of shared substrates, host-name leases (aliases), the index from host names to
  sessions, and the file the registry is saved to and loaded from.  Each operation runs under the
  registry's mutex, so it is one function from registry to registry.  The file is the value of
  \<open>registryFile\<close> that its JSON stands for (the report token is not written); whether a write
  succeeds is an argument.
\<close>

section \<open>Definitions\<close>

record SubstrateExit =
  se_Component :: string
  se_PID :: int
  se_StartedAt :: timestamp
  se_ExitedAt :: timestamp
  se_ExitCode :: int
  se_Signal :: string
  se_Error :: string
  se_LogPath :: string
  se_StdoutLogPath :: string
  se_StderrLogPath :: string

record Substrate =
  sb_SchemaVersion :: string
  sb_Kind :: string
  sb_Status :: string
  sb_OwnerPID :: int
  sb_Owner :: Owner
  sb_PIDs :: "(string, int) gomap"
  sb_Owners :: "(string, Owner) gomap"
  sb_URLs :: "(string, string) gomap"
  sb_Endpoints :: "(string, string) gomap"
  sb_LastExit :: "SubstrateExit option"
  sb_ComponentExits :: "(string, SubstrateExit) gomap"
  sb_CreatedAt :: timestamp
  sb_UpdatedAt :: timestamp

record UpsertSubstrateRequest =
  us_Kind :: string
  us_Status :: string
  us_OwnerPID :: int
  us_Owner :: Owner
  us_PIDs :: "(string, int) gomap"
  us_Owners :: "(string, Owner) gomap"
  us_URLs :: "(string, string) gomap"
  us_Endpoints :: "(string, string) gomap"
  us_LastExit :: "SubstrateExit option"
  us_ComponentExits :: "(string, SubstrateExit) gomap"

record routeTarget =
  tg_SessionID :: string
  tg_Route :: string

record registryFile =
  rf_Sessions :: "Session list"
  rf_Substrates :: "Substrate list"
  rf_Aliases :: "AliasLease list"
  rf_CurrentByAppRoot :: "(string, string) gomap"

record Registry =
  reg_router :: string
  reg_scheme :: string
  reg_sessions :: "(string, Session) gomap"
  reg_substrates :: "(string, Substrate) gomap"
  reg_aliases :: "(string, AliasLease) gomap"
  reg_routeHosts :: "(string, routeTarget) gomap"
  reg_currentByAppRoot :: "(string, string) gomap"
  reg_file :: "registryFile option"

subsection \<open>Sorted listings\<close>

text \<open>\<open>sort.Slice\<close> by a strict order; the orders used are total on the entries of a map.\<close>

fun insertBy :: "('a \<Rightarrow> 'a \<Rightarrow> bool) \<Rightarrow> 'a \<Rightarrow> 'a list \<Rightarrow> 'a list" where
  "insertBy lt x [] = [x]"
| "insertBy lt x (y # ys) = (if lt y x then y # insertBy lt x ys else x # y # ys)"

definition sortBy :: "('a \<Rightarrow> 'a \<Rightarrow> bool) \<Rightarrow> 'a list \<Rightarrow> 'a list" where
  "sortBy lt xs = foldr (insertBy lt) xs []"

definition stampValue :: "timestamp \<Rightarrow> int" where
  "stampValue t = (case t of None \<Rightarrow> -62135596800000000000 | Some n \<Rightarrow> n)"

definition newerSession :: "Session \<Rightarrow> Session \<Rightarrow> bool" where
  "newerSession a b =
     (if stampValue (ss_UpdatedAt a) \<noteq> stampValue (ss_UpdatedAt b)
      then stampValue (ss_UpdatedAt a) > stampValue (ss_UpdatedAt b)
      else ss_SessionID a < ss_SessionID b)"

definition sortSessions :: "Session list \<Rightarrow> Session list" where
  "sortSessions items = sortBy newerSession items"

definition sortedSessions :: "(string, Session) gomap \<Rightarrow> Session list" where
  "sortedSessions m = sortSessions (map snd m)"

definition sortedSubstrates :: "(string, Substrate) gomap \<Rightarrow> Substrate list" where
  "sortedSubstrates m = sortBy (\<lambda>a b. sb_Kind a < sb_Kind b) (map snd m)"

definition sortedAliases :: "(string, AliasLease) gomap \<Rightarrow> AliasLease list" where
  "sortedAliases m =
     sortBy (\<lambda>a b. if al_Host a \<noteq> al_Host b then al_Host a < al_Host b else al_SessionID a < al_SessionID b) (map snd m)"

subsection \<open>Copies of request maps\<close>

definition copyStringMap :: "(string, string) gomap \<Rightarrow> (string, string) gomap" where
  "copyStringMap m =
     foldl (\<lambda>c (k, v). let k = sanitizeLabel k; v = trimSpace v in if k = [] \<or> v = [] then c else AList.update k v c) [] m"

definition copyRawStringMap :: "(string, string) gomap \<Rightarrow> (string, string) gomap" where
  "copyRawStringMap m =
     foldl (\<lambda>c (k, v). let k = trimSpace k; v = trimSpace v in if k = [] \<or> v = [] then c else AList.update k v c) [] m"

definition copyOwnerMap :: "(string, Owner) gomap \<Rightarrow> (string, Owner) gomap" where
  "copyOwnerMap m = foldl (\<lambda>c (k, v). let k = sanitizeLabel k in if k = [] then c else AList.update k v c) [] m"

definition copyIntMap :: "(string, int) gomap \<Rightarrow> (string, int) gomap" where
  "copyIntMap m =
     foldl (\<lambda>c (k, v). let k = sanitizeLabel k in if k = [] \<or> v \<le> 0 then c else AList.update k v c) [] m"

definition copySubstrateExitMap :: "(string, SubstrateExit) gomap \<Rightarrow> (string, SubstrateExit) gomap" where
  "copySubstrateExitMap m =
     foldl (\<lambda>c (k, v). let k = sanitizeLabel k in if k = [] then c
              else AList.update k (v\<lparr>se_Component := firstNonEmpty [se_Component v, k]\<rparr>) c) [] m"

subsection \<open>Substrates\<close>

definition ownersForSubstrate ::
  "agentEnv \<Rightarrow> string \<Rightarrow> (string, int) gomap \<Rightarrow> (string, Owner) gomap \<Rightarrow> Substrate option \<Rightarrow> (string, Owner) gomap" where
  "ownersForSubstrate env kind pids requested current =
     foldl (\<lambda>owners (name, pid).
       if pid \<le> 0 then owners
       else let owner = (case map_of owners name of None \<Rightarrow> noOwner | Some w \<Rightarrow> w);
                owner = (case current of
                   Some c \<Rightarrow> (let e = (case map_of (sb_Owners c) name of None \<Rightarrow> noOwner | Some w \<Rightarrow> w)
                             in if ow_PID owner = 0 \<and> ow_PID e = pid then e else owner)
                 | None \<Rightarrow> owner);
                owner = OwnerFromRequest env pid owner (''scenery substrate '' @ kind @ ''.'' @ name)
            in if ow_PID owner > 0 then AList.update name owner owners else owners)
       (copyOwnerMap requested) pids"

definition componentExitsForSubstrate ::
  "string \<Rightarrow> (string, SubstrateExit) gomap \<Rightarrow> Substrate option \<Rightarrow> (string, SubstrateExit) gomap" where
  "componentExitsForSubstrate status requested current =
     (if status = ''ready'' then copySubstrateExitMap requested
      else let merged = (case current of
                 None \<Rightarrow> []
               | Some c \<Rightarrow> foldl (\<lambda>m (k, v). let k = sanitizeLabel k in if k \<noteq> [] then AList.update k v m else m)
                             [] (sb_ComponentExits c))
           in foldl (\<lambda>m (k, v). let k = sanitizeLabel k in if k = [] then m
                       else AList.update k (v\<lparr>se_Component := firstNonEmpty [se_Component v, k]\<rparr>) m)
                merged requested)"

text \<open>
  Saving: the file is replaced as a whole or, when the write fails, left as it was.
\<close>

definition fileOf :: "Registry \<Rightarrow> registryFile" where
  "fileOf r =
     \<lparr>rf_Sessions = map (\<lambda>s. s\<lparr>ss_ReportToken := []\<rparr>) (sortedSessions (reg_sessions r)),
      rf_Substrates = sortedSubstrates (reg_substrates r),
      rf_Aliases = sortedAliases (reg_aliases r),
      rf_CurrentByAppRoot = copyRawStringMap (reg_currentByAppRoot r)\<rparr>"

definition saveLocked :: "bool \<Rightarrow> Registry \<Rightarrow> Registry \<times> string option" where
  "saveLocked writeOK r = (if writeOK then (r\<lparr>reg_file := Some (fileOf r)\<rparr>, None) else (r, Some ''write failed''))"

definition UpsertSubstrate ::
  "agentEnv \<Rightarrow> bool \<Rightarrow> Registry \<Rightarrow> UpsertSubstrateRequest \<Rightarrow> Registry \<times> (string + Substrate)" where
  "UpsertSubstrate env writeOK r req =
     (let kind = sanitizeLabel (us_Kind req)
      in if kind = [] then (r, Inl ''substrate kind must not be empty'')
         else let status = (if trimSpace (us_Status req) = [] then ''ready'' else trimSpace (us_Status req));
                  now = Some (env_now env);
                  current = map_of (reg_substrates r) kind;
                  createdAt = (case current of Some c \<Rightarrow> if sb_CreatedAt c \<noteq> None then sb_CreatedAt c else now | None \<Rightarrow> now);
                  ownerPID = (case current of Some c \<Rightarrow> if us_OwnerPID req = 0 then sb_OwnerPID c else us_OwnerPID req
                              | None \<Rightarrow> us_OwnerPID req);
                  owner = (case current of
                     Some c \<Rightarrow> if ow_PID (us_Owner req) = 0 \<and> ow_PID (sb_Owner c) > 0 then sb_Owner c else us_Owner req
                   | None \<Rightarrow> us_Owner req);
                  pids = copyIntMap (us_PIDs req);
                  lastExit = (case (us_LastExit req, current) of
                     (None, Some c) \<Rightarrow> if status \<noteq> ''ready'' then sb_LastExit c else None
                   | (e, _) \<Rightarrow> e);
                  substrate = \<lparr>sb_SchemaVersion = SubstrateSchemaVersion, sb_Kind = kind, sb_Status = status,
                     sb_OwnerPID = ownerPID, sb_Owner = OwnerFromRequest env ownerPID owner ''scenery substrate'',
                     sb_PIDs = pids, sb_Owners = ownersForSubstrate env kind pids (us_Owners req) current,
                     sb_URLs = copyStringMap (us_URLs req), sb_Endpoints = copyStringMap (us_Endpoints req),
                     sb_LastExit = lastExit, sb_ComponentExits = componentExitsForSubstrate status (us_ComponentExits req) current,
                     sb_CreatedAt = createdAt, sb_UpdatedAt = now\<rparr>;
                  r = r\<lparr>reg_substrates := AList.update kind substrate (reg_substrates r)\<rparr>
              in case saveLocked writeOK r of (r, None) \<Rightarrow> (r, Inr substrate) | (r, Some e) \<Rightarrow> (r, Inl e))"

definition GetSubstrate :: "Registry \<Rightarrow> string \<Rightarrow> Substrate option" where
  "GetSubstrate r kind = map_of (reg_substrates r) (sanitizeLabel kind)"

definition ListSubstrates :: "Registry \<Rightarrow> Substrate list" where
  "ListSubstrates r = sortedSubstrates (reg_substrates r)"

definition DeleteSubstrate :: "bool \<Rightarrow> Registry \<Rightarrow> string \<Rightarrow> Registry \<times> (string + Substrate option)" where
  "DeleteSubstrate writeOK r kind =
     (let key = sanitizeLabel kind
      in case map_of (reg_substrates r) key of
           None \<Rightarrow> (r, Inr None)
         | Some sb \<Rightarrow>
           (case saveLocked writeOK (r\<lparr>reg_substrates := AList.delete key (reg_substrates r)\<rparr>) of
              (r, None) \<Rightarrow> (r, Inr (Some sb)) | (r, Some e) \<Rightarrow> (r, Inl e)))"

subsection \<open>Who may register\<close>

definition ownerHasFingerprint :: "Owner \<Rightarrow> bool" where
  "ownerHasFingerprint w = (trimSpace (ow_StartedAt w) \<noteq> [] \<or> trimSpace (ow_CmdlineHash w) \<noteq> [] \<or> trimSpace (ow_Exe w) \<noteq> [])"

definition ownerProcessInspectable :: "agentEnv \<Rightarrow> int \<Rightarrow> bool" where
  "ownerProcessInspectable env pid =
     (if pid \<le> 0 then False
      else let owner = CaptureOwner env pid []
           in ow_PID owner > 0 \<and> (ow_StartedAt owner \<noteq> [] \<or> ow_CmdlineHash owner \<noteq> [] \<or> ow_Exe owner \<noteq> []))"

definition sessionPID :: "Session \<Rightarrow> int" where
  "sessionPID s = firstPositive [ss_OwnerPID s, ow_PID (ss_Owner s)]"

definition sessionBlocksAppRootRegistration :: "agentEnv \<Rightarrow> Session \<Rightarrow> bool" where
  "sessionBlocksAppRootRegistration env existing =
     (let existingPID = sessionPID existing
      in if existingPID \<le> 0 then False
         else let owner = (if ow_PID (ss_Owner existing) \<noteq> existingPID then noOwner else ss_Owner existing);
                  owner = (if ow_PID owner \<le> 0 then owner\<lparr>ow_PID := existingPID\<rparr> else owner)
              in if VerifyOwner env owner = None then True else ownerProcessInspectable env existingPID)"

definition blockingAppRootSession :: "agentEnv \<Rightarrow> Registry \<Rightarrow> Session \<Rightarrow> Session option" where
  "blockingAppRootSession env r nx =
     find (\<lambda>e. \<not> (ss_SessionID e = ss_SessionID nx \<or> pathClean (ss_AppRoot e) \<noteq> pathClean (ss_AppRoot nx))
               \<and> sessionBlocksAppRootRegistration env e)
       (map snd (reg_sessions r))"

definition requestMayClaimSession :: "agentEnv \<Rightarrow> RegisterRequest \<Rightarrow> Session \<Rightarrow> Session \<Rightarrow> bool" where
  "requestMayClaimSession env req existing nx =
     (let requestPID = firstPositive [rq_OwnerPID req, ow_PID (rq_Owner req), ss_OwnerPID nx, ow_PID (ss_Owner nx)];
          existingPID = sessionPID existing
      in if requestPID \<le> 0 \<or> existingPID \<le> 0 \<or> requestPID = existingPID then True
         else let owner = (if ow_PID (ss_Owner existing) \<noteq> existingPID then noOwner else ss_Owner existing);
                  owner = (if ow_PID owner \<le> 0 then owner\<lparr>ow_PID := ss_OwnerPID existing\<rparr> else owner)
              in if VerifyOwner env owner \<noteq> None
                 then (if ownerProcessInspectable env existingPID then False else rq_ClaimOwner req)
                 else False)"

subsection \<open>Host-name leases\<close>

definition normalizeAliasRoute :: "string \<Rightarrow> string" where
  "normalizeAliasRoute route = (let route = sanitizeLabel route in if route = ''console'' then RouteDashboard else route)"

definition normalizeAliasLease :: "AliasLease \<Rightarrow> AliasLease" where
  "normalizeAliasLease a = a\<lparr>al_Host := normalizeRouteHost (al_Host a), al_Route := normalizeAliasRoute (al_Route a)\<rparr>"

definition aliasLeaseOwnerStale :: "agentEnv \<Rightarrow> AliasLease \<Rightarrow> bool" where
  "aliasLeaseOwnerStale env a =
     (let pid = firstPositive [al_OwnerPID a, ow_PID (al_Owner a)]
      in if pid \<le> 0 then False
         else let owner = (if ow_PID (al_Owner a) > 0 \<and> ow_PID (al_Owner a) \<noteq> pid then noOwner else al_Owner a);
                  owner = owner\<lparr>ow_PID := pid\<rparr>
              in if \<not> ownerHasFingerprint owner then False else VerifyOwner env owner \<noteq> None)"

definition removeSessionAliases :: "string \<Rightarrow> Registry \<Rightarrow> Registry" where
  "removeSessionAliases sessionID r =
     (let sessionID = trimSpace sessionID
      in if sessionID = [] then r
         else r\<lparr>reg_aliases := filter (\<lambda>(h, a). al_SessionID a \<noteq> sessionID) (reg_aliases r)\<rparr>)"

definition removeAliasFromSession :: "AliasLease \<Rightarrow> Registry \<Rightarrow> Registry" where
  "removeAliasFromSession a r =
     (case map_of (reg_sessions r) (al_SessionID a) of
        None \<Rightarrow> r
      | Some s \<Rightarrow>
        (let route = normalizeAliasRoute (al_Route a)
         in if route = [] then r
            else let s = s\<lparr>ss_Aliases := AList.delete route (ss_Aliases s),
                           ss_AliasConflicts := AList.delete route (ss_AliasConflicts s)\<rparr>
                 in r\<lparr>reg_sessions := AList.update (ss_SessionID s) s (reg_sessions r)\<rparr>))"

definition desiredAliases :: "Session \<Rightarrow> (string, string) gomap" where
  "desiredAliases s =
     foldl (\<lambda>d (configuredRoute, configuredHost).
       let route = normalizeAliasRoute configuredRoute; host = normalizeRouteHost configuredHost
       in if route = [] \<or> host = [] \<or> lookupStr (ss_Routes s) route = [] then d else AList.update host route d)
       [] (rn_Hosts (ss_RouteNamespace s))"

definition foreignLease :: "Session \<Rightarrow> AliasLease option \<Rightarrow> bool" where
  "foreignLease s claimed = (case claimed of Some e \<Rightarrow> al_SessionID e \<noteq> ss_SessionID s | None \<Rightarrow> False)"

definition leaseFor :: "agentEnv \<Rightarrow> Session \<Rightarrow> Registry \<Rightarrow> string \<Rightarrow> string \<Rightarrow> AliasLease option \<Rightarrow> AliasLease" where
  "leaseFor env s r host route claimed =
     (let now = (if ss_UpdatedAt s = None then Some (env_now env) else ss_UpdatedAt s);
          createdAt = (case claimed of Some e \<Rightarrow> if al_CreatedAt e \<noteq> None then al_CreatedAt e else now | None \<Rightarrow> now)
      in \<lparr>al_Host = host, al_Route = route, al_SessionID = ss_SessionID s, al_AppRoot = ss_AppRoot s,
          al_OwnerPID = ss_OwnerPID s, al_Owner = ss_Owner s, al_URL = routeURL (reg_scheme r) host (reg_router r) [],
          al_CreatedAt = createdAt, al_UpdatedAt = now\<rparr>)"

text \<open>The loop over the desired hosts: the registry, the granted aliases and the conflicts.\<close>

definition claimHost ::
  "agentEnv \<Rightarrow> Session \<Rightarrow> bool \<Rightarrow> Registry \<times> (string, string) gomap \<times> (string, AliasLease) gomap \<Rightarrow> string \<times> string \<Rightarrow>
   Registry \<times> (string, string) gomap \<times> (string, AliasLease) gomap" where
  "claimHost env s force st hr =
     (let (r, aliases, conflicts) = st; (host, route) = hr; claimed = map_of (reg_aliases r) host
      in if foreignLease s claimed \<and> \<not> force \<and> \<not> aliasLeaseOwnerStale env (the claimed)
         then (r, aliases, AList.update route (the claimed) conflicts)
         else let r = (if foreignLease s claimed then removeAliasFromSession (the claimed) r else r)
              in (r\<lparr>reg_aliases := AList.update host (leaseFor env s r host route claimed) (reg_aliases r)\<rparr>,
                  AList.update route (routeURL (reg_scheme r) host (reg_router r) []) aliases, conflicts))"

definition claimAliases ::
  "agentEnv \<Rightarrow> Session \<Rightarrow> bool \<Rightarrow> Registry \<Rightarrow> Registry \<times> (string, string) gomap \<times> (string, AliasLease) gomap" where
  "claimAliases env s force r =
     (if rn_Hosts (ss_RouteNamespace s) = [] then (removeSessionAliases (ss_SessionID s) r, [], [])
      else let desired = desiredAliases s;
               r = r\<lparr>reg_aliases := filter (\<lambda>(h, a). \<not> (al_SessionID a = ss_SessionID s \<and> lookupStr desired h = [])) (reg_aliases r)\<rparr>;
               (r, aliases, conflicts) = foldl (claimHost env s force) (r, [], []) desired;
               conflicts = map (\<lambda>(route, a). (route, normalizeAliasLease a))
                             (filter (\<lambda>(route, a). lookupStr aliases route = []) conflicts)
           in (r, aliases, conflicts))"

subsection \<open>The host index\<close>

definition indexSession :: "(string, routeTarget) gomap \<Rightarrow> Session \<Rightarrow> (string, routeTarget) gomap" where
  "indexSession hosts s =
     foldl (\<lambda>hosts (route, url).
       let host = normalizeRouteHost url; route = normalizeAliasRoute route
       in if host = [] \<or> route = [] then hosts
          else AList.update host \<lparr>tg_SessionID = ss_SessionID s, tg_Route = route\<rparr> hosts) hosts (ss_Routes s)"

definition indexAlias :: "(string, Session) gomap \<Rightarrow> (string, routeTarget) gomap \<Rightarrow> string \<times> AliasLease \<Rightarrow> (string, routeTarget) gomap" where
  "indexAlias sessions hosts ha =
     (let (h, a) = ha; route = normalizeAliasRoute (al_Route a);
          host = normalizeRouteHost (firstNonEmpty [al_Host a, h, al_URL a])
      in if host = [] \<or> route = [] \<or> trimSpace (al_SessionID a) = [] then hosts
         else case map_of sessions (al_SessionID a) of
                None \<Rightarrow> hosts
              | Some _ \<Rightarrow> AList.update host \<lparr>tg_SessionID = al_SessionID a, tg_Route = route\<rparr> hosts)"

definition rebuildRouteHostIndex :: "Registry \<Rightarrow> Registry" where
  "rebuildRouteHostIndex r =
     r\<lparr>reg_routeHosts := foldl (indexAlias (reg_sessions r)) (foldl indexSession [] (map snd (reg_sessions r))) (reg_aliases r)\<rparr>"

subsection \<open>Registration\<close>

definition upsertSessionID :: "agentEnv \<Rightarrow> RegisterRequest \<Rightarrow> string + string" where
  "upsertSessionID env req =
     (case NormalizeSessionID (rq_SessionID req) of
        Inl e \<Rightarrow> Inl e
      | Inr sid \<Rightarrow>
        if sid = []
        then let branch = trimSpace (rq_Branch req);
                 branch = (if branch = [] then discoverGitBranch env (rq_AppRoot req) else branch)
             in Inr (SessionID env (rq_AppRoot req) branch)
        else Inr sid)"

text \<open>The part of \<open>Upsert\<close> after the checks: claim the host names, enter the session and rebuild the index.\<close>

definition installSession :: "agentEnv \<Rightarrow> bool \<Rightarrow> Session \<Rightarrow> Registry \<Rightarrow> Registry \<times> Session" where
  "installSession env force session r =
     (let (r, aliases, conflicts) = claimAliases env session force r;
          session = session\<lparr>ss_Aliases := aliases, ss_AliasConflicts := conflicts\<rparr>;
          r = r\<lparr>reg_sessions := AList.update (ss_SessionID session) session (reg_sessions r),
                reg_currentByAppRoot := AList.update (pathClean (ss_AppRoot session)) (ss_SessionID session)
                                          (reg_currentByAppRoot r)\<rparr>
      in (rebuildRouteHostIndex r, session))"

definition Upsert ::
  "agentEnv \<Rightarrow> bool \<Rightarrow> bool \<Rightarrow> Registry \<Rightarrow> RegisterRequest \<Rightarrow> Registry \<times> (string + Session)" where
  "Upsert env writeOK manifestOK r req =
     (case upsertSessionID env req of
        Inl e \<Rightarrow> (r, Inl e)
      | Inr sessionID \<Rightarrow>
        (let existing = map_of (reg_sessions r) sessionID
         in case NewSession env req (reg_router r) (reg_scheme r) existing of
              Inl e \<Rightarrow> (r, Inl e)
            | Inr session \<Rightarrow>
              if (case existing of Some e \<Rightarrow> \<not> requestMayClaimSession env req e session | None \<Rightarrow> False)
              then (r, Inl (''scenery up session '' @ goQuote sessionID @ '' is already running for app root ''
                            @ ss_AppRoot (the existing) @ '' under owner PID '' @ itoa (sessionPID (the existing))))
              else (case blockingAppRootSession env r session of
                Some b \<Rightarrow> (r, Inl (''scenery up is already running for app root '' @ ss_AppRoot session
                            @ '' under owner PID '' @ itoa (sessionPID b)
                            @ ''; use a separate Git worktree for another live code copy''))
              | None \<Rightarrow>
                (let (r, session) = installSession env (rq_ClaimAliases req) session r
                 in case saveLocked writeOK r of
                      (r, Some e) \<Rightarrow> (r, Inl e)
                    | (r, None) \<Rightarrow> if \<not> manifestOK then (r, Inl ''write manifest failed'') else (r, Inr session)))))"

subsection \<open>Lookup\<close>

definition Get :: "Registry \<Rightarrow> string \<Rightarrow> Session option" where
  "Get r i = map_of (reg_sessions r) (trimSpace i)"

definition ListSessions :: "Registry \<Rightarrow> Session list" where
  "ListSessions r = sortedSessions (reg_sessions r)"

definition RouteTargetForHost :: "Registry \<Rightarrow> string \<Rightarrow> (Session \<times> string) option" where
  "RouteTargetForHost r host =
     (let host = normalizeRouteHost host
      in if host = [] then None
         else case map_of (reg_routeHosts r) host of
                None \<Rightarrow> None
              | Some tg \<Rightarrow> (case map_of (reg_sessions r) (tg_SessionID tg) of None \<Rightarrow> None | Some s \<Rightarrow> Some (s, tg_Route tg)))"

text \<open>The stable sort that moves the current session to the front, as a partition.\<close>

definition FindByAppRoot :: "Registry \<Rightarrow> string \<Rightarrow> Session list" where
  "FindByAppRoot r root =
     (let root = pathClean (trimSpace root);
          found = sortSessions (filter (\<lambda>s. pathClean (ss_AppRoot s) = root) (map snd (reg_sessions r)));
          currentID = lookupStr (reg_currentByAppRoot r) root
      in if currentID \<noteq> []
         then filter (\<lambda>s. ss_SessionID s = currentID) found @ filter (\<lambda>s. ss_SessionID s \<noteq> currentID) found
         else found)"

subsection \<open>Removal\<close>

definition sessionOwnerIdentityMatches :: "Session \<Rightarrow> int \<Rightarrow> Owner \<Rightarrow> bool \<Rightarrow> bool" where
  "sessionOwnerIdentityMatches s ownerPID requested strict =
     (let current = ss_Owner s in
      if sessionPID s \<noteq> ownerPID then False
      else if \<not> strict then True
      else if ow_PID requested \<noteq> ownerPID \<or> \<not> ownerHasFingerprint requested then False
      else if ow_PID current \<noteq> ownerPID \<or> \<not> ownerHasFingerprint current then False
      else if ow_StartedAt requested \<noteq> [] \<and> ow_StartedAt current \<noteq> ow_StartedAt requested then False
      else if ow_CmdlineHash requested \<noteq> [] \<and> ow_CmdlineHash current \<noteq> ow_CmdlineHash requested then False
      else if ow_Exe requested \<noteq> [] \<and> ow_Exe current \<noteq> ow_Exe requested then False
      else True)"

definition promoteCurrent :: "string \<Rightarrow> string \<Rightarrow> Registry \<Rightarrow> Registry" where
  "promoteCurrent key i r =
     (if lookupStr (reg_currentByAppRoot r) key = i
      then let current = AList.delete key (reg_currentByAppRoot r)
           in r\<lparr>reg_currentByAppRoot :=
                  (case find (\<lambda>s. pathClean (ss_AppRoot s) = key) (sortedSessions (reg_sessions r)) of
                     Some candidate \<Rightarrow> AList.update key (ss_SessionID candidate) current
                   | None \<Rightarrow> current)\<rparr>
      else r)"

definition deleteSession ::
  "bool \<Rightarrow> Registry \<Rightarrow> string \<Rightarrow> int \<Rightarrow> Owner \<Rightarrow> bool \<Rightarrow> Registry \<times> (string + Session option \<times> bool)" where
  "deleteSession writeOK r i ownerPID requestedOwner strict =
     (let i = trimSpace i
      in case map_of (reg_sessions r) i of
           None \<Rightarrow> (r, Inr (None, False))
         | Some session \<Rightarrow>
           if ownerPID < 0 \<and> sessionPID session > 0 then (r, Inr (Some session, False))
           else if ownerPID > 0 \<and> \<not> sessionOwnerIdentityMatches session ownerPID requestedOwner strict
           then (r, Inr (Some session, False))
           else let r = r\<lparr>reg_sessions := AList.delete i (reg_sessions r),
                          reg_aliases := filter (\<lambda>(h, a). al_SessionID a \<noteq> i) (reg_aliases r)\<rparr>;
                    r = promoteCurrent (pathClean (ss_AppRoot session)) i r;
                    r = rebuildRouteHostIndex r
                in case saveLocked writeOK r of
                     (r, Some e) \<Rightarrow> (r, Inl e)
                   | (r, None) \<Rightarrow> (r, Inr (Some session, True)))"

definition Delete :: "bool \<Rightarrow> Registry \<Rightarrow> string \<Rightarrow> Registry \<times> (string + Session option \<times> bool)" where
  "Delete writeOK r i = deleteSession writeOK r i 0 noOwner False"

definition DeleteOwned :: "bool \<Rightarrow> Registry \<Rightarrow> string \<Rightarrow> int \<Rightarrow> Registry \<times> (string + Session option \<times> bool)" where
  "DeleteOwned writeOK r i ownerPID = deleteSession writeOK r i ownerPID noOwner False"

definition DeleteOwnedIdentity ::
  "bool \<Rightarrow> Registry \<Rightarrow> string \<Rightarrow> int \<Rightarrow> Owner \<Rightarrow> bool \<Rightarrow> Registry \<times> (string + Session option \<times> bool)" where
  "DeleteOwnedIdentity writeOK r i ownerPID owner strict = deleteSession writeOK r i ownerPID owner strict"

subsection \<open>Loading\<close>

definition loadFile :: "registryFile \<Rightarrow> Registry \<Rightarrow> Registry" where
  "loadFile file r =
     (let r = r\<lparr>reg_sessions := foldl (\<lambda>m s. if ss_SessionID s = [] then m else AList.update (ss_SessionID s) s m)
                 (reg_sessions r) (rf_Sessions file)\<rparr>;
          r = r\<lparr>reg_substrates := foldl (\<lambda>m sb. let kind = sanitizeLabel (sb_Kind sb)
                   in if kind = [] then m else AList.update kind (sb\<lparr>sb_Kind := kind\<rparr>) m)
                 (reg_substrates r) (rf_Substrates file)\<rparr>;
          r = r\<lparr>reg_aliases := foldl (\<lambda>m a. let host = normalizeRouteHost (al_Host a); route = normalizeAliasRoute (al_Route a)
                   in if host = [] \<or> route = [] \<or> trimSpace (al_SessionID a) = [] then m
                      else AList.update host (a\<lparr>al_Host := host, al_Route := route\<rparr>) m)
                 (reg_aliases r) (rf_Aliases file)\<rparr>;
          r = r\<lparr>reg_currentByAppRoot := foldl (\<lambda>m (root, sid). let root = pathClean (trimSpace root); sid = trimSpace sid
                   in if root \<noteq> [] \<and> sid \<noteq> [] then AList.update root sid m else m)
                 (reg_currentByAppRoot r) (rf_CurrentByAppRoot file)\<rparr>
      in rebuildRouteHostIndex r)"

definition OpenRegistry :: "string \<Rightarrow> string \<Rightarrow> registryFile option \<Rightarrow> Registry" where
  "OpenRegistry routerAddr routerScheme file =
     (let scheme = (if trimSpace routerScheme \<noteq> [] then trimSpace routerScheme else ''http'');
          r = \<lparr>reg_router = routerAddr, reg_scheme = scheme, reg_sessions = [], reg_substrates = [], reg_aliases = [],
               reg_routeHosts = [], reg_currentByAppRoot = [], reg_file = file\<rparr>
      in case file of None \<Rightarrow> r | Some f \<Rightarrow> loadFile f r)"

section \<open>Maps as association lists\<close>

lemma map_of_filter_value:
  "distinct (map fst m) \<Longrightarrow> map_of (filter (\<lambda>(k, v). P k v) m) k
    = (case map_of m k of Some v \<Rightarrow> if P k v then Some v else None | None \<Rightarrow> None)"
proof (induction m)
  case (Cons x m)
  obtain a b where x: "x = (a, b)" by (cases x)
  with Cons.prems have "map_of m a = None" by (simp add: map_of_eq_None_iff)
  with Cons x show ?case by (auto split: option.split)
qed simp

lemma distinct_filter_keys: "distinct (map fst m) \<Longrightarrow> distinct (map fst (filter P m))"
  by (induction m) auto

lemma map_of_snd: "distinct (map fst m) \<Longrightarrow> v \<in> set (map snd m) \<longleftrightarrow> (\<exists>k. map_of m k = Some v)"
  by (force simp: map_of_eq_Some_iff)

section \<open>What every operation keeps\<close>

definition keyed :: "Registry \<Rightarrow> bool" where
  "keyed r =
     (distinct (map fst (reg_sessions r)) \<and> distinct (map fst (reg_aliases r))
      \<and> (\<forall>k s. map_of (reg_sessions r) k = Some s \<longrightarrow> ss_SessionID s = k \<and> k \<noteq> []))"

definition rootOf :: "Registry \<Rightarrow> string \<Rightarrow> string option" where
  "rootOf r k = map_option ss_AppRoot (map_of (reg_sessions r) k)"

text \<open>Who owns the session with an identifier, and where it lives.\<close>

definition ownership :: "Session \<Rightarrow> string \<times> int \<times> Owner" where
  "ownership s = (ss_AppRoot s, ss_OwnerPID s, ss_Owner s)"

definition ownershipOf :: "Registry \<Rightarrow> string \<Rightarrow> (string \<times> int \<times> Owner) option" where
  "ownershipOf r k = map_option ownership (map_of (reg_sessions r) k)"

definition regInv :: "Registry \<Rightarrow> bool" where
  "regInv r =
     (keyed r
      \<and> (\<forall>h a. map_of (reg_aliases r) h = Some a \<longrightarrow> rootOf r (al_SessionID a) \<noteq> None)
      \<and> (\<forall>h tg. map_of (reg_routeHosts r) h = Some tg \<longrightarrow> rootOf r (tg_SessionID tg) \<noteq> None)
      \<and> (\<forall>root i. map_of (reg_currentByAppRoot r) root = Some i \<longrightarrow> map_option pathClean (rootOf r i) = Some root))"

lemma indexSession_targets:
  "map_of (indexSession hosts s) h = Some tg \<Longrightarrow> tg_SessionID tg = ss_SessionID s \<or> map_of hosts h = Some tg"
proof -
  have "map_of (foldl (\<lambda>hosts (route, url).
       let host = normalizeRouteHost url; route = normalizeAliasRoute route
       in if host = [] \<or> route = [] then hosts
          else AList.update host \<lparr>tg_SessionID = ss_SessionID s, tg_Route = route\<rparr> hosts) hosts l) h = Some tg
    \<Longrightarrow> tg_SessionID tg = ss_SessionID s \<or> map_of hosts h = Some tg" for l
    by (induction l arbitrary: hosts) (fastforce simp: Let_def update_conv split: if_splits)+
  then show "map_of (indexSession hosts s) h = Some tg \<Longrightarrow> ?thesis" by (simp add: indexSession_def)
qed

lemma indexSessions_targets:
  "map_of (foldl indexSession hosts l) h = Some tg \<Longrightarrow> (\<exists>s \<in> set l. tg_SessionID tg = ss_SessionID s) \<or> map_of hosts h = Some tg"
proof (induction l arbitrary: hosts)
  case (Cons s l)
  from Cons.prems have "map_of (foldl indexSession (indexSession hosts s) l) h = Some tg" by simp
  from Cons.IH [OF this] indexSession_targets show ?case by fastforce
qed simp

lemma indexAlias_targets:
  "map_of (foldl (indexAlias m) hosts l) h = Some tg \<Longrightarrow> map_of m (tg_SessionID tg) \<noteq> None \<or> map_of hosts h = Some tg"
proof (induction l arbitrary: hosts)
  case (Cons ha l)
  have "map_of (indexAlias m hosts ha) h = Some tg \<Longrightarrow> map_of m (tg_SessionID tg) \<noteq> None \<or> map_of hosts h = Some tg"
    by (auto simp: indexAlias_def Let_def update_conv split: prod.splits if_splits option.splits)
  with Cons show ?case by fastforce
qed simp

text \<open>After a rebuild every indexed host leads to a registered session.\<close>

lemma rebuild_targets:
  assumes "keyed r" "map_of (reg_routeHosts (rebuildRouteHostIndex r)) h = Some tg"
  shows "rootOf r (tg_SessionID tg) \<noteq> None"
proof -
  let ?m = "reg_sessions r"
  have "map_of ?m (tg_SessionID tg) \<noteq> None \<or> map_of (foldl indexSession [] (map snd ?m)) h = Some tg"
    using assms(2) indexAlias_targets by (auto simp: rebuildRouteHostIndex_def)
  moreover have "map_of ?m (tg_SessionID tg) \<noteq> None" if direct: "map_of (foldl indexSession [] (map snd ?m)) h = Some tg"
  proof -
    obtain s where s: "s \<in> set (map snd ?m)" "tg_SessionID tg = ss_SessionID s"
      using indexSessions_targets [OF direct] by auto
    then obtain k where k: "map_of ?m k = Some s" using map_of_snd [of ?m s] assms(1) by (auto simp: keyed_def)
    then have "ss_SessionID s = k" using assms(1) by (auto simp: keyed_def)
    with k s(2) show ?thesis by simp
  qed
  ultimately show ?thesis by (auto simp: rootOf_def)
qed

lemma rebuild_simps [simp]:
  "reg_sessions (rebuildRouteHostIndex r) = reg_sessions r" "reg_aliases (rebuildRouteHostIndex r) = reg_aliases r"
  "reg_currentByAppRoot (rebuildRouteHostIndex r) = reg_currentByAppRoot r"
  "rootOf (rebuildRouteHostIndex r) = rootOf r" "keyed (rebuildRouteHostIndex r) = keyed r"
  by (simp_all add: rebuildRouteHostIndex_def rootOf_def keyed_def fun_eq_iff)

text \<open>So it is enough to look at the other three maps.\<close>

lemma regInv_rebuild:
  assumes "keyed r" "\<And>h a. map_of (reg_aliases r) h = Some a \<Longrightarrow> rootOf r (al_SessionID a) \<noteq> None"
    and "\<And>root i. map_of (reg_currentByAppRoot r) root = Some i \<Longrightarrow> map_option pathClean (rootOf r i) = Some root"
  shows "regInv (rebuildRouteHostIndex r)"
  using assms rebuild_targets [OF assms(1)] by (auto simp: regInv_def)

lemma regInv_other [simp]:
  "regInv (r\<lparr>reg_file := f\<rparr>) = regInv r" "regInv (r\<lparr>reg_substrates := sbs\<rparr>) = regInv r"
  by (simp_all add: regInv_def keyed_def rootOf_def)

lemma saveLocked_keeps [keeps]: "regInv r \<Longrightarrow> regInv (fst (saveLocked w r))"
  by (simp add: saveLocked_def)

subsection \<open>Claiming host names\<close>

text \<open>
  What one claim does: the sessions keep their identifiers and roots, a lease is either an old one or
  belongs to the claiming session.
\<close>

definition claims :: "Session \<Rightarrow> Registry \<Rightarrow> Registry \<Rightarrow> bool" where
  "claims s r r' =
     (keyed r' \<and> rootOf r' = rootOf r \<and> ownershipOf r' = ownershipOf r \<and> reg_currentByAppRoot r' = reg_currentByAppRoot r
      \<and> (\<forall>h l. map_of (reg_aliases r') h = Some l \<longrightarrow> al_SessionID l = ss_SessionID s \<or> map_of (reg_aliases r) h = Some l))"

lemma claims_refl: "keyed r \<Longrightarrow> claims s r r"
  by (simp add: claims_def)

lemma claims_trans: "claims s r r' \<Longrightarrow> claims s r' r'' \<Longrightarrow> claims s r r''"
  unfolding claims_def by metis

lemma removeAliasFromSession_claims: "keyed r \<Longrightarrow> claims s r (removeAliasFromSession a r)"
proof (cases "map_of (reg_sessions r) (al_SessionID a)")
  case (Some t)
  assume k: "keyed r"
  with Some have t: "ss_SessionID t = al_SessionID a" "al_SessionID a \<noteq> []" by (auto simp: keyed_def)
  show ?thesis
    using k Some t
    by (auto simp: removeAliasFromSession_def Let_def claims_def keyed_def rootOf_def ownershipOf_def ownership_def fun_eq_iff update_conv distinct_update
        simp del: map_of_eq_Some_iff split: if_splits)
qed (simp add: removeAliasFromSession_def claims_refl)

lemma claimHost_claims:
  assumes "keyed r" "claimHost env s force (r, a, c) hr = (r', a', c')"
  shows "claims s r r'"
proof -
  obtain host route where hr: "hr = (host, route)" by (cases hr)
  have set_lease: "claims s r1 (r1\<lparr>reg_aliases := AList.update host l (reg_aliases r1)\<rparr>)"
    if "keyed r1" "al_SessionID l = ss_SessionID s" for r1 l
    using that by (auto simp: claims_def keyed_def rootOf_def ownershipOf_def fun_eq_iff update_conv distinct_update split: if_splits)
  let ?cl = "map_of (reg_aliases r) host"
  define r1 where "r1 = (if foreignLease s ?cl then removeAliasFromSession (the ?cl) r else r)"
  have r1: "claims s r r1" using removeAliasFromSession_claims [OF assms(1)] claims_refl [OF assms(1)] by (simp add: r1_def)
  have l: "al_SessionID (leaseFor env s r1 host route ?cl) = ss_SessionID s" by (simp add: leaseFor_def Let_def)
  show ?thesis
  proof (cases "foreignLease s ?cl \<and> \<not> force \<and> \<not> aliasLeaseOwnerStale env (the ?cl)")
    case True
    with assms(2) have "r' = r" by (simp add: claimHost_def hr)
    then show ?thesis by (simp add: claims_refl assms(1))
  next
    case False
    then have "r' = r1\<lparr>reg_aliases := AList.update host (leaseFor env s r1 host route ?cl) (reg_aliases r1)\<rparr>"
      using assms(2) by (auto simp: claimHost_def hr Let_def r1_def)
    with set_lease [OF _ l] r1 show ?thesis by (metis claims_def claims_trans)
  qed
qed

lemma claimHosts_claims:
  "keyed (fst st) \<Longrightarrow> claims s (fst st) (fst (foldl (claimHost env s force) st l))"
proof (induction l arbitrary: st)
  case (Cons hr l)
  obtain r a c where st: "st = (r, a, c)" by (cases st)
  obtain r' a' c' where n: "claimHost env s force st hr = (r', a', c')" by (cases "claimHost env s force st hr")
  have 1: "claims s r r'" using claimHost_claims Cons.prems n st by auto
  then have "keyed r'" by (simp add: claims_def)
  with Cons.IH [of "(r', a', c')"] have "claims s r' (fst (foldl (claimHost env s force) (r', a', c') l))" by simp
  with 1 st n show ?case using claims_trans by fastforce
qed (simp add: claims_refl)

lemma dropped_claims:
  "keyed r \<Longrightarrow> claims s r (r\<lparr>reg_aliases := filter (\<lambda>(h, a). P h a) (reg_aliases r)\<rparr>)"
  by (auto simp: claims_def keyed_def rootOf_def ownershipOf_def fun_eq_iff distinct_filter_keys map_of_filter_value
      simp del: map_of_eq_Some_iff split: option.splits if_splits)

lemma claimAliases_claims:
  assumes "keyed r" "claimAliases env s force r = (r', a, c)"
  shows "claims s r r'"
proof (cases "rn_Hosts (ss_RouteNamespace s) = []")
  case True
  with assms show ?thesis
    by (auto simp: claimAliases_def removeSessionAliases_def Let_def claims_refl dropped_claims split: if_splits)
next
  case False
  let ?r = "r\<lparr>reg_aliases := filter (\<lambda>(h, a). \<not> (al_SessionID a = ss_SessionID s \<and> lookupStr (desiredAliases s) h = [])) (reg_aliases r)\<rparr>"
  have 1: "claims s r ?r" by (rule dropped_claims) (rule assms(1))
  then have "keyed ?r" by (simp add: claims_def)
  then have "claims s ?r (fst (foldl (claimHost env s force) (?r, [], []) (desiredAliases s)))"
    using claimHosts_claims [of "(?r, [], [])" s env force] by simp
  moreover obtain r2 a2 c2 where f: "foldl (claimHost env s force) (?r, [], []) (desiredAliases s) = (r2, a2, c2)"
    by (cases "foldl (claimHost env s force) (?r, [], []) (desiredAliases s)")
  ultimately have 2: "claims s ?r r2" by simp
  have "r' = r2"
    using assms(2) unfolding claimAliases_def Let_def f if_not_P [OF False] by simp
  with claims_trans [OF 1 2] show ?thesis by simp
qed

subsection \<open>Registering and removing\<close>

text \<open>A request whose application root is already absolute, clean and trimmed.\<close>

definition canonicalRequest :: "agentEnv \<Rightarrow> RegisterRequest \<Rightarrow> bool" where
  "canonicalRequest env req = (pathAbs (env_cwd env) (trimSpace (rq_AppRoot req)) = Some (rq_AppRoot req))"

lemma buildSession_simps [simp]:
  "ss_SessionID (buildSession env req addr scheme ex root sid branch) = sid"
  "ss_AppRoot (buildSession env req addr scheme ex root sid branch) = root"
  by (simp_all add: buildSession_def Let_def)

lemma NewSession_fields:
  assumes "NewSession env req addr scheme existing = Inr s"
  shows "\<exists>root sid branch. pathAbs (env_cwd env) (trimSpace (rq_AppRoot req)) = Some root
      \<and> NormalizeSessionID (rq_SessionID req) = Inr sid \<and> branch = sessionBranch env req existing sid root
      \<and> (\<forall>e. existing = Some e \<longrightarrow> pathClean (ss_AppRoot e) = root)
      \<and> s = buildSession env req addr scheme existing root (if sid \<noteq> [] then sid else SessionID env root branch) branch"
proof (cases "pathAbs (env_cwd env) (trimSpace (rq_AppRoot req))")
  case (Some root)
  show ?thesis
  proof (cases "NormalizeSessionID (rq_SessionID req)")
    case (Inr sid)
    with Some assms show ?thesis
      by (auto simp: NewSession_def Let_def split: if_splits option.splits)
  qed (use Some assms in \<open>auto simp: NewSession_def split: if_splits\<close>)
qed (use assms in \<open>simp add: NewSession_def\<close>)

lemma NewSession_id:
  assumes "NewSession env req addr scheme existing = Inr s" "upsertSessionID env req = Inr sid" "canonicalRequest env req"
  shows "ss_SessionID s = sid" "sid \<noteq> []" "ss_AppRoot s = rq_AppRoot req"
proof -
  obtain root n where n: "pathAbs (env_cwd env) (trimSpace (rq_AppRoot req)) = Some root"
      "NormalizeSessionID (rq_SessionID req) = Inr n"
      "s = buildSession env req addr scheme existing root
             (if n \<noteq> [] then n else SessionID env root (sessionBranch env req existing n root)) (sessionBranch env req existing n root)"
    using NewSession_fields [OF assms(1)] by blast
  have root: "root = rq_AppRoot req" using n(1) assms(3) by (simp add: canonicalRequest_def)
  then show "ss_AppRoot s = rq_AppRoot req" by (simp add: n(3))
  have "sessionBranch env req existing [] root
      = (if trimSpace (rq_Branch req) = [] then discoverGitBranch env root else trimSpace (rq_Branch req))"
    by (cases existing) (simp_all add: sessionBranch_def Let_def)
  then show sid: "ss_SessionID s = sid"
    using n root assms(2) by (cases "n = []") (auto simp: upsertSessionID_def Let_def)
  show "sid \<noteq> []" unfolding sid [symmetric] n(3) by (simp add: SessionID_def Let_def)
qed

lemma installSession_inv:
  assumes "regInv r" "ss_SessionID s \<noteq> []" "installSession env force s r = (r', s')"
    and "\<And>root. rootOf r (ss_SessionID s) = Some root \<Longrightarrow> pathClean root = pathClean (ss_AppRoot s)"
  shows "regInv r'"
proof -
  obtain r1 a c where cl: "claimAliases env s force r = (r1, a, c)" by (cases "claimAliases env s force r")
  have k: "keyed r" using assms(1) by (simp add: regInv_def)
  note c1 = claimAliases_claims [OF k cl, unfolded claims_def]
  define s2 where "s2 = s\<lparr>ss_Aliases := a, ss_AliasConflicts := c\<rparr>"
  define r2 where "r2 = r1\<lparr>reg_sessions := AList.update (ss_SessionID s2) s2 (reg_sessions r1),
      reg_currentByAppRoot := AList.update (pathClean (ss_AppRoot s2)) (ss_SessionID s2) (reg_currentByAppRoot r1)\<rparr>"
  have s2: "ss_SessionID s2 = ss_SessionID s" "ss_AppRoot s2 = ss_AppRoot s" by (simp_all add: s2_def)
  have r': "r' = rebuildRouteHostIndex r2"
  proof -
    have "installSession env force s r = (rebuildRouteHostIndex r2, s2)"
      unfolding installSession_def Let_def cl r2_def s2_def by simp
    with assms(3) show ?thesis by simp
  qed
  have root2: "rootOf r2 i = (if i = ss_SessionID s then Some (ss_AppRoot s) else rootOf r i)" for i
  proof -
    have "rootOf r2 i = (if i = ss_SessionID s then Some (ss_AppRoot s) else rootOf r1 i)"
      using s2 by (simp add: rootOf_def r2_def update_conv)
    with c1 show ?thesis by simp
  qed
  have k1: "keyed r1" using c1 by blast
  have "keyed r2"
    unfolding keyed_def
  proof (intro conjI allI impI)
    show "distinct (map fst (reg_sessions r2))" "distinct (map fst (reg_aliases r2))"
      using k1 by (simp_all add: keyed_def r2_def distinct_update)
    fix i t assume "map_of (reg_sessions r2) i = Some t"
    then have "i = ss_SessionID s \<and> t = s2 \<or> map_of (reg_sessions r1) i = Some t"
      using s2 by (simp add: r2_def update_conv split: if_splits)
    moreover have "map_of (reg_sessions r1) i = Some t \<Longrightarrow> ss_SessionID t = i \<and> i \<noteq> []"
      using k1 unfolding keyed_def by blast
    ultimately have "ss_SessionID t = i \<and> i \<noteq> []" using s2(1) assms(2) by metis
    then show "ss_SessionID t = i" "i \<noteq> []" by simp_all
  qed
  moreover have "rootOf r2 (al_SessionID l) \<noteq> None" if l: "map_of (reg_aliases r2) h = Some l" for h l
  proof -
    have "al_SessionID l = ss_SessionID s \<or> map_of (reg_aliases r) h = Some l" using l c1 by (simp add: r2_def)
    then show ?thesis using assms(1) by (auto simp: root2 regInv_def)
  qed
  moreover have "map_option pathClean (rootOf r2 i) = Some root" if cur: "map_of (reg_currentByAppRoot r2) root = Some i" for root i
  proof (cases "root = pathClean (ss_AppRoot s)")
    case True
    with cur s2 have "i = ss_SessionID s" by (simp add: r2_def update_conv)
    with True show ?thesis by (simp add: root2)
  next
    case False
    with cur s2 c1 have "map_of (reg_currentByAppRoot r) root = Some i" by (simp add: r2_def update_conv)
    then have i: "map_option pathClean (rootOf r i) = Some root" using assms(1) by (simp add: regInv_def)
    with False assms(4) show ?thesis by (auto simp: root2)
  qed
  ultimately show ?thesis unfolding r' by (rule regInv_rebuild)
qed

text \<open>The two ways \<open>Upsert\<close> can go: refused with the registry untouched, or installed.\<close>

lemma Upsert_cases:
  obtains (refused) e where "Upsert env w m r req = (r, Inl e)"
  | (installed) sid s r1 s1 where "upsertSessionID env req = Inr sid"
      "NewSession env req (reg_router r) (reg_scheme r) (map_of (reg_sessions r) sid) = Inr s"
      "\<And>e. map_of (reg_sessions r) sid = Some e \<Longrightarrow> requestMayClaimSession env req e s"
      "blockingAppRootSession env r s = None"
      "installSession env (rq_ClaimAliases req) s r = (r1, s1)"
      "fst (Upsert env w m r req) = fst (saveLocked w r1)"
      "w \<and> m \<Longrightarrow> snd (Upsert env w m r req) = Inr s1"
      "\<And>s'. snd (Upsert env w m r req) = Inr s' \<Longrightarrow> s' = s1"
proof (cases "upsertSessionID env req")
  case (Inl e)
  then show ?thesis by (intro refused) (simp add: Upsert_def)
next
  case sid: (Inr sid)
  let ?ex = "map_of (reg_sessions r) sid"
  show ?thesis
  proof (cases "NewSession env req (reg_router r) (reg_scheme r) ?ex")
    case (Inl e)
    then show ?thesis using sid by (intro refused) (simp add: Upsert_def Let_def)
  next
    case s: (Inr s)
    show ?thesis
    proof (cases "case ?ex of Some e \<Rightarrow> \<not> requestMayClaimSession env req e s | None \<Rightarrow> False")
      case True
      then show ?thesis using sid s by (intro refused) (simp add: Upsert_def Let_def)
    next
      case may: False
      show ?thesis
      proof (cases "blockingAppRootSession env r s")
        case (Some b)
        then show ?thesis using sid s may by (intro refused) (simp add: Upsert_def Let_def)
      next
        case None
        obtain r1 s1 where i: "installSession env (rq_ClaimAliases req) s r = (r1, s1)"
          by (cases "installSession env (rq_ClaimAliases req) s r")
        have u: "Upsert env w m r req = (case saveLocked w r1 of
            (r, Some e) \<Rightarrow> (r, Inl e) | (r, None) \<Rightarrow> if \<not> m then (r, Inl ''write manifest failed'') else (r, Inr s1))"
          using sid s may None i by (simp add: Upsert_def Let_def)
        have "fst (Upsert env w m r req) = fst (saveLocked w r1)" "w \<and> m \<Longrightarrow> snd (Upsert env w m r req) = Inr s1"
          "\<And>s'. snd (Upsert env w m r req) = Inr s' \<Longrightarrow> s' = s1"
          unfolding u by (cases w; cases m; simp add: saveLocked_def)+
        moreover have "map_of (reg_sessions r) sid = Some e \<Longrightarrow> requestMayClaimSession env req e s" for e
          using may by simp
        ultimately show ?thesis by (rule_tac installed [OF sid s _ None i])
      qed
    qed
  qed
qed

lemma Upsert_keeps [keeps]:
  assumes "regInv r" "canonicalRequest env req"
  shows "regInv (fst (Upsert env w m r req))"
proof (cases rule: Upsert_cases [of env w m r req])
  case (installed sid s r1 s1)
  note sid = NewSession_id [OF installed(2,1) assms(2)]
  have "pathClean root = pathClean (ss_AppRoot s)" if root: "rootOf r (ss_SessionID s) = Some root" for root
  proof -
    obtain e where e: "map_of (reg_sessions r) sid = Some e" "ss_AppRoot e = root"
      using root sid by (auto simp: rootOf_def simp del: map_of_eq_Some_iff)
    obtain n sd br where "\<forall>e. map_of (reg_sessions r) sid = Some e \<longrightarrow> pathClean (ss_AppRoot e) = n"
        "s = buildSession env req (reg_router r) (reg_scheme r) (map_of (reg_sessions r) sid) n sd br"
      using NewSession_fields [OF installed(2)] by blast
    then have "pathClean root = ss_AppRoot s" using e by simp
    then show ?thesis by (metis pathClean_idem)
  qed
  then have "regInv r1"
    using installSession_inv [OF assms(1) _ installed(5)] sid by simp
  then show ?thesis using installed(6) by (simp add: saveLocked_keeps)
qed (use assms in simp)

lemma set_sortBy: "set (sortBy lt xs) = set xs"
proof -
  have "set (insertBy lt x ys) = insert x (set ys)" for x ys by (induction ys) auto
  then show ?thesis by (induction xs) (auto simp: sortBy_def)
qed

lemma deleted_inv:
  assumes "regInv r" "map_of (reg_sessions r) i = Some s"
  shows "regInv (rebuildRouteHostIndex (promoteCurrent (pathClean (ss_AppRoot s)) i
           (r\<lparr>reg_sessions := AList.delete i (reg_sessions r),
              reg_aliases := filter (\<lambda>(h, a). al_SessionID a \<noteq> i) (reg_aliases r)\<rparr>)))"
proof -
  let ?key = "pathClean (ss_AppRoot s)"
  let ?r1 = "r\<lparr>reg_sessions := AList.delete i (reg_sessions r),
              reg_aliases := filter (\<lambda>(h, a). al_SessionID a \<noteq> i) (reg_aliases r)\<rparr>"
  let ?r2 = "promoteCurrent ?key i ?r1"
  have k: "distinct (map fst (reg_sessions r))" "distinct (map fst (reg_aliases r))"
      "\<And>k t. map_of (reg_sessions r) k = Some t \<Longrightarrow> ss_SessionID t = k \<and> k \<noteq> []"
    using assms(1) unfolding regInv_def keyed_def by blast+
  have sess: "reg_sessions ?r2 = AList.delete i (reg_sessions r)" "reg_aliases ?r2 = reg_aliases ?r1"
    by (simp_all add: promoteCurrent_def Let_def)
  have root2: "rootOf ?r2 j = (if j = i then None else rootOf r j)" for j
    unfolding rootOf_def sess by (simp add: delete_conv)
  have "keyed ?r2"
    unfolding keyed_def sess
  proof (intro conjI allI impI)
    show "distinct (map fst (AList.delete i (reg_sessions r)))" by (rule distinct_delete) (rule k(1))
    show "distinct (map fst (reg_aliases ?r1))" using k(2) by (simp add: distinct_filter_keys)
    fix j t assume "map_of (AList.delete i (reg_sessions r)) j = Some t"
    then have "map_of (reg_sessions r) j = Some t" by (simp add: delete_conv split: if_splits)
    with k(3) show "ss_SessionID t = j" "j \<noteq> []" by blast+
  qed
  moreover have "rootOf ?r2 (al_SessionID a) \<noteq> None" if a: "map_of (reg_aliases ?r2) h = Some a" for h a
  proof -
    have "map_of (reg_aliases r) h = Some a \<and> al_SessionID a \<noteq> i"
      using a k(2) unfolding sess by (simp add: map_of_filter_value del: map_of_eq_Some_iff split: option.splits if_splits)
    then show ?thesis using assms(1) unfolding root2 regInv_def by auto
  qed
  moreover have "map_option pathClean (rootOf ?r2 j) = Some root"
    if cur: "map_of (reg_currentByAppRoot ?r2) root = Some j" for root j
  proof (cases "lookupStr (reg_currentByAppRoot r) ?key = i \<and> root = ?key")
    case True
    then obtain t where t: "find (\<lambda>t. pathClean (ss_AppRoot t) = ?key) (sortedSessions (AList.delete i (reg_sessions r))) = Some t" "j = ss_SessionID t"
      using cur by (auto simp: promoteCurrent_def Let_def update_conv delete_conv split: option.splits)
    then have "t \<in> set (map snd (AList.delete i (reg_sessions r)))" "pathClean (ss_AppRoot t) = ?key"
      using find_In [OF t(1)] by (simp_all add: sortedSessions_def sortSessions_def set_sortBy)
    then obtain kk where "map_of (AList.delete i (reg_sessions r)) kk = Some t"
      using map_of_snd [OF distinct_delete [OF k(1)]] by blast
    then have "kk \<noteq> i" "map_of (reg_sessions r) kk = Some t" by (auto simp: delete_conv simp del: map_of_eq_Some_iff split: if_splits)
    moreover from this have "ss_SessionID t = kk" using k(3) by blast
    ultimately have "rootOf ?r2 j = Some (ss_AppRoot t)" using t(2) unfolding root2 by (simp add: rootOf_def)
    with \<open>pathClean (ss_AppRoot t) = ?key\<close> True show ?thesis by simp
  next
    case False
    then have c: "map_of (reg_currentByAppRoot r) root = Some j"
      using cur by (auto simp: promoteCurrent_def Let_def update_conv delete_conv split: option.splits if_splits)
    then have j: "map_option pathClean (rootOf r j) = Some root" using assms(1) unfolding regInv_def by blast
    have "j \<noteq> i"
    proof
      assume "j = i"
      with j assms(2) have "root = ?key" by (simp add: rootOf_def)
      with c \<open>j = i\<close> False show False by (simp add: lookupStr_def)
    qed
    with j show ?thesis unfolding root2 by simp
  qed
  ultimately show ?thesis by (rule regInv_rebuild)
qed

lemma deleteSession_cases:
  obtains (kept) res where "deleteSession w r i pid ow strict = (r, Inr res)" "snd res = False"
  | (removed) s r2 where "map_of (reg_sessions r) (trimSpace i) = Some s" "\<not> (pid < 0 \<and> sessionPID s > 0)"
      "pid > 0 \<Longrightarrow> sessionOwnerIdentityMatches s pid ow strict"
      "r2 = rebuildRouteHostIndex (promoteCurrent (pathClean (ss_AppRoot s)) (trimSpace i)
             (r\<lparr>reg_sessions := AList.delete (trimSpace i) (reg_sessions r),
                reg_aliases := filter (\<lambda>(h, a). al_SessionID a \<noteq> trimSpace i) (reg_aliases r)\<rparr>))"
      "fst (deleteSession w r i pid ow strict) = fst (saveLocked w r2)"
      "w \<Longrightarrow> snd (deleteSession w r i pid ow strict) = Inr (Some s, True)"
proof (cases "map_of (reg_sessions r) (trimSpace i)")
  case None
  then show ?thesis by (intro kept [of "(None, False)"]) (simp_all add: deleteSession_def)
next
  case (Some s)
  show ?thesis
  proof (cases "pid < 0 \<and> sessionPID s > 0 \<or> pid > 0 \<and> \<not> sessionOwnerIdentityMatches s pid ow strict")
    case True
    with Some show ?thesis by (intro kept [of "(Some s, False)"]) (auto simp: deleteSession_def Let_def)
  next
    case False
    define r2 where "r2 = rebuildRouteHostIndex (promoteCurrent (pathClean (ss_AppRoot s)) (trimSpace i)
             (r\<lparr>reg_sessions := AList.delete (trimSpace i) (reg_sessions r),
                reg_aliases := filter (\<lambda>(h, a). al_SessionID a \<noteq> trimSpace i) (reg_aliases r)\<rparr>))"
    have g: "\<not> (pid < 0 \<and> sessionPID s > 0)" "\<not> (pid > 0 \<and> \<not> sessionOwnerIdentityMatches s pid ow strict)"
      using False by blast+
    have d: "deleteSession w r i pid ow strict
        = (case saveLocked w r2 of (r, Some e) \<Rightarrow> (r, Inl e) | (r, None) \<Rightarrow> (r, Inr (Some s, True)))"
      unfolding deleteSession_def Let_def Some option.case if_not_P [OF g(1)] if_not_P [OF g(2)] r2_def ..
    have "fst (deleteSession w r i pid ow strict) = fst (saveLocked w r2)"
      "w \<Longrightarrow> snd (deleteSession w r i pid ow strict) = Inr (Some s, True)"
      unfolding d by (cases w; simp add: saveLocked_def)+
    with g(2) show ?thesis by (intro removed [OF Some g(1) _ r2_def]) auto
  qed
qed

lemma deleteSession_removed:
  assumes "deleteSession w r i pid ow strict = (r', Inr (Some s, True))"
  shows "map_of (reg_sessions r) (trimSpace i) = Some s" "reg_sessions r' = AList.delete (trimSpace i) (reg_sessions r)"
    "map_of (reg_sessions r') (trimSpace i) = None"
    "reg_aliases r' = filter (\<lambda>(h, a). al_SessionID a \<noteq> trimSpace i) (reg_aliases r)"
    "\<not> (pid < 0 \<and> sessionPID s > 0)" "pid > 0 \<Longrightarrow> sessionOwnerIdentityMatches s pid ow strict"
proof -
  have "map_of (reg_sessions r) (trimSpace i) = Some s \<and> reg_sessions r' = AList.delete (trimSpace i) (reg_sessions r)
      \<and> reg_aliases r' = filter (\<lambda>(h, a). al_SessionID a \<noteq> trimSpace i) (reg_aliases r)
      \<and> \<not> (pid < 0 \<and> sessionPID s > 0) \<and> (pid > 0 \<longrightarrow> sessionOwnerIdentityMatches s pid ow strict)"
  proof (cases rule: deleteSession_cases [of w r i pid ow strict])
    case (removed t r2)
    have t: "t = s" using assms removed(1) by (auto simp: deleteSession_def Let_def split: if_splits prod.splits option.splits)
    have r': "r' = fst (saveLocked w r2)" using removed(5) assms by simp
    have "reg_sessions r' = AList.delete (trimSpace i) (reg_sessions r)"
        "reg_aliases r' = filter (\<lambda>(h, a). al_SessionID a \<noteq> trimSpace i) (reg_aliases r)"
      unfolding r' removed(4) by (simp_all add: saveLocked_def promoteCurrent_def Let_def)
    with t removed(1,2,3) show ?thesis by simp
  qed (use assms in auto)
  then show "map_of (reg_sessions r) (trimSpace i) = Some s" "reg_sessions r' = AList.delete (trimSpace i) (reg_sessions r)"
    "map_of (reg_sessions r') (trimSpace i) = None"
    "reg_aliases r' = filter (\<lambda>(h, a). al_SessionID a \<noteq> trimSpace i) (reg_aliases r)"
    "\<not> (pid < 0 \<and> sessionPID s > 0)" "pid > 0 \<Longrightarrow> sessionOwnerIdentityMatches s pid ow strict"
    by (simp_all add: delete_conv)
qed

lemma deleteSession_keeps [keeps]: "regInv r \<Longrightarrow> regInv (fst (deleteSession w r i pid ow strict))"
  by (cases rule: deleteSession_cases [of w r i pid ow strict]) (simp_all add: saveLocked_keeps deleted_inv)

lemma UpsertSubstrate_keeps [keeps]: "regInv r \<Longrightarrow> regInv (fst (UpsertSubstrate env w r req))"
  by (simp add: UpsertSubstrate_def Let_def saveLocked_def)

lemma DeleteSubstrate_keeps [keeps]: "regInv r \<Longrightarrow> regInv (fst (DeleteSubstrate w r kind))"
  by (simp add: DeleteSubstrate_def Let_def saveLocked_def split: option.split)

subsection \<open>The agent as a state machine\<close>

text \<open>
  The life of a registry: it starts without a file, and then requests arrive in any order.  Go maps have no
  order, so between requests the entries may be arranged anew.
\<close>

definition freshRegistry :: "Registry \<Rightarrow> bool" where
  "freshRegistry r = (\<exists>addr scheme. r = OpenRegistry addr scheme None)"

inductive regStep :: "Registry \<Rightarrow> Registry \<Rightarrow> bool" where
  upsert: "canonicalRequest env req \<Longrightarrow> regStep r (fst (Upsert env w m r req))"
| delete: "regStep r (fst (deleteSession w r i pid ow strict))"
| upsertSubstrate: "regStep r (fst (UpsertSubstrate env w r sreq))"
| deleteSubstrate: "regStep r (fst (DeleteSubstrate w r kind))"
| rearrange: "mset ss = mset (reg_sessions r) \<Longrightarrow> mset as = mset (reg_aliases r) \<Longrightarrow>
    regStep r (r\<lparr>reg_sessions := ss, reg_aliases := as\<rparr>)"

lemma map_of_mset_eq:
  assumes "mset xs = mset ys" "distinct (map fst ys)"
  shows "map_of xs = map_of ys" "distinct (map fst xs)"
proof -
  have "mset (map fst xs) = mset (map fst ys)" using assms(1) by simp
  then show d: "distinct (map fst xs)" using assms(2) by (metis mset_eq_imp_distinct_iff)
  have "set xs = set ys" using assms(1) by (rule mset_eq_setD)
  then show "map_of xs = map_of ys" using map_of_inject_set [OF d assms(2)] by simp
qed

lemma rearrange_keeps:
  assumes "mset ss = mset (reg_sessions r)" "mset as = mset (reg_aliases r)" "regInv r"
  shows "regInv (r\<lparr>reg_sessions := ss, reg_aliases := as\<rparr>)"
proof -
  have d: "distinct (map fst (reg_sessions r))" "distinct (map fst (reg_aliases r))"
    using assms(3) by (simp_all add: regInv_def keyed_def)
  note m = map_of_mset_eq [OF assms(1) d(1)] map_of_mset_eq [OF assms(2) d(2)]
  show ?thesis
    using assms(3) d m unfolding regInv_def keyed_def rootOf_def by simp
qed

interpretation registry: safe_machine freshRegistry regStep regInv
proof
  fix r assume "freshRegistry r"
  then show "regInv r"
    by (auto simp: freshRegistry_def OpenRegistry_def Let_def regInv_def keyed_def)
next
  fix r r' assume "regInv r" "regStep r r'"
  then show "regInv r'"
    by (induction rule: regStep.cases[OF \<open>regStep r r'\<close>]) (auto intro: keeps rearrange_keeps)
qed

end
