(* ===== verification/RegistryProps.thy ===== *)
theory RegistryProps
  imports AgentRegistry
begin

text \<open>
  What the session registry promises: its maps agree in every reachable state, a live session keeps its
  identifier and its application root, a live lease keeps its host name, and removal leaves nothing behind.
\<close>

section \<open>Properties\<close>


definition upRequest :: "string \<Rightarrow> int \<Rightarrow> RegisterRequest" where
  "upRequest root pid =
     \<lparr>rq_BaseAppID = ''shop'', rq_AppRoot = root, rq_SessionID = [], rq_Branch = [], rq_Status = [], rq_OwnerPID = pid,
      rq_Owner = noOwner, rq_AppPID = [], rq_Processes = [],
      rq_Backends = [(''api'', \<lparr>bk_Network = [], bk_Addr = ''127.0.0.1:4000''\<rparr>)],
      rq_RouteNamespace = \<lparr>rn_Workspace = [], rn_BaseDomain = [], rn_Hosts = [(''api'', ''shop.test'')]\<rparr>,
      rq_ReportToken = [], rq_ClaimOwner = False, rq_ClaimAliases = False\<rparr>"

definition upRegistry :: Registry where
  "upRegistry = fst (Upsert plainEnv True True (OpenRegistry ''127.0.0.1:80'' [] None) (upRequest ''/srv/app'' 42))"

lemma upRegistry_reached:
  "freshRegistry (OpenRegistry ''127.0.0.1:80'' [] None)" "regStep\<^sup>*\<^sup>* (OpenRegistry ''127.0.0.1:80'' [] None) upRegistry"
proof -
  show "freshRegistry (OpenRegistry ''127.0.0.1:80'' [] None)" by (auto simp: freshRegistry_def)
  have "canonicalRequest plainEnv (upRequest ''/srv/app'' 42)" by code_simp
  then show "regStep\<^sup>*\<^sup>* (OpenRegistry ''127.0.0.1:80'' [] None) upRegistry"
    unfolding upRegistry_def by (intro r_into_rtranclp upsert)
qed


text \<open>
  A running session is not taken over.  When a registration with a clean absolute application root succeeds for an
  identifier that is already registered, and the process that owns it is alive (its
  owner verifies or the process can still be inspected), then the request came from that process or named no process.
\<close>

lemma live_session_not_taken:
  assumes "canonicalRequest env req" "Upsert env w m r req = (r', Inr s)"
    and "map_of (reg_sessions r) (ss_SessionID s) = Some old" "sessionBlocksAppRootRegistration env old"
    and "0 < firstPositive [rq_OwnerPID req, ow_PID (rq_Owner req)]"
  shows "firstPositive [rq_OwnerPID req, ow_PID (rq_Owner req)] = sessionPID old"
proof (cases rule: Upsert_cases [of env w m r req])
  case (installed sid s0 r1 s1)
  have "s = s1" using installed(8) assms(2) by simp
  moreover have "ss_SessionID s1 = ss_SessionID s0"
    using installed(5) by (auto simp: installSession_def Let_def split: prod.splits)
  ultimately have "ss_SessionID s = sid" using NewSession_id(1) [OF installed(2,1) assms(1)] by simp
  then have may: "requestMayClaimSession env req old s0" using installed(3) assms(3) by simp
  let ?p = "firstPositive [rq_OwnerPID req, ow_PID (rq_Owner req)]"
  have rp: "firstPositive [rq_OwnerPID req, ow_PID (rq_Owner req), ss_OwnerPID s0, ow_PID (ss_Owner s0)] = ?p"
    using assms(5) by (auto split: if_splits)
  show ?thesis
  proof (rule ccontr)
    assume ne: "?p \<noteq> sessionPID old"
    have pos: "0 < sessionPID old"
      using assms(4) by (simp add: sessionBlocksAppRootRegistration_def Let_def split: if_splits)
    have e: "ow_PID (ss_Owner old) \<noteq> sessionPID old \<Longrightarrow> ss_OwnerPID old = sessionPID old"
      using pos by (auto simp: sessionPID_def split: if_splits)
    from may assms(4) ne pos e show False
      unfolding requestMayClaimSession_def sessionBlocksAppRootRegistration_def Let_def rp using assms(5)
      by (auto split: if_splits simp: noOwner_def)
  qed
qed (use assms(2) in simp)

lemma live_session_not_taken_witness:
  "firstPositive [42, ow_PID noOwner] = sessionPID (the (map_of (reg_sessions upRegistry) ''main-aaaaaa''))
   \<and> sessionBlocksAppRootRegistration plainEnv (the (map_of (reg_sessions upRegistry) ''main-aaaaaa''))"
proof -
  obtain r' s where u: "Upsert plainEnv True True upRegistry (upRequest ''/srv/app'' 42) = (r', Inr s)" "ss_SessionID s = ''main-aaaaaa''"
  proof (rule that)
    show "Upsert plainEnv True True upRegistry (upRequest ''/srv/app'' 42)
      = (fst (Upsert plainEnv True True upRegistry (upRequest ''/srv/app'' 42)),
         Inr (projr (snd (Upsert plainEnv True True upRegistry (upRequest ''/srv/app'' 42)))))" by code_simp
    show "ss_SessionID (projr (snd (Upsert plainEnv True True upRegistry (upRequest ''/srv/app'' 42)))) = ''main-aaaaaa''"
      by code_simp
  qed
  have c: "canonicalRequest plainEnv (upRequest ''/srv/app'' 42)" by code_simp
  have o: "map_of (reg_sessions upRegistry) ''main-aaaaaa'' = Some (the (map_of (reg_sessions upRegistry) ''main-aaaaaa''))"
    by code_simp
  have b: "sessionBlocksAppRootRegistration plainEnv (the (map_of (reg_sessions upRegistry) ''main-aaaaaa''))" by code_simp
  have p: "0 < firstPositive [rq_OwnerPID (upRequest ''/srv/app'' 42), ow_PID (rq_Owner (upRequest ''/srv/app'' 42))]" by code_simp
  have "map_of (reg_sessions upRegistry) (ss_SessionID s) = Some (the (map_of (reg_sessions upRegistry) ''main-aaaaaa''))"
    using o u(2) by simp
  from live_session_not_taken [OF c u(1) this b p] b show ?thesis by (simp add: upRequest_def)
qed

subsection \<open>One live session per application root\<close>

lemma blocks_ownership:
  "ownership a = ownership b \<Longrightarrow> sessionBlocksAppRootRegistration env a = sessionBlocksAppRootRegistration env b"
  by (simp add: ownership_def sessionBlocksAppRootRegistration_def sessionPID_def)

lemma installSession_parts:
  assumes "keyed r" "installSession env force s r = (r', s')"
  shows "ss_SessionID s' = ss_SessionID s" "ownership s' = ownership s"
    "\<And>k. k \<noteq> ss_SessionID s \<Longrightarrow> ownershipOf r' k = ownershipOf r k"
    "map_of (reg_sessions r') (ss_SessionID s) = Some s'"
    "\<exists>r1 a c. claimAliases env s force r = (r1, a, c) \<and> reg_aliases r' = reg_aliases r1"
proof -
  obtain r1 a c where cl: "claimAliases env s force r = (r1, a, c)" by (cases "claimAliases env s force r")
  have o: "ownershipOf r1 = ownershipOf r" using claimAliases_claims [OF assms(1) cl] by (simp add: claims_def)
  have i: "s' = s\<lparr>ss_Aliases := a, ss_AliasConflicts := c\<rparr>"
      "reg_sessions r' = AList.update (ss_SessionID s) s' (reg_sessions r1)" "reg_aliases r' = reg_aliases r1"
    using assms(2) unfolding installSession_def Let_def cl by auto
  show "ss_SessionID s' = ss_SessionID s" "ownership s' = ownership s" by (simp_all add: i(1) ownership_def)
  show "map_of (reg_sessions r') (ss_SessionID s) = Some s'" by (simp add: i(2) update_conv)
  show "\<exists>r1 a c. claimAliases env s force r = (r1, a, c) \<and> reg_aliases r' = reg_aliases r1" using cl i(3) by blast
  fix k assume "k \<noteq> ss_SessionID s"
  then have "ownershipOf r' k = ownershipOf r1 k" by (simp add: ownershipOf_def i(2) update_conv)
  with o show "ownershipOf r' k = ownershipOf r k" by simp
qed

lemma saveLocked_fields [simp]:
  "reg_sessions (fst (saveLocked w r)) = reg_sessions r" "reg_aliases (fst (saveLocked w r)) = reg_aliases r"
  "reg_routeHosts (fst (saveLocked w r)) = reg_routeHosts r"
  "reg_currentByAppRoot (fst (saveLocked w r)) = reg_currentByAppRoot r"
  by (simp_all add: saveLocked_def)

text \<open>
  After a successful registration no other session of the same application root, under any identifier, has
  a live owner: two code copies of one root never run side by side.
\<close>

lemma app_root_exclusive:
  assumes "keyed r" "Upsert env w m r req = (r', Inr s)"
    and "map_of (reg_sessions r') k = Some t" "k \<noteq> ss_SessionID s" "pathClean (ss_AppRoot t) = pathClean (ss_AppRoot s)"
  shows "\<not> sessionBlocksAppRootRegistration env t"
proof (cases rule: Upsert_cases [of env w m r req])
  case (installed sid s0 r1 s1)
  note parts = installSession_parts [OF assms(1) installed(5)]
  have s: "s = s1" using installed(8) assms(2) by simp
  have "reg_sessions r' = reg_sessions r1" using installed(6) assms(2) by simp
  then have "ownershipOf r1 k = Some (ownership t)" using assms(3) by (simp add: ownershipOf_def)
  with parts(1,3) s assms(4) have "ownershipOf r k = Some (ownership t)" by simp
  then obtain t0 where t0: "map_of (reg_sessions r) k = Some t0" "ownership t0 = ownership t"
    unfolding ownershipOf_def by blast
  have k: "ss_SessionID t0 = k" using assms(1) t0(1) unfolding keyed_def by blast
  have root: "ss_AppRoot t0 = ss_AppRoot t" "ss_AppRoot s = ss_AppRoot s0"
    using t0(2) parts(2) s by (simp_all add: ownership_def)
  have "t0 \<in> set (map snd (reg_sessions r))"
    using map_of_snd [of "reg_sessions r" t0] t0(1) assms(1) by (auto simp: keyed_def)
  then have "\<not> sessionBlocksAppRootRegistration env t0"
    using installed(4) k root assms(4,5) s parts(1) by (auto simp: blockingAppRootSession_def find_None_iff)
  then show ?thesis using blocks_ownership [OF t0(2)] by simp
qed (use assms(2) in simp)

definition pausedSession :: Session where
  "pausedSession = (the (map_of (reg_sessions upRegistry) ''main-aaaaaa''))\<lparr>ss_SessionID := ''old'', ss_OwnerPID := 5, ss_Owner := noOwner\<rparr>"

lemma app_root_exclusive_witness: "\<not> sessionBlocksAppRootRegistration plainEnv pausedSession"
proof -
  let ?r = "(OpenRegistry ''127.0.0.1:80'' [] None)\<lparr>reg_sessions := [(''old'', pausedSession)]\<rparr>"
  let ?u = "Upsert plainEnv True True ?r (upRequest ''/srv/app'' 42)"
  have k: "keyed ?r" by (auto simp: keyed_def pausedSession_def OpenRegistry_def Let_def)
  have "map_of (reg_sessions (fst ?u)) ''old'' = Some pausedSession
      \<and> snd ?u = Inr (projr (snd ?u)) \<and> ''old'' \<noteq> ss_SessionID (projr (snd ?u))
      \<and> pathClean (ss_AppRoot pausedSession) = pathClean (ss_AppRoot (projr (snd ?u)))"
    by code_simp
  with app_root_exclusive [OF k, of plainEnv True True "upRequest ''/srv/app'' 42" "fst ?u" "projr (snd ?u)" "''old''" pausedSession]
  show ?thesis by (metis prod.collapse)
qed

subsection \<open>Host-name leases\<close>

lemma removeAlias_aliases [simp]: "reg_aliases (removeAliasFromSession a r) = reg_aliases r"
  by (simp add: removeAliasFromSession_def Let_def split: option.split)

lemma claimHost_keeps_lease:
  assumes "map_of (reg_aliases r) h = Some l" "al_SessionID l \<noteq> ss_SessionID s" "\<not> aliasLeaseOwnerStale env l"
    and "claimHost env s False (r, a, c) hr = (r', a', c')"
  shows "map_of (reg_aliases r') h = Some l"
proof -
  obtain host route where hr: "hr = (host, route)" by (cases hr)
  show ?thesis
  proof (cases "host = h")
    case True
    with assms have "r' = r" by (simp add: claimHost_def hr foreignLease_def)
    with assms(1) show ?thesis by simp
  next
    case False
    show ?thesis
    proof (cases "foreignLease s (map_of (reg_aliases r) host) \<and> \<not> aliasLeaseOwnerStale env (the (map_of (reg_aliases r) host))")
      case True
      with assms(4) have "r' = r" by (simp add: claimHost_def hr)
      with assms(1) show ?thesis by simp
    next
      case nf: False
      define r1 where "r1 = (if foreignLease s (map_of (reg_aliases r) host)
        then removeAliasFromSession (the (map_of (reg_aliases r) host)) r else r)"
      have "r' = r1\<lparr>reg_aliases := AList.update host (leaseFor env s r1 host route (map_of (reg_aliases r) host)) (reg_aliases r1)\<rparr>"
        using assms(4) nf unfolding claimHost_def hr Let_def r1_def by (simp add: if_not_P)
      moreover have "reg_aliases r1 = reg_aliases r" by (simp add: r1_def)
      ultimately show ?thesis using assms(1) False by (simp add: update_conv)
    qed
  qed
qed

lemma NewSession_label:
  assumes "hexDigest (env_sha256hex env)" "NewSession env req addr scheme existing = Inr s"
  shows "isLabel (ss_SessionID s)"
proof -
  obtain root n b where n: "NormalizeSessionID (rq_SessionID req) = Inr n"
      "s = buildSession env req addr scheme existing root (if n \<noteq> [] then n else SessionID env root b) b"
    using NewSession_fields [OF assms(2)] by blast
  have "isLabel n" using n(1) sanitizeLabel_isLabel by (auto simp: NormalizeSessionID_def Let_def split: if_splits)
  with n(2) SessionID_label [OF assms(1)] show ?thesis by simp
qed

lemma claimHosts_keep_lease:
  assumes "al_SessionID l \<noteq> ss_SessionID s" "\<not> aliasLeaseOwnerStale env l"
  shows "map_of (reg_aliases (fst st)) h = Some l \<Longrightarrow> map_of (reg_aliases (fst (foldl (claimHost env s False) st hs))) h = Some l"
proof (induction hs arbitrary: st)
  case (Cons hr hs)
  obtain r a c where st: "st = (r, a, c)" by (cases st)
  obtain r' a' c' where n: "claimHost env s False (r, a, c) hr = (r', a', c')" by (cases "claimHost env s False (r, a, c) hr")
  have "map_of (reg_aliases r') h = Some l"
    using claimHost_keeps_lease [OF _ assms n] Cons.prems st by simp
  with Cons.IH [of "(r', a', c')"] st n show ?case by simp
qed simp

text \<open>
  A registration that does not force its aliases never takes a host name away: a lease held by another session
  whose recorded owner is not known to be gone is unchanged afterwards, also when the same host is configured.
\<close>

lemma alias_not_stolen:
  assumes "hexDigest (env_sha256hex env)" "keyed r" "\<not> rq_ClaimAliases req" "Upsert env w m r req = (r', Inr s)"
    and "map_of (reg_aliases r) h = Some l" "al_SessionID l \<noteq> ss_SessionID s" "\<not> aliasLeaseOwnerStale env l"
  shows "map_of (reg_aliases r') h = Some l"
proof (cases rule: Upsert_cases [of env w m r req])
  case (installed sid s0 r1 s1)
  have s: "s = s1" using installed(8) assms(4) by simp
  note parts = installSession_parts [OF assms(2) installed(5)]
  obtain r2 a c where cl: "claimAliases env s0 False r = (r2, a, c)" "reg_aliases r1 = reg_aliases r2"
    using parts(5) assms(3) by auto
  have ne: "al_SessionID l \<noteq> ss_SessionID s0" using assms(6) s parts(1) by simp
  have d: "distinct (map fst (reg_aliases r))" using assms(2) by (simp add: keyed_def)
  have "map_of (reg_aliases r2) h = Some l"
  proof (cases "rn_Hosts (ss_RouteNamespace s0) = []")
    case True
    from True cl(1) have "r2 = removeSessionAliases (ss_SessionID s0) r" by (simp add: claimAliases_def)
    then have "reg_aliases r2 = filter (\<lambda>(h, a). al_SessionID a \<noteq> ss_SessionID s0) (reg_aliases r) \<or> r2 = r"
      using label_trimSpace [OF NewSession_label [OF assms(1) installed(2)]] by (simp add: removeSessionAliases_def Let_def)
    then show ?thesis using d assms(5) ne by (auto simp: map_of_filter_value simp del: map_of_eq_Some_iff)
  next
    case False
    let ?r = "r\<lparr>reg_aliases := filter (\<lambda>(h, a). \<not> (al_SessionID a = ss_SessionID s0 \<and> lookupStr (desiredAliases s0) h = [])) (reg_aliases r)\<rparr>"
    have 1: "map_of (reg_aliases ?r) h = Some l" using d assms(5) ne by (simp add: map_of_filter_value del: map_of_eq_Some_iff)
    obtain r3 a3 c3 where f: "foldl (claimHost env s0 False) (?r, [], []) (desiredAliases s0) = (r3, a3, c3)"
      by (cases "foldl (claimHost env s0 False) (?r, [], []) (desiredAliases s0)")
    have "r2 = r3" using cl(1) unfolding claimAliases_def Let_def f if_not_P [OF False] by simp
    then show ?thesis using claimHosts_keep_lease [OF ne assms(7), of "(?r, [], [])" h "desiredAliases s0"] 1 f by simp
  qed
  moreover have "reg_aliases r' = reg_aliases r1" using installed(6) assms(4) by simp
  ultimately show ?thesis using cl(2) by simp
qed (use assms(4) in simp)

lemma alias_not_stolen_witness:
  "map_of (reg_aliases (fst (Upsert plainEnv True True upRegistry (upRequest ''/srv/other'' 9)))) ''shop.test''
   = map_of (reg_aliases upRegistry) ''shop.test''"
proof -
  let ?u = "Upsert plainEnv True True upRegistry (upRequest ''/srv/other'' 9)"
  let ?l = "the (map_of (reg_aliases upRegistry) ''shop.test'')"
  have k: "keyed upRegistry" using registry.reach_inv [OF upRegistry_reached] by (simp add: regInv_def)
  have h: "hexDigest (env_sha256hex plainEnv)" by (simp add: hexDigest_def plainEnv_def list_all_iff)
  have f: "\<not> rq_ClaimAliases (upRequest ''/srv/other'' 9)" by (simp add: upRequest_def)
  have l: "map_of (reg_aliases upRegistry) ''shop.test'' = Some ?l" by code_simp
  have st: "\<not> aliasLeaseOwnerStale plainEnv ?l" by code_simp
  have i: "snd ?u = Inr (projr (snd ?u))" "al_SessionID ?l \<noteq> ss_SessionID (projr (snd ?u))" by code_simp+
  have u: "?u = (fst ?u, Inr (projr (snd ?u)))" using i(1) by (metis prod.collapse)
  show ?thesis by (rule trans [OF alias_not_stolen [OF h k f u l i(2) st] l [symmetric]])
qed

subsection \<open>Removal\<close>

text \<open>
  Removal is complete and touches nothing else.  When the agent reports a session as deleted, from any
  reachable state, no session, lease, routing entry or current-session entry mentions its identifier any more, every
  other session is as it was, and every lease of another session is kept.
\<close>

lemma delete_removes:
  assumes "freshRegistry r0" "regStep\<^sup>*\<^sup>* r0 r" "deleteSession w r i pid ow strict = (r', Inr (Some s, True))"
  shows "map_of (reg_sessions r) (trimSpace i) = Some s \<and> map_of (reg_sessions r') (trimSpace i) = None
       \<and> (\<forall>h a. map_of (reg_aliases r') h = Some a \<longrightarrow> al_SessionID a \<noteq> trimSpace i)
       \<and> (\<forall>h tg. map_of (reg_routeHosts r') h = Some tg \<longrightarrow> tg_SessionID tg \<noteq> trimSpace i)
       \<and> (\<forall>root. map_of (reg_currentByAppRoot r') root \<noteq> Some (trimSpace i))
       \<and> (\<forall>k. k \<noteq> trimSpace i \<longrightarrow> map_of (reg_sessions r') k = map_of (reg_sessions r) k)
       \<and> (\<forall>h a. map_of (reg_aliases r) h = Some a \<longrightarrow> al_SessionID a \<noteq> trimSpace i \<longrightarrow> map_of (reg_aliases r') h = Some a)"
proof -
  note removed = deleteSession_removed [OF assms(3)]
  note s' = removed(2,4)
  have inv: "regInv r" by (rule registry.reach_inv [OF assms(1,2)])
  then have inv': "regInv r'" using deleteSession_keeps [OF inv, of w i pid ow strict] assms(3) by simp
  have d: "distinct (map fst (reg_aliases r))" using inv by (simp add: regInv_def keyed_def)
  have gone: "rootOf r' (trimSpace i) = None" by (simp add: rootOf_def s' delete_conv)
  show ?thesis
  proof (intro conjI allI impI)
    show "map_of (reg_sessions r) (trimSpace i) = Some s" by (rule removed(1))
    show "map_of (reg_sessions r') (trimSpace i) = None" by (simp add: s' delete_conv)
    show "al_SessionID a \<noteq> trimSpace i" if "map_of (reg_aliases r') h = Some a" for h a
      using that inv' gone unfolding regInv_def by metis
    show "tg_SessionID tg \<noteq> trimSpace i" if "map_of (reg_routeHosts r') h = Some tg" for h tg
      using that inv' gone unfolding regInv_def by metis
    show "map_of (reg_currentByAppRoot r') root \<noteq> Some (trimSpace i)" for root
      using inv' gone unfolding regInv_def by (metis option.map_disc_iff option.distinct(1))
    show "map_of (reg_sessions r') k = map_of (reg_sessions r) k" if "k \<noteq> trimSpace i" for k
      using that by (simp add: s' delete_conv)
    show "map_of (reg_aliases r') h = Some a"
      if "map_of (reg_aliases r) h = Some a" "al_SessionID a \<noteq> trimSpace i" for h a
      using that d by (simp add: s' map_of_filter_value del: map_of_eq_Some_iff)
  qed
qed

lemma delete_removes_witness:
  "map_of (reg_sessions (fst (deleteSession True upRegistry '' main-aaaaaa'' 42 noOwner False))) ''main-aaaaaa'' = None"
proof -
  let ?d = "deleteSession True upRegistry '' main-aaaaaa'' 42 noOwner False"
  let ?s = "the (map_of (reg_sessions upRegistry) ''main-aaaaaa'')"
  have "?d = (fst ?d, Inr (Some ?s, True))" by code_simp
  from delete_removes [OF upRegistry_reached this] have "map_of (reg_sessions (fst ?d)) (trimSpace '' main-aaaaaa'') = None"
    by blast
  moreover have "trimSpace '' main-aaaaaa'' = ''main-aaaaaa''" by code_simp
  ultimately show ?thesis by simp
qed

subsection \<open>An application root that is not trimmed\<close>

text \<open>
  A gap in the ownership check.  The registry derives the identifier it looks up from the root as it was
  sent, the session from the trimmed and absolute root.  So for a root with a leading space the
  check compares against no session: here process 42 is alive and owns the session of \<open>/srv/app\<close>; process
  77 is refused when it registers \<open>/srv/app\<close>, but succeeds, and replaces the owner of that very
  session, when it sends the root with a space in front.
\<close>

lemma untrimmed_root_takes_over:
  "isl (snd (Upsert plainEnv True True upRegistry (upRequest ''/srv/app'' 77)))
   \<and> sessionBlocksAppRootRegistration plainEnv (the (map_of (reg_sessions upRegistry) ''main-aaaaaa''))
   \<and> \<not> isl (snd (Upsert plainEnv True True upRegistry (upRequest '' /srv/app'' 77)))
   \<and> ss_SessionID (projr (snd (Upsert plainEnv True True upRegistry (upRequest '' /srv/app'' 77)))) = ''main-aaaaaa''
   \<and> ss_OwnerPID (the (map_of (reg_sessions (fst (Upsert plainEnv True True upRegistry (upRequest '' /srv/app'' 77)))) ''main-aaaaaa'')) = 77"
proof (intro conjI)
  show "isl (snd (Upsert plainEnv True True upRegistry (upRequest ''/srv/app'' 77)))" by code_simp
  show "sessionBlocksAppRootRegistration plainEnv (the (map_of (reg_sessions upRegistry) ''main-aaaaaa''))" by code_simp
  show "\<not> isl (snd (Upsert plainEnv True True upRegistry (upRequest '' /srv/app'' 77)))" by code_simp
  show "ss_SessionID (projr (snd (Upsert plainEnv True True upRegistry (upRequest '' /srv/app'' 77)))) = ''main-aaaaaa''"
    by code_simp
  show "ss_OwnerPID (the (map_of (reg_sessions (fst (Upsert plainEnv True True upRegistry (upRequest '' /srv/app'' 77)))) ''main-aaaaaa'')) = 77"
    by code_simp
qed

end
