(* ===== verification/RegistryLedger.thy ===== *)
theory RegistryLedger
  imports RegistryProps
begin

text \<open>
  What the agent's registry is for, without leases, routes, files and timestamps: a ledger that says which
  process owns which session of which application root.  The registry refines it: each of its operations
  is one of the ledger's three moves.
\<close>

section \<open>The ledger\<close>

type_synonym holding = "string \<times> int \<times> Owner"
type_synonym ledger = "string \<rightharpoonup> holding"

fun holderPID :: "holding \<Rightarrow> int" where
  "holderPID (root, pid, owner) = firstPositive [pid, ow_PID owner]"

fun holderLive :: "agentEnv \<Rightarrow> holding \<Rightarrow> bool" where
  "holderLive env (root, pid, owner) =
     (let p = firstPositive [pid, ow_PID owner];
          w = (if ow_PID owner = p then owner else noOwner\<lparr>ow_PID := p\<rparr>)
      in p > 0 \<and> (VerifyOwner env w = None \<or> ownerProcessInspectable env p))"

definition sameRoot :: "holding \<Rightarrow> holding \<Rightarrow> bool" where
  "sameRoot a b = (pathClean (fst a) = pathClean (fst b))"

text \<open>
  An entry can be claimed when it is free, when its holder is not alive, by its holder, or by nobody (the
  session stays without an owner), provided no other live entry has the same application root.
\<close>

inductive ledgerStep :: "ledger \<Rightarrow> ledger \<Rightarrow> bool" where
  claim: "(\<And>h. L k = Some h \<Longrightarrow> holderLive env h \<Longrightarrow> holderPID new = holderPID h \<or> holderPID new \<le> 0) \<Longrightarrow>
    (\<And>j h. j \<noteq> k \<Longrightarrow> L j = Some h \<Longrightarrow> sameRoot h new \<Longrightarrow> \<not> holderLive env h) \<Longrightarrow>
    ledgerStep L (L(k \<mapsto> new))"
| release: "ledgerStep L (L(k := None))"

section \<open>Refinement\<close>

lemma holderPID_ownership [simp]: "holderPID (ownership s) = sessionPID s"
  by (simp add: ownership_def sessionPID_def)

lemma holderLive_ownership: "holderLive env (ownership s) = sessionBlocksAppRootRegistration env s"
  by (auto simp: ownership_def sessionBlocksAppRootRegistration_def sessionPID_def Let_def noOwner_def)

lemma sameRoot_ownership: "sameRoot (ownership a) (ownership b) = (pathClean (ss_AppRoot a) = pathClean (ss_AppRoot b))"
  by (simp add: sameRoot_def ownership_def)

lemma ownershipOf_Some: "ownershipOf r k = Some h \<longleftrightarrow> (\<exists>s. map_of (reg_sessions r) k = Some s \<and> h = ownership s)"
  by (auto simp: ownershipOf_def)

text \<open>The owner that a request leads to, when a live session was there before.\<close>

lemma NewSession_ownerPID:
  assumes "NewSession env req addr scheme (Some e) = Inr s"
  shows "ss_OwnerPID s = (if rq_OwnerPID req = 0 then ss_OwnerPID e else rq_OwnerPID req)"
    "ss_Owner s = sessionOwner env req (Some e) (ss_OwnerPID s)"
proof -
  obtain root sid b where "s = buildSession env req addr scheme (Some e) root sid b"
    using NewSession_fields [OF assms] by blast
  then show "ss_OwnerPID s = (if rq_OwnerPID req = 0 then ss_OwnerPID e else rq_OwnerPID req)"
    "ss_Owner s = sessionOwner env req (Some e) (ss_OwnerPID s)"
    by (simp_all add: buildSession_def Let_def)
qed

lemma OwnerFromRequest_pid:
  "ow_PID (OwnerFromRequest env pid owner by) =
     (if pid > 0 then pid else if ow_PID owner > 0 then ow_PID owner else 0)"
proof (cases "pid > 0")
  case True
  then show ?thesis by (simp add: OwnerFromRequest_PID)
next
  case False
  then show ?thesis
    by (cases "ow_PID owner > 0") (simp_all add: OwnerFromRequest_def Let_def noOwner_def)
qed

lemma claimed_by_holder:
  assumes "NewSession env req addr scheme (Some e) = Inr s" "requestMayClaimSession env req e s"
    and "sessionBlocksAppRootRegistration env e"
  shows "sessionPID s = sessionPID e \<or> sessionPID s \<le> 0"
proof -
  let ?rp = "firstPositive [rq_OwnerPID req, ow_PID (rq_Owner req), ss_OwnerPID s, ow_PID (ss_Owner s)]"
  have e: "0 < sessionPID e"
    using assms(3) by (simp add: sessionBlocksAppRootRegistration_def Let_def split: if_splits)
  have rp: "?rp \<le> 0 \<or> ?rp = sessionPID e"
    using assms(2,3) e
    by (auto simp: requestMayClaimSession_def sessionBlocksAppRootRegistration_def Let_def sessionPID_def noOwner_def split: if_splits)
  have pid: "ss_OwnerPID s = (if rq_OwnerPID req = 0 then ss_OwnerPID e else rq_OwnerPID req)"
    by (rule NewSession_ownerPID(1) [OF assms(1)])
  have ow: "ow_PID (ss_Owner s) = (if ss_OwnerPID s > 0 then ss_OwnerPID s
      else if ow_PID (rq_Owner req) \<noteq> 0 then (if ow_PID (rq_Owner req) > 0 then ow_PID (rq_Owner req) else 0)
      else if ow_PID (ss_Owner e) > 0 \<and> (ss_OwnerPID s = 0 \<or> ss_OwnerPID s = ow_PID (ss_Owner e) \<or> ss_OwnerPID s = ss_OwnerPID e)
      then ow_PID (ss_Owner e) else 0)"
    unfolding NewSession_ownerPID(2) [OF assms(1)] by (simp add: sessionOwner_def Let_def OwnerFromRequest_pid)
  show ?thesis
    using rp e unfolding sessionPID_def ow using pid by (auto split: if_splits)
qed

lemma Upsert_refines:
  assumes "regInv r" "canonicalRequest env req"
  shows "ledgerStep\<^sup>*\<^sup>* (ownershipOf r) (ownershipOf (fst (Upsert env w m r req)))"
proof (cases rule: Upsert_cases [of env w m r req])
  case (installed sid s r1 s1)
  have k: "keyed r" using assms(1) by (simp add: regInv_def)
  note parts = installSession_parts [OF k installed(5)]
  note sid = NewSession_id [OF installed(2,1) assms(2)]
  have "ownershipOf (fst (Upsert env w m r req)) = ownershipOf r1"
    using installed(6) by (simp add: ownershipOf_def fun_eq_iff)
  also have "\<dots> = (ownershipOf r)(sid \<mapsto> ownership s1)"
    using parts(3,4) sid(1) by (auto simp: fun_eq_iff ownershipOf_def)
  finally have o: "ownershipOf (fst (Upsert env w m r req)) = (ownershipOf r)(sid \<mapsto> ownership s1)" .
  have s1: "ownership s1 = ownership s" by (rule parts(2))
  have "ledgerStep (ownershipOf r) ((ownershipOf r)(sid \<mapsto> ownership s1))"
  proof (rule ledgerStep.claim [where env = env])
    fix ho assume "ownershipOf r sid = Some ho" and live: "holderLive env ho"
    then obtain e where e: "map_of (reg_sessions r) sid = Some e" "ho = ownership e" by (auto simp: ownershipOf_Some)
    have "sessionPID s = sessionPID e \<or> sessionPID s \<le> 0"
      using installed(2) installed(3) [OF e(1)] live unfolding e by (intro claimed_by_holder) (auto simp: holderLive_ownership)
    then show "holderPID (ownership s1) = holderPID ho \<or> holderPID (ownership s1) \<le> 0" unfolding s1 e(2) by simp
  next
    fix k' ho assume k': "k' \<noteq> sid" "ownershipOf r k' = Some ho" "sameRoot ho (ownership s1)"
    then obtain e where e: "map_of (reg_sessions r) k' = Some e" "ho = ownership e" by (auto simp: ownershipOf_Some)
    have id: "ss_SessionID e = k'" using k e(1) unfolding keyed_def by blast
    have "e \<in> set (map snd (reg_sessions r))"
      using map_of_snd [of "reg_sessions r" e] e(1) k by (auto simp: keyed_def)
    then have "\<not> sessionBlocksAppRootRegistration env e"
      using installed(4) k'(1,3) id sid(1) unfolding e(2) s1 sameRoot_ownership
      by (auto simp: blockingAppRootSession_def find_None_iff)
    then show "\<not> holderLive env ho" unfolding e(2) holderLive_ownership .
  qed
  then show ?thesis unfolding o by blast
qed simp

lemma deleteSession_refines: "ledgerStep\<^sup>*\<^sup>* (ownershipOf r) (ownershipOf (fst (deleteSession w r i pid ow strict)))"
proof (cases rule: deleteSession_cases [of w r i pid ow strict])
  case (removed s r2)
  have "ownershipOf (fst (deleteSession w r i pid ow strict)) = (ownershipOf r)(trimSpace i := None)"
    using removed(4,5) by (auto simp: ownershipOf_def fun_eq_iff promoteCurrent_def Let_def delete_conv)
  then show ?thesis using ledgerStep.release [of "ownershipOf r" "trimSpace i"] by simp
qed simp

interpretation owners: refines freshRegistry regStep regInv ownershipOf ledgerStep
proof
  fix r r' assume inv: "regInv r" and step: "regStep r r'"
  show "ledgerStep\<^sup>*\<^sup>* (ownershipOf r) (ownershipOf r')" using step
  proof cases
    case (rearrange ss as)
    have "distinct (map fst (reg_sessions r))" using inv by (simp add: regInv_def keyed_def)
    from map_of_mset_eq(1) [OF rearrange(2) this] have "ownershipOf r' = ownershipOf r"
      by (simp add: rearrange(1) ownershipOf_def fun_eq_iff)
    then show ?thesis by simp
  next
    case (upsertSubstrate env w sreq)
    have "reg_sessions r' = reg_sessions r" unfolding upsertSubstrate by (simp add: UpsertSubstrate_def Let_def saveLocked_def)
    then have "ownershipOf r' = ownershipOf r" by (simp add: ownershipOf_def fun_eq_iff)
    then show ?thesis by simp
  next
    case (deleteSubstrate w kind)
    have "reg_sessions r' = reg_sessions r"
      unfolding deleteSubstrate by (simp add: DeleteSubstrate_def Let_def saveLocked_def split: option.split)
    then have "ownershipOf r' = ownershipOf r" by (simp add: ownershipOf_def fun_eq_iff)
    then show ?thesis by simp
  qed (use inv in \<open>simp_all add: Upsert_refines deleteSession_refines\<close>)
qed



end
