(* ===== verification/AgentServer.thy ===== *)
theory AgentServer
  imports RegistryProps
begin

text \<open>
  The HTTP side of the local agent: the control API and the request router of \<open>internal/agent/server.go\<close> and
  \<open>router.go\<close>, and the client of \<open>client.go\<close>.  A handler is a function from the server and the request to the new
  server, the response and the list of processes it interrupted.  A request carries its path and query already
  unescaped and the first value of each query key and header (\<open>Query().Get\<close> and \<open>Header.Get\<close>); its body is text that
  the JSON decoder \<open>codec\<close> turns into a request or an error.  A response body is the Go value that is written as JSON.
  The upstream connection of the reverse proxy is an argument.
\<close>

section \<open>Definitions\<close>

subsection \<open>Addresses\<close>

text \<open>\<open>net.ParseIP\<close>: four decimal fields without leading zeros, or eight hexadecimal groups with one ellipsis.\<close>

definition ipv4Field :: "string \<Rightarrow> nat option" where
  "ipv4Field s =
     (if s = [] \<or> length s > 3 \<or> \<not> list_all isDigit s \<or> (length s > 1 \<and> hd s = CHR ''0'') \<or> decValue 0 s > 255 then None
      else Some (decValue 0 s))"

definition parseIPv4 :: "string \<Rightarrow> nat list option" where
  "parseIPv4 s =
     (let fs = map ipv4Field (splitOn CHR ''.'' s)
      in if length fs = 4 \<and> list_all (\<lambda>f. f \<noteq> None) fs then Some (map the fs) else None)"

definition hexVal :: "char \<Rightarrow> nat option" where
  "hexVal c =
     (if isDigit c then Some (digitVal c)
      else if c \<in> set ''abcdef'' then Some (of_char c - 87)
      else if c \<in> set ''ABCDEF'' then Some (of_char c - 55)
      else None)"

definition hexGroup :: "string \<Rightarrow> nat" where
  "hexGroup s = foldl (\<lambda>acc c. 16 * acc + the (hexVal c)) 0 s"

text \<open>The loop over the groups: \<open>fuel\<close> is eight, the groups read so far and the position of the ellipsis.\<close>

fun ipv6Loop :: "nat \<Rightarrow> nat list \<Rightarrow> nat option \<Rightarrow> string \<Rightarrow> (nat list \<times> nat option \<times> string) option" where
  "ipv6Loop 0 gs ell s = Some (gs, ell, s)"
| "ipv6Loop (Suc n) gs ell s =
     (let h = takeWhile (\<lambda>c. hexVal c \<noteq> None) s; rest = dropWhile (\<lambda>c. hexVal c \<noteq> None) s
      in if h = [] \<or> length h > 4 then None
         else if hasPrefix ''.'' rest
         then (if ell = None \<and> length gs \<noteq> 6 then None
               else if length gs > 6 then None
               else case parseIPv4 s of
                      Some [a, b, c, d] \<Rightarrow> Some (gs @ [256 * a + b, 256 * c + d], ell, [])
                    | _ \<Rightarrow> None)
         else let gs = gs @ [hexGroup h] in
           if rest = [] then Some (gs, ell, [])
           else if hd rest \<noteq> CHR '':'' \<or> length rest = 1 then None
           else let s = tl rest in
             if hd s = CHR '':''
             then (if ell \<noteq> None then None
                   else if tl s = [] then Some (gs, Some (length gs), [])
                   else ipv6Loop n gs (Some (length gs)) (tl s))
             else ipv6Loop n gs ell s)"

definition parseIPv6 :: "string \<Rightarrow> nat list option" where
  "parseIPv6 s =
     (let lead = hasPrefix ''::'' s; s = (if lead then drop 2 s else s); ell = (if lead then Some 0 else None)
      in if lead \<and> s = [] then Some (replicate 8 0)
         else case ipv6Loop 8 [] ell s of
                None \<Rightarrow> None
              | Some (gs, ell, rest) \<Rightarrow>
                if rest \<noteq> [] then None
                else if length gs < 8
                then (case ell of None \<Rightarrow> None | Some e \<Rightarrow> Some (take e gs @ replicate (8 - length gs) 0 @ drop e gs))
                else if ell \<noteq> None then None else Some gs)"

text \<open>The first of the bytes \<open>.\<close> and \<open>:\<close> decides the family; a mapped IPv4 address counts as IPv4.\<close>

definition parsedLoopback :: "string \<Rightarrow> bool" where
  "parsedLoopback s =
     (case find (\<lambda>c. c = CHR ''.'' \<or> c = CHR '':'') s of
        None \<Rightarrow> False
      | Some c \<Rightarrow>
        if c = CHR ''.'' then (case parseIPv4 s of None \<Rightarrow> False | Some bs \<Rightarrow> hd bs = 127)
        else (case parseIPv6 s of
                None \<Rightarrow> False
              | Some gs \<Rightarrow> gs = [0, 0, 0, 0, 0, 0, 0, 1] \<or> take 6 gs = [0, 0, 0, 0, 0, 65535] \<and> gs ! 6 div 256 = 127))"

subsection \<open>Requests, responses and the server\<close>

record httpRequest =
  hr_Method :: string
  hr_Host :: string
  hr_URLHost :: string
  hr_Path :: string
  hr_Query :: "(string, string) gomap"
  hr_Header :: "(string, string) gomap"
  hr_TLS :: bool
  hr_RemoteAddr :: string
  hr_Body :: string

record EdgeState =
  es_SchemaVersion :: string
  es_Kind :: string
  es_Status :: string
  es_PID :: int
  es_PublicAddr :: string
  es_PublicScheme :: string
  es_HTTPSListen :: string
  es_UpstreamAddr :: string
  es_AdminSocket :: string
  es_ConfigPath :: string
  es_LogPath :: string
  es_Error :: string
  es_UpdatedAt :: timestamp

record HealthResponse =
  he_SchemaVersion :: string
  he_PID :: int
  he_SocketPath :: string
  he_RouterAddr :: string
  he_PublicRouterAddr :: string
  he_RouterScheme :: string
  he_Edge :: "EdgeState option"
  he_DashboardBackend :: Backend

datatype payload =
    Empty
  | Text string
  | RegisterResponse Session bool
  | StatusResponse "Session list"
  | SubstrateResponse Substrate
  | SubstratesResponse "Substrate list"
  | Health HealthResponse

record response =
  rs_Status :: int
  rs_Allow :: string
  rs_RetryAfter :: string
  rs_Body :: payload

record jsonCodec =
  jd_register :: "string \<Rightarrow> string + RegisterRequest"
  jd_substrate :: "string \<Rightarrow> string + UpsertSubstrateRequest"

record Server =
  sv_SocketPath :: string
  sv_registry :: Registry
  sv_routerAddr :: string
  sv_publicRouterAddr :: string
  sv_routerScheme :: string
  sv_edge :: "EdgeState option"
  sv_edgeToken :: string
  sv_dashboard :: Backend

text \<open>What a request meets outside the server: the machine, the JSON decoder and the outcome of the writes.\<close>

record world =
  wd_env :: agentEnv
  wd_codec :: jsonCodec
  wd_writeOK :: bool
  wd_manifestOK :: bool

definition reply :: "int \<Rightarrow> payload \<Rightarrow> response" where
  "reply status body = \<lparr>rs_Status = status, rs_Allow = [], rs_RetryAfter = [], rs_Body = body\<rparr>"

definition writeJSON :: "int \<Rightarrow> payload \<Rightarrow> response" where
  "writeJSON status v = reply status v"

definition httpError :: "string \<Rightarrow> int \<Rightarrow> response" where
  "httpError msg status = reply status (Text msg)"

definition notFound :: response where
  "notFound = httpError ''404 page not found'' 404"

definition methodNotAllowed :: "string list \<Rightarrow> response" where
  "methodNotAllowed methods = (httpError ''method not allowed'' 405)\<lparr>rs_Allow := joinWith '', '' methods\<rparr>"

definition normalizeBackend :: "Backend \<Rightarrow> Backend" where
  "normalizeBackend b =
     (let b = b\<lparr>bk_Network := (if trimSpace (bk_Network b) = [] then ''tcp'' else trimSpace (bk_Network b)),
                bk_Addr := trimSpace (bk_Addr b)\<rparr>
      in if bk_Addr b = [] then \<lparr>bk_Network = [], bk_Addr = []\<rparr> else b)"

subsection \<open>Hosts and paths of requests\<close>

definition normalizeRouteRequestHost :: "string \<Rightarrow> string" where
  "normalizeRouteRequestHost host =
     (let host = trimSuffix ''.'' (toLower (trimSpace host))
      in case splitHostPort host of None \<Rightarrow> host | Some (h, _) \<Rightarrow> h)"

definition requestHost :: "httpRequest \<Rightarrow> string" where
  "requestHost req =
     (let host = toLower (trimSpace (hr_Host req));
          host = (if host = [] then toLower (trimSpace (hr_URLHost req)) else host)
      in normalizeRouteRequestHost host)"

definition routeTargetForHost :: "Server \<Rightarrow> string \<Rightarrow> (Session \<times> string) option" where
  "routeTargetForHost s host =
     (let host = normalizeRouteRequestHost host in if host = [] then None else RouteTargetForHost (sv_registry s) host)"

definition hasRouteHost :: "Server \<Rightarrow> string \<Rightarrow> bool" where
  "hasRouteHost s host = (routeTargetForHost s host \<noteq> None)"

definition sessionOwnerVerifies :: "agentEnv \<Rightarrow> Session \<Rightarrow> bool" where
  "sessionOwnerVerifies env session =
     (let ownerPID = firstPositive [ss_OwnerPID session, ow_PID (ss_Owner session)]
      in if ownerPID \<le> 0 then False
         else let owner = ss_Owner session;
                  owner = (if ow_PID owner \<le> 0 then owner\<lparr>ow_PID := ownerPID\<rparr> else owner)
              in VerifyOwner env owner = None)"

definition tlsAllowedHost :: "agentEnv \<Rightarrow> Server \<Rightarrow> string \<Rightarrow> bool" where
  "tlsAllowedHost env s host =
     (case routeTargetForHost s host of None \<Rightarrow> False | Some (session, _) \<Rightarrow> sessionOwnerVerifies env session)"

definition agentTLSHostAllowed :: "Server \<Rightarrow> string \<Rightarrow> bool" where
  "agentTLSHostAllowed s host =
     (let host = normalizeRouteRequestHost host in if host = ''localhost'' then True else hasRouteHost s host)"

text \<open>
  The certificate callback: the host a client asks for, or the error.  The cache of certificates is left out: it
  maps a host to a certificate made for that host.
\<close>

definition getCertificateHost :: "Server \<Rightarrow> string \<Rightarrow> string + string" where
  "getCertificateHost s serverName =
     (let host = trimSuffix ''.'' (toLower (trimSpace serverName));
          host = (if host = [] then ''localhost'' else host)
      in if \<not> agentTLSHostAllowed s host then Inl (''unsupported scenery agent TLS host '' @ goQuote host) else Inr host)"

definition cleanRequestPath :: "string \<Rightarrow> string" where
  "cleanRequestPath p =
     (if p = [] then ''/'' else pathClean (if hasPrefix ''/'' p then p else CHR ''/'' # p))"

definition isFrontendSessionBackend :: "string \<Rightarrow> bool" where
  "isFrontendSessionBackend kind =
     (kind \<notin> set ['''', RouteAPI, RouteDashboard, ''grafana'', ''temporal'', ''electric'', ''removed-agent-transport'', ''sync''])"

definition isProtectedFrontendPath :: "string \<Rightarrow> bool" where
  "isProtectedFrontendPath p =
     (let p = cleanRequestPath p
      in list_ex (\<lambda>prefix. p = prefix \<or> hasPrefix (prefix @ ''/'') p) [''/__scenery'', ''/api'', ''/sync''])"

definition isConcreteAssetPath :: "string \<Rightarrow> bool" where
  "isConcreteAssetPath p =
     (let p = cleanRequestPath p
      in if p = ''/'' then False
         else if list_ex (\<lambda>prefix. hasPrefix prefix p) [''/assets/'', ''/static/'', ''/public/''] then True
         else CHR ''.'' \<in> set (pathBase p))"

definition shouldUseSPAFallback :: "httpRequest \<Rightarrow> bool" where
  "shouldUseSPAFallback req =
     (if hr_Method req \<noteq> ''GET'' \<and> hr_Method req \<noteq> ''HEAD'' then False
      else if isConcreteAssetPath (hr_Path req) then False
      else indexOf ''text/html'' (toLower (lookupStr (hr_Header req) ''Accept'')) \<noteq> None)"

subsection \<open>The reverse proxy\<close>

definition trustedEdgeRequest :: "Server \<Rightarrow> httpRequest \<Rightarrow> bool" where
  "trustedEdgeRequest s req =
     (if trimSpace (sv_edgeToken s) = [] then False
      else if lookupStr (hr_Header req) ''X-Scenery-Edge-Token'' \<noteq> sv_edgeToken s then False
      else let addr = trimSpace (hr_RemoteAddr req);
               host = (case splitHostPort addr of Some (h, _) \<Rightarrow> h | None \<Rightarrow> addr)
           in parsedLoopback host)"

definition forwardedProto :: "Server \<Rightarrow> httpRequest \<Rightarrow> string" where
  "forwardedProto s req =
     (let proto = trimSpace (lookupStr (hr_Header req) ''X-Forwarded-Proto'')
      in if trustedEdgeRequest s req \<and> proto \<noteq> [] then proto
         else if hr_TLS req then ''https'' else ''http'')"

definition forwardedPort :: "Server \<Rightarrow> httpRequest \<Rightarrow> string" where
  "forwardedPort s req =
     (let port = trimSpace (lookupStr (hr_Header req) ''X-Forwarded-Port'')
      in if trustedEdgeRequest s req \<and> port \<noteq> [] then port
         else case splitHostPort (trimSpace (hr_Host req)) of
                Some (_, p) \<Rightarrow> if p \<noteq> [] then p else if hr_TLS req then ''443'' else ''80''
              | None \<Rightarrow> if hr_TLS req then ''443'' else ''80'')"

record outRequest =
  oq_Network :: string
  oq_Addr :: string
  oq_Method :: string
  oq_Path :: string
  oq_Query :: "(string, string) gomap"
  oq_Host :: string
  oq_ForwardedHost :: string
  oq_ForwardedProto :: string
  oq_ForwardedPort :: string

text \<open>
  The director set up by \<open>proxyBackendWithOptions\<close> on top of \<open>NewSingleHostReverseProxy\<close>, whose target has no
  path: a request path without a leading slash gets one.
\<close>

definition directRequest :: "Server \<Rightarrow> httpRequest \<Rightarrow> Backend \<Rightarrow> string \<Rightarrow> outRequest" where
  "directRequest s req backend stripPrefix =
     (let joined = (if hasPrefix ''/'' (hr_Path req) then hr_Path req else CHR ''/'' # hr_Path req);
          path = (if stripPrefix \<noteq> []
                  then (let p = trimPrefix stripPrefix (hr_Path req) in if p = [] then ''/'' else p) else joined)
      in \<lparr>oq_Network = (if bk_Network backend = ''unix'' then ''unix'' else ''tcp''), oq_Addr = bk_Addr backend,
          oq_Method = hr_Method req, oq_Path = path, oq_Query = hr_Query req,
          oq_Host = hr_Host req, oq_ForwardedHost = hr_Host req,
          oq_ForwardedProto = forwardedProto s req, oq_ForwardedPort = forwardedPort s req\<rparr>)"

datatype proxyError = DialError string | ConnRefused string | NoEntry string | OtherError string

fun proxyErrorText :: "proxyError \<Rightarrow> string" where
  "proxyErrorText (DialError e) = e"
| "proxyErrorText (ConnRefused e) = e"
| "proxyErrorText (NoEntry e) = e"
| "proxyErrorText (OtherError e) = e"

fun isBackendUnavailableError :: "proxyError \<Rightarrow> bool" where
  "isBackendUnavailableError (OtherError e) = False"
| "isBackendUnavailableError e = True"

type_synonym upstream = "outRequest \<Rightarrow> proxyError + response"

definition proxyBackendWithOptions ::
  "upstream \<Rightarrow> Server \<Rightarrow> httpRequest \<Rightarrow> Backend \<Rightarrow> string \<Rightarrow> bool \<Rightarrow> response \<times> outRequest list" where
  "proxyBackendWithOptions up s req backend stripPrefix spaFallback =
     (let out = directRequest s req backend stripPrefix
      in case up out of
           Inl e \<Rightarrow>
             (if isBackendUnavailableError e
              then ((httpError ''backend restarting, retry shortly'' 503)\<lparr>rs_RetryAfter := ''1''\<rparr>, [out])
              else (httpError (proxyErrorText e) 502, [out]))
         | Inr resp \<Rightarrow>
             if spaFallback \<and> rs_Status resp = 404
             then let again = out\<lparr>oq_Path := ''/'', oq_Query := []\<rparr>
                  in (case up again of Inl _ \<Rightarrow> resp | Inr r \<Rightarrow> r, [out, again])
             else (resp, [out]))"

definition proxyBackend ::
  "upstream \<Rightarrow> Server \<Rightarrow> httpRequest \<Rightarrow> Backend \<Rightarrow> string \<Rightarrow> response \<times> outRequest list" where
  "proxyBackend up s req backend stripPrefix = proxyBackendWithOptions up s req backend stripPrefix False"

definition handleFrontendRoute ::
  "upstream \<Rightarrow> Server \<Rightarrow> httpRequest \<Rightarrow> Session \<Rightarrow> Backend \<Rightarrow> response \<times> outRequest list" where
  "handleFrontendRoute up s req session backend =
     (let requestPath = cleanRequestPath (hr_Path req)
      in if requestPath = ''/__scenery/config''
         then (case map_of (ss_Backends session) RouteAPI of
                 None \<Rightarrow> (notFound, [])
               | Some api \<Rightarrow> proxyBackend up s req api [])
         else if isProtectedFrontendPath requestPath then (notFound, [])
         else proxyBackendWithOptions up s req backend [] (shouldUseSPAFallback req))"

definition handleConsole :: "upstream \<Rightarrow> Server \<Rightarrow> httpRequest \<Rightarrow> Session \<Rightarrow> response \<times> outRequest list" where
  "handleConsole up s req session =
     (if bk_Addr (sv_dashboard s) \<noteq> [] then proxyBackend up s req (sv_dashboard s) []
      else case map_of (ss_Backends session) RouteDashboard of
             None \<Rightarrow> (notFound, [])
           | Some backend \<Rightarrow> proxyBackend up s req backend [])"

definition handleTLSAllow :: "agentEnv \<Rightarrow> Server \<Rightarrow> httpRequest \<Rightarrow> response" where
  "handleTLSAllow env s req =
     (if hr_Method req \<noteq> ''GET'' \<and> hr_Method req \<noteq> ''HEAD'' then methodNotAllowed [''GET'', ''HEAD'']
      else let domain = normalizeRouteRequestHost (lookupStr (hr_Query req) ''domain'')
           in if domain = [] \<or> \<not> tlsAllowedHost env s domain then notFound else reply 204 Empty)"

definition routerMux :: "agentEnv \<Rightarrow> upstream \<Rightarrow> Server \<Rightarrow> httpRequest \<Rightarrow> response \<times> outRequest list" where
  "routerMux env up s req =
     (if cleanRequestPath (hr_Path req) = ''/v1/tls/allow'' then (handleTLSAllow env s req, [])
      else case routeTargetForHost s (requestHost req) of
             None \<Rightarrow> (notFound, [])
           | Some (session, kind) \<Rightarrow>
             if kind = RouteDashboard then handleConsole up s req session
             else case map_of (ss_Backends session) kind of
                    None \<Rightarrow> (notFound, [])
                  | Some backend \<Rightarrow>
                    if isFrontendSessionBackend kind then handleFrontendRoute up s req session backend
                    else proxyBackend up s req backend [])"

subsection \<open>The control API\<close>

definition StateSchemaVersion :: string where "StateSchemaVersion = ''scenery.agent.state.v1''"

definition handleHealth :: "agentEnv \<Rightarrow> Server \<Rightarrow> httpRequest \<Rightarrow> response" where
  "handleHealth env s req =
     (if hr_Method req \<noteq> ''GET'' then methodNotAllowed [''GET'']
      else writeJSON 200 (Health \<lparr>he_SchemaVersion = StateSchemaVersion, he_PID = env_pid env,
             he_SocketPath = sv_SocketPath s, he_RouterAddr = sv_routerAddr s, he_PublicRouterAddr = sv_publicRouterAddr s,
             he_RouterScheme = sv_routerScheme s, he_Edge = sv_edge s, he_DashboardBackend = sv_dashboard s\<rparr>))"

definition handleSubstrates :: "world \<Rightarrow> Server \<Rightarrow> httpRequest \<Rightarrow> Server \<times> response" where
  "handleSubstrates wd s req =
     (if hr_Method req = ''GET'' then (s, writeJSON 200 (SubstratesResponse (ListSubstrates (sv_registry s))))
      else if hr_Method req = ''POST''
      then (case jd_substrate (wd_codec wd) (hr_Body req) of
              Inl e \<Rightarrow> (s, httpError e 400)
            | Inr upsert \<Rightarrow>
              (case UpsertSubstrate (wd_env wd) (wd_writeOK wd) (sv_registry s) upsert of
                 (r, Inl e) \<Rightarrow> (s\<lparr>sv_registry := r\<rparr>, httpError e 400)
               | (r, Inr substrate) \<Rightarrow> (s\<lparr>sv_registry := r\<rparr>, writeJSON 200 (SubstrateResponse substrate))))
      else (s, methodNotAllowed [''GET'', ''POST'']))"

definition handleSubstrate :: "world \<Rightarrow> Server \<Rightarrow> httpRequest \<Rightarrow> Server \<times> response" where
  "handleSubstrate wd s req =
     (let kind = trimSet ''/'' (trimPrefix ''/v1/substrates/'' (hr_Path req))
      in if kind = [] then (s, notFound)
         else if hr_Method req = ''GET''
         then (case GetSubstrate (sv_registry s) kind of
                 None \<Rightarrow> (s, notFound)
               | Some substrate \<Rightarrow> (s, writeJSON 200 (SubstrateResponse substrate)))
         else if hr_Method req = ''DELETE''
         then (case DeleteSubstrate (wd_writeOK wd) (sv_registry s) kind of
                 (r, Inl e) \<Rightarrow> (s\<lparr>sv_registry := r\<rparr>, httpError e 500)
               | (r, Inr None) \<Rightarrow> (s\<lparr>sv_registry := r\<rparr>, notFound)
               | (r, Inr (Some substrate)) \<Rightarrow> (s\<lparr>sv_registry := r\<rparr>, writeJSON 200 (SubstrateResponse substrate)))
         else (s, methodNotAllowed [''GET'', ''DELETE'']))"

definition handleSessions :: "world \<Rightarrow> Server \<Rightarrow> httpRequest \<Rightarrow> Server \<times> response" where
  "handleSessions wd s req =
     (if hr_Method req = ''GET''
      then let appRoot = trimSpace (lookupStr (hr_Query req) ''app_root'')
           in (s, writeJSON 200 (StatusResponse (if appRoot \<noteq> [] then FindByAppRoot (sv_registry s) appRoot
                                                 else ListSessions (sv_registry s))))
      else if hr_Method req = ''POST''
      then (case jd_register (wd_codec wd) (hr_Body req) of
              Inl e \<Rightarrow> (s, httpError e 400)
            | Inr register \<Rightarrow>
              (case Upsert (wd_env wd) (wd_writeOK wd) (wd_manifestOK wd) (sv_registry s) register of
                 (r, Inl e) \<Rightarrow> (s\<lparr>sv_registry := r\<rparr>, httpError e 400)
               | (r, Inr session) \<Rightarrow> (s\<lparr>sv_registry := r\<rparr>, writeJSON 200 (RegisterResponse session False))))
      else (s, methodNotAllowed [''GET'', ''POST'']))"

text \<open>The owner a delete request names: \<open>None\<close> is a bad request.\<close>

definition requestedPID :: "httpRequest \<Rightarrow> int option" where
  "requestedPID req =
     (let raw = trimSpace (lookupStr (hr_Query req) ''owner_pid'')
      in if raw = [] then Some 0
         else if raw = ''none'' then Some (-1)
         else case atoi raw of None \<Rightarrow> None | Some parsed \<Rightarrow> if parsed \<le> 0 then None else Some parsed)"

definition requestedOwner :: "httpRequest \<Rightarrow> int \<Rightarrow> Owner" where
  "requestedOwner req ownerPID =
     (if ownerPID > 0
      then noOwner\<lparr>ow_PID := ownerPID, ow_StartedAt := trimSpace (lookupStr (hr_Query req) ''owner_started_at''),
                   ow_CmdlineHash := trimSpace (lookupStr (hr_Query req) ''owner_cmdline_hash''),
                   ow_Exe := trimSpace (lookupStr (hr_Query req) ''owner_exe'')\<rparr>
      else noOwner)"

text \<open>The processes a delete request interrupts: at most the owner of the session it removed.\<close>

definition signalled :: "agentEnv \<Rightarrow> httpRequest \<Rightarrow> Session \<Rightarrow> bool \<Rightarrow> int list" where
  "signalled env req session deleted =
     (if deleted \<and> lookupStr (hr_Query req) ''signal'' = ''1'' \<and> (ss_OwnerPID session > 0 \<or> ow_PID (ss_Owner session) > 0)
      then (case ownerForSignal env (ss_OwnerPID session) (ss_Owner session) of
              (_, Some e) \<Rightarrow> []
            | (owner, None) \<Rightarrow> [ow_PID owner])
      else [])"

definition handleSession :: "world \<Rightarrow> Server \<Rightarrow> httpRequest \<Rightarrow> Server \<times> response \<times> int list" where
  "handleSession wd s req =
     (let i = trimSet ''/'' (trimPrefix ''/v1/sessions/'' (hr_Path req))
      in if i = [] then (s, notFound, [])
         else if hr_Method req = ''GET''
         then (case Get (sv_registry s) i of
                 None \<Rightarrow> (s, notFound, [])
               | Some session \<Rightarrow> (s, writeJSON 200 (RegisterResponse session False), []))
         else if hr_Method req = ''DELETE''
         then (case requestedPID req of
                 None \<Rightarrow> (s, httpError ''owner_pid must be a positive integer or none'' 400, [])
               | Some ownerPID \<Rightarrow>
                 (case DeleteOwnedIdentity (wd_writeOK wd) (sv_registry s) i ownerPID (requestedOwner req ownerPID)
                         (lookupStr (hr_Query req) ''owner_strict'' = ''1'') of
                    (r, Inl e) \<Rightarrow> (s\<lparr>sv_registry := r\<rparr>, httpError e 500, [])
                  | (r, Inr (None, ok)) \<Rightarrow> (s\<lparr>sv_registry := r\<rparr>, notFound, [])
                  | (r, Inr (Some session, ok)) \<Rightarrow>
                    if \<not> ok \<and> ss_SessionID session = [] then (s\<lparr>sv_registry := r\<rparr>, notFound, [])
                    else (s\<lparr>sv_registry := r\<rparr>, writeJSON 200 (RegisterResponse session ok),
                          signalled (wd_env wd) req session ok)))
         else (s, methodNotAllowed [''GET'', ''DELETE''], []))"

text \<open>
  \<open>http.ServeMux\<close> with the six patterns: a path that is not clean is redirected, a pattern that ends in a slash
  matches every path below it.  A handler's result is its response, or the redirection.
\<close>

datatype answer = Answer response | RedirectTo string

definition muxClean :: "string \<Rightarrow> string" where
  "muxClean p =
     (let p = (if hasPrefix ''/'' p then p else CHR ''/'' # p); np = pathClean p
      in if hasSuffix ''/'' p \<and> np \<noteq> ''/'' then np @ ''/'' else np)"

definition controlMux :: "world \<Rightarrow> Server \<Rightarrow> httpRequest \<Rightarrow> Server \<times> answer \<times> int list" where
  "controlMux wd s req =
     (let p = hr_Path req
      in if muxClean p \<noteq> p then (s, RedirectTo (muxClean p), [])
         else if p = ''/v1/health'' then (s, Answer (handleHealth (wd_env wd) s req), [])
         else if p = ''/v1/tls/allow'' then (s, Answer (handleTLSAllow (wd_env wd) s req), [])
         else if p = ''/v1/sessions'' then (case handleSessions wd s req of (s, rs) \<Rightarrow> (s, Answer rs, []))
         else if hasPrefix ''/v1/sessions/'' p then (case handleSession wd s req of (s, rs, pids) \<Rightarrow> (s, Answer rs, pids))
         else if p = ''/v1/substrates'' then (case handleSubstrates wd s req of (s, rs) \<Rightarrow> (s, Answer rs, []))
         else if hasPrefix ''/v1/substrates/'' p then (case handleSubstrate wd s req of (s, rs) \<Rightarrow> (s, Answer rs, []))
         else (s, Answer notFound, []))"

text \<open>The processes that \<open>Close\<close> interrupts, component by component.\<close>

definition componentInterrupt :: "agentEnv \<Rightarrow> Substrate \<Rightarrow> bool \<Rightarrow> string \<times> int \<Rightarrow> int list" where
  "componentInterrupt env sb verified np =
     (let (name, pid) = np
      in if pid \<le> 0 then []
         else let owner = (case map_of (sb_Owners sb) name of None \<Rightarrow> noOwner | Some w \<Rightarrow> w)
              in if ow_PID owner > 0
                 then (if ow_PID owner \<noteq> pid then []
                       else if snd (ownerForSignal env pid owner) \<noteq> None then []
                       else [pid])
                 else if \<not> verified then [] else [pid])"

definition substrateInterrupts :: "agentEnv \<Rightarrow> Substrate \<Rightarrow> int list" where
  "substrateInterrupts env sb =
     (let verified = ((sb_OwnerPID sb > 0 \<or> ow_PID (sb_Owner sb) > 0) \<and> snd (ownerForSignal env (sb_OwnerPID sb) (sb_Owner sb)) = None)
      in concat (map (componentInterrupt env sb verified) (sb_PIDs sb)))"

definition closeInterrupts :: "agentEnv \<Rightarrow> Server \<Rightarrow> int list" where
  "closeInterrupts env s = concat (map (substrateInterrupts env) (ListSubstrates (sv_registry s)))"

subsection \<open>The client\<close>

text \<open>
  The client talks to the control API over the Unix socket.  A redirection, which the library would follow, is
  kept as a result of its own: \<open>deleteOwned\<close> never sees one for an identifier that is a label.
\<close>

datatype clientError = HTTPError string string int payload | Redirected string | Unexpected payload

definition clientRequest :: "string \<Rightarrow> string \<Rightarrow> (string, string) gomap \<Rightarrow> string \<Rightarrow> httpRequest" where
  "clientRequest method path query body =
     \<lparr>hr_Method = method, hr_Host = ''unix'', hr_URLHost = ''unix'', hr_Path = path, hr_Query = query, hr_Header = [],
      hr_TLS = False, hr_RemoteAddr = ''@'', hr_Body = body\<rparr>"

definition doJSON :: "world \<Rightarrow> Server \<Rightarrow> httpRequest \<Rightarrow> Server \<times> (clientError + payload) \<times> int list" where
  "doJSON wd s req =
     (case controlMux wd s req of
        (s, RedirectTo p, pids) \<Rightarrow> (s, Inl (Redirected p), pids)
      | (s, Answer rs, pids) \<Rightarrow>
        if rs_Status rs < 200 \<or> rs_Status rs \<ge> 300
        then (s, Inl (HTTPError (hr_Method req) (hr_Path req) (rs_Status rs) (rs_Body rs)), pids)
        else (s, Inr (rs_Body rs), pids))"

definition deletedResult :: "clientError + payload \<Rightarrow> clientError + Session \<times> bool" where
  "deletedResult res =
     (case res of Inl e \<Rightarrow> Inl e
      | Inr (RegisterResponse session deleted) \<Rightarrow> Inr (session, deleted)
      | Inr other \<Rightarrow> Inl (Unexpected other))"

definition deleteOwnedQuery :: "int \<Rightarrow> Owner \<Rightarrow> bool \<Rightarrow> bool \<Rightarrow> (string, string) gomap" where
  "deleteOwnedQuery ownerPID owner strict signal =
     (if signal then [(''signal'', ''1'')] else [])
     @ (if ownerPID > 0 then [(''owner_pid'', itoa ownerPID)] else [])
     @ (if strict then [(''owner_strict'', ''1'')] else [])
     @ (if ow_PID owner = ownerPID \<and> ow_PID owner > 0
        then (if ow_StartedAt owner \<noteq> [] then [(''owner_started_at'', ow_StartedAt owner)] else [])
             @ (if ow_CmdlineHash owner \<noteq> [] then [(''owner_cmdline_hash'', ow_CmdlineHash owner)] else [])
             @ (if ow_Exe owner \<noteq> [] then [(''owner_exe'', ow_Exe owner)] else [])
        else [])"

definition deleteOwned ::
  "world \<Rightarrow> Server \<Rightarrow> string \<Rightarrow> int \<Rightarrow> Owner \<Rightarrow> bool \<Rightarrow> bool \<Rightarrow> Server \<times> (clientError + Session \<times> bool) \<times> int list" where
  "deleteOwned wd s sessionID ownerPID owner strict signal =
     (case doJSON wd s (clientRequest ''DELETE'' (''/v1/sessions/'' @ sessionID) (deleteOwnedQuery ownerPID owner strict signal) []) of
        (s, res, pids) \<Rightarrow> (s, deletedResult res, pids))"

definition DeleteUnowned :: "world \<Rightarrow> Server \<Rightarrow> string \<Rightarrow> Server \<times> (clientError + Session \<times> bool) \<times> int list" where
  "DeleteUnowned wd s sessionID =
     (case doJSON wd s (clientRequest ''DELETE'' (''/v1/sessions/'' @ sessionID) [(''owner_pid'', ''none'')] []) of
        (s, res, pids) \<Rightarrow> (s, deletedResult res, pids))"

definition DeleteOwnedSession ::
  "world \<Rightarrow> Server \<Rightarrow> Session \<Rightarrow> bool \<Rightarrow> Server \<times> (clientError + Session \<times> bool) \<times> int list" where
  "DeleteOwnedSession wd s session signal =
     (let ownerPID = firstPositive [ss_OwnerPID session, ow_PID (ss_Owner session)]
      in if ownerPID \<le> 0 then DeleteUnowned wd s (ss_SessionID session)
         else let owner = (if ow_PID (ss_Owner session) \<noteq> ownerPID then noOwner else ss_Owner session)
              in deleteOwned wd s (ss_SessionID session) ownerPID owner True signal)"

section \<open>The request router\<close>

lemma proxy_outs:
  "out \<in> set (snd (proxyBackendWithOptions up s req backend [] spa)) \<Longrightarrow>
     oq_Addr out = bk_Addr backend \<and> oq_Host out = hr_Host req \<and> oq_ForwardedHost out = hr_Host req
     \<and> oq_ForwardedProto out = forwardedProto s req \<and> oq_ForwardedPort out = forwardedPort s req"
  by (auto simp: proxyBackendWithOptions_def directRequest_def Let_def split: sum.splits if_splits)

lemma routeTarget_registered:
  assumes "regInv (sv_registry s)" "routeTargetForHost s host = Some (session, kind)"
  shows "map_of (reg_sessions (sv_registry s)) (ss_SessionID session) = Some session"
proof -
  obtain i where "map_of (reg_sessions (sv_registry s)) i = Some session"
    using assms(2) by (auto simp: routeTargetForHost_def RouteTargetForHost_def Let_def split: if_splits option.splits)
  moreover from this have "ss_SessionID session = i" using assms(1) unfolding regInv_def keyed_def by blast
  ultimately show ?thesis by simp
qed

text \<open>The backend a routed request may reach.\<close>

definition reachable :: "Server \<Rightarrow> httpRequest \<Rightarrow> Session \<Rightarrow> string \<Rightarrow> Backend \<Rightarrow> bool" where
  "reachable s req session kind b =
     (if kind = RouteDashboard
      then (if bk_Addr (sv_dashboard s) \<noteq> [] then b = sv_dashboard s else map_of (ss_Backends session) RouteDashboard = Some b)
      else if isFrontendSessionBackend kind \<and> cleanRequestPath (hr_Path req) = ''/__scenery/config''
      then map_of (ss_Backends session) RouteAPI = Some b
      else map_of (ss_Backends session) kind = Some b
           \<and> \<not> (isFrontendSessionBackend kind \<and> isProtectedFrontendPath (cleanRequestPath (hr_Path req))))"

lemma routerMux_outs:
  assumes "out \<in> set (snd (routerMux env up s req))"
  obtains session kind b spa where "routeTargetForHost s (requestHost req) = Some (session, kind)"
    "reachable s req session kind b" "out \<in> set (snd (proxyBackendWithOptions up s req b [] spa))"
proof -
  have "cleanRequestPath (hr_Path req) \<noteq> ''/v1/tls/allow''" using assms by (auto simp: routerMux_def)
  with assms obtain session kind where t: "routeTargetForHost s (requestHost req) = Some (session, kind)"
      "out \<in> set (snd (if kind = RouteDashboard then handleConsole up s req session
         else case map_of (ss_Backends session) kind of None \<Rightarrow> (notFound, [])
              | Some backend \<Rightarrow> if isFrontendSessionBackend kind then handleFrontendRoute up s req session backend
                               else proxyBackend up s req backend []))"
    by (auto simp: routerMux_def split: option.splits)
  show ?thesis
  proof (cases "kind = RouteDashboard")
    case True
    with t show ?thesis
      by (intro that [OF t(1), of "if bk_Addr (sv_dashboard s) \<noteq> [] then sv_dashboard s
                                     else the (map_of (ss_Backends session) RouteDashboard)" False])
         (auto simp: handleConsole_def proxyBackend_def reachable_def split: option.splits if_splits)
  next
    case nd: False
    then obtain b where b: "map_of (ss_Backends session) kind = Some b"
        "out \<in> set (snd (if isFrontendSessionBackend kind then handleFrontendRoute up s req session b
                          else proxyBackend up s req b []))"
      using t(2) by (auto split: option.splits)
    show ?thesis
    proof (cases "isFrontendSessionBackend kind \<and> cleanRequestPath (hr_Path req) = ''/__scenery/config''")
      case True
      with b nd show ?thesis
        by (intro that [OF t(1), of "the (map_of (ss_Backends session) RouteAPI)" False])
           (auto simp: handleFrontendRoute_def proxyBackend_def reachable_def split: option.splits if_splits)
    next
      case False
      with b nd show ?thesis
        by (intro that [OF t(1), of b "isFrontendSessionBackend kind \<and> shouldUseSPAFallback req"])
           (auto simp: handleFrontendRoute_def proxyBackend_def reachable_def Let_def split: option.splits if_splits)
    qed
  qed
qed


definition upServer :: Server where
  "upServer = \<lparr>sv_SocketPath = ''/run/agent.sock'', sv_registry = upRegistry, sv_routerAddr = ''127.0.0.1:80'',
     sv_publicRouterAddr = ''127.0.0.1:80'', sv_routerScheme = ''http'', sv_edge = None, sv_edgeToken = ''secret'',
     sv_dashboard = \<lparr>bk_Network = [], bk_Addr = []\<rparr>\<rparr>"

definition getRequest :: "string \<Rightarrow> string \<Rightarrow> httpRequest" where
  "getRequest host path = \<lparr>hr_Method = ''GET'', hr_Host = host, hr_URLHost = [], hr_Path = path, hr_Query = [],
     hr_Header = [(''X-Forwarded-Proto'', ''https''), (''X-Scenery-Edge-Token'', ''secret'')], hr_TLS = False,
     hr_RemoteAddr = ''10.0.0.5:999'', hr_Body = []\<rparr>"


section \<open>Interrupts\<close>

lemma ownerForSignal_verified:
  "ownerForSignal env pid owner = (owner', None) \<Longrightarrow>
     VerifyOwner env owner' = None \<and> 0 < ow_PID owner' \<and> ow_PID owner' \<in> {pid, ow_PID owner}
     \<and> (owner' = owner\<lparr>ow_PID := ow_PID owner'\<rparr> \<or> owner' = noOwner\<lparr>ow_PID := ow_PID owner'\<rparr>)"
  by (auto simp: ownerForSignal_def Let_def noOwner_def split: if_splits)

lemma verified_has_fingerprint: "VerifyOwner env owner = None \<Longrightarrow> \<not> (ow_StartedAt owner = [] \<and> ow_CmdlineHash owner = [] \<and> ow_Exe owner = [])"
  by (auto simp: VerifyOwner_def Let_def split: if_splits)

lemma signalled_cases:
  assumes "pid \<in> set (signalled env req session ok)"
  shows "ok" "\<exists>owner. ownerForSignal env (ss_OwnerPID session) (ss_Owner session) = (owner, None) \<and> pid = ow_PID owner"
proof -
  let ?g = "ok \<and> lookupStr (hr_Query req) ''signal'' = ''1'' \<and> (ss_OwnerPID session > 0 \<or> ow_PID (ss_Owner session) > 0)"
  have g: ?g
  proof (rule ccontr)
    assume n: "\<not> ?g"
    show False using assms unfolding signalled_def if_not_P [OF n] by simp
  qed
  then show ok by simp
  obtain w e where we: "ownerForSignal env (ss_OwnerPID session) (ss_Owner session) = (w, e)" by (meson surj_pair)
  show "\<exists>owner. ownerForSignal env (ss_OwnerPID session) (ss_Owner session) = (owner, None) \<and> pid = ow_PID owner"
    using assms we unfolding signalled_def if_P [OF g] by (cases e) simp_all
qed

lemma handleSession_signals:
  assumes "handleSession wd s req = (s', rs, pids)" "pid \<in> set pids"
  obtains session r where
    "DeleteOwnedIdentity (wd_writeOK wd) (sv_registry s) (trimSet ''/'' (trimPrefix ''/v1/sessions/'' (hr_Path req)))
       (the (requestedPID req)) (requestedOwner req (the (requestedPID req))) (lookupStr (hr_Query req) ''owner_strict'' = ''1'')
     = (r, Inr (Some session, True))"
    "s' = s\<lparr>sv_registry := r\<rparr>" "pid \<in> set (signalled (wd_env wd) req session True)"
proof -
  define i where "i = trimSet ''/'' (trimPrefix ''/v1/sessions/'' (hr_Path req))"
  have g: "i \<noteq> []" "hr_Method req \<noteq> ''GET''" "hr_Method req = ''DELETE''"
    using assms by (auto simp: handleSession_def i_def Let_def split: if_splits option.splits)
  obtain op where op: "requestedPID req = Some op"
    using assms g by (cases "requestedPID req") (auto simp: handleSession_def i_def Let_def)
  obtain r res where d: "DeleteOwnedIdentity (wd_writeOK wd) (sv_registry s) i op (requestedOwner req op)
      (lookupStr (hr_Query req) ''owner_strict'' = ''1'') = (r, res)" by (meson surj_pair)
  have h: "handleSession wd s req = (case res of
        Inl e \<Rightarrow> (s\<lparr>sv_registry := r\<rparr>, httpError e 500, [])
      | Inr (None, ok) \<Rightarrow> (s\<lparr>sv_registry := r\<rparr>, notFound, [])
      | Inr (Some session, ok) \<Rightarrow>
        if \<not> ok \<and> ss_SessionID session = [] then (s\<lparr>sv_registry := r\<rparr>, notFound, [])
        else (s\<lparr>sv_registry := r\<rparr>, writeJSON 200 (RegisterResponse session ok), signalled (wd_env wd) req session ok))"
    unfolding handleSession_def Let_def i_def [symmetric] using g op d by (simp split: sum.split option.split prod.split)
  obtain session ok where res: "res = Inr (Some session, ok)" "pids = signalled (wd_env wd) req session ok" "s' = s\<lparr>sv_registry := r\<rparr>"
  proof (cases res)
    case (Inl e)
    with h assms show ?thesis by simp
  next
    case (Inr p)
    obtain so ok where p: "p = (so, ok)" by (cases p)
    show ?thesis
    proof (cases so)
      case None
      with h assms Inr p show ?thesis by simp
    next
      case (Some session)
      with h assms Inr p show ?thesis by (intro that [of session ok]) (auto split: if_splits)
    qed
  qed
  have ok: "ok = True" using signalled_cases(1) assms(2) res(2) by blast
  have "DeleteOwnedIdentity (wd_writeOK wd) (sv_registry s) i op (requestedOwner req op)
      (lookupStr (hr_Query req) ''owner_strict'' = ''1'') = (r, Inr (Some session, True))"
    using d res(1) ok by simp
  then show ?thesis
    using that [of r session] res(2,3) assms(2) unfolding op option.sel i_def [symmetric] ok by blast
qed

text \<open>
  (C17) A control request interrupts at most the owner of the session it removed, and only a process whose recorded
  fingerprint verifies against the live one: the session was registered, is gone afterwards, and
  the interrupted process is its owner, with a fingerprint on record that agrees with the process table.
\<close>

theorem interrupt_only_verified_owner:
  assumes "controlMux wd s req = (s', a, pids)" "pid \<in> set pids"
  shows "\<exists>i session. map_of (reg_sessions (sv_registry s)) i = Some session
           \<and> map_of (reg_sessions (sv_registry s')) i = None
           \<and> VerifyOwner (wd_env wd) ((ss_Owner session)\<lparr>ow_PID := pid\<rparr>) = None
           \<and> pid \<in> {ss_OwnerPID session, ow_PID (ss_Owner session)}"
proof -
  obtain rs where h: "handleSession wd s req = (s', rs, pids)"
    using assms by (auto simp: controlMux_def Let_def split: if_splits prod.splits)
  obtain session r where d: "DeleteOwnedIdentity (wd_writeOK wd) (sv_registry s) (trimSet ''/'' (trimPrefix ''/v1/sessions/'' (hr_Path req)))
       (the (requestedPID req)) (requestedOwner req (the (requestedPID req))) (lookupStr (hr_Query req) ''owner_strict'' = ''1'')
     = (r, Inr (Some session, True))"
    "s' = s\<lparr>sv_registry := r\<rparr>" "pid \<in> set (signalled (wd_env wd) req session True)"
    by (rule handleSession_signals [OF h assms(2)])
  note gone = deleteSession_removed [OF d(1) [unfolded DeleteOwnedIdentity_def]]
  obtain owner where o: "ownerForSignal (wd_env wd) (ss_OwnerPID session) (ss_Owner session) = (owner, None)" "pid = ow_PID owner"
    using signalled_cases(2) [OF d(3)] by blast
  note v = ownerForSignal_verified [OF o(1)]
  have "owner \<noteq> noOwner\<lparr>ow_PID := ow_PID owner\<rparr>"
  proof
    assume e: "owner = noOwner\<lparr>ow_PID := ow_PID owner\<rparr>"
    have "ow_StartedAt owner = [] \<and> ow_CmdlineHash owner = [] \<and> ow_Exe owner = []"
      using arg_cong [OF e, of ow_StartedAt] arg_cong [OF e, of ow_CmdlineHash] arg_cong [OF e, of ow_Exe]
      by (simp add: noOwner_def)
    with verified_has_fingerprint v show False by blast
  qed
  with v have "owner = (ss_Owner session)\<lparr>ow_PID := pid\<rparr>" using o(2) by simp
  then have "VerifyOwner (wd_env wd) ((ss_Owner session)\<lparr>ow_PID := pid\<rparr>) = None" using v by simp
  moreover have "pid \<in> {ss_OwnerPID session, ow_PID (ss_Owner session)}" using v o(2) by simp
  moreover have "map_of (reg_sessions (sv_registry s')) (trimSpace (trimSet ''/'' (trimPrefix ''/v1/sessions/'' (hr_Path req)))) = None"
    using gone(3) d(2) by simp
  ultimately show ?thesis using gone(1) by blast
qed

definition plainWorld :: world where
  "plainWorld = \<lparr>wd_env = plainEnv, wd_codec = \<lparr>jd_register = (\<lambda>_. Inl ''bad''), jd_substrate = (\<lambda>_. Inl ''bad'')\<rparr>,
     wd_writeOK = True, wd_manifestOK = True\<rparr>"

definition stopRequest :: httpRequest where
  "stopRequest = clientRequest ''DELETE'' ''/v1/sessions/main-aaaaaa'' [(''signal'', ''1''), (''owner_pid'', ''42'')] []"

theorem interrupt_only_verified_owner_witness:
  "\<exists>i session. map_of (reg_sessions (sv_registry upServer)) i = Some session
     \<and> VerifyOwner plainEnv ((ss_Owner session)\<lparr>ow_PID := 42\<rparr>) = None"
proof -
  let ?c = "controlMux plainWorld upServer stopRequest"
  have "snd (snd ?c) = [42]" by code_simp
  then have "?c = (fst ?c, fst (snd ?c), [42])" by (metis prod.collapse)
  from interrupt_only_verified_owner [OF this, of 42] show ?thesis by (auto simp: plainWorld_def)
qed

text \<open>Every component process of a registered substrate has an owner record of its own.\<close>

definition ownedPIDs :: "Substrate \<Rightarrow> bool" where
  "ownedPIDs sb = (\<forall>(name, pid) \<in> set (sb_PIDs sb). pid > 0 \<and> (\<exists>w. map_of (sb_Owners sb) name = Some w \<and> ow_PID w = pid))"

definition subInv :: "Registry \<Rightarrow> bool" where
  "subInv r = (\<forall>sb \<in> snd ` set (reg_substrates r). ownedPIDs sb)"

lemma copyIntMap_props:
  "distinct (map fst (copyIntMap m))" "(k, v) \<in> set (copyIntMap m) \<Longrightarrow> v > 0"
proof -
  let ?P = "\<lambda>c :: (string, int) gomap. distinct (map fst c) \<and> (\<forall>(k, v) \<in> set c. v > 0)"
  have "?P (copyIntMap m)"
    unfolding copyIntMap_def
  proof (rule foldl_invariant)
    fix c :: "(string, int) gomap" and x :: "string \<times> int"
    assume c: "?P c"
    obtain k v where x: "x = (k, v)" by (cases x)
    show "?P (case x of (k, v) \<Rightarrow> let k = sanitizeLabel k in if k = [] \<or> v \<le> 0 then c else AList.update k v c)"
    proof (cases "sanitizeLabel k = [] \<or> v \<le> 0")
      case False
      then have "\<forall>(k, v) \<in> set (AList.update (sanitizeLabel k) v c). v > 0"
        using c set_update_subset [of "sanitizeLabel k" v c] by auto
      with c False show ?thesis by (simp add: x distinct_update)
    qed (use c x in auto)
  qed simp
  then show "distinct (map fst (copyIntMap m))" "(k, v) \<in> set (copyIntMap m) \<Longrightarrow> v > 0" by auto
qed

lemma foldl_updates:
  assumes "\<And>m n p. p > 0 \<Longrightarrow> \<exists>w. f m (n, p) = AList.update n w m \<and> ow_PID w = p"
    and "distinct (map fst ps)" "\<And>n p. (n, p) \<in> set ps \<Longrightarrow> p > 0" "(name, pid) \<in> set ps"
  shows "\<exists>w. map_of (foldl f c ps) name = Some w \<and> ow_PID w = pid"
  using assms(2-)
proof (induction ps rule: rev_induct)
  case (snoc x ps)
  obtain n p where x: "x = (n, p)" by (cases x)
  obtain w where w: "f (foldl f c ps) (n, p) = AList.update n w (foldl f c ps)" "ow_PID w = p"
    using assms(1) snoc.prems(2) x by (metis in_set_conv_decomp)
  have l: "map_of (foldl f c (ps @ [x])) name = (if name = n then Some w else map_of (foldl f c ps) name)"
    using w(1) by (simp add: x update_conv)
  show ?case
  proof (cases "name = n")
    case True
    with snoc.prems(1,3) have "pid = p" by (auto simp: x rev_image_eqI)
    with True l w(2) show ?thesis by simp
  next
    case False
    with snoc.prems(3) have "(name, pid) \<in> set ps" by (auto simp: x)
    moreover have "distinct (map fst ps)" "\<And>n p. (n, p) \<in> set ps \<Longrightarrow> p > 0" using snoc.prems(1,2) by auto
    ultimately have "\<exists>w. map_of (foldl f c ps) name = Some w \<and> ow_PID w = pid" using snoc.IH by blast
    with False l show ?thesis by simp
  qed
qed simp

lemma owners_cover:
  assumes "distinct (map fst pids)" "\<And>name pid. (name, pid) \<in> set pids \<Longrightarrow> pid > 0" "(name, pid) \<in> set pids"
  shows "\<exists>w. map_of (ownersForSubstrate env kind pids requested current) name = Some w \<and> ow_PID w = pid"
  unfolding ownersForSubstrate_def
  by (rule foldl_updates [OF _ assms]) (auto simp: Let_def OwnerFromRequest_PID)

lemma UpsertSubstrate_subInv: "subInv r \<Longrightarrow> subInv (fst (UpsertSubstrate env w r req))"
proof (cases "sanitizeLabel (us_Kind req) = []")
  case False
  assume inv: "subInv r"
  obtain sb where sb: "reg_substrates (fst (UpsertSubstrate env w r req)) = AList.update (sanitizeLabel (us_Kind req)) sb (reg_substrates r)"
      "sb_PIDs sb = copyIntMap (us_PIDs req)"
      "sb_Owners sb = ownersForSubstrate env (sanitizeLabel (us_Kind req)) (copyIntMap (us_PIDs req)) (us_Owners req)
         (map_of (reg_substrates r) (sanitizeLabel (us_Kind req)))"
    using False by (simp add: UpsertSubstrate_def Let_def saveLocked_def)
  have "ownedPIDs sb"
    unfolding ownedPIDs_def sb(2,3) using owners_cover [OF copyIntMap_props] copyIntMap_props(2) by fast
  then show ?thesis
    using inv set_update_subset [of "sanitizeLabel (us_Kind req)" sb "reg_substrates r"] unfolding subInv_def sb(1) by fastforce
qed (simp add: UpsertSubstrate_def)

lemma subInv_only: "reg_substrates r' = reg_substrates r \<Longrightarrow> subInv r' = subInv r"
  by (simp add: subInv_def)

lemma claimHosts_substrates:
  "reg_substrates (fst (foldl (claimHost env s force) st hs)) = reg_substrates (fst st)"
proof -
  have "reg_substrates (fst (claimHost env s force st hr)) = reg_substrates (fst st)" for st hr
    by (auto simp: claimHost_def removeAliasFromSession_def Let_def split: prod.splits option.splits)
  then show ?thesis by (induction hs arbitrary: st) simp_all
qed

lemma claimAliases_substrates:
  assumes "claimAliases env s force r = (r', a, c)"
  shows "reg_substrates r' = reg_substrates r"
proof (cases "rn_Hosts (ss_RouteNamespace s) = []")
  case True
  with assms show ?thesis by (auto simp: claimAliases_def removeSessionAliases_def Let_def split: if_splits)
next
  case False
  let ?r = "r\<lparr>reg_aliases := filter (\<lambda>(h, a). \<not> (al_SessionID a = ss_SessionID s \<and> lookupStr (desiredAliases s) h = [])) (reg_aliases r)\<rparr>"
  obtain r2 a2 c2 where f: "foldl (claimHost env s force) (?r, [], []) (desiredAliases s) = (r2, a2, c2)"
    by (cases "foldl (claimHost env s force) (?r, [], []) (desiredAliases s)")
  have "r' = r2" using assms unfolding claimAliases_def Let_def f if_not_P [OF False] by simp
  then show ?thesis using claimHosts_substrates [of env s force "(?r, [], [])" "desiredAliases s"] f by simp
qed

lemma installSession_substrates:
  assumes "installSession env force s r = (r', s')"
  shows "reg_substrates r' = reg_substrates r"
proof -
  obtain r1 a c where cl: "claimAliases env s force r = (r1, a, c)" by (cases "claimAliases env s force r")
  have "reg_substrates r' = reg_substrates r1"
    using assms unfolding installSession_def Let_def cl by (auto simp: rebuildRouteHostIndex_def)
  with claimAliases_substrates [OF cl] show ?thesis by simp
qed

lemma Upsert_substrates: "reg_substrates (fst (Upsert env w m r req)) = reg_substrates r"
  by (cases rule: Upsert_cases [of env w m r req]) (simp_all add: installSession_substrates saveLocked_def)

lemma deleteSession_substrates: "reg_substrates (fst (deleteSession w r i pid ow strict)) = reg_substrates r"
  by (cases rule: deleteSession_cases [of w r i pid ow strict])
     (simp_all add: saveLocked_def rebuildRouteHostIndex_def promoteCurrent_def Let_def)

interpretation substrates: safe_machine freshRegistry regStep subInv
proof
  fix r assume "freshRegistry r"
  then show "subInv r" by (auto simp: freshRegistry_def OpenRegistry_def Let_def subInv_def)
next
  fix r r' assume inv: "subInv r" and step: "regStep r r'"
  show "subInv r'" using step
  proof cases
    case (upsert env req w m)
    then show ?thesis using inv by (simp add: subInv_only [OF Upsert_substrates])
  next
    case (delete w i pid ow strict)
    then show ?thesis using inv by (simp add: subInv_only [OF deleteSession_substrates])
  next
    case (upsertSubstrate env w sreq)
    then show ?thesis using inv by (simp add: UpsertSubstrate_subInv)
  next
    case (deleteSubstrate w kind)
    have "set (AList.delete k m) \<subseteq> set m" for k and m :: "(string, Substrate) gomap" by (auto simp: AList.delete_eq)
    then have "snd ` set (reg_substrates r') \<subseteq> snd ` set (reg_substrates r)"
      unfolding deleteSubstrate by (auto simp: DeleteSubstrate_def Let_def saveLocked_def split: option.splits)
    then show ?thesis using inv unfolding subInv_def by blast
  next
    case (rearrange ss as)
    then show ?thesis using inv by (simp add: subInv_def)
  qed
qed

text \<open>
  Shutting the agent down interrupts no stranger.  In every reachable state, each process that \<open>Close\<close>
  interrupts is a component of a registered substrate whose own owner record names that process and verifies against
  the process table: a process identifier that was reused since is never interrupted.
\<close>

lemma close_interrupts_verified:
  assumes "freshRegistry r0" "regStep\<^sup>*\<^sup>* r0 (sv_registry s)" "pid \<in> set (closeInterrupts env s)"
  shows "\<exists>sb name owner. sb \<in> snd ` set (reg_substrates (sv_registry s)) \<and> (name, pid) \<in> set (sb_PIDs sb)
           \<and> map_of (sb_Owners sb) name = Some owner \<and> ow_PID owner = pid \<and> VerifyOwner env owner = None"
proof -
  obtain sb v name where sb: "sb \<in> snd ` set (reg_substrates (sv_registry s))" "(name, pid) \<in> set (sb_PIDs sb)"
      "pid \<in> set (componentInterrupt env sb v (name, pid))"
    using assms(3) by (fastforce simp: closeInterrupts_def substrateInterrupts_def componentInterrupt_def ListSubstrates_def
        sortedSubstrates_def set_sortBy Let_def split: if_splits)
  have "subInv (sv_registry s)" by (rule substrates.reach_inv [OF assms(1,2)])
  then obtain w where w: "pid > 0" "map_of (sb_Owners sb) name = Some w" "ow_PID w = pid"
    using sb(1,2) unfolding subInv_def ownedPIDs_def by fast
  then have "snd (ownerForSignal env pid w) = None" using sb(3) by (simp add: componentInterrupt_def split: if_splits)
  then have "VerifyOwner env w = None" using w by (simp add: ownerForSignal_def Let_def)
  with sb w show ?thesis by blast
qed

definition dbRequest :: UpsertSubstrateRequest where
  "dbRequest = \<lparr>us_Kind = ''postgres'', us_Status = [], us_OwnerPID = 42, us_Owner = noOwner, us_PIDs = [(''db'', 42), (''gone'', 9)],
     us_Owners = [], us_URLs = [], us_Endpoints = [], us_LastExit = None, us_ComponentExits = []\<rparr>"

definition dbServer :: Server where
  "dbServer = upServer\<lparr>sv_registry := fst (UpsertSubstrate plainEnv True upRegistry dbRequest)\<rparr>"

lemma close_interrupts_verified_witness:
  "\<exists>(sb :: Substrate) name owner. (name, 42) \<in> set (sb_PIDs sb) \<and> map_of (sb_Owners sb) name = Some owner \<and> VerifyOwner plainEnv owner = None"
proof -
  have r: "regStep\<^sup>*\<^sup>* (OpenRegistry ''127.0.0.1:80'' [] None) (sv_registry dbServer)"
    using rtranclp.rtrancl_into_rtrancl [OF upRegistry_reached(2) regStep.upsertSubstrate [of upRegistry plainEnv True dbRequest]]
    by (simp add: dbServer_def upServer_def)
  have "closeInterrupts plainEnv dbServer = [42]" by code_simp
  then have "42 \<in> set (closeInterrupts plainEnv dbServer)" by simp
  from close_interrupts_verified [OF upRegistry_reached(1) r this] show ?thesis by blast
qed

section \<open>Client and server together\<close>

lemma label_path:
  assumes "isLabel i" "i \<noteq> []"
  shows "muxClean (''/v1/sessions/'' @ i) = ''/v1/sessions/'' @ i" "trimSet ''/'' (trimPrefix ''/v1/sessions/'' (''/v1/sessions/'' @ i)) = i"
proof -
  have c: "c \<noteq> CHR ''/'' \<and> c \<noteq> CHR ''.''" if "c \<in> set i" for c
    using that assms(1) by (auto simp: isLabel_def list_all_iff labelChar_def isLowerLetter_def isDigit_def Let_def)
  then have slash: "CHR ''/'' \<notin> set i" and dots: "i \<noteq> ''.''" "i \<noteq> ''..''" by fastforce+
  have sp: "splitOn CHR ''/'' (''/v1/sessions/'' @ i) = [[], ''v1'', ''sessions'', i]"
    using splitOn_joinWith [of "[[], ''v1'', ''sessions'', i]" "CHR ''/''"] slash by simp
  have "pathClean (''/v1/sessions/'' @ i) = ''/v1/sessions/'' @ i"
    unfolding pathClean_def sp using assms(2) dots by (simp add: pathRooted_def hasPrefix_def)
  moreover have "\<not> hasSuffix ''/'' (''/v1/sessions/'' @ i)"
    using assms(2) slash by (cases i rule: rev_cases) (auto simp: hasSuffix_def hasPrefix_def)
  ultimately show "muxClean (''/v1/sessions/'' @ i) = ''/v1/sessions/'' @ i" by (simp add: muxClean_def hasPrefix_def Let_def)
  have "hd i \<noteq> CHR ''/''" "last i \<noteq> CHR ''/''" using assms(2) slash by (metis hd_in_set, metis last_in_set)
  then have "trimSet ''/'' i = i"
    unfolding trimSet_def by (intro trimBy_fixed) simp
  then show "trimSet ''/'' (trimPrefix ''/v1/sessions/'' (''/v1/sessions/'' @ i)) = i"
    by (simp add: trimPrefix_def hasPrefix_def)
qed

lemma itoa_positive:
  assumes "0 < n" "n \<le> int64_max"
  shows "trimSpace (itoa n) = itoa n" "itoa n \<noteq> []" "itoa n \<noteq> ''none''" "atoi (itoa n) = Some n"
proof -
  have d: "list_all isDigit (itoa n)" "itoa n \<noteq> []" using assms(1) itoaNat_digits [of "nat n"] by (simp_all add: itoa_def)
  have sp: "\<not> isSpace c" if "isDigit c" for c using that by (auto simp: isDigit_def isSpace_def Let_def)
  show "trimSpace (itoa n) = itoa n"
    unfolding trimSpace_def using d sp by (intro trimBy_fixed) (auto simp: list_all_iff)
  show "itoa n \<noteq> []" by (rule d(2))
  show "itoa n \<noteq> ''none''" using d(1) by (auto simp: isDigit_def)
  show "atoi (itoa n) = Some n" using assms by (intro atoi_itoa) (simp_all add: int64_min_def)
qed

lemma deleteOwnedQuery_lookups:
  "lookupStr (deleteOwnedQuery pid w strict sig) ''owner_pid'' = (if pid > 0 then itoa pid else [])"
  "lookupStr (deleteOwnedQuery pid w strict sig) ''owner_strict'' = (if strict then ''1'' else [])"
  "lookupStr (deleteOwnedQuery pid w strict sig) ''signal'' = (if sig then ''1'' else [])"
  "lookupStr (deleteOwnedQuery pid w strict sig) ''owner_started_at'' = (if ow_PID w = pid \<and> pid > 0 then ow_StartedAt w else [])"
  "lookupStr (deleteOwnedQuery pid w strict sig) ''owner_cmdline_hash'' = (if ow_PID w = pid \<and> pid > 0 then ow_CmdlineHash w else [])"
  "lookupStr (deleteOwnedQuery pid w strict sig) ''owner_exe'' = (if ow_PID w = pid \<and> pid > 0 then ow_Exe w else [])"
  by (auto simp: lookupStr_def deleteOwnedQuery_def)

text \<open>What the server does with a deletion the client asked for.\<close>

lemma doJSON_delete:
  assumes "isLabel i" "i \<noteq> []" "req = clientRequest ''DELETE'' (''/v1/sessions/'' @ i) q []" "requestedPID req = Some pid"
  shows "doJSON wd s req =
    (case deleteSession (wd_writeOK wd) (sv_registry s) i pid (requestedOwner req pid) (lookupStr q ''owner_strict'' = ''1'') of
       (r, Inl e) \<Rightarrow> (s\<lparr>sv_registry := r\<rparr>, Inl (HTTPError ''DELETE'' (hr_Path req) 500 (Text e)), [])
     | (r, Inr (None, ok)) \<Rightarrow> (s\<lparr>sv_registry := r\<rparr>, Inl (HTTPError ''DELETE'' (hr_Path req) 404 (rs_Body notFound)), [])
     | (r, Inr (Some session, ok)) \<Rightarrow>
       if \<not> ok \<and> ss_SessionID session = [] then (s\<lparr>sv_registry := r\<rparr>, Inl (HTTPError ''DELETE'' (hr_Path req) 404 (rs_Body notFound)), [])
       else (s\<lparr>sv_registry := r\<rparr>, Inr (RegisterResponse session ok), signalled (wd_env wd) req session ok))"
proof -
  have p: "hr_Path req = ''/v1/sessions/'' @ i" "hr_Method req = ''DELETE''" "hr_Query req = q"
    using assms(3) by (simp_all add: clientRequest_def)
  have h: "handleSession wd s req =
    (case deleteSession (wd_writeOK wd) (sv_registry s) i pid (requestedOwner req pid) (lookupStr q ''owner_strict'' = ''1'') of
       (r, Inl e) \<Rightarrow> (s\<lparr>sv_registry := r\<rparr>, httpError e 500, [])
     | (r, Inr (None, ok)) \<Rightarrow> (s\<lparr>sv_registry := r\<rparr>, notFound, [])
     | (r, Inr (Some session, ok)) \<Rightarrow>
       if \<not> ok \<and> ss_SessionID session = [] then (s\<lparr>sv_registry := r\<rparr>, notFound, [])
       else (s\<lparr>sv_registry := r\<rparr>, writeJSON 200 (RegisterResponse session ok), signalled (wd_env wd) req session ok))"
    unfolding handleSession_def p label_path(2) [OF assms(1,2)] DeleteOwnedIdentity_def using assms(2,4) by simp
  have "controlMux wd s req = (case handleSession wd s req of (s, rs, pids) \<Rightarrow> (s, Answer rs, pids))"
    unfolding controlMux_def p using label_path(1) [OF assms(1,2)] by (simp add: hasPrefix_def)
  then show ?thesis
    unfolding doJSON_def h p
    by (auto simp: httpError_def notFound_def writeJSON_def reply_def split: prod.splits sum.splits option.splits)
qed

text \<open>A deletion request of the client for a copy of a session, as the server reads it.\<close>

lemma DeleteOwnedSession_server:
  assumes "isLabel (ss_SessionID t)" "ss_SessionID t \<noteq> []" "sessionPID t \<le> int64_max"
    and "DeleteOwnedSession wd s t sig = (s', Inr (u, ok), pids)"
  obtains r pid w strict where "s' = s\<lparr>sv_registry := r\<rparr>"
    "deleteSession (wd_writeOK wd) (sv_registry s) (ss_SessionID t) pid w strict = (r, Inr (Some u, ok))"
    "if sessionPID t \<le> 0 then pid = -1
     else pid = sessionPID t \<and> strict \<and> w = noOwner\<lparr>ow_PID := pid,
            ow_StartedAt := trimSpace (if ow_PID (ss_Owner t) = pid then ow_StartedAt (ss_Owner t) else []),
            ow_CmdlineHash := trimSpace (if ow_PID (ss_Owner t) = pid then ow_CmdlineHash (ss_Owner t) else []),
            ow_Exe := trimSpace (if ow_PID (ss_Owner t) = pid then ow_Exe (ss_Owner t) else [])\<rparr>"
proof -
  define q where "q = (if sessionPID t \<le> 0 then [(''owner_pid'', ''none'')]
    else deleteOwnedQuery (sessionPID t) (if ow_PID (ss_Owner t) \<noteq> sessionPID t then noOwner else ss_Owner t) True sig)"
  define req where "req = clientRequest ''DELETE'' (''/v1/sessions/'' @ ss_SessionID t) q []"
  define pid where "pid = (if sessionPID t \<le> 0 then -1 else sessionPID t)"
  have rq: "hr_Query req = q" by (simp add: req_def clientRequest_def)
  have d: "DeleteOwnedSession wd s t sig = (case doJSON wd s req of (s, res, pids) \<Rightarrow> (s, deletedResult res, pids))"
    unfolding DeleteOwnedSession_def sessionPID_def [symmetric] Let_def DeleteUnowned_def deleteOwned_def req_def q_def by simp
  have ts: "trimSpace ''none'' = ''none''" by code_simp
  have "requestedPID req = Some pid"
    using assms(3) itoa_positive [of "sessionPID t"]
    by (simp add: requestedPID_def rq q_def pid_def Let_def deleteOwnedQuery_lookups lookupStr_def [of "[(''owner_pid'', ''none'')]"] ts)
  note j = doJSON_delete [OF assms(1,2) req_def this, of wd s]
  obtain r res where del: "deleteSession (wd_writeOK wd) (sv_registry s) (ss_SessionID t) pid (requestedOwner req pid)
      (lookupStr q ''owner_strict'' = ''1'') = (r, res)" by (meson surj_pair)
  have "res = Inr (Some u, ok) \<and> s' = s\<lparr>sv_registry := r\<rparr>"
    using assms(4) unfolding d j del by (auto simp: deletedResult_def split: sum.splits option.splits if_splits prod.splits)
  with del show ?thesis
    by (intro that [of r pid "requestedOwner req pid" "lookupStr q ''owner_strict'' = ''1''"])
       (auto simp: pid_def requestedOwner_def rq q_def deleteOwnedQuery_lookups noOwner_def trimSpace_def trimBy_def)
qed

text \<open>
  (C7) A client cannot remove a session it does not know.  When the agent's client, holding a copy of a session that
  may be out of date, asks for its removal and the agent reports it as removed, the session that was registered under that
  identifier is gone and still had the owner of the copy: the same process with every fingerprint the copy
  carries (and at least one), or, for a copy without an owner, no owner.
\<close>

theorem client_removes_what_it_saw:
  assumes "isLabel (ss_SessionID t)" "ss_SessionID t \<noteq> []" "sessionPID t \<le> int64_max"
    and "DeleteOwnedSession wd s t sig = (s', Inr (u, True), pids)"
  shows "map_of (reg_sessions (sv_registry s)) (ss_SessionID t) = Some u
       \<and> map_of (reg_sessions (sv_registry s')) (ss_SessionID t) = None
       \<and> (if sessionPID t \<le> 0 then sessionPID u \<le> 0
          else sessionPID u = sessionPID t \<and> ow_PID (ss_Owner u) = ow_PID (ss_Owner t)
             \<and> ownerHasFingerprint (ss_Owner t)
             \<and> trimSpace (ow_StartedAt (ss_Owner t)) \<in> {[], ow_StartedAt (ss_Owner u)}
             \<and> trimSpace (ow_CmdlineHash (ss_Owner t)) \<in> {[], ow_CmdlineHash (ss_Owner u)}
             \<and> trimSpace (ow_Exe (ss_Owner t)) \<in> {[], ow_Exe (ss_Owner u)})"
proof -
  obtain r pid w strict where d: "s' = s\<lparr>sv_registry := r\<rparr>"
    "deleteSession (wd_writeOK wd) (sv_registry s) (ss_SessionID t) pid w strict = (r, Inr (Some u, True))"
    "if sessionPID t \<le> 0 then pid = -1
     else pid = sessionPID t \<and> strict \<and> w = noOwner\<lparr>ow_PID := pid,
            ow_StartedAt := trimSpace (if ow_PID (ss_Owner t) = pid then ow_StartedAt (ss_Owner t) else []),
            ow_CmdlineHash := trimSpace (if ow_PID (ss_Owner t) = pid then ow_CmdlineHash (ss_Owner t) else []),
            ow_Exe := trimSpace (if ow_PID (ss_Owner t) = pid then ow_Exe (ss_Owner t) else [])\<rparr>"
    by (rule DeleteOwnedSession_server [OF assms])
  note gone = deleteSession_removed [OF d(2), unfolded label_trimSpace [OF assms(1)]]
  have "if sessionPID t \<le> 0 then sessionPID u \<le> 0
          else sessionPID u = sessionPID t \<and> ow_PID (ss_Owner u) = ow_PID (ss_Owner t)
             \<and> ownerHasFingerprint (ss_Owner t)
             \<and> trimSpace (ow_StartedAt (ss_Owner t)) \<in> {[], ow_StartedAt (ss_Owner u)}
             \<and> trimSpace (ow_CmdlineHash (ss_Owner t)) \<in> {[], ow_CmdlineHash (ss_Owner u)}
             \<and> trimSpace (ow_Exe (ss_Owner t)) \<in> {[], ow_Exe (ss_Owner u)}"
  proof (cases "sessionPID t \<le> 0")
    case True
    with d(3) gone(5) show ?thesis by simp
  next
    case False
    then have "sessionOwnerIdentityMatches u pid w strict" using d(3) gone(6) by simp
    with False d(3) show ?thesis
      by (auto simp: sessionOwnerIdentityMatches_def ownerHasFingerprint_def noOwner_def Let_def split: if_splits)
  qed
  with gone(1,3) d(1) show ?thesis by simp
qed

theorem client_removes_what_it_saw_witness:
  "map_of (reg_sessions (sv_registry (fst (DeleteOwnedSession plainWorld upServer
     (the (map_of (reg_sessions upRegistry) ''main-aaaaaa'')) True)))) ''main-aaaaaa'' = None"
proof -
  let ?t = "the (map_of (reg_sessions upRegistry) ''main-aaaaaa'')"
  let ?d = "DeleteOwnedSession plainWorld upServer ?t True"
  have t: "ss_SessionID ?t = ''main-aaaaaa''" by code_simp
  have l: "isLabel (ss_SessionID ?t)" "ss_SessionID ?t \<noteq> []" unfolding t by code_simp+
  have "sessionPID ?t = 42" by code_simp
  then have p: "sessionPID ?t \<le> int64_max" by (simp add: int64_max_def)
  have "fst (snd ?d) = Inr (?t, True)" by code_simp
  then have "?d = (fst ?d, Inr (?t, True), snd (snd ?d))" by (metis prod.collapse)
  from client_removes_what_it_saw [OF l p this] show ?thesis unfolding t by blast
qed

end
