(* ===== verification/Errs.thy ===== *)
theory Errs
  imports GoPrelude
begin

text \<open>
  The coded errors of \<open>errs/error.go\<close>.  A Go \<open>error\<close> is \<open>None\<close> (nil) or a value of \<open>goerr\<close>: an
  \<open>*errs.Error\<close>, or a foreign error with its message and what it unwraps to.  The metadata map of
  an error is a reference into a store, because \<open>Wrap\<close> copies the struct but not the map and then
  writes to it; \<open>None\<close> is the nil map.  Nil pointers inside a non-nil interface are not modelled.
\<close>

section \<open>Definitions\<close>

type_synonym ErrCode = string

definition OK :: ErrCode where "OK = ''ok''"
definition Canceled :: ErrCode where "Canceled = ''canceled''"
definition Unknown :: ErrCode where "Unknown = ''unknown''"
definition InvalidArgument :: ErrCode where "InvalidArgument = ''invalid_argument''"
definition DeadlineExceeded :: ErrCode where "DeadlineExceeded = ''deadline_exceeded''"
definition NotFound :: ErrCode where "NotFound = ''not_found''"
definition AlreadyExists :: ErrCode where "AlreadyExists = ''already_exists''"
definition PermissionDenied :: ErrCode where "PermissionDenied = ''permission_denied''"
definition ResourceExhausted :: ErrCode where "ResourceExhausted = ''resource_exhausted''"
definition FailedPrecondition :: ErrCode where "FailedPrecondition = ''failed_precondition''"
definition Aborted :: ErrCode where "Aborted = ''aborted''"
definition OutOfRange :: ErrCode where "OutOfRange = ''out_of_range''"
definition Unimplemented :: ErrCode where "Unimplemented = ''unimplemented''"
definition Internal :: ErrCode where "Internal = ''internal''"
definition Unavailable :: ErrCode where "Unavailable = ''unavailable''"
definition DataLoss :: ErrCode where "DataLoss = ''data_loss''"
definition Unauthenticated :: ErrCode where "Unauthenticated = ''unauthenticated''"
definition Conflict :: ErrCode where "Conflict = ''conflict''"

lemmas code_defs = OK_def Canceled_def Unknown_def InvalidArgument_def DeadlineExceeded_def NotFound_def
  AlreadyExists_def PermissionDenied_def ResourceExhausted_def FailedPrecondition_def Aborted_def
  OutOfRange_def Unimplemented_def Internal_def Unavailable_def DataLoss_def Unauthenticated_def Conflict_def

text \<open>Values passed as \<open>...any\<close>: only strings are accepted as keys.\<close>

datatype mval = MString string | MOther int

type_synonym metaRef = "nat option"
type_synonym metaStore = "(string, mval) gomap list"

datatype goerr =
    SceneryErr (errCode: ErrCode) (errMessage: string) (errDetails: "mval option")
      (errMeta: metaRef) (errCause: "goerr option")
  | Foreign (foreignMessage: string) (foreignUnwrap: "goerr option")

fun Error :: "goerr \<Rightarrow> string" where
  "Error (SceneryErr code msg _ _ _) =
     (if msg \<noteq> [] then msg else if code \<noteq> [] then code else Unknown)"
| "Error (Foreign msg _) = msg"

text \<open>The method \<open>ErrorMessage\<close> of \<open>*errs.Error\<close>.\<close>

definition ErrorMessage :: "goerr \<Rightarrow> string" where
  "ErrorMessage e =
     (case errCause e of
        None \<Rightarrow> Error e
      | Some cause \<Rightarrow> if errMessage e = [] then Error cause else errMessage e @ '': '' @ Error cause)"

text \<open>\<open>errors.AsType[*Error]\<close>: the first scenery error along the chain of \<open>Unwrap\<close>.\<close>

fun As :: "goerr \<Rightarrow> goerr option" where
  "As (SceneryErr c m d mt ca) = Some (SceneryErr c m d mt ca)"
| "As (Foreign m None) = None"
| "As (Foreign m (Some e)) = As e"

fun putPairs :: "(string, mval) gomap \<Rightarrow> mval list \<Rightarrow> (string, mval) gomap" where
  "putPairs m (MString k # v # kv) = putPairs (AList.update k v m) kv"
| "putPairs m (MOther _ # v # kv) = putPairs m kv"
| "putPairs m _ = m"

definition mergeMeta :: "metaStore \<Rightarrow> metaRef \<Rightarrow> mval list \<Rightarrow> metaStore \<times> metaRef" where
  "mergeMeta st base kv =
     (if kv = [] then (st, base)
      else let (st, r) = (case base of None \<Rightarrow> (st @ [[]], length st) | Some r \<Rightarrow> (st, r))
           in (st[r := putPairs (st ! r) kv], Some r))"

subsection \<open>Builder\<close>

record Builder =
  b_code :: ErrCode
  b_msg :: string
  b_details :: "mval option"
  b_meta :: metaRef
  b_cause :: "goerr option"

definition B :: Builder where
  "B = \<lparr>b_code = Unknown, b_msg = [], b_details = None, b_meta = None, b_cause = None\<rparr>"

definition bCode :: "ErrCode \<Rightarrow> Builder \<Rightarrow> Builder" where "bCode c b = b\<lparr>b_code := c\<rparr>"
definition bMsg :: "string \<Rightarrow> Builder \<Rightarrow> Builder" where "bMsg m b = b\<lparr>b_msg := m\<rparr>"
definition bDetails :: "mval option \<Rightarrow> Builder \<Rightarrow> Builder" where "bDetails d b = b\<lparr>b_details := d\<rparr>"
definition bCause :: "goerr option \<Rightarrow> Builder \<Rightarrow> Builder" where "bCause e b = b\<lparr>b_cause := e\<rparr>"

definition bMeta :: "metaStore \<Rightarrow> mval list \<Rightarrow> Builder \<Rightarrow> metaStore \<times> Builder" where
  "bMeta st kv b =
     (if kv = [] then (st, b)
      else let (st, r) = (case b_meta b of None \<Rightarrow> (st @ [[]], length st) | Some r \<Rightarrow> (st, r))
           in (st[r := putPairs (st ! r) kv], b\<lparr>b_meta := Some r\<rparr>))"

definition bErr :: "Builder \<Rightarrow> goerr" where
  "bErr b =
     (let code = (if b_code b = [] \<or> b_code b = OK then Unknown else b_code b);
          msg = (case b_cause b of Some c \<Rightarrow> if b_msg b = [] then Error c else b_msg b | None \<Rightarrow> b_msg b);
          msg = (if msg = [] then ''unknown error'' else msg)
      in SceneryErr code msg (b_details b) (b_meta b) (b_cause b))"

subsection \<open>Wrapping\<close>

definition Wrap :: "metaStore \<Rightarrow> goerr option \<Rightarrow> string \<Rightarrow> mval list \<Rightarrow> metaStore \<times> goerr option" where
  "Wrap st err msg kv =
     (case err of None \<Rightarrow> (st, None)
      | Some e \<Rightarrow>
        (case As e of
           Some pe \<Rightarrow>
             let m = (if msg \<noteq> [] then msg else errMessage pe);
                 (st, mt) = (if kv \<noteq> [] then mergeMeta st (errMeta pe) kv else (st, errMeta pe))
             in (st, Some (SceneryErr (errCode pe) m (errDetails pe) mt (errCause pe)))
         | None \<Rightarrow>
             let m = (if msg = [] then Error e else msg);
                 (st, mt) = (if kv \<noteq> [] then mergeMeta st None kv else (st, None))
             in (st, Some (SceneryErr Internal m None mt (Some e)))))"

definition WrapCode ::
  "metaStore \<Rightarrow> goerr option \<Rightarrow> ErrCode \<Rightarrow> string \<Rightarrow> mval list \<Rightarrow> metaStore \<times> goerr option" where
  "WrapCode st err code msg kv =
     (case err of
        None \<Rightarrow> (if code = OK then (st, None)
                 else let (st, b) = bMeta st kv (bMsg msg (bCode code B)) in (st, Some (bErr b)))
      | Some e \<Rightarrow>
        (let (st, wrapped) = Wrap st (Some e) msg kv
         in (case wrapped of
               None \<Rightarrow> (st, None)
             | Some w \<Rightarrow>
               (case As w of
                  None \<Rightarrow> (st, wrapped)
                | Some pe \<Rightarrow>
                  (st, Some (SceneryErr (if code \<noteq> OK then code else errCode pe) (errMessage pe)
                         (errDetails pe) (errMeta pe) (errCause pe)))))))"

definition Convert :: "goerr option \<Rightarrow> goerr option" where
  "Convert err =
     (case err of None \<Rightarrow> None
      | Some e \<Rightarrow> (case As e of Some pe \<Rightarrow> Some pe | None \<Rightarrow> Some (SceneryErr Unknown (Error e) None None (Some e))))"

definition Code :: "goerr option \<Rightarrow> ErrCode" where
  "Code err =
     (case err of None \<Rightarrow> OK
      | Some e \<Rightarrow> (case As e of Some pe \<Rightarrow> if errCode pe \<noteq> [] then errCode pe else Unknown | None \<Rightarrow> Internal))"

definition Meta :: "goerr option \<Rightarrow> metaRef" where
  "Meta err = (case err of None \<Rightarrow> None | Some e \<Rightarrow> (case As e of Some pe \<Rightarrow> errMeta pe | None \<Rightarrow> None))"

definition Details :: "goerr option \<Rightarrow> mval option" where
  "Details err = (case err of None \<Rightarrow> None | Some e \<Rightarrow> (case As e of Some pe \<Rightarrow> errDetails pe | None \<Rightarrow> None))"

definition statusOfCode :: "ErrCode \<Rightarrow> nat" where
  "statusOfCode c =
     (if c = OK then 200
      else if c = Canceled then 499
      else if c = InvalidArgument \<or> c = FailedPrecondition \<or> c = OutOfRange then 400
      else if c = DeadlineExceeded then 504
      else if c = Unauthenticated then 401
      else if c = PermissionDenied then 403
      else if c = NotFound then 404
      else if c = AlreadyExists \<or> c = Aborted \<or> c = Conflict then 409
      else if c = ResourceExhausted then 429
      else if c = Unimplemented then 501
      else if c = Unavailable then 503
      else 500)"

definition HTTPStatus :: "goerr option \<Rightarrow> nat" where
  "HTTPStatus err = statusOfCode (Code err)"

subsection \<open>Error responses\<close>

text \<open>
  \<open>HTTPErrorWithCode\<close> writes the status and a JSON document.  The redaction of details and
  metadata (\<open>internal/redact\<close>) are the two function arguments.
\<close>

record errPayload =
  pl_code :: ErrCode
  pl_message :: string
  pl_details :: "mval option"
  pl_meta :: "(string, mval) gomap"

definition HTTPErrorWithCode ::
  "(mval option \<Rightarrow> mval option) \<Rightarrow> ((string, mval) gomap \<Rightarrow> (string, mval) gomap) \<Rightarrow>
   metaStore \<Rightarrow> goerr option \<Rightarrow> nat \<Rightarrow> nat \<times> errPayload" where
  "HTTPErrorWithCode redactValue redactMetadata st err status =
     (let status = (if status = 0 then HTTPStatus err else status);
          e = (case err of None \<Rightarrow> SceneryErr OK [] None None None | Some e \<Rightarrow> e);
          meta = (case Meta (Some e) of None \<Rightarrow> [] | Some r \<Rightarrow> st ! r)
      in (status, \<lparr>pl_code = Code (Some e), pl_message = Error e,
                   pl_details = redactValue (Details (Some e)), pl_meta = redactMetadata meta\<rparr>))"

section \<open>Lemmas\<close>

lemma As_idem: "As e = Some pe \<Longrightarrow> As pe = Some pe \<and> (\<exists>c m d mt ca. pe = SceneryErr c m d mt ca)"
  by (induction e rule: As.induct) auto

lemma As_bErr [simp]: "As (bErr b) = Some (bErr b)"
  by (simp add: bErr_def Let_def)

lemma statusOfCode_cases: "statusOfCode c \<in> {200, 400, 401, 403, 404, 409, 429, 499, 500, 501, 503, 504}"
  by (simp add: statusOfCode_def)

lemma statusOfCode_200: "statusOfCode c = 200 \<longleftrightarrow> c = OK"
  by (simp add: statusOfCode_def)

lemma Code_not_empty: "Code err \<noteq> []"
  by (auto simp: Code_def code_defs split: option.splits)

lemma Wrap_None: "Wrap st None msg kv = (st, None)"
  by (simp add: Wrap_def)

lemma Wrap_Some: "\<exists>st' e'. Wrap st (Some e) msg kv = (st', Some e')"
  by (auto simp: Wrap_def split: option.splits prod.splits)

lemma Wrap_As: "Wrap st (Some e) msg kv = (st', Some w) \<Longrightarrow>
    As w = Some w \<and> errCode w = (case As e of Some pe \<Rightarrow> errCode pe | None \<Rightarrow> Internal)"
  by (auto simp: Wrap_def Let_def split: option.splits prod.splits if_splits)

lemma Wrap_Code: "Code (snd (Wrap st err msg kv)) = Code err"
proof (cases err)
  case None
  then show ?thesis by (simp add: Wrap_def)
next
  case (Some e)
  obtain st' w where w: "Wrap st (Some e) msg kv = (st', Some w)" using Wrap_Some by blast
  with Wrap_As [OF w] Some show ?thesis
    by (auto simp: Code_def code_defs split: option.splits)
qed

lemma status_500: "statusOfCode Unknown = 500" "statusOfCode Internal = 500"
  by (simp_all add: statusOfCode_def code_defs)

lemma Convert_status: "statusOfCode (Code (Convert err)) = statusOfCode (Code err)"
proof (cases err)
  case (Some e)
  then show ?thesis
  proof (cases "As e")
    case None
    moreover have "Unknown \<noteq> []" by (simp add: Unknown_def)
    ultimately show ?thesis using Some by (simp add: Convert_def Code_def status_500)
  next
    case (Some pe)
    with As_idem [OF Some] \<open>err = Some e\<close> show ?thesis by (simp add: Convert_def Code_def)
  qed
qed (simp add: Convert_def)

section \<open>Properties\<close>

text \<open>
  Wrapping never changes the class of an error: the wrapped error has the same code, hence the
  same HTTP status, as the original, and nil stays nil.
\<close>

lemma wrap_keeps_code:
  "Code (snd (Wrap st err msg kv)) = Code err \<and> HTTPStatus (snd (Wrap st err msg kv)) = HTTPStatus err
   \<and> (snd (Wrap st err msg kv) = None) = (err = None)"
proof -
  have "(snd (Wrap st err msg kv) = None) = (err = None)"
    using Wrap_Some [of st "the err" msg kv] by (cases err) (auto simp: Wrap_None)
  then show ?thesis by (simp add: Wrap_Code HTTPStatus_def)
qed

text \<open>
  \<open>WrapCode\<close> gives the requested code to every non-nil error (an empty code reads as
  unknown), keeps the original code when asked for \<open>OK\<close>, and turns nil into an error exactly when
  the code is not \<open>OK\<close>; \<open>Convert\<close> keeps the HTTP status.
\<close>

lemma wrap_code_code:
  "Code (snd (WrapCode st (Some e) code msg kv))
      = (if code = OK then Code (Some e) else if code = [] then Unknown else code)
   \<and> (snd (WrapCode st None code msg kv) = None) = (code = OK)
   \<and> HTTPStatus (Convert err) = HTTPStatus err"
proof (intro conjI)
  obtain st' w where w: "Wrap st (Some e) msg kv = (st', Some w)" using Wrap_Some by blast
  have "Code (Some w) = Code (Some e)" using Wrap_Code [of st "Some e" msg kv] w by simp
  with w Wrap_As [OF w] show "Code (snd (WrapCode st (Some e) code msg kv))
      = (if code = OK then Code (Some e) else if code = [] then Unknown else code)"
    by (auto simp: WrapCode_def Code_def split: option.splits)
  show "(snd (WrapCode st None code msg kv) = None) = (code = OK)"
    by (auto simp: WrapCode_def split: prod.splits)
  show "HTTPStatus (Convert err) = HTTPStatus err"
    by (simp add: HTTPStatus_def Convert_status)
qed

text \<open>
  What the builder returns is always a proper error: whatever was set on it, its HTTP status
  is an error status and its text is not empty.
\<close>

lemma builder_makes_errors: "400 \<le> HTTPStatus (Some (bErr b)) \<and> Error (bErr b) \<noteq> []"
proof -
  have "errCode (bErr b) \<noteq> OK" "errCode (bErr b) \<noteq> []"
    by (auto simp: bErr_def Let_def code_defs)
  then have "Code (Some (bErr b)) \<noteq> OK" by (simp add: Code_def)
  then have "HTTPStatus (Some (bErr b)) \<noteq> 200" by (simp add: HTTPStatus_def statusOfCode_200)
  moreover have "HTTPStatus (Some (bErr b)) \<in> {200, 400, 401, 403, 404, 409, 429, 499, 500, 501, 503, 504}"
    unfolding HTTPStatus_def by (rule statusOfCode_cases)
  moreover have "Error (bErr b) \<noteq> []" by (simp add: bErr_def Let_def)
  ultimately show ?thesis by auto
qed

text \<open>
  Wrapping an error that has metadata writes the new pairs into the original's own map: the
  copy and the original share it, so the original error changes too.
\<close>

lemma wrap_mutates_original:
  assumes "As e = Some pe" "errMeta pe = Some r" "r < length st" "kv \<noteq> []"
  shows "Meta (snd (Wrap st (Some e) msg kv)) = Meta (Some e)
    \<and> fst (Wrap st (Some e) msg kv) ! r = putPairs (st ! r) kv"
  using assms by (simp add: Wrap_def mergeMeta_def Meta_def)

lemma wrap_mutates_original_witness:
  "let st = [[(''tenant'', MString ''a'')]]; e = SceneryErr NotFound ''x'' None (Some 0) None
   in map_of (fst (Wrap st (Some e) ''y'' [MString ''user'', MString ''u'']) ! 0) ''user'' = Some (MString ''u'')
      \<and> map_of (st ! 0) ''user'' = None"
  using wrap_mutates_original [of "SceneryErr NotFound ''x'' None (Some 0) None" _ 0
      "[[(''tenant'', MString ''a'')]]" "[MString ''user'', MString ''u'']" "''y''"]
  by simp

end
