(* ===== verification/AuthStore.thy ===== *)
theory AuthStore
  imports Errs
begin

text \<open>
  The database of the standard auth service: the tables of \<open>auth/db/gen/schema.sql\<close> and the queries of
  \<open>auth/db/queries.sql\<close> as functions on lists of rows.  A query that returns one row fails with \<open>NoRows\<close> when there is
  none; an insert fails with \<open>UniqueViolation\<close> when a unique index forbids it.  \<open>now()\<close> is an argument: it is the start
  of the transaction.  The columns \<open>created_at\<close>, \<open>updated_at\<close> and \<open>rotated_at\<close> are left out: rows are kept in the order of
  their creation, and nothing else reads them.  An action threads the database and may fail; a transaction that fails leaves the
  database as it was.
\<close>

section \<open>Definitions\<close>

subsection \<open>Rows\<close>

type_synonym uuid = nat
type_synonym instant = int

record userRow =
  u_ID :: uuid
  u_DisplayName :: string
  u_AvatarUrl :: string
  u_PrimaryEmail :: string
  u_NormalizedPrimaryEmail :: string
  u_EmailVerifiedAt :: "instant option"
  u_DisabledAt :: "instant option"
  u_CanImpersonateUsers :: bool

record identityRow =
  i_ID :: uuid
  i_UserID :: uuid
  i_Provider :: string
  i_ProviderSubject :: string
  i_Email :: string
  i_NormalizedEmail :: string
  i_PasswordHash :: string

record tenantRow =
  t_ID :: uuid
  t_Name :: string
  t_DeletedAt :: "instant option"

record membershipRow =
  m_ID :: uuid
  m_TenantID :: uuid
  m_UserID :: uuid
  m_Role :: string
  m_DisabledAt :: "instant option"
  m_InvitedByUserID :: "uuid option"
  m_InvitedAt :: "instant option"

record sessionRow =
  s_ID :: uuid
  s_UserID :: uuid
  s_TokenHash :: string
  s_PreviousTokenHash :: string
  s_PreviousTokenExpiresAt :: "instant option"
  s_ActiveTenantID :: "uuid option"
  s_ExpiresAt :: instant
  s_RevokedAt :: "instant option"
  s_RevokedReason :: string
  s_UserAgent :: string
  s_IpHash :: string
  s_ActorUserID :: "uuid option"
  s_ImpersonationID :: "uuid option"
  s_ImpersonationReason :: string

record tokenRow =
  k_ID :: uuid
  k_Purpose :: string
  k_TokenHash :: string
  k_UserID :: "uuid option"
  k_TenantID :: "uuid option"
  k_Email :: string
  k_NormalizedEmail :: string
  k_Metadata :: "(string, string) gomap"
  k_ExpiresAt :: instant
  k_ConsumedAt :: "instant option"

record attemptRow =
  a_ID :: uuid
  a_Purpose :: string
  a_NormalizedEmail :: string
  a_IpHash :: string
  a_WindowStartedAt :: instant
  a_AttemptCount :: int
  a_LastAttemptAt :: instant

record eventRow =
  e_ID :: uuid
  e_EventType :: string
  e_UserID :: "uuid option"
  e_ActorUserID :: "uuid option"
  e_TenantID :: "uuid option"
  e_SessionID :: "uuid option"
  e_IpHash :: string
  e_UserAgent :: string
  e_Metadata :: "(string, string) gomap"

record oauthRow =
  oa_ID :: uuid
  oa_StateHash :: string
  oa_PkceVerifier :: string
  oa_NonceHash :: string
  oa_RedirectPath :: string
  oa_ExpiresAt :: instant
  oa_ConsumedAt :: "instant option"

record EmailMessage =
  em_From :: string
  em_To :: "string list"
  em_Subject :: string
  em_Text :: string

text \<open>The last field is the mail handed to the configured sender so far; it is not part of the database.\<close>

record authDB =
  db_users :: "userRow list"
  db_identities :: "identityRow list"
  db_tenants :: "tenantRow list"
  db_memberships :: "membershipRow list"
  db_sessions :: "sessionRow list"
  db_tokens :: "tokenRow list"
  db_attempts :: "attemptRow list"
  db_events :: "eventRow list"
  db_oauthStates :: "oauthRow list"
  db_outbox :: "EmailMessage list"

definition emptyDB :: authDB where
  "emptyDB = \<lparr>db_users = [], db_identities = [], db_tenants = [], db_memberships = [], db_sessions = [], db_tokens = [],
     db_attempts = [], db_events = [], db_oauthStates = [], db_outbox = []\<rparr>"

subsection \<open>Actions\<close>

text \<open>Errors: a coded error of the service, a missing row, a violated unique index, a failed commit, any other error.\<close>

datatype authErr = Coded goerr | NoRows | UniqueViolation | CommitFailed | Plain string

type_synonym 'a action = "authDB \<Rightarrow> (authErr + 'a) \<times> authDB"

definition aret :: "'a \<Rightarrow> 'a action" where
  "aret a db = (Inr a, db)"

definition afail :: "authErr \<Rightarrow> 'a action" where
  "afail e db = (Inl e, db)"

definition abind :: "'a action \<Rightarrow> ('a \<Rightarrow> 'b action) \<Rightarrow> 'b action" where
  "abind m f db = (case m db of (Inl e, db') \<Rightarrow> (Inl e, db') | (Inr a, db') \<Rightarrow> f a db')"

definition aguard :: "bool \<Rightarrow> authErr \<Rightarrow> unit action" where
  "aguard ok e = (if ok then aret () else afail e)"

text \<open>Handling of an error: \<open>onNoRows\<close> replaces the error for a missing row.\<close>

definition onNoRows :: "'a action \<Rightarrow> authErr \<Rightarrow> 'a action" where
  "onNoRows m e' db = (case m db of (Inl e, db') \<Rightarrow> (Inl (if e = NoRows then e' else e), db') | r \<Rightarrow> r)"

text \<open>A lookup whose missing row is an answer; other errors pass through.\<close>

definition atry :: "'a action \<Rightarrow> 'a option action" where
  "atry m db = (case m db of (Inl e, db') \<Rightarrow> (if e = NoRows then (Inr None, db') else (Inl e, db')) | (Inr a, db') \<Rightarrow> (Inr (Some a), db'))"

definition onUnique :: "'a action \<Rightarrow> authErr \<Rightarrow> 'a action" where
  "onUnique m e' db = (case m db of (Inl e, db') \<Rightarrow> (Inl (if e = UniqueViolation then e' else e), db') | r \<Rightarrow> r)"

text \<open>A result that is ignored, error included.\<close>

definition aignore :: "'a action \<Rightarrow> unit action" where
  "aignore m db = (Inr (), snd (m db))"

definition withTx :: "bool \<Rightarrow> 'a action \<Rightarrow> 'a action" where
  "withTx commitOK m db =
     (case m db of
        (Inl e, _) \<Rightarrow> (Inl e, db)
      | (Inr a, db') \<Rightarrow> if commitOK then (Inr a, db') else (Inl CommitFailed, db))"

definition one :: "(authDB \<Rightarrow> 'a option) \<Rightarrow> 'a action" where
  "one f db = (case f db of None \<Rightarrow> (Inl NoRows, db) | Some a \<Rightarrow> (Inr a, db))"

definition reads :: "(authDB \<Rightarrow> 'a) \<Rightarrow> 'a action" where
  "reads f db = (Inr (f db), db)"

definition need :: "'a option \<Rightarrow> authErr \<Rightarrow> 'a action" where
  "need x e = (case x of None \<Rightarrow> afail e | Some a \<Rightarrow> aret a)"

definition liftE :: "authErr + 'a \<Rightarrow> 'a action" where
  "liftE r db = (r, db)"

subsection \<open>Queries\<close>

definition GetUserByID :: "uuid \<Rightarrow> userRow action" where
  "GetUserByID i = one (\<lambda>db. find (\<lambda>u. u_ID u = i) (db_users db))"

definition GetUserByNormalizedEmail :: "string \<Rightarrow> userRow action" where
  "GetUserByNormalizedEmail email = one (\<lambda>db. find (\<lambda>u. u_NormalizedPrimaryEmail u = email) (db_users db))"

definition CreateUser :: "userRow \<Rightarrow> userRow action" where
  "CreateUser u db =
     (if list_ex (\<lambda>v. u_ID v = u_ID u
            \<or> (u_NormalizedPrimaryEmail u \<noteq> [] \<and> u_NormalizedPrimaryEmail v = u_NormalizedPrimaryEmail u)) (db_users db)
      then (Inl UniqueViolation, db)
      else (Inr u, db\<lparr>db_users := db_users db @ [u]\<rparr>))"

definition MarkUserEmailVerified :: "instant \<Rightarrow> uuid \<Rightarrow> userRow action" where
  "MarkUserEmailVerified now i db =
     (let mark = (\<lambda>u. if u_ID u = i then u\<lparr>u_EmailVerifiedAt := Some (case u_EmailVerifiedAt u of None \<Rightarrow> now | Some t \<Rightarrow> t)\<rparr> else u);
          db' = db\<lparr>db_users := map mark (db_users db)\<rparr>
      in case find (\<lambda>u. u_ID u = i) (db_users db') of None \<Rightarrow> (Inl NoRows, db) | Some u \<Rightarrow> (Inr u, db'))"

definition UpdateUserProfileFromProvider :: "uuid \<Rightarrow> string \<Rightarrow> string \<Rightarrow> userRow action" where
  "UpdateUserProfileFromProvider i name avatar db =
     (let upd = (\<lambda>u. if u_ID u = i
                  then u\<lparr>u_DisplayName := (if name \<noteq> [] then name else u_DisplayName u),
                         u_AvatarUrl := (if avatar \<noteq> [] then avatar else u_AvatarUrl u)\<rparr> else u);
          db' = db\<lparr>db_users := map upd (db_users db)\<rparr>
      in case find (\<lambda>u. u_ID u = i) (db_users db') of None \<Rightarrow> (Inl NoRows, db) | Some u \<Rightarrow> (Inr u, db'))"

definition CreateAuthIdentity :: "identityRow \<Rightarrow> identityRow action" where
  "CreateAuthIdentity i db =
     (if list_ex (\<lambda>j. i_ID j = i_ID i \<or> (i_Provider j = i_Provider i \<and> i_ProviderSubject j = i_ProviderSubject i)) (db_identities db)
      then (Inl UniqueViolation, db)
      else (Inr i, db\<lparr>db_identities := db_identities db @ [i]\<rparr>))"

definition GetAuthIdentityByProviderSubject :: "string \<Rightarrow> string \<Rightarrow> identityRow action" where
  "GetAuthIdentityByProviderSubject provider subject =
     one (\<lambda>db. find (\<lambda>i. i_Provider i = provider \<and> i_ProviderSubject i = subject) (db_identities db))"

definition GetEmailIdentityForLogin :: "string \<Rightarrow> identityRow action" where
  "GetEmailIdentityForLogin email =
     one (\<lambda>db. find (\<lambda>i. i_Provider i = ''email'' \<and> i_ProviderSubject i = email) (db_identities db))"

definition UpdateIdentityPasswordHash :: "uuid \<Rightarrow> string \<Rightarrow> identityRow action" where
  "UpdateIdentityPasswordHash i h db =
     (let db' = db\<lparr>db_identities := map (\<lambda>j. if i_ID j = i then j\<lparr>i_PasswordHash := h\<rparr> else j) (db_identities db)\<rparr>
      in case find (\<lambda>j. i_ID j = i) (db_identities db') of None \<Rightarrow> (Inl NoRows, db) | Some j \<Rightarrow> (Inr j, db'))"

definition CreateTenant :: "uuid \<Rightarrow> string \<Rightarrow> tenantRow action" where
  "CreateTenant i name db =
     (let t = \<lparr>t_ID = i, t_Name = name, t_DeletedAt = None\<rparr>
      in if list_ex (\<lambda>x. t_ID x = i) (db_tenants db) then (Inl UniqueViolation, db)
         else (Inr t, db\<lparr>db_tenants := db_tenants db @ [t]\<rparr>))"

definition UpdateTenantName :: "uuid \<Rightarrow> string \<Rightarrow> tenantRow action" where
  "UpdateTenantName i name db =
     (let hit = (\<lambda>t. t_ID t = i \<and> t_DeletedAt t = None);
          db' = db\<lparr>db_tenants := map (\<lambda>t. if hit t then t\<lparr>t_Name := name\<rparr> else t) (db_tenants db)\<rparr>
      in case find hit (db_tenants db') of None \<Rightarrow> (Inl NoRows, db) | Some t \<Rightarrow> (Inr t, db'))"

definition SoftDeleteTenant :: "instant \<Rightarrow> uuid \<Rightarrow> tenantRow action" where
  "SoftDeleteTenant now i db =
     (let del = (\<lambda>t. if t_ID t = i then t\<lparr>t_DeletedAt := Some (case t_DeletedAt t of None \<Rightarrow> now | Some d \<Rightarrow> d)\<rparr> else t);
          db' = db\<lparr>db_tenants := map del (db_tenants db)\<rparr>
      in case find (\<lambda>t. t_ID t = i) (db_tenants db') of None \<Rightarrow> (Inl NoRows, db) | Some t \<Rightarrow> (Inr t, db'))"

definition activeMembership :: "uuid \<Rightarrow> uuid \<Rightarrow> membershipRow \<Rightarrow> bool" where
  "activeMembership user tenant m = (m_UserID m = user \<and> m_TenantID m = tenant \<and> m_DisabledAt m = None)"

text \<open>The upsert on the partial unique index of active memberships: a conflict overwrites the role.\<close>

definition CreateOrganizationMembership :: "membershipRow \<Rightarrow> membershipRow action" where
  "CreateOrganizationMembership m db =
     (let hit = activeMembership (m_UserID m) (m_TenantID m)
      in case find hit (db_memberships db) of
           Some old \<Rightarrow> (Inr (old\<lparr>m_Role := m_Role m\<rparr>),
             db\<lparr>db_memberships := map (\<lambda>x. if hit x then x\<lparr>m_Role := m_Role m\<rparr> else x) (db_memberships db)\<rparr>)
         | None \<Rightarrow>
           if list_ex (\<lambda>x. m_ID x = m_ID m) (db_memberships db) then (Inl UniqueViolation, db)
           else (Inr m, db\<lparr>db_memberships := db_memberships db @ [m]\<rparr>))"

definition GetActiveMembership :: "uuid \<Rightarrow> uuid \<Rightarrow> membershipRow action" where
  "GetActiveMembership user tenant = one (\<lambda>db. find (activeMembership user tenant) (db_memberships db))"

text \<open>The join with the tenants that are not deleted, ordered by the lower-case name, the name and the identifier.\<close>

definition tenantOf :: "authDB \<Rightarrow> uuid \<Rightarrow> tenantRow option" where
  "tenantOf db i = find (\<lambda>t. t_ID t = i) (db_tenants db)"

definition liveTenant :: "authDB \<Rightarrow> uuid \<Rightarrow> bool" where
  "liveTenant db i = (case tenantOf db i of None \<Rightarrow> False | Some t \<Rightarrow> t_DeletedAt t = None)"

definition tenantName :: "authDB \<Rightarrow> uuid \<Rightarrow> string" where
  "tenantName db i = (case tenantOf db i of None \<Rightarrow> [] | Some t \<Rightarrow> t_Name t)"

fun insertRow :: "('a \<Rightarrow> 'a \<Rightarrow> bool) \<Rightarrow> 'a \<Rightarrow> 'a list \<Rightarrow> 'a list" where
  "insertRow le x [] = [x]"
| "insertRow le x (y # ys) = (if le x y then x # y # ys else y # insertRow le x ys)"

definition orderRows :: "('a \<Rightarrow> 'a \<Rightarrow> bool) \<Rightarrow> 'a list \<Rightarrow> 'a list" where
  "orderRows le xs = foldr (insertRow le) xs []"

definition byName :: "authDB \<Rightarrow> membershipRow \<Rightarrow> membershipRow \<Rightarrow> bool" where
  "byName db a b =
     (let na = tenantName db (m_TenantID a); nb = tenantName db (m_TenantID b)
      in if toLower na \<noteq> toLower nb then toLower na < toLower nb
         else if na \<noteq> nb then na < nb else m_TenantID a \<le> m_TenantID b)"

definition ListUserMemberships :: "uuid \<Rightarrow> authDB \<Rightarrow> (membershipRow \<times> string) list" where
  "ListUserMemberships user db =
     map (\<lambda>m. (m, tenantName db (m_TenantID m)))
       (orderRows (byName db)
         (filter (\<lambda>m. m_UserID m = user \<and> m_DisabledAt m = None \<and> liveTenant db (m_TenantID m)) (db_memberships db)))"

text \<open>The join with the users, ordered by the lower-case display name, the lower-case address and the creation.\<close>

definition userOf :: "authDB \<Rightarrow> uuid \<Rightarrow> userRow option" where
  "userOf db i = find (\<lambda>u. u_ID u = i) (db_users db)"

definition byUser :: "membershipRow \<times> userRow \<Rightarrow> membershipRow \<times> userRow \<Rightarrow> bool" where
  "byUser a b =
     (let na = toLower (u_DisplayName (snd a)); nb = toLower (u_DisplayName (snd b))
      in if na \<noteq> nb then na < nb else toLower (u_PrimaryEmail (snd a)) \<le> toLower (u_PrimaryEmail (snd b)))"

definition ListTenantMembers :: "uuid \<Rightarrow> authDB \<Rightarrow> (membershipRow \<times> userRow) list" where
  "ListTenantMembers tenant db =
     orderRows byUser
       (concat (map (\<lambda>m. case userOf db (m_UserID m) of None \<Rightarrow> [] | Some u \<Rightarrow> [(m, u)])
         (filter (\<lambda>m. m_TenantID m = tenant) (db_memberships db))))"

definition CountActiveOwners :: "uuid \<Rightarrow> authDB \<Rightarrow> nat" where
  "CountActiveOwners tenant db =
     length (filter (\<lambda>m. m_TenantID m = tenant \<and> m_Role m = ''owner'' \<and> m_DisabledAt m = None) (db_memberships db))"

definition UpdateMembershipRole :: "uuid \<Rightarrow> uuid \<Rightarrow> string \<Rightarrow> membershipRow action" where
  "UpdateMembershipRole tenant user role db =
     (let hit = activeMembership user tenant;
          db' = db\<lparr>db_memberships := map (\<lambda>m. if hit m then m\<lparr>m_Role := role\<rparr> else m) (db_memberships db)\<rparr>
      in case find hit (db_memberships db') of None \<Rightarrow> (Inl NoRows, db) | Some m \<Rightarrow> (Inr m, db'))"

definition DisableMembership :: "instant \<Rightarrow> uuid \<Rightarrow> uuid \<Rightarrow> membershipRow action" where
  "DisableMembership now tenant user db =
     (let hit = (\<lambda>m. m_TenantID m = tenant \<and> m_UserID m = user);
          off = (\<lambda>m. if hit m then m\<lparr>m_DisabledAt := Some (case m_DisabledAt m of None \<Rightarrow> now | Some d \<Rightarrow> d)\<rparr> else m);
          db' = db\<lparr>db_memberships := map off (db_memberships db)\<rparr>
      in case find hit (db_memberships db') of None \<Rightarrow> (Inl NoRows, db) | Some m \<Rightarrow> (Inr m, db'))"

definition CreateRefreshSession :: "sessionRow \<Rightarrow> sessionRow action" where
  "CreateRefreshSession s db =
     (if list_ex (\<lambda>x. s_ID x = s_ID s \<or> s_TokenHash x = s_TokenHash s) (db_sessions db) then (Inl UniqueViolation, db)
      else (Inr s, db\<lparr>db_sessions := db_sessions db @ [s]\<rparr>))"

definition GetRefreshSessionByID :: "uuid \<Rightarrow> sessionRow action" where
  "GetRefreshSessionByID i = one (\<lambda>db. find (\<lambda>s. s_ID s = i) (db_sessions db))"

definition updateSession :: "uuid \<Rightarrow> (sessionRow \<Rightarrow> sessionRow) \<Rightarrow> authDB \<Rightarrow> authDB" where
  "updateSession i f db = db\<lparr>db_sessions := map (\<lambda>s. if s_ID s = i then f s else s) (db_sessions db)\<rparr>"

definition RotateRefreshSession :: "instant \<Rightarrow> uuid \<Rightarrow> string \<Rightarrow> int \<Rightarrow> sessionRow action" where
  "RotateRefreshSession now i h graceMs db =
     (if list_ex (\<lambda>x. s_ID x \<noteq> i \<and> s_TokenHash x = h) (db_sessions db) then (Inl UniqueViolation, db)
      else let db' = updateSession i (\<lambda>s. s\<lparr>s_PreviousTokenHash := s_TokenHash s,
                       s_PreviousTokenExpiresAt := Some (now + graceMs * 1000000), s_TokenHash := h\<rparr>) db
           in case find (\<lambda>s. s_ID s = i) (db_sessions db') of None \<Rightarrow> (Inl NoRows, db) | Some s \<Rightarrow> (Inr s, db'))"

definition SetRefreshSessionTenant :: "uuid \<Rightarrow> uuid \<Rightarrow> sessionRow action" where
  "SetRefreshSessionTenant i tenant db =
     (let hit = (\<lambda>s. s_ID s = i \<and> s_RevokedAt s = None);
          db' = db\<lparr>db_sessions := map (\<lambda>s. if hit s then s\<lparr>s_ActiveTenantID := Some tenant\<rparr> else s) (db_sessions db)\<rparr>
      in case find hit (db_sessions db') of None \<Rightarrow> (Inl NoRows, db) | Some s \<Rightarrow> (Inr s, db'))"

definition revoked :: "instant \<Rightarrow> string \<Rightarrow> sessionRow \<Rightarrow> sessionRow" where
  "revoked now reason s =
     s\<lparr>s_RevokedAt := Some (case s_RevokedAt s of None \<Rightarrow> now | Some t \<Rightarrow> t), s_RevokedReason := reason\<rparr>"

definition RevokeRefreshSession :: "instant \<Rightarrow> uuid \<Rightarrow> string \<Rightarrow> unit action" where
  "RevokeRefreshSession now i reason db = (Inr (), updateSession i (revoked now reason) db)"

definition RevokeUserRefreshSessions :: "instant \<Rightarrow> uuid \<Rightarrow> string \<Rightarrow> unit action" where
  "RevokeUserRefreshSessions now user reason db =
     (Inr (), db\<lparr>db_sessions := map (\<lambda>s. if s_UserID s = user \<and> s_RevokedAt s = None then revoked now reason s else s) (db_sessions db)\<rparr>)"

definition CreateOneTimeToken :: "tokenRow \<Rightarrow> tokenRow action" where
  "CreateOneTimeToken k db =
     (if list_ex (\<lambda>x. k_ID x = k_ID k \<or> k_TokenHash x = k_TokenHash k) (db_tokens db) then (Inl UniqueViolation, db)
      else (Inr k, db\<lparr>db_tokens := db_tokens db @ [k]\<rparr>))"

definition usableToken :: "instant \<Rightarrow> string \<Rightarrow> string \<Rightarrow> tokenRow \<Rightarrow> bool" where
  "usableToken now h purpose k = (k_TokenHash k = h \<and> k_Purpose k = purpose \<and> k_ConsumedAt k = None \<and> k_ExpiresAt k > now)"

definition ConsumeOneTimeToken :: "instant \<Rightarrow> string \<Rightarrow> string \<Rightarrow> tokenRow action" where
  "ConsumeOneTimeToken now h purpose db =
     (let hit = usableToken now h purpose
      in case find hit (db_tokens db) of
           None \<Rightarrow> (Inl NoRows, db)
         | Some k \<Rightarrow> (Inr (k\<lparr>k_ConsumedAt := Some now\<rparr>),
             db\<lparr>db_tokens := map (\<lambda>x. if hit x then x\<lparr>k_ConsumedAt := Some now\<rparr> else x) (db_tokens db)\<rparr>))"

definition CreateOAuthState :: "oauthRow \<Rightarrow> oauthRow action" where
  "CreateOAuthState r db =
     (if list_ex (\<lambda>x. oa_ID x = oa_ID r \<or> oa_StateHash x = oa_StateHash r) (db_oauthStates db) then (Inl UniqueViolation, db)
      else (Inr r, db\<lparr>db_oauthStates := db_oauthStates db @ [r]\<rparr>))"

definition usableState :: "instant \<Rightarrow> string \<Rightarrow> oauthRow \<Rightarrow> bool" where
  "usableState now h r = (oa_StateHash r = h \<and> oa_ConsumedAt r = None \<and> oa_ExpiresAt r > now)"

definition ConsumeOAuthState :: "instant \<Rightarrow> string \<Rightarrow> oauthRow action" where
  "ConsumeOAuthState now h db =
     (case find (usableState now h) (db_oauthStates db) of
        None \<Rightarrow> (Inl NoRows, db)
      | Some r \<Rightarrow> (Inr (r\<lparr>oa_ConsumedAt := Some now\<rparr>),
          db\<lparr>db_oauthStates := map (\<lambda>x. if usableState now h x then x\<lparr>oa_ConsumedAt := Some now\<rparr> else x) (db_oauthStates db)\<rparr>))"

definition attemptWindow :: int where
  "attemptWindow = 15 * 60 * 1000000000"

definition sameScope :: "attemptRow \<Rightarrow> attemptRow \<Rightarrow> bool" where
  "sameScope a b = (a_Purpose a = a_Purpose b \<and> a_NormalizedEmail a = a_NormalizedEmail b \<and> a_IpHash a = a_IpHash b)"

definition countAttempt :: "instant \<Rightarrow> attemptRow \<Rightarrow> attemptRow" where
  "countAttempt now a =
     (let stale = a_WindowStartedAt a < now - attemptWindow
      in a\<lparr>a_AttemptCount := (if stale then 1 else a_AttemptCount a + 1),
           a_WindowStartedAt := (if stale then now else a_WindowStartedAt a), a_LastAttemptAt := now\<rparr>)"

definition UpsertAuthAttempt :: "instant \<Rightarrow> attemptRow \<Rightarrow> attemptRow action" where
  "UpsertAuthAttempt now a db =
     (case find (sameScope a) (db_attempts db) of
        Some old \<Rightarrow> (Inr (countAttempt now old),
          db\<lparr>db_attempts := map (\<lambda>x. if sameScope a x then countAttempt now x else x) (db_attempts db)\<rparr>)
      | None \<Rightarrow>
        if list_ex (\<lambda>x. a_ID x = a_ID a) (db_attempts db) then (Inl UniqueViolation, db)
        else (let a = a\<lparr>a_AttemptCount := 1, a_WindowStartedAt := now, a_LastAttemptAt := now\<rparr>
              in (Inr a, db\<lparr>db_attempts := db_attempts db @ [a]\<rparr>)))"

definition CreateAuthEvent :: "eventRow \<Rightarrow> unit action" where
  "CreateAuthEvent e db = (Inr (), db\<lparr>db_events := db_events db @ [e]\<rparr>)"

definition sendMail :: "EmailMessage \<Rightarrow> unit action" where
  "sendMail m db = (Inr (), db\<lparr>db_outbox := db_outbox db @ [m]\<rparr>)"

section \<open>Reasoning about actions\<close>

text \<open>A failing transaction leaves no trace.\<close>

lemma withTx_error: "withTx ok m db = (Inl e, db') \<Longrightarrow> db' = db"
  by (auto simp: withTx_def split: prod.splits sum.splits if_splits)

lemma withTx_ok: "withTx ok m db = (Inr a, db') \<longleftrightarrow> ok \<and> m db = (Inr a, db')"
  by (auto simp: withTx_def split: prod.splits sum.splits if_splits)

lemma abind_ok: "abind m f db = (Inr b, db') \<longleftrightarrow> (\<exists>a db1. m db = (Inr a, db1) \<and> f a db1 = (Inr b, db'))"
  by (auto simp: abind_def split: prod.splits sum.splits)

lemma aret_ok [simp]: "aret a db = (Inr b, db') \<longleftrightarrow> b = a \<and> db' = db"
  by (auto simp: aret_def)

lemma afail_ok [simp]: "afail e db \<noteq> (Inr b, db')"
  by (simp add: afail_def)

lemma aguard_ok [simp]: "aguard c e db = (Inr u, db') \<longleftrightarrow> c \<and> db' = db"
  by (auto simp: aguard_def aret_def afail_def)

lemma onNoRows_ok [simp]: "onNoRows m e db = (Inr a, db') \<longleftrightarrow> m db = (Inr a, db')"
  by (auto simp: onNoRows_def split: prod.splits sum.splits)

lemma onUnique_ok [simp]: "onUnique m e db = (Inr a, db') \<longleftrightarrow> m db = (Inr a, db')"
  by (auto simp: onUnique_def split: prod.splits sum.splits)

lemma one_ok [simp]: "one f db = (Inr a, db') \<longleftrightarrow> f db = Some a \<and> db' = db"
  by (auto simp: one_def split: option.splits)

lemma reads_ok [simp]: "reads f db = (Inr a, db') \<longleftrightarrow> a = f db \<and> db' = db"
  by (auto simp: reads_def)

lemma need_ok [simp]: "need x e db = (Inr a, db') \<longleftrightarrow> x = Some a \<and> db' = db"
  by (auto simp: need_def aret_def afail_def split: option.splits)

lemma atry_ok: "atry m db = (Inr r, db') \<longleftrightarrow>
    (case r of None \<Rightarrow> m db = (Inl NoRows, db') | Some a \<Rightarrow> m db = (Inr a, db'))"
  by (auto simp: atry_def split: prod.splits sum.splits option.splits)

lemma liftE_ok [simp]: "liftE r db = (Inr a, db') \<longleftrightarrow> r = Inr a \<and> db' = db"
  by (auto simp: liftE_def)

lemma aignore_ok [simp]: "aignore m db = (Inr u, db') \<longleftrightarrow> db' = snd (m db)"
  by (auto simp: aignore_def)

lemmas action_ok = withTx_ok abind_ok

lemma set_orderRows [simp]: "set (orderRows le xs) = set xs"
proof -
  have "set (insertRow le x ys) = insert x (set ys)" for x ys by (induction ys) auto
  then show ?thesis by (induction xs) (auto simp: orderRows_def)
qed

end
