(* ===== verification/AuthCrypto.thy ===== *)
theory AuthCrypto
  imports AuthStore GoPath
begin

text \<open>
  Tokens and passwords of the standard auth service: \<open>auth/standard_tokens.go\<close>, \<open>standard_passwords.go\<close>,
  \<open>standard_jwt.go\<close> and \<open>standard_helpers.go\<close>.  What a request meets outside the service is the record \<open>authEnv\<close>: the
  clocks, the values its random generators draw, the configured secrets, the request's headers and access token data, and
  the libraries for UUIDs, e-mail addresses, SHA-256, Argon2 and JWT.  Base 64 is modelled.
\<close>

section \<open>Definitions\<close>

subsection \<open>Base 64\<close>

fun sextets :: "nat list \<Rightarrow> nat list" where
  "sextets (a # b # c # r) =
     a div 4 # (a mod 4 * 16 + b div 16) # (b mod 16 * 4 + c div 64) # (c mod 64) # sextets r"
| "sextets [a, b] = [a div 4, a mod 4 * 16 + b div 16, b mod 16 * 4]"
| "sextets [a] = [a div 4, a mod 4 * 16]"
| "sextets [] = []"

fun unsextets :: "nat list \<Rightarrow> nat list option" where
  "unsextets (x # y # z # w # r) =
     map_option (\<lambda>t. (x * 4 + y div 16) # (y mod 16 * 16 + z div 4) # (z mod 4 * 64 + w) # t) (unsextets r)"
| "unsextets [x, y, z] = Some [x * 4 + y div 16, y mod 16 * 16 + z div 4]"
| "unsextets [x, y] = Some [x * 4 + y div 16]"
| "unsextets [x] = None"
| "unsextets [] = Some []"

definition b64Char :: "char \<Rightarrow> char \<Rightarrow> nat \<Rightarrow> char" where
  "b64Char c62 c63 n =
     (if n < 26 then char_of (65 + n) else if n < 52 then char_of (71 + n) else if n < 62 then char_of (n - 4)
      else if n = 62 then c62 else c63)"

definition b64Val :: "char \<Rightarrow> nat option" where
  "b64Val c =
     (if isUpperLetter c then Some (of_char c - 65) else if isLowerLetter c then Some (of_char c - 71)
      else if isDigit c then Some (of_char c + 4) else if c = CHR ''+'' then Some 62 else if c = CHR ''/'' then Some 63
      else None)"

definition bytesOf :: "string \<Rightarrow> nat list" where
  "bytesOf s = map of_char s"

definition rawStdEncode :: "string \<Rightarrow> string" where
  "rawStdEncode s = map (b64Char CHR ''+'' CHR ''/'') (sextets (bytesOf s))"

definition rawURLEncode :: "string \<Rightarrow> string" where
  "rawURLEncode s = map (b64Char CHR ''-'' CHR ''_'') (sextets (bytesOf s))"

text \<open>The decoder skips line breaks and does not look at the unused bits of the last character.\<close>

definition rawStdDecode :: "string \<Rightarrow> string option" where
  "rawStdDecode s =
     (let vs = map b64Val (filter (\<lambda>c. c \<noteq> char_of (10 :: nat) \<and> c \<noteq> char_of (13 :: nat)) s)
      in if list_all (\<lambda>v. v \<noteq> None) vs then map_option (map char_of) (unsextets (map the vs)) else None)"

subsection \<open>The surroundings of a request\<close>

record accessTokenClaims =
  c_TenantID :: string
  c_SessionID :: string
  c_ActorSubject :: string
  c_ImpersonationID :: string
  c_Subject :: string
  c_IssuedAt :: instant
  c_ExpiresAt :: instant

record AuthData =
  d_UserID :: string
  d_TenantID :: string
  d_SessionID :: string
  d_ActorUserID :: string
  d_ImpersonationID :: string

record authEnv =
  ae_clock :: instant
  ae_now :: instant
  ae_beginOK :: bool
  ae_commitOK :: bool
  ae_local :: bool
  ae_headers :: "(string, string) gomap"
  ae_cookie :: "string option"
  ae_authData :: "AuthData option"
  ae_JWTSecret :: string
  ae_APIBaseURL :: string
  ae_PublicAppURL :: string
  ae_RefreshCookieName :: string
  ae_CookieDomain :: string
  ae_EmailFrom :: string
  ae_drawUUID :: "nat \<Rightarrow> uuid"
  ae_drawToken :: "nat \<Rightarrow> string"
  ae_drawSalt :: string
  ae_scanUUID :: "string \<Rightarrow> uuid option"
  ae_uuidText :: "uuid \<Rightarrow> string"
  ae_parseAddress :: "string \<Rightarrow> string option"
  ae_sha256 :: "string \<Rightarrow> string"
  ae_argon2 :: "string \<Rightarrow> string \<Rightarrow> nat \<Rightarrow> nat \<Rightarrow> nat \<Rightarrow> nat \<Rightarrow> string"
  ae_jwtSign :: "accessTokenClaims \<Rightarrow> string \<Rightarrow> string"
  ae_jwtParse :: "string \<Rightarrow> string \<Rightarrow> accessTokenClaims option"

subsection \<open>Helpers\<close>

definition parseUUID :: "authEnv \<Rightarrow> string \<Rightarrow> uuid option" where
  "parseUUID env v = ae_scanUUID env (trimSpace v)"

text \<open>\<open>None\<close> is the error; the inner option is the null UUID.\<close>

definition nullableUUID :: "authEnv \<Rightarrow> string \<Rightarrow> uuid option option" where
  "nullableUUID env v =
     (let v = trimSpace v in if v = [] then Some None else map_option Some (parseUUID env v))"

definition uuidString :: "authEnv \<Rightarrow> uuid option \<Rightarrow> string" where
  "uuidString env i = (case i of None \<Rightarrow> [] | Some u \<Rightarrow> ae_uuidText env u)"

definition normalizeEmail :: "authEnv \<Rightarrow> string \<Rightarrow> string + string" where
  "normalizeEmail env v =
     (let v = trimSpace v
      in if v = [] then Inl ''email is required''
         else case ae_parseAddress env v of
                None \<Rightarrow> Inl ''email is invalid''
              | Some addr \<Rightarrow>
                (let n = toLower (trimSpace addr)
                 in if n = [] \<or> list_ex (\<lambda>c. c \<in> {char_of (13 :: nat), char_of (10 :: nat), char_of (0 :: nat)}) n
                    then Inl ''email is invalid'' else Inr n))"

definition displayEmail :: "string \<Rightarrow> string" where
  "displayEmail v = trimSpace v"

definition defaultDisplayName :: "string \<Rightarrow> string \<Rightarrow> string" where
  "defaultDisplayName email explicit =
     (if trimSpace explicit \<noteq> [] then trimSpace explicit
      else case cut CHR ''@'' (trimSpace email) of
             (l, _, ok) \<Rightarrow> if \<not> ok \<or> trimSpace l = [] then ''User'' else trimSpace l)"

definition defaultWorkspaceName :: "string \<Rightarrow> string" where
  "defaultWorkspaceName displayName =
     (let name = (if trimSpace displayName = [] then ''My'' else trimSpace displayName)
      in if toLower name = ''my'' then ''My Workspace'' else name @ '' Workspace'')"

definition headerGet :: "authEnv \<Rightarrow> string \<Rightarrow> string" where
  "headerGet env k = (case map_of (ae_headers env) k of None \<Rightarrow> [] | Some v \<Rightarrow> v)"

definition requestUserAgent :: "authEnv \<Rightarrow> string" where
  "requestUserAgent env = trimSpace (headerGet env ''User-Agent'')"

definition requestIPHash :: "authEnv \<Rightarrow> string" where
  "requestIPHash env =
     (let v = trimSpace (headerGet env ''X-Forwarded-For'');
          v = (if v \<noteq> [] then trimSpace (fst (cut CHR '','' v)) else v);
          v = (if v = [] then trimSpace (headerGet env ''X-Real-Ip'') else v);
          v = (case splitHostPort v of Some (h, _) \<Rightarrow> h | None \<Rightarrow> v)
      in if v = [] then [] else rawURLEncode (ae_sha256 env v))"

definition safeRedirectPath :: "string \<Rightarrow> string" where
  "safeRedirectPath v =
     (let v = trimSpace v in if v = [] \<or> \<not> hasPrefix ''/'' v \<or> hasPrefix ''//'' v then ''/'' else v)"

definition currentAuthData :: "authEnv \<Rightarrow> authErr + AuthData" where
  "currentAuthData env = (case ae_authData env of None \<Rightarrow> Inl (Plain ''unauthorized'') | Some d \<Rightarrow> Inr d)"

subsection \<open>Tokens\<close>

definition tokenHash :: "authEnv \<Rightarrow> string \<Rightarrow> string" where
  "tokenHash env token = rawURLEncode (ae_sha256 env (trimSpace token))"

definition newRefreshToken :: "authEnv \<Rightarrow> nat \<Rightarrow> uuid \<Rightarrow> string + string" where
  "newRefreshToken env n sessionID =
     (let i = ae_uuidText env sessionID
      in if i = [] then Inl ''session id is required'' else Inr (i @ ''.'' @ ae_drawToken env n))"

definition parseRefreshToken :: "authEnv \<Rightarrow> string \<Rightarrow> uuid option" where
  "parseRefreshToken env token =
     (case cut CHR ''.'' (trimSpace token) of
        (sessionID, _, ok) \<Rightarrow> if \<not> ok \<or> trimSpace sessionID = [] then None else parseUUID env sessionID)"

subsection \<open>Passwords\<close>

definition passwordMinLength :: nat where "passwordMinLength = 10"
definition passwordMaxLength :: nat where "passwordMaxLength = 1024"
definition argonTime :: nat where "argonTime = 2"
definition argonMemory :: nat where "argonMemory = 65536"
definition argonThreads :: nat where "argonThreads = 1"
definition argonKeyLen :: nat where "argonKeyLen = 32"

record argonParams =
  ap_memory :: nat
  ap_time :: nat
  ap_threads :: nat

definition validatePassword :: "string \<Rightarrow> string option" where
  "validatePassword p =
     (if length p < passwordMinLength then Some ''password must be at least 10 characters''
      else if length p > passwordMaxLength then Some ''password must be at most 1024 characters''
      else None)"

definition hashPassword :: "authEnv \<Rightarrow> string \<Rightarrow> string + string" where
  "hashPassword env p =
     (case validatePassword p of
        Some e \<Rightarrow> Inl e
      | None \<Rightarrow>
        (let salt = ae_drawSalt env;
             hash = ae_argon2 env p salt argonTime argonMemory argonThreads argonKeyLen
         in Inr (''$argon2id$v=19$m='' @ itoaNat argonMemory @ '',t='' @ itoaNat argonTime @ '',p='' @ itoaNat argonThreads
                 @ ''$'' @ rawStdEncode salt @ ''$'' @ rawStdEncode hash)))"

text \<open>\<open>strconv.ParseUint\<close> in base 10 and 32 bits: digits only.\<close>

definition parseUint32 :: "string \<Rightarrow> nat option" where
  "parseUint32 s =
     (if s = [] \<or> \<not> list_all isDigit s \<or> decValue 0 s \<ge> 2 ^ 32 then None else Some (decValue 0 s))"

fun argonParts :: "argonParams \<Rightarrow> string list \<Rightarrow> string + argonParams" where
  "argonParts p [] = Inr p"
| "argonParts p (part # ps) =
     (case cut CHR ''='' part of
        (key, raw, ok) \<Rightarrow>
          if \<not> ok then Inl ''invalid password hash parameters''
          else case parseUint32 raw of
                 None \<Rightarrow> Inl (''invalid password hash parameter '' @ goQuote key)
               | Some n \<Rightarrow>
                 if key = ''m'' then argonParts (p\<lparr>ap_memory := n\<rparr>) ps
                 else if key = ''t'' then argonParts (p\<lparr>ap_time := n\<rparr>) ps
                 else if key = ''p''
                 then (if n > 255 then Inl ''invalid password parallelism'' else argonParts (p\<lparr>ap_threads := n\<rparr>) ps)
                 else Inl (''unknown password hash parameter '' @ goQuote key))"

definition parseArgonParams :: "string \<Rightarrow> string + argonParams" where
  "parseArgonParams v =
     (case argonParts \<lparr>ap_memory = 0, ap_time = 0, ap_threads = 0\<rparr> (splitOn CHR '','' v) of
        Inl e \<Rightarrow> Inl e
      | Inr p \<Rightarrow> if ap_memory p = 0 \<or> ap_time p = 0 \<or> ap_threads p = 0 then Inl ''incomplete password hash parameters'' else Inr p)"

definition parsePHCPasswordHash :: "string \<Rightarrow> string + argonParams \<times> string \<times> string" where
  "parsePHCPasswordHash encoded =
     (let parts = splitOn CHR ''$'' (trimSpace encoded)
      in if length parts \<noteq> 6 \<or> parts ! 1 \<noteq> ''argon2id'' \<or> parts ! 2 \<noteq> ''v=19'' then Inl ''unsupported password hash''
         else case parseArgonParams (parts ! 3) of
                Inl e \<Rightarrow> Inl e
              | Inr params \<Rightarrow>
                (case rawStdDecode (parts ! 4) of
                   None \<Rightarrow> Inl ''decode password salt''
                 | Some salt \<Rightarrow>
                   (case rawStdDecode (parts ! 5) of
                      None \<Rightarrow> Inl ''decode password hash''
                    | Some hash \<Rightarrow>
                      if salt = [] \<or> hash = [] then Inl ''invalid password hash'' else Inr (params, salt, hash))))"

definition verifyPassword :: "authEnv \<Rightarrow> string \<Rightarrow> string \<Rightarrow> string + bool \<times> bool" where
  "verifyPassword env p encoded =
     (case parsePHCPasswordHash encoded of
        Inl e \<Rightarrow> Inl e
      | Inr (params, salt, expected) \<Rightarrow>
        (let actual = ae_argon2 env p salt (ap_time params) (ap_memory params) (ap_threads params) (length expected)
         in Inr (actual = expected,
                 ap_time params \<noteq> argonTime \<or> ap_memory params \<noteq> argonMemory \<or> ap_threads params \<noteq> argonThreads
                 \<or> length expected \<noteq> argonKeyLen)))"

subsection \<open>Access tokens\<close>

definition defaultAccessTokenTTL :: int where "defaultAccessTokenTTL = 15 * 60 * 1000000000"
definition defaultRefreshSessionTTL :: int where "defaultRefreshSessionTTL = 30 * 24 * 3600 * 1000000000"
definition defaultImpersonationTTL :: int where "defaultImpersonationTTL = 30 * 60 * 1000000000"
definition defaultPasswordResetTTL :: int where "defaultPasswordResetTTL = 30 * 60 * 1000000000"
definition defaultEmailVerificationTTL :: int where "defaultEmailVerificationTTL = 24 * 3600 * 1000000000"
definition defaultInviteTTL :: int where "defaultInviteTTL = 7 * 24 * 3600 * 1000000000"
definition refreshTokenReplayGrace :: int where "refreshTokenReplayGrace = 30 * 1000000000"

definition Impersonating :: "AuthData \<Rightarrow> bool" where
  "Impersonating d = (trimSpace (d_ActorUserID d) \<noteq> [])"

record AccessTokenOptions =
  o_UserID :: string
  o_TenantID :: string
  o_SessionID :: string
  o_ActorUserID :: string
  o_ImpersonationID :: string
  o_ExpiresIn :: int
  o_Now :: instant

definition GenerateAccessToken :: "authEnv \<Rightarrow> AccessTokenOptions \<Rightarrow> authErr + string" where
  "GenerateAccessToken env opts =
     (let expiresIn = (if o_ExpiresIn opts = 0 then defaultAccessTokenTTL else o_ExpiresIn opts)
      in if trimSpace (ae_JWTSecret env) = [] then Inl (Plain ''JWTSecret is not configured'')
         else if trimSpace (o_UserID opts) = [] then Inl (Plain ''user id is required'')
         else if trimSpace (o_TenantID opts) = [] then Inl (Plain ''tenant id is required'')
         else Inr (ae_jwtSign env \<lparr>c_TenantID = trimSpace (o_TenantID opts), c_SessionID = trimSpace (o_SessionID opts),
                c_ActorSubject = trimSpace (o_ActorUserID opts), c_ImpersonationID = trimSpace (o_ImpersonationID opts),
                c_Subject = trimSpace (o_UserID opts), c_IssuedAt = o_Now opts, c_ExpiresAt = o_Now opts + expiresIn\<rparr>
                (ae_JWTSecret env)))"

text \<open>\<open>ae_jwtParse\<close> is \<open>jwt.ParseWithClaims\<close> for HS256 tokens with a required expiry, read at the current time.\<close>

definition ValidateToken :: "authEnv \<Rightarrow> string \<Rightarrow> string + AuthData" where
  "ValidateToken env token =
     (if trimSpace (ae_JWTSecret env) = [] then Inl ''invalid token''
      else case ae_jwtParse env (trimSpace token) (ae_JWTSecret env) of
        None \<Rightarrow> Inl ''invalid token''
      | Some claims \<Rightarrow>
        if trimSpace (c_Subject claims) = [] then Inl ''token missing subject claim''
        else if trimSpace (c_TenantID claims) = [] then Inl ''token missing tenant_id claim''
        else Inr \<lparr>d_UserID = trimSpace (c_Subject claims), d_TenantID = trimSpace (c_TenantID claims),
                  d_SessionID = trimSpace (c_SessionID claims), d_ActorUserID = trimSpace (c_ActorSubject claims),
                  d_ImpersonationID = trimSpace (c_ImpersonationID claims)\<rparr>)"

section \<open>Base 64 and passwords\<close>

lemma pack_div_mod: "q < k \<Longrightarrow> (p * k + q) div k = p" "q < k \<Longrightarrow> (p * k + q) mod k = (q :: nat)"
  by auto

lemma div_bound: "a < m * k \<Longrightarrow> a div k < (m :: nat)"
  by (simp add: less_mult_imp_div_less)

lemma byte_parts:
  assumes "b < (256 :: nat)"
  shows "b div 4 < 64" "b div 16 < 16" "b div 64 < 4"
  using div_bound [of b 64 4] div_bound [of b 16 16] div_bound [of b 4 64] assms by simp_all

lemma pack_bound: "p < m \<Longrightarrow> q < k \<Longrightarrow> p * k + q < m * (k :: nat)"
  using mult_le_mono1 [of "Suc p" m k] by simp

lemma sextets_bound: "\<forall>b \<in> set bs. b < 256 \<Longrightarrow> \<forall>x \<in> set (sextets bs). x < 64"
proof (induction bs rule: sextets.induct)
  case (1 a b c r)
  then have "a < 256" "b < 256" "c < 256" by simp_all
  with 1 show ?case
    using pack_bound [of "a mod 4" 4 "b div 16" 16] pack_bound [of "b mod 16" 16 "c div 64" 4]
    by (simp add: byte_parts)
next
  case (2 a b)
  then have "a < 256" "b < 256" by simp_all
  then show ?case
    using pack_bound [of "a mod 4" 4 "b div 16" 16] pack_bound [of "b mod 16" 16 0 4] by (simp add: byte_parts)
next
  case (3 a)
  then show ?case using pack_bound [of "a mod 4" 4 0 16] by (simp add: byte_parts)
qed simp

lemma unsextets_sextets: "\<forall>b \<in> set bs. b < 256 \<Longrightarrow> unsextets (sextets bs) = Some bs"
proof (induction bs rule: sextets.induct)
  case (1 a b c r)
  then have "a < 256" "b < 256" "c < 256" by simp_all
  with 1 show ?case by (simp add: pack_div_mod byte_parts)
next
  case (2 a b)
  then have "b < 256" by simp
  then show ?case by (simp add: pack_div_mod byte_parts)
qed simp_all

lemma b64Char_cases:
  fixes n :: nat
  assumes "n < 64"
  obtains "n < 26" | "26 \<le> n" "n < 52" | "52 \<le> n" "n < 62" | "n = 62" | "n = 63"
  using assms by linarith

lemma b64Val_Char:
  assumes "n < 64"
  shows "b64Val (b64Char CHR ''+'' CHR ''/'' n) = Some n"
  using assms
  by (rule b64Char_cases)
    (auto simp: b64Val_def b64Char_def isUpperLetter_def isLowerLetter_def isDigit_def Let_def)

lemma b64Char_plain:
  assumes "n < 64"
  shows "of_char (b64Char CHR ''+'' CHR ''/'' n) \<ge> (43 :: nat)"
  using assms
  by (rule b64Char_cases) (simp_all add: b64Char_def)

lemma base64_plain: "c \<in> set (rawStdEncode s) \<Longrightarrow> of_char c \<ge> (43 :: nat)"
  using sextets_bound [of "bytesOf s"] b64Char_plain by (auto simp: rawStdEncode_def bytesOf_def)

lemma base64_no_special:
  "CHR ''$'' \<notin> set (rawStdEncode s)" "char_of (10 :: nat) \<notin> set (rawStdEncode s)" "char_of (13 :: nat) \<notin> set (rawStdEncode s)"
  by (auto dest: base64_plain)

lemma rawStdEncode_Nil: "rawStdEncode s = [] \<longleftrightarrow> s = []"
  by (cases "bytesOf s" rule: sextets.cases) (auto simp: rawStdEncode_def bytesOf_def)

lemma base64_roundtrip: "rawStdDecode (rawStdEncode s) = Some s"
proof -
  have small: "\<forall>b \<in> set (bytesOf s). b < 256" by (auto simp: bytesOf_def)
  have clean: "filter (\<lambda>c. c \<noteq> char_of (10 :: nat) \<and> c \<noteq> char_of (13 :: nat)) (rawStdEncode s) = rawStdEncode s"
    using base64_no_special [of s] by (intro filter_True) metis
  have vals: "map b64Val (rawStdEncode s) = map Some (sextets (bytesOf s))"
    using sextets_bound [OF small] by (simp add: rawStdEncode_def b64Val_Char)
  show ?thesis
    unfolding rawStdDecode_def clean vals Let_def
    by (simp add: list_all_iff unsextets_sextets [OF small] o_def) (simp add: bytesOf_def o_def)
qed

definition phcHash :: "string \<Rightarrow> string \<Rightarrow> string" where
  "phcHash salt hash =
     ''$argon2id$v=19$m=65536,t=2,p=1$'' @ rawStdEncode salt @ ''$'' @ rawStdEncode hash"

lemma phc_split:
  assumes "hash \<noteq> []"
  shows "splitOn CHR ''$'' (trimSpace (phcHash salt hash))
    = [[], ''argon2id'', ''v=19'', ''m=65536,t=2,p=1'', rawStdEncode salt, rawStdEncode hash]"
proof -
  let ?parts = "[[], ''argon2id'', ''v=19'', ''m=65536,t=2,p=1'', rawStdEncode salt, rawStdEncode hash]"
  have joined: "phcHash salt hash = joinWith ''$'' ?parts" by (simp add: phcHash_def joinWith_Cons)
  have ne: "rawStdEncode hash \<noteq> []" using assms rawStdEncode_Nil by blast
  then have "of_char (last (rawStdEncode hash)) \<ge> (43 :: nat)" by (intro base64_plain [of _ hash]) simp
  then have "\<not> isSpace (last (phcHash salt hash))" using ne by (simp add: phcHash_def isSpace_def Let_def)
  moreover have "\<not> isSpace (hd (phcHash salt hash))" by (simp add: phcHash_def isSpace_def Let_def)
  ultimately have "trimSpace (phcHash salt hash) = phcHash salt hash"
    unfolding trimSpace_def by (intro trimBy_fixed) simp
  moreover have "splitOn CHR ''$'' (joinWith ''$'' ?parts) = ?parts"
    by (rule splitOn_joinWith) (use base64_no_special(1) in auto)
  ultimately show ?thesis using joined by simp
qed

lemma argon_defaults:
  "parseArgonParams ''m=65536,t=2,p=1'' = Inr \<lparr>ap_memory = argonMemory, ap_time = argonTime, ap_threads = argonThreads\<rparr>"
  by (simp add: parseArgonParams_def cut_def parseUint32_def isDigit_def digitVal_def Let_def
      argonMemory_def argonTime_def argonThreads_def)

lemma itoa_defaults: "itoaNat argonMemory = ''65536''" "itoaNat argonTime = ''2''" "itoaNat argonThreads = ''1''"
  by (simp_all add: itoaNat.simps argonMemory_def argonTime_def argonThreads_def char_of_def bit_0)

lemma phc_parse:
  assumes "salt \<noteq> []" "hash \<noteq> []"
  shows "parsePHCPasswordHash (phcHash salt hash)
    = Inr (\<lparr>ap_memory = argonMemory, ap_time = argonTime, ap_threads = argonThreads\<rparr>, salt, hash)"
  using assms by (simp add: parsePHCPasswordHash_def phc_split argon_defaults base64_roundtrip)

lemma hashPassword_phc:
  assumes "validatePassword p = None"
  shows "hashPassword env p
    = Inr (phcHash (ae_drawSalt env) (ae_argon2 env p (ae_drawSalt env) argonTime argonMemory argonThreads argonKeyLen))"
  using assms by (simp add: hashPassword_def itoa_defaults phcHash_def Let_def)

text \<open>The key of a password under the current parameters and the drawn salt.\<close>

definition passwordKey :: "authEnv \<Rightarrow> string \<Rightarrow> string" where
  "passwordKey env p = ae_argon2 env p (ae_drawSalt env) argonTime argonMemory argonThreads argonKeyLen"

text \<open>
  (C16) A password hash verifies exactly the passwords with the same Argon2 key: for every valid password the stored string
  parses back to the parameters, the salt and the key it was made from, the password itself is accepted and needs no
  upgrade, and another password is accepted only when Argon2 gives it the same key.\<close>

theorem password_roundtrip:
  assumes "validatePassword p = None" "ae_drawSalt env \<noteq> []" "length (passwordKey env p) = argonKeyLen"
  shows "\<exists>h. hashPassword env p = Inr h
    \<and> (\<forall>q. verifyPassword env q h = Inr (passwordKey env q = passwordKey env p, False))"
proof -
  let ?h = "phcHash (ae_drawSalt env) (passwordKey env p)"
  have "passwordKey env p \<noteq> []" using assms(3) by (auto simp: argonKeyLen_def)
  note parsed = phc_parse [OF assms(2) this]
  have "hashPassword env p = Inr ?h"
    using hashPassword_phc [OF assms(1)] by (simp add: passwordKey_def)
  moreover have "verifyPassword env q ?h = Inr (passwordKey env q = passwordKey env p, False)" for q
    using assms(3) unfolding verifyPassword_def parsed by (simp add: Let_def) (simp add: passwordKey_def)
  ultimately show ?thesis by blast
qed

text \<open>Concrete surroundings, for the examples: identifiers print as numbers and the hash keeps its input.\<close>

definition sampleEnv :: authEnv where
  "sampleEnv = \<lparr>ae_clock = 1000, ae_now = 1000, ae_beginOK = True, ae_commitOK = True, ae_local = False, ae_headers = [], ae_cookie = None,
     ae_authData = None, ae_JWTSecret = ''secret'', ae_APIBaseURL = [], ae_PublicAppURL = [], ae_RefreshCookieName = ''onlv_refresh'', ae_CookieDomain = [], ae_EmailFrom = ''noreply'',
     ae_drawUUID = (\<lambda>n. 100 + n), ae_drawToken = (\<lambda>n. itoaNat (7 + n)), ae_drawSalt = ''0123456789abcdef'',
     ae_scanUUID = (\<lambda>s. if s \<noteq> [] \<and> list_all isDigit s then Some (decValue 0 s) else None), ae_uuidText = itoaNat,
     ae_parseAddress = Some, ae_sha256 = (\<lambda>s. s), ae_argon2 = (\<lambda>p s t m h n. take n (p @ replicate n CHR ''.'')),
     ae_jwtSign = (\<lambda>c k. c_Subject c @ ''@'' @ c_TenantID c), ae_jwtParse = (\<lambda>t k. None)\<rparr>"

theorem password_roundtrip_witness:
  "\<exists>h. hashPassword sampleEnv ''correct horse'' = Inr h
    \<and> verifyPassword sampleEnv ''correct horse'' h = Inr (True, False)
    \<and> verifyPassword sampleEnv ''battery staple'' h = Inr (False, False)"
proof -
  have "validatePassword ''correct horse'' = None"
    by (simp add: validatePassword_def passwordMinLength_def passwordMaxLength_def)
  then obtain h where h: "hashPassword sampleEnv ''correct horse'' = Inr h"
      "\<forall>q. verifyPassword sampleEnv q h = Inr (passwordKey sampleEnv q = passwordKey sampleEnv ''correct horse'', False)"
    using password_roundtrip [of "''correct horse''" sampleEnv]
    by (auto simp: sampleEnv_def passwordKey_def argonKeyLen_def)
  have "passwordKey sampleEnv ''battery staple'' \<noteq> passwordKey sampleEnv ''correct horse''"
    by (simp add: passwordKey_def sampleEnv_def argonKeyLen_def)
  with h show ?thesis by simp
qed

end
