(* ===== verification/AuthService.thy ===== *)
theory AuthService
  imports AuthCrypto
begin

text \<open>
  The handlers of the standard auth service for users and sessions: \<open>auth/standard_service.go\<close>, \<open>standard_sessions.go\<close>,
  \<open>standard_mail.go\<close> and \<open>standard_impersonation.go\<close>.  A handler is an action on the database; the numbers given to it and to its
  helpers name the random values each call draws.  A cookie is the record of its attributes, and \<open>time.Until\<close> reads
  the clock of the service.  What the service asks of the database is in \<open>AuthStore\<close>: foreign keys are not checked there, because
  every identifier the handlers store was read or created in the same transaction.
\<close>

section \<open>Definitions\<close>

subsection \<open>Errors and constants\<close>

definition coded :: "ErrCode \<Rightarrow> string \<Rightarrow> authErr" where
  "coded c message = Coded (bErr (bMsg message (bCode c B)))"

definition invalidArgument :: "string \<Rightarrow> authErr" where
  "invalidArgument message = coded InvalidArgument message"

definition unauthenticated :: "string \<Rightarrow> authErr" where
  "unauthenticated message = coded Unauthenticated (if trimSpace message = [] then ''unauthorized'' else message)"

definition permissionDenied :: "string \<Rightarrow> authErr" where
  "permissionDenied message = coded PermissionDenied (if trimSpace message = [] then ''forbidden'' else message)"

definition failedPrecondition :: "string \<Rightarrow> authErr" where
  "failedPrecondition message = coded FailedPrecondition message"

definition alreadyExists :: "string \<Rightarrow> authErr" where
  "alreadyExists message = coded AlreadyExists message"

definition identityProviderEmail :: string where "identityProviderEmail = ''email''"
definition tokenPurposeEmailVerification :: string where "tokenPurposeEmailVerification = ''email_verification''"
definition tokenPurposePasswordReset :: string where "tokenPurposePasswordReset = ''password_reset''"
definition roleOwner :: string where "roleOwner = ''owner''"
definition roleMember :: string where "roleMember = ''member''"

text \<open>\<open>beginTx\<close>, the deferred \<open>Rollback\<close> and \<open>Commit\<close> around the body of a handler.\<close>

definition inTx :: "authEnv \<Rightarrow> 'a action \<Rightarrow> 'a action" where
  "inTx env m = (if ae_beginOK env then withTx (ae_commitOK env) m else afail (Plain ''begin''))"

text \<open>An error message of a helper, given a kind.\<close>

definition liftErr :: "(string \<Rightarrow> authErr) \<Rightarrow> string + 'a \<Rightarrow> 'a action" where
  "liftErr k r = (case r of Inl e \<Rightarrow> afail (k e) | Inr a \<Rightarrow> aret a)"

subsection \<open>Responses\<close>

record UserProfile =
  up_ID :: string
  up_Email :: string
  up_DisplayName :: string
  up_AvatarURL :: string
  up_EmailVerified :: bool
  up_CanImpersonateUsers :: bool

record OrganizationSession =
  os_TenantID :: string
  os_TenantName :: string
  os_Role :: string

record ImpersonationState =
  is_ActorUserID :: string
  is_ImpersonationID :: string
  is_Reason :: string

record AuthBootstrapResponse =
  br_Token :: string
  br_User :: UserProfile
  br_CurrentTenantID :: string
  br_Organizations :: "OrganizationSession list"
  br_Impersonation :: ImpersonationState

record Cookie =
  ck_Name :: string
  ck_Value :: string
  ck_Path :: string
  ck_Expires :: instant
  ck_MaxAge :: int
  ck_HttpOnly :: bool
  ck_Secure :: bool
  ck_SameSiteLax :: bool
  ck_Domain :: string

record AuthSessionResponse =
  sr_Bootstrap :: AuthBootstrapResponse
  sr_SetCookie :: Cookie

text \<open>The fields of a refresh session that the responses are built from; a handler without a stored session fills them in itself.\<close>

record sessionRef =
  sf_ID :: "uuid option"
  sf_ActorUserID :: "uuid option"
  sf_ImpersonationID :: "uuid option"
  sf_ImpersonationReason :: string

definition refOf :: "sessionRow \<Rightarrow> sessionRef" where
  "refOf s = \<lparr>sf_ID = Some (s_ID s), sf_ActorUserID = s_ActorUserID s, sf_ImpersonationID = s_ImpersonationID s,
     sf_ImpersonationReason = s_ImpersonationReason s\<rparr>"

definition mapUser :: "authEnv \<Rightarrow> userRow \<Rightarrow> UserProfile" where
  "mapUser env u = \<lparr>up_ID = uuidString env (Some (u_ID u)), up_Email = trimSpace (u_PrimaryEmail u),
     up_DisplayName = trimSpace (u_DisplayName u), up_AvatarURL = trimSpace (u_AvatarUrl u),
     up_EmailVerified = (u_EmailVerifiedAt u \<noteq> None), up_CanImpersonateUsers = u_CanImpersonateUsers u\<rparr>"

definition mapOrganization :: "authEnv \<Rightarrow> membershipRow \<times> string \<Rightarrow> OrganizationSession" where
  "mapOrganization env r = \<lparr>os_TenantID = uuidString env (Some (m_TenantID (fst r))), os_TenantName = trimSpace (snd r),
     os_Role = trimSpace (m_Role (fst r))\<rparr>"

definition sameUUID :: "authEnv \<Rightarrow> uuid option \<Rightarrow> uuid option \<Rightarrow> bool" where
  "sameUUID env a b = (uuidString env a = uuidString env b)"

definition buildBootstrap :: "authEnv \<Rightarrow> userRow \<Rightarrow> uuid \<Rightarrow> sessionRef \<Rightarrow> AuthBootstrapResponse action" where
  "buildBootstrap env user tenantID session =
     abind (reads (ListUserMemberships (u_ID user))) (\<lambda>memberships.
     abind (aguard (list_ex (\<lambda>r. sameUUID env (Some (m_TenantID (fst r))) (Some tenantID)) memberships)
              (permissionDenied ''workspace access is disabled'')) (\<lambda>_.
     abind (liftE (GenerateAccessToken env
              \<lparr>o_UserID = uuidString env (Some (u_ID user)), o_TenantID = uuidString env (Some tenantID),
               o_SessionID = uuidString env (sf_ID session), o_ActorUserID = uuidString env (sf_ActorUserID session),
               o_ImpersonationID = uuidString env (sf_ImpersonationID session), o_ExpiresIn = defaultAccessTokenTTL,
               o_Now = ae_clock env\<rparr>)) (\<lambda>token.
     aret \<lparr>br_Token = token, br_User = mapUser env user, br_CurrentTenantID = uuidString env (Some tenantID),
           br_Organizations = map (mapOrganization env) memberships,
           br_Impersonation =
             (if sf_ActorUserID session \<noteq> None
              then \<lparr>is_ActorUserID = uuidString env (sf_ActorUserID session),
                    is_ImpersonationID = uuidString env (sf_ImpersonationID session),
                    is_Reason = trimSpace (sf_ImpersonationReason session)\<rparr>
              else \<lparr>is_ActorUserID = [], is_ImpersonationID = [], is_Reason = []\<rparr>)\<rparr>)))"

subsection \<open>Tenants and sessions\<close>

definition newMembership :: "uuid \<Rightarrow> uuid \<Rightarrow> uuid \<Rightarrow> string \<Rightarrow> membershipRow" where
  "newMembership i tenant user role = \<lparr>m_ID = i, m_TenantID = tenant, m_UserID = user, m_Role = role, m_DisabledAt = None,
     m_InvitedByUserID = None, m_InvitedAt = None\<rparr>"

definition ensureActiveTenant :: "authEnv \<Rightarrow> nat \<Rightarrow> userRow \<Rightarrow> uuid option \<Rightarrow> uuid action" where
  "ensureActiveTenant env n user preferred =
     abind (aguard (u_EmailVerifiedAt user \<noteq> None) (failedPrecondition ''email verification is required'')) (\<lambda>_.
     abind (aguard (u_DisabledAt user = None) (permissionDenied ''user is disabled'')) (\<lambda>_.
     abind (reads (ListUserMemberships (u_ID user))) (\<lambda>memberships.
     case find (\<lambda>r. preferred \<noteq> None \<and> sameUUID env (Some (m_TenantID (fst r))) preferred) memberships of
       Some r \<Rightarrow> aret (m_TenantID (fst r))
     | None \<Rightarrow>
       (case memberships of
          r # _ \<Rightarrow> aret (m_TenantID (fst r))
        | [] \<Rightarrow>
          abind (CreateTenant (ae_drawUUID env n) (defaultWorkspaceName (u_DisplayName user))) (\<lambda>tenant.
          abind (CreateOrganizationMembership (newMembership (ae_drawUUID env (n + 1)) (t_ID tenant) (u_ID user) roleOwner)) (\<lambda>_.
          aret (t_ID tenant)))))))"

definition createRefreshSession ::
  "authEnv \<Rightarrow> nat \<Rightarrow> uuid \<Rightarrow> uuid \<Rightarrow> int \<Rightarrow> uuid option \<Rightarrow> uuid option \<Rightarrow> string \<Rightarrow> (sessionRow \<times> string) action" where
  "createRefreshSession env n userID tenantID ttl actorUserID impersonationID reason =
     abind (liftErr Plain (newRefreshToken env n (ae_drawUUID env n))) (\<lambda>rawToken.
     abind (CreateRefreshSession
              \<lparr>s_ID = ae_drawUUID env n, s_UserID = userID, s_TokenHash = tokenHash env rawToken, s_PreviousTokenHash = [],
               s_PreviousTokenExpiresAt = None, s_ActiveTenantID = Some tenantID, s_ExpiresAt = ae_clock env + ttl,
               s_RevokedAt = None, s_RevokedReason = [], s_UserAgent = requestUserAgent env, s_IpHash = requestIPHash env,
               s_ActorUserID = actorUserID, s_ImpersonationID = impersonationID, s_ImpersonationReason = trimSpace reason\<rparr>) (\<lambda>session.
     aret (session, rawToken)))"

definition isHTTPSURL :: "string \<Rightarrow> bool" where
  "isHTTPSURL v = hasPrefix ''https://'' (toLower (trimSpace v))"

definition isForwardedHTTPS :: "authEnv \<Rightarrow> bool" where
  "isForwardedHTTPS env = (toLower (trimSpace (headerGet env ''X-Forwarded-Proto'')) = ''https'')"

definition isHTTPSOrigin :: "authEnv \<Rightarrow> bool" where
  "isHTTPSOrigin env = isHTTPSURL (headerGet env ''Origin'')"

definition refreshCookieSecure :: "authEnv \<Rightarrow> bool" where
  "refreshCookieSecure env =
     (if ae_local env \<and> (isForwardedHTTPS env \<or> isHTTPSOrigin env \<or> isHTTPSURL (ae_APIBaseURL env)) then True
      else \<not> ae_local env)"

definition refreshCookie :: "authEnv \<Rightarrow> string \<Rightarrow> instant \<Rightarrow> Cookie" where
  "refreshCookie env value expiresAt =
     \<lparr>ck_Name = ae_RefreshCookieName env, ck_Value = trimSpace value, ck_Path = ''/auth'', ck_Expires = expiresAt,
      ck_MaxAge = quot (expiresAt - ae_clock env) 1000000000, ck_HttpOnly = True, ck_Secure = refreshCookieSecure env,
      ck_SameSiteLax = True, ck_Domain = trimSpace (ae_CookieDomain env)\<rparr>"

definition clearRefreshCookie :: "authEnv \<Rightarrow> Cookie" where
  "clearRefreshCookie env =
     \<lparr>ck_Name = ae_RefreshCookieName env, ck_Value = [], ck_Path = ''/auth'', ck_Expires = 0, ck_MaxAge = - 1, ck_HttpOnly = True,
      ck_Secure = refreshCookieSecure env, ck_SameSiteLax = True, ck_Domain = trimSpace (ae_CookieDomain env)\<rparr>"

definition createAuthSessionResponse ::
  "authEnv \<Rightarrow> nat \<Rightarrow> userRow \<Rightarrow> uuid \<Rightarrow> int \<Rightarrow> uuid option \<Rightarrow> uuid option \<Rightarrow> string \<Rightarrow> AuthSessionResponse action" where
  "createAuthSessionResponse env n user tenantID ttl actorUserID impersonationID reason =
     abind (createRefreshSession env n (u_ID user) tenantID ttl actorUserID impersonationID reason) (\<lambda>(session, rawToken).
     abind (buildBootstrap env user tenantID (refOf session)) (\<lambda>bootstrap.
     aret \<lparr>sr_Bootstrap = bootstrap, sr_SetCookie = refreshCookie env rawToken (s_ExpiresAt session)\<rparr>))"

definition recordEvent ::
  "authEnv \<Rightarrow> nat \<Rightarrow> string \<Rightarrow> uuid option \<Rightarrow> uuid option \<Rightarrow> uuid option \<Rightarrow> uuid option \<Rightarrow> (string, string) gomap \<Rightarrow> unit action" where
  "recordEvent env n eventType userID actorUserID tenantID sessionID metadata =
     aignore (CreateAuthEvent \<lparr>e_ID = ae_drawUUID env n, e_EventType = eventType, e_UserID = userID,
       e_ActorUserID = actorUserID, e_TenantID = tenantID, e_SessionID = sessionID, e_IpHash = requestIPHash env,
       e_UserAgent = requestUserAgent env, e_Metadata = metadata\<rparr>)"

definition checkRateLimit :: "authEnv \<Rightarrow> nat \<Rightarrow> string \<Rightarrow> string \<Rightarrow> unit action" where
  "checkRateLimit env n purpose normalizedEmail =
     abind (UpsertAuthAttempt (ae_now env)
              \<lparr>a_ID = ae_drawUUID env n, a_Purpose = purpose, a_NormalizedEmail = normalizedEmail, a_IpHash = requestIPHash env,
               a_WindowStartedAt = ae_now env, a_AttemptCount = 1, a_LastAttemptAt = ae_now env\<rparr>) (\<lambda>attempt.
     aguard (\<not> a_AttemptCount attempt > 20) (coded ResourceExhausted ''too many auth attempts; try again later''))"

definition createOneTimeToken ::
  "authEnv \<Rightarrow> nat \<Rightarrow> string \<Rightarrow> uuid option \<Rightarrow> uuid option \<Rightarrow> string \<Rightarrow> string \<Rightarrow> (string, string) gomap \<Rightarrow> int \<Rightarrow> string action" where
  "createOneTimeToken env n purpose userID tenantID email normalizedEmail metadata ttl =
     abind (CreateOneTimeToken
              \<lparr>k_ID = ae_drawUUID env n, k_Purpose = purpose, k_TokenHash = tokenHash env (ae_drawToken env n), k_UserID = userID,
               k_TenantID = tenantID, k_Email = trimSpace email, k_NormalizedEmail = trimSpace normalizedEmail,
               k_Metadata = metadata, k_ExpiresAt = ae_clock env + ttl, k_ConsumedAt = None\<rparr>) (\<lambda>_.
     aret (ae_drawToken env n))"

subsection \<open>Mail\<close>

definition upperHex :: "nat \<Rightarrow> char" where
  "upperHex n = (if n < 10 then char_of (48 + n) else char_of (55 + n))"

definition queryEscape :: "string \<Rightarrow> string" where
  "queryEscape s =
     concat (map (\<lambda>c. if isLetter c \<or> isDigit c \<or> c \<in> set ''-_.~'' then [c]
                      else if c = CHR '' '' then ''+''
                      else [CHR ''%'', upperHex (of_char c div 16), upperHex (of_char c mod 16)]) s)"

definition trimRightSlash :: "string \<Rightarrow> string" where
  "trimRightSlash s = rev (dropWhile (\<lambda>c. c = CHR ''/'') (rev s))"

definition appRedirectURL :: "authEnv \<Rightarrow> string \<Rightarrow> string" where
  "appRedirectURL env path =
     (let base = trimRightSlash (trimSpace (ae_PublicAppURL env));
          base = (if base = [] then ''https://app.scenery.localhost'' else base)
      in base @ safeRedirectPath path)"

definition sendAuthEmail :: "authEnv \<Rightarrow> string \<Rightarrow> string \<Rightarrow> string \<Rightarrow> string \<Rightarrow> unit action" where
  "sendAuthEmail env to subject act link =
     (let from = trimSpace (ae_EmailFrom env)
      in if from = [] then aret ()
         else sendMail \<lparr>em_From = from, em_To = [trimSpace to], em_Subject = subject,
                em_Text = ''Open this link to '' @ act @ '': '' @ link\<rparr>)"

definition sendVerificationEmail :: "authEnv \<Rightarrow> string \<Rightarrow> string \<Rightarrow> string \<Rightarrow> unit action" where
  "sendVerificationEmail env email token redirectPath =
     sendAuthEmail env email ''Verify your email'' ''verify your email''
       (appRedirectURL env (''/verify-email?redirect_path='' @ queryEscape (safeRedirectPath redirectPath)
          @ ''&token='' @ queryEscape token))"

definition sendPasswordResetEmail :: "authEnv \<Rightarrow> string \<Rightarrow> string \<Rightarrow> unit action" where
  "sendPasswordResetEmail env email token =
     sendAuthEmail env email ''Reset your password'' ''reset your password''
       (appRedirectURL env (''/reset-password?token='' @ queryEscape token))"

definition sendInviteEmail :: "authEnv \<Rightarrow> string \<Rightarrow> string \<Rightarrow> unit action" where
  "sendInviteEmail env email token =
     sendAuthEmail env email ''You have been invited'' ''accept your invite''
       (appRedirectURL env (''/accept-invite?token='' @ queryEscape token))"

subsection \<open>Sign-up, verification, login\<close>

record EmailSignupParams =
  sp_Email :: string
  sp_Password :: string
  sp_DisplayName :: string
  sp_RedirectPath :: string

record EmailSignupResponse =
  se_RequiresEmailVerification :: bool
  se_Email :: string
  se_DevVerificationToken :: string

record EmailLoginParams =
  lp_Email :: string
  lp_Password :: string

record OKResponse =
  ok_OK :: bool
  ok_DevToken :: string

definition devToken :: "authEnv \<Rightarrow> string \<Rightarrow> string" where
  "devToken env token = (if ae_local env then token else [])"

definition SignupEmail :: "authEnv \<Rightarrow> EmailSignupParams option \<Rightarrow> EmailSignupResponse action" where
  "SignupEmail env params =
     abind (need params (invalidArgument ''request body is required'')) (\<lambda>p.
     abind (liftErr invalidArgument (normalizeEmail env (sp_Email p))) (\<lambda>normalizedEmail.
     abind (case validatePassword (sp_Password p) of None \<Rightarrow> aret () | Some e \<Rightarrow> afail (invalidArgument e)) (\<lambda>_.
     abind (liftErr Plain (hashPassword env (sp_Password p))) (\<lambda>passwordHash.
     abind (inTx env
       (abind (checkRateLimit env 0 ''signup_email'' normalizedEmail) (\<lambda>_.
        abind (atry (GetUserByNormalizedEmail normalizedEmail)) (\<lambda>known.
        abind (aguard (known = None) (alreadyExists ''email is already registered'')) (\<lambda>_.
        abind (onUnique (CreateUser
                 \<lparr>u_ID = ae_drawUUID env 1, u_DisplayName = defaultDisplayName normalizedEmail (sp_DisplayName p), u_AvatarUrl = [],
                  u_PrimaryEmail = displayEmail (sp_Email p), u_NormalizedPrimaryEmail = normalizedEmail,
                  u_EmailVerifiedAt = None, u_DisabledAt = None, u_CanImpersonateUsers = False\<rparr>)
                 (alreadyExists ''email is already registered'')) (\<lambda>user.
        abind (onUnique (CreateAuthIdentity
                 \<lparr>i_ID = ae_drawUUID env 2, i_UserID = u_ID user, i_Provider = identityProviderEmail,
                  i_ProviderSubject = normalizedEmail, i_Email = displayEmail (sp_Email p), i_NormalizedEmail = normalizedEmail,
                  i_PasswordHash = passwordHash\<rparr>)
                 (alreadyExists ''email is already registered'')) (\<lambda>_.
        abind (createOneTimeToken env 3 tokenPurposeEmailVerification (Some (u_ID user)) None (displayEmail (sp_Email p))
                 normalizedEmail [(''redirect_path'', safeRedirectPath (sp_RedirectPath p))] defaultEmailVerificationTTL) (\<lambda>rawToken.
        abind (recordEvent env 4 ''signup_email'' (Some (u_ID user)) None None None []) (\<lambda>_.
        aret rawToken))))))))) (\<lambda>rawToken.
     abind (aignore (sendVerificationEmail env (displayEmail (sp_Email p)) rawToken (safeRedirectPath (sp_RedirectPath p)))) (\<lambda>_.
     aret \<lparr>se_RequiresEmailVerification = True, se_Email = displayEmail (sp_Email p),
           se_DevVerificationToken = devToken env rawToken\<rparr>))))))"

definition ConfirmEmailVerification :: "authEnv \<Rightarrow> string option \<Rightarrow> AuthSessionResponse action" where
  "ConfirmEmailVerification env params =
     (case params of None \<Rightarrow> afail (invalidArgument ''token is required'') | Some token \<Rightarrow>
     if trimSpace token = [] then afail (invalidArgument ''token is required'')
     else inTx env
       (abind (onNoRows (ConsumeOneTimeToken (ae_now env) (tokenHash env token) tokenPurposeEmailVerification)
                 (invalidArgument ''verification token is invalid or expired'')) (\<lambda>oneTime.
        abind (need (k_UserID oneTime) (invalidArgument ''verification token is invalid'')) (\<lambda>userID.
        abind (MarkUserEmailVerified (ae_now env) userID) (\<lambda>user.
        abind (ensureActiveTenant env 0 user None) (\<lambda>tenantID.
        abind (createAuthSessionResponse env 2 user tenantID defaultRefreshSessionTTL None None []) (\<lambda>response.
        abind (recordEvent env 3 ''email_verified'' (Some (u_ID user)) None (Some tenantID) None []) (\<lambda>_.
        aret response))))))))"

definition ResendEmailVerification :: "authEnv \<Rightarrow> string option \<Rightarrow> OKResponse action" where
  "ResendEmailVerification env params =
     abind (need params (invalidArgument ''request body is required'')) (\<lambda>email.
     abind (liftErr invalidArgument (normalizeEmail env email)) (\<lambda>normalizedEmail.
     abind (inTx env
       (abind (checkRateLimit env 0 ''email_verification_resend'' normalizedEmail) (\<lambda>_.
        abind (atry (GetUserByNormalizedEmail normalizedEmail)) (\<lambda>known.
        case known of
          None \<Rightarrow> aret None
        | Some user \<Rightarrow>
          if u_EmailVerifiedAt user \<noteq> None then aret None
          else abind (createOneTimeToken env 1 tokenPurposeEmailVerification (Some (u_ID user)) None (displayEmail email)
                        normalizedEmail [] defaultEmailVerificationTTL) (\<lambda>rawToken. aret (Some rawToken)))))) (\<lambda>sent.
     case sent of
       None \<Rightarrow> aret \<lparr>ok_OK = True, ok_DevToken = []\<rparr>
     | Some rawToken \<Rightarrow>
       abind (aignore (sendVerificationEmail env (displayEmail email) rawToken [])) (\<lambda>_.
       aret \<lparr>ok_OK = True, ok_DevToken = devToken env rawToken\<rparr>))))"

definition LoginEmail :: "authEnv \<Rightarrow> EmailLoginParams option \<Rightarrow> AuthSessionResponse action" where
  "LoginEmail env params =
     abind (need params (invalidArgument ''request body is required'')) (\<lambda>p.
     abind (liftErr invalidArgument (normalizeEmail env (lp_Email p))) (\<lambda>normalizedEmail.
     inTx env
       (abind (checkRateLimit env 0 ''login_email'' normalizedEmail) (\<lambda>_.
        abind (onNoRows (GetEmailIdentityForLogin normalizedEmail) (unauthenticated ''email or password is invalid'')) (\<lambda>identity.
        abind (case verifyPassword env (lp_Password p) (i_PasswordHash identity) of
                 Inr (True, needsUpgrade) \<Rightarrow> aret needsUpgrade
               | _ \<Rightarrow> afail (unauthenticated ''email or password is invalid'')) (\<lambda>needsUpgrade.
        abind (if needsUpgrade
               then case hashPassword env (lp_Password p) of
                      Inl e \<Rightarrow> aret ()
                    | Inr nextHash \<Rightarrow> aignore (UpdateIdentityPasswordHash (i_ID identity) nextHash)
               else aret ()) (\<lambda>_.
        abind (GetUserByID (i_UserID identity)) (\<lambda>user.
        abind (aguard (u_EmailVerifiedAt user \<noteq> None) (failedPrecondition ''email verification is required'')) (\<lambda>_.
        abind (ensureActiveTenant env 1 user None) (\<lambda>tenantID.
        abind (createAuthSessionResponse env 3 user tenantID defaultRefreshSessionTTL None None []) (\<lambda>response.
        abind (recordEvent env 4 ''login_email'' (Some (u_ID user)) None (Some tenantID) None []) (\<lambda>_.
        aret response))))))))))))"

subsection \<open>Refresh sessions\<close>

definition rotateRefreshSession :: "authEnv \<Rightarrow> string \<Rightarrow> (sessionRow \<times> string) action" where
  "rotateRefreshSession env rawRefreshToken =
     abind (need (parseRefreshToken env rawRefreshToken) (unauthenticated ''refresh session is invalid'')) (\<lambda>sessionID.
     abind (onNoRows (GetRefreshSessionByID sessionID) (unauthenticated ''refresh session is invalid'')) (\<lambda>session.
     let now = ae_clock env;
         hash = tokenHash env rawRefreshToken;
         matchesCurrent = (hash = s_TokenHash session);
         matchesPrevious = (s_PreviousTokenHash session \<noteq> [] \<and> hash = s_PreviousTokenHash session
           \<and> (case s_PreviousTokenExpiresAt session of None \<Rightarrow> False | Some t \<Rightarrow> t > now))
     in abind (aguard (s_RevokedAt session = None \<and> s_ExpiresAt session > now) (unauthenticated ''refresh session is expired'')) (\<lambda>_.
        if \<not> matchesCurrent \<and> \<not> matchesPrevious
        then abind (aignore (RevokeRefreshSession (ae_now env) (s_ID session) ''refresh_replay'')) (\<lambda>_.
             afail (unauthenticated ''refresh session is invalid''))
        else abind (liftErr Plain (newRefreshToken env 0 (s_ID session))) (\<lambda>nextRawToken.
             abind (RotateRefreshSession (ae_now env) (s_ID session) (tokenHash env nextRawToken)
                      (refreshTokenReplayGrace div 1000000)) (\<lambda>rotated.
             aret (rotated, nextRawToken))))))"

definition refreshTokenFromParams :: "authEnv \<Rightarrow> string option \<Rightarrow> string" where
  "refreshTokenFromParams env params =
     (let cookie = (case ae_cookie env of None \<Rightarrow> [] | Some v \<Rightarrow> trimSpace v)
      in case params of None \<Rightarrow> cookie | Some t \<Rightarrow> if trimSpace t \<noteq> [] then trimSpace t else cookie)"

definition Refresh :: "authEnv \<Rightarrow> string option \<Rightarrow> AuthSessionResponse action" where
  "Refresh env params =
     (let rawRefreshToken = refreshTokenFromParams env params
      in if rawRefreshToken = [] then afail (unauthenticated ''refresh session is missing'')
         else inTx env
           (abind (rotateRefreshSession env rawRefreshToken) (\<lambda>(session, rawToken).
            abind (GetUserByID (s_UserID session)) (\<lambda>user.
            abind (ensureActiveTenant env 0 user (s_ActiveTenantID session)) (\<lambda>tenantID.
            abind (if \<not> sameUUID env (Some tenantID) (s_ActiveTenantID session)
                   then SetRefreshSessionTenant (s_ID session) tenantID else aret session) (\<lambda>session.
            abind (buildBootstrap env user tenantID (refOf session)) (\<lambda>bootstrap.
            abind (recordEvent env 2 ''refresh'' (Some (u_ID user)) (s_ActorUserID session) (Some tenantID) (Some (s_ID session)) []) (\<lambda>_.
            aret \<lparr>sr_Bootstrap = bootstrap, sr_SetCookie = refreshCookie env rawToken (s_ExpiresAt session)\<rparr>))))))))"

definition Logout :: "authEnv \<Rightarrow> string option \<Rightarrow> Cookie action" where
  "Logout env params =
     (let rawRefreshToken = refreshTokenFromParams env params
      in abind (if rawRefreshToken \<noteq> []
                then case parseRefreshToken env rawRefreshToken of
                       None \<Rightarrow> aret ()
                     | Some sessionID \<Rightarrow> aignore (RevokeRefreshSession (ae_now env) sessionID ''logout'')
                else aret ()) (\<lambda>_.
         aret (clearRefreshCookie env)))"

definition Me :: "authEnv \<Rightarrow> AuthBootstrapResponse action" where
  "Me env =
     abind (liftE (currentAuthData env)) (\<lambda>authData.
     abind (need (parseUUID env (d_UserID authData)) (unauthenticated ''invalid user id'')) (\<lambda>userID.
     abind (need (parseUUID env (d_TenantID authData)) (unauthenticated ''invalid tenant id'')) (\<lambda>tenantID.
     abind (GetUserByID userID) (\<lambda>user.
     abind (reads (\<lambda>db. if d_SessionID authData = [] then []
                         else case parseUUID env (d_SessionID authData) of
                                None \<Rightarrow> []
                              | Some i \<Rightarrow> (case GetRefreshSessionByID i db of (Inr row, _) \<Rightarrow> s_ImpersonationReason row | _ \<Rightarrow> []))) (\<lambda>reason.
     buildBootstrap env user tenantID
       \<lparr>sf_ID = (case nullableUUID env (d_SessionID authData) of Some i \<Rightarrow> i | None \<Rightarrow> None),
        sf_ActorUserID = (case nullableUUID env (d_ActorUserID authData) of Some i \<Rightarrow> i | None \<Rightarrow> None),
        sf_ImpersonationID = (case nullableUUID env (d_ImpersonationID authData) of Some i \<Rightarrow> i | None \<Rightarrow> None),
        sf_ImpersonationReason = reason\<rparr>)))))"

subsection \<open>Password reset\<close>

definition RequestPasswordReset :: "authEnv \<Rightarrow> string option \<Rightarrow> OKResponse action" where
  "RequestPasswordReset env params =
     abind (need params (invalidArgument ''request body is required'')) (\<lambda>email.
     abind (liftErr invalidArgument (normalizeEmail env email)) (\<lambda>normalizedEmail.
     abind (inTx env
       (abind (checkRateLimit env 0 ''password_reset_request'' normalizedEmail) (\<lambda>_.
        abind (atry (GetUserByNormalizedEmail normalizedEmail)) (\<lambda>known.
        case known of
          None \<Rightarrow> aret None
        | Some user \<Rightarrow>
          abind (createOneTimeToken env 1 tokenPurposePasswordReset (Some (u_ID user)) None (displayEmail email)
                   normalizedEmail [] defaultPasswordResetTTL) (\<lambda>rawToken. aret (Some rawToken)))))) (\<lambda>sent.
     case sent of
       None \<Rightarrow> aret \<lparr>ok_OK = True, ok_DevToken = []\<rparr>
     | Some rawToken \<Rightarrow>
       abind (aignore (sendPasswordResetEmail env (displayEmail email) rawToken)) (\<lambda>_.
       aret \<lparr>ok_OK = True, ok_DevToken = devToken env rawToken\<rparr>))))"

record PasswordResetConfirmParams =
  rp_Token :: string
  rp_NewPassword :: string

definition ConfirmPasswordReset :: "authEnv \<Rightarrow> PasswordResetConfirmParams option \<Rightarrow> AuthSessionResponse action" where
  "ConfirmPasswordReset env params =
     (case params of None \<Rightarrow> afail (invalidArgument ''token is required'') | Some p \<Rightarrow>
     if trimSpace (rp_Token p) = [] then afail (invalidArgument ''token is required'')
     else abind (liftErr invalidArgument (hashPassword env (rp_NewPassword p))) (\<lambda>passwordHash.
     inTx env
       (abind (onNoRows (ConsumeOneTimeToken (ae_now env) (tokenHash env (rp_Token p)) tokenPurposePasswordReset)
                 (invalidArgument ''password reset token is invalid or expired'')) (\<lambda>oneTime.
        abind (need (k_UserID oneTime) (invalidArgument ''password reset token is invalid'')) (\<lambda>userID.
        abind (GetEmailIdentityForLogin (k_NormalizedEmail oneTime)) (\<lambda>identity.
        abind (UpdateIdentityPasswordHash (i_ID identity) passwordHash) (\<lambda>_.
        abind (MarkUserEmailVerified (ae_now env) userID) (\<lambda>user.
        abind (RevokeUserRefreshSessions (ae_now env) (u_ID user) ''password_reset'') (\<lambda>_.
        abind (ensureActiveTenant env 0 user None) (\<lambda>tenantID.
        abind (createAuthSessionResponse env 2 user tenantID defaultRefreshSessionTTL None None []) (\<lambda>response.
        abind (recordEvent env 3 ''password_reset'' (Some (u_ID user)) None (Some tenantID) None []) (\<lambda>_.
        aret response))))))))))))"

subsection \<open>Impersonation\<close>

record StartImpersonationParams =
  ip_TargetUserID :: string
  ip_TenantID :: string
  ip_Reason :: string

definition StartImpersonation :: "authEnv \<Rightarrow> StartImpersonationParams option \<Rightarrow> AuthSessionResponse action" where
  "StartImpersonation env params =
     (case params of None \<Rightarrow> afail (invalidArgument ''target_user_id is required'') | Some p \<Rightarrow>
     if trimSpace (ip_TargetUserID p) = [] then afail (invalidArgument ''target_user_id is required'')
     else let reason = trimSpace (ip_Reason p) in
     abind (aguard (reason \<noteq> []) (invalidArgument ''reason is required'')) (\<lambda>_.
     abind (liftE (currentAuthData env)) (\<lambda>authData.
     abind (need (parseUUID env (d_UserID authData)) (unauthenticated ''invalid user id'')) (\<lambda>actorUserID.
     abind (need (parseUUID env (ip_TargetUserID p)) (invalidArgument ''target_user_id is invalid'')) (\<lambda>targetUserID.
     abind (need (nullableUUID env (ip_TenantID p)) (invalidArgument ''tenant_id is invalid'')) (\<lambda>preferredTenantID.
     inTx env
       (abind (GetUserByID actorUserID) (\<lambda>actor.
        abind (aguard (u_CanImpersonateUsers actor \<and> u_DisabledAt actor = None)
                 (permissionDenied ''platform impersonation permission is required'')) (\<lambda>_.
        abind (GetUserByID targetUserID) (\<lambda>target.
        abind (aguard (u_DisabledAt target = None) (permissionDenied ''target user is disabled'')) (\<lambda>_.
        abind (ensureActiveTenant env 0 target preferredTenantID) (\<lambda>tenantID.
        abind (createAuthSessionResponse env 3 target tenantID defaultImpersonationTTL (Some (u_ID actor))
                 (Some (ae_drawUUID env 2)) reason) (\<lambda>response.
        abind (recordEvent env 4 ''impersonation_started'' (Some (u_ID target)) (Some (u_ID actor)) (Some tenantID) None
                 [(''reason'', reason)]) (\<lambda>_.
        aret response))))))))))))))"

definition StopImpersonation :: "authEnv \<Rightarrow> AuthSessionResponse action" where
  "StopImpersonation env =
     abind (liftE (currentAuthData env)) (\<lambda>authData.
     abind (aguard (Impersonating authData) (failedPrecondition ''not impersonating'')) (\<lambda>_.
     abind (need (parseUUID env (d_ActorUserID authData)) (unauthenticated ''invalid actor user id'')) (\<lambda>actorUserID.
     let currentSessionID = (case nullableUUID env (d_SessionID authData) of Some i \<Rightarrow> i | None \<Rightarrow> None) in
     inTx env
       (abind (case currentSessionID of None \<Rightarrow> aret ()
               | Some i \<Rightarrow> aignore (RevokeRefreshSession (ae_now env) i ''impersonation_stopped'')) (\<lambda>_.
        abind (GetUserByID actorUserID) (\<lambda>actor.
        abind (ensureActiveTenant env 0 actor None) (\<lambda>tenantID.
        abind (createAuthSessionResponse env 2 actor tenantID defaultRefreshSessionTTL None None []) (\<lambda>response.
        abind (recordEvent env 3 ''impersonation_stopped'' (Some (u_ID actor)) None (Some tenantID) currentSessionID []) (\<lambda>_.
        aret response)))))))))"

end
