(* ===== verification/AuthOrganizations.thy ===== *)
theory AuthOrganizations
  imports AuthService
begin

text \<open>
  Workspaces of the standard auth service: \<open>auth/standard_organizations.go\<close>, the sign-in with Google after its identity token was
  checked (\<open>finishGoogleSignIn\<close> of \<open>standard_google.go\<close>), and \<open>DevBootstrap\<close> of \<open>standard_dev.go\<close>.  The
  metadata of an invite is the map that was stored, not its JSON text.  The last section collects the handlers into one
  type of requests and one function that serves them.
\<close>

section \<open>Definitions\<close>

subsection \<open>Helpers\<close>

definition tokenPurposeInviteAcceptance :: string where "tokenPurposeInviteAcceptance = ''invite_acceptance''"

definition requireOwner :: "uuid \<Rightarrow> uuid \<Rightarrow> unit action" where
  "requireOwner userID tenantID =
     abind (onNoRows (GetActiveMembership userID tenantID) (permissionDenied ''workspace access is disabled'')) (\<lambda>membership.
     aguard (m_Role membership = roleOwner) (permissionDenied ''workspace owner role is required''))"

definition ensureCanRemoveOwner :: "uuid \<Rightarrow> unit action" where
  "ensureCanRemoveOwner tenantID =
     abind (reads (CountActiveOwners tenantID)) (\<lambda>ownerCount.
     aguard (\<not> ownerCount \<le> 1) (failedPrecondition ''workspace must retain at least one owner''))"

definition sessionForAuthData :: "authEnv \<Rightarrow> nat \<Rightarrow> AuthData \<Rightarrow> uuid \<Rightarrow> sessionRef action" where
  "sessionForAuthData env n authData tenantID =
     (if trimSpace (d_SessionID authData) = []
      then aret \<lparr>sf_ID = Some (ae_drawUUID env n),
             sf_ActorUserID = (case nullableUUID env (d_ActorUserID authData) of Some i \<Rightarrow> i | None \<Rightarrow> None),
             sf_ImpersonationID = (case nullableUUID env (d_ImpersonationID authData) of Some i \<Rightarrow> i | None \<Rightarrow> None),
             sf_ImpersonationReason = []\<rparr>
      else abind (need (parseUUID env (d_SessionID authData)) (unauthenticated ''invalid session id'')) (\<lambda>sessionID.
           abind (SetRefreshSessionTenant sessionID tenantID) (\<lambda>session. aret (refOf session))))"

definition memberMutationIDs :: "authEnv \<Rightarrow> string \<Rightarrow> string \<Rightarrow> (uuid \<times> uuid \<times> uuid) action" where
  "memberMutationIDs env tenantID targetUserID =
     abind (liftE (currentAuthData env)) (\<lambda>authData.
     abind (need (parseUUID env tenantID) (invalidArgument ''tenant_id is invalid'')) (\<lambda>tenantUUID.
     abind (need (parseUUID env targetUserID) (invalidArgument ''user_id is invalid'')) (\<lambda>targetUUID.
     abind (need (parseUUID env (d_UserID authData)) (unauthenticated ''invalid user id'')) (\<lambda>actorUUID.
     aret (tenantUUID, targetUUID, actorUUID)))))"

subsection \<open>Workspaces\<close>

record ListOrganizationsResponse =
  lo_CurrentTenantID :: string
  lo_Sessions :: "OrganizationSession list"

definition ListOrganizations :: "authEnv \<Rightarrow> ListOrganizationsResponse action" where
  "ListOrganizations env =
     abind (liftE (currentAuthData env)) (\<lambda>authData.
     abind (need (parseUUID env (d_UserID authData)) (unauthenticated ''invalid user id'')) (\<lambda>userID.
     abind (reads (ListUserMemberships userID)) (\<lambda>memberships.
     aret \<lparr>lo_CurrentTenantID = trimSpace (d_TenantID authData), lo_Sessions = map (mapOrganization env) memberships\<rparr>)))"

definition CreateOrganization :: "authEnv \<Rightarrow> string option \<Rightarrow> AuthBootstrapResponse action" where
  "CreateOrganization env params =
     (case params of None \<Rightarrow> afail (invalidArgument ''name is required'') | Some name \<Rightarrow>
     if trimSpace name = [] then afail (invalidArgument ''name is required'')
     else
     abind (liftE (currentAuthData env)) (\<lambda>authData.
     abind (need (parseUUID env (d_UserID authData)) (unauthenticated ''invalid user id'')) (\<lambda>userID.
     inTx env
       (abind (GetUserByID userID) (\<lambda>user.
        abind (aguard (u_EmailVerifiedAt user \<noteq> None) (failedPrecondition ''email verification is required'')) (\<lambda>_.
        abind (CreateTenant (ae_drawUUID env 0) (trimSpace name)) (\<lambda>tenant.
        abind (CreateOrganizationMembership (newMembership (ae_drawUUID env 1) (t_ID tenant) (u_ID user) roleOwner)) (\<lambda>_.
        abind (sessionForAuthData env 2 authData (t_ID tenant)) (\<lambda>session.
        abind (buildBootstrap env user (t_ID tenant) session) (\<lambda>bootstrap.
        abind (recordEvent env 3 ''organization_created'' (Some (u_ID user)) None (Some (t_ID tenant)) (sf_ID session) []) (\<lambda>_.
        aret bootstrap)))))))))))"

definition SwitchOrganization :: "authEnv \<Rightarrow> string option \<Rightarrow> AuthBootstrapResponse action" where
  "SwitchOrganization env params =
     (case params of None \<Rightarrow> afail (invalidArgument ''tenant_id is required'') | Some tenant \<Rightarrow>
     if trimSpace tenant = [] then afail (invalidArgument ''tenant_id is required'')
     else
     abind (liftE (currentAuthData env)) (\<lambda>authData.
     abind (need (parseUUID env (d_UserID authData)) (unauthenticated ''invalid user id'')) (\<lambda>userID.
     abind (need (parseUUID env tenant) (invalidArgument ''tenant_id is invalid'')) (\<lambda>tenantID.
     inTx env
       (abind (onNoRows (GetActiveMembership userID tenantID) (permissionDenied ''workspace access is disabled'')) (\<lambda>_.
        abind (GetUserByID userID) (\<lambda>user.
        abind (sessionForAuthData env 0 authData tenantID) (\<lambda>session.
        abind (buildBootstrap env user tenantID session) (\<lambda>bootstrap.
        abind (recordEvent env 1 ''organization_switched'' (Some (u_ID user)) (sf_ActorUserID session) (Some tenantID) (sf_ID session) []) (\<lambda>_.
        aret bootstrap))))))))))"

definition UpdateOrganization :: "authEnv \<Rightarrow> string \<Rightarrow> string option \<Rightarrow> AuthBootstrapResponse action" where
  "UpdateOrganization env tenantID params =
     (case params of None \<Rightarrow> afail (invalidArgument ''name is required'') | Some name \<Rightarrow>
     if trimSpace name = [] then afail (invalidArgument ''name is required'')
     else
     abind (liftE (currentAuthData env)) (\<lambda>authData.
     abind (need (parseUUID env tenantID) (invalidArgument ''tenant_id is invalid'')) (\<lambda>tenantUUID.
     abind (need (parseUUID env (d_UserID authData)) (unauthenticated ''invalid user id'')) (\<lambda>userID.
     inTx env
       (abind (requireOwner userID tenantUUID) (\<lambda>_.
        abind (UpdateTenantName tenantUUID (trimSpace name)) (\<lambda>_.
        abind (GetUserByID userID) (\<lambda>user.
        abind (sessionForAuthData env 0 authData tenantUUID) (\<lambda>session.
        abind (buildBootstrap env user tenantUUID session) (\<lambda>bootstrap.
        abind (recordEvent env 1 ''organization_updated'' (Some (u_ID user)) (sf_ActorUserID session) (Some tenantUUID) (sf_ID session) []) (\<lambda>_.
        aret bootstrap)))))))))))"

definition DeleteOrganization :: "authEnv \<Rightarrow> string \<Rightarrow> AuthBootstrapResponse action" where
  "DeleteOrganization env tenantID =
     abind (liftE (currentAuthData env)) (\<lambda>authData.
     abind (need (parseUUID env tenantID) (invalidArgument ''tenant_id is invalid'')) (\<lambda>tenantUUID.
     abind (need (parseUUID env (d_UserID authData)) (unauthenticated ''invalid user id'')) (\<lambda>userID.
     inTx env
       (abind (requireOwner userID tenantUUID) (\<lambda>_.
        abind (SoftDeleteTenant (ae_now env) tenantUUID) (\<lambda>_.
        abind (GetUserByID userID) (\<lambda>user.
        abind (ensureActiveTenant env 0 user None) (\<lambda>nextTenant.
        abind (sessionForAuthData env 2 authData nextTenant) (\<lambda>session.
        abind (buildBootstrap env user nextTenant session) (\<lambda>bootstrap.
        abind (recordEvent env 3 ''organization_deleted'' (Some (u_ID user)) (sf_ActorUserID session) (Some tenantUUID) (sf_ID session) []) (\<lambda>_.
        aret bootstrap)))))))))))"

subsection \<open>Members\<close>

record OrganizationMember =
  om_UserID :: string
  om_Email :: string
  om_DisplayName :: string
  om_AvatarURL :: string
  om_Role :: string
  om_Disabled :: bool

definition mapMember :: "authEnv \<Rightarrow> membershipRow \<times> userRow \<Rightarrow> OrganizationMember" where
  "mapMember env r = \<lparr>om_UserID = uuidString env (Some (m_UserID (fst r))), om_Email = trimSpace (u_PrimaryEmail (snd r)),
     om_DisplayName = trimSpace (u_DisplayName (snd r)), om_AvatarURL = trimSpace (u_AvatarUrl (snd r)),
     om_Role = trimSpace (m_Role (fst r)), om_Disabled = (m_DisabledAt (fst r) \<noteq> None \<or> u_DisabledAt (snd r) \<noteq> None)\<rparr>"

definition ListOrganizationMembers :: "authEnv \<Rightarrow> string \<Rightarrow> OrganizationMember list action" where
  "ListOrganizationMembers env tenantID =
     abind (liftE (currentAuthData env)) (\<lambda>authData.
     abind (need (parseUUID env (d_UserID authData)) (unauthenticated ''invalid user id'')) (\<lambda>userID.
     abind (need (parseUUID env tenantID) (invalidArgument ''tenant_id is invalid'')) (\<lambda>tenantUUID.
     abind (onNoRows (GetActiveMembership userID tenantUUID) (permissionDenied ''workspace access is disabled'')) (\<lambda>_.
     abind (reads (ListTenantMembers tenantUUID)) (\<lambda>rows.
     aret (map (mapMember env) rows))))))"

record InviteMemberParams =
  iv_Email :: string
  iv_Role :: string

record InviteMemberResponse =
  ir_OK :: bool
  ir_Email :: string
  ir_DevInviteToken :: string

definition InviteOrganizationMember :: "authEnv \<Rightarrow> string \<Rightarrow> InviteMemberParams option \<Rightarrow> InviteMemberResponse action" where
  "InviteOrganizationMember env tenantID params =
     abind (need params (invalidArgument ''request body is required'')) (\<lambda>p.
     abind (liftErr invalidArgument (normalizeEmail env (iv_Email p))) (\<lambda>normalizedEmail.
     let role = (if trimSpace (iv_Role p) = [] then roleMember else trimSpace (iv_Role p)) in
     abind (aguard (role = roleOwner \<or> role = roleMember) (invalidArgument ''role must be owner or member'')) (\<lambda>_.
     abind (liftE (currentAuthData env)) (\<lambda>authData.
     abind (need (parseUUID env (d_UserID authData)) (unauthenticated ''invalid user id'')) (\<lambda>userID.
     abind (need (parseUUID env tenantID) (invalidArgument ''tenant_id is invalid'')) (\<lambda>tenantUUID.
     abind (inTx env
       (abind (requireOwner userID tenantUUID) (\<lambda>_.
        abind (createOneTimeToken env 0 tokenPurposeInviteAcceptance (Some userID) (Some tenantUUID) (displayEmail (iv_Email p))
                 normalizedEmail [(''role'', role)] defaultInviteTTL) (\<lambda>rawToken.
        abind (recordEvent env 1 ''invite_created'' (Some userID) None (Some tenantUUID) None
                 [(''email'', normalizedEmail), (''role'', role)]) (\<lambda>_.
        aret rawToken))))) (\<lambda>rawToken.
     abind (aignore (sendInviteEmail env (displayEmail (iv_Email p)) rawToken)) (\<lambda>_.
     aret \<lparr>ir_OK = True, ir_Email = displayEmail (iv_Email p), ir_DevInviteToken = devToken env rawToken\<rparr>))))))))"

definition AcceptInvite :: "authEnv \<Rightarrow> string option \<Rightarrow> AuthBootstrapResponse action" where
  "AcceptInvite env params =
     (case params of None \<Rightarrow> afail (invalidArgument ''token is required'') | Some token \<Rightarrow>
     if trimSpace token = [] then afail (invalidArgument ''token is required'')
     else
     abind (liftE (currentAuthData env)) (\<lambda>authData.
     abind (need (parseUUID env (d_UserID authData)) (unauthenticated ''invalid user id'')) (\<lambda>userID.
     inTx env
       (abind (GetUserByID userID) (\<lambda>user.
        abind (aguard (u_EmailVerifiedAt user \<noteq> None) (failedPrecondition ''email verification is required'')) (\<lambda>_.
        abind (onNoRows (ConsumeOneTimeToken (ae_now env) (tokenHash env token) tokenPurposeInviteAcceptance)
                 (invalidArgument ''invite token is invalid or expired'')) (\<lambda>oneTime.
        abind (need (k_TenantID oneTime) (invalidArgument ''invite token is invalid'')) (\<lambda>tenantID.
        abind (aguard (toLower (trimSpace (u_NormalizedPrimaryEmail user)) = toLower (trimSpace (k_NormalizedEmail oneTime)))
                 (permissionDenied ''invite email does not match signed-in user'')) (\<lambda>_.
        let role = (if map_of (k_Metadata oneTime) ''role'' = Some roleOwner then roleOwner else roleMember) in
        abind (CreateOrganizationMembership
                 \<lparr>m_ID = ae_drawUUID env 0, m_TenantID = tenantID, m_UserID = u_ID user, m_Role = role, m_DisabledAt = None,
                  m_InvitedByUserID = k_UserID oneTime, m_InvitedAt = Some (ae_clock env)\<rparr>) (\<lambda>_.
        abind (sessionForAuthData env 1 authData tenantID) (\<lambda>session.
        abind (buildBootstrap env user tenantID session) (\<lambda>bootstrap.
        abind (recordEvent env 2 ''invite_accepted'' (Some (u_ID user)) (sf_ActorUserID session) (Some tenantID) (sf_ID session) []) (\<lambda>_.
        aret bootstrap)))))))))))))"

definition UpdateOrganizationMemberRole :: "authEnv \<Rightarrow> string \<Rightarrow> string \<Rightarrow> string option \<Rightarrow> OrganizationMember list action" where
  "UpdateOrganizationMemberRole env tenantID userID params =
     abind (case params of
              Some role \<Rightarrow> (if role \<noteq> roleOwner \<and> role \<noteq> roleMember then afail (invalidArgument ''role must be owner or member'') else aret role)
            | None \<Rightarrow> afail (invalidArgument ''role must be owner or member'')) (\<lambda>role.
     abind (memberMutationIDs env tenantID userID) (\<lambda>(tenantUUID, targetUserID, actorUserID).
     abind (inTx env
       (abind (requireOwner actorUserID tenantUUID) (\<lambda>_.
        abind (GetActiveMembership targetUserID tenantUUID) (\<lambda>current.
        abind (if m_Role current = roleOwner \<and> role = roleMember then ensureCanRemoveOwner tenantUUID else aret ()) (\<lambda>_.
        abind (UpdateMembershipRole tenantUUID targetUserID role) (\<lambda>_.
        aret ())))))) (\<lambda>_.
     ListOrganizationMembers env tenantID)))"

definition DisableOrganizationMember :: "authEnv \<Rightarrow> string \<Rightarrow> string option \<Rightarrow> OrganizationMember list action" where
  "DisableOrganizationMember env tenantID params =
     (case params of None \<Rightarrow> afail (invalidArgument ''user_id is required'') | Some userID \<Rightarrow>
     if trimSpace userID = [] then afail (invalidArgument ''user_id is required'')
     else
     abind (memberMutationIDs env tenantID userID) (\<lambda>(tenantUUID, targetUserID, actorUserID).
     abind (inTx env
       (abind (requireOwner actorUserID tenantUUID) (\<lambda>_.
        abind (GetActiveMembership targetUserID tenantUUID) (\<lambda>current.
        abind (if m_Role current = roleOwner then ensureCanRemoveOwner tenantUUID else aret ()) (\<lambda>_.
        abind (DisableMembership (ae_now env) tenantUUID targetUserID) (\<lambda>_.
        aret ())))))) (\<lambda>_.
     ListOrganizationMembers env tenantID)))"

end
