(* ===== verification/AuthGoogle.thy ===== *)
theory AuthGoogle
  imports AuthService
begin

text \<open>
  Sign-in with Google and the development bootstrap: \<open>auth/standard_google.go\<close> and \<open>standard_dev.go\<close>.  The exchange of
  the code at Google's token endpoint and the parsing of its signed identity token are fields of \<open>googleEnv\<close>; the checks
  the service makes on what they return are here.
\<close>

section \<open>Definitions\<close>

definition identityProviderGoogle :: string where "identityProviderGoogle = ''google''"
definition defaultOAuthStateTTL :: int where "defaultOAuthStateTTL = 10 * 60 * 1000000000"

record googleIDClaims =
  gc_Email :: string
  gc_EmailVerified :: bool
  gc_Name :: string
  gc_Picture :: string
  gc_Nonce :: string
  gc_Issuer :: string
  gc_Subject :: string

record googleEnv =
  g_ClientID :: string
  g_ClientSecret :: string
  g_exchange :: "string \<Rightarrow> string \<Rightarrow> string \<Rightarrow> string option"
  g_parse :: "string \<Rightarrow> googleIDClaims option"

text \<open>The request: its URL query, host and forwarded scheme.\<close>

record googleReq =
  gq_query :: "(string, string) gomap"
  gq_Host :: string
  gq_ForwardedProto :: string

datatype httpReply =
    HttpError string nat
  | Redirect string
  | RedirectCookie string Cookie

definition queryGet :: "googleReq \<Rightarrow> string \<Rightarrow> string" where
  "queryGet req k = (case map_of (gq_query req) k of None \<Rightarrow> [] | Some v \<Rightarrow> v)"

definition googleRedirectURI :: "authEnv \<Rightarrow> googleReq \<Rightarrow> string" where
  "googleRedirectURI env req =
     (let base = trimRightSlash (trimSpace (ae_APIBaseURL env));
          scheme = trimSpace (gq_ForwardedProto req);
          scheme = (if scheme = [] then (if ae_local env then ''http'' else ''https'') else scheme);
          host = trimSpace (gq_Host req);
          base = (if base = [] \<and> host \<noteq> [] then scheme @ ''://'' @ host else base);
          base = (if base = [] then ''https://api.scenery.localhost'' else base)
      in base @ ''/auth/google/callback'')"

definition googleAuthEndpoint :: string where
  "googleAuthEndpoint = ''https://accounts.google.com/o/oauth2/v2/auth''"

text \<open>\<open>url.Values.Encode\<close> writes the parameters in the order of their names.\<close>

definition encodeQuery :: "(string \<times> string) list \<Rightarrow> string" where
  "encodeQuery ps = joinWith ''&'' (map (\<lambda>(k, v). queryEscape k @ ''='' @ queryEscape v) ps)"

definition GoogleStart :: "authEnv \<Rightarrow> googleEnv \<Rightarrow> googleReq \<Rightarrow> authDB \<Rightarrow> httpReply \<times> authDB" where
  "GoogleStart env g req db =
     (if trimSpace (g_ClientID g) = [] \<or> trimSpace (g_ClientSecret g) = []
      then (HttpError ''Google OAuth is not configured'' 503, db)
      else
        let state = ae_drawToken env 0; verifier = ae_drawToken env 1; nonce = ae_drawToken env 2
        in case CreateOAuthState \<lparr>oa_ID = ae_drawUUID env 0, oa_StateHash = tokenHash env state, oa_PkceVerifier = verifier,
                  oa_NonceHash = tokenHash env nonce, oa_RedirectPath = safeRedirectPath (queryGet req ''redirect_path''),
                  oa_ExpiresAt = ae_clock env + defaultOAuthStateTTL, oa_ConsumedAt = None\<rparr> db of
             (Inl e, db) \<Rightarrow> (HttpError ''failed to store oauth state'' 500, db)
           | (Inr _, db) \<Rightarrow>
             (Redirect (googleAuthEndpoint @ ''?'' @ encodeQuery
                [(''client_id'', trimSpace (g_ClientID g)),
                 (''code_challenge'', rawURLEncode (ae_sha256 env verifier)),
                 (''code_challenge_method'', ''S256''),
                 (''nonce'', nonce),
                 (''prompt'', ''select_account''),
                 (''redirect_uri'', googleRedirectURI env req),
                 (''response_type'', ''code''),
                 (''scope'', ''openid email profile''),
                 (''state'', state)]), db))"

definition exchangeGoogleCode :: "googleEnv \<Rightarrow> string \<Rightarrow> string \<Rightarrow> string \<Rightarrow> string option" where
  "exchangeGoogleCode g code verifier redirectURI =
     (case g_exchange g code verifier redirectURI of
        None \<Rightarrow> None
      | Some t \<Rightarrow> if trimSpace t = [] then None else Some t)"

definition verifyGoogleIDToken :: "googleEnv \<Rightarrow> string \<Rightarrow> googleIDClaims option" where
  "verifyGoogleIDToken g rawIDToken =
     (case g_parse g rawIDToken of
        None \<Rightarrow> None
      | Some claims \<Rightarrow>
        let issuer = trimSpace (gc_Issuer claims)
        in if issuer \<noteq> ''accounts.google.com'' \<and> issuer \<noteq> ''https://accounts.google.com'' then None
           else if trimSpace (gc_Subject claims) = [] then None
           else Some claims)"

definition googleUser :: "authEnv \<Rightarrow> googleIDClaims \<Rightarrow> string \<Rightarrow> userRow action" where
  "googleUser env claims normalizedEmail =
     abind (atry (GetAuthIdentityByProviderSubject identityProviderGoogle (trimSpace (gc_Subject claims)))) (\<lambda>known.
     case known of
       Some identity \<Rightarrow>
         abind (GetUserByID (i_UserID identity)) (\<lambda>user.
         UpdateUserProfileFromProvider (u_ID user) (trimSpace (gc_Name claims)) (trimSpace (gc_Picture claims)))
     | None \<Rightarrow>
         abind (atry (GetUserByNormalizedEmail normalizedEmail)) (\<lambda>existing.
         abind (case existing of
                  None \<Rightarrow> CreateUser
                    \<lparr>u_ID = ae_drawUUID env 0, u_DisplayName = defaultDisplayName normalizedEmail (gc_Name claims),
                     u_AvatarUrl = trimSpace (gc_Picture claims), u_PrimaryEmail = trimSpace (gc_Email claims),
                     u_NormalizedPrimaryEmail = normalizedEmail, u_EmailVerifiedAt = Some (ae_clock env), u_DisabledAt = None,
                     u_CanImpersonateUsers = False\<rparr>
                | Some user \<Rightarrow>
                    (if u_EmailVerifiedAt user = None
                     then afail (failedPrecondition ''verify the email/password account before linking Google'')
                     else aret user)) (\<lambda>user.
         abind (CreateAuthIdentity
                  \<lparr>i_ID = ae_drawUUID env 1, i_UserID = u_ID user, i_Provider = identityProviderGoogle,
                   i_ProviderSubject = trimSpace (gc_Subject claims), i_Email = trimSpace (gc_Email claims),
                   i_NormalizedEmail = normalizedEmail, i_PasswordHash = []\<rparr>) (\<lambda>_.
         aret user))))"

definition finishGoogleSignIn :: "authEnv \<Rightarrow> googleIDClaims \<Rightarrow> AuthSessionResponse action" where
  "finishGoogleSignIn env claims =
     abind (liftErr Plain (normalizeEmail env (gc_Email claims))) (\<lambda>normalizedEmail.
     inTx env
       (abind (googleUser env claims normalizedEmail) (\<lambda>user.
        abind (ensureActiveTenant env 2 user None) (\<lambda>tenantID.
        abind (createAuthSessionResponse env 4 user tenantID defaultRefreshSessionTTL None None []) (\<lambda>response.
        abind (recordEvent env 5 ''login_google'' (Some (u_ID user)) None (Some tenantID) None []) (\<lambda>_.
        aret response))))))"

definition GoogleCallback :: "authEnv \<Rightarrow> googleEnv \<Rightarrow> googleReq \<Rightarrow> authDB \<Rightarrow> httpReply \<times> authDB" where
  "GoogleCallback env g req db =
     (let state = trimSpace (queryGet req ''state''); code = trimSpace (queryGet req ''code'')
      in if trimSpace (queryGet req ''error'') \<noteq> [] then (Redirect (appRedirectURL env ''/sign-in?error=google_oauth''), db)
      else if state = [] \<or> code = [] then (HttpError ''missing oauth callback parameters'' 400, db)
      else case ConsumeOAuthState (ae_now env) (tokenHash env state) db of
        (Inl e, db) \<Rightarrow> (HttpError ''oauth state is invalid or expired'' 400, db)
      | (Inr oauthState, db) \<Rightarrow>
        case exchangeGoogleCode g code (oa_PkceVerifier oauthState) (googleRedirectURI env req) of
          None \<Rightarrow> (HttpError ''failed to exchange google code'' 502, db)
        | Some idToken \<Rightarrow>
          case verifyGoogleIDToken g idToken of
            None \<Rightarrow> (HttpError ''google id token is invalid'' 401, db)
          | Some claims \<Rightarrow>
            if \<not> gc_EmailVerified claims then (HttpError ''google email is not verified'' 403, db)
            else if oa_NonceHash oauthState \<noteq> [] \<and> tokenHash env (gc_Nonce claims) \<noteq> oa_NonceHash oauthState
            then (HttpError ''google nonce mismatch'' 401, db)
            else case finishGoogleSignIn env claims db of
              (Inl e, db) \<Rightarrow> (HttpError ''failed to finish google sign-in'' 500, db)
            | (Inr response, db) \<Rightarrow> (RedirectCookie (appRedirectURL env (oa_RedirectPath oauthState)) (sr_SetCookie response), db))"

subsection \<open>The development bootstrap\<close>

definition maxDevBootstrapClaimLength :: nat where "maxDevBootstrapClaimLength = 200"

record DevBootstrapConfig =
  dc_Enabled :: bool
  dc_DefaultUserEmail :: string
  dc_DefaultUserID :: string
  dc_DefaultTenantID :: string
  dc_TokenTTL :: int

record DevBootstrapParams =
  dp_UserID :: string
  dp_TenantID :: string

fun firstNonEmpty :: "string list \<Rightarrow> string" where
  "firstNonEmpty [] = []"
| "firstNonEmpty (v # vs) = (if trimSpace v \<noteq> [] then v else firstNonEmpty vs)"

definition normalizeDevBootstrapClaim :: "string \<Rightarrow> string \<Rightarrow> string \<Rightarrow> string + string" where
  "normalizeDevBootstrapClaim raw fallback field =
     (let v = trimSpace raw
      in if v = [] then Inr fallback
         else if length v > maxDevBootstrapClaimLength
         then Inl (field @ '' must be <= '' @ itoaNat maxDevBootstrapClaimLength @ '' characters'')
         else if list_ex (\<lambda>c. c \<in> {char_of (13 :: nat), char_of (10 :: nat), char_of (0 :: nat)}) v
         then Inl (field @ '' contains invalid characters'')
         else Inr v)"

definition resolveDevBootstrapEmailDefault :: "authEnv \<Rightarrow> string \<Rightarrow> string \<Rightarrow> (string \<times> string) action" where
  "resolveDevBootstrapEmailDefault env email preferredTenantID =
     abind (liftErr invalidArgument (normalizeEmail env email)) (\<lambda>normalizedEmail.
     abind (onNoRows (GetUserByNormalizedEmail normalizedEmail) (coded NotFound ''default user email not found'')) (\<lambda>user.
     abind (aguard (u_DisabledAt user = None) (permissionDenied ''default user is disabled'')) (\<lambda>_.
     abind (if trimSpace preferredTenantID \<noteq> []
            then abind (need (parseUUID env preferredTenantID) (invalidArgument ''tenant_id is invalid'')) (\<lambda>i. aret (Some i))
            else aret None) (\<lambda>preferredTenant.
     abind (reads (ListUserMemberships (u_ID user))) (\<lambda>memberships.
     case find (\<lambda>r. preferredTenant \<noteq> None \<and> sameUUID env (Some (m_TenantID (fst r))) preferredTenant) memberships of
       Some r \<Rightarrow> aret (uuidString env (Some (u_ID user)), uuidString env (Some (m_TenantID (fst r))))
     | None \<Rightarrow>
       if preferredTenant \<noteq> None then afail (permissionDenied ''default user is not a member of the configured tenant'')
       else case memberships of
              [] \<Rightarrow> afail (failedPrecondition ''default user has no active tenant memberships'')
            | r # _ \<Rightarrow> aret (uuidString env (Some (u_ID user)), uuidString env (Some (m_TenantID (fst r)))))))))"

definition GenerateToken :: "authEnv \<Rightarrow> string \<Rightarrow> string \<Rightarrow> int \<Rightarrow> authErr + string" where
  "GenerateToken env uid tid expiresIn =
     GenerateAccessToken env \<lparr>o_UserID = uid, o_TenantID = tid, o_SessionID = [], o_ActorUserID = [], o_ImpersonationID = [],
       o_ExpiresIn = expiresIn, o_Now = ae_clock env\<rparr>"

definition DevBootstrap :: "authEnv \<Rightarrow> DevBootstrapConfig \<Rightarrow> DevBootstrapParams option \<Rightarrow> string action" where
  "DevBootstrap env cfg params =
     (let rawUserID = (case params of None \<Rightarrow> [] | Some p \<Rightarrow> dp_UserID p);
          rawTenantID = (case params of None \<Rightarrow> [] | Some p \<Rightarrow> dp_TenantID p)
      in
     abind (aguard (dc_Enabled cfg) (coded NotFound ''endpoint not found'')) (\<lambda>_.
     abind (aguard (ae_local env) (coded PermissionDenied ''dev bootstrap is only allowed in local environments'')) (\<lambda>_.
     abind (if trimSpace rawUserID = [] \<and> trimSpace (dc_DefaultUserEmail cfg) \<noteq> []
            then resolveDevBootstrapEmailDefault env (dc_DefaultUserEmail cfg) (firstNonEmpty [rawTenantID, dc_DefaultTenantID cfg])
            else abind (liftErr invalidArgument (normalizeDevBootstrapClaim rawUserID (dc_DefaultUserID cfg) ''user_id'')) (\<lambda>userID.
                 abind (liftErr invalidArgument (normalizeDevBootstrapClaim rawTenantID (dc_DefaultTenantID cfg) ''tenant_id'')) (\<lambda>tenantID.
                 aret (userID, tenantID)))) (\<lambda>(userID, tenantID).
     liftE (GenerateToken env userID tenantID (dc_TokenTTL cfg))))))"

end
