(* ===== verification/AuthRequests.thy ===== *)
theory AuthRequests
  imports AuthOrganizations AuthGoogle
begin

text \<open>
  The requests of the standard auth service (\<open>registerStandardAuthEndpoints\<close>, \<open>registerStandardOrganizations\<close> and
  \<open>registerStandardImpersonation\<close>) as one type, the function that serves them, and the machine whose steps are served requests.
  The locales \<open>stable\<close>, \<open>stable_queries\<close> and \<open>stable_members\<close> carry a relation between the databases before and after from the queries of
  \<open>AuthStore\<close> to every handler.
\<close>

section \<open>Definitions\<close>

datatype authRequest =
    ReqSignup "EmailSignupParams option"
  | ReqConfirmEmail "string option"
  | ReqResend "string option"
  | ReqLogin "EmailLoginParams option"
  | ReqRefresh "string option"
  | ReqLogout "string option"
  | ReqMe
  | ReqRequestReset "string option"
  | ReqConfirmReset "PasswordResetConfirmParams option"
  | ReqListOrgs
  | ReqCreateOrg "string option"
  | ReqSwitchOrg "string option"
  | ReqUpdateOrg string "string option"
  | ReqDeleteOrg string
  | ReqListMembers string
  | ReqInvite string "InviteMemberParams option"
  | ReqAcceptInvite "string option"
  | ReqUpdateRole string string "string option"
  | ReqDisableMember string "string option"
  | ReqStartImpersonation "StartImpersonationParams option"
  | ReqStopImpersonation
  | ReqGoogleStart googleEnv googleReq
  | ReqGoogleCallback googleEnv googleReq
  | ReqDevBootstrap DevBootstrapConfig "DevBootstrapParams option"

datatype authReply =
    RepSignup EmailSignupResponse
  | RepSession AuthSessionResponse
  | RepOK OKResponse
  | RepLogout Cookie
  | RepBootstrap AuthBootstrapResponse
  | RepOrgs ListOrganizationsResponse
  | RepMembers "OrganizationMember list"
  | RepInvite InviteMemberResponse
  | RepHttp httpReply
  | RepToken string

definition replies :: "('a \<Rightarrow> authReply) \<Rightarrow> 'a action \<Rightarrow> authReply action" where
  "replies k m = abind m (\<lambda>a. aret (k a))"

definition answered :: "(authDB \<Rightarrow> httpReply \<times> authDB) \<Rightarrow> authReply action" where
  "answered h db = (case h db of (r, db') \<Rightarrow> (Inr (RepHttp r), db'))"

fun serve :: "authEnv \<Rightarrow> authRequest \<Rightarrow> authReply action" where
  "serve env (ReqSignup p) = replies RepSignup (SignupEmail env p)"
| "serve env (ReqConfirmEmail p) = replies RepSession (ConfirmEmailVerification env p)"
| "serve env (ReqResend p) = replies RepOK (ResendEmailVerification env p)"
| "serve env (ReqLogin p) = replies RepSession (LoginEmail env p)"
| "serve env (ReqRefresh p) = replies RepSession (Refresh env p)"
| "serve env (ReqLogout p) = replies RepLogout (Logout env p)"
| "serve env ReqMe = replies RepBootstrap (Me env)"
| "serve env (ReqRequestReset p) = replies RepOK (RequestPasswordReset env p)"
| "serve env (ReqConfirmReset p) = replies RepSession (ConfirmPasswordReset env p)"
| "serve env ReqListOrgs = replies RepOrgs (ListOrganizations env)"
| "serve env (ReqCreateOrg p) = replies RepBootstrap (CreateOrganization env p)"
| "serve env (ReqSwitchOrg p) = replies RepBootstrap (SwitchOrganization env p)"
| "serve env (ReqUpdateOrg t p) = replies RepBootstrap (UpdateOrganization env t p)"
| "serve env (ReqDeleteOrg t) = replies RepBootstrap (DeleteOrganization env t)"
| "serve env (ReqListMembers t) = replies RepMembers (ListOrganizationMembers env t)"
| "serve env (ReqInvite t p) = replies RepInvite (InviteOrganizationMember env t p)"
| "serve env (ReqAcceptInvite p) = replies RepBootstrap (AcceptInvite env p)"
| "serve env (ReqUpdateRole t u p) = replies RepMembers (UpdateOrganizationMemberRole env t u p)"
| "serve env (ReqDisableMember t p) = replies RepMembers (DisableOrganizationMember env t p)"
| "serve env (ReqStartImpersonation p) = replies RepSession (StartImpersonation env p)"
| "serve env ReqStopImpersonation = replies RepSession (StopImpersonation env)"
| "serve env (ReqGoogleStart g q) = answered (GoogleStart env g q)"
| "serve env (ReqGoogleCallback g q) = answered (GoogleCallback env g q)"
| "serve env (ReqDevBootstrap c p) = replies RepToken (DevBootstrap env c p)"

text \<open>The requests that change a membership of a user in an existing workspace.\<close>

fun memberRequest :: "authRequest \<Rightarrow> bool" where
  "memberRequest (ReqAcceptInvite p) = True"
| "memberRequest (ReqUpdateRole t u p) = True"
| "memberRequest (ReqDisableMember t p) = True"
| "memberRequest _ = False"

inductive authStep :: "authDB \<Rightarrow> authDB \<Rightarrow> bool" where
  served: "serve env req db = (r, db') \<Longrightarrow> authStep db db'"

inductive_simps authStep_iff: "authStep db db'"

section \<open>Carrying a relation through the handlers\<close>

definition leads :: "(authDB \<Rightarrow> authDB \<Rightarrow> bool) \<Rightarrow> 'a action \<Rightarrow> bool" where
  "leads R m = (\<forall>db. R db (snd (m db)))"

lemma leadsD: "leads R m \<Longrightarrow> m db = (r, db') \<Longrightarrow> R db db'"
  by (auto simp: leads_def dest: spec [of _ db])

locale stable =
  fixes R :: "authDB \<Rightarrow> authDB \<Rightarrow> bool"
  assumes R_refl: "R db db"
    and R_trans: "R a b \<Longrightarrow> R b c \<Longrightarrow> R a c"
begin

lemma leads_same: "(\<And>db. snd (m db) = db) \<Longrightarrow> leads R m"
  by (simp add: leads_def R_refl)

lemma leads_reading:
  "leads R (aret a)" "leads R (afail e)" "leads R (aguard c e)" "leads R (reads f)" "leads R (one q)"
  "leads R (need x e)" "leads R (liftE r)" "leads R (liftErr k s)"
  by (intro leads_same; simp add: aret_def afail_def aguard_def reads_def one_def need_def liftE_def liftErr_def
      split: option.splits sum.splits)+

lemma leads_abind:
  assumes "leads R m" "\<And>a. leads R (f a)"
  shows "leads R (abind m f)"
  using assms R_trans unfolding leads_def abind_def by (auto split: prod.splits sum.splits) (metis snd_conv)+

lemma leads_abind_known:
  assumes "leads R m" "\<And>a db db1. m db = (Inr a, db1) \<Longrightarrow> leads R (f a)"
  shows "leads R (abind m f)"
  unfolding leads_def
proof
  fix db
  show "R db (snd (abind m f db))"
  proof (cases "m db")
    case (Pair r db1)
    then have "R db db1" using leadsD [OF assms(1)] by blast
    with Pair assms(2) [of db _ db1] R_trans show ?thesis by (cases r) (auto simp: abind_def leads_def)
  qed
qed

lemma leads_wrap: "leads R m \<Longrightarrow> leads R (onNoRows m e)" "leads R m \<Longrightarrow> leads R (onUnique m e)"
  "leads R m \<Longrightarrow> leads R (atry m)" "leads R m \<Longrightarrow> leads R (aignore m)" "leads R m \<Longrightarrow> leads R (withTx c m)"
  "leads R m \<Longrightarrow> leads R (inTx env m)"
  unfolding leads_def onNoRows_def onUnique_def atry_def aignore_def withTx_def inTx_def afail_def
  by (auto simp: R_refl split: prod.splits sum.splits) (metis snd_conv)+

lemma leads_cases: "(c \<Longrightarrow> leads R m) \<Longrightarrow> (\<not> c \<Longrightarrow> leads R m') \<Longrightarrow> leads R (if c then m else m')"
  "(x = None \<Longrightarrow> leads R n) \<Longrightarrow> (\<And>a. x = Some a \<Longrightarrow> leads R (f a)) \<Longrightarrow> leads R (case x of None \<Rightarrow> n | Some a \<Rightarrow> f a)"
  "(\<And>a b. leads R (g a b)) \<Longrightarrow> leads R (case p of (a, b) \<Rightarrow> g a b)"
  "(\<And>a. leads R (h a)) \<Longrightarrow> (\<And>b. leads R (k b)) \<Longrightarrow> leads R (case s of Inl a \<Rightarrow> h a | Inr b \<Rightarrow> k b)"
  "leads R n \<Longrightarrow> (\<And>z zs. leads R (l z zs)) \<Longrightarrow> leads R (case xs of [] \<Rightarrow> n | z # zs \<Rightarrow> l z zs)"
  "leads R m \<Longrightarrow> leads R m' \<Longrightarrow> leads R (case c of True \<Rightarrow> m | False \<Rightarrow> m')"
  by (auto split: option.splits prod.splits sum.splits list.splits bool.splits)

lemma leads_lookup:
  "leads R (GetUserByID i)" "leads R (GetUserByNormalizedEmail e)" "leads R (GetAuthIdentityByProviderSubject p sub)"
  "leads R (GetEmailIdentityForLogin e)" "leads R (GetActiveMembership u t)" "leads R (GetRefreshSessionByID i)"
  unfolding GetUserByID_def GetUserByNormalizedEmail_def GetAuthIdentityByProviderSubject_def GetEmailIdentityForLogin_def
    GetActiveMembership_def GetRefreshSessionByID_def
  by (rule leads_reading)+

lemmas leads_rules = leads_reading leads_abind leads_wrap leads_cases leads_lookup

lemma leads_readers:
  "leads R (buildBootstrap env user t ref)" "leads R (Me env)" "leads R (requireOwner u t)" "leads R (ensureCanRemoveOwner t)"
  "leads R (memberMutationIDs env x y)" "leads R (ListOrganizations env)" "leads R (ListOrganizationMembers env x)"
  "leads R (resolveDevBootstrapEmailDefault env x y)" "leads R (DevBootstrap env cfg dp)"
  unfolding buildBootstrap_def Me_def requireOwner_def ensureCanRemoveOwner_def memberMutationIDs_def ListOrganizations_def
    ListOrganizationMembers_def resolveDevBootstrapEmailDefault_def DevBootstrap_def Let_def
  by (intro leads_rules)+

end

text \<open>A relation that holds across the queries which change rows, memberships given by owners to others apart.\<close>

locale stable_queries = stable +
  assumes q_users: "leads R (CreateUser u)" "leads R (MarkUserEmailVerified now i)"
      "leads R (UpdateUserProfileFromProvider i name avatar)" "leads R (CreateAuthIdentity ident)"
      "leads R (UpdateIdentityPasswordHash i h)"
    and q_tenants: "leads R (CreateTenant i name)" "leads R (UpdateTenantName i name)" "leads R (SoftDeleteTenant now i)"
      "leads R (CreateOrganizationMembership (newMembership i t user roleOwner))"
    and q_sessions: "leads R (CreateRefreshSession s)" "leads R (RotateRefreshSession now i h g)"
      "leads R (SetRefreshSessionTenant i t)" "leads R (RevokeRefreshSession now i reason)"
      "leads R (RevokeUserRefreshSessions now i reason)"
    and q_tokens: "leads R (CreateOneTimeToken k)" "leads R (ConsumeOneTimeToken now h purpose)"
      "leads R (CreateOAuthState ost)" "leads R (ConsumeOAuthState now h)"
    and q_rest: "leads R (UpsertAuthAttempt now a)" "leads R (CreateAuthEvent ev)" "leads R (sendMail m)"
begin

lemmas query_rules = q_users q_tenants q_sessions q_tokens q_rest leads_rules leads_readers

lemma leads_helpers:
  "leads R (ensureActiveTenant env n user pref)"
  "leads R (createRefreshSession env n uid tid ttl actor imp why)"
  "leads R (recordEvent env n ty x1 x2 x3 x4 meta)"
  "leads R (checkRateLimit env n purpose email)"
  "leads R (createOneTimeToken env n purpose y1 y2 email nemail meta ttl)"
  "leads R (rotateRefreshSession env tok)"
  "leads R (sessionForAuthData env n ad tid)"
  "leads R (sendAuthEmail env to subj act link)"
  "leads R (googleUser env claims email)"
  unfolding ensureActiveTenant_def createRefreshSession_def recordEvent_def checkRateLimit_def createOneTimeToken_def
    rotateRefreshSession_def sessionForAuthData_def sendAuthEmail_def googleUser_def Let_def
  by (intro query_rules)+

lemma leads_response: "leads R (createAuthSessionResponse env n user tid ttl actor imp why)"
  unfolding createAuthSessionResponse_def by (intro query_rules leads_helpers)

lemma leads_mail: "leads R (sendVerificationEmail env e t r)" "leads R (sendPasswordResetEmail env e t)" "leads R (sendInviteEmail env e t)"
  unfolding sendVerificationEmail_def sendPasswordResetEmail_def sendInviteEmail_def by (rule leads_helpers)+

lemmas handler_rules = query_rules leads_helpers leads_response leads_mail

lemma leads_accounts:
  "leads R (SignupEmail env p1)" "leads R (ConfirmEmailVerification env p2)" "leads R (ResendEmailVerification env p3)"
  "leads R (LoginEmail env p4)" "leads R (RequestPasswordReset env p5)" "leads R (ConfirmPasswordReset env p6)"
  unfolding SignupEmail_def ConfirmEmailVerification_def ResendEmailVerification_def LoginEmail_def RequestPasswordReset_def
    ConfirmPasswordReset_def
  by (intro handler_rules)+

lemma leads_sessions:
  "leads R (Refresh env p1)" "leads R (Logout env p2)" "leads R (StartImpersonation env p3)" "leads R (StopImpersonation env)"
  unfolding Refresh_def Logout_def StartImpersonation_def StopImpersonation_def Let_def
  by (intro handler_rules)+

lemma leads_workspaces:
  "leads R (CreateOrganization env p1)" "leads R (SwitchOrganization env p2)" "leads R (UpdateOrganization env t p3)"
  "leads R (DeleteOrganization env t)" "leads R (InviteOrganizationMember env t p4)"
  unfolding CreateOrganization_def SwitchOrganization_def UpdateOrganization_def DeleteOrganization_def
    InviteOrganizationMember_def Let_def
  by (intro handler_rules)+

lemma leads_finishGoogle: "leads R (finishGoogleSignIn env claims)"
  unfolding finishGoogleSignIn_def by (intro handler_rules)

lemma leads_googleStart: "R db (snd (GoogleStart env g q db))"
  unfolding GoogleStart_def Let_def
  by (auto simp: R_refl split: prod.splits sum.splits dest: leadsD [OF q_tokens(3)])

lemma leads_googleCallback: "R db (snd (GoogleCallback env g q db))"
proof -
  have consumed: "R db db1" if "ConsumeOAuthState now h db = (r, db1)" for now h r db1
    using that leadsD [OF q_tokens(4)] by blast
  have finished: "R db db2" if "ConsumeOAuthState now h db = (r, db1)" "finishGoogleSignIn env c db1 = (r', db2)" for now h r db1 c r' db2
    using consumed [OF that(1)] leadsD [OF leads_finishGoogle that(2)] R_trans by blast
  show ?thesis
    unfolding GoogleCallback_def Let_def
    by (auto simp: R_refl split: prod.splits sum.splits option.splits if_splits dest: consumed finished)
qed

lemma leads_replies: "leads R m \<Longrightarrow> leads R (replies k m)"
  unfolding replies_def by (intro leads_rules)

lemma leads_answered: "(\<And>db. R db (snd (h db))) \<Longrightarrow> leads R (answered h)"
  unfolding leads_def answered_def by (auto split: prod.splits) (metis snd_conv)

lemma leads_serve_others: "\<not> memberRequest req \<Longrightarrow> leads R (serve env req)"
  by (cases req) (auto intro!: leads_replies leads_answered handler_rules leads_accounts leads_sessions leads_workspaces
      leads_googleStart leads_googleCallback)

end

text \<open>With the three requests that change the memberships of others.\<close>

locale stable_members = stable_queries +
  assumes q_members: "leads R (CreateOrganizationMembership mb)" "leads R (UpdateMembershipRole t i role)"
    "leads R (DisableMembership now t i)"
begin

lemma leads_members:
  "leads R (AcceptInvite env p1)" "leads R (UpdateOrganizationMemberRole env t u p2)" "leads R (DisableOrganizationMember env t p3)"
  unfolding AcceptInvite_def UpdateOrganizationMemberRole_def DisableOrganizationMember_def Let_def
  by (intro q_members handler_rules)+

lemma leads_serve: "leads R (serve env req)"
  by (cases "memberRequest req", cases req) (auto intro!: leads_replies leads_members leads_serve_others)

lemma leads_step: "authStep db db' \<Longrightarrow> R db db'"
  by (auto simp: authStep_iff dest: leadsD [OF leads_serve])

lemma leads_run: "authStep\<^sup>*\<^sup>* db db' \<Longrightarrow> R db db'"
  by (induction rule: rtranclp_induct) (auto intro: R_refl R_trans leads_step)

end

end
