(* ===== verification/AuthHistory.thy ===== *)
theory AuthHistory
  imports AuthRequests
begin

text \<open>
  What every request of the auth service keeps: the unique indexes of the database, and its history.  A row is never removed; a
  revoked session stays revoked, a consumed token stays consumed, a disabled membership and a deleted workspace stay so, a
  verified address stays verified, and the event log only grows.
\<close>

section \<open>The unique indexes\<close>

definition emailKeys :: "userRow list \<Rightarrow> string list" where
  "emailKeys us = filter (\<lambda>e. e \<noteq> []) (map u_NormalizedPrimaryEmail us)"

definition activeKeys :: "membershipRow list \<Rightarrow> (uuid \<times> uuid) list" where
  "activeKeys ms = map (\<lambda>m. (m_UserID m, m_TenantID m)) (filter (\<lambda>m. m_DisabledAt m = None) ms)"

definition attemptKeys :: "attemptRow list \<Rightarrow> (string \<times> string \<times> string) list" where
  "attemptKeys xs = map (\<lambda>a. (a_Purpose a, a_NormalizedEmail a, a_IpHash a)) xs"

definition dbInv :: "authDB \<Rightarrow> bool" where
  "dbInv db =
     (distinct (map u_ID (db_users db)) \<and> distinct (emailKeys (db_users db))
      \<and> distinct (map i_ID (db_identities db)) \<and> distinct (map (\<lambda>i. (i_Provider i, i_ProviderSubject i)) (db_identities db))
      \<and> distinct (map t_ID (db_tenants db))
      \<and> distinct (map m_ID (db_memberships db)) \<and> distinct (activeKeys (db_memberships db))
      \<and> distinct (map s_ID (db_sessions db)) \<and> distinct (map s_TokenHash (db_sessions db))
      \<and> distinct (map k_ID (db_tokens db)) \<and> distinct (map k_TokenHash (db_tokens db))
      \<and> distinct (map oa_StateHash (db_oauthStates db))
      \<and> distinct (attemptKeys (db_attempts db)))"

definition keepsInv :: "authDB \<Rightarrow> authDB \<Rightarrow> bool" where
  "keepsInv db db' = (dbInv db \<longrightarrow> dbInv db')"

lemma map_key_update: "(\<And>x. key (upd x) = key x) \<Longrightarrow> map key (map (\<lambda>x. if c x then upd x else x) xs) = map key xs"
  by (induction xs) auto

lemma leads_keepsInv: "(\<And>db. dbInv db \<Longrightarrow> dbInv (snd (m db))) \<Longrightarrow> leads keepsInv m"
  by (simp add: leads_def keepsInv_def)

lemma activeKeys_role: "activeKeys (map (\<lambda>m. if c m then m\<lparr>m_Role := r\<rparr> else m) ms) = activeKeys ms"
  unfolding activeKeys_def by (induction ms) auto

lemma activeKeys_off:
  "distinct (activeKeys ms) \<Longrightarrow> distinct (activeKeys (map (\<lambda>m. if c m then m\<lparr>m_DisabledAt := Some (d m)\<rparr> else m) ms))"
  unfolding activeKeys_def by (induction ms) (auto split: if_splits)

lemma activeKeys_new:
  assumes "find (activeMembership (m_UserID mb) (m_TenantID mb)) ms = None" "distinct (activeKeys ms)"
  shows "distinct (activeKeys (ms @ [mb]))"
  using assms by (auto simp: activeKeys_def find_None_iff activeMembership_def)

lemma keeps_users:
  "leads keepsInv (CreateUser u)" "leads keepsInv (MarkUserEmailVerified now i)"
  "leads keepsInv (UpdateUserProfileFromProvider i name avatar)" "leads keepsInv (CreateAuthIdentity ident)"
  "leads keepsInv (UpdateIdentityPasswordHash i h)"
proof -
  show "leads keepsInv (CreateUser u)"
    by (rule leads_keepsInv) (auto simp: CreateUser_def dbInv_def emailKeys_def list_ex_iff)
  show "leads keepsInv (MarkUserEmailVerified now i)" "leads keepsInv (UpdateUserProfileFromProvider i name avatar)"
    "leads keepsInv (UpdateIdentityPasswordHash i h)"
    by (rule leads_keepsInv; simp add: MarkUserEmailVerified_def UpdateUserProfileFromProvider_def UpdateIdentityPasswordHash_def
        dbInv_def emailKeys_def map_key_update Let_def del: map_map split: option.splits)+
  show "leads keepsInv (CreateAuthIdentity ident)"
    by (rule leads_keepsInv) (auto simp: CreateAuthIdentity_def dbInv_def list_ex_iff)
qed

lemma keeps_tenants:
  "leads keepsInv (CreateTenant i name)" "leads keepsInv (UpdateTenantName i name)" "leads keepsInv (SoftDeleteTenant now i)"
  "leads keepsInv (CreateOrganizationMembership mb)" "leads keepsInv (UpdateMembershipRole t i role)"
  "leads keepsInv (DisableMembership now t i)"
proof -
  show "leads keepsInv (CreateTenant i name)"
    by (rule leads_keepsInv) (auto simp: CreateTenant_def dbInv_def list_ex_iff Let_def)
  show "leads keepsInv (UpdateTenantName i name)" "leads keepsInv (SoftDeleteTenant now i)"
    by (rule leads_keepsInv; simp add: UpdateTenantName_def SoftDeleteTenant_def dbInv_def map_key_update Let_def del: map_map
        split: option.splits)+
  show "leads keepsInv (CreateOrganizationMembership mb)"
    by (rule leads_keepsInv)
      (auto simp: CreateOrganizationMembership_def dbInv_def map_key_update activeKeys_role activeKeys_new list_ex_iff Let_def
        simp del: map_map split: option.splits)
  show "leads keepsInv (UpdateMembershipRole t i role)" "leads keepsInv (DisableMembership now t i)"
    by (rule leads_keepsInv; simp add: UpdateMembershipRole_def DisableMembership_def dbInv_def map_key_update activeKeys_role
        activeKeys_off Let_def del: map_map split: option.splits)+
qed

lemma rotated_hashes:
  assumes "distinct (map s_ID ss)" "distinct (map s_TokenHash ss)" "\<forall>x \<in> set ss. s_ID x = i \<or> s_TokenHash x \<noteq> h"
    and "\<And>s. s_TokenHash (upd s) = h"
  shows "distinct (map s_TokenHash (map (\<lambda>s. if s_ID s = i then upd s else s) ss))"
  using assms(1-3)
proof (induction ss)
  case (Cons a ss)
  show ?case
  proof (cases "s_ID a = i")
    case True
    with Cons.prems have others: "\<forall>x \<in> set ss. s_ID x \<noteq> i" by (auto simp: image_iff)
    then have same: "map (\<lambda>s. if s_ID s = i then upd s else s) ss = ss" by (intro map_idI) auto
    from others Cons.prems(3) have "h \<notin> s_TokenHash ` set ss" by auto
    with Cons.prems(2) True assms(4) show ?thesis
      unfolding list.map(2) same by simp
  next
    case False
    with Cons.prems assms(4)
    have "s_TokenHash a \<notin> set (map s_TokenHash (map (\<lambda>s. if s_ID s = i then upd s else s) ss))"
      by (auto simp: image_iff split: if_splits)
    with False Cons show ?thesis by simp
  qed
qed simp

lemma keeps_sessions:
  "leads keepsInv (CreateRefreshSession s)" "leads keepsInv (RotateRefreshSession now i h g)"
  "leads keepsInv (SetRefreshSessionTenant i t)" "leads keepsInv (RevokeRefreshSession now i reason)"
  "leads keepsInv (RevokeUserRefreshSessions now i reason)"
proof -
  show "leads keepsInv (CreateRefreshSession s)"
    by (rule leads_keepsInv) (auto simp: CreateRefreshSession_def dbInv_def list_ex_iff)
  show "leads keepsInv (RotateRefreshSession now i h g)"
    by (rule leads_keepsInv)
      (auto simp: RotateRefreshSession_def updateSession_def dbInv_def list_ex_iff map_key_update rotated_hashes Let_def simp del: map_map
        split: option.splits)
  show "leads keepsInv (SetRefreshSessionTenant i t)" "leads keepsInv (RevokeRefreshSession now i reason)"
    "leads keepsInv (RevokeUserRefreshSessions now i reason)"
    by (rule leads_keepsInv; simp add: SetRefreshSessionTenant_def RevokeRefreshSession_def RevokeUserRefreshSessions_def
        updateSession_def revoked_def dbInv_def map_key_update Let_def del: map_map split: option.splits)+
qed

lemma keeps_tokens:
  "leads keepsInv (CreateOneTimeToken k)" "leads keepsInv (ConsumeOneTimeToken now h purpose)"
  "leads keepsInv (CreateOAuthState ost)" "leads keepsInv (ConsumeOAuthState now h)"
proof -
  show "leads keepsInv (CreateOneTimeToken k)" "leads keepsInv (CreateOAuthState ost)"
    by (rule leads_keepsInv; auto simp: CreateOneTimeToken_def CreateOAuthState_def dbInv_def list_ex_iff)+
  show "leads keepsInv (ConsumeOneTimeToken now h purpose)" "leads keepsInv (ConsumeOAuthState now h)"
    by (rule leads_keepsInv; simp add: ConsumeOneTimeToken_def ConsumeOAuthState_def dbInv_def map_key_update Let_def del: map_map
        split: option.splits)+
qed

lemma keeps_rest:
  "leads keepsInv (UpsertAuthAttempt now a)" "leads keepsInv (CreateAuthEvent ev)" "leads keepsInv (sendMail m)"
proof -
  show "leads keepsInv (UpsertAuthAttempt now a)"
    by (rule leads_keepsInv)
      (auto simp: UpsertAuthAttempt_def dbInv_def attemptKeys_def map_key_update countAttempt_def sameScope_def find_None_iff Let_def
        simp del: map_map split: option.splits)
  show "leads keepsInv (CreateAuthEvent ev)" "leads keepsInv (sendMail m)"
    by (rule leads_keepsInv; simp add: CreateAuthEvent_def sendMail_def dbInv_def)+
qed

interpretation indexes: stable_members keepsInv
  by unfold_locales (auto simp: keepsInv_def intro: keeps_users keeps_tenants keeps_sessions keeps_tokens keeps_rest)

definition freshDB :: "authDB \<Rightarrow> bool" where
  "freshDB db = (db = emptyDB)"

interpretation auth: safe_machine freshDB authStep dbInv
  by unfold_locales
    (auto simp: freshDB_def emptyDB_def dbInv_def emailKeys_def activeKeys_def attemptKeys_def keepsInv_def
      dest!: indexes.leads_step)

section \<open>History\<close>

definition grows :: "('a \<Rightarrow> 'a \<Rightarrow> bool) \<Rightarrow> 'a list \<Rightarrow> 'a list \<Rightarrow> bool" where
  "grows P xs ys = list_all2 P xs (take (length xs) ys)"

lemma grows_iff: "grows P xs ys \<longleftrightarrow> length xs \<le> length ys \<and> (\<forall>i < length xs. P (xs ! i) (ys ! i))"
  by (auto simp: grows_def list_all2_conv_all_nth)

lemma grows_refl: "(\<And>x. P x x) \<Longrightarrow> grows P xs xs"
  by (simp add: grows_iff)

lemma grows_trans: "(\<And>x y z. P x y \<Longrightarrow> P y z \<Longrightarrow> P x z) \<Longrightarrow> grows P xs ys \<Longrightarrow> grows P ys zs \<Longrightarrow> grows P xs zs"
  by (fastforce simp: grows_iff)

lemma grows_append: "(\<And>x. P x x) \<Longrightarrow> grows P xs (xs @ ys)"
  by (simp add: grows_iff nth_append)

lemma grows_map: "(\<And>x. P x (f x)) \<Longrightarrow> grows P xs (map f xs)"
  by (simp add: grows_iff)

text \<open>A row found by an identifier that never changes is found again, changed the way rows may change.\<close>

lemma grows_find:
  assumes "grows P xs ys" "\<And>x y. P x y \<Longrightarrow> key y = key x" "find (\<lambda>x. key x = k) xs = Some x"
  shows "\<exists>y. find (\<lambda>y. key y = k) ys = Some y \<and> P x y"
proof -
  obtain i where i: "i < length xs" "x = xs ! i" "key (xs ! i) = k" "\<forall>j < i. key (xs ! j) \<noteq> k"
    using assms(3) by (auto simp: find_Some_iff)
  have same: "key (ys ! j) = key (xs ! j)" if "j \<le> i" for j
    using assms(1,2) i(1) that by (simp add: grows_iff)
  have "find (\<lambda>y. key y = k) ys = Some (ys ! i)"
    unfolding find_Some_iff using i same assms(1) by (intro exI [of _ i]) (auto simp: grows_iff)
  then show ?thesis using assms(1) i by (auto simp: grows_iff)
qed

definition userLater :: "userRow \<Rightarrow> userRow \<Rightarrow> bool" where
  "userLater u v = (u_ID v = u_ID u \<and> u_NormalizedPrimaryEmail v = u_NormalizedPrimaryEmail u \<and> u_DisabledAt v = u_DisabledAt u
     \<and> u_CanImpersonateUsers v = u_CanImpersonateUsers u \<and> (u_EmailVerifiedAt u \<noteq> None \<longrightarrow> u_EmailVerifiedAt v = u_EmailVerifiedAt u))"

definition tenantLater :: "tenantRow \<Rightarrow> tenantRow \<Rightarrow> bool" where
  "tenantLater t t' = (t_ID t' = t_ID t \<and> (t_DeletedAt t \<noteq> None \<longrightarrow> t_DeletedAt t' = t_DeletedAt t))"

definition membershipLater :: "membershipRow \<Rightarrow> membershipRow \<Rightarrow> bool" where
  "membershipLater m m' = (m_ID m' = m_ID m \<and> m_TenantID m' = m_TenantID m \<and> m_UserID m' = m_UserID m
     \<and> (m_DisabledAt m \<noteq> None \<longrightarrow> m_DisabledAt m' = m_DisabledAt m))"

definition sessionLater :: "sessionRow \<Rightarrow> sessionRow \<Rightarrow> bool" where
  "sessionLater s s' = (s_ID s' = s_ID s \<and> s_UserID s' = s_UserID s \<and> s_ExpiresAt s' = s_ExpiresAt s
     \<and> s_ActorUserID s' = s_ActorUserID s \<and> s_ImpersonationID s' = s_ImpersonationID s
     \<and> (s_RevokedAt s \<noteq> None \<longrightarrow> s_RevokedAt s' = s_RevokedAt s))"

definition tokenLater :: "tokenRow \<Rightarrow> tokenRow \<Rightarrow> bool" where
  "tokenLater k k' = (k' = k\<lparr>k_ConsumedAt := k_ConsumedAt k'\<rparr> \<and> (k_ConsumedAt k \<noteq> None \<longrightarrow> k_ConsumedAt k' = k_ConsumedAt k))"

definition oauthLater :: "oauthRow \<Rightarrow> oauthRow \<Rightarrow> bool" where
  "oauthLater r r' = (r' = r\<lparr>oa_ConsumedAt := oa_ConsumedAt r'\<rparr> \<and> (oa_ConsumedAt r \<noteq> None \<longrightarrow> oa_ConsumedAt r' = oa_ConsumedAt r))"

definition dbLater :: "authDB \<Rightarrow> authDB \<Rightarrow> bool" where
  "dbLater db db' =
     (grows userLater (db_users db) (db_users db') \<and> grows tenantLater (db_tenants db) (db_tenants db')
      \<and> grows membershipLater (db_memberships db) (db_memberships db') \<and> grows sessionLater (db_sessions db) (db_sessions db')
      \<and> grows tokenLater (db_tokens db) (db_tokens db') \<and> grows oauthLater (db_oauthStates db) (db_oauthStates db')
      \<and> grows (=) (db_events db) (db_events db'))"

lemmas later_defs = userLater_def tenantLater_def membershipLater_def sessionLater_def tokenLater_def oauthLater_def

lemma later_refl: "userLater u u" "tenantLater t t" "membershipLater m m" "sessionLater s s" "tokenLater k k" "oauthLater r r"
  by (simp_all add: later_defs)

lemma dbLater_refl: "dbLater db db"
  unfolding dbLater_def by (intro conjI grows_refl later_refl refl)

lemma dbLater_trans:
  assumes "dbLater a b" "dbLater b c"
  shows "dbLater a c"
proof -
  have "userLater u v \<Longrightarrow> userLater v w \<Longrightarrow> userLater u w" for u v w by (auto simp: userLater_def)
  moreover have "tenantLater u v \<Longrightarrow> tenantLater v w \<Longrightarrow> tenantLater u w" for u v w by (auto simp: tenantLater_def)
  moreover have "membershipLater u v \<Longrightarrow> membershipLater v w \<Longrightarrow> membershipLater u w" for u v w by (auto simp: membershipLater_def)
  moreover have "sessionLater u v \<Longrightarrow> sessionLater v w \<Longrightarrow> sessionLater u w" for u v w by (auto simp: sessionLater_def)
  moreover have "tokenLater u v \<Longrightarrow> tokenLater v w \<Longrightarrow> tokenLater u w" for u v w
    by (cases u; cases v; cases w) (auto simp: tokenLater_def)
  moreover have "oauthLater u v \<Longrightarrow> oauthLater v w \<Longrightarrow> oauthLater u w" for u v w
    by (cases u; cases v; cases w) (auto simp: oauthLater_def)
  ultimately show ?thesis
    using assms unfolding dbLater_def by (intro conjI) (blast intro: grows_trans)+
qed

lemma leads_dbLater: "(\<And>db. dbLater db (snd (m db))) \<Longrightarrow> leads dbLater m"
  by (simp add: leads_def)

lemma grows_same [simp]: "grows userLater us us" "grows tenantLater ts ts" "grows membershipLater ms ms" "grows sessionLater ss ss"
  "grows tokenLater ks ks" "grows oauthLater rs rs" "grows (=) es es"
  by (rule grows_refl, simp add: later_refl)+

lemma later_users:
  "leads dbLater (CreateUser u)" "leads dbLater (MarkUserEmailVerified now i)"
  "leads dbLater (UpdateUserProfileFromProvider i name avatar)" "leads dbLater (CreateAuthIdentity ident)"
  "leads dbLater (UpdateIdentityPasswordHash i h)"
  by (rule leads_dbLater; auto simp: CreateUser_def MarkUserEmailVerified_def UpdateUserProfileFromProvider_def CreateAuthIdentity_def
      UpdateIdentityPasswordHash_def dbLater_def Let_def intro!: grows_append grows_map later_refl split: option.splits;
      simp add: userLater_def)+

lemma later_tenants:
  "leads dbLater (CreateTenant i name)" "leads dbLater (UpdateTenantName i name)" "leads dbLater (SoftDeleteTenant now i)"
  "leads dbLater (CreateOrganizationMembership mb)" "leads dbLater (UpdateMembershipRole t i role)"
  "leads dbLater (DisableMembership now t i)"
  by (rule leads_dbLater; auto simp: CreateTenant_def UpdateTenantName_def SoftDeleteTenant_def CreateOrganizationMembership_def
      UpdateMembershipRole_def DisableMembership_def dbLater_def Let_def intro!: grows_append grows_map later_refl
      split: option.splits; simp add: tenantLater_def membershipLater_def)+

lemma later_sessions:
  "leads dbLater (CreateRefreshSession s)" "leads dbLater (RotateRefreshSession now i h g)"
  "leads dbLater (SetRefreshSessionTenant i t)" "leads dbLater (RevokeRefreshSession now i reason)"
  "leads dbLater (RevokeUserRefreshSessions now i reason)"
  by (rule leads_dbLater; auto simp: CreateRefreshSession_def RotateRefreshSession_def SetRefreshSessionTenant_def
      RevokeRefreshSession_def RevokeUserRefreshSessions_def updateSession_def revoked_def dbLater_def Let_def
      intro!: grows_append grows_map later_refl split: option.splits; simp add: sessionLater_def)+

lemma later_tokens:
  "leads dbLater (CreateOneTimeToken k)" "leads dbLater (ConsumeOneTimeToken now h purpose)"
  "leads dbLater (CreateOAuthState ost)" "leads dbLater (ConsumeOAuthState now h)"
  by (rule leads_dbLater; auto simp: CreateOneTimeToken_def ConsumeOneTimeToken_def CreateOAuthState_def ConsumeOAuthState_def
      usableToken_def usableState_def dbLater_def Let_def intro!: grows_append grows_map later_refl split: option.splits;
      simp add: tokenLater_def oauthLater_def)+

lemma later_rest:
  "leads dbLater (UpsertAuthAttempt now a)" "leads dbLater (CreateAuthEvent ev)" "leads dbLater (sendMail m)"
  by (rule leads_dbLater; auto simp: UpsertAuthAttempt_def CreateAuthEvent_def sendMail_def dbLater_def Let_def
      intro!: grows_append split: option.splits)+

interpretation history: stable_members dbLater
  by unfold_locales (auto intro: dbLater_refl dbLater_trans later_users later_tenants later_sessions later_tokens later_rest)

end
