(* ===== verification/AuthProps.thy ===== *)
theory AuthProps
  imports AuthHistory
begin

text \<open>
  The properties of the standard auth service: failed requests leave no trace, the unique indexes and the history are kept, refresh
  tokens rotate, revocations and consumed tokens are final, workspace rights are needed and the last owner is not
  removed.  The last section shows where the code does not do what it means to.
\<close>

section \<open>Requests that fail\<close>

definition clean :: "'a action \<Rightarrow> bool" where
  "clean m = (\<forall>db e db'. m db = (Inl e, db') \<longrightarrow> db' = db)"

definition never_fails :: "'a action \<Rightarrow> bool" where
  "never_fails m = (\<forall>db. isl (fst (m db)) = False)"

interpretation unchanged: stable "(=)"
  by unfold_locales auto

lemma clean_reading: "leads (=) m \<Longrightarrow> clean m"
  by (auto simp: clean_def dest: leadsD)

lemma clean_then: "leads (=) m \<Longrightarrow> (\<And>a. clean (f a)) \<Longrightarrow> clean (abind m f)"
  unfolding clean_def abind_def by (auto dest: leadsD split: prod.splits sum.splits)

lemma clean_last: "clean m \<Longrightarrow> (\<And>a. never_fails (f a)) \<Longrightarrow> clean (abind m f)"
  unfolding clean_def never_fails_def abind_def by (auto split: prod.splits sum.splits) (metis fst_conv isl_def)

lemma clean_inTx: "clean (inTx env m)"
  unfolding clean_def inTx_def by (auto simp: withTx_error afail_def dest: withTx_error)

lemma clean_cases: "clean m \<Longrightarrow> clean m' \<Longrightarrow> clean (if c then m else m')"
  "clean n \<Longrightarrow> (\<And>a. clean (f a)) \<Longrightarrow> clean (case x of None \<Rightarrow> n | Some a \<Rightarrow> f a)"
  by (auto split: option.splits)

lemma never_fails_rules: "never_fails (aret a)" "never_fails (aignore m)"
  "never_fails m \<Longrightarrow> (\<And>a. never_fails (f a)) \<Longrightarrow> never_fails (abind m f)"
  "never_fails n \<Longrightarrow> (\<And>a. never_fails (g a)) \<Longrightarrow> never_fails (case x of None \<Rightarrow> n | Some a \<Rightarrow> g a)"
  "never_fails m \<Longrightarrow> never_fails m' \<Longrightarrow> never_fails (if c then m else m')"
  unfolding never_fails_def aret_def aignore_def abind_def by (auto split: prod.splits sum.splits option.splits) (metis fst_conv isl_def)+

lemmas clean_steps = clean_inTx clean_cases unchanged.leads_rules

lemma clean_accounts:
  "clean (SignupEmail env p1)" "clean (ConfirmEmailVerification env p2)" "clean (ResendEmailVerification env p3)"
  "clean (LoginEmail env p4)" "clean (RequestPasswordReset env p5)" "clean (ConfirmPasswordReset env p6)"
proof -
  show "clean (SignupEmail env p1)" "clean (ResendEmailVerification env p3)" "clean (RequestPasswordReset env p5)"
    unfolding SignupEmail_def ResendEmailVerification_def RequestPasswordReset_def
    by (intro clean_then [of "need _ _"] clean_then [of "liftErr _ _"] clean_then [of "case_option _ _ _"] clean_last clean_inTx
        never_fails_rules unchanged.leads_rules)+
  show "clean (ConfirmEmailVerification env p2)" "clean (LoginEmail env p4)" "clean (ConfirmPasswordReset env p6)"
    unfolding ConfirmEmailVerification_def LoginEmail_def ConfirmPasswordReset_def
    by (intro clean_then clean_inTx clean_cases clean_reading [OF unchanged.leads_reading(2)] unchanged.leads_rules)+
qed

lemmas clean_intro = clean_then clean_inTx clean_cases clean_reading [OF unchanged.leads_reading(2)] unchanged.leads_rules

lemma clean_sessions:
  "clean (Refresh env p1)" "clean (Logout env p2)" "clean (StartImpersonation env p3)" "clean (StopImpersonation env)"
proof -
  show "clean (Refresh env p1)" "clean (StartImpersonation env p3)" "clean (StopImpersonation env)"
    unfolding Refresh_def StartImpersonation_def StopImpersonation_def Let_def by (intro clean_intro)+
  have "never_fails (Logout env p2)"
    unfolding Logout_def Let_def by (intro never_fails_rules)
  then show "clean (Logout env p2)" by (auto simp: clean_def never_fails_def) (metis fst_conv isl_def)
qed

lemma clean_workspaces:
  "clean (CreateOrganization env p1)" "clean (SwitchOrganization env p2)" "clean (UpdateOrganization env t p3)"
  "clean (DeleteOrganization env t)" "clean (InviteOrganizationMember env t p4)" "clean (AcceptInvite env p5)"
proof -
  show "clean (CreateOrganization env p1)" "clean (SwitchOrganization env p2)" "clean (UpdateOrganization env t p3)"
    "clean (DeleteOrganization env t)" "clean (AcceptInvite env p5)"
    unfolding CreateOrganization_def SwitchOrganization_def UpdateOrganization_def DeleteOrganization_def AcceptInvite_def
    by (intro clean_intro)+
  show "clean (InviteOrganizationMember env t p4)"
    unfolding InviteOrganizationMember_def Let_def
    by (intro clean_then [of "need _ _"] clean_then [of "liftErr _ _"] clean_then [of "aguard _ _"] clean_then [of "liftE _"]
        clean_last clean_inTx never_fails_rules unchanged.leads_rules)
qed

lemma clean_replies: "clean m \<Longrightarrow> clean (replies k m)"
  unfolding replies_def by (intro clean_last never_fails_rules)

text \<open>The two requests that answer with the list of members after their commit.\<close>

fun listsAfterCommit :: "authRequest \<Rightarrow> bool" where
  "listsAfterCommit (ReqUpdateRole t u p) = True"
| "listsAfterCommit (ReqDisableMember t p) = True"
| "listsAfterCommit _ = False"

lemma clean_serve: "\<not> listsAfterCommit req \<Longrightarrow> clean (serve env req)"
proof (cases req)
  case (ReqGoogleStart g q)
  then show ?thesis by (simp add: clean_def answered_def split: prod.splits)
next
  case (ReqGoogleCallback g q)
  then show ?thesis by (simp add: clean_def answered_def split: prod.splits)
qed (auto intro: clean_replies clean_accounts clean_sessions clean_workspaces clean_reading unchanged.leads_readers)


lemma failing_result: "isl (fst x) \<Longrightarrow> \<exists>e db'. x = (Inl e, db')"
  by (cases x) (auto simp: isl_def)



lemma authStep_serve: "authStep db (snd (serve env req db))"
  by (rule served [of env req _ "fst (serve env req db)"]) simp

definition sampleRequest :: authRequest where
  "sampleRequest = ReqRequestReset (Some ''ada@example.org'')"

definition sampleDB :: authDB where
  "sampleDB = snd (serve sampleEnv sampleRequest emptyDB)"




section \<open>Refresh sessions\<close>

definition accepts :: "authEnv \<Rightarrow> string \<Rightarrow> sessionRow \<Rightarrow> bool" where
  "accepts env token s = (s_RevokedAt s = None \<and> s_ExpiresAt s > ae_clock env
     \<and> (tokenHash env token = s_TokenHash s
        \<or> (s_PreviousTokenHash s \<noteq> [] \<and> tokenHash env token = s_PreviousTokenHash s
           \<and> (\<exists>t. s_PreviousTokenExpiresAt s = Some t \<and> t > ae_clock env))))"

lemma liftErr_ok [simp]: "liftErr k r db = (Inr a, db') \<longleftrightarrow> r = Inr a \<and> db' = db"
  by (auto simp: liftErr_def aret_def afail_def split: sum.splits)

lemma rotate_ok:
  assumes "rotateRefreshSession env token db = (Inr (s', next'), db')"
  shows "\<exists>i s. parseRefreshToken env token = Some i \<and> find (\<lambda>s. s_ID s = i) (db_sessions db) = Some s \<and> accepts env token s
    \<and> newRefreshToken env 0 i = Inr next'
    \<and> RotateRefreshSession (ae_now env) i (tokenHash env next') 30000 db = (Inr s', db')"
proof -
  obtain i where i: "parseRefreshToken env token = Some i"
    using assms by (auto simp: rotateRefreshSession_def abind_ok)
  obtain s where s: "find (\<lambda>s. s_ID s = i) (db_sessions db) = Some s"
    using assms i by (auto simp: rotateRefreshSession_def abind_ok GetRefreshSessionByID_def)
  then have "s_ID s = i" by (auto simp: find_Some_iff)
  with assms i s show ?thesis
    by (auto simp: rotateRefreshSession_def abind_ok GetRefreshSessionByID_def Let_def accepts_def refreshTokenReplayGrace_def
        split: if_splits option.splits)
qed

lemma rotated_row:
  assumes "RotateRefreshSession now i h g db = (Inr s', db')" "find (\<lambda>s. s_ID s = i) (db_sessions db) = Some s"
  shows "s' = s\<lparr>s_PreviousTokenHash := s_TokenHash s, s_PreviousTokenExpiresAt := Some (now + g * 1000000), s_TokenHash := h\<rparr>
    \<and> find (\<lambda>s. s_ID s = i) (db_sessions db') = Some s'"
proof -
  let ?upd = "\<lambda>s :: sessionRow. s\<lparr>s_PreviousTokenHash := s_TokenHash s, s_PreviousTokenExpiresAt := Some (now + g * 1000000), s_TokenHash := h\<rparr>"
  have "find (\<lambda>s. s_ID s = i) (map (\<lambda>s. if s_ID s = i then ?upd s else s) ss) = map_option ?upd (find (\<lambda>s. s_ID s = i) ss)" for ss
    by (induction ss) auto
  then show ?thesis
    using assms by (auto simp: RotateRefreshSession_def updateSession_def Let_def split: if_splits option.splits)
qed

text \<open>Actions that leave the sessions alone.\<close>

definition sameSessions :: "authDB \<Rightarrow> authDB \<Rightarrow> bool" where
  "sameSessions db db' = (db_sessions db' = db_sessions db)"

interpretation sessions: stable sameSessions
  by unfold_locales (auto simp: sameSessions_def)

lemma sessions_ensureTenant: "leads sameSessions (ensureActiveTenant env n user pref)"
proof -
  have "leads sameSessions (CreateTenant i name)" "leads sameSessions (CreateOrganizationMembership m)" for i name m
    by (auto simp: leads_def sameSessions_def CreateTenant_def CreateOrganizationMembership_def Let_def split: option.splits)
  then show ?thesis unfolding ensureActiveTenant_def by (intro sessions.leads_rules)
qed

lemma sessions_recordEvent: "leads sameSessions (recordEvent env n ty a b c d meta)"
proof -
  have "leads sameSessions (CreateAuthEvent e)" for e by (simp add: leads_def sameSessions_def CreateAuthEvent_def)
  then show ?thesis unfolding recordEvent_def by (intro sessions.leads_rules)
qed

lemma ensureActiveTenant_user:
  "ensureActiveTenant env n user pref db = (Inr t, db') \<Longrightarrow> u_EmailVerifiedAt user \<noteq> None \<and> u_DisabledAt user = None"
  by (auto simp: ensureActiveTenant_def abind_ok)

lemma buildBootstrap_db: "buildBootstrap env user t ref db = (Inr b, db') \<Longrightarrow> db' = db"
  by (metis leadsD unchanged.leads_readers(1))

lemma inTx_ok: "inTx env m db = (Inr a, db') \<longleftrightarrow> ae_beginOK env \<and> ae_commitOK env \<and> m db = (Inr a, db')"
  by (auto simp: inTx_def withTx_ok)

lemma setTenant_row:
  assumes "SetRefreshSessionTenant i t db = (Inr s', db')" "find (\<lambda>s. s_ID s = i) (db_sessions db) = Some s" "s_RevokedAt s = None"
  shows "s' = s\<lparr>s_ActiveTenantID := Some t\<rparr> \<and> find (\<lambda>s. s_ID s = i) (db_sessions db') = Some s'"
proof -
  let ?hit = "\<lambda>s. s_ID s = i \<and> s_RevokedAt s = None"
  let ?set = "map (\<lambda>s. if ?hit s then s\<lparr>s_ActiveTenantID := Some t\<rparr> else s)"
  have "find ?hit (?set ss) = Some (s\<lparr>s_ActiveTenantID := Some t\<rparr>) \<and> find (\<lambda>s. s_ID s = i) (?set ss) = Some (s\<lparr>s_ActiveTenantID := Some t\<rparr>)"
    if "find (\<lambda>s. s_ID s = i) ss = Some s" for ss
    using that assms(3) by (induction ss) (auto split: if_splits)
  from this [OF assms(2)] show ?thesis
    using assms(1) by (auto simp: SetRefreshSessionTenant_def Let_def split: option.splits)
qed

lemma tokenHash_trim [simp]: "tokenHash env (trimSpace t) = tokenHash env t"
  by (simp add: tokenHash_def)

lemma if_afail_ok: "(if c then afail e else m) db = (Inr a, db') \<longleftrightarrow> \<not> c \<and> m db = (Inr a, db')"
  by simp

lemmas handler_ok = inTx_ok abind_ok split_paired_Ex prod.case aret_ok aguard_ok need_ok liftE_ok liftErr_ok onNoRows_ok reads_ok
  if_afail_ok

lemma rotated_users: "RotateRefreshSession now i h g db = (r, db') \<Longrightarrow> db_users db' = db_users db"
  by (auto simp: RotateRefreshSession_def updateSession_def Let_def split: if_splits option.splits)

text \<open>
  (C8) Refresh: a request succeeds only for a session that is neither revoked nor expired and a token that is its current one, or
  the one before within the grace period, of a user who is verified and not disabled.  Afterwards the session's token is the one in the
  cookie of the response, the old one is the previous token for thirty more seconds, and the expiry is unchanged.\<close>

theorem refresh_rotates:
  assumes "Refresh env params db = (Inr r, db')"
  shows "\<exists>i s s' user. parseRefreshToken env (refreshTokenFromParams env params) = Some i \<and> find (\<lambda>s. s_ID s = i) (db_sessions db) = Some s
    \<and> accepts env (refreshTokenFromParams env params) s \<and> user \<in> set (db_users db) \<and> u_ID user = s_UserID s \<and> u_EmailVerifiedAt user \<noteq> None \<and> u_DisabledAt user = None
    \<and> find (\<lambda>s. s_ID s = i) (db_sessions db') = Some s' \<and> s_TokenHash s' = tokenHash env (ck_Value (sr_SetCookie r))
    \<and> s_PreviousTokenHash s' = s_TokenHash s \<and> s_PreviousTokenExpiresAt s' = Some (ae_now env + refreshTokenReplayGrace)
    \<and> s_ExpiresAt s' = s_ExpiresAt s \<and> s_RevokedAt s' = None"
proof -
  let ?token = "refreshTokenFromParams env params"
  obtain s1 next1 db1 user dbu t db2 s2 db3 b db4 u5 db5 where
    rot: "rotateRefreshSession env ?token db = (Inr (s1, next1), db1)" and
    user: "GetUserByID (s_UserID s1) db1 = (Inr user, dbu)" and
    ten: "ensureActiveTenant env 0 user (s_ActiveTenantID s1) dbu = (Inr t, db2)" and
    set: "(if \<not> sameUUID env (Some t) (s_ActiveTenantID s1) then SetRefreshSessionTenant (s_ID s1) t else aret s1) db2 = (Inr s2, db3)" and
    boot: "buildBootstrap env user t (refOf s2) db3 = (Inr b, db4)" and
    ev: "recordEvent env 2 ''refresh'' (Some (u_ID user)) (s_ActorUserID s2) (Some t) (Some (s_ID s2)) [] db4 = (Inr u5, db5)" and
    r: "r = \<lparr>sr_Bootstrap = b, sr_SetCookie = refreshCookie env next1 (s_ExpiresAt s2)\<rparr>" "db' = db5"
    using assms(1) unfolding Refresh_def Let_def handler_ok by (elim exE conjE) (rule that; assumption)
  obtain i s where i: "parseRefreshToken env ?token = Some i" "find (\<lambda>s. s_ID s = i) (db_sessions db) = Some s" "accepts env ?token s"
    and row: "RotateRefreshSession (ae_now env) i (tokenHash env next1) 30000 db = (Inr s1, db1)"
    using rotate_ok [OF rot] by blast
  note s1 = rotated_row [OF row i(2)]
  have live: "s_RevokedAt s = None" using i(3) by (simp add: accepts_def)
  have id: "s_ID s = i" using i(2) by (auto simp: find_Some_iff)
  have u: "user \<in> set (db_users db)" "u_ID user = s_UserID s"
    using user s1 rotated_users [OF row] by (auto simp: GetUserByID_def find_Some_iff)
  have "db_sessions db2 = db_sessions db1"
    using user leadsD [OF sessions_ensureTenant ten] by (auto simp: sameSessions_def GetUserByID_def)
  then have f2: "find (\<lambda>s. s_ID s = i) (db_sessions db2) = Some s1" using s1 by simp
  have f3: "find (\<lambda>s. s_ID s = i) (db_sessions db3) = Some s2 \<and> s2 = s1\<lparr>s_ActiveTenantID := s_ActiveTenantID s2\<rparr>"
  proof (cases "sameUUID env (Some t) (s_ActiveTenantID s1)")
    case True
    with set f2 show ?thesis by simp
  next
    case False
    then have "SetRefreshSessionTenant i t db2 = (Inr s2, db3)" using set s1 id by simp
    from setTenant_row [OF this f2] s1 live show ?thesis by simp
  qed
  have "db_sessions db' = db_sessions db3"
    using buildBootstrap_db [OF boot] leadsD [OF sessions_recordEvent ev] r(2) by (simp add: sameSessions_def)
  with f3 have f': "find (\<lambda>s. s_ID s = i) (db_sessions db') = Some s2" by simp
  have s2: "s2 = s1\<lparr>s_ActiveTenantID := s_ActiveTenantID s2\<rparr>" using f3 by blast
  have "s_TokenHash s2 = tokenHash env next1 \<and> s_PreviousTokenHash s2 = s_TokenHash s
      \<and> s_PreviousTokenExpiresAt s2 = Some (ae_now env + refreshTokenReplayGrace) \<and> s_ExpiresAt s2 = s_ExpiresAt s \<and> s_RevokedAt s2 = None"
    by (subst s2, subst s2, subst s2, subst s2, subst s2) (simp add: s1 live refreshTokenReplayGrace_def)
  then show ?thesis
    using i u f' ensureActiveTenant_user [OF ten] by (auto simp: r refreshCookie_def)
qed

text \<open>A database with two accounts in one workspace, for the examples: user 1 owns workspace 5, user 2 is a member.\<close>

definition sampleUser :: "uuid \<Rightarrow> string \<Rightarrow> userRow" where
  "sampleUser i email = \<lparr>u_ID = i, u_DisplayName = email, u_AvatarUrl = [], u_PrimaryEmail = email, u_NormalizedPrimaryEmail = email,
     u_EmailVerifiedAt = Some 1, u_DisabledAt = None, u_CanImpersonateUsers = False\<rparr>"

definition sampleSession :: "uuid \<Rightarrow> uuid \<Rightarrow> sessionRow" where
  "sampleSession i user = \<lparr>s_ID = i, s_UserID = user, s_TokenHash = tokenHash sampleEnv (itoaNat i @ ''.3''), s_PreviousTokenHash = [],
     s_PreviousTokenExpiresAt = None, s_ActiveTenantID = Some 5, s_ExpiresAt = 5000, s_RevokedAt = None, s_RevokedReason = [],
     s_UserAgent = [], s_IpHash = [], s_ActorUserID = None, s_ImpersonationID = None, s_ImpersonationReason = []\<rparr>"

definition accountDB :: authDB where
  "accountDB = emptyDB\<lparr>db_users := [sampleUser 1 ''ada@example.org'', sampleUser 2 ''bob@example.org''],
     db_tenants := [\<lparr>t_ID = 5, t_Name = ''Lab'', t_DeletedAt = None\<rparr>],
     db_memberships := [newMembership 11 5 1 roleOwner, newMembership 12 5 2 roleMember],
     db_sessions := [sampleSession 8 1, sampleSession 9 2]\<rparr>"

lemma passing_result: "\<not> isl (fst x) \<Longrightarrow> x = (Inr (projr (fst x)), snd x)"
  by (cases x) (auto simp: isl_def split: sum.splits)

theorem refresh_rotates_witness:
  "\<exists>r db'. Refresh sampleEnv (Some ''8.3'') accountDB = (Inr r, db')
    \<and> (\<exists>s'. find (\<lambda>s. s_ID s = 8) (db_sessions db') = Some s' \<and> s_TokenHash s' = tokenHash sampleEnv (ck_Value (sr_SetCookie r)))"
proof -
  have "\<not> isl (fst (Refresh sampleEnv (Some ''8.3'') accountDB))" by code_simp
  note run = passing_result [OF this]
  have "parseRefreshToken sampleEnv (refreshTokenFromParams sampleEnv (Some ''8.3'')) = Some 8" by code_simp
  with refresh_rotates [OF run] run show ?thesis by auto
qed

lemma refresh_accepts:
  assumes "Refresh env p db = (Inr r, db')" "parseRefreshToken env (refreshTokenFromParams env p) = Some i"
  shows "\<exists>s. find (\<lambda>s. s_ID s = i) (db_sessions db) = Some s \<and> accepts env (refreshTokenFromParams env p) s"
proof -
  obtain s1 t1 db1 where "rotateRefreshSession env (refreshTokenFromParams env p) db = (Inr (s1, t1), db1)"
    using assms(1) unfolding Refresh_def Let_def handler_ok by (elim exE conjE) (rule that; assumption)
  from rotate_ok [OF this] assms(2) show ?thesis by auto
qed

lemma refresh_revoked:
  assumes "find (\<lambda>s. s_ID s = i) (db_sessions db) = Some s" "s_RevokedAt s \<noteq> None"
    and "parseRefreshToken env (refreshTokenFromParams env p) = Some i"
  shows "\<exists>e. Refresh env p db = (Inl e, db)"
proof (cases "isl (fst (Refresh env p db))")
  case True
  then obtain e db' where "Refresh env p db = (Inl e, db')" using failing_result by blast
  with clean_sessions(1) show ?thesis unfolding clean_def by blast
next
  case False
  note run = passing_result [OF this]
  from refresh_accepts [OF run assms(3)] assms(1,2) show ?thesis by (auto simp: accepts_def)
qed

lemma revoked_stays:
  assumes "dbLater db db'" "find (\<lambda>s. s_ID s = i) (db_sessions db) = Some s" "s_RevokedAt s \<noteq> None"
  shows "\<exists>s'. find (\<lambda>s. s_ID s = i) (db_sessions db') = Some s' \<and> s_RevokedAt s' \<noteq> None"
proof -
  have "grows sessionLater (db_sessions db) (db_sessions db')" using assms(1) by (simp add: dbLater_def)
  from grows_find [OF this, of s_ID i s] assms(2,3) show ?thesis by (auto simp: sessionLater_def)
qed

lemma revoked_row:
  "find (\<lambda>s. s_ID s = i) (db_sessions db) = Some s
    \<Longrightarrow> find (\<lambda>s. s_ID s = i) (db_sessions (updateSession i (revoked now reason) db)) = Some (revoked now reason s)"
proof -
  have "find (\<lambda>s. s_ID s = i) (map (\<lambda>s. if s_ID s = i then revoked now reason s else s) ss)
      = map_option (revoked now reason) (find (\<lambda>s. s_ID s = i) ss)" for ss
    by (induction ss) (auto simp: revoked_def)
  then show "find (\<lambda>s. s_ID s = i) (db_sessions db) = Some s
    \<Longrightarrow> find (\<lambda>s. s_ID s = i) (db_sessions (updateSession i (revoked now reason) db)) = Some (revoked now reason s)"
    by (simp add: updateSession_def)
qed

text \<open>
  Logging out is final: once a session has been logged out, no sequence of requests, by anyone, makes any refresh token of that
  session work again.\<close>

lemma logout_final:
  assumes "Logout env p db = (Inr cookie, db1)" "parseRefreshToken env (refreshTokenFromParams env p) = Some i"
    and "find (\<lambda>s. s_ID s = i) (db_sessions db) = Some s" "authStep\<^sup>*\<^sup>* db1 db2"
    and "parseRefreshToken env' (refreshTokenFromParams env' p') = Some i"
  shows "\<exists>e. Refresh env' p' db2 = (Inl e, db2)"
proof -
  have "refreshTokenFromParams env p \<noteq> []" using assms(2) by (auto simp: parseRefreshToken_def cut_def)
  then have db1: "db1 = updateSession i (revoked (ae_now env) ''logout'') db"
    using assms(1,2) by (auto simp: Logout_def Let_def abind_ok RevokeRefreshSession_def)
  have "s_RevokedAt (revoked (ae_now env) ''logout'' s) \<noteq> None" by (simp add: revoked_def)
  with revoked_stays [OF history.leads_run [OF assms(4)]] revoked_row [OF assms(3)] db1
  obtain s' where "find (\<lambda>s. s_ID s = i) (db_sessions db2) = Some s'" "s_RevokedAt s' \<noteq> None" by blast
  from refresh_revoked [OF this assms(5)] show ?thesis .
qed

lemma logout_final_witness:
  "(\<exists>r db'. Refresh sampleEnv (Some ''8.3'') accountDB = (Inr r, db'))
    \<and> (\<exists>e. Refresh sampleEnv (Some ''8.3'') (snd (Logout sampleEnv (Some ''8.3'') accountDB))
          = (Inl e, snd (Logout sampleEnv (Some ''8.3'') accountDB)))"
proof -
  have "\<not> isl (fst (Refresh sampleEnv (Some ''8.3'') accountDB))" by code_simp
  note before = passing_result [OF this]
  have "\<not> isl (fst (Logout sampleEnv (Some ''8.3'') accountDB))" by code_simp
  note run = passing_result [OF this]
  have parse: "parseRefreshToken sampleEnv (refreshTokenFromParams sampleEnv (Some ''8.3'')) = Some 8" by code_simp
  have "find (\<lambda>s. s_ID s = 8) (db_sessions accountDB) = Some (sampleSession 8 1)"
    by (simp add: accountDB_def sampleSession_def)
  from logout_final [OF run parse this rtranclp.rtrancl_refl parse] before show ?thesis by blast
qed

section \<open>One-time tokens\<close>

fun oneTimeToken :: "authRequest \<Rightarrow> string option" where
  "oneTimeToken (ReqConfirmEmail (Some token)) = Some token"
| "oneTimeToken (ReqConfirmReset (Some p)) = Some (rp_Token p)"
| "oneTimeToken (ReqAcceptInvite (Some token)) = Some token"
| "oneTimeToken _ = None"

definition spent :: "string \<Rightarrow> authDB \<Rightarrow> bool" where
  "spent h db = (\<exists>k \<in> set (db_tokens db). k_TokenHash k = h \<and> k_ConsumedAt k \<noteq> None)"

lemma consumed_spent:
  assumes "ConsumeOneTimeToken now h purpose db = (Inr k, db')"
  shows "spent h db' \<and> (\<exists>k0 \<in> set (db_tokens db). usableToken now h purpose k0 \<and> k = k0\<lparr>k_ConsumedAt := Some now\<rparr>)"
proof -
  obtain k0 where f: "find (usableToken now h purpose) (db_tokens db) = Some k0" and k: "k = k0\<lparr>k_ConsumedAt := Some now\<rparr>"
    and db': "db_tokens db' = map (\<lambda>x. if usableToken now h purpose x then x\<lparr>k_ConsumedAt := Some now\<rparr> else x) (db_tokens db)"
    using assms by (auto simp: ConsumeOneTimeToken_def Let_def split: option.splits)
  have k0: "k0 \<in> set (db_tokens db)" "usableToken now h purpose k0" using f by (auto simp: find_Some_iff)
  then have "k \<in> set (db_tokens db')" using k db' by (auto intro!: image_eqI [of _ _ k0])
  moreover have "k_TokenHash k = h" "k_ConsumedAt k \<noteq> None" using k k0(2) by (simp_all add: usableToken_def)
  ultimately have "spent h db'" unfolding spent_def by blast
  then show ?thesis using k k0 by blast
qed

lemma spent_later:
  assumes "dbLater db db'" "spent h db"
  shows "spent h db'"
proof -
  obtain j where j: "j < length (db_tokens db)" "k_TokenHash (db_tokens db ! j) = h" "k_ConsumedAt (db_tokens db ! j) \<noteq> None"
    using assms(2) by (auto simp: spent_def in_set_conv_nth)
  have "grows tokenLater (db_tokens db) (db_tokens db')" using assms(1) by (simp add: dbLater_def)
  then have "j < length (db_tokens db')" "tokenLater (db_tokens db ! j) (db_tokens db' ! j)"
    using j(1) by (auto simp: grows_iff)
  moreover have "k_TokenHash y = k_TokenHash x \<and> (k_ConsumedAt x \<noteq> None \<longrightarrow> k_ConsumedAt y \<noteq> None)" if "tokenLater x y" for x y
    using that by (cases x; cases y) (auto simp: tokenLater_def)
  ultimately show ?thesis using j(2,3) by (auto simp: spent_def intro!: bexI [of _ "db_tokens db' ! j"])
qed

lemma spent_not_consumed:
  assumes "spent h db" "dbInv db"
  shows "ConsumeOneTimeToken now h purpose db = (Inl NoRows, db)"
proof -
  obtain k where k: "k \<in> set (db_tokens db)" "k_TokenHash k = h" "k_ConsumedAt k \<noteq> None" using assms(1) by (auto simp: spent_def)
  have "x = k" if "x \<in> set (db_tokens db)" "k_TokenHash x = h" for x
    using assms(2) k that by (auto simp: dbInv_def distinct_map inj_on_def)
  then have "find (usableToken now h purpose) (db_tokens db) = None"
    using k(3) by (fastforce simp: find_None_iff usableToken_def)
  then show ?thesis by (simp add: ConsumeOneTimeToken_def)
qed

lemma case_required_ok:
  "(case x of None \<Rightarrow> afail e | Some a \<Rightarrow> f a) db = (Inr r, db') \<longleftrightarrow> (\<exists>a. x = Some a \<and> f a db = (Inr r, db'))"
  by (auto split: option.splits)

text \<open>The steps of a handler that only read, taken off one by one.\<close>

lemma peel:
  "abind (liftErr k x) f db = (Inr r, db') \<longleftrightarrow> (\<exists>a. x = Inr a \<and> f a db = (Inr r, db'))"
  "abind (need y e) g db = (Inr r, db') \<longleftrightarrow> (\<exists>a. y = Some a \<and> g a db = (Inr r, db'))"
  "abind (aguard c e) h db = (Inr r, db') \<longleftrightarrow> c \<and> h () db = (Inr r, db')"
  "abind (liftE z) l db = (Inr r, db') \<longleftrightarrow> (\<exists>a. z = Inr a \<and> l a db = (Inr r, db'))"
  "abind (GetUserByID i) q db = (Inr r, db') \<longleftrightarrow> (\<exists>u. find (\<lambda>u. u_ID u = i) (db_users db) = Some u \<and> q u db = (Inr r, db'))"
  by (auto simp: abind_ok GetUserByID_def)

lemmas peel_ok = case_required_ok if_afail_ok inTx_ok peel

lemma consume_then:
  assumes "abind (onNoRows (ConsumeOneTimeToken now h purpose) e) f db = (Inr r, db')" "\<And>k. leads dbLater (f k)"
  shows "\<exists>purpose k db1. ConsumeOneTimeToken now h purpose db = (Inr k, db1) \<and> dbLater db1 db'"
  using assms by (auto simp: abind_ok) (metis leadsD)

lemma request_consumes:
  assumes "serve env req db = (Inr r, db')" "oneTimeToken req = Some token"
  shows "\<exists>purpose k db1. ConsumeOneTimeToken (ae_now env) (tokenHash env token) purpose db = (Inr k, db1) \<and> dbLater db1 db'"
proof (cases req)
  case (ReqConfirmEmail p)
  with assms(2) have p: "p = Some token" by (cases p) auto
  from assms(1) obtain x where "ConfirmEmailVerification env (Some token) db = (Inr x, db')"
    unfolding ReqConfirmEmail p by (auto simp: replies_def abind_ok)
  then show ?thesis
    unfolding ConfirmEmailVerification_def option.case if_afail_ok inTx_ok
    by (elim conjE consume_then) (intro history.handler_rules)
next
  case (ReqConfirmReset p)
  with assms(2) obtain q where p: "p = Some q" "token = rp_Token q" by (cases p) auto
  from assms(1) obtain x where "ConfirmPasswordReset env (Some q) db = (Inr x, db')"
    unfolding ReqConfirmReset p by (auto simp: replies_def abind_ok)
  then show ?thesis
    unfolding ConfirmPasswordReset_def option.case if_afail_ok peel inTx_ok p(2)
    by (elim exE conjE consume_then) (intro history.handler_rules)
next
  case (ReqAcceptInvite p)
  with assms(2) have p: "p = Some token" by (cases p) auto
  from assms(1) obtain x where "AcceptInvite env (Some token) db = (Inr x, db')"
    unfolding ReqAcceptInvite p by (auto simp: replies_def abind_ok)
  then show ?thesis
    unfolding AcceptInvite_def option.case if_afail_ok peel inTx_ok Let_def
    by (elim exE conjE consume_then) (intro history.q_members history.handler_rules)
qed (use assms in auto)

text \<open>
  (C15) One-time tokens are used once: after a request that confirmed an address, reset a password or accepted an invite with a token,
  and after whatever requests follow, no such request with the same token succeeds, and it changes nothing.\<close>

theorem one_time_token_single_use:
  assumes "serve env req db = (Inr r, db1)" "oneTimeToken req = Some token" "dbInv db" "authStep\<^sup>*\<^sup>* db1 db2"
    and "oneTimeToken req' = Some token'" "tokenHash env' token' = tokenHash env token"
  shows "\<exists>e. serve env' req' db2 = (Inl e, db2)"
proof -
  obtain purpose k db0 where "ConsumeOneTimeToken (ae_now env) (tokenHash env token) purpose db = (Inr k, db0)" "dbLater db0 db1"
    using request_consumes [OF assms(1,2)] by blast
  then have "spent (tokenHash env token) db2"
    using consumed_spent spent_later history.leads_run [OF assms(4)] by blast
  moreover have "dbInv db2"
    using indexes.leads_serve [of env req] indexes.leads_run [OF assms(4)] assms(1,3) leadsD by (fastforce simp: keepsInv_def)
  ultimately have dead: "ConsumeOneTimeToken now (tokenHash env' token') purpose' db2 = (Inl NoRows, db2)" for now purpose'
    using spent_not_consumed assms(6) by simp
  have "isl (fst (serve env' req' db2))"
  proof (rule ccontr)
    assume "\<not> isl (fst (serve env' req' db2))"
    note run = passing_result [OF this]
    from request_consumes [OF run assms(5)] dead show False by auto
  qed
  then obtain e db3 where *: "serve env' req' db2 = (Inl e, db3)" using failing_result by blast
  have "\<not> listsAfterCommit req'" using assms(5) by (cases req') auto
  from clean_serve [OF this] * show ?thesis unfolding clean_def by blast
qed

definition tokenDB :: authDB where
  "tokenDB = accountDB\<lparr>db_tokens := [\<lparr>k_ID = 20, k_Purpose = tokenPurposeEmailVerification, k_TokenHash = tokenHash sampleEnv ''mail'',
     k_UserID = Some 2, k_TenantID = None, k_Email = [], k_NormalizedEmail = [], k_Metadata = [], k_ExpiresAt = 9000, k_ConsumedAt = None\<rparr>]\<rparr>"

theorem one_time_token_single_use_witness:
  "\<exists>r db1 e. serve sampleEnv (ReqConfirmEmail (Some ''mail'')) tokenDB = (Inr r, db1)
    \<and> serve sampleEnv (ReqConfirmEmail (Some ''mail'')) db1 = (Inl e, db1)"
proof -
  have "\<not> isl (fst (serve sampleEnv (ReqConfirmEmail (Some ''mail'')) tokenDB))" by code_simp
  note run = passing_result [OF this]
  have "dbInv tokenDB"
    by (simp add: dbInv_def tokenDB_def accountDB_def emptyDB_def emailKeys_def activeKeys_def attemptKeys_def sampleUser_def newMembership_def)
      code_simp
  with one_time_token_single_use [OF run _ _ rtranclp.rtrancl_refl, of "''mail''" "ReqConfirmEmail (Some ''mail'')" "''mail''" sampleEnv] run
  show ?thesis by fastforce
qed

lemma mark_verified_ok:
  "MarkUserEmailVerified now i db = (Inr u, db') \<Longrightarrow> u_ID u = i \<and> db_sessions db' = db_sessions db"
  by (auto simp: MarkUserEmailVerified_def Let_def find_Some_iff split: option.splits)

lemma revoke_user_row:
  assumes "RevokeUserRefreshSessions now user reason db = (Inr x, db')" "find (\<lambda>s. s_ID s = i) (db_sessions db) = Some s" "s_UserID s = user"
  shows "\<exists>s'. find (\<lambda>s. s_ID s = i) (db_sessions db') = Some s' \<and> s_RevokedAt s' \<noteq> None"
proof -
  let ?off = "\<lambda>s. if s_UserID s = user \<and> s_RevokedAt s = None then revoked now reason s else s"
  have "find (\<lambda>s. s_ID s = i) (map ?off ss) = map_option ?off (find (\<lambda>s. s_ID s = i) ss)" for ss
    by (induction ss) (auto simp: revoked_def)
  then show ?thesis using assms by (auto simp: RevokeUserRefreshSessions_def revoked_def)
qed

lemma reset_revokes:
  assumes "ConfirmPasswordReset env (Some p) db = (Inr r, db1)"
  shows "\<exists>k user. k \<in> set (db_tokens db) \<and> usableToken (ae_now env) (tokenHash env (rp_Token p)) tokenPurposePasswordReset k
    \<and> k_UserID k = Some user
    \<and> (\<forall>i s. find (\<lambda>s. s_ID s = i) (db_sessions db) = Some s \<longrightarrow> s_UserID s = user
        \<longrightarrow> (\<exists>s'. find (\<lambda>s. s_ID s = i) (db_sessions db1) = Some s' \<and> s_RevokedAt s' \<noteq> None))"
proof -
  obtain db0 dbA0 k dbA uid ident dbB id2 hash dbC user dbD x dbE t dbF resp dbG y dbH where
    con: "ConsumeOneTimeToken (ae_now env) (tokenHash env (rp_Token p)) tokenPurposePasswordReset db0 = (Inr k, dbA)" and
    eqs: "db0 = db" "dbA0 = dbA" "db1 = dbH" and
    uid: "k_UserID k = Some uid" and
    ident: "GetEmailIdentityForLogin (k_NormalizedEmail k) dbA0 = (Inr ident, dbB)" and
    upd: "UpdateIdentityPasswordHash (i_ID ident) hash dbB = (Inr id2, dbC)" and
    mark: "MarkUserEmailVerified (ae_now env) uid dbC = (Inr user, dbD)" and
    rev: "RevokeUserRefreshSessions (ae_now env) (u_ID user) ''password_reset'' dbD = (Inr x, dbE)" and
    ten: "ensureActiveTenant env 0 user None dbE = (Inr t, dbF)" and
    resp: "createAuthSessionResponse env 2 user t defaultRefreshSessionTTL None None [] dbF = (Inr resp, dbG)" and
    ev: "recordEvent env 3 ''password_reset'' (Some (u_ID user)) None (Some t) None [] dbG = (Inr y, dbH)"
    using assms unfolding ConfirmPasswordReset_def option.case handler_ok
    by (elim exE conjE) (rule that; assumption)
  have same: "db_sessions dbD = db_sessions db"
    using con ident upd mark_verified_ok [OF mark] eqs
    by (auto simp: ConsumeOneTimeToken_def GetEmailIdentityForLogin_def UpdateIdentityPasswordHash_def Let_def split: option.splits)
  have later: "dbLater dbE db1"
    using leadsD [OF history.leads_helpers(1) ten] leadsD [OF history.leads_response resp] leadsD [OF history.leads_helpers(3) ev]
      dbLater_trans eqs(3) by blast
  have "\<exists>s'. find (\<lambda>s. s_ID s = i) (db_sessions db1) = Some s' \<and> s_RevokedAt s' \<noteq> None"
    if "find (\<lambda>s. s_ID s = i) (db_sessions db) = Some s" "s_UserID s = uid" for i s
    using revoke_user_row [OF rev, of i s] revoked_stays [OF later] mark_verified_ok [OF mark] same that by auto
  moreover obtain k0 where "k0 \<in> set (db_tokens db)" "usableToken (ae_now env) (tokenHash env (rp_Token p)) tokenPurposePasswordReset k0"
      "k = k0\<lparr>k_ConsumedAt := Some (ae_now env)\<rparr>"
    using consumed_spent [OF con] eqs(1) by blast
  ultimately show ?thesis using uid by auto
qed

text \<open>
  A password reset ends every session of its user: after it, and after whatever requests follow, no refresh token of a session the
  user had before is accepted.\<close>

lemma reset_ends_sessions:
  assumes "ConfirmPasswordReset env (Some p) db = (Inr r, db1)"
  shows "\<exists>k user. k \<in> set (db_tokens db) \<and> usableToken (ae_now env) (tokenHash env (rp_Token p)) tokenPurposePasswordReset k
    \<and> k_UserID k = Some user
    \<and> (\<forall>i s db2 env' q. find (\<lambda>s. s_ID s = i) (db_sessions db) = Some s \<and> s_UserID s = user \<and> authStep\<^sup>*\<^sup>* db1 db2
        \<and> parseRefreshToken env' (refreshTokenFromParams env' q) = Some i \<longrightarrow> (\<exists>e. Refresh env' q db2 = (Inl e, db2)))"
  using reset_revokes [OF assms] refresh_revoked revoked_stays [OF history.leads_run] by meson

definition resetDB :: authDB where
  "resetDB = accountDB\<lparr>db_tokens := [\<lparr>k_ID = 20, k_Purpose = tokenPurposePasswordReset, k_TokenHash = tokenHash sampleEnv ''mail'',
     k_UserID = Some 1, k_TenantID = None, k_Email = [], k_NormalizedEmail = ''ada@example.org'', k_Metadata = [], k_ExpiresAt = 9000,
     k_ConsumedAt = None\<rparr>],
     db_identities := [\<lparr>i_ID = 30, i_UserID = 1, i_Provider = ''email'', i_ProviderSubject = ''ada@example.org'', i_Email = [],
     i_NormalizedEmail = [], i_PasswordHash = []\<rparr>]\<rparr>"

definition sampleReset :: PasswordResetConfirmParams where
  "sampleReset = \<lparr>rp_Token = ''mail'', rp_NewPassword = ''correct horse''\<rparr>"

lemma reset_ends_sessions_witness:
  "\<exists>r db1 e. ConfirmPasswordReset sampleEnv (Some sampleReset) resetDB = (Inr r, db1) \<and> Refresh sampleEnv (Some ''8.3'') db1 = (Inl e, db1)"
proof -
  have "validatePassword ''correct horse'' = None"
    by (simp add: validatePassword_def passwordMinLength_def passwordMaxLength_def)
  then obtain h where h: "hashPassword sampleEnv (rp_NewPassword sampleReset) = Inr h"
    using hashPassword_phc [of "''correct horse''" sampleEnv] by (auto simp: sampleReset_def)
  have "\<not> isl (fst (ConfirmPasswordReset sampleEnv (Some sampleReset) resetDB))"
    unfolding ConfirmPasswordReset_def option.case h liftErr_def sum.case by code_simp
  note run = passing_result [OF this]
  have "find (\<lambda>s. s_ID s = 8) (db_sessions resetDB) = Some (sampleSession 8 1)" "s_UserID (sampleSession 8 1) = 1"
    by (simp_all add: resetDB_def accountDB_def sampleSession_def)
  moreover have "parseRefreshToken sampleEnv (refreshTokenFromParams sampleEnv (Some ''8.3'')) = Some 8" by code_simp
  moreover have "k_UserID k = Some 1" if "k \<in> set (db_tokens resetDB)" for k using that by (simp add: resetDB_def)
  ultimately show ?thesis
    using reset_ends_sessions [OF run] run by (metis option.inject rtranclp.rtrancl_refl)
qed

end
