(* ===== verification/AuthRights.thy ===== *)
theory AuthRights
  imports AuthProps
begin

text \<open>
  Rights in the standard auth service: which workspace a response is scoped to, who may change a workspace, that the last owner of a
  workspace is not removed, and who may impersonate.
\<close>

section \<open>The workspace of a response\<close>

definition bootOK :: "authEnv \<Rightarrow> AuthBootstrapResponse \<Rightarrow> authDB \<Rightarrow> bool" where
  "bootOK env b db = (\<exists>m \<in> set (db_memberships db). m_DisabledAt m = None \<and> liveTenant db (m_TenantID m)
     \<and> br_CurrentTenantID b = ae_uuidText env (m_TenantID m) \<and> up_ID (br_User b) = ae_uuidText env (m_UserID m))"

definition ends :: "('a \<Rightarrow> authDB \<Rightarrow> bool) \<Rightarrow> 'a action \<Rightarrow> bool" where
  "ends P m = (\<forall>db r db'. m db = (Inr r, db') \<longrightarrow> P r db')"

lemma ends_rules:
  "ends P (afail e)" "(\<And>a. ends P (f a)) \<Longrightarrow> ends P (abind m f)" "ends P m' \<Longrightarrow> ends P (inTx env m')"
  "ends P m1 \<Longrightarrow> ends P m2 \<Longrightarrow> ends P (if c then m1 else m2)"
  "ends P n \<Longrightarrow> (\<And>a. ends P (g a)) \<Longrightarrow> ends P (case x of None \<Rightarrow> n | Some a \<Rightarrow> g a)"
  "(\<And>a b. ends P (h a b)) \<Longrightarrow> ends P (case p of (a, b) \<Rightarrow> h a b)"
  unfolding ends_def by (auto simp: abind_ok inTx_ok split: option.splits prod.splits)

lemma bootstrap_scoped:
  assumes "buildBootstrap env user t ref db = (Inr b, db')" "inj (ae_uuidText env)"
  shows "bootOK env b db'"
proof -
  obtain r where r: "r \<in> set (ListUserMemberships (u_ID user) db)" "sameUUID env (Some (m_TenantID (fst r))) (Some t)"
    and b: "br_CurrentTenantID b = ae_uuidText env t" "up_ID (br_User b) = ae_uuidText env (u_ID user)" "db' = db"
    using assms(1) by (auto simp: buildBootstrap_def abind_ok list_ex_iff mapUser_def uuidString_def)
  have "m_TenantID (fst r) = t" using r(2) assms(2) by (simp add: sameUUID_def uuidString_def inj_eq)
  moreover have "fst r \<in> set (db_memberships db)" "m_UserID (fst r) = u_ID user" "m_DisabledAt (fst r) = None" "liveTenant db (m_TenantID (fst r))"
    using r(1) by (auto simp: ListUserMemberships_def)
  ultimately show ?thesis using b by (auto simp: bootOK_def)
qed

lemma bootOK_event: "bootOK env b db \<Longrightarrow> recordEvent env n ty x1 x2 x3 x4 meta db = (r, db') \<Longrightarrow> bootOK env b db'"
  by (auto simp: recordEvent_def aignore_def CreateAuthEvent_def bootOK_def liveTenant_def tenantOf_def)

lemma boot_then_event:
  assumes "inj (ae_uuidText env)" "\<And>b db. bootOK env b db \<Longrightarrow> P (k b) db"
  shows "ends P (abind (buildBootstrap env user t ref) (\<lambda>b. abind (recordEvent env n ty (x1 b) (x2 b) (x3 b) (x4 b) (meta b)) (\<lambda>_. aret (k b))))"
  unfolding ends_def abind_ok aret_ok using assms bootstrap_scoped bootOK_event by meson

lemma response_then_event:
  assumes "inj (ae_uuidText env)"
  shows "ends (\<lambda>r. bootOK env (sr_Bootstrap r)) (abind (createAuthSessionResponse env i user t ttl actor imp why)
    (\<lambda>r. abind (recordEvent env n ty x1 x2 x3 x4 meta) (\<lambda>_. aret r)))"
  unfolding ends_def createAuthSessionResponse_def handler_ok
  by (auto dest!: bootstrap_scoped [OF _ assms] intro: bootOK_event)

definition bootstrapOf :: "authReply \<Rightarrow> AuthBootstrapResponse option" where
  "bootstrapOf rep = (case rep of RepSession r \<Rightarrow> Some (sr_Bootstrap r) | RepBootstrap b \<Rightarrow> Some b | _ \<Rightarrow> None)"

lemma sessions_scoped:
  assumes "inj (ae_uuidText env)"
  shows "ends (\<lambda>r. bootOK env (sr_Bootstrap r)) (ConfirmEmailVerification env p1)"
    "ends (\<lambda>r. bootOK env (sr_Bootstrap r)) (LoginEmail env p2)"
    "ends (\<lambda>r. bootOK env (sr_Bootstrap r)) (Refresh env p3)"
    "ends (\<lambda>r. bootOK env (sr_Bootstrap r)) (ConfirmPasswordReset env p4)"
    "ends (\<lambda>r. bootOK env (sr_Bootstrap r)) (StartImpersonation env p5)"
    "ends (\<lambda>r. bootOK env (sr_Bootstrap r)) (StopImpersonation env)"
  unfolding ConfirmEmailVerification_def LoginEmail_def Refresh_def ConfirmPasswordReset_def StartImpersonation_def
    StopImpersonation_def Let_def
  by (intro response_then_event boot_then_event ends_rules assms; simp)+

lemma bootstraps_scoped:
  assumes "inj (ae_uuidText env)"
  shows "ends (bootOK env) (Me env)" "ends (bootOK env) (CreateOrganization env p1)" "ends (bootOK env) (SwitchOrganization env p2)"
    "ends (bootOK env) (UpdateOrganization env t p3)" "ends (bootOK env) (DeleteOrganization env t)" "ends (bootOK env) (AcceptInvite env p4)"
proof -
  have "ends (bootOK env) (buildBootstrap env user t ref)" for user t ref
    using bootstrap_scoped assms by (simp add: ends_def)
  then show "ends (bootOK env) (Me env)" unfolding Me_def by (intro ends_rules)
  show "ends (bootOK env) (CreateOrganization env p1)" "ends (bootOK env) (SwitchOrganization env p2)"
    "ends (bootOK env) (UpdateOrganization env t p3)" "ends (bootOK env) (DeleteOrganization env t)" "ends (bootOK env) (AcceptInvite env p4)"
    unfolding CreateOrganization_def SwitchOrganization_def UpdateOrganization_def DeleteOrganization_def AcceptInvite_def Let_def
    by (intro boot_then_event ends_rules assms; simp)+
qed

lemma replies_scoped:
  "ends (\<lambda>r. bootOK env (sr_Bootstrap r)) m \<Longrightarrow> ends (\<lambda>rep db. \<forall>b. bootstrapOf rep = Some b \<longrightarrow> bootOK env b db) (replies RepSession m)"
  "ends (bootOK env) m' \<Longrightarrow> ends (\<lambda>rep db. \<forall>b. bootstrapOf rep = Some b \<longrightarrow> bootOK env b db) (replies RepBootstrap m')"
  "(\<And>a. bootstrapOf (k a) = None) \<Longrightarrow> ends (\<lambda>rep db. \<forall>b. bootstrapOf rep = Some b \<longrightarrow> bootOK env b db) (replies k m'')"
  "ends (\<lambda>rep db. \<forall>b. bootstrapOf rep = Some b \<longrightarrow> bootOK env b db) (answered h)"
  by (auto simp: ends_def replies_def abind_ok bootstrapOf_def answered_def split: prod.splits)

lemma serve_scoped:
  assumes "inj (ae_uuidText env)"
  shows "ends (\<lambda>rep db. \<forall>b. bootstrapOf rep = Some b \<longrightarrow> bootOK env b db) (serve env req)"
  by (cases req; simp only: serve.simps)
    (intro replies_scoped(1,2,4) sessions_scoped bootstraps_scoped assms | rule replies_scoped(3); simp add: bootstrapOf_def)+


lemma sample_uuid_inj: "inj (ae_uuidText sampleEnv)"
proof (rule injI)
  fix a b
  assume "ae_uuidText sampleEnv a = ae_uuidText sampleEnv b"
  then have "itoaNat a = itoaNat b" by (simp add: sampleEnv_def)
  then show "a = b" by (metis itoaNat_digits)
qed


section \<open>Owners\<close>

text \<open>The workspace whose owner a request needs.\<close>

fun ownedWorkspace :: "authRequest \<Rightarrow> string option" where
  "ownedWorkspace (ReqUpdateOrg t p) = Some t"
| "ownedWorkspace (ReqDeleteOrg t) = Some t"
| "ownedWorkspace (ReqInvite t p) = Some t"
| "ownedWorkspace (ReqUpdateRole t u p) = Some t"
| "ownedWorkspace (ReqDisableMember t p) = Some t"
| "ownedWorkspace _ = None"

definition actsAsOwner :: "authEnv \<Rightarrow> string \<Rightarrow> authDB \<Rightarrow> bool" where
  "actsAsOwner env t db = (\<exists>d user tenant m. ae_authData env = Some d \<and> parseUUID env (d_UserID d) = Some user
     \<and> parseUUID env t = Some tenant \<and> m \<in> set (db_memberships db) \<and> activeMembership user tenant m \<and> m_Role m = roleOwner)"

lemma peel_owner: "abind (requireOwner user tenant) f db = (Inr r, db') \<longleftrightarrow>
    (\<exists>m. find (activeMembership user tenant) (db_memberships db) = Some m \<and> m_Role m = roleOwner \<and> f () db = (Inr r, db'))"
  by (auto simp: abind_ok requireOwner_def GetActiveMembership_def)

lemma currentAuthData_ok: "currentAuthData env = Inr d \<longleftrightarrow> ae_authData env = Some d"
  by (auto simp: currentAuthData_def split: option.splits)

lemma actsAsOwnerI:
  assumes "currentAuthData env = Inr d" "parseUUID env (d_UserID d) = Some user" "parseUUID env t = Some tenant"
    "find (activeMembership user tenant) (db_memberships db) = Some m" "m_Role m = roleOwner"
  shows "actsAsOwner env t db"
  using assms by (auto simp: actsAsOwner_def currentAuthData_ok find_Some_iff in_set_conv_nth)

lemma owner_workspaces:
  "UpdateOrganization env t p1 db = (Inr b1, db') \<Longrightarrow> actsAsOwner env t db"
  "DeleteOrganization env t db = (Inr b2, db') \<Longrightarrow> actsAsOwner env t db"
  "InviteOrganizationMember env t p3 db = (Inr b3, db') \<Longrightarrow> actsAsOwner env t db"
proof -
  show "UpdateOrganization env t p1 db = (Inr b1, db') \<Longrightarrow> actsAsOwner env t db"
    unfolding UpdateOrganization_def peel_ok peel_owner by (elim exE conjE) (rule actsAsOwnerI)
  show "DeleteOrganization env t db = (Inr b2, db') \<Longrightarrow> actsAsOwner env t db"
    unfolding DeleteOrganization_def peel_ok peel_owner by (elim exE conjE) (rule actsAsOwnerI)
  assume "InviteOrganizationMember env t p3 db = (Inr b3, db')"
  then obtain d user tenant m where "currentAuthData env = Inr d" "parseUUID env (d_UserID d) = Some user" "parseUUID env t = Some tenant"
      "find (activeMembership user tenant) (db_memberships db) = Some m" "m_Role m = roleOwner"
    by (auto simp: InviteOrganizationMember_def Let_def abind_ok inTx_ok requireOwner_def GetActiveMembership_def)
  then show "actsAsOwner env t db" by (rule actsAsOwnerI)
qed

lemma member_tx_ok:
  assumes "abind (memberMutationIDs env t u) (\<lambda>(tenant, target, actor). abind (inTx env (abind (requireOwner actor tenant) (f tenant target)))
      (\<lambda>_. ListOrganizationMembers env t)) db = (r, db')" "db' \<noteq> db"
  shows "actsAsOwner env t db"
proof -
  obtain tenant target actor where ids: "memberMutationIDs env t u db = (Inr (tenant, target, actor), db)"
    using assms leadsD [OF unchanged.leads_readers(5)]
    by (auto simp: abind_def split: prod.splits sum.splits) (metis old.prod.exhaust)+
  let ?tx = "inTx env (abind (requireOwner actor tenant) (f tenant target))"
  have "\<exists>x db1. ?tx db = (Inr x, db1)"
  proof (rule ccontr)
    assume "\<nexists>x db1. ?tx db = (Inr x, db1)"
    then obtain e db1 where tx: "?tx db = (Inl e, db1)" by (metis old.prod.exhaust sum.exhaust)
    then have "db1 = db" using clean_inTx unfolding clean_def by blast
    with assms ids tx show False by (simp add: abind_def)
  qed
  then have "\<exists>m. find (activeMembership actor tenant) (db_memberships db) = Some m \<and> m_Role m = roleOwner"
    unfolding inTx_ok peel_owner by blast
  moreover obtain d where "currentAuthData env = Inr d" "parseUUID env (d_UserID d) = Some actor" "parseUUID env t = Some tenant"
    using ids by (auto simp: memberMutationIDs_def abind_ok)
  ultimately show ?thesis using actsAsOwnerI by blast
qed

lemma replies_db: "replies k m db = (r, db') \<Longrightarrow> \<exists>r0. m db = (r0, db')"
  by (auto simp: replies_def abind_def aret_def split: prod.splits sum.splits)

lemma owner_members:
  "UpdateOrganizationMemberRole env t u p1 db = (r1, db') \<Longrightarrow> db' \<noteq> db \<Longrightarrow> actsAsOwner env t db"
  "DisableOrganizationMember env t p2 db = (r2, db') \<Longrightarrow> db' \<noteq> db \<Longrightarrow> actsAsOwner env t db"
proof -
  assume *: "UpdateOrganizationMemberRole env t u p1 db = (r1, db')" "db' \<noteq> db"
  then obtain role where "p1 = Some role" "role = roleOwner \<or> role = roleMember"
    by (cases p1) (auto simp: UpdateOrganizationMemberRole_def abind_def afail_def split: if_splits)
  then have "UpdateOrganizationMemberRole env t u p1 db = abind (memberMutationIDs env t u) (\<lambda>(tenant, target, actor). abind (inTx env
      (abind (requireOwner actor tenant) (\<lambda>_. abind (GetActiveMembership target tenant) (\<lambda>current.
        abind (if m_Role current = roleOwner \<and> role = roleMember then ensureCanRemoveOwner tenant else aret ()) (\<lambda>_.
        abind (UpdateMembershipRole tenant target role) (\<lambda>_. aret ())))))) (\<lambda>_. ListOrganizationMembers env t)) db"
    by (auto simp: UpdateOrganizationMemberRole_def abind_def [of "aret role"] aret_def [of role])
  with * show "actsAsOwner env t db" by (intro member_tx_ok) simp_all
next
  assume *: "DisableOrganizationMember env t p2 db = (r2, db')" "db' \<noteq> db"
  then obtain u where "p2 = Some u" "trimSpace u \<noteq> []"
    by (cases p2) (auto simp: DisableOrganizationMember_def afail_def split: if_splits)
  with * have "abind (memberMutationIDs env t u) (\<lambda>(tenant, target, actor). abind (inTx env
      (abind (requireOwner actor tenant) (\<lambda>_. abind (GetActiveMembership target tenant) (\<lambda>current.
        abind (if m_Role current = roleOwner then ensureCanRemoveOwner tenant else aret ()) (\<lambda>_.
        abind (DisableMembership (ae_now env) tenant target) (\<lambda>_. aret ())))))) (\<lambda>_. ListOrganizationMembers env t)) db = (r2, db')"
    by (simp add: DisableOrganizationMember_def)
  then show "actsAsOwner env t db" using *(2) by (rule member_tx_ok)
qed

text \<open>
  (C10) Only an owner changes a workspace: when a request to rename or delete a workspace, to invite somebody, or to change or disable a
  member changes anything in the database, it was made with the access token of a user who had an active owner membership in
  that workspace.\<close>

theorem workspace_changes_need_owner:
  assumes "serve env req db = (r, db')" "ownedWorkspace req = Some t" "db' \<noteq> db"
  shows "actsAsOwner env t db"
proof (cases "listsAfterCommit req")
  case False
  with assms have "\<exists>a. r = Inr a" using clean_serve unfolding clean_def by (metis sum.exhaust)
  with assms owner_workspaces False show ?thesis by (cases req) (auto simp: replies_def abind_ok)
next
  case True
  with assms(2) consider u p where "req = ReqUpdateRole t u p" | p where "req = ReqDisableMember t p" by (cases req) auto
  then show ?thesis
  proof cases
    case 1
    from replies_db [OF assms(1) [unfolded 1 serve.simps]] owner_members(1) [OF _ assms(3)] show ?thesis by blast
  next
    case 2
    from replies_db [OF assms(1) [unfolded 2 serve.simps]] owner_members(2) [OF _ assms(3)] show ?thesis by blast
  qed
qed

definition adaEnv :: authEnv where
  "adaEnv = sampleEnv\<lparr>ae_authData := Some \<lparr>d_UserID = ''1'', d_TenantID = ''5'', d_SessionID = ''8'', d_ActorUserID = [],
     d_ImpersonationID = []\<rparr>\<rparr>"

theorem workspace_changes_need_owner_witness:
  "\<exists>r db'. serve adaEnv (ReqDisableMember ''5'' (Some ''2'')) accountDB = (r, db') \<and> db' \<noteq> accountDB
    \<and> actsAsOwner adaEnv ''5'' accountDB"
proof -
  let ?run = "serve adaEnv (ReqDisableMember ''5'' (Some ''2'')) accountDB"
  have "map m_DisabledAt (db_memberships (snd ?run)) \<noteq> map m_DisabledAt (db_memberships accountDB)" by code_simp
  then have "snd ?run \<noteq> accountDB" by fastforce
  moreover have "?run = (fst ?run, snd ?run)" by simp
  ultimately show ?thesis using workspace_changes_need_owner [of adaEnv _ accountDB _ _ "''5''"]
    by (metis ownedWorkspace.simps(5))
qed

subsection \<open>The last owner\<close>

definition ownerRow :: "uuid \<Rightarrow> membershipRow \<Rightarrow> bool" where
  "ownerRow t m = (m_TenantID m = t \<and> m_Role m = roleOwner \<and> m_DisabledAt m = None)"

lemma owners_positive: "0 < CountActiveOwners t db \<longleftrightarrow> (\<exists>m \<in> set (db_memberships db). ownerRow t m)"
  by (auto simp: CountActiveOwners_def ownerRow_def roleOwner_def filter_empty_conv)

definition keepsOwners :: "authDB \<Rightarrow> authDB \<Rightarrow> bool" where
  "keepsOwners db db' = (dbInv db \<longrightarrow> dbInv db' \<and> (\<forall>t. (\<exists>m \<in> set (db_memberships db). ownerRow t m)
     \<longrightarrow> (\<exists>m \<in> set (db_memberships db'). ownerRow t m)))"

lemma same_members_keeps:
  assumes "leads keepsInv m" "\<And>db. db_memberships (snd (m db)) = db_memberships db"
  shows "leads keepsOwners m"
  using assms by (auto simp: leads_def keepsInv_def keepsOwners_def)

lemma new_owner_keeps: "leads keepsOwners (CreateOrganizationMembership (newMembership i t user roleOwner))"
proof -
  let ?m = "newMembership i t user roleOwner"
  have "\<exists>m \<in> set (db_memberships (snd (CreateOrganizationMembership ?m db))). ownerRow t' m"
    if "m \<in> set (db_memberships db)" "ownerRow t' m" for db m t'
    using that by (auto simp: CreateOrganizationMembership_def Let_def newMembership_def ownerRow_def split: option.splits
        intro!: bexI [of _ m] image_eqI [of _ _ m])
  then show ?thesis using keeps_tenants(4) [of ?m] unfolding leads_def keepsInv_def keepsOwners_def by blast
qed

interpretation owners_kept: stable_queries keepsOwners
proof unfold_locales
  show "keepsOwners db db" for db by (simp add: keepsOwners_def)
  show "keepsOwners a b \<Longrightarrow> keepsOwners b c \<Longrightarrow> keepsOwners a c" for a b c by (auto simp: keepsOwners_def)
qed (rule new_owner_keeps | rule same_members_keeps, rule keeps_users keeps_tenants keeps_sessions keeps_tokens keeps_rest,
    simp add: CreateUser_def MarkUserEmailVerified_def UpdateUserProfileFromProvider_def CreateAuthIdentity_def UpdateIdentityPasswordHash_def
      CreateTenant_def UpdateTenantName_def SoftDeleteTenant_def CreateRefreshSession_def RotateRefreshSession_def SetRefreshSessionTenant_def
      RevokeRefreshSession_def RevokeUserRefreshSessions_def CreateOneTimeToken_def ConsumeOneTimeToken_def CreateOAuthState_def
      ConsumeOAuthState_def UpsertAuthAttempt_def CreateAuthEvent_def sendMail_def updateSession_def Let_def split: option.splits)+

lemma same_key_short:
  assumes "distinct (map f xs)" "\<forall>x \<in> set xs. f x = k"
  shows "length xs \<le> 1"
proof -
  have "set (map f xs) \<subseteq> {k}" using assms(2) by auto
  then have "card (set (map f xs)) \<le> 1" by (metis card.empty card_insert_disjoint card_mono empty_iff finite.emptyI finite_insert One_nat_def)
  then show ?thesis using assms(1) distinct_card by fastforce
qed

lemma active_unique:
  assumes "dbInv db" "m \<in> set (db_memberships db)" "n \<in> set (db_memberships db)" "activeMembership u t m" "activeMembership u t n"
  shows "m = n"
proof -
  have "inj_on (\<lambda>m. (m_UserID m, m_TenantID m)) (set (filter (\<lambda>m. m_DisabledAt m = None) (db_memberships db)))"
    using assms(1) by (simp add: dbInv_def activeKeys_def distinct_map)
  from inj_onD [OF this] show ?thesis using assms(2-) by (auto simp: activeMembership_def)
qed

lemma another_owner:
  assumes "dbInv db" "find (activeMembership u t) (db_memberships db) = Some cur"
    and "\<exists>m \<in> set (db_memberships db). ownerRow t m" "m_Role cur = roleOwner \<Longrightarrow> CountActiveOwners t db > 1"
  shows "\<exists>m \<in> set (db_memberships db). ownerRow t m \<and> m_UserID m \<noteq> u"
proof (rule ccontr)
  assume "\<not> ?thesis"
  then have only: "m_UserID m = u" if "m \<in> set (db_memberships db)" "ownerRow t m" for m using that by blast
  have cur: "cur \<in> set (db_memberships db)" "activeMembership u t cur" using assms(2) by (auto simp: find_Some_iff)
  obtain m where m: "m \<in> set (db_memberships db)" "ownerRow t m" using assms(3) by blast
  then have "activeMembership u t m" using only by (auto simp: ownerRow_def activeMembership_def)
  then have "m = cur" using active_unique assms(1) m cur by blast
  then have two: "CountActiveOwners t db > 1" using assms(4) m by (simp add: ownerRow_def)
  let ?os = "filter (ownerRow t) (db_memberships db)"
  have "distinct (map (\<lambda>m. (m_UserID m, m_TenantID m)) ?os)"
    using assms(1) by (auto simp: dbInv_def activeKeys_def distinct_map inj_on_def ownerRow_def)
  then have "length ?os \<le> 1" using only by (intro same_key_short [where k = "(u, t)"]) (auto simp: ownerRow_def)
  moreover have "length ?os = CountActiveOwners t db"
    unfolding CountActiveOwners_def ownerRow_def roleOwner_def by simp
  ultimately show False using two by simp
qed

lemma update_role_keeps:
  assumes "find (activeMembership u t) (db_memberships db) = Some cur" "role = roleOwner \<or> role = roleMember"
    and "m_Role cur = roleOwner \<Longrightarrow> role = roleMember \<Longrightarrow> CountActiveOwners t db > 1"
    and "UpdateMembershipRole t u role db = (Inr x, db')"
  shows "keepsOwners db db'"
proof -
  let ?upd = "\<lambda>m. if activeMembership u t m then m\<lparr>m_Role := role\<rparr> else m"
  have ms: "db_memberships db' = map ?upd (db_memberships db)"
    using assms(4) by (auto simp: UpdateMembershipRole_def Let_def split: option.splits)
  have "\<exists>m \<in> set (db_memberships db'). ownerRow t' m" if "dbInv db" "\<exists>m \<in> set (db_memberships db). ownerRow t' m" for t'
  proof -
    have "\<exists>m \<in> set (db_memberships db). ownerRow t' m \<and> (activeMembership u t m \<longrightarrow> role = roleOwner)"
    proof (cases "t' = t \<and> role \<noteq> roleOwner")
      case True
      with assms(2,3) have "m_Role cur = roleOwner \<Longrightarrow> CountActiveOwners t db > 1" by blast
      from another_owner [OF that(1) assms(1) _ this] that(2) True show ?thesis by (auto simp: activeMembership_def)
    next
      case False
      with that(2) show ?thesis by (auto simp: activeMembership_def ownerRow_def)
    qed
    then obtain m where m: "m \<in> set (db_memberships db)" "ownerRow t' m" "activeMembership u t m \<longrightarrow> role = roleOwner" by blast
    then have "ownerRow t' (?upd m)" by (simp add: ownerRow_def)
    moreover have "?upd m \<in> set (db_memberships db')" unfolding ms set_map using m(1) by (rule imageI)
    ultimately show ?thesis by blast
  qed
  moreover have "dbInv db \<Longrightarrow> dbInv db'" using leadsD [OF keeps_tenants(5) assms(4)] by (simp add: keepsInv_def)
  ultimately show ?thesis by (auto simp: keepsOwners_def)
qed

lemma disable_keeps:
  assumes "find (activeMembership u t) (db_memberships db) = Some cur" "m_Role cur = roleOwner \<Longrightarrow> CountActiveOwners t db > 1"
    and "DisableMembership now t u db = (Inr x, db')"
  shows "keepsOwners db db'"
proof -
  let ?off = "\<lambda>m. if m_TenantID m = t \<and> m_UserID m = u
    then m\<lparr>m_DisabledAt := Some (case m_DisabledAt m of None \<Rightarrow> now | Some d \<Rightarrow> d)\<rparr> else m"
  have ms: "db_memberships db' = map ?off (db_memberships db)"
    using assms(3) by (auto simp: DisableMembership_def Let_def split: option.splits)
  have "\<exists>m \<in> set (db_memberships db'). ownerRow t' m" if "dbInv db" "\<exists>m \<in> set (db_memberships db). ownerRow t' m" for t'
  proof -
    have "\<exists>m \<in> set (db_memberships db). ownerRow t' m \<and> \<not> (m_TenantID m = t \<and> m_UserID m = u)"
      using another_owner [OF that(1) assms(1) _ assms(2)] that(2) by (cases "t' = t") (auto simp: ownerRow_def)
    then obtain m where m: "m \<in> set (db_memberships db)" "ownerRow t' m" "\<not> (m_TenantID m = t \<and> m_UserID m = u)" by blast
    then have "?off m = m" by auto
    moreover have "?off m \<in> set (db_memberships db')" unfolding ms set_map using m(1) by (rule imageI)
    ultimately show ?thesis using m(2) by (intro bexI [of _ m]) simp_all
  qed
  moreover have "dbInv db \<Longrightarrow> dbInv db'" using leadsD [OF keeps_tenants(6) assms(3)] by (simp add: keepsInv_def)
  ultimately show ?thesis by (auto simp: keepsOwners_def)
qed

lemma ensureCanRemoveOwner_ok: "ensureCanRemoveOwner t db = (Inr x, db') \<longleftrightarrow> CountActiveOwners t db > 1 \<and> db' = db"
  by (auto simp: ensureCanRemoveOwner_def abind_ok)

lemma tx_keeps:
  assumes "\<And>db x db'. m db = (Inr x, db') \<Longrightarrow> keepsOwners db db'"
  shows "leads keepsOwners (inTx env m)"
  unfolding leads_def
proof
  fix db
  show "keepsOwners db (snd (inTx env m db))"
  proof (cases "isl (fst (inTx env m db))")
    case True
    then obtain e db' where run: "inTx env m db = (Inl e, db')" using failing_result by blast
    then have "db' = db" using clean_inTx unfolding clean_def by blast
    with run owners_kept.R_refl show ?thesis by simp
  next
    case False
    note run = passing_result [OF this]
    from run [unfolded inTx_ok] assms show ?thesis by blast
  qed
qed

lemma requireOwner_db: "requireOwner u t db = (Inr x, db') \<Longrightarrow> db' = db"
  by (auto simp: requireOwner_def abind_ok GetActiveMembership_def)

lemma update_tx_keeps:
  assumes "role = roleOwner \<or> role = roleMember"
    and "abind (requireOwner actor t) (\<lambda>_. abind (GetActiveMembership u t) (\<lambda>current.
        abind (if m_Role current = roleOwner \<and> role = roleMember then ensureCanRemoveOwner t else aret ()) (\<lambda>_.
        abind (UpdateMembershipRole t u role) (\<lambda>_. aret ())))) db = (Inr x, db')"
  shows "keepsOwners db db'"
proof -
  obtain a db1 cur db2 b db3 y db4 z where "requireOwner actor t db = (Inr a, db1)" "GetActiveMembership u t db1 = (Inr cur, db2)"
      "(if m_Role cur = roleOwner \<and> role = roleMember then ensureCanRemoveOwner t else aret ()) db2 = (Inr b, db3)"
      "UpdateMembershipRole t u role db3 = (Inr y, db4)" "x = z" "db' = db4"
    using assms(2) unfolding abind_ok aret_ok by (elim exE conjE) (rule that; assumption)
  then have "find (activeMembership u t) (db_memberships db) = Some cur" "UpdateMembershipRole t u role db = (Inr y, db')"
    "m_Role cur = roleOwner \<Longrightarrow> role = roleMember \<Longrightarrow> CountActiveOwners t db > 1"
    using requireOwner_db by (auto simp: GetActiveMembership_def ensureCanRemoveOwner_ok split: if_splits)
  with assms(1) show ?thesis by (intro update_role_keeps)
qed

lemma disable_tx_keeps:
  assumes "abind (requireOwner actor t) (\<lambda>_. abind (GetActiveMembership u t) (\<lambda>current.
        abind (if m_Role current = roleOwner then ensureCanRemoveOwner t else aret ()) (\<lambda>_.
        abind (DisableMembership now t u) (\<lambda>_. aret ())))) db = (Inr x, db')"
  shows "keepsOwners db db'"
proof -
  obtain a db1 cur db2 b db3 y db4 z where "requireOwner actor t db = (Inr a, db1)" "GetActiveMembership u t db1 = (Inr cur, db2)"
      "(if m_Role cur = roleOwner then ensureCanRemoveOwner t else aret ()) db2 = (Inr b, db3)"
      "DisableMembership now t u db3 = (Inr y, db4)" "x = z" "db' = db4"
    using assms unfolding abind_ok aret_ok by (elim exE conjE) (rule that; assumption)
  then have "find (activeMembership u t) (db_memberships db) = Some cur" "DisableMembership now t u db = (Inr y, db')"
    "m_Role cur = roleOwner \<Longrightarrow> CountActiveOwners t db > 1"
    using requireOwner_db by (auto simp: GetActiveMembership_def ensureCanRemoveOwner_ok split: if_splits)
  then show ?thesis by (intro disable_keeps)
qed

lemma member_requests_keep:
  "leads keepsOwners (UpdateOrganizationMemberRole env t u p1)" "leads keepsOwners (DisableOrganizationMember env t p2)"
proof -
  show "leads keepsOwners (UpdateOrganizationMemberRole env t u p1)"
    unfolding UpdateOrganizationMemberRole_def
  proof (rule owners_kept.leads_abind_known)
    fix role db db1
    assume "(case p1 of None \<Rightarrow> afail (invalidArgument ''role must be owner or member'')
      | Some role \<Rightarrow> if role \<noteq> roleOwner \<and> role \<noteq> roleMember then afail (invalidArgument ''role must be owner or member'') else aret role) db
      = (Inr role, db1)"
    then have "role = roleOwner \<or> role = roleMember" by (auto split: option.splits if_splits)
    then show "leads keepsOwners (abind (memberMutationIDs env t u) (\<lambda>(tenantUUID, targetUserID, actorUserID). abind (inTx env
       (abind (requireOwner actorUserID tenantUUID) (\<lambda>_. abind (GetActiveMembership targetUserID tenantUUID) (\<lambda>current.
        abind (if m_Role current = roleOwner \<and> role = roleMember then ensureCanRemoveOwner tenantUUID else aret ()) (\<lambda>_.
        abind (UpdateMembershipRole tenantUUID targetUserID role) (\<lambda>_. aret ())))))) (\<lambda>_. ListOrganizationMembers env t)))"
      by (intro owners_kept.leads_abind owners_kept.leads_cases owners_kept.leads_readers tx_keeps) (rule update_tx_keeps)
  qed (intro owners_kept.leads_rules)
  show "leads keepsOwners (DisableOrganizationMember env t p2)"
    unfolding DisableOrganizationMember_def
    by (intro owners_kept.leads_abind owners_kept.leads_cases owners_kept.leads_readers owners_kept.leads_reading tx_keeps)
      (rule disable_tx_keeps)
qed

text \<open>
  (C11) No workspace loses its last owner by a request other than the acceptance of an invite: a workspace with an active owner before
  the request has one after it.\<close>

theorem last_owner_kept:
  assumes "serve env req db = (r, db')" "dbInv db" "0 < CountActiveOwners t db" "\<And>p. req \<noteq> ReqAcceptInvite p"
  shows "0 < CountActiveOwners t db'"
proof -
  have "leads keepsOwners (serve env req)"
  proof (cases "memberRequest req")
    case False
    then show ?thesis by (rule owners_kept.leads_serve_others)
  next
    case True
    with assms(4) show ?thesis by (cases req) (auto intro!: owners_kept.leads_replies member_requests_keep)
  qed
  from leadsD [OF this assms(1)] assms(2,3) show ?thesis unfolding keepsOwners_def owners_positive by blast
qed

lemma accountDB_inv: "dbInv accountDB"
  by (simp add: dbInv_def accountDB_def emptyDB_def emailKeys_def activeKeys_def attemptKeys_def sampleUser_def newMembership_def) code_simp

theorem last_owner_kept_witness:
  "\<exists>r db'. serve adaEnv (ReqDisableMember ''5'' (Some ''2'')) accountDB = (r, db') \<and> CountActiveOwners 5 accountDB = 1
    \<and> 0 < CountActiveOwners 5 db'"
proof -
  have one: "CountActiveOwners 5 accountDB = 1" by code_simp
  obtain r db' where run: "serve adaEnv (ReqDisableMember ''5'' (Some ''2'')) accountDB = (r, db')" by fastforce
  have "0 < CountActiveOwners 5 db'" by (rule last_owner_kept [OF run accountDB_inv]) (use one in simp_all)
  with run one show ?thesis by blast
qed

section \<open>Impersonation\<close>

lemma response_session:
  assumes "createAuthSessionResponse env n user t ttl actor imp reason db = (Inr r, db')"
  shows "\<exists>s. db_sessions db' = db_sessions db @ [s] \<and> s_UserID s = u_ID user \<and> s_ActorUserID s = actor \<and> s_ExpiresAt s = ae_clock env + ttl
    \<and> s_ImpersonationReason s = trimSpace reason \<and> s_RevokedAt s = None \<and> s_ActiveTenantID s = Some t"
proof -
  obtain s raw db1 b db2 where cr: "createRefreshSession env n (u_ID user) t ttl actor imp reason db = (Inr (s, raw), db1)"
    and "buildBootstrap env user t (refOf s) db1 = (Inr b, db2)" "db' = db2"
    using assms unfolding createAuthSessionResponse_def handler_ok by (elim exE conjE) (rule that; assumption)
  then have "db' = db1" using buildBootstrap_db by blast
  with cr show ?thesis
    by (auto simp: createRefreshSession_def abind_ok CreateRefreshSession_def split: if_splits)
qed

text \<open>
  Impersonation: it starts only for a signed-in actor who exists, has the platform right and is not disabled, on a target who is
  verified and not disabled, with a reason.  It adds exactly one session, of the target, that names the actor and the
  reason and lives for thirty minutes.\<close>

lemma impersonation_authorized:
  assumes "StartImpersonation env (Some p) db = (Inr r, db')"
  shows "\<exists>d actor target s. ae_authData env = Some d
    \<and> actor \<in> set (db_users db) \<and> parseUUID env (d_UserID d) = Some (u_ID actor) \<and> u_CanImpersonateUsers actor \<and> u_DisabledAt actor = None
    \<and> target \<in> set (db_users db) \<and> parseUUID env (ip_TargetUserID p) = Some (u_ID target)
    \<and> u_DisabledAt target = None \<and> u_EmailVerifiedAt target \<noteq> None
    \<and> db_sessions db' = db_sessions db @ [s] \<and> s_UserID s = u_ID target \<and> s_ActorUserID s = Some (u_ID actor)
    \<and> s_ExpiresAt s = ae_clock env + defaultImpersonationTTL \<and> s_ImpersonationReason s = trimSpace (ip_Reason p)
    \<and> trimSpace (ip_Reason p) \<noteq> []"
proof -
  obtain d i j pref actor target t db1 resp db2 where
    d: "trimSpace (ip_Reason p) \<noteq> []" "currentAuthData env = Inr d" "parseUUID env (d_UserID d) = Some i" "parseUUID env (ip_TargetUserID p) = Some j" and
    actor: "find (\<lambda>u. u_ID u = i) (db_users db) = Some actor" "u_CanImpersonateUsers actor \<and> u_DisabledAt actor = None" and
    target: "find (\<lambda>u. u_ID u = j) (db_users db) = Some target" and
    ten: "ensureActiveTenant env 0 target pref db = (Inr t, db1)" and
    resp: "createAuthSessionResponse env 3 target t defaultImpersonationTTL (Some (u_ID actor)) (Some (ae_drawUUID env 2)) (trimSpace (ip_Reason p)) db1
      = (Inr resp, db2)" and
    ev: "\<exists>x. recordEvent env 4 ''impersonation_started'' (Some (u_ID target)) (Some (u_ID actor)) (Some t) None
      [(''reason'', trimSpace (ip_Reason p))] db2 = (Inr x, db')"
    using assms unfolding StartImpersonation_def option.case if_afail_ok peel inTx_ok Let_def
    by (auto simp: abind_ok)
  have "db_sessions db1 = db_sessions db" "db_sessions db' = db_sessions db2"
    using leadsD [OF sessions_ensureTenant ten] ev leadsD [OF sessions_recordEvent] by (auto simp: sameSessions_def)
  moreover obtain s where "db_sessions db2 = db_sessions db1 @ [s]" "s_UserID s = u_ID target" "s_ActorUserID s = Some (u_ID actor)"
      "s_ExpiresAt s = ae_clock env + defaultImpersonationTTL" "s_ImpersonationReason s = trimSpace (ip_Reason p)"
    using response_session [OF resp] by auto
  moreover have "actor \<in> set (db_users db)" "u_ID actor = i" "target \<in> set (db_users db)" "u_ID target = j"
    using actor(1) target by (auto simp: find_Some_iff)
  ultimately show ?thesis
    using d actor(2) ensureActiveTenant_user [OF ten]
    by (intro exI [of _ d] exI [of _ actor] exI [of _ target] exI [of _ s]) (simp add: currentAuthData_ok)
qed

definition supportDB :: authDB where
  "supportDB = accountDB\<lparr>db_users := [(sampleUser 1 ''ada@example.org'')\<lparr>u_CanImpersonateUsers := True\<rparr>, sampleUser 2 ''bob@example.org'']\<rparr>"

lemma impersonation_authorized_witness:
  "\<exists>r db' s. StartImpersonation adaEnv (Some \<lparr>ip_TargetUserID = ''2'', ip_TenantID = [], ip_Reason = ''ticket''\<rparr>) supportDB = (Inr r, db')
    \<and> db_sessions db' = db_sessions supportDB @ [s] \<and> s_UserID s = 2"
proof -
  have "\<not> isl (fst (StartImpersonation adaEnv (Some \<lparr>ip_TargetUserID = ''2'', ip_TenantID = [], ip_Reason = ''ticket''\<rparr>) supportDB))"
    by code_simp
  note run = passing_result [OF this]
  have "parseUUID adaEnv ''2'' = Some 2" by code_simp
  with impersonation_authorized [OF run] run show ?thesis by fastforce
qed

end
