(* ===== verification/AuthDefects.thy ===== *)
theory AuthDefects
  imports AuthRights
begin

text \<open>
  Where the standard auth service does not do what it means to.  The comments in the source say what is meant: a replayed refresh token
  revokes its session, attempts are limited, a workspace keeps an owner, a revoked session has no access.
\<close>

section \<open>What a rolled-back transaction takes with it\<close>

text \<open>
  (C21) A replayed refresh token does not revoke its session: for a live session and a token of it that is neither the current one nor the
  previous one within its grace, the rotation revokes the session and reports the replay, but the error rolls the transaction back, so
  the request leaves the session as it was and the thief's tokens keep working.\<close>

theorem replay_never_revokes:
  assumes "parseRefreshToken env (refreshTokenFromParams env p) = Some i" "find (\<lambda>s. s_ID s = i) (db_sessions db) = Some s"
    and "s_RevokedAt s = None" "s_ExpiresAt s > ae_clock env" "\<not> accepts env (refreshTokenFromParams env p) s" "ae_beginOK env"
  shows "\<exists>e db1 s1. rotateRefreshSession env (refreshTokenFromParams env p) db = (Inl e, db1)
    \<and> find (\<lambda>s. s_ID s = i) (db_sessions db1) = Some s1 \<and> s_RevokedAt s1 \<noteq> None
    \<and> Refresh env p db = (Inl e, db)"
proof -
  let ?tok = "refreshTokenFromParams env p"
  let ?db1 = "updateSession i (revoked (ae_now env) ''refresh_replay'') db"
  have id: "s_ID s = i" using assms(2) by (auto simp: find_Some_iff)
  have no: "tokenHash env ?tok \<noteq> s_TokenHash s"
    "\<not> (s_PreviousTokenHash s \<noteq> [] \<and> tokenHash env ?tok = s_PreviousTokenHash s
       \<and> (case s_PreviousTokenExpiresAt s of None \<Rightarrow> False | Some t \<Rightarrow> t > ae_clock env))"
    using assms(3-5) by (auto simp: accepts_def split: option.splits)
  have rot: "rotateRefreshSession env ?tok db = (Inl (unauthenticated ''refresh session is invalid''), ?db1)"
    using assms(1-4) id no
    by (simp add: rotateRefreshSession_def abind_def need_def onNoRows_def GetRefreshSessionByID_def one_def aret_def aguard_def afail_def
        aignore_def RevokeRefreshSession_def Let_def)
  have "?tok \<noteq> []" using assms(1) by (auto simp: parseRefreshToken_def cut_def)
  then have "Refresh env p db = (Inl (unauthenticated ''refresh session is invalid''), db)"
    using rot assms(6) by (simp add: Refresh_def Let_def inTx_def withTx_def abind_def)
  with rot revoked_row [OF assms(2)] show ?thesis by (auto simp: revoked_def)
qed

theorem replay_never_revokes_witness:
  "\<exists>e. Refresh sampleEnv (Some ''8.stolen'') accountDB = (Inl e, accountDB)"
proof -
  have "parseRefreshToken sampleEnv (refreshTokenFromParams sampleEnv (Some ''8.stolen'')) = Some 8" by code_simp
  moreover have "find (\<lambda>s. s_ID s = 8) (db_sessions accountDB) = Some (sampleSession 8 1)"
    by (simp add: accountDB_def sampleSession_def)
  moreover have "s_RevokedAt (sampleSession 8 1) = None" "s_ExpiresAt (sampleSession 8 1) > ae_clock sampleEnv" "ae_beginOK sampleEnv"
    by (simp_all add: sampleSession_def sampleEnv_def)
  moreover have "tokenHash sampleEnv (refreshTokenFromParams sampleEnv (Some ''8.stolen'')) \<noteq> s_TokenHash (sampleSession 8 1)" by code_simp
  then have "\<not> accepts sampleEnv (refreshTokenFromParams sampleEnv (Some ''8.stolen'')) (sampleSession 8 1)"
    by (auto simp: accepts_def sampleSession_def)
  ultimately show ?thesis using replay_never_revokes by blast
qed

text \<open>
  Failed logins are not counted: after any number of failing login requests the database, its attempt counters included, is
  what it was, so the limit of twenty attempts never stops a guesser, and the next login behaves as if nobody had tried.\<close>

lemma wrong_passwords_uncounted:
  assumes "\<forall>q \<in> set guesses. isl (fst (LoginEmail env (Some q) db))"
  shows "LoginEmail env' p (foldl (\<lambda>d q. snd (LoginEmail env (Some q) d)) db guesses) = LoginEmail env' p db"
proof -
  have "snd (LoginEmail env (Some q) db) = db" if "q \<in> set guesses" for q
    using clean_accounts(4) assms that failing_result unfolding clean_def by (metis snd_conv)
  then have "foldl (\<lambda>d q. snd (LoginEmail env (Some q) d)) db guesses = db" by (induction guesses) auto
  then show ?thesis by simp
qed

definition sampleGuess :: EmailLoginParams where
  "sampleGuess = \<lparr>lp_Email = ''ada@example.org'', lp_Password = ''guess''\<rparr>"

lemma wrong_passwords_uncounted_witness:
  "isl (fst (LoginEmail sampleEnv (Some sampleGuess) accountDB))
    \<and> LoginEmail sampleEnv (Some sampleGuess) (foldl (\<lambda>d q. snd (LoginEmail sampleEnv (Some q) d)) accountDB (replicate 1000 sampleGuess))
      = LoginEmail sampleEnv (Some sampleGuess) accountDB"
proof -
  have "isl (fst (LoginEmail sampleEnv (Some sampleGuess) accountDB))" by code_simp
  then show ?thesis using wrong_passwords_uncounted [of "replicate 1000 sampleGuess" sampleEnv accountDB] by simp
qed

section \<open>The last owner\<close>

text \<open>The only owner invites their own address as a member, and accepts with the token that was mailed.\<close>

definition selfInvited :: authDB where
  "selfInvited = snd (serve adaEnv (ReqInvite ''5'' (Some \<lparr>iv_Email = ''ada@example.org'', iv_Role = ''member''\<rparr>)) accountDB)"

text \<open>
  An invite can take the last owner from a workspace: a sole owner who invites their own address as a member and accepts becomes a
  member, because the membership that exists is overwritten without the check that guards role changes.  The workspace is left
  without any owner.\<close>

lemma invite_removes_last_owner:
  "authStep accountDB selfInvited \<and> authStep selfInvited (snd (serve adaEnv (ReqAcceptInvite (Some ''7'')) selfInvited))
    \<and> CountActiveOwners 5 selfInvited = 1
    \<and> \<not> isl (fst (serve adaEnv (ReqAcceptInvite (Some ''7'')) selfInvited))
    \<and> CountActiveOwners 5 (snd (serve adaEnv (ReqAcceptInvite (Some ''7'')) selfInvited)) = 0"
proof (intro conjI)
  show "authStep accountDB selfInvited" unfolding selfInvited_def by (rule authStep_serve)
  show "CountActiveOwners 5 selfInvited = 1" by code_simp
  show "\<not> isl (fst (serve adaEnv (ReqAcceptInvite (Some ''7'')) selfInvited))" by code_simp
  show "CountActiveOwners 5 (snd (serve adaEnv (ReqAcceptInvite (Some ''7'')) selfInvited)) = 0" by code_simp
qed (rule authStep_serve)

section \<open>Access after revocation\<close>

lemma bootstrap_sessions:
  assumes "buildBootstrap env user t ref db = (Inr b, db')" "sf_ID ref' = sf_ID ref" "sf_ActorUserID ref' = sf_ActorUserID ref"
    and "sf_ImpersonationID ref' = sf_ImpersonationID ref"
  shows "\<exists>b'. buildBootstrap env user t ref' (db\<lparr>db_sessions := ss\<rparr>) = (Inr b', db\<lparr>db_sessions := ss\<rparr>) \<and> br_Token b' = br_Token b"
proof -
  have same: "ListUserMemberships u (db\<lparr>db_sessions := ss\<rparr>) = ListUserMemberships u db" for u
    by (simp add: ListUserMemberships_def liveTenant_def tenantName_def tenantOf_def byName_def [abs_def])
  show ?thesis using assms by (auto simp: buildBootstrap_def abind_ok same)
qed

text \<open>
  An access token renews itself whatever happens to its session: when the endpoint that returns the signed-in state answers, it
  answers with the same new access token for any other content of the session table.  So a token holder keeps access, fifteen
  minutes at a time, after a logout, a password reset or the end of an impersonation.\<close>

lemma me_ignores_revocation:
  assumes "Me env db = (Inr b, db1)"
  shows "\<exists>b'. Me env (db\<lparr>db_sessions := ss\<rparr>) = (Inr b', db\<lparr>db_sessions := ss\<rparr>) \<and> br_Token b' = br_Token b"
proof -
  obtain d i t user reason where
    d: "currentAuthData env = Inr d" "parseUUID env (d_UserID d) = Some i" "parseUUID env (d_TenantID d) = Some t" and
    user: "find (\<lambda>u. u_ID u = i) (db_users db) = Some user" and
    boot: "buildBootstrap env user t
       \<lparr>sf_ID = (case nullableUUID env (d_SessionID d) of Some i \<Rightarrow> i | None \<Rightarrow> None),
        sf_ActorUserID = (case nullableUUID env (d_ActorUserID d) of Some i \<Rightarrow> i | None \<Rightarrow> None),
        sf_ImpersonationID = (case nullableUUID env (d_ImpersonationID d) of Some i \<Rightarrow> i | None \<Rightarrow> None),
        sf_ImpersonationReason = reason\<rparr> db = (Inr b, db1)"
    using assms unfolding Me_def peel by (auto simp: abind_ok)
  show ?thesis
    unfolding Me_def peel
    using d user bootstrap_sessions [OF boot] by (auto simp: abind_ok)
qed

lemma me_ignores_revocation_witness:
  "\<exists>b db1 b' db2. Me adaEnv accountDB = (Inr b, db1) \<and> db2 = accountDB\<lparr>db_sessions := map (revoked 2000 ''logout'') (db_sessions accountDB)\<rparr>
    \<and> Me adaEnv db2 = (Inr b', db2) \<and> br_Token b' = br_Token b"
proof -
  have "\<not> isl (fst (Me adaEnv accountDB))" by code_simp
  note run = passing_result [OF this]
  from me_ignores_revocation [OF run] run show ?thesis by blast
qed

section \<open>An error after the commit\<close>

definition twoOwners :: authDB where
  "twoOwners = accountDB\<lparr>db_memberships := [newMembership 11 5 1 roleOwner, newMembership 12 5 2 roleOwner]\<rparr>"

text \<open>
  An owner who disables their own membership, with another owner left, is told that the request failed, although it was carried out: the
  members are listed after the commit, for a user who is no longer one.\<close>

lemma disable_self_reports_error:
  "fst (serve adaEnv (ReqDisableMember ''5'' (Some ''1'')) twoOwners) = Inl (permissionDenied ''workspace access is disabled'')
    \<and> map m_DisabledAt (db_memberships (snd (serve adaEnv (ReqDisableMember ''5'' (Some ''1'')) twoOwners))) = [Some 1000, None]"
  by code_simp

end
