(* ===== verification/Varint.thy ===== *)
theory Varint
  imports GoPrelude "HOL-Library.Word"
begin

unbundle bit_operations_syntax

text \<open>
  The byte-level primitives of \<open>internal/wire/wire.go\<close>: unsigned varints and little-endian 64-bit
  words (\<open>encoding/binary\<close>), length-prefixed byte strings, and the decoder's \<open>readByte\<close>,
  \<open>readBytes\<close> and \<open>readUvarint\<close>.  A \<open>decoder{data, pos}\<close> is modelled by the bytes that are still
  unread, \<open>data[pos:]\<close>: reading returns the shorter remainder, and \<open>pos == len(data)\<close> is the
  empty remainder.  Every primitive is an instance of the \<open>codec\<close> contract.
\<close>

datatype wireErr =
    InvalidPayload | TrailingData | TrailingFrameData
  | TruncatedNumber | TruncatedPayload | TruncatedBytes | InvalidLength
  | UnknownTag nat | NonFinite | BadNumber | OutOfFuel

type_synonym 'a decoded = "(wireErr, 'a \<times> string) outcome"

section \<open>Definitions\<close>

subsection \<open>Varints\<close>

text \<open>\<open>binary.PutUvarint\<close> and \<open>binary.AppendUvarint\<close>.\<close>

fun putUvarint :: "nat \<Rightarrow> string" where
  "putUvarint n = (if n < 128 then [char_of n] else char_of (n mod 128 + 128) # putUvarint (n div 128))"

declare putUvarint.simps [simp del]

text \<open>
  \<open>binary.Uvarint\<close>: index \<open>i\<close>, shift \<open>s\<close>, value \<open>x\<close>; \<open>None\<close> stands for a count \<open>n \<le> 0\<close> (buffer too
  short or overflow of 64 bits).
\<close>

fun uvarintLoop :: "nat \<Rightarrow> nat \<Rightarrow> nat \<Rightarrow> string \<Rightarrow> (nat \<times> string) option" where
  "uvarintLoop i s x [] = None"
| "uvarintLoop i s x (b # bs) =
     (if i = 10 then None
      else if (of_char b :: nat) < 128
      then (if i = 9 \<and> (of_char b :: nat) > 1 then None
            else Some (x OR push_bit s (of_char b), bs))
      else uvarintLoop (Suc i) (s + 7) (x OR push_bit s (of_char b AND 127)) bs)"

definition uvarint :: "string \<Rightarrow> (nat \<times> string) option" where
  "uvarint bs = uvarintLoop 0 0 0 bs"

definition writeUvarint :: "nat \<Rightarrow> string" where
  "writeUvarint n = putUvarint n"

definition readUvarint :: "string \<Rightarrow> nat decoded" where
  "readUvarint d = (case uvarint d of None \<Rightarrow> Fail InvalidLength | Some (v, d') \<Rightarrow> Ret (v, d'))"

subsection \<open>Bytes, byte strings and 64-bit words\<close>

definition readByte :: "string \<Rightarrow> byte decoded" where
  "readByte d = (case d of [] \<Rightarrow> Fail TruncatedPayload | b # d' \<Rightarrow> Ret (b, d'))"

definition writeBytes :: "string \<Rightarrow> string" where
  "writeBytes data = writeUvarint (length data) @ data"

definition appendSizedBytes :: "string \<Rightarrow> string \<Rightarrow> string" where
  "appendSizedBytes dst data = (dst @ putUvarint (length data)) @ data"

definition readBytes :: "string \<Rightarrow> string decoded" where
  "readBytes d =
     obind (readUvarint d) (\<lambda>(n, d').
       if n > length d' then Fail TruncatedBytes
       else Ret (take n d', drop n d'))"

text \<open>\<open>binary.LittleEndian.PutUint64\<close> and \<open>Uint64\<close>.\<close>

definition putUint64 :: "64 word \<Rightarrow> string" where
  "putUint64 w = map (\<lambda>i. char_of (unat (drop_bit (8 * i) w))) [0, 1, 2, 3, 4, 5, 6, 7]"

definition uint64 :: "string \<Rightarrow> 64 word" where
  "uint64 bs = foldr (\<lambda>i w. push_bit (8 * i) (of_nat (of_char (bs ! i))) OR w) [0, 1, 2, 3, 4, 5, 6, 7] 0"

text \<open>The number case of \<open>readValue\<close>.\<close>

definition readNumber :: "string \<Rightarrow> (64 word) decoded" where
  "readNumber d = (if length d < 8 then Fail TruncatedNumber else Ret (uint64 (take 8 d), drop 8 d))"

section \<open>Varints round-trip\<close>

lemma or_push_bit_add: "(x::nat) < 2 ^ s \<Longrightarrow> x OR push_bit s b = x + b * 2 ^ s"
proof -
  assume x: "x < 2 ^ s"
  then have "take_bit s x = x" by (rule take_bit_nat_eq_self)
  then have low: "bit x n \<Longrightarrow> n < s" for n
    by (metis bit_take_bit_iff)
  have "x AND push_bit s b = 0"
    by (rule bit_eqI) (auto simp: bit_and_iff bit_push_bit_iff dest: low)
  then have "x + push_bit s b = x OR push_bit s b"
    by (rule disjunctive_add_eq_or)
  then show ?thesis by (simp add: push_bit_eq_mult)
qed

lemma of_char_char_of_nat: "n < 256 \<Longrightarrow> of_char (char_of (n :: nat)) = n"
  by (simp add: of_char_of)

lemma and_127: "(n::nat) AND 127 = n mod 128"
  using take_bit_eq_mask [of 7 n] by (simp add: take_bit_eq_mod mask_eq_exp_minus_1)

lemma uvarintLoop_putUvarint:
  "i \<le> 9 \<Longrightarrow> n < 2 ^ (64 - 7 * i) \<Longrightarrow> s = 7 * i \<Longrightarrow> x < 2 ^ s \<Longrightarrow>
   uvarintLoop i s x (putUvarint n @ rest) = Some (x + n * 2 ^ s, rest)"
proof (induction n arbitrary: i s x rule: putUvarint.induct)
  case (1 n)
  show ?case
  proof (cases "n < 128")
    case True
    with "1.prems" have "\<not> (i = 9 \<and> n > 1)" by auto
    with True "1.prems" show ?thesis
      by (simp add: putUvarint.simps [of n] of_char_char_of_nat or_push_bit_add)
  next
    case False
    have i8: "i \<le> 8"
    proof (rule ccontr)
      assume "\<not> i \<le> 8"
      with "1.prems"(1) have "i = 9" by simp
      with "1.prems"(2) False show False by simp
    qed
    let ?b = "n mod 128 + 128"
    have b: "of_char (char_of ?b) = ?b" by (simp add: of_char_char_of_nat)
    have x': "x + n mod 128 * 2 ^ s < 2 ^ (s + 7)"
    proof -
      have "x + n mod 128 * 2 ^ s < 2 ^ s + n mod 128 * 2 ^ s" using "1.prems"(4) by simp
      also have "\<dots> = (1 + n mod 128) * 2 ^ s" by (simp add: algebra_simps)
      also have "\<dots> \<le> 128 * 2 ^ s" by (intro mult_right_mono) (simp_all add: Suc_leI)
      finally show ?thesis by (simp add: power_add)
    qed
    have split: "64 - 7 * i = 7 + (64 - 7 * Suc i)" using i8 by simp
    have "n < 128 * 2 ^ (64 - 7 * Suc i)"
      using "1.prems"(2) unfolding split power_add by simp
    then have n': "n div 128 < 2 ^ (64 - 7 * Suc i)" by (simp add: less_mult_imp_div_less mult.commute)
    have "uvarintLoop i s x (putUvarint n @ rest)
        = uvarintLoop (Suc i) (s + 7) (x + n mod 128 * 2 ^ s) (putUvarint (n div 128) @ rest)"
      using False "1.prems" b by (simp add: putUvarint.simps [of n] and_127 or_push_bit_add)
    also have "\<dots> = Some (x + n mod 128 * 2 ^ s + n div 128 * 2 ^ (s + 7), rest)"
      by (rule "1.IH" [OF False]) (use i8 n' "1.prems"(3) x' in simp_all)
    also have "x + n mod 128 * 2 ^ s + n div 128 * 2 ^ (s + 7)
        = x + (n mod 128 + 128 * (n div 128)) * 2 ^ s"
      unfolding add_mult_distrib power_add by simp
    finally show ?thesis by (simp only: mod_mult_div_eq)
  qed
qed

lemma readUvarint_putUvarint [codec_simps]:
  "n < 2 ^ 64 \<Longrightarrow> readUvarint (putUvarint n @ rest) = Ret (n, rest)"
  using uvarintLoop_putUvarint [of 0 n 0 0 rest] by (simp add: readUvarint_def uvarint_def)

interpretation uvarint: codec "\<lambda>n. n < 2 ^ 64" putUvarint readUvarint
  by unfold_locales (rule readUvarint_putUvarint)

lemma putUvarint_length: "n < 2 ^ (7 * k) \<Longrightarrow> 0 < k \<Longrightarrow> length (putUvarint n) \<le> k"
proof (induction n arbitrary: k rule: putUvarint.induct)
  case (1 n)
  show ?case
  proof (cases "n < 128")
    case True
    with 1 show ?thesis by (simp add: putUvarint.simps [of n])
  next
    case False
    then obtain m where k: "k = Suc m" "0 < m"
      using "1.prems" by (cases k; cases "k - 1") auto
    have "n div 128 < 2 ^ (7 * m)"
      using "1.prems"(1) k(1) by (simp add: power_add less_mult_imp_div_less mult.commute)
    then show ?thesis using "1.IH" [OF False, of m] False k by (simp add: putUvarint.simps [of n])
  qed
qed

lemma uvarintLoop_consumes: "uvarintLoop i s x d = Some (v, d') \<Longrightarrow> length d' < length d"
  by (induction i s x d rule: uvarintLoop.induct) (fastforce split: if_splits)+

lemma readUvarint_consumes: "readUvarint d = Ret (v, d') \<Longrightarrow> length d' < length d"
  by (auto simp: readUvarint_def uvarint_def split: option.splits dest: uvarintLoop_consumes)

lemma uvarintLoop_bound:
  "uvarintLoop i s x d = Some (v, d') \<Longrightarrow> s = 7 * i \<Longrightarrow> i \<le> 9 \<Longrightarrow> x < 2 ^ s \<Longrightarrow> v < 2 ^ 64"
proof (induction i s x d rule: uvarintLoop.induct)
  case (2 i s x b bs)
  let ?b = "of_char b :: nat"
  have or: "x OR push_bit s c = x + c * 2 ^ s" for c
    using "2.prems"(4) by (rule or_push_bit_add)
  have lim: "x + c * 2 ^ s < 2 ^ (s + k)" if "c < 2 ^ k" for c k :: nat
  proof -
    have "x + c * 2 ^ s < (1 + c) * 2 ^ s" using "2.prems"(4) by (simp add: algebra_simps)
    also have "\<dots> \<le> 2 ^ k * 2 ^ s" using that by (intro mult_right_mono) (simp_all add: Suc_leI)
    finally show ?thesis by (simp add: power_add mult.commute)
  qed
  show ?case
  proof (cases "?b < 128")
    case True
    then have v: "v = x + ?b * 2 ^ s" and ok: "\<not> (i = 9 \<and> ?b > 1)"
      using "2.prems"(1) or by (auto split: if_splits)
    show ?thesis
    proof (cases "i = 9")
      case True
      with ok "2.prems"(2) show ?thesis using lim [of ?b 1] v by simp
    next
      case False
      then have "s + 7 \<le> 64" using "2.prems"(2,3) by simp
      then have "(2::nat) ^ (s + 7) \<le> 2 ^ 64" by (rule power_increasing) simp
      with lim [of ?b 7] True v show ?thesis by simp
    qed
  next
    case False
    then have i: "i \<noteq> 10" and rec: "uvarintLoop (Suc i) (s + 7) (x OR push_bit s (?b AND 127)) bs = Some (v, d')"
      using "2.prems"(1) by (auto split: if_splits)
    have "?b AND 127 < 2 ^ 7" by (simp add: and_127)
    then have x': "x OR push_bit s (?b AND 127) < 2 ^ (s + 7)" unfolding or by (rule lim)
    show ?thesis
    proof (cases "i = 9")
      case True
      then show ?thesis using rec by (cases bs) auto
    next
      case False
      then show ?thesis
        using "2.IH" [OF i \<open>\<not> ?b < 128\<close> rec] "2.prems"(2,3) x' by simp
    qed
  qed
qed simp

lemma readUvarint_bound: "readUvarint d = Ret (v, d') \<Longrightarrow> v < 2 ^ 64"
  using uvarintLoop_bound [of 0 0 0 d v d']
  by (auto simp: readUvarint_def uvarint_def split: option.splits)

section \<open>Byte strings and words round-trip\<close>

lemma readByte_Cons [simp]: "readByte (b # d) = Ret (b, d)"
  by (simp add: readByte_def)

lemma readBytes_append [codec_simps]:
  "length data < 2 ^ 64 \<Longrightarrow> readBytes (putUvarint (length data) @ data @ rest) = Ret (data, rest)"
  by (simp add: readBytes_def readUvarint_putUvarint)

lemma readBytes_writeBytes [codec_simps]:
  "length data < 2 ^ 64 \<Longrightarrow> readBytes (writeBytes data @ rest) = Ret (data, rest)"
  by (simp add: writeBytes_def writeUvarint_def readBytes_append)

interpretation sized: codec "\<lambda>data. length data < 2 ^ 64" writeBytes readBytes
  by unfold_locales (rule readBytes_writeBytes)

lemma readBytes_consumes: "readBytes d = Ret (v, d') \<Longrightarrow> length d' < length d"
  by (auto simp: readBytes_def obind_eq_Ret split: if_splits dest!: readUvarint_consumes)

lemma length_putUint64 [simp]: "length (putUint64 w) = 8"
  by (simp add: putUint64_def)

lemma of_nat_byte: "(of_nat (unat (v :: 64 word) mod 256) :: 64 word) = take_bit 8 v"
proof -
  have "unat v mod 256 = take_bit 8 (unat v)" by (simp add: take_bit_nat_def)
  also have "\<dots> = unat (take_bit 8 v)" by (rule unsigned_take_bit_eq [symmetric])
  finally show ?thesis by simp
qed

lemma uint64_putUint64: "uint64 (putUint64 w) = w"
proof -
  have "uint64 (putUint64 w)
      = foldr (\<lambda>i v. push_bit (8 * i) (take_bit 8 (drop_bit (8 * i) w)) OR v) [0, 1, 2, 3, 4, 5, 6, 7] 0"
    by (simp add: uint64_def putUint64_def of_nat_byte)
  also have "\<dots> = w"
  proof (rule bit_word_eqI)
    fix n assume "n < LENGTH(64)"
    then have "n < 64" by simp
    then have "n < 8 \<or> 8 \<le> n \<and> n < 16 \<or> 16 \<le> n \<and> n < 24 \<or> 24 \<le> n \<and> n < 32 \<or> 32 \<le> n \<and> n < 40
      \<or> 40 \<le> n \<and> n < 48 \<or> 48 \<le> n \<and> n < 56 \<or> 56 \<le> n \<and> n < 64" by linarith
    then show "bit (foldr (\<lambda>i v. push_bit (8 * i) (take_bit 8 (drop_bit (8 * i) w)) OR v)
        [0, 1, 2, 3, 4, 5, 6, 7] 0) n = bit w n"
      by (cases "bit w n"; elim disjE conjE;
          simp add: bit_or_iff bit_push_bit_iff bit_take_bit_iff bit_drop_bit_eq; arith)
  qed
  finally show ?thesis .
qed

lemma readNumber_putUint64 [codec_simps]: "readNumber (putUint64 w @ rest) = Ret (w, rest)"
  by (simp add: readNumber_def uint64_putUint64)

interpretation word64: codec "\<lambda>_. True" putUint64 readNumber
  by unfold_locales (rule readNumber_putUint64)

lemma readNumber_consumes: "readNumber d = Ret (v, d') \<Longrightarrow> length d' < length d"
  by (auto simp: readNumber_def split: if_splits)

end
