(* ===== verification/Wire.thy ===== *)
theory Wire
  imports Varint "HOL-Library.Multiset"
begin

unbundle bit_operations_syntax

text \<open>
  The binary wire format of \<open>internal/wire/wire.go\<close>: endpoint capabilities and schema hashes,
  the tagged value encoding behind the magic \<open>PWB1\<close> (\<open>Encode\<close>, \<open>writeValue\<close>, \<open>Decode\<close>,
  \<open>readValue\<close>), and the request and response frames behind \<open>PWB2\<close>.  A value of type \<open>any\<close> is the
  datatype \<open>goany\<close>, one constructor per case of the type switch in \<open>writeValue\<close> (a \<open>float32\<close> is
  the \<open>float64\<close> it converts to); a \<open>map[string]any\<close> is an association list, kept sorted by key
  once it has been decoded.  The reflection case of the switch is not modelled: \<open>Encode\<close>
  normalises first, and no value \<open>Normalize\<close> returns reaches it.  Parsing a \<open>json.Number\<close> is the
  parameter \<open>pf\<close>, JSON normalisation the parameter \<open>normalizeJSON\<close>, SHA-256 the parameter \<open>sha\<close>.
\<close>

section \<open>Definitions\<close>

subsection \<open>Capabilities and schema hashes\<close>

definition ContentType :: string where "ContentType = ''application/vnd.scenery.wire+bin''"
definition CallPathPrefix :: string where "CallPathPrefix = ''/_wire/''"
definition RecoverPathPrefix :: string where "RecoverPathPrefix = ''/_wire/recover/''"

record Endpoint =
  ep_ID :: string
  ep_Service :: string
  ep_Endpoint :: string
  ep_Path :: string
  ep_Methods :: "string list"
  ep_Available :: bool
  ep_UnsupportedReason :: string
  ep_SchemaHash :: string
  ep_SafeJSONRetry :: bool
  ep_WirePath :: string
  ep_RecoveryPathPattern :: string

record Capabilities =
  cap_SchemaVersion :: string
  cap_SchemaHash :: string
  cap_ContentType :: string
  cap_Endpoints :: "(string, Endpoint) gomap"

definition fillEndpoint :: "Endpoint \<Rightarrow> Endpoint" where
  "fillEndpoint ep =
     (let ep = (if ep_WirePath ep = [] then ep\<lparr>ep_WirePath := CallPathPrefix @ ep_ID ep\<rparr> else ep)
      in if ep_RecoveryPathPattern ep = []
         then ep\<lparr>ep_RecoveryPathPattern := RecoverPathPrefix @ ''{call_id}''\<rparr> else ep)"

fun capabilityItems :: "(string, Endpoint) gomap \<Rightarrow> Endpoint list \<Rightarrow> (string, Endpoint) gomap" where
  "capabilityItems items [] = items"
| "capabilityItems items (ep # eps) =
     (if ep_ID ep = [] then capabilityItems items eps
      else capabilityItems (AList.update (ep_ID ep) (fillEndpoint ep) items) eps)"

definition NewCapabilities :: "string \<Rightarrow> Endpoint list \<Rightarrow> Capabilities" where
  "NewCapabilities schemaHash endpoints =
     \<lparr>cap_SchemaVersion = ''scenery.wire.capabilities.v1'', cap_SchemaHash = schemaHash,
      cap_ContentType = ContentType, cap_Endpoints = capabilityItems [] endpoints\<rparr>"

text \<open>What \<open>HashParts\<close> feeds to SHA-256: decimal length, NUL, part, NUL, for each part.\<close>

definition hashPart :: "string \<Rightarrow> string" where
  "hashPart p = itoaNat (length p) @ [CHR 0x00] @ p @ [CHR 0x00]"

definition HashParts :: "(string \<Rightarrow> string) \<Rightarrow> string list \<Rightarrow> string" where
  "HashParts sha parts = sha (concat (map hashPart parts))"

definition endpointParts :: "Endpoint \<Rightarrow> string list" where
  "endpointParts ep =
     [ep_ID ep, ep_Service ep, ep_Endpoint ep, ep_Path ep, joinWith '','' (ep_Methods ep),
      (if ep_Available ep then ''true'' else ''false''), ep_UnsupportedReason ep, ep_SchemaHash ep]"

definition HashEndpoints :: "(string \<Rightarrow> string) \<Rightarrow> Endpoint list \<Rightarrow> string" where
  "HashEndpoints sha endpoints = HashParts sha (concat (map endpointParts (sort_key ep_ID endpoints)))"

definition EndpointID :: "string \<Rightarrow> string \<Rightarrow> string" where
  "EndpointID service endpoint = service @ ''.'' @ endpoint"

definition IsSafeMethod :: "string \<Rightarrow> bool" where
  "IsSafeMethod method = (toUpper (trimSpace method) \<in> {''GET'', ''HEAD'', ''OPTIONS''})"

subsection \<open>Values and their encoding\<close>

datatype goany =
    ANil | ABool bool | AStr string
  | ANum string
  | AFloat "64 word"
  | AInt int | AUint nat
  | AArr "goany list"
  | AObj "(string \<times> goany) list"

definition magic :: string where "magic = ''PWB1''"
definition frameMagic :: string where "frameMagic = ''PWB2''"

definition tagNull :: byte where "tagNull = char_of (0::nat)"
definition tagFalse :: byte where "tagFalse = char_of (1::nat)"
definition tagTrue :: byte where "tagTrue = char_of (2::nat)"
definition tagNumber :: byte where "tagNumber = char_of (3::nat)"
definition tagString :: byte where "tagString = char_of (4::nat)"
definition tagArray :: byte where "tagArray = char_of (5::nat)"
definition tagObject :: byte where "tagObject = char_of (6::nat)"

lemmas tag_defs = tagNull_def tagFalse_def tagTrue_def tagNumber_def tagString_def tagArray_def tagObject_def

text \<open>
  The conversion \<open>float64(i)\<close> of an integer: IEEE 754 binary64, round to nearest, ties to even.
  \<open>log2n\<close> is the position of the leading bit.
\<close>

fun log2n :: "nat \<Rightarrow> nat" where
  "log2n n = (if n < 2 then 0 else Suc (log2n (n div 2)))"

declare log2n.simps [simp del]

definition float64OfNat :: "nat \<Rightarrow> nat" where
  "float64OfNat m =
     (if m = 0 then 0
      else let e = log2n m in
        if e \<le> 52 then (e + 1023) * 2 ^ 52 + (m * 2 ^ (52 - e) - 2 ^ 52)
        else let s = e - 52; q = m div 2 ^ s; r = m mod 2 ^ s; half = 2 ^ (s - 1);
                 q' = (if r > half \<or> (r = half \<and> odd q) then q + 1 else q)
             in (e + 1023) * 2 ^ 52 + (q' - 2 ^ 52))"

definition float64OfInt :: "int \<Rightarrow> 64 word" where
  "float64OfInt i = of_nat (if i < 0 then 2 ^ 63 + float64OfNat (nat (- i)) else float64OfNat (nat i))"

text \<open>\<open>math.IsInf\<close> or \<open>math.IsNaN\<close>: all eleven exponent bits set.\<close>

definition nonFinite :: "64 word \<Rightarrow> bool" where
  "nonFinite w = (take_bit 11 (drop_bit 52 w) = 2047)"

definition writeNumber :: "64 word \<Rightarrow> (wireErr, string) outcome" where
  "writeNumber w = (if nonFinite w then Fail NonFinite else Ret (tagNumber # putUint64 w))"

text \<open>Writes in sequence; the first error wins.\<close>

fun concatOut :: "(wireErr, string) outcome list \<Rightarrow> (wireErr, string) outcome" where
  "concatOut [] = Ret []"
| "concatOut (x # xs) = obind x (\<lambda>b. obind (concatOut xs) (\<lambda>bs. Ret (b @ bs)))"

definition writePair :: "string \<times> (wireErr, string) outcome \<Rightarrow> (wireErr, string) outcome" where
  "writePair kv = obind (snd kv) (\<lambda>b. Ret (writeBytes (fst kv) @ b))"

primrec writeValue :: "(string \<Rightarrow> (64 word) option) \<Rightarrow> goany \<Rightarrow> (wireErr, string) outcome" where
  "writeValue pf ANil = Ret [tagNull]"
| "writeValue pf (ABool b) = Ret [if b then tagTrue else tagFalse]"
| "writeValue pf (AStr s) = Ret (tagString # writeBytes s)"
| "writeValue pf (ANum s) = (case pf s of None \<Rightarrow> Fail BadNumber | Some w \<Rightarrow> writeNumber w)"
| "writeValue pf (AFloat w) = writeNumber w"
| "writeValue pf (AInt i) = writeNumber (float64OfInt i)"
| "writeValue pf (AUint n) = writeNumber (float64OfInt (int n))"
| "writeValue pf (AArr xs) =
     obind (concatOut (map (writeValue pf) xs)) (\<lambda>bs. Ret (tagArray # writeUvarint (length xs) @ bs))"
| "writeValue pf (AObj m) =
     obind (concatOut (map writePair (sort_key fst (map (map_prod (\<lambda>k. k) (writeValue pf)) m))))
       (\<lambda>bs. Ret (tagObject # writeUvarint (length m) @ bs))"

definition Encode ::
  "(goany \<Rightarrow> (wireErr, goany) outcome) \<Rightarrow> (string \<Rightarrow> (64 word) option) \<Rightarrow> goany \<Rightarrow> (wireErr, string) outcome" where
  "Encode normalizeJSON pf value =
     obind (normalizeJSON value) (\<lambda>n. obind (writeValue pf n) (\<lambda>bs. Ret (magic @ bs)))"

subsection \<open>Decoding\<close>

text \<open>\<open>obj[string(key)] = value\<close> on a map kept sorted by key.\<close>

fun mapPut :: "string \<Rightarrow> 'v \<Rightarrow> (string \<times> 'v) list \<Rightarrow> (string \<times> 'v) list" where
  "mapPut k v [] = [(k, v)]"
| "mapPut k v ((k', v') # m) =
     (if k < k' then (k, v) # (k', v') # m
      else if k = k' then (k, v) # m
      else (k', v') # mapPut k v m)"

text \<open>
  \<open>make([]any, 0, n)\<close> with a count that does not fit Go's \<open>int\<close> is a run-time panic.  The fuel
  bounds the recursion; \<open>OutOfFuel\<close> is shown never to be the answer of \<open>Decode\<close>.
\<close>

definition maxSliceCap :: nat where "maxSliceCap = 2 ^ 63 - 1"

fun readValue :: "nat \<Rightarrow> string \<Rightarrow> goany decoded"
and readItems :: "nat \<Rightarrow> nat \<Rightarrow> string \<Rightarrow> goany list decoded"
and readPairs :: "nat \<Rightarrow> nat \<Rightarrow> (string \<times> goany) list \<Rightarrow> string \<Rightarrow> (string \<times> goany) list decoded" where
  "readValue 0 d = Fail OutOfFuel"
| "readValue (Suc f) d =
     obind (readByte d) (\<lambda>(tag, d).
       if tag = tagNull then Ret (ANil, d)
       else if tag = tagFalse then Ret (ABool False, d)
       else if tag = tagTrue then Ret (ABool True, d)
       else if tag = tagNumber then obind (readNumber d) (\<lambda>(w, d). Ret (AFloat w, d))
       else if tag = tagString then obind (readBytes d) (\<lambda>(s, d). Ret (AStr s, d))
       else if tag = tagArray then
         obind (readUvarint d) (\<lambda>(n, d).
           if n > maxSliceCap then Panic
           else obind (readItems f n d) (\<lambda>(xs, d). Ret (AArr xs, d)))
       else if tag = tagObject then
         obind (readUvarint d) (\<lambda>(n, d).
           obind (readPairs f n [] d) (\<lambda>(m, d). Ret (AObj m, d)))
       else Fail (UnknownTag (of_char tag)))"
| "readItems 0 n d = Fail OutOfFuel"
| "readItems (Suc f) n d =
     (if n = 0 then Ret ([], d)
      else obind (readValue f d) (\<lambda>(x, d).
             obind (readItems f (n - 1) d) (\<lambda>(xs, d). Ret (x # xs, d))))"
| "readPairs 0 n obj d = Fail OutOfFuel"
| "readPairs (Suc f) n obj d =
     (if n = 0 then Ret (obj, d)
      else obind (readBytes d) (\<lambda>(k, d).
             obind (readValue f d) (\<lambda>(v, d). readPairs f (n - 1) (mapPut k v obj) d)))"

definition readFuel :: "string \<Rightarrow> nat" where
  "readFuel d = 2 * length d + 2"

definition Decode :: "string \<Rightarrow> (wireErr, goany) outcome" where
  "Decode data =
     (if length data < length magic \<or> take (length magic) data \<noteq> magic then Fail InvalidPayload
      else let d = drop (length magic) data in
        obind (readValue (readFuel d) d) (\<lambda>(v, d).
          if d \<noteq> [] then Fail TrailingData else Ret v))"

subsection \<open>Frames\<close>

record RequestFrame =
  rf_SchemaHash :: string
  rf_PathParamsJSON :: string
  rf_PayloadJSON :: string

record ResponseFrame =
  sf_Status :: int
  sf_Error :: bool
  sf_PayloadJSON :: string

definition frameFlagError :: byte where "frameFlagError = char_of (1::nat)"

definition EncodeRequestFrame :: "string \<Rightarrow> string \<Rightarrow> string \<Rightarrow> string" where
  "EncodeRequestFrame schemaHash pathParamsJSON payloadJSON =
     (let buf = frameMagic;
          buf = appendSizedBytes buf schemaHash;
          buf = appendSizedBytes buf pathParamsJSON
      in appendSizedBytes buf payloadJSON)"

text \<open>\<open>None\<close> is the answer \<open>ok = false\<close>: the data is no frame at all.\<close>

definition DecodeRequestFrame :: "string \<Rightarrow> (wireErr, RequestFrame) outcome option" where
  "DecodeRequestFrame data =
     (if length data < length frameMagic \<or> take (length frameMagic) data \<noteq> frameMagic then None
      else Some (obind (readBytes (drop (length frameMagic) data)) (\<lambda>(schemaHash, d).
        obind (readBytes d) (\<lambda>(pathParamsJSON, d).
        obind (readBytes d) (\<lambda>(payloadJSON, d).
          if d \<noteq> [] then Fail TrailingFrameData
          else Ret \<lparr>rf_SchemaHash = schemaHash, rf_PathParamsJSON = pathParamsJSON,
                    rf_PayloadJSON = payloadJSON\<rparr>)))))"

text \<open>\<open>uint64(status)\<close> of a negative status wraps around.\<close>

definition EncodeResponseFrame :: "int \<Rightarrow> bool \<Rightarrow> string \<Rightarrow> string" where
  "EncodeResponseFrame status isError payloadJSON =
     (let status = (if status = 0 then 200 else status);
          buf = frameMagic @ putUvarint (nat (status mod 2 ^ 64));
          buf = buf @ [if isError then frameFlagError else char_of (0::nat)]
      in appendSizedBytes buf payloadJSON)"

definition DecodeResponseFrame :: "string \<Rightarrow> (wireErr, ResponseFrame) outcome option" where
  "DecodeResponseFrame data =
     (if length data < length frameMagic \<or> take (length frameMagic) data \<noteq> frameMagic then None
      else Some (obind (readUvarint (drop (length frameMagic) data)) (\<lambda>(status, d).
        obind (readByte d) (\<lambda>(flags, d).
        obind (readBytes d) (\<lambda>(payloadJSON, d).
          if d \<noteq> [] then Fail TrailingFrameData
          else Ret \<lparr>sf_Status = wrap64 (int status),
                    sf_Error = ((of_char flags :: nat) AND of_char frameFlagError \<noteq> 0),
                    sf_PayloadJSON = payloadJSON\<rparr>)))))"

section \<open>Sorted maps\<close>

abbreviation sortedKeys :: "(string \<times> 'v) list \<Rightarrow> bool" where
  "sortedKeys m \<equiv> sorted_wrt (<) (map fst m)"

lemma set_mapPut: "fst ` set (mapPut k v m) = insert k (fst ` set m)"
  by (induction k v m rule: mapPut.induct) (simp_all add: insert_commute)

lemma sortedKeys_mapPut: "sortedKeys m \<Longrightarrow> sortedKeys (mapPut k v m)"
proof (induction m)
  case (Cons kv m)
  then show ?case
    using set_mapPut [of k v m] by (cases kv) (auto dest: less_trans)
qed simp

lemma map_of_mapPut: "sortedKeys m \<Longrightarrow> map_of (mapPut k v m) = (map_of m)(k \<mapsto> v)"
proof (induction m)
  case (Cons kv m)
  then show ?case by (cases kv) (auto simp: fun_eq_iff)
qed auto

lemma mapPut_last: "\<forall>k' \<in> fst ` set m. k' < k \<Longrightarrow> mapPut k v m = m @ [(k, v)]"
  by (induction m) auto

section \<open>What a reader of an encoded value sees\<close>

text \<open>
  Numbers become \<open>float64\<close>, maps come back sorted.  \<open>wireSized\<close> holds of every Go value: lengths
  fit Go's \<open>int\<close>, and the keys of a map are distinct.
\<close>

primrec wireView :: "(string \<Rightarrow> (64 word) option) \<Rightarrow> goany \<Rightarrow> goany" where
  "wireView pf ANil = ANil"
| "wireView pf (ABool b) = ABool b"
| "wireView pf (AStr s) = AStr s"
| "wireView pf (ANum s) = AFloat (the (pf s))"
| "wireView pf (AFloat w) = AFloat w"
| "wireView pf (AInt i) = AFloat (float64OfInt i)"
| "wireView pf (AUint n) = AFloat (float64OfInt (int n))"
| "wireView pf (AArr xs) = AArr (map (wireView pf) xs)"
| "wireView pf (AObj m) = AObj (sort_key fst (map (map_prod (\<lambda>k. k) (wireView pf)) m))"

primrec wireSized :: "goany \<Rightarrow> bool" where
  "wireSized ANil = True"
| "wireSized (ABool b) = True"
| "wireSized (AStr s) = (length s < 2 ^ 63)"
| "wireSized (ANum s) = True"
| "wireSized (AFloat w) = True"
| "wireSized (AInt i) = True"
| "wireSized (AUint n) = True"
| "wireSized (AArr xs) = (length xs < 2 ^ 63 \<and> list_all id (map wireSized xs))"
| "wireSized (AObj m) =
     (length m < 2 ^ 63 \<and> distinct (map fst m) \<and>
      list_all (\<lambda>kv. length (fst kv) < 2 ^ 63 \<and> snd kv) (map (map_prod (\<lambda>k. k) wireSized) m))"

text \<open>Decoded values: every object is sorted by key.\<close>

primrec canonical :: "goany \<Rightarrow> bool" where
  "canonical ANil = True"
| "canonical (ABool b) = True"
| "canonical (AStr s) = True"
| "canonical (ANum s) = False"
| "canonical (AFloat w) = True"
| "canonical (AInt i) = False"
| "canonical (AUint n) = False"
| "canonical (AArr xs) = list_all id (map canonical xs)"
| "canonical (AObj m) = (sortedKeys m \<and> list_all snd (map (map_prod (\<lambda>k. k) canonical) m))"

lemma writeNumber_Ret: "writeNumber w = Ret bs \<longleftrightarrow> \<not> nonFinite w \<and> bs = tagNumber # putUint64 w"
  by (auto simp: writeNumber_def)

lemma writeValue_nonempty: "writeValue pf v = Ret bs \<Longrightarrow> bs \<noteq> []"
  by (cases v) (auto simp: obind_eq_Ret writeNumber_Ret split: option.splits)

lemma tag_cases [simp]:
  "tagNull \<noteq> tagFalse" "tagNull \<noteq> tagTrue" "tagFalse \<noteq> tagTrue" "tagFalse \<noteq> tagNull" "tagTrue \<noteq> tagNull"
  "tagTrue \<noteq> tagFalse" "tagNumber \<noteq> tagNull" "tagNumber \<noteq> tagFalse" "tagNumber \<noteq> tagTrue"
  "tagString \<noteq> tagNull" "tagString \<noteq> tagFalse" "tagString \<noteq> tagTrue" "tagString \<noteq> tagNumber"
  "tagArray \<noteq> tagNull" "tagArray \<noteq> tagFalse" "tagArray \<noteq> tagTrue" "tagArray \<noteq> tagNumber" "tagArray \<noteq> tagString"
  "tagObject \<noteq> tagNull" "tagObject \<noteq> tagFalse" "tagObject \<noteq> tagTrue" "tagObject \<noteq> tagNumber"
  "tagObject \<noteq> tagString" "tagObject \<noteq> tagArray"
  by (simp_all add: tag_defs)

section \<open>Round trip of values\<close>

definition reads :: "(string \<Rightarrow> (64 word) option) \<Rightarrow> goany \<Rightarrow> bool" where
  "reads pf v \<longleftrightarrow> (\<forall>bs fuel rest. writeValue pf v = Ret bs \<longrightarrow> 2 * length bs < fuel \<longrightarrow>
     readValue fuel (bs @ rest) = Ret (wireView pf v, rest))"

lemma readsI:
  "(\<And>bs f rest. writeValue pf v = Ret bs \<Longrightarrow> 2 * length bs \<le> f \<Longrightarrow>
     readValue (Suc f) (bs @ rest) = Ret (wireView pf v, rest)) \<Longrightarrow> reads pf v"
  unfolding reads_def
proof (intro allI impI)
  fix bs :: string and fuel :: nat and rest :: string
  assume h: "\<And>bs f rest. writeValue pf v = Ret bs \<Longrightarrow> 2 * length bs \<le> f \<Longrightarrow>
      readValue (Suc f) (bs @ rest) = Ret (wireView pf v, rest)"
    and w: "writeValue pf v = Ret bs" and f: "2 * length bs < fuel"
  from f obtain f' where "fuel = Suc f'" "2 * length bs \<le> f'" by (cases fuel) auto
  with h [OF w] show "readValue fuel (bs @ rest) = Ret (wireView pf v, rest)" by simp
qed

lemma readItems_concatOut:
  assumes "\<forall>x \<in> set xs. reads pf x" "concatOut (map (writeValue pf) xs) = Ret bs" "2 * length bs + 1 < fuel"
  shows "readItems fuel (length xs) (bs @ rest) = Ret (map (wireView pf) xs, rest)"
  using assms
proof (induction xs arbitrary: bs fuel)
  case Nil
  then show ?case by (cases fuel) auto
next
  case (Cons x xs)
  from Cons.prems(2) obtain b cs where w: "writeValue pf x = Ret b"
      "concatOut (map (writeValue pf) xs) = Ret cs" "bs = b @ cs"
    by (auto simp: obind_eq_Ret)
  obtain f where f: "fuel = Suc f" using Cons.prems(3) by (cases fuel) auto
  have lb: "1 \<le> length b" using writeValue_nonempty [OF w(1)] by (simp add: Suc_le_eq)
  have "2 * length b < f" "2 * length cs + 1 < f"
    using lb Cons.prems(3) unfolding f w(3) length_append by simp_all
  with Cons w(1,2) have "readValue f (b @ cs @ rest) = Ret (wireView pf x, cs @ rest)"
    and "readItems f (length xs) (cs @ rest) = Ret (map (wireView pf) xs, rest)"
    by (auto simp: reads_def)
  with f w(3) show ?case by simp
qed

lemma readPairs_concatOut:
  assumes "\<forall>kv \<in> set ps. reads pf (snd kv) \<and> length (fst kv) < 2 ^ 63"
    and "concatOut (map writePair (map (map_prod (\<lambda>k. k) (writeValue pf)) ps)) = Ret bs"
    and "2 * length bs + 1 < fuel" and "sortedKeys (obj @ map (map_prod (\<lambda>k. k) (wireView pf)) ps)"
  shows "readPairs fuel (length ps) obj (bs @ rest) = Ret (obj @ map (map_prod (\<lambda>k. k) (wireView pf)) ps, rest)"
  using assms
proof (induction ps arbitrary: bs fuel obj)
  case Nil
  then show ?case by (cases fuel) auto
next
  case (Cons kv ps)
  obtain k v where kv: "kv = (k, v)" by (cases kv)
  from Cons.prems(2) kv obtain b cs where w: "writeValue pf v = Ret b"
      "concatOut (map writePair (map (map_prod (\<lambda>k. k) (writeValue pf)) ps)) = Ret cs" "bs = writeBytes k @ b @ cs"
    by (auto simp: obind_eq_Ret writePair_def [of "(k, _)"])
  obtain f where f: "fuel = Suc f" using Cons.prems(3) by (cases fuel) auto
  have lb: "1 \<le> length b" using writeValue_nonempty [OF w(1)] by (simp add: Suc_le_eq)
  have fuels: "2 * length b < f" "2 * length cs + 1 < f"
    using lb Cons.prems(3) unfolding f w(3) length_append by simp_all
  have "mapPut k (wireView pf v) obj = obj @ [(k, wireView pf v)]"
    using Cons.prems(4) kv by (intro mapPut_last) (auto simp: sorted_wrt_append)
  then have "readPairs f (length ps) (mapPut k (wireView pf v) obj) (cs @ rest)
      = Ret (obj @ map (map_prod (\<lambda>k. k) (wireView pf)) (kv # ps), rest)"
    using Cons.IH [OF _ w(2) fuels(2), of "obj @ [(k, wireView pf v)]"] Cons.prems(1,4) kv by simp
  moreover have "readValue f (b @ cs @ rest) = Ret (wireView pf v, cs @ rest)"
    using Cons.prems(1) kv w(1) fuels(1) by (auto simp: reads_def)
  moreover have "readBytes (writeBytes k @ b @ cs @ rest) = Ret (k, b @ cs @ rest)"
    using Cons.prems(1) kv by (intro readBytes_writeBytes) auto
  ultimately show ?case using f w(3) kv by simp
qed

lemma sort_key_fst_map: "sort_key fst (map (map_prod (\<lambda>k. k) g) m) = map (map_prod (\<lambda>k. k) g) (sort_key fst m)"
proof (induction m)
  case (Cons kv m)
  have "insort_key fst (map_prod (\<lambda>k. k) g kv) (map (map_prod (\<lambda>k. k) g) l) = map (map_prod (\<lambda>k. k) g) (insort_key fst kv l)" for l
    by (induction l) auto
  with Cons show ?case by simp
qed simp

lemma sortedKeys_sort: "distinct (map fst m) \<Longrightarrow> sortedKeys (sort_key fst m)"
proof -
  assume "distinct (map fst m)"
  then show ?thesis by (simp add: strict_sorted_iff distinct_map)
qed

lemma reads_all: "wireSized v \<Longrightarrow> reads pf v"
proof (induction v)
  case (AArr xs)
  then have IH: "\<forall>x \<in> set xs. reads pf x" and n: "length xs < 2 ^ 63"
    by (auto simp: list_all_iff)
  show ?case
  proof (rule readsI)
    fix bs f rest
    assume "writeValue pf (AArr xs) = Ret bs" and f: "2 * length bs \<le> f"
    then obtain cs where cs: "concatOut (map (writeValue pf) xs) = Ret cs"
        "bs = tagArray # putUvarint (length xs) @ cs"
      by (auto simp: obind_eq_Ret writeUvarint_def)
    have "2 * length cs + 1 < f" using f cs(2) by simp
    then have "readItems f (length xs) (cs @ rest) = Ret (map (wireView pf) xs, rest)"
      by (rule readItems_concatOut [OF IH cs(1)])
    moreover have "readUvarint (putUvarint (length xs) @ cs @ rest) = Ret (length xs, cs @ rest)"
      using n by (intro readUvarint_putUvarint) simp
    ultimately show "readValue (Suc f) (bs @ rest) = Ret (wireView pf (AArr xs), rest)"
      using n cs(2) by (simp add: maxSliceCap_def)
  qed
next
  case (AObj m)
  let ?ps = "sort_key fst m"
  have IH: "\<forall>kv \<in> set ?ps. reads pf (snd kv) \<and> length (fst kv) < 2 ^ 63"
    using AObj by (fastforce simp: list_all_iff)
  have n: "length m < 2 ^ 63" and d: "distinct (map fst m)" using AObj.prems by auto
  have so: "sortedKeys ([] @ map (map_prod (\<lambda>k. k) (wireView pf)) ?ps)"
    using sortedKeys_sort [OF d] by (simp add: comp_def)
  show ?case
  proof (rule readsI)
    fix bs f rest
    assume "writeValue pf (AObj m) = Ret bs" and f: "2 * length bs \<le> f"
    then obtain cs where cs: "concatOut (map writePair (map (map_prod (\<lambda>k. k) (writeValue pf)) ?ps)) = Ret cs"
        "bs = tagObject # putUvarint (length m) @ cs"
      by (auto simp: obind_eq_Ret writeUvarint_def sort_key_fst_map)
    have "2 * length cs + 1 < f" using f cs(2) by simp
    then have "readPairs f (length ?ps) [] (cs @ rest) = Ret (map (map_prod (\<lambda>k. k) (wireView pf)) ?ps, rest)"
      using readPairs_concatOut [OF IH cs(1) _ so] by simp
    moreover have "readUvarint (putUvarint (length m) @ cs @ rest) = Ret (length m, cs @ rest)"
      using n by (intro readUvarint_putUvarint) simp
    ultimately show "readValue (Suc f) (bs @ rest) = Ret (wireView pf (AObj m), rest)"
      using cs(2) by (simp add: sort_key_fst_map)
  qed
qed (rule readsI; auto simp: writeNumber_Ret readNumber_putUint64 readBytes_writeBytes split: option.splits)+

section \<open>Reading stops, consumes and depends only on what it consumes\<close>

lemma readByte_consumes: "readByte d = Ret (b, d') \<Longrightarrow> length d' < length d"
  by (auto simp: readByte_def split: list.splits)

lemma read_consumes:
  "readValue f d = Ret (v, d') \<Longrightarrow> length d' < length d"
  "readItems f n d = Ret (xs, d') \<Longrightarrow> length d' \<le> length d"
  "readPairs f n obj d = Ret (m, d') \<Longrightarrow> length d' \<le> length d"
proof (induction f d and f n d and f n obj d arbitrary: v d' and xs d' and m d'
    rule: readValue_readItems_readPairs.induct)
  case (2 f d)
  from "2.prems" obtain b e where be: "readByte d = Ret (b, e)"
    by (auto simp: obind_eq_Ret)
  then have "length e < length d" by (rule readByte_consumes)
  with 2 be show ?case
    by (auto simp: obind_eq_Ret split: if_splits
        dest!: readNumber_consumes readBytes_consumes readUvarint_consumes)
      fastforce+
next
  case (4 f n d)
  then show ?case by (fastforce simp: obind_eq_Ret split: if_splits)
next
  case (6 f n obj d)
  then show ?case by (fastforce simp: obind_eq_Ret split: if_splits dest!: readBytes_consumes)
qed auto

lemma prim_no_OutOfFuel [simp]:
  "readByte d \<noteq> Fail OutOfFuel" "readUvarint d \<noteq> Fail OutOfFuel"
  "readBytes d \<noteq> Fail OutOfFuel" "readNumber d \<noteq> Fail OutOfFuel"
  by (auto simp: readByte_def readUvarint_def readBytes_def readNumber_def obind_eq_Fail
      split: list.splits option.splits if_splits prod.splits)

lemma read_no_OutOfFuel:
  "2 * length d < f \<Longrightarrow> readValue f d \<noteq> Fail OutOfFuel"
  "2 * length d + 1 < f \<Longrightarrow> readItems f n d \<noteq> Fail OutOfFuel"
  "2 * length d + 1 < f \<Longrightarrow> readPairs f n obj d \<noteq> Fail OutOfFuel"
proof (induction f d and f n d and f n obj d rule: readValue_readItems_readPairs.induct)
  case (2 f d)
  show ?case
  proof (cases "readByte d")
    case (Ret be)
    obtain b e where be: "be = (b, e)" by (cases be)
    have "length e < length d" using Ret be by (auto dest: readByte_consumes)
    with 2 Ret be show ?thesis
      by (auto simp: obind_eq_Fail split: if_splits dest!: readUvarint_consumes)
  qed (use prim_no_OutOfFuel(1) [of d] in auto)
next
  case (4 f n d)
  then show ?case by (fastforce simp: obind_eq_Fail split: if_splits dest!: read_consumes(1))
next
  case (6 f n obj d)
  then show ?case
    by (fastforce simp: obind_eq_Fail split: if_splits dest!: readBytes_consumes read_consumes(1))
qed auto

lemma readByte_extend: "readByte d = Ret (b, d') \<Longrightarrow> readByte (d @ q) = Ret (b, d' @ q)"
  by (auto simp: readByte_def split: list.splits)

text \<open>Inversion of a successful read, one disjunct per tag.\<close>

lemma readValue_Suc_Ret:
  "readValue (Suc f) d = Ret (v, d') \<longleftrightarrow>
     (\<exists>b e. readByte d = Ret (b, e) \<and>
        (b = tagNull \<and> v = ANil \<and> d' = e
       \<or> b = tagFalse \<and> v = ABool False \<and> d' = e
       \<or> b = tagTrue \<and> v = ABool True \<and> d' = e
       \<or> b = tagNumber \<and> (\<exists>w. readNumber e = Ret (w, d') \<and> v = AFloat w)
       \<or> b = tagString \<and> (\<exists>s. readBytes e = Ret (s, d') \<and> v = AStr s)
       \<or> b = tagArray \<and> (\<exists>n e' xs. readUvarint e = Ret (n, e') \<and> n \<le> maxSliceCap
            \<and> readItems f n e' = Ret (xs, d') \<and> v = AArr xs)
       \<or> b = tagObject \<and> (\<exists>n e' m. readUvarint e = Ret (n, e')
            \<and> readPairs f n [] e' = Ret (m, d') \<and> v = AObj m)))"
proof (cases "readByte d")
  case (Ret be)
  obtain b e where be: "readByte d = Ret (b, e)" using Ret by (cases be) auto
  show ?thesis unfolding readValue.simps be by (auto simp: obind_eq_Ret not_less)
qed simp_all

lemma readItems_Suc_Ret:
  "readItems (Suc f) n d = Ret (xs, d') \<longleftrightarrow>
     n = 0 \<and> xs = [] \<and> d' = d \<or>
     n > 0 \<and> (\<exists>y e ys. readValue f d = Ret (y, e) \<and> readItems f (n - 1) e = Ret (ys, d') \<and> xs = y # ys)"
  by (auto simp: obind_eq_Ret)

lemma readPairs_Suc_Ret:
  "readPairs (Suc f) n obj d = Ret (m, d') \<longleftrightarrow>
     n = 0 \<and> m = obj \<and> d' = d \<or>
     n > 0 \<and> (\<exists>k e v e'. readBytes d = Ret (k, e) \<and> readValue f e = Ret (v, e')
       \<and> readPairs f (n - 1) (mapPut k v obj) e' = Ret (m, d'))"
  by (auto simp: obind_eq_Ret)

lemmas read_Suc_Ret = readValue_Suc_Ret readItems_Suc_Ret readPairs_Suc_Ret

lemma uvarintLoop_extend: "uvarintLoop i s x d = Some (v, d') \<Longrightarrow> uvarintLoop i s x (d @ q) = Some (v, d' @ q)"
  by (induction i s x d rule: uvarintLoop.induct) (auto split: if_splits)

lemma readUvarint_extend: "readUvarint d = Ret (v, d') \<Longrightarrow> readUvarint (d @ q) = Ret (v, d' @ q)"
  by (auto simp: readUvarint_def uvarint_def uvarintLoop_extend split: option.splits)

lemma readBytes_extend: "readBytes d = Ret (v, d') \<Longrightarrow> readBytes (d @ q) = Ret (v, d' @ q)"
proof -
  assume "readBytes d = Ret (v, d')"
  then obtain n e where "readUvarint d = Ret (n, e)" "n \<le> length e" "v = take n e" "d' = drop n e"
    by (auto simp: readBytes_def obind_eq_Ret split: if_splits)
  moreover from this(1) have "readUvarint (d @ q) = Ret (n, e @ q)" by (rule readUvarint_extend)
  ultimately show ?thesis by (simp add: readBytes_def)
qed

lemma readNumber_extend: "readNumber d = Ret (v, d') \<Longrightarrow> readNumber (d @ q) = Ret (v, d' @ q)"
  by (auto simp: readNumber_def split: if_splits)

lemmas prim_extend = readByte_extend readUvarint_extend readBytes_extend readNumber_extend

lemma read_extend_all:
  "(\<forall>d v d'. readValue f d = Ret (v, d') \<longrightarrow> readValue f (d @ q) = Ret (v, d' @ q)) \<and>
   (\<forall>n d xs d'. readItems f n d = Ret (xs, d') \<longrightarrow> readItems f n (d @ q) = Ret (xs, d' @ q)) \<and>
   (\<forall>n obj d m d'. readPairs f n obj d = Ret (m, d') \<longrightarrow> readPairs f n obj (d @ q) = Ret (m, d' @ q))"
proof (induction f)
  case (Suc f)
  show ?case
    unfolding read_Suc_Ret using Suc.IH
    by (intro conjI allI impI) (blast dest: prim_extend [where q = q])+
qed simp

lemmas read_extend = read_extend_all [THEN conjunct1, rule_format]

lemma read_more_fuel_all:
  "(\<forall>d v d'. readValue f d = Ret (v, d') \<longrightarrow> readValue (f + k) d = Ret (v, d')) \<and>
   (\<forall>n d xs d'. readItems f n d = Ret (xs, d') \<longrightarrow> readItems (f + k) n d = Ret (xs, d')) \<and>
   (\<forall>n obj d m d'. readPairs f n obj d = Ret (m, d') \<longrightarrow> readPairs (f + k) n obj d = Ret (m, d'))"
proof (induction f)
  case (Suc f)
  show ?case
    unfolding add_Suc read_Suc_Ret using Suc.IH by (intro conjI allI impI) blast+
qed simp

lemmas read_more_fuel = read_more_fuel_all [THEN conjunct1, rule_format]

lemma set_mapPut_subset: "set (mapPut k w m) \<subseteq> insert (k, w) (set m)"
  by (induction k w m rule: mapPut.induct) auto

lemma read_canonical_all:
  "(\<forall>d v d'. readValue f d = Ret (v, d') \<longrightarrow> canonical v) \<and>
   (\<forall>n d xs d'. readItems f n d = Ret (xs, d') \<longrightarrow> list_all canonical xs) \<and>
   (\<forall>n obj d m d'. readPairs f n obj d = Ret (m, d') \<longrightarrow> sortedKeys obj \<longrightarrow>
      (\<forall>kv \<in> set obj. canonical (snd kv)) \<longrightarrow> sortedKeys m \<and> (\<forall>kv \<in> set m. canonical (snd kv)))"
proof (induction f)
  case (Suc f)
  note IH = Suc.IH
  have "canonical v" if "readValue (Suc f) d = Ret (v, d')" for d v d'
    using that IH unfolding readValue_Suc_Ret by (fastforce simp: list_all_iff)
  moreover have "list_all canonical xs" if "readItems (Suc f) n d = Ret (xs, d')" for n d xs d'
    using that IH unfolding readItems_Suc_Ret by fastforce
  moreover have "sortedKeys m \<and> (\<forall>kv \<in> set m. canonical (snd kv))"
    if r: "readPairs (Suc f) n obj d = Ret (m, d')" and o: "sortedKeys obj" "\<forall>kv \<in> set obj. canonical (snd kv)"
    for n obj d m d'
  proof -
    consider "m = obj" | k e v e' where "readValue f e = Ret (v, e')"
        "readPairs f (n - 1) (mapPut k v obj) e' = Ret (m, d')"
      using r unfolding readPairs_Suc_Ret by blast
    then show ?thesis
    proof cases
      case 2
      have "\<forall>kv \<in> set (mapPut k v obj). canonical (snd kv)"
        using set_mapPut_subset [of k v obj] o(2) 2(1) IH by fastforce
      with 2(2) sortedKeys_mapPut [OF o(1)] IH show ?thesis by blast
    qed (use o in simp)
  qed
  ultimately show ?case by blast
qed simp

section \<open>Integers as floating-point numbers\<close>

text \<open>
  \<open>float64Is w i\<close>: the bit pattern \<open>w\<close> stands for exactly the integer \<open>i\<close>, that is
  \<open>(-1)^sign * (2^52 + mantissa) * 2^(exponent - 1075) = i\<close>, or both are zero.
\<close>

definition float64Is :: "64 word \<Rightarrow> int \<Rightarrow> bool" where
  "float64Is w i =
     (let b = unat w; mant = b mod 2 ^ 52; e = (b div 2 ^ 52) mod 2 ^ 11; neg = (b \<ge> 2 ^ 63)
      in if e = 0 then mant = 0 \<and> i = 0
         else int ((2 ^ 52 + mant) * 2 ^ e) = (if neg then - i else i) * 2 ^ 1075)"

lemma log2n_bounds: "0 < m \<Longrightarrow> 2 ^ log2n m \<le> m \<and> m < 2 ^ Suc (log2n m)"
proof (induction m rule: log2n.induct)
  case (1 n)
  show ?case
  proof (cases "n < 2")
    case True
    with "1.prems" show ?thesis by (simp add: log2n.simps [of n])
  next
    case False
    then have "2 ^ log2n (n div 2) \<le> n div 2 \<and> n div 2 < 2 ^ Suc (log2n (n div 2))"
      using "1.IH" by simp
    then show ?thesis using False by (simp add: log2n.simps [of n]) linarith
  qed
qed

lemma log2n_le: "m < 2 ^ Suc k \<Longrightarrow> log2n m \<le> k"
proof (cases "m = 0")
  case False
  assume "m < 2 ^ Suc k"
  then have "(2::nat) ^ log2n m < 2 ^ Suc k" using log2n_bounds [of m] False by simp
  then show ?thesis by (metis less_Suc_eq_le power_less_imp_less_exp one_less_numeral_iff semiring_norm(76))
qed (simp add: log2n.simps [of 0])

text \<open>Small integers: exponent and mantissa fields of the bit pattern.\<close>

lemma float64OfNat_fields:
  assumes "0 < m" "m < 2 ^ 53"
  obtains e mant where "float64OfNat m = (e + 1023) * 2 ^ 52 + mant" "mant < 2 ^ 52" "e \<le> 52"
    "(2 ^ 52 + mant) * 2 ^ e = m * 2 ^ 52"
proof
  let ?e = "log2n m"
  let ?mant = "m * 2 ^ (52 - ?e) - 2 ^ 52"
  have b: "2 ^ ?e \<le> m" "m < 2 ^ Suc ?e" using log2n_bounds assms(1) by auto
  show e: "?e \<le> 52" using log2n_le [of m 52] assms(2) by simp
  show "float64OfNat m = (?e + 1023) * 2 ^ 52 + ?mant"
    using e assms(1) by (simp add: float64OfNat_def Let_def)
  have p: "(2::nat) ^ (52 - ?e) * 2 ^ ?e = 2 ^ 52" using e by (metis le_add_diff_inverse2 power_add)
  have lo: "2 ^ 52 \<le> m * 2 ^ (52 - ?e)"
    using b(1) p by (metis mult.commute mult_le_mono1)
  have "m * 2 ^ (52 - ?e) < 2 ^ Suc ?e * 2 ^ (52 - ?e)" using b(2) by simp
  also have "\<dots> = 2 * 2 ^ 52" using p by (simp add: mult.commute mult.left_commute)
  finally show "?mant < 2 ^ 52" using lo by simp
  have "(2 ^ 52 + ?mant) * 2 ^ ?e = m * (2 ^ (52 - ?e) * 2 ^ ?e)" using lo by (simp add: mult.assoc)
  then show "(2 ^ 52 + ?mant) * 2 ^ ?e = m * 2 ^ 52" by (simp only: p)
qed

lemma unat_of_nat_64: "n < 2 ^ 64 \<Longrightarrow> unat (of_nat n :: 64 word) = n"
  by (simp add: unat_of_nat)

lemma float64Is_fields:
  assumes "mant < 2 ^ 52" "e \<le> 52" "(2 ^ 52 + mant) * 2 ^ e = m * 2 ^ 52"
  shows "float64Is (of_nat ((e + 1023) * 2 ^ 52 + mant)) (int m)"
    and "float64Is (of_nat (2 ^ 63 + ((e + 1023) * 2 ^ 52 + mant))) (- int m)"
proof -
  let ?b = "(e + 1023) * 2 ^ 52 + mant"
  have lt: "?b < 2 ^ 63" using assms(1,2) by simp
  have u: "unat (of_nat ?b :: 64 word) = ?b" "unat (of_nat (2 ^ 63 + ?b) :: 64 word) = 2 ^ 63 + ?b"
    by (rule unat_of_nat_64, use lt in simp)+
  have d: "?b div 2 ^ 52 = e + 1023" "?b mod 2 ^ 52 = mant"
    unfolding add.commute [of _ mant] using assms(1) by (simp_all only: div_mult_self1 mod_mult_self1) simp_all
  have split: "2 ^ 63 + ?b = mant + (2048 + (e + 1023)) * 2 ^ 52" by simp
  have d': "(2 ^ 63 + ?b) div 2 ^ 52 = 2048 + (e + 1023)" "(2 ^ 63 + ?b) mod 2 ^ 52 = mant"
    unfolding split using assms(1) by (simp_all only: div_mult_self1 mod_mult_self1) simp_all
  have ee1: "(e + 1023) mod 2 ^ 11 = e + 1023" using assms(2) by simp
  have "(2048 + (e + 1023)) mod 2048 = (e + 1023) mod 2048" by (rule mod_add_self1)
  with ee1 have ee: "(e + 1023) mod 2 ^ 11 = e + 1023" "(2048 + (e + 1023)) mod 2 ^ 11 = e + 1023"
    by simp_all
  have "(2 ^ 52 + mant) * 2 ^ (e + 1023) = m * 2 ^ 52 * 2 ^ 1023"
    by (simp only: power_add mult.assoc [symmetric] assms(3))
  also have "\<dots> = m * 2 ^ 1075" by (simp only: mult.assoc power_add [symmetric]) simp
  finally have v: "int ((2 ^ 52 + mant) * 2 ^ (e + 1023)) = int m * 2 ^ 1075" by (metis of_nat_mult of_nat_numeral of_nat_power)
  show "float64Is (of_nat ?b) (int m)"
    unfolding float64Is_def Let_def u d ee using lt v by (simp only: if_False not_le) simp
  show "float64Is (of_nat (2 ^ 63 + ?b)) (- int m)"
    unfolding float64Is_def Let_def u d' ee using v by (simp only: if_True le_add1 minus_minus) simp
qed

lemma float64Is_OfInt:
  assumes "\<bar>i\<bar> < 2 ^ 53"
  shows "float64Is (float64OfInt i) i"
proof (cases "i = 0")
  case True
  then show ?thesis by (simp add: float64OfInt_def float64OfNat_def float64Is_def)
next
  case False
  then have m: "0 < nat \<bar>i\<bar>" "nat \<bar>i\<bar> < 2 ^ 53" using assms by (simp_all add: nat_less_iff)
  obtain e mant where b: "float64OfNat (nat \<bar>i\<bar>) = (e + 1023) * 2 ^ 52 + mant" "mant < 2 ^ 52" "e \<le> 52"
      "(2 ^ 52 + mant) * 2 ^ e = nat \<bar>i\<bar> * 2 ^ 52"
    using float64OfNat_fields [OF m] by blast
  show ?thesis
  proof (cases "i < 0")
    case True
    then have i: "nat (- i) = nat \<bar>i\<bar>" "- int (nat \<bar>i\<bar>) = i" by simp_all
    show ?thesis
      using float64Is_fields(2) [OF b(2,3,4)] True unfolding float64OfInt_def i b(1) by (simp only: if_True)
  next
    case False
    then have i: "nat i = nat \<bar>i\<bar>" "int (nat \<bar>i\<bar>) = i" by simp_all
    show ?thesis
      using float64Is_fields(1) [OF b(2,3,4)] False unfolding float64OfInt_def i(1) b(1) i(2) by (simp only: if_False)
  qed
qed

section \<open>Schema hashes\<close>

lemma hashPart_cancel: "hashPart p @ r = hashPart q @ s \<Longrightarrow> p = q \<and> r = s"
proof -
  assume h: "hashPart p @ r = hashPart q @ s"
  have z: "CHR 0x00 \<notin> set (itoaNat n)" for n
    using itoaNat_digits [of n] by (auto simp: list_all_iff isDigit_def Let_def)
  have "takeWhile (\<lambda>c. c \<noteq> CHR 0x00) (hashPart p @ r) = itoaNat (length p)" for p r
    unfolding hashPart_def append.assoc by (subst takeWhile_append2) (use z in auto)
  with h have l: "length p = length q" by (metis itoaNat_digits)
  with h show ?thesis by (simp add: hashPart_def)
qed

lemma hashParts_inj: "concat (map hashPart ps) = concat (map hashPart qs) \<Longrightarrow> ps = qs"
proof (induction ps arbitrary: qs)
  case Nil
  then show ?case by (cases qs) (auto simp: hashPart_def)
next
  case (Cons p ps)
  then obtain q qs' where qs: "qs = q # qs'" by (cases qs) (auto simp: hashPart_def)
  with Cons hashPart_cancel [of p "concat (map hashPart ps)" q "concat (map hashPart qs')"]
  show ?case by simp
qed

section \<open>Capabilities\<close>

lemma fillEndpoint_ID [simp]: "ep_ID (fillEndpoint ep) = ep_ID ep"
  by (simp add: fillEndpoint_def Let_def)

lemma capabilityItems_lookup:
  "map_of (capabilityItems items eps) k =
     (case find (\<lambda>e. ep_ID e = k \<and> k \<noteq> []) (rev eps) of
        None \<Rightarrow> map_of items k | Some e \<Rightarrow> Some (fillEndpoint e))"
proof (induction eps arbitrary: items)
  case (Cons e eps)
  have "find P (xs @ [x]) = (case find P xs of None \<Rightarrow> if P x then Some x else None | Some y \<Rightarrow> Some y)"
    for P :: "Endpoint \<Rightarrow> bool" and xs x
    by (induction xs) auto
  with Cons show ?case by (auto simp: update_conv split: option.splits)
qed simp

section \<open>Whole payloads\<close>

lemma decode_magic:
  assumes "wireSized v" "writeValue pf v = Ret bs"
  shows "Decode (magic @ bs) = Ret (wireView pf v)"
proof -
  have "reads pf v" using assms(1) by (rule reads_all)
  moreover have "2 * length bs < readFuel bs" by (simp add: readFuel_def)
  ultimately have "readValue (readFuel bs) (bs @ []) = Ret (wireView pf v, [])"
    using assms(2) unfolding reads_def by blast
  then show ?thesis by (simp add: Decode_def Let_def)
qed

lemma response_frame_raw:
  assumes "n < 2 ^ 64" "length pl < 2 ^ 63"
  shows "DecodeResponseFrame (frameMagic @ putUvarint n @ fl # putUvarint (length pl) @ pl)
    = Some (Ret \<lparr>sf_Status = wrap64 (int n), sf_Error = ((of_char fl :: nat) AND of_char frameFlagError \<noteq> 0),
        sf_PayloadJSON = pl\<rparr>)"
proof -
  have "readUvarint (putUvarint n @ rest) = Ret (n, rest)" for rest
    using assms(1) by (rule readUvarint_putUvarint)
  moreover have "readBytes (putUvarint (length pl) @ pl) = Ret (pl, [])"
    using readBytes_append [of pl "[]"] assms(2) by simp
  ultimately show ?thesis by (simp add: DecodeResponseFrame_def)
qed

section \<open>Properties\<close>

text \<open>
  (C2) Round trip: whatever \<open>Encode\<close> produces, \<open>Decode\<close> reads back as the same value, with
  numbers as \<open>float64\<close> and maps keyed as before.
\<close>

theorem decode_encode:
  assumes "normalizeJSON v = Ret n" and "wireSized n" and "Encode normalizeJSON pf v = Ret bs"
  shows "Decode bs = Ret (wireView pf n)"
proof -
  obtain cs where cs: "writeValue pf n = Ret cs" "bs = magic @ cs"
    using assms by (auto simp: Encode_def obind_eq_Ret)
  show ?thesis unfolding cs(2) using assms(2) cs(1) by (rule decode_magic)
qed

text \<open>The object \<open>{"b": 2, "a": [true]}\<close>, given with its keys out of order.\<close>

theorem decode_encode_witness:
  "\<exists>bs. Encode Ret (\<lambda>_. None) (AObj [(''b'', AInt 2), (''a'', AArr [ABool True])]) = Ret bs \<and>
     Decode bs = Ret (AObj [(''a'', AArr [ABool True]), (''b'', AFloat (float64OfInt 2))])"
proof -
  let ?v = "AObj [(''b'', AInt 2), (''a'', AArr [ABool True])]"
  obtain bs where bs: "Encode Ret (\<lambda>_. None) ?v = Ret bs"
    by (simp add: Encode_def writePair_def writeNumber_def nonFinite_def float64OfInt_def
        float64OfNat_def log2n.simps Let_def take_bit_eq_mod drop_bit_eq_div)
  moreover have "Decode bs = Ret (wireView (\<lambda>_. None) ?v)"
    by (rule decode_encode [OF refl _ bs]) simp
  ultimately show ?thesis by simp
qed

lemma prefix_rejected:
  assumes "wireSized v" and "writeValue pf v = Ret bs" and "magic @ bs = p @ q" and "q \<noteq> []"
  shows "\<forall>r. Decode p \<noteq> Ret r"
proof (intro allI notI)
  fix r
  assume d: "Decode p = Ret r"
  then have pm: "take (length magic) p = magic" and "length magic \<le> length p"
    by (auto simp: Decode_def split: if_splits)
  then obtain p' where p: "p = magic @ p'" by (metis append_take_drop_id)
  with assms(3) have bs: "bs = p' @ q" by simp
  have "readValue (readFuel p') p' = Ret (r, [])"
    using d p by (auto simp: Decode_def Let_def obind_eq_Ret split: if_splits)
  then have "readValue (readFuel p') (p' @ q) = Ret (r, [] @ q)" by (rule read_extend)
  then have 1: "readValue (readFuel p' + readFuel bs) bs = Ret (r, q)"
    using read_more_fuel bs by simp
  have "reads pf v" using assms(1) by (rule reads_all)
  moreover have "2 * length bs < readFuel p' + readFuel bs" by (simp add: readFuel_def)
  ultimately have "readValue (readFuel p' + readFuel bs) (bs @ []) = Ret (wireView pf v, [])"
    using assms(2) unfolding reads_def by blast
  with 1 assms(4) show False by simp
qed

text \<open>
  A payload that lost its last bytes is never mistaken for a value: no proper prefix of an
  encoded value decodes.
\<close>

lemma decode_truncated:
  assumes "wireSized v" and "writeValue pf v = Ret bs" and "magic @ bs = p @ q" and "q \<noteq> []"
  shows "\<forall>r. Decode p \<noteq> Ret r"
  using assms by (rule prefix_rejected)

lemma decode_truncated_witness:
  "\<forall>r. Decode (magic @ tagString # putUvarint 2 @ ''a'') \<noteq> Ret r"
  using decode_truncated [of "AStr ''ab''" "\<lambda>_. None" "tagString # putUvarint 2 @ ''ab''"
      "magic @ tagString # putUvarint 2 @ ''a''" "''b''"]
  by (simp add: writeBytes_def writeUvarint_def flip: numeral_2_eq_2)

text \<open>
  Decoding always comes to an end with a value whose maps are in canonical form, an error of
  the format, or a panic: the recursion bound of the model is never the reason to stop.
\<close>

lemma decode_total:
  "(\<exists>v. Decode data = Ret v \<and> canonical v) \<or> (\<exists>e. Decode data = Fail e \<and> e \<noteq> OutOfFuel) \<or> Decode data = Panic"
proof -
  let ?d = "drop (length magic) data"
  have nf: "readValue (readFuel ?d) ?d \<noteq> Fail OutOfFuel"
    by (rule read_no_OutOfFuel(1)) (simp add: readFuel_def)
  show ?thesis
  proof (cases "Decode data")
    case (Ret v)
    then obtain d where "readValue (readFuel ?d) ?d = Ret (v, d)"
      by (auto simp: Decode_def Let_def obind_eq_Ret split: if_splits)
    then have "canonical v" using read_canonical_all by blast
    with Ret show ?thesis by simp
  next
    case (Fail e)
    with nf show ?thesis
      by (auto simp: Decode_def Let_def obind_eq_Fail split: if_splits)
  qed simp
qed

text \<open>
  A request frame carries its three byte strings unchanged, for any lengths Go can represent.
\<close>

lemma request_frame_roundtrip:
  assumes "length h < 2 ^ 63" "length pp < 2 ^ 63" "length pl < 2 ^ 63"
  shows "DecodeRequestFrame (EncodeRequestFrame h pp pl)
    = Some (Ret \<lparr>rf_SchemaHash = h, rf_PathParamsJSON = pp, rf_PayloadJSON = pl\<rparr>)"
proof -
  have "readBytes (putUvarint (length pl) @ pl) = Ret (pl, [])"
    using readBytes_append [of pl "[]"] assms(3) by simp
  moreover have "readBytes (putUvarint (length x) @ x @ rest) = Ret (x, rest)"
    if "length x < 2 ^ 63" for x rest :: string
    by (rule readBytes_append) (use that in simp)
  ultimately show ?thesis
    using assms(1,2) by (simp add: DecodeRequestFrame_def EncodeRequestFrame_def appendSizedBytes_def Let_def)
qed

lemma request_frame_roundtrip_witness:
  "DecodeRequestFrame (EncodeRequestFrame ''h'' ''{}'' ''[1]'')
    = Some (Ret \<lparr>rf_SchemaHash = ''h'', rf_PathParamsJSON = ''{}'', rf_PayloadJSON = ''[1]''\<rparr>)"
  using request_frame_roundtrip [of "''h''" "''{}''" "''[1]''"] by simp

text \<open>
  A response frame carries status, error flag and payload unchanged, for every status of
  Go's 64-bit \<open>int\<close> (negative ones included), except that the status 0 is sent as 200.
\<close>

lemma response_frame_roundtrip:
  assumes "int64_min \<le> st" "st \<le> int64_max" "length pl < 2 ^ 63"
  shows "DecodeResponseFrame (EncodeResponseFrame st er pl)
    = Some (Ret \<lparr>sf_Status = (if st = 0 then 200 else st), sf_Error = er, sf_PayloadJSON = pl\<rparr>)"
proof -
  let ?st = "if st = 0 then 200 else st"
  let ?n = "nat (?st mod 2 ^ 64)"
  have r: "int64_min \<le> ?st" "?st \<le> int64_max"
    using assms(1,2) by (simp_all add: int64_min_def int64_max_def)
  have "0 \<le> ?st mod 2 ^ 64" "?st mod 2 ^ 64 < 2 ^ 64" by (rule pos_mod_sign, simp) (rule pos_mod_bound, simp)
  then have n: "?n < 2 ^ 64" "int ?n = ?st mod 2 ^ 64" by (simp_all add: nat_less_iff)
  have w: "wrap64 (?st mod 2 ^ 64) = ?st"
    using wrap64_id [OF r] unfolding wrap64_def by (simp only: mod_add_left_eq)
  have f: "((of_char (if er then frameFlagError else char_of (0::nat)) :: nat) AND of_char frameFlagError \<noteq> 0) = er"
    by (simp add: frameFlagError_def)
  have "EncodeResponseFrame st er pl = frameMagic @ putUvarint ?n @
      (if er then frameFlagError else char_of (0::nat)) # putUvarint (length pl) @ pl"
    by (simp add: EncodeResponseFrame_def appendSizedBytes_def Let_def)
  then show ?thesis
    unfolding response_frame_raw [OF n(1) assms(3)] n(2) w f by (simp only: response_frame_raw [OF n(1) assms(3)] n(2) w f)
qed

lemma response_frame_roundtrip_witness:
  "DecodeResponseFrame (EncodeResponseFrame (- 1) True ''x'')
    = Some (Ret \<lparr>sf_Status = - 1, sf_Error = True, sf_PayloadJSON = ''x''\<rparr>)"
  using response_frame_roundtrip [of "- 1" "''x''" True] by (simp add: int64_min_def int64_max_def)

text \<open>
  Decoding is not safe on hostile input: a payload of fifteen bytes that announces an array of
  \<open>2^63\<close> elements makes \<open>Decode\<close> panic in \<open>make\<close>, because the count is not compared with the bytes
  that are left.
\<close>

lemma decode_huge_array_panics:
  "Decode (magic @ tagArray # putUvarint (2 ^ 63)) = Panic \<and> length (magic @ tagArray # putUvarint (2 ^ 63)) \<le> 15"
proof
  have "readUvarint (putUvarint (2 ^ 63)) = Ret (2 ^ 63, [])"
    using readUvarint_putUvarint [of "2 ^ 63" "[]"] by simp
  then show "Decode (magic @ tagArray # putUvarint (2 ^ 63)) = Panic"
    by (simp add: Decode_def Let_def readFuel_def numeral_2_eq_2 [symmetric] maxSliceCap_def)
  show "length (magic @ tagArray # putUvarint (2 ^ 63)) \<le> 15"
    using putUvarint_length [of "2 ^ 63" 10] by (simp add: magic_def)
qed

text \<open>
  An integer of absolute value below \<open>2^53\<close> that is encoded comes back as the floating-point
  number with exactly that value.
\<close>

lemma integer_exact:
  assumes "\<bar>i\<bar> < 2 ^ 53" and "writeValue pf (AInt i) = Ret bs"
  shows "\<exists>w. Decode (magic @ bs) = Ret (AFloat w) \<and> float64Is w i"
proof -
  have "Decode (magic @ bs) = Ret (wireView pf (AInt i))"
    by (rule decode_magic [OF _ assms(2)]) simp
  then show ?thesis using float64Is_OfInt [OF assms(1)] by simp
qed

lemma integer_exact_witness:
  "\<exists>bs w. writeValue (\<lambda>_. None) (AInt 5) = Ret bs \<and> Decode (magic @ bs) = Ret (AFloat w) \<and> float64Is w 5"
proof -
  obtain bs where bs: "writeValue (\<lambda>_. None) (AInt 5) = Ret bs"
    by (simp add: writeNumber_def nonFinite_def float64OfInt_def float64OfNat_def log2n.simps Let_def
        take_bit_eq_mod drop_bit_eq_div)
  with integer_exact [of 5 "\<lambda>_. None" bs] show ?thesis by simp
qed

text \<open>
  Schema hashes are computed from an unambiguous byte string: with a collision-free hash two
  part lists hash alike only if they are equal.
\<close>

lemma hash_parts_injective:
  assumes "inj sha" and "HashParts sha ps = HashParts sha qs"
  shows "ps = qs"
  using assms hashParts_inj by (auto simp: HashParts_def dest: injD)

lemma hash_parts_injective_witness: "HashParts rev [''a'', ''bc''] \<noteq> HashParts rev [''ab'', ''c'']"
  using hash_parts_injective [of rev "[''a'', ''bc'']" "[''ab'', ''c'']"] by auto

text \<open>
  The hash of a set of endpoints does not depend on the order in which they are listed.
\<close>

lemma hash_endpoints_order:
  assumes "mset es = mset fs" and "distinct (map ep_ID es)"
  shows "HashEndpoints sha es = HashEndpoints sha fs"
proof -
  have "inj_on ep_ID (set es)" using assms(2) by (simp add: distinct_map)
  then have "sort_key ep_ID es = sort_key ep_ID fs"
    using assms(1) by (intro sort_key_inj_key_eq) simp_all
  then show ?thesis by (simp add: HashEndpoints_def)
qed

lemma hash_endpoints_order_witness:
  "\<exists>e f. ep_ID e \<noteq> ep_ID f \<and> HashEndpoints rev [e, f] = HashEndpoints rev [f, e]"
proof -
  define e where "e = \<lparr>ep_ID = ''a.b'', ep_Service = ''a'', ep_Endpoint = ''b'', ep_Path = ''/'', ep_Methods = [''GET''],
    ep_Available = True, ep_UnsupportedReason = [], ep_SchemaHash = [], ep_SafeJSONRetry = True,
    ep_WirePath = [], ep_RecoveryPathPattern = []\<rparr>"
  define f where "f = e\<lparr>ep_ID := ''a.c''\<rparr>"
  have "HashEndpoints rev [e, f] = HashEndpoints rev [f, e]"
    by (rule hash_endpoints_order) (simp_all add: e_def f_def)
  moreover have "ep_ID e \<noteq> ep_ID f" by (simp add: e_def f_def)
  ultimately show ?thesis by blast
qed

text \<open>
  The capability document maps each endpoint id to the last endpoint announced under it, with
  the default wire path and recovery path filled in, and has no entry for an empty id.
\<close>

lemma capabilities_lookup:
  "map_of (cap_Endpoints (NewCapabilities h eps)) k =
     (if k = [] then None else map_option fillEndpoint (find (\<lambda>e. ep_ID e = k) (rev eps)))"
proof -
  have "find (\<lambda>e. False) xs = None" for xs :: "Endpoint list" by (induction xs) auto
  then show ?thesis
    by (auto simp: NewCapabilities_def capabilityItems_lookup split: option.splits)
qed

end
