(* ===== verification/GoTypes.thy ===== *)
theory GoTypes
  imports Wire Errs
begin

text \<open>
  What the runtime uses of Go's type system through \<open>reflect\<close>, and of \<open>strconv\<close>.  A \<open>reflect.Type\<close> is the
  datatype \<open>gotype\<close>, a settable \<open>reflect.Value\<close> a value of type \<open>goval\<close>; \<open>zeroValue\<close> is the zero value of a
  type and \<open>hasType\<close> says that a value is one of the type.  The types are finite trees: a recursive Go type
  stands for its unfolding to any depth beyond that of the data decoded into it.  Conversions between
  \<open>float64\<close> (as bit pattern), \<open>float32\<close> and integers follow IEEE 754 and the Go specification; the one result the
  specification leaves to the implementation, the integer an out-of-range float converts to, is a parameter.
\<close>

section \<open>Definitions\<close>

subsection \<open>Types and values\<close>

datatype intKind = KInt | KInt8 | KInt16 | KInt32 | KInt64
datatype uintKind = KUint | KUint8 | KUint16 | KUint32 | KUint64 | KUintptr

fun intBits :: "intKind \<Rightarrow> nat" where
  "intBits KInt = 64" | "intBits KInt8 = 8" | "intBits KInt16 = 16" | "intBits KInt32 = 32" | "intBits KInt64 = 64"

fun uintBits :: "uintKind \<Rightarrow> nat" where
  "uintBits KUint = 64" | "uintBits KUint8 = 8" | "uintBits KUint16 = 16" | "uintBits KUint32 = 32"
| "uintBits KUint64 = 64" | "uintBits KUintptr = 64"

text \<open>A struct field: its tag is the list of its key-value pairs.\<close>

record structField =
  sf_Name :: string
  sf_Tag :: "(string \<times> string) list"
  sf_Anonymous :: bool
  sf_Exported :: bool

datatype gotype =
    GBool | GString | GInt intKind | GUint uintKind | GFloat32 | GFloat64
  | GInterface bool
  | GPtr gotype | GSlice gotype | GArray nat gotype | GMap gotype gotype
  | GStruct "(structField \<times> gotype) list"
  | GOther string
  | GNamed string string gotype

datatype goval =
    VBool bool | VString string | VInt int | VUint nat | VFloat32 "32 word" | VFloat64 "64 word"
  | VAny goany
  | VPtr "goval option" | VSlice "goval list option" | VArray "goval list"
  | VMap "(string \<times> goval) list option"
  | VStruct "goval list"
  | VOther string

text \<open>\<open>reflect.Kind\<close> looks through named types.\<close>

fun under :: "gotype \<Rightarrow> gotype" where
  "under (GNamed pkg name t) = under t"
| "under t = t"

definition ptrElem :: "gotype \<Rightarrow> gotype option" where
  "ptrElem t = (case under t of GPtr e \<Rightarrow> Some e | _ \<Rightarrow> None)"

definition sliceElem :: "gotype \<Rightarrow> gotype option" where
  "sliceElem t = (case under t of GSlice e \<Rightarrow> Some e | _ \<Rightarrow> None)"

primrec zeroValue :: "gotype \<Rightarrow> goval" where
  "zeroValue GBool = VBool False"
| "zeroValue GString = VString []"
| "zeroValue (GInt k) = VInt 0"
| "zeroValue (GUint k) = VUint 0"
| "zeroValue GFloat32 = VFloat32 0"
| "zeroValue GFloat64 = VFloat64 0"
| "zeroValue (GInterface e) = VAny ANil"
| "zeroValue (GPtr t) = VPtr None"
| "zeroValue (GSlice t) = VSlice None"
| "zeroValue (GArray n t) = VArray (replicate n (zeroValue t))"
| "zeroValue (GMap k t) = VMap None"
| "zeroValue (GStruct fs) = VStruct (map snd (map (map_prod (\<lambda>f. f) zeroValue) fs))"
| "zeroValue (GOther n) = VOther n"
| "zeroValue (GNamed pkg name t) = zeroValue t"

definition intFits :: "nat \<Rightarrow> int \<Rightarrow> bool" where
  "intFits bits i = (- (2 ^ (bits - 1)) \<le> i \<and> i < 2 ^ (bits - 1))"

definition uintFits :: "nat \<Rightarrow> nat \<Rightarrow> bool" where
  "uintFits bits n = (n < 2 ^ bits)"

text \<open>\<open>GInterface True\<close> is \<open>any\<close>; an interface with methods holds none of the decoded values.\<close>

primrec hasType :: "gotype \<Rightarrow> goval \<Rightarrow> bool" where
  "hasType GBool = (\<lambda>v. case v of VBool b \<Rightarrow> True | _ \<Rightarrow> False)"
| "hasType GString = (\<lambda>v. case v of VString s \<Rightarrow> True | _ \<Rightarrow> False)"
| "hasType (GInt k) = (\<lambda>v. case v of VInt i \<Rightarrow> intFits (intBits k) i | _ \<Rightarrow> False)"
| "hasType (GUint k) = (\<lambda>v. case v of VUint n \<Rightarrow> uintFits (uintBits k) n | _ \<Rightarrow> False)"
| "hasType GFloat32 = (\<lambda>v. case v of VFloat32 w \<Rightarrow> True | _ \<Rightarrow> False)"
| "hasType GFloat64 = (\<lambda>v. case v of VFloat64 w \<Rightarrow> True | _ \<Rightarrow> False)"
| "hasType (GInterface e) = (\<lambda>v. case v of VAny a \<Rightarrow> e \<or> a = ANil | _ \<Rightarrow> False)"
| "hasType (GPtr t) = (\<lambda>v. case v of VPtr p \<Rightarrow> pred_option (hasType t) p | _ \<Rightarrow> False)"
| "hasType (GSlice t) = (\<lambda>v. case v of VSlice s \<Rightarrow> pred_option (list_all (hasType t)) s | _ \<Rightarrow> False)"
| "hasType (GArray n t) = (\<lambda>v. case v of VArray vs \<Rightarrow> length vs = n \<and> list_all (hasType t) vs | _ \<Rightarrow> False)"
| "hasType (GMap k t) = (\<lambda>v. case v of
      VMap m \<Rightarrow> pred_option (\<lambda>ps. under k = GString \<and> list_all (\<lambda>p. hasType t (snd p)) ps) m
    | VOther s \<Rightarrow> under k \<noteq> GString | _ \<Rightarrow> False)"
| "hasType (GStruct fs) = (\<lambda>v. case v of
      VStruct vs \<Rightarrow> list_all2 (\<lambda>p u. p u) (map snd (map (map_prod (\<lambda>f. f) hasType) fs)) vs | _ \<Rightarrow> False)"
| "hasType (GOther n) = (\<lambda>v. case v of VOther s \<Rightarrow> True | _ \<Rightarrow> False)"
| "hasType (GNamed pkg name t) = hasType t"

definition tagGet :: "structField \<Rightarrow> string \<Rightarrow> string" where
  "tagGet f key = (case map_of (sf_Tag f) key of None \<Rightarrow> [] | Some v \<Rightarrow> v)"

subsection \<open>Floating-point numbers\<close>

definition f64Exp :: "64 word \<Rightarrow> nat" where "f64Exp w = (unat w div 2 ^ 52) mod 2 ^ 11"
definition f64Mant :: "64 word \<Rightarrow> nat" where "f64Mant w = unat w mod 2 ^ 52"
definition f64Neg :: "64 word \<Rightarrow> bool" where "f64Neg w = (unat w \<ge> 2 ^ 63)"

definition f64NaN :: "64 word \<Rightarrow> bool" where "f64NaN w = (f64Exp w = 2047 \<and> f64Mant w \<noteq> 0)"
definition f64Zero :: "64 word \<Rightarrow> bool" where "f64Zero w = (f64Exp w = 0 \<and> f64Mant w = 0)"

definition f64Eq :: "64 word \<Rightarrow> 64 word \<Rightarrow> bool" where
  "f64Eq a b = (\<not> f64NaN a \<and> \<not> f64NaN b \<and> (a = b \<or> (f64Zero a \<and> f64Zero b)))"

text \<open>The comparison with zero, \<open>value < 0\<close>.\<close>

definition f64Lt0 :: "64 word \<Rightarrow> bool" where
  "f64Lt0 w = (f64Neg w \<and> \<not> f64NaN w \<and> \<not> f64Zero w)"

text \<open>The integer part of a finite number, rounded towards zero; none of an infinity or NaN.\<close>

definition f64Trunc :: "64 word \<Rightarrow> int option" where
  "f64Trunc w =
     (let e = f64Exp w; m = (if e = 0 then f64Mant w else 2 ^ 52 + f64Mant w); e = max e 1;
          a = (if e \<ge> 1075 then m * 2 ^ (e - 1075) else m div 2 ^ (1075 - e))
      in if f64Exp w = 2047 then None else Some (if f64Neg w then - int a else int a))"

definition int64OfFloat :: "(64 word \<Rightarrow> int) \<Rightarrow> 64 word \<Rightarrow> int" where
  "int64OfFloat conv w =
     (case f64Trunc w of
        Some i \<Rightarrow> if int64_min \<le> i \<and> i \<le> int64_max then i else wrap64 (conv w)
      | None \<Rightarrow> wrap64 (conv w))"

definition uint64OfFloat :: "(64 word \<Rightarrow> int) \<Rightarrow> 64 word \<Rightarrow> nat" where
  "uint64OfFloat conv w =
     (case f64Trunc w of
        Some i \<Rightarrow> if 0 \<le> i \<and> i < 2 ^ 64 then nat i else nat (conv w mod 2 ^ 64)
      | None \<Rightarrow> nat (conv w mod 2 ^ 64))"

text \<open>Rounding a significand to nearest, ties to even, while dropping \<open>k\<close> bits; \<open>float32(x)\<close> of a \<open>float64\<close>.\<close>

definition roundEven :: "nat \<Rightarrow> nat \<Rightarrow> nat" where
  "roundEven m k =
     (let q = m div 2 ^ k; r = m mod 2 ^ k in
      if 2 * r > 2 ^ k \<or> (2 * r = 2 ^ k \<and> odd q) then q + 1 else q)"

definition float32OfFloat64 :: "64 word \<Rightarrow> 32 word" where
  "float32OfFloat64 w =
     (let e = f64Exp w; m = f64Mant w; s = (if f64Neg w then 2 ^ 31 else 0 :: nat);
          mag = (if e = 2047 then 0x7F800000 + (if m = 0 then 0 else 2 ^ 22 + (m div 2 ^ 29) mod 2 ^ 22)
                 else if e = 0 then 0
                 else if e \<ge> 897 then min ((e - 897) * 2 ^ 23 + roundEven (2 ^ 52 + m) 29) 0x7F800000
                 else roundEven (2 ^ 52 + m) (29 + (897 - e)))
      in of_nat (s + mag))"

subsection \<open>Numbers as text\<close>

datatype numErr = ErrSyntax | ErrRange

definition numErrText :: "string \<Rightarrow> string \<Rightarrow> numErr \<Rightarrow> string" where
  "numErrText func s e =
     ''strconv.'' @ func @ '': parsing '' @ goQuote s @ '': ''
       @ (case e of ErrSyntax \<Rightarrow> ''invalid syntax'' | ErrRange \<Rightarrow> ''value out of range'')"

text \<open>\<open>strconv.ParseUint\<close> in base ten: a value beyond \<open>maxVal\<close> is reported before what follows is read.\<close>

fun parseUintLoop :: "nat \<Rightarrow> nat \<Rightarrow> string \<Rightarrow> numErr + nat" where
  "parseUintLoop maxVal n [] = Inr n"
| "parseUintLoop maxVal n (c # cs) =
     (if \<not> isDigit c then Inl ErrSyntax
      else let n' = 10 * n + digitVal c in if n' > maxVal then Inl ErrRange else parseUintLoop maxVal n' cs)"

definition parseUint :: "nat \<Rightarrow> string \<Rightarrow> numErr + nat" where
  "parseUint bits s = (if s = [] then Inl ErrSyntax else parseUintLoop (2 ^ bits - 1) 0 s)"

definition parseInt :: "nat \<Rightarrow> string \<Rightarrow> numErr + int" where
  "parseInt bits s =
     (if s = [] then Inl ErrSyntax
      else let neg = (hd s = CHR ''-''); body = (if hd s = CHR ''-'' \<or> hd s = CHR ''+'' then tl s else s)
           in case parseUint bits body of
                Inl e \<Rightarrow> Inl e
              | Inr un \<Rightarrow>
                if \<not> neg \<and> un \<ge> 2 ^ (bits - 1) then Inl ErrRange
                else if neg \<and> un > 2 ^ (bits - 1) then Inl ErrRange
                else Inr (if neg then - int un else int un))"

definition parseBool :: "string \<Rightarrow> numErr + bool" where
  "parseBool s =
     (if s \<in> {''1'', ''t'', ''T'', ''true'', ''TRUE'', ''True''} then Inr True
      else if s \<in> {''0'', ''f'', ''F'', ''false'', ''FALSE'', ''False''} then Inr False
      else Inl ErrSyntax)"

section \<open>Types\<close>

lemma hasType_struct:
  "hasType (GStruct fs) (VStruct vs) \<longleftrightarrow> list_all2 (\<lambda>f u. hasType (snd f) u) fs vs"
  by (simp add: list_all2_map1)

declare hasType.simps(12) [simp del]

lemma hasType_under: "hasType (under t) = hasType t"
  by (induction t) simp_all

lemma zeroValue_under: "zeroValue (under t) = zeroValue t"
  by (induction t) simp_all

lemma under_not_named: "under t \<noteq> GNamed p n u"
  by (induction t) simp_all

lemma size_under: "size (under t) \<le> size t"
  by (induction t) simp_all

lemma ptrElem_Some: "ptrElem t = Some e \<longleftrightarrow> under t = GPtr e"
  by (auto simp: ptrElem_def split: gotype.splits)

lemma sliceElem_Some: "sliceElem t = Some e \<longleftrightarrow> under t = GSlice e"
  by (auto simp: sliceElem_def split: gotype.splits)

lemma typed_under: "hasType t v \<longleftrightarrow> hasType (under t) v"
  by (simp only: hasType_under)

lemma under_smaller:
  shows "under t = GPtr e \<Longrightarrow> size e < size t"
    and "under t = GSlice e \<Longrightarrow> size e < size t"
    and "under t = GArray n e \<Longrightarrow> size e < size t"
    and "under t = GMap k e \<Longrightarrow> size e < size t"
  using size_under [of t] by simp_all

lemma zero_hasType [simp]: "hasType t (zeroValue t)"
proof (induction t)
  case (GStruct fs)
  then have "list_all2 (\<lambda>f u. hasType (snd f) u) fs (map (\<lambda>f. zeroValue (snd f)) fs)"
    by (auto simp: list_all2_conv_all_nth in_set_conv_nth) (metis nth_mem prod.collapse snds.intros)
  then show ?case by (simp add: hasType_struct o_def)
qed (auto simp: intFits_def uintFits_def list_all_iff)

section \<open>Numbers\<close>

lemma parseUintLoop_ok:
  "parseUintLoop mx n s = Inr k \<Longrightarrow> n \<le> mx \<Longrightarrow> k \<le> mx \<and> k = decValue n s \<and> list_all isDigit s"
  by (induction mx n s rule: parseUintLoop.induct) (auto simp: Let_def split: if_splits)

lemma decValue_mono: "n \<le> decValue n s"
  by (induction n s rule: decValue.induct) (auto intro: order_trans [rotated])

lemma parseUintLoop_digits:
  "list_all isDigit s \<Longrightarrow> decValue n s \<le> mx \<Longrightarrow> parseUintLoop mx n s = Inr (decValue n s)"
proof (induction mx n s rule: parseUintLoop.induct)
  case (2 mx n c cs)
  moreover have "10 * n + digitVal c \<le> decValue (10 * n + digitVal c) cs" by (rule decValue_mono)
  ultimately show ?case by (simp add: Let_def)
qed simp

lemma parseUint_fits: "parseUint bits s = Inr n \<Longrightarrow> uintFits bits n"
proof -
  assume "parseUint bits s = Inr n"
  then have "n \<le> 2 ^ bits - 1"
    using parseUintLoop_ok [of "2 ^ bits - 1" 0 s n] by (auto simp: parseUint_def split: if_splits)
  moreover have "(0::nat) < 2 ^ bits" by simp
  ultimately show ?thesis unfolding uintFits_def by linarith
qed

lemma intFits_sign:
  shows "un < 2 ^ (bits - 1) \<Longrightarrow> intFits bits (int un)"
    and "un \<le> 2 ^ (bits - 1) \<Longrightarrow> intFits bits (- int un)"
proof -
  have p: "(0::int) < 2 ^ (bits - 1)" by simp
  have c: "int (2 ^ (bits - 1)) = 2 ^ (bits - 1)" by simp
  show "un < 2 ^ (bits - 1) \<Longrightarrow> intFits bits (int un)"
    using p c unfolding intFits_def by linarith
  show "un \<le> 2 ^ (bits - 1) \<Longrightarrow> intFits bits (- int un)"
    using p c unfolding intFits_def by linarith
qed

lemma parseInt_fits: "parseInt bits s = Inr i \<Longrightarrow> intFits bits i"
  using intFits_sign by (auto simp: parseInt_def Let_def split: if_splits sum.splits)

lemma parseUint_itoa:
  assumes "uintFits bits n"
  shows "parseUint bits (itoaNat n) = Inr n"
proof -
  have "list_all isDigit (itoaNat n)" "itoaNat n \<noteq> []" "decValue 0 (itoaNat n) = n"
    using itoaNat_digits by auto
  then show ?thesis using assms parseUintLoop_digits [of "itoaNat n" 0 "2 ^ bits - 1"]
    by (simp add: parseUint_def uintFits_def)
qed

text \<open>\<open>strconv.ParseInt\<close> reads what \<open>strconv.Itoa\<close> writes, at every width the value fits.\<close>

lemma parseInt_itoa:
  assumes "intFits bits i" "0 < bits"
  shows "parseInt bits (itoa i) = Inr i"
proof -
  have lt: "(2::nat) ^ (bits - 1) < 2 ^ bits" using assms(2) by simp
  have ne: "itoaNat n \<noteq> []" for n using itoaNat_digits by auto
  show ?thesis
  proof (cases "i < 0")
    case True
    then have n: "nat (- i) \<le> 2 ^ (bits - 1)" using assms(1) by (simp add: intFits_def)
    then have "parseUint bits (itoaNat (nat (- i))) = Inr (nat (- i))"
      using le_less_trans [OF n lt] by (intro parseUint_itoa) (simp only: uintFits_def)
    then show ?thesis using True n by (simp add: itoa_def parseInt_def)
  next
    case False
    then have n: "nat i < 2 ^ (bits - 1)" using assms(1) by (simp add: intFits_def nat_less_iff)
    then have "parseUint bits (itoaNat (nat i)) = Inr (nat i)"
      using less_trans [OF n lt] by (intro parseUint_itoa) (simp only: uintFits_def)
    moreover have "hd (itoaNat (nat i)) \<noteq> CHR ''-''" "hd (itoaNat (nat i)) \<noteq> CHR ''+''"
      using itoaNat_hd [of "nat i"] ne [of "nat i"] by (metis list.collapse)+
    ultimately show ?thesis using False n ne [of "nat i"] by (simp add: itoa_def parseInt_def Let_def)
  qed
qed

section \<open>Integers and floating-point numbers\<close>

lemma float64Is_zero: "f64Zero w \<Longrightarrow> float64Is w i \<longleftrightarrow> i = 0"
  by (simp add: f64Zero_def float64Is_def f64Exp_def f64Mant_def Let_def)

lemma float64Is_trunc_large:
  assumes "1075 \<le> f64Exp w" "f64Trunc w = Some i"
  shows "float64Is w i"
proof -
  let ?e = "f64Exp w" and ?m = "f64Mant w"
  have i: "(if f64Neg w then - i else i) = int ((2 ^ 52 + ?m) * 2 ^ (?e - 1075))"
    using assms by (auto simp: f64Trunc_def Let_def max_def split: if_splits)
  have p: "(2::int) ^ ?e = 2 ^ (?e - 1075) * 2 ^ 1075"
    using assms(1) by (metis le_add_diff_inverse2 power_add)
  have "int ((2 ^ 52 + ?m) * 2 ^ ?e) = int ((2 ^ 52 + ?m) * 2 ^ (?e - 1075)) * 2 ^ 1075"
    unfolding of_nat_mult of_nat_power of_nat_numeral p by (simp only: mult.assoc)
  then show ?thesis
    using assms(1) i unfolding float64Is_def Let_def f64Exp_def [symmetric] f64Mant_def [symmetric] f64Neg_def [symmetric]
    by simp
qed

text \<open>A number that equals its integer part, converted back, is that integer.\<close>

lemma trunc_exact:
  assumes "f64Trunc w = Some i" "f64Eq (float64OfInt i) w"
  shows "float64Is w i"
proof (cases "1075 \<le> f64Exp w")
  case True
  then show ?thesis using assms(1) by (rule float64Is_trunc_large)
next
  case False
  let ?m = "if f64Exp w = 0 then f64Mant w else 2 ^ 52 + f64Mant w"
  have "f64Mant w < 2 ^ 52" unfolding f64Mant_def by (rule mod_less_divisor) simp
  then have m: "?m < 2 ^ 53" by simp
  have "\<bar>i\<bar> = int (?m div 2 ^ (1075 - max (f64Exp w) 1))"
    using assms(1) False by (auto simp: f64Trunc_def Let_def max_def split: if_splits)
  then have "\<bar>i\<bar> \<le> int ?m" by (simp only: of_nat_le_iff div_le_dividend)
  then have small: "\<bar>i\<bar> < 2 ^ 53" using m by simp
  have "float64Is (float64OfInt i) i" using small by (rule float64Is_OfInt)
  moreover have "float64OfInt i = w \<or> (f64Zero (float64OfInt i) \<and> f64Zero w)"
    using assms(2) by (simp add: f64Eq_def)
  ultimately show ?thesis using float64Is_zero by auto
qed

lemma float64Is_unfold:
  "float64Is w i \<longleftrightarrow>
     (if f64Exp w = 0 then f64Mant w = 0 \<and> i = 0
      else int ((2 ^ 52 + f64Mant w) * 2 ^ f64Exp w) = (if f64Neg w then - i else i) * 2 ^ 1075)"
  by (simp add: float64Is_def f64Exp_def f64Mant_def f64Neg_def Let_def)

lemma float64Is_sign: "float64Is w i \<Longrightarrow> 0 < i \<Longrightarrow> \<not> f64Neg w"
proof
  assume i: "float64Is w i" "0 < i" and n: "f64Neg w"
  then have "int ((2 ^ 52 + f64Mant w) * 2 ^ f64Exp w) = - i * 2 ^ 1075"
    by (simp add: float64Is_unfold split: if_splits)
  moreover have "- i * 2 ^ 1075 < 0" using i(2) by (simp only: mult_less_0_iff) simp
  ultimately show False by linarith
qed

lemma float64Is_exp:
  assumes "float64Is w i" "\<bar>i\<bar> < 2 ^ 53"
  shows "f64Exp w < 2047"
proof (rule ccontr)
  let ?A = "int ((2 ^ 52 + f64Mant w) * 2 ^ f64Exp w)"
  assume n: "\<not> f64Exp w < 2047"
  then have "?A = (if f64Neg w then - i else i) * 2 ^ 1075" using assms(1) by (auto simp: float64Is_unfold)
  then have "\<bar>?A\<bar> = \<bar>if f64Neg w then - i else i\<bar> * \<bar>2 ^ 1075\<bar>" by (simp only: abs_mult)
  moreover have "\<bar>if f64Neg w then - i else i\<bar> = \<bar>i\<bar>" by (rule if_split [THEN iffD2]) simp
  moreover have "\<bar>(2::int) ^ 1075\<bar> = 2 ^ 1075" by (rule abs_of_nonneg, rule zero_le_power) simp
  ultimately have "?A = \<bar>i\<bar> * 2 ^ 1075" by (simp only: abs_of_nat)
  also have "\<dots> < 2 ^ 53 * 2 ^ 1075" using assms(2) by (simp only: mult_less_cancel_right) simp
  also have "\<dots> = int (2 ^ 1128)" by simp
  also have "\<dots> \<le> int (2 ^ f64Exp w)" using n by (simp only: of_nat_le_iff) (rule power_increasing, simp_all)
  also have "\<dots> \<le> ?A" by (simp only: of_nat_le_iff) simp
  finally show False by simp
qed

lemma float64Is_trunc:
  assumes "float64Is w i" "f64Exp w < 2047"
  shows "f64Trunc w = Some i"
proof (cases "f64Exp w = 0")
  case True
  then show ?thesis using assms(1) by (auto simp: float64Is_unfold f64Trunc_def Let_def)
next
  case False
  let ?e = "f64Exp w" and ?M = "2 ^ 52 + f64Mant w" and ?a = "if f64Neg w then - i else i"
  have eq: "int (?M * 2 ^ ?e) = ?a * 2 ^ 1075" using assms(1) False by (simp add: float64Is_unfold)
  then have "0 \<le> ?a * 2 ^ 1075" by (metis of_nat_0_le_iff)
  then have a0: "0 \<le> ?a" by (simp only: zero_le_mult_iff) auto
  then obtain n where n: "?a = int n" using nonneg_int_cases by blast
  have eqn: "?M * 2 ^ ?e = n * 2 ^ 1075"
  proof -
    have "int n * 2 ^ 1075 = int (n * 2 ^ 1075)" by (simp only: of_nat_mult of_nat_power of_nat_numeral)
    then show ?thesis using eq unfolding n by (simp only: of_nat_eq_iff)
  qed
  have "(if ?e \<ge> 1075 then ?M * 2 ^ (?e - 1075) else ?M div 2 ^ (1075 - ?e)) = n"
  proof (cases "?e \<ge> 1075")
    case True
    then have "(2::nat) ^ ?e = 2 ^ (?e - 1075) * 2 ^ 1075" by (metis le_add_diff_inverse2 power_add)
    then have "(?M * 2 ^ (?e - 1075)) * 2 ^ 1075 = n * 2 ^ 1075" using eqn by (simp only: mult.assoc)
    then have "?M * 2 ^ (?e - 1075) = n" by (simp only: mult_cancel2) simp
    then show ?thesis using True by simp
  next
    case False
    then have "(2::nat) ^ 1075 = 2 ^ (1075 - ?e) * 2 ^ ?e" by (metis le_add_diff_inverse2 nat_le_linear power_add)
    then have "?M * 2 ^ ?e = (n * 2 ^ (1075 - ?e)) * 2 ^ ?e" using eqn by (simp only: mult.assoc)
    then have "?M = n * 2 ^ (1075 - ?e)" by (simp only: mult_cancel2) simp
    then show ?thesis using False by simp
  qed
  moreover have mx: "max ?e 1 = ?e" using False by simp
  ultimately have "f64Trunc w = (if ?e = 2047 then None else Some (if f64Neg w then - int n else int n))"
    by (simp only: f64Trunc_def Let_def False if_False mx)
  then have "f64Trunc w = Some (if f64Neg w then - int n else int n)" using assms(2) by simp
  then show ?thesis unfolding n [symmetric] by simp
qed

end
