(* ===== verification/Middleware.thy ===== *)
theory Middleware
  imports Errs
begin

text \<open>
  The middleware chain of \<open>runtime/middleware.go\<close>, with the lookup of the middlewares in
  \<open>runtime/registry.go\<close> and the response type of \<open>middleware/middleware.go\<close>.  A middleware is user
  code: its body is an interaction tree of type \<open>mwprog\<close> that returns, panics, or calls \<open>next\<close> and goes
  on with the response it gets.  The chain threads the shared call counter and the list of trace
  events; the pseudo event \<open>LeafRun\<close> marks where the endpoint itself ran.  Request contexts are a
  type variable; the lazily loaded request metadata is not modelled.
\<close>

section \<open>Definitions\<close>

subsection \<open>Responses and middlewares\<close>

type_synonym httpHeader = "(string, string list) gomap"

datatype 'v payload = Value 'v | RawMiddlewarePayload string | RawMiddlewarePayloadPtr "string option"

record 'v Response =
  rs_Payload :: "'v payload option"
  rs_Err :: "goerr option"
  rs_HTTPStatus :: int
  rs_headers :: "httpHeader option"

definition emptyResponse :: "'v Response" where
  "emptyResponse = \<lparr>rs_Payload = None, rs_Err = None, rs_HTTPStatus = 0, rs_headers = None\<rparr>"

definition errResponse :: "goerr \<Rightarrow> int \<Rightarrow> 'v Response" where
  "errResponse e status = emptyResponse\<lparr>rs_Err := Some e, rs_HTTPStatus := status\<rparr>"

text \<open>What calling user code gives: a value, or a panic with its printed value.\<close>

datatype 'a call = Returned 'a | Panicked string

datatype ('q, 'v) mwprog =
    MwReturn "'v Response"
  | MwPanic string
  | MwNext 'q "'v Response \<Rightarrow> ('q, 'v) mwprog"

record ('q, 'v) Middleware =
  mw_ID :: string
  mw_Invoke :: "'q \<Rightarrow> ('q, 'v) mwprog"

datatype mwEvent = MwEvent string string "goerr option" | LeafRun

type_synonym mwState = "nat \<times> mwEvent list"

subsection \<open>The chain\<close>

fun getMiddlewares ::
  "(string, ('q, 'v) Middleware) gomap \<Rightarrow> string list \<Rightarrow> goerr + ('q, 'v) Middleware list" where
  "getMiddlewares reg [] = Inr []"
| "getMiddlewares reg (i # ids) =
     (case map_of reg i of
        None \<Rightarrow> Inl (bErr (bMsg (''middleware '' @ goQuote i @ '' not registered'') (bCode Internal B)))
      | Some mw \<Rightarrow> map_sum id (\<lambda>mws. mw # mws) (getMiddlewares reg ids))"

text \<open>The deferred function that gives a failed response without a status the status of its error.\<close>

definition fillStatus :: "'v Response \<Rightarrow> 'v Response" where
  "fillStatus resp =
     (if rs_HTTPStatus resp = 0 \<and> rs_Err resp \<noteq> None
      then resp\<lparr>rs_HTTPStatus := int (HTTPStatus (rs_Err resp))\<rparr> else resp)"

definition mwPanicResponse :: "string \<Rightarrow> string \<Rightarrow> 'v Response" where
  "mwPanicResponse mwid v =
     errResponse (bErr (bMsg (''panic executing middleware '' @ mwid @ '': '' @ v) (bCode Internal B))) 500"

definition leafPanicResponse :: "string \<Rightarrow> 'v Response" where
  "leafPanicResponse v = errResponse (bErr (bMsg (''panic handling request: '' @ v) (bCode Internal B))) 500"

definition tooManyResponse :: "'v Response" where
  "tooManyResponse = errResponse (bErr (bMsg ''middleware called next() too many times'' (bCode Internal B))) 500"

text \<open>Running the body of a middleware against the function it is given as \<open>next\<close>.\<close>

primrec runProg ::
  "('q \<Rightarrow> mwState \<Rightarrow> ('v Response \<times> mwState) option) \<Rightarrow> ('q, 'v) mwprog \<Rightarrow> mwState \<Rightarrow>
   ('v Response call \<times> mwState) option" where
  "runProg nx (MwReturn r) s = Some (Returned r, s)"
| "runProg nx (MwPanic v) s = Some (Panicked v, s)"
| "runProg nx (MwNext q k) s = (case nx q s of None \<Rightarrow> None | Some (r, s') \<Rightarrow> runProg nx (k r) s')"

text \<open>The closure \<open>next\<close> of \<open>runMiddlewareChain\<close>.  The fuel bounds the nesting of \<open>next\<close> frames.\<close>

fun next_call ::
  "nat \<Rightarrow> ('q, 'v) Middleware list \<Rightarrow> ('q \<Rightarrow> 'v Response call) \<Rightarrow> 'q \<Rightarrow> mwState \<Rightarrow>
   ('v Response \<times> mwState) option" where
  "next_call 0 mws leaf q s = None"
| "next_call (Suc n) mws leaf q (counter, ev) =
     (let idx = counter; counter = counter + 1 in
      if idx < length mws
      then let mw = mws ! idx;
               ev = ev @ [MwEvent (mw_ID mw) ''start'' None]
           in case runProg (next_call n mws leaf) (mw_Invoke mw q) (counter, ev) of
                None \<Rightarrow> None
              | Some (Returned resp, (c, ev)) \<Rightarrow>
                  Some (fillStatus resp, (c, ev @ [MwEvent (mw_ID mw) ''end'' (rs_Err resp)]))
              | Some (Panicked v, (c, ev)) \<Rightarrow>
                  (let resp = mwPanicResponse (mw_ID mw) v
                   in Some (fillStatus resp, (c, ev @ [MwEvent (mw_ID mw) ''panic'' (rs_Err resp),
                                                       MwEvent (mw_ID mw) ''end'' (rs_Err resp)])))
      else if idx = length mws
      then (case leaf q of
              Returned resp \<Rightarrow> Some (fillStatus resp, (counter, ev @ [LeafRun]))
            | Panicked v \<Rightarrow> Some (fillStatus (leafPanicResponse v), (counter, ev @ [LeafRun])))
      else Some (fillStatus tooManyResponse, (counter, ev)))"

definition chainFuel :: "('q, 'v) Middleware list \<Rightarrow> nat" where
  "chainFuel mws = length mws + 1"

definition runMiddlewareChain ::
  "(string, ('q, 'v) Middleware) gomap \<Rightarrow> string list \<Rightarrow> 'q \<Rightarrow> ('q \<Rightarrow> 'v Response call) \<Rightarrow>
   ('v Response call \<times> mwEvent list) option" where
  "runMiddlewareChain reg ids req leaf =
     (case getMiddlewares reg ids of
        Inl err \<Rightarrow> Some (Returned (errResponse err (int (HTTPStatus (Some err)))), [])
      | Inr mws \<Rightarrow>
        if mws = [] then Some (leaf req, [LeafRun])
        else map_option (\<lambda>(r, (c, ev)). (Returned r, ev)) (next_call (chainFuel mws) mws leaf req (0, [])))"

subsection \<open>Headers\<close>

definition copyHeaders :: "httpHeader \<Rightarrow> httpHeader \<Rightarrow> httpHeader" where
  "copyHeaders dst src = foldl (\<lambda>d (k, vs). AList.update k vs d) dst src"

definition cloneHeaders :: "httpHeader option \<Rightarrow> httpHeader option" where
  "cloneHeaders h = map_option (copyHeaders []) h"

text \<open>\<open>http.CanonicalHeaderKey\<close>, which \<open>Header.Del\<close> applies to its argument.\<close>

definition isTokenChar :: "char \<Rightarrow> bool" where
  "isTokenChar c = (isLetter c \<or> isDigit c \<or> c \<in> set ''!#$%&*+-.^_`|~'' \<or> of_char c = (39 :: nat))"

fun canonKey :: "bool \<Rightarrow> string \<Rightarrow> string" where
  "canonKey up [] = []"
| "canonKey up (c # cs) = (if up then toUpperChar c else toLowerChar c) # canonKey (c = CHR ''-'') cs"

definition canonicalHeaderKey :: "string \<Rightarrow> string" where
  "canonicalHeaderKey k = (if list_all isTokenChar k then canonKey True k else k)"

definition applyHeaders :: "httpHeader \<Rightarrow> httpHeader \<Rightarrow> httpHeader" where
  "applyHeaders dst src =
     copyHeaders (foldl (\<lambda>d (k, vs). AList.delete (canonicalHeaderKey k) d) dst src) src"

subsection \<open>Endpoints\<close>

record 't Endpoint =
  ep_Service :: string
  ep_Name :: string
  ep_MiddlewareIDs :: "string list"
  ep_ResponseType :: "'t option"

definition endpointKey :: "string \<Rightarrow> string \<Rightarrow> string" where
  "endpointKey service name = service @ ''.'' @ name"

definition lookupEndpointMock :: "(string, 'm) gomap \<Rightarrow> 't Endpoint \<Rightarrow> 'm option" where
  "lookupEndpointMock mocks ep = map_of mocks (endpointKey (ep_Service ep) (ep_Name ep))"

text \<open>Go's reflection on payloads: the dynamic type, assignability, and how a type prints.\<close>

record ('v, 't) reflection =
  typeOf :: "'v payload \<Rightarrow> 't"
  assignable :: "'t \<Rightarrow> 't \<Rightarrow> bool"
  typeString :: "'t \<Rightarrow> string"

definition finalizeTypedMiddlewareResponse ::
  "('v, 't) reflection \<Rightarrow> 't Endpoint \<Rightarrow> 'v Response \<Rightarrow>
   'v payload option \<times> int \<times> httpHeader option \<times> goerr option" where
  "finalizeTypedMiddlewareResponse rf ep resp =
     (let headers = cloneHeaders (rs_headers resp) in
      if rs_Err resp \<noteq> None then (None, rs_HTTPStatus resp, headers, rs_Err resp)
      else case ep_ResponseType ep of
        None \<Rightarrow>
          (if rs_Payload resp \<noteq> None
           then (None, 500, headers, Some (bErr (bMsg (''invalid middleware: endpoint '' @ ep_Service ep @ ''.''
                   @ ep_Name ep @ '' cannot return a payload'') (bCode Internal B))))
           else (None, rs_HTTPStatus resp, headers, None))
      | Some t \<Rightarrow>
          (case rs_Payload resp of
             None \<Rightarrow> (None, rs_HTTPStatus resp, headers, None)
           | Some p \<Rightarrow>
             if \<not> assignable rf (typeOf rf p) t
             then (None, 500, headers, Some (bErr (bMsg (''invalid middleware: cannot return payload of type ''
                     @ typeString rf (typeOf rf p) @ '' for endpoint '' @ ep_Service ep @ ''.'' @ ep_Name ep
                     @ '' (expected '' @ typeString rf t @ '')'') (bCode Internal B))))
             else (Some p, rs_HTTPStatus resp, headers, None)))"

text \<open>
  A request carries a context, which a middleware may replace, also by nil.  The endpoint function
  and the mocked call (which goes through reflection) are arguments.
\<close>

definition typedLeaf ::
  "(string, 'm) gomap \<Rightarrow> 't Endpoint \<Rightarrow> ('m \<Rightarrow> 'c \<Rightarrow> ('v option \<times> goerr option) call) \<Rightarrow>
   ('c \<Rightarrow> ('v option \<times> goerr option) call) \<Rightarrow> 'c \<Rightarrow> 'c option \<Rightarrow> 'v Response call" where
  "typedLeaf mocks ep callTypedMock invoke background req =
     (let callCtx = (case req of None \<Rightarrow> background | Some c \<Rightarrow> c);
          result = (case lookupEndpointMock mocks ep of Some mock \<Rightarrow> callTypedMock mock callCtx | None \<Rightarrow> invoke callCtx)
      in case result of
           Panicked v \<Rightarrow> Panicked v
         | Returned (out, Some err) \<Rightarrow> Returned (errResponse err (int (HTTPStatus (Some err))))
         | Returned (out, None) \<Rightarrow> Returned (emptyResponse\<lparr>rs_Payload := map_option Value out\<rparr>))"

definition executeTypedEndpoint ::
  "(string, ('c option, 'v) Middleware) gomap \<Rightarrow> (string, 'm) gomap \<Rightarrow> ('v, 't) reflection \<Rightarrow> 't Endpoint \<Rightarrow>
   ('m \<Rightarrow> 'c \<Rightarrow> ('v option \<times> goerr option) call) \<Rightarrow> ('c \<Rightarrow> ('v option \<times> goerr option) call) \<Rightarrow> 'c \<Rightarrow> 'c option \<Rightarrow>
   ('v payload option \<times> int \<times> httpHeader option \<times> goerr option) call option" where
  "executeTypedEndpoint reg mocks rf ep callTypedMock invoke background ctx =
     (case runMiddlewareChain reg (ep_MiddlewareIDs ep) ctx (typedLeaf mocks ep callTypedMock invoke background) of
        None \<Rightarrow> None
      | Some (Panicked v, ev) \<Rightarrow> Some (Panicked v)
      | Some (Returned resp, ev) \<Rightarrow> Some (Returned (finalizeTypedMiddlewareResponse rf ep resp)))"

subsection \<open>Raw endpoints\<close>

text \<open>What a raw handler does with its response writer, in order.\<close>

datatype rawOp = OpSetHeader string "string list" | OpWriteHeader int | OpWrite string | OpFlush

record rawResponseCapture =
  cap_header :: httpHeader
  cap_body :: string
  cap_status :: int

definition newRawResponseCapture :: rawResponseCapture where
  "newRawResponseCapture = \<lparr>cap_header = [], cap_body = [], cap_status = 0\<rparr>"

definition capWrite :: "string \<Rightarrow> rawResponseCapture \<Rightarrow> rawResponseCapture" where
  "capWrite d r =
     (let r = (if cap_status r = 0 then r\<lparr>cap_status := 200\<rparr> else r) in r\<lparr>cap_body := cap_body r @ d\<rparr>)"

definition capWriteHeader :: "int \<Rightarrow> rawResponseCapture \<Rightarrow> rawResponseCapture" where
  "capWriteHeader status r = (if cap_status r = 0 then r\<lparr>cap_status := status\<rparr> else r)"

definition capStatusCode :: "rawResponseCapture \<Rightarrow> int" where
  "capStatusCode r = (if cap_status r = 0 then 200 else cap_status r)"

fun capOp :: "rawResponseCapture \<Rightarrow> rawOp \<Rightarrow> rawResponseCapture" where
  "capOp r (OpSetHeader k vs) = r\<lparr>cap_header := AList.update k vs (cap_header r)\<rparr>"
| "capOp r (OpWriteHeader st) = capWriteHeader st r"
| "capOp r (OpWrite d) = capWrite d r"
| "capOp r OpFlush = r"

text \<open>The streaming writer passes calls on to the underlying writer, whose calls are the list \<open>sw_out\<close>.\<close>

record rawStreamingResponseWriter =
  sw_status :: int
  sw_wroteHeader :: bool
  sw_out :: "rawOp list"

definition newRawStreamingResponseWriter :: rawStreamingResponseWriter where
  "newRawStreamingResponseWriter = \<lparr>sw_status = 0, sw_wroteHeader = False, sw_out = []\<rparr>"

definition swWriteHeader :: "int \<Rightarrow> rawStreamingResponseWriter \<Rightarrow> rawStreamingResponseWriter" where
  "swWriteHeader status r =
     (if sw_wroteHeader r then r
      else r\<lparr>sw_status := status, sw_wroteHeader := True, sw_out := sw_out r @ [OpWriteHeader status]\<rparr>)"

definition swWrite :: "string \<Rightarrow> rawStreamingResponseWriter \<Rightarrow> rawStreamingResponseWriter" where
  "swWrite d r =
     (let r = (if \<not> sw_wroteHeader r then swWriteHeader 200 r else r) in r\<lparr>sw_out := sw_out r @ [OpWrite d]\<rparr>)"

definition swFlush :: "rawStreamingResponseWriter \<Rightarrow> rawStreamingResponseWriter" where
  "swFlush r =
     (let r = (if \<not> sw_wroteHeader r then swWriteHeader 200 r else r) in r\<lparr>sw_out := sw_out r @ [OpFlush]\<rparr>)"

definition swStatusCode :: "rawStreamingResponseWriter \<Rightarrow> int" where
  "swStatusCode r = (if sw_status r = 0 then 200 else sw_status r)"

fun swOp :: "rawStreamingResponseWriter \<Rightarrow> rawOp \<Rightarrow> rawStreamingResponseWriter" where
  "swOp r (OpSetHeader k vs) = r\<lparr>sw_out := sw_out r @ [OpSetHeader k vs]\<rparr>"
| "swOp r (OpWriteHeader st) = swWriteHeader st r"
| "swOp r (OpWrite d) = swWrite d r"
| "swOp r OpFlush = swFlush r"

definition canStreamRawEndpoint :: "(string, 'm) gomap \<Rightarrow> 't Endpoint option \<Rightarrow> bool" where
  "canStreamRawEndpoint mocks epo =
     (case epo of None \<Rightarrow> False
      | Some ep \<Rightarrow> ep_MiddlewareIDs ep = [] \<and> lookupEndpointMock mocks ep = None)"

text \<open>A handler performs its operations and then returns or panics; a mock may also return an error.\<close>

type_synonym 'c rawHandler = "'c \<Rightarrow> rawOp list \<times> unit call"
type_synonym ('m, 'c) rawMock = "'m \<Rightarrow> 'c \<Rightarrow> rawOp list \<times> goerr option call"

definition executeStreamingRawEndpoint ::
  "'c rawHandler \<Rightarrow> 'c \<Rightarrow> rawStreamingResponseWriter \<Rightarrow> rawStreamingResponseWriter \<times> goerr option" where
  "executeStreamingRawEndpoint handler c w =
     (let (ops, result) = handler c; w = foldl swOp w ops
      in case result of
           Panicked v \<Rightarrow> (w, Some (bErr (bMsg (''panic handling request: '' @ v) (bCode Internal B))))
         | Returned _ \<Rightarrow> (w, None))"

definition captured :: "rawResponseCapture \<Rightarrow> 'v Response" where
  "captured cap =
     emptyResponse\<lparr>rs_HTTPStatus := capStatusCode cap, rs_headers := Some (copyHeaders [] (cap_header cap)),
                   rs_Payload := Some (RawMiddlewarePayload (cap_body cap))\<rparr>"

definition rawLeaf ::
  "(string, 'm) gomap \<Rightarrow> 't Endpoint \<Rightarrow> ('m, 'c) rawMock \<Rightarrow> 'c rawHandler \<Rightarrow> 'c \<Rightarrow> 'c option \<Rightarrow> 'v Response call" where
  "rawLeaf mocks ep callRawMock handler reqCtx mwReq =
     (let c = (case mwReq of None \<Rightarrow> reqCtx | Some c \<Rightarrow> c);
          (ops, result) = (case lookupEndpointMock mocks ep of
             Some mock \<Rightarrow> callRawMock mock c
           | None \<Rightarrow> (case handler c of (ops, Returned _) \<Rightarrow> (ops, Returned None) | (ops, Panicked v) \<Rightarrow> (ops, Panicked v)));
          cap = foldl capOp newRawResponseCapture ops
      in case result of
           Panicked v \<Rightarrow> Panicked v
         | Returned (Some err) \<Rightarrow> Returned (errResponse err (int (HTTPStatus (Some err))))
         | Returned None \<Rightarrow> Returned (captured cap))"

definition executeRawEndpoint ::
  "(string, ('c option, 'v) Middleware) gomap \<Rightarrow> (string, 'm) gomap \<Rightarrow> 't Endpoint \<Rightarrow> ('m, 'c) rawMock \<Rightarrow>
   'c rawHandler \<Rightarrow> 'c \<Rightarrow> (int \<times> httpHeader option \<times> string \<times> goerr option) call option" where
  "executeRawEndpoint reg mocks ep callRawMock handler reqCtx =
     (case runMiddlewareChain reg (ep_MiddlewareIDs ep) (Some reqCtx) (rawLeaf mocks ep callRawMock handler reqCtx) of
        None \<Rightarrow> None
      | Some (Panicked v, ev) \<Rightarrow> Some (Panicked v)
      | Some (Returned resp, ev) \<Rightarrow>
        (let headers = cloneHeaders (rs_headers resp) in
         if rs_Err resp \<noteq> None then Some (Returned (rs_HTTPStatus resp, headers, [], rs_Err resp))
         else let body = (case rs_Payload resp of
                    Some (RawMiddlewarePayload b) \<Rightarrow> b
                  | Some (RawMiddlewarePayloadPtr (Some b)) \<Rightarrow> b
                  | _ \<Rightarrow> [])
              in Some (Returned (rs_HTTPStatus resp, headers, body, None))))"

section \<open>The chain returns, and what it does on the way\<close>

text \<open>A property of chain states that \<open>next\<close> respects is respected by every middleware body.\<close>

lemma runProg_keeps:
  assumes nx: "\<And>q s r s'. nx q s = Some (r, s') \<Longrightarrow> R s \<Longrightarrow> R s'"
  shows "runProg nx p s = Some (o', s') \<Longrightarrow> R s \<Longrightarrow> R s'"
proof (induction p arbitrary: s)
  case (MwNext q k)
  from MwNext.prems(1) obtain r t where t: "nx q s = Some (r, t)" "runProg nx (k r) t = Some (o', s')"
    by (auto split: option.splits)
  with MwNext.IH [OF rangeI] nx [OF t(1) MwNext.prems(2)] show ?case by blast
qed auto

lemma runProg_total:
  assumes nx: "\<And>q s. c \<le> fst s \<Longrightarrow> \<exists>r s'. nx q s = Some (r, s') \<and> fst s \<le> fst s'"
  shows "c \<le> fst s \<Longrightarrow> \<exists>o' s'. runProg nx p s = Some (o', s') \<and> fst s \<le> fst s'"
proof (induction p arbitrary: s)
  case (MwNext q k)
  from nx [OF MwNext.prems] obtain r t where t: "nx q s = Some (r, t)" "fst s \<le> fst t" by blast
  with MwNext.IH [OF rangeI, of t r] MwNext.prems show ?case by fastforce
qed auto

lemma next_call_total:
  "0 < n \<Longrightarrow> length mws < fst s + n \<Longrightarrow> \<exists>r s'. next_call n mws leaf q s = Some (r, s') \<and> fst s \<le> fst s'"
proof (induction n arbitrary: q s)
  case (Suc n)
  obtain c ev where s: "s = (c, ev)" by (cases s)
  show ?case
  proof (cases "c < length mws")
    case True
    with Suc.prems s have n: "0 < n" by simp
    have "\<exists>r t'. next_call n mws leaf q t = Some (r, t') \<and> fst t \<le> fst t'" if "c + 1 \<le> fst t" for q t
      using Suc.IH [OF n, of t q] that Suc.prems s by simp
    from runProg_total [of "c + 1" "next_call n mws leaf", OF this, of "(c + 1, ev @ [MwEvent (mw_ID (mws ! c)) ''start'' None])" "mw_Invoke (mws ! c) q"]
    obtain o' s' where "runProg (next_call n mws leaf) (mw_Invoke (mws ! c) q)
        (c + 1, ev @ [MwEvent (mw_ID (mws ! c)) ''start'' None]) = Some (o', s')" "c + 1 \<le> fst s'"
      by auto
    with True s show ?thesis by (cases o'; cases s') (auto simp: Let_def)
  qed (auto simp: s Let_def split: call.split)
qed simp

text \<open>The order in which the middlewares and the endpoint start, read from the trace.\<close>

fun startMark :: "mwEvent \<Rightarrow> string option list" where
  "startMark LeafRun = [None]"
| "startMark (MwEvent i phase e) = (if phase = ''start'' then [Some i] else [])"

definition startMarks :: "mwEvent list \<Rightarrow> string option list" where
  "startMarks ev = concat (map startMark ev)"

lemma startMarks_append [simp]: "startMarks (xs @ ys) = startMarks xs @ startMarks ys"
  by (simp add: startMarks_def)

lemma startMarks_simps [simp]:
  "startMarks [] = []" "startMarks (e # es) = startMark e @ startMarks es"
  by (simp_all add: startMarks_def)

definition plan :: "('q, 'v) Middleware list \<Rightarrow> string option list" where
  "plan mws = map (Some \<circ> mw_ID) mws @ [None]"

definition inStep :: "('q, 'v) Middleware list \<Rightarrow> mwState \<Rightarrow> bool" where
  "inStep mws s = (startMarks (snd s) = take (fst s) (plan mws))"

lemma take_plan: "c < length mws \<Longrightarrow> take (Suc c) (plan mws) = take c (plan mws) @ [Some (mw_ID (mws ! c))]"
  "take (Suc (length mws)) (plan mws) = take (length mws) (plan mws) @ [None]"
  "length mws < c \<Longrightarrow> take (Suc c) (plan mws) = take c (plan mws)"
  by (simp_all add: plan_def take_Suc_conv_app_nth nth_append)

lemma next_call_inStep: "next_call n mws leaf q s = Some (r, s') \<Longrightarrow> inStep mws s \<Longrightarrow> inStep mws s'"
proof (induction n arbitrary: q s r s')
  case (Suc n)
  obtain c ev where s: "s = (c, ev)" by (cases s)
  consider "c < length mws" | "c = length mws" | "length mws < c" by linarith
  then show ?case
  proof cases
    case 1
    let ?t = "(Suc c, ev @ [MwEvent (mw_ID (mws ! c)) ''start'' None])"
    from Suc.prems(1) 1 s obtain o' t where t: "runProg (next_call n mws leaf) (mw_Invoke (mws ! c) q) ?t = Some (o', t)"
        "fst s' = fst t" "startMarks (snd s') = startMarks (snd t)"
      by (auto simp: Let_def split: option.splits call.splits)
    have "inStep mws ?t" using Suc.prems(2) 1 s by (simp add: inStep_def take_plan)
    then have "inStep mws t"
      by (rule runProg_keeps [where R = "inStep mws", OF _ t(1), rotated]) (rule Suc.IH)
    with t show ?thesis by (simp add: inStep_def)
  qed (use Suc.prems s in \<open>auto simp: Let_def inStep_def take_plan split: call.splits\<close>)
qed simp

text \<open>Every response of \<open>next\<close> that carries an error also carries a status.\<close>

lemma HTTPStatus_pos: "0 < HTTPStatus e"
  using statusOfCode_cases [of "Code e"] by (auto simp: HTTPStatus_def)

lemma fillStatus_idem: "fillStatus (fillStatus r) = fillStatus r"
  by (simp add: fillStatus_def)

lemma fillStatus_status: "rs_Err (fillStatus r) \<noteq> None \<Longrightarrow> rs_HTTPStatus (fillStatus r) \<noteq> 0"
  using HTTPStatus_pos [of "rs_Err r"] by (auto simp: fillStatus_def)

lemma next_call_filled: "next_call n mws leaf q s = Some (r, s') \<Longrightarrow> fillStatus r = r"
  by (cases "(n, mws, leaf, q, s)" rule: next_call.cases)
    (auto simp: Let_def fillStatus_idem split: if_splits option.splits call.splits)

lemma getMiddlewares_ids: "getMiddlewares reg ids = Inr mws \<Longrightarrow> length mws = length ids"
proof (induction ids arbitrary: mws)
  case (Cons i ids)
  then show ?case by (cases "getMiddlewares reg ids") (auto split: option.splits)
qed auto

lemma chainFuel_pos: "0 < chainFuel mws" "length mws < chainFuel mws"
  by (simp_all add: chainFuel_def)

lemma chain_cases:
  assumes "ids \<noteq> []"
  obtains (unregistered) err where "getMiddlewares reg ids = Inl err"
      "runMiddlewareChain reg ids req leaf = Some (Returned (errResponse err (int (HTTPStatus (Some err)))), [])"
  | (ran) mws r c ev where "getMiddlewares reg ids = Inr mws" "mws \<noteq> []" "inStep mws (c, ev)" "fillStatus r = r"
      "next_call (chainFuel mws) mws leaf req (0, []) = Some (r, (c, ev))"
      "runMiddlewareChain reg ids req leaf = Some (Returned r, ev)"
proof (cases "getMiddlewares reg ids")
  case (Inl err)
  then show ?thesis by (intro unregistered) (auto simp: runMiddlewareChain_def)
next
  case (Inr mws)
  with assms have ne: "mws \<noteq> []" using getMiddlewares_ids by fastforce
  obtain r s where rs: "next_call (chainFuel mws) mws leaf req (0, []) = Some (r, s)"
    using next_call_total [of "chainFuel mws" mws "(0, [])" leaf req] by (auto simp: chainFuel_pos)
  obtain c ev where s: "s = (c, ev)" by (cases s)
  have "inStep mws (c, ev)"
    using next_call_inStep [OF rs] s by (simp add: inStep_def)
  then show ?thesis
    using Inr ne rs s by (intro ran [OF Inr ne]) (auto simp: runMiddlewareChain_def intro: next_call_filled)
qed

subsection \<open>Properties\<close>

text \<open>
  (C19) A request through at least one middleware is always answered.  Whatever the middlewares and the
  endpoint do (panic, call \<open>next\<close> any number of times, not call it), the chain ends, no panic escapes
  from it, and a response with an error has an HTTP status.
\<close>

theorem chain_answers:
  assumes "ids \<noteq> []"
  shows "\<exists>resp ev. runMiddlewareChain reg ids req leaf = Some (Returned resp, ev)
           \<and> (rs_Err resp \<noteq> None \<longrightarrow> rs_HTTPStatus resp \<noteq> 0)"
  using assms
proof (cases rule: chain_cases [where reg = reg and req = req and leaf = leaf])
  case (unregistered err)
  then show ?thesis using HTTPStatus_pos [of "Some err"] by (simp add: errResponse_def)
next
  case (ran mws r c ev)
  then show ?thesis using fillStatus_status [of r] by auto
qed

theorem chain_answers_witness:
  "\<exists>resp ev. runMiddlewareChain [(''m'', \<lparr>mw_ID = ''m'', mw_Invoke = \<lambda>q. MwPanic ''boom''\<rparr>)] [''m''] (0 :: nat)
       (\<lambda>q. Panicked ''never'' :: nat Response call) = Some (Returned resp, ev)"
  using chain_answers [of "[''m'']" "[(''m'', \<lparr>mw_ID = ''m'', mw_Invoke = \<lambda>q. MwPanic ''boom''\<rparr>)]" 0
      "\<lambda>q. Panicked ''never''"] by blast

text \<open>
  Middlewares start in the declared order, each at most once, and the endpoint runs at most once
  and only after all of them have started: the starts recorded in the trace are a prefix of
  the declared middlewares followed by the endpoint.  So no middleware is ever left out on the way to
  the endpoint, and no retry runs the endpoint a second time.
\<close>

lemma chain_order:
  assumes "getMiddlewares reg ids = Inr mws" "runMiddlewareChain reg ids req leaf = Some (r, ev)"
  shows "\<exists>n. startMarks ev = take n (map (Some \<circ> mw_ID) mws @ [None])"
proof (cases "ids = []")
  case True
  with assms have "startMarks ev = take 1 (map (Some \<circ> mw_ID) mws @ [None])"
    by (auto simp: runMiddlewareChain_def)
  then show ?thesis ..
next
  case False
  then show ?thesis
    using assms
    by (cases rule: chain_cases [where reg = reg and req = req and leaf = leaf])
      (auto simp: inStep_def plan_def)
qed

lemma chain_order_witness:
  "\<exists>n. startMarks [MwEvent ''a'' ''start'' None, MwEvent ''a'' ''end'' None]
       = take n (map (Some \<circ> mw_ID) [\<lparr>mw_ID = ''a'', mw_Invoke = \<lambda>q. MwReturn emptyResponse\<rparr> :: (nat, nat) Middleware] @ [None])"
  by (rule chain_order [where reg = "[(''a'', \<lparr>mw_ID = ''a'', mw_Invoke = \<lambda>q. MwReturn emptyResponse\<rparr>)]" and ids = "[''a'']"
        and req = 0 and leaf = "\<lambda>q. Panicked []" and r = "Returned emptyResponse"])
    (simp_all add: runMiddlewareChain_def chainFuel_def Let_def fillStatus_def emptyResponse_def)

subsection \<open>The chain as function composition\<close>

text \<open>
  The specification of a chain of well-behaved middlewares: each wraps the handler made of the rest.
\<close>

primrec runPure :: "('q \<Rightarrow> 'v Response) \<Rightarrow> ('q, 'v) mwprog \<Rightarrow> 'v Response call" where
  "runPure nx (MwReturn r) = Returned r"
| "runPure nx (MwPanic v) = Panicked v"
| "runPure nx (MwNext q k) = runPure nx (k (nx q))"

fun compose :: "('q, 'v) Middleware list \<Rightarrow> ('q \<Rightarrow> 'v Response call) \<Rightarrow> 'q \<Rightarrow> 'v Response" where
  "compose [] leaf q = fillStatus (case leaf q of Returned r \<Rightarrow> r | Panicked v \<Rightarrow> leafPanicResponse v)"
| "compose (mw # mws) leaf q =
     fillStatus (case runPure (compose mws leaf) (mw_Invoke mw q) of
                   Returned r \<Rightarrow> r | Panicked v \<Rightarrow> mwPanicResponse (mw_ID mw) v)"

text \<open>A body that calls \<open>next\<close> at most once, whatever it gets back.\<close>

primrec callFree :: "('q, 'v) mwprog \<Rightarrow> bool" where
  "callFree (MwReturn r) = True"
| "callFree (MwPanic v) = True"
| "callFree (MwNext q k) = False"

primrec nextOnce :: "('q, 'v) mwprog \<Rightarrow> bool" where
  "nextOnce (MwReturn r) = True"
| "nextOnce (MwPanic v) = True"
| "nextOnce (MwNext q k) = (\<forall>r. callFree (k r))"

lemma runProg_callFree: "callFree p \<Longrightarrow> runProg nx p s = Some (runPure g p, s)"
  by (cases p) auto

lemma runProg_once:
  assumes "nextOnce p" "\<And>q. \<exists>s'. nx q s = Some (g q, s')"
  shows "\<exists>s'. runProg nx p s = Some (runPure g p, s')"
proof (cases p)
  case (MwNext q k)
  from assms(2) [of q] obtain s' where "nx q s = Some (g q, s')" by blast
  with MwNext assms(1) show ?thesis by (simp add: runProg_callFree [where g = g])
qed simp_all

lemma next_call_compose:
  assumes "\<And>mw q. mw \<in> set mws \<Longrightarrow> nextOnce (mw_Invoke mw q)"
  shows "c \<le> length mws \<Longrightarrow> length mws < c + n \<Longrightarrow>
    \<exists>s'. next_call n mws leaf q (c, ev) = Some (compose (drop c mws) leaf q, s')"
proof (induction n arbitrary: q c ev)
  case (Suc n)
  show ?case
  proof (cases "c = length mws")
    case True
    then show ?thesis by (auto simp: Let_def split: call.splits)
  next
    case False
    let ?t = "(Suc c, ev @ [MwEvent (mw_ID (mws ! c)) ''start'' None])"
    from False Suc.prems have c: "c < length mws" by simp
    have d: "drop c mws = mws ! c # drop (Suc c) mws" using c by (simp add: Cons_nth_drop_Suc)
    have "\<exists>s'. runProg (next_call n mws leaf) (mw_Invoke (mws ! c) q) ?t
        = Some (runPure (compose (drop (Suc c) mws) leaf) (mw_Invoke (mws ! c) q), s')"
      using c Suc.prems by (intro runProg_once assms nth_mem Suc.IH) auto
    with c show ?thesis unfolding d by (auto simp: Let_def split: call.splits)
  qed
qed simp

text \<open>
  (C4) When no middleware calls \<open>next\<close> more than once, the counter-driven chain computes the
  composition of the middlewares around the endpoint: the first declared is the outermost, each sees the response of
  the rest with its status filled in, a panic in one of them becomes the response its caller sees.
\<close>

theorem chain_composes:
  assumes "getMiddlewares reg ids = Inr mws" "mws \<noteq> []"
    and "\<forall>mw \<in> set mws. \<forall>q. nextOnce (mw_Invoke mw q)"
  shows "\<exists>ev. runMiddlewareChain reg ids req leaf = Some (Returned (compose mws leaf req), ev)"
  using next_call_compose [of mws 0 "chainFuel mws" leaf req "[]"] assms
  by (auto simp: runMiddlewareChain_def chainFuel_pos)

definition addStatus :: "int \<Rightarrow> (nat, nat) Middleware" where
  "addStatus n = \<lparr>mw_ID = itoa n, mw_Invoke = \<lambda>q. MwNext (q + 1) (\<lambda>r. MwReturn (r\<lparr>rs_HTTPStatus := rs_HTTPStatus r + n\<rparr>))\<rparr>"

theorem chain_composes_witness:
  "\<exists>ev. runMiddlewareChain [(''a'', addStatus 2), (''b'', addStatus 3)] [''b'', ''a''] 0
      (\<lambda>q. Returned (emptyResponse\<lparr>rs_HTTPStatus := 200 + int q\<rparr>))
    = Some (Returned (compose [addStatus 3, addStatus 2] (\<lambda>q. Returned (emptyResponse\<lparr>rs_HTTPStatus := 200 + int q\<rparr>)) 0), ev)"
  by (rule chain_composes) (simp_all add: addStatus_def)

text \<open>
  The position in the chain is a counter shared by all calls of \<open>next\<close>, so a middleware that calls
  \<open>next\<close> again does not run the rest of the chain again.  When the inner middleware answered without
  calling \<open>next\<close> (it rejected the request, say), a second call by the outer one skips it and reaches the
  endpoint.
\<close>

lemma second_next_skips_inner:
  assumes "getMiddlewares reg [a, b] = Inr [outer, inner]"
    and "mw_Invoke outer req = MwNext req (\<lambda>_. MwNext req MwReturn)"
    and "mw_Invoke inner req = MwReturn rejected"
    and "leaf req = Returned secret"
  shows "\<exists>ev. runMiddlewareChain reg [a, b] req leaf = Some (Returned (fillStatus (fillStatus secret)), ev) \<and> LeafRun \<in> set ev"
  using assms by (simp add: runMiddlewareChain_def chainFuel_def Let_def)

lemma second_next_skips_inner_witness:
  "\<exists>ev. runMiddlewareChain
      [(''retry'', \<lparr>mw_ID = ''retry'', mw_Invoke = \<lambda>q. MwNext q (\<lambda>_. MwNext q MwReturn)\<rparr>),
       (''auth'', \<lparr>mw_ID = ''auth'', mw_Invoke = \<lambda>q. MwReturn (errResponse (bErr (bCode PermissionDenied B)) 403)\<rparr>)]
      [''retry'', ''auth''] (0 :: nat) (\<lambda>q. Returned (emptyResponse\<lparr>rs_Payload := Some (Value (7 :: nat))\<rparr>))
    = Some (Returned (fillStatus (fillStatus (emptyResponse\<lparr>rs_Payload := Some (Value 7)\<rparr>))), ev) \<and> LeafRun \<in> set ev"
  by (rule second_next_skips_inner, simp) simp_all

subsection \<open>Raw writers and headers\<close>

text \<open>The status and the body that the calls on the underlying writer amount to.\<close>

definition sentBody :: "rawOp list \<Rightarrow> string" where
  "sentBody ops = concat (map (\<lambda>op. case op of OpWrite d \<Rightarrow> d | _ \<Rightarrow> []) ops)"

definition plainOp :: "rawOp \<Rightarrow> bool" where
  "plainOp op = (op \<noteq> OpFlush \<and> op \<noteq> OpWriteHeader 0)"

text \<open>Agreement of the two writers after the same operations.\<close>

definition agree :: "rawResponseCapture \<Rightarrow> rawStreamingResponseWriter \<Rightarrow> bool" where
  "agree cap sw =
     (cap_status cap = sw_status sw \<and> cap_body cap = sentBody (sw_out sw) \<and> (sw_wroteHeader sw \<longleftrightarrow> sw_status sw \<noteq> 0))"

lemma sentBody_simps [simp]: "sentBody [] = []" "sentBody (xs @ ys) = sentBody xs @ sentBody ys"
  "sentBody [OpWrite d] = d" "sentBody [OpWriteHeader st] = []" "sentBody [OpSetHeader k vs] = []" "sentBody [OpFlush] = []"
  by (simp_all add: sentBody_def)

lemma agree_op [keeps]: "agree cap sw \<Longrightarrow> plainOp op \<Longrightarrow> agree (capOp cap op) (swOp sw op)"
  by (cases op) (auto simp: agree_def plainOp_def capWrite_def swWrite_def capWriteHeader_def swWriteHeader_def Let_def)

lemma agree_ops: "agree cap sw \<Longrightarrow> list_all plainOp ops \<Longrightarrow> agree (foldl capOp cap ops) (foldl swOp sw ops)"
  by (induction ops arbitrary: cap sw) (auto simp: agree_op)

text \<open>
  A raw endpoint answers the same way whether its response is captured for the middlewares or
  streamed: after the same handler calls (no flush, no zero status) both writers report the same
  status and hold the same body bytes.
\<close>

lemma raw_writers_agree:
  assumes "list_all plainOp ops"
  shows "capStatusCode (foldl capOp newRawResponseCapture ops) = swStatusCode (foldl swOp newRawStreamingResponseWriter ops)
         \<and> cap_body (foldl capOp newRawResponseCapture ops) = sentBody (sw_out (foldl swOp newRawStreamingResponseWriter ops))"
  using agree_ops [OF _ assms, of newRawResponseCapture newRawStreamingResponseWriter]
  by (simp add: agree_def newRawResponseCapture_def newRawStreamingResponseWriter_def capStatusCode_def swStatusCode_def)

lemma raw_writers_agree_witness:
  "capStatusCode (foldl capOp newRawResponseCapture [OpWrite ''a'', OpWriteHeader 404, OpWrite ''b''])
     = swStatusCode (foldl swOp newRawStreamingResponseWriter [OpWrite ''a'', OpWriteHeader 404, OpWrite ''b''])
   \<and> cap_body (foldl capOp newRawResponseCapture [OpWrite ''a'', OpWriteHeader 404, OpWrite ''b''])
     = sentBody (sw_out (foldl swOp newRawStreamingResponseWriter [OpWrite ''a'', OpWriteHeader 404, OpWrite ''b'']))"
  by (rule raw_writers_agree) (simp add: plainOp_def)

lemma map_of_copyHeaders:
  "distinct (map fst src) \<Longrightarrow> map_of (copyHeaders dst src) k = (case map_of src k of Some vs \<Rightarrow> Some vs | None \<Rightarrow> map_of dst k)"
proof (induction src arbitrary: dst)
  case (Cons x src)
  obtain a b where x: "x = (a, b)" by (cases x)
  with Cons.prems have "map_of src a = None" by (simp add: map_of_eq_None_iff)
  with Cons x show ?case
    by (auto simp: copyHeaders_def update_conv split: option.split)
qed (simp add: copyHeaders_def)

lemma map_of_deletes:
  "map_of (foldl (\<lambda>d (k, vs). AList.delete (f k) d) dst src) k = (if k \<in> f ` fst ` set src then None else map_of dst k)"
  by (induction src arbitrary: dst) (auto simp: delete_conv)

text \<open>
  Applying a response's headers replaces the values of exactly its keys.  Each key of the response ends
  up with the response's values (never merged with old ones), a canonical spelling of such a key set
  before is gone unless the response sets it too, and all other headers stay, whatever the iteration
  order of the map.
\<close>

lemma apply_headers_lookup:
  assumes "distinct (map fst src)"
  shows "map_of (applyHeaders dst src) k =
           (if k \<in> fst ` set src then map_of src k
            else if k \<in> canonicalHeaderKey ` fst ` set src then None else map_of dst k)"
proof (cases "map_of src k")
  case None
  then have "k \<notin> fst ` set src" by (simp add: map_of_eq_None_iff)
  with None show ?thesis by (simp add: applyHeaders_def map_of_copyHeaders [OF assms] map_of_deletes)
next
  case (Some vs)
  then have "k \<in> fst ` set src" using map_of_SomeD by force
  with Some show ?thesis by (simp add: applyHeaders_def map_of_copyHeaders [OF assms])
qed

lemma apply_headers_lookup_witness:
  "map_of (applyHeaders [(''X-A'', [''1'']), (''X-B'', [''2''])] [(''x-a'', [''9''])]) ''X-A'' = None"
  using apply_headers_lookup [of "[(''x-a'', [''9''])]" "[(''X-A'', [''1'']), (''X-B'', [''2''])]" "''X-A''"]
  by code_simp

end
