(* ===== verification/Router.thy ===== *)
theory Router
  imports Errs "HOL-Library.Multiset"
begin

text \<open>
  The route table of \<open>runtime/router.go\<close>, which dispatches every HTTP request of an app: patterns
  and their matching, the specificity order, registration (\<open>Handle\<close>) and dispatch (\<open>ServeHTTP\<close>),
  with \<open>expandMethods\<close> of \<open>runtime/server.go\<close>.  A handler is a value of a type variable; what
  \<open>ServeHTTP\<close> does is a value of the type \<open>served\<close>.
\<close>

section \<open>Definitions\<close>

subsection \<open>Patterns\<close>

datatype routeSegmentKind = routeLiteral | routeParam | routeWildcard

record routeSegment =
  seg_kind :: routeSegmentKind
  seg_value :: string

record routePattern =
  pat_raw :: string
  pat_segments :: "routeSegment list"
  pat_literals :: nat
  pat_hasParam :: bool
  pat_hasWildcard :: bool

type_synonym routeParams = "(string \<times> string) list"

fun ByName :: "routeParams \<Rightarrow> string \<Rightarrow> string" where
  "ByName [] name = []"
| "ByName ((k, v) # ps) name = (if k = name then v else ByName ps name)"

definition splitRoutePath :: "string \<Rightarrow> string list" where
  "splitRoutePath path =
     (let path = trimSet ''/'' path in if path = [] then [] else splitOn CHR ''/'' path)"

definition addSegment :: "routePattern \<Rightarrow> string \<Rightarrow> routePattern" where
  "addSegment p segment =
     (if hasPrefix '':'' segment
      then p\<lparr>pat_segments := pat_segments p @ [\<lparr>seg_kind = routeParam, seg_value = tl segment\<rparr>],
             pat_hasParam := True\<rparr>
      else if hasPrefix ''*'' segment
      then p\<lparr>pat_segments := pat_segments p @ [\<lparr>seg_kind = routeWildcard, seg_value = tl segment\<rparr>],
             pat_hasWildcard := True\<rparr>
      else p\<lparr>pat_segments := pat_segments p @ [\<lparr>seg_kind = routeLiteral, seg_value = segment\<rparr>],
             pat_literals := pat_literals p + 1\<rparr>)"

definition parseRoutePattern :: "string \<Rightarrow> routePattern" where
  "parseRoutePattern path =
     foldl addSegment
       \<lparr>pat_raw = path, pat_segments = [], pat_literals = 0, pat_hasParam = False, pat_hasWildcard = False\<rparr>
       (splitRoutePath path)"

text \<open>The loop of \<open>match\<close>: pattern segments from \<open>i\<close> on against request segments from \<open>j\<close> on.\<close>

fun matchLoop :: "routeParams \<Rightarrow> routeSegment list \<Rightarrow> string list \<Rightarrow> routeParams option" where
  "matchLoop params [] req = (if req = [] then Some params else None)"
| "matchLoop params (seg # segs) req =
     (case seg_kind seg of
        routeLiteral \<Rightarrow> (case req of [] \<Rightarrow> None
          | r # rs \<Rightarrow> if r \<noteq> seg_value seg then None else matchLoop params segs rs)
      | routeParam \<Rightarrow> (case req of [] \<Rightarrow> None
          | r # rs \<Rightarrow> matchLoop (params @ [(seg_value seg, r)]) segs rs)
      | routeWildcard \<Rightarrow> Some (params @ [(seg_value seg, joinWith ''/'' req)]))"

definition patternMatch :: "routePattern \<Rightarrow> string \<Rightarrow> routeParams option" where
  "patternMatch p path = matchLoop [] (pat_segments p) (splitRoutePath path)"

subsection \<open>Routes\<close>

record 'h route =
  rt_methods :: "string list"
  rt_pattern :: routePattern
  rt_handler :: 'h

record 'h routeTable =
  tab_routes :: "'h route list"
  tab_exact :: "(string, 'h route list) gomap"
  tab_NotFound :: bool
  tab_GlobalOPTIONS :: bool

definition compareRoutes :: "'h route \<Rightarrow> 'h route \<Rightarrow> int" where
  "compareRoutes a b =
     (if pat_literals (rt_pattern a) > pat_literals (rt_pattern b) then -1
      else if pat_literals (rt_pattern a) < pat_literals (rt_pattern b) then 1
      else if pat_hasWildcard (rt_pattern a) \<noteq> pat_hasWildcard (rt_pattern b)
      then (if pat_hasWildcard (rt_pattern a) then 1 else -1)
      else if length (pat_segments (rt_pattern a)) > length (pat_segments (rt_pattern b)) then -1
      else if length (pat_segments (rt_pattern a)) < length (pat_segments (rt_pattern b)) then 1
      else 0)"

text \<open>\<open>slices.SortStableFunc\<close>: stable sorting by a three-way comparison.\<close>

fun insertStable :: "('a \<Rightarrow> 'a \<Rightarrow> int) \<Rightarrow> 'a \<Rightarrow> 'a list \<Rightarrow> 'a list" where
  "insertStable cmp x [] = [x]"
| "insertStable cmp x (y # ys) = (if cmp y x < 0 then y # insertStable cmp x ys else x # y # ys)"

definition sortStable :: "('a \<Rightarrow> 'a \<Rightarrow> int) \<Rightarrow> 'a list \<Rightarrow> 'a list" where
  "sortStable cmp xs = foldr (insertStable cmp) xs []"

definition expandMethods :: "string list \<Rightarrow> string list" where
  "expandMethods methods =
     concat (map (\<lambda>m. if m = ''*''
       then [''GET'', ''POST'', ''PUT'', ''PATCH'', ''DELETE'', ''HEAD'', ''OPTIONS''] else [toUpper m]) methods)"

definition newRouteTable :: "'h routeTable" where
  "newRouteTable = \<lparr>tab_routes = [], tab_exact = [], tab_NotFound = False, tab_GlobalOPTIONS = False\<rparr>"

definition newRoute :: "string list \<Rightarrow> string \<Rightarrow> 'h \<Rightarrow> 'h route" where
  "newRoute methods path handler =
     \<lparr>rt_methods = expandMethods methods, rt_pattern = parseRoutePattern path, rt_handler = handler\<rparr>"

definition Handle :: "'h routeTable \<Rightarrow> string list \<Rightarrow> string \<Rightarrow> 'h \<Rightarrow> 'h routeTable" where
  "Handle r methods path handler =
     (let pattern = parseRoutePattern path;
          item = newRoute methods path handler;
          r = r\<lparr>tab_routes := tab_routes r @ [item]\<rparr>;
          r = (if \<not> pat_hasParam pattern \<and> \<not> pat_hasWildcard pattern
               then r\<lparr>tab_exact := AList.update (pat_raw pattern)
                        ((case map_of (tab_exact r) (pat_raw pattern) of None \<Rightarrow> [] | Some l \<Rightarrow> l) @ [item])
                        (tab_exact r)\<rparr>
               else r)
      in r\<lparr>tab_routes := sortStable compareRoutes (tab_routes r)\<rparr>)"

subsection \<open>Dispatch\<close>

definition matchingRoutes :: "'h routeTable \<Rightarrow> string \<Rightarrow> ('h route \<times> routeParams) list" where
  "matchingRoutes r path =
     List.map_filter (\<lambda>candidate. map_option (\<lambda>ps. (candidate, ps)) (patternMatch (rt_pattern candidate) path))
       (tab_routes r)"

fun appendAllowedMethod :: "string list \<Rightarrow> string list \<Rightarrow> string list" where
  "appendAllowedMethod methods [] = methods"
| "appendAllowedMethod methods (m # ms) =
     (if m \<in> set methods then appendAllowedMethod methods ms
      else let methods = methods @ [m];
               methods = (if m = ''GET'' \<and> ''HEAD'' \<notin> set methods then methods @ [''HEAD''] else methods)
           in appendAllowedMethod methods ms)"

definition expandedAllowedMethods :: "'h route list \<Rightarrow> string list" where
  "expandedAllowedMethods routes = sort (foldl (\<lambda>ms r. appendAllowedMethod ms (rt_methods r)) [] routes)"

definition allowedMethods :: "('h route \<times> routeParams) list \<Rightarrow> bool \<Rightarrow> string list" where
  "allowedMethods ms includeOptions =
     (let methods = foldl (\<lambda>acc m. appendAllowedMethod acc (rt_methods (fst m))) [] ms;
          methods = (if includeOptions \<and> ''OPTIONS'' \<notin> set methods then methods @ [''OPTIONS''] else methods)
      in sort methods)"

definition routeAllowsMethod :: "string list \<Rightarrow> string \<Rightarrow> bool" where
  "routeAllowsMethod methods m = (m \<in> set methods \<or> (m = ''HEAD'' \<and> ''GET'' \<in> set methods))"

datatype 'h served =
    Dispatched "'h route" routeParams string
  | GlobalOptions string
  | MethodNotAllowed string
  | NotFoundHandler
  | DefaultNotFound

definition serveNotFound :: "'h routeTable \<Rightarrow> 'h served" where
  "serveNotFound r = (if tab_NotFound r then NotFoundHandler else DefaultNotFound)"

definition ServeHTTP :: "'h routeTable \<Rightarrow> string \<Rightarrow> string \<Rightarrow> 'h served" where
  "ServeHTTP r m path =
     (let exact = (if m \<noteq> ''OPTIONS''
                   then (case map_of (tab_exact r) path of None \<Rightarrow> [] | Some l \<Rightarrow> l) else [])
      in case find (\<lambda>rt. routeAllowsMethod (rt_methods rt) m) exact of
           Some rt \<Rightarrow> Dispatched rt [] (joinWith '', '' (expandedAllowedMethods exact))
         | None \<Rightarrow>
           (let pathMatches = matchingRoutes r path
            in if pathMatches = [] then serveNotFound r
               else let allow = joinWith '', '' (allowedMethods pathMatches (tab_GlobalOPTIONS r))
                    in if m = ''OPTIONS'' \<and> tab_GlobalOPTIONS r then GlobalOptions allow
                       else (case find (\<lambda>mt. routeAllowsMethod (rt_methods (fst mt)) m) pathMatches of
                               Some mt \<Rightarrow> Dispatched (fst mt) (snd mt) allow
                             | None \<Rightarrow> MethodNotAllowed allow)))"

text \<open>Registering a list of routes, in order.\<close>

definition registerAll :: "'h routeTable \<Rightarrow> (string list \<times> string \<times> 'h) list \<Rightarrow> 'h routeTable" where
  "registerAll = foldl (\<lambda>t (ms, p, h). Handle t ms p h)"

section \<open>Stable sorting by a comparison\<close>

lemma find_split: "find P l = Some x \<Longrightarrow> \<exists>us vs. l = us @ x # vs \<and> (\<forall>u \<in> set us. \<not> P u)"
proof (induction l)
  case (Cons a l)
  show ?case
  proof (cases "P a")
    case True
    with Cons.prems show ?thesis by (auto intro: exI [of _ "[]"])
  next
    case False
    with Cons obtain us vs where "l = us @ x # vs" "\<forall>u \<in> set us. \<not> P u" by auto
    with False have "a # l = (a # us) @ x # vs \<and> (\<forall>u \<in> set (a # us). \<not> P u)" by simp
    then show ?thesis by blast
  qed
qed simp

text \<open>What \<open>slices.SortStableFunc\<close> asks of its comparison, and what it then promises.\<close>

locale comparison =
  fixes cmp :: "'a \<Rightarrow> 'a \<Rightarrow> int"
  assumes cmp_flip: "cmp y x < 0 \<longleftrightarrow> 0 < cmp x y"
    and cmp_trans: "cmp x y \<le> 0 \<Longrightarrow> cmp y z \<le> 0 \<Longrightarrow> cmp x z \<le> 0"
begin

lemma cmp_total: "\<not> cmp y x < 0 \<longleftrightarrow> cmp x y \<le> 0"
  using cmp_flip [of y x] by linarith

lemma mset_insertStable: "mset (insertStable cmp x ys) = add_mset x (mset ys)"
  by (induction ys) auto

lemma mset_sortStable: "mset (sortStable cmp xs) = mset xs"
  by (induction xs) (auto simp: sortStable_def mset_insertStable)

lemma set_sortStable: "set (sortStable cmp xs) = set xs"
  by (metis mset_sortStable set_mset_mset)

lemma sorted_insertStable:
  "sorted_wrt (\<lambda>x y. cmp x y \<le> 0) ys \<Longrightarrow> sorted_wrt (\<lambda>x y. cmp x y \<le> 0) (insertStable cmp x ys)"
proof (induction ys)
  case (Cons y ys)
  have "set (insertStable cmp x ys) = insert x (set ys)"
    by (metis mset_insertStable set_mset_add_mset_insert set_mset_mset)
  with Cons show ?case using cmp_total [of y x] by (auto intro: cmp_trans)
qed simp

lemma sorted_sortStable: "sorted_wrt (\<lambda>x y. cmp x y \<le> 0) (sortStable cmp xs)"
  by (induction xs) (auto simp: sortStable_def sorted_insertStable)

lemma stable_insertStable:
  "filter (\<lambda>y. cmp z y = 0) (insertStable cmp x ys)
    = (if cmp z x = 0 then x # filter (\<lambda>y. cmp z y = 0) ys else filter (\<lambda>y. cmp z y = 0) ys)"
proof (induction ys)
  case (Cons y ys)
  have "\<not> cmp y x < 0" if "cmp z x = 0" "cmp z y = 0"
    using that cmp_flip [of z x] cmp_flip [of z y] cmp_flip [of x z] cmp_flip [of y z] cmp_trans [of x z y] cmp_total [of y x]
    by auto
  with Cons show ?case by auto
qed simp

lemma stable_sortStable: "filter (\<lambda>y. cmp z y = 0) (sortStable cmp xs) = filter (\<lambda>y. cmp z y = 0) xs"
  by (induction xs) (auto simp: sortStable_def stable_insertStable)

lemma find_sorted:
  assumes "sorted_wrt (\<lambda>x y. cmp x y \<le> 0) xs" "find P xs = Some x" "y \<in> set xs" "P y"
  shows "cmp x y \<le> 0"
proof -
  obtain us vs where s: "xs = us @ x # vs" "\<forall>u \<in> set us. \<not> P u"
    using find_split [OF assms(2)] by blast
  with assms(3, 4) have "y = x \<or> y \<in> set vs" by auto
  moreover have "cmp x x \<le> 0" using cmp_flip [of x x] by linarith
  ultimately show ?thesis
    using assms(1) unfolding s(1) by (auto simp: sorted_wrt_append)
qed

end

interpretation specificity: comparison compareRoutes
  by unfold_locales (auto simp: compareRoutes_def split: if_splits)

section \<open>Matching\<close>

text \<open>The request segments that a pattern stands for, its parameters read from the front.\<close>

fun fill :: "routeSegment list \<Rightarrow> routeParams \<Rightarrow> string list" where
  "fill [] ps = []"
| "fill (seg # segs) ps =
     (case seg_kind seg of
        routeLiteral \<Rightarrow> seg_value seg # fill segs ps
      | routeParam \<Rightarrow> snd (hd ps) # fill segs (tl ps)
      | routeWildcard \<Rightarrow> (if snd (hd ps) = [] then [] else splitOn CHR ''/'' (snd (hd ps))))"

definition isExact :: "routePattern \<Rightarrow> bool" where
  "isExact p = (\<not> pat_hasParam p \<and> \<not> pat_hasWildcard p)"

text \<open>A wildcard, when there is one, is the last segment of the pattern.\<close>

definition wildcardLast :: "routePattern \<Rightarrow> bool" where
  "wildcardLast p = (\<forall>seg \<in> set (butlast (pat_segments p)). seg_kind seg \<noteq> routeWildcard)"

definition requestOK :: "string list \<Rightarrow> bool" where
  "requestOK req = ((\<forall>w \<in> set req. CHR ''/'' \<notin> set w) \<and> (req = [] \<or> last req \<noteq> []))"

lemma requestOK_tl: "requestOK (r # rs) \<Longrightarrow> requestOK rs"
  by (auto simp: requestOK_def split: if_splits)

lemma splitOn_join_request:
  assumes "requestOK req"
  shows "(if joinWith ''/'' req = [] then [] else splitOn CHR ''/'' (joinWith ''/'' req)) = req"
proof (cases "req = []")
  case False
  with assms have "joinWith ''/'' req \<noteq> []"
    by (cases req; cases "tl req") (auto simp: requestOK_def)
  with False assms show ?thesis by (simp add: requestOK_def splitOn_joinWith)
qed simp

lemma matchLoop_fill:
  assumes "matchLoop params segs req = Some qs" "requestOK req"
  shows "\<exists>ps. qs = params @ ps \<and> fill segs ps = req"
  using assms
proof (induction params segs req rule: matchLoop.induct)
  case (2 params seg segs req)
  show ?case
  proof (cases "seg_kind seg")
    case routeLiteral
    with "2.prems" obtain rs where r: "req = seg_value seg # rs" "matchLoop params segs rs = Some qs" "requestOK rs"
      by (auto split: list.splits if_splits dest: requestOK_tl)
    with "2.IH"(1) routeLiteral show ?thesis by auto
  next
    case routeParam
    with "2.prems" obtain r rs where r: "req = r # rs"
        "matchLoop (params @ [(seg_value seg, r)]) segs rs = Some qs" "requestOK rs"
      by (auto split: list.splits dest: requestOK_tl)
    with "2.IH"(2) [OF routeParam r(1)] obtain ps where
      "qs = params @ (seg_value seg, r) # ps" "fill segs ps = rs" by auto
    with routeParam r(1) show ?thesis by (intro exI [of _ "(seg_value seg, r) # ps"]) simp
  next
    case routeWildcard
    with "2.prems" splitOn_join_request [OF "2.prems"(2)] show ?thesis by auto
  qed
qed (auto split: if_splits)

lemma splitOn_single_Nil: "splitOn c t = [[]] \<longleftrightarrow> t = []"
  by (metis joinWith.simps(2) joinWith_splitOn splitOn.simps(1))

lemma requestOK_split: "requestOK (splitRoutePath path)"
proof (cases "trimSet ''/'' path = []")
  case False
  let ?t = "trimSet ''/'' path"
  have "last (splitOn c t) = [] \<longleftrightarrow> t = [] \<or> last t = c" for c t
    by (induction t) (auto simp: splitOn_single_Nil split: list.split if_splits)
  moreover have "last ?t \<noteq> CHR ''/''"
    using False trimBy_ends [of "\<lambda>c. c \<in> set ''/''" path] by (auto simp: trimSet_def)
  ultimately show ?thesis
    using False by (auto simp: requestOK_def splitRoutePath_def Let_def dest: splitOn_no_sep)
qed (simp add: splitRoutePath_def requestOK_def)

lemma splitRoutePath_join: "joinWith ''/'' (splitRoutePath path) = trimSet ''/'' path"
  by (simp add: splitRoutePath_def joinWith_splitOn Let_def)

subsection \<open>Parsed patterns\<close>

definition segmentOf :: "string \<Rightarrow> routeSegment" where
  "segmentOf w =
     (if hasPrefix '':'' w then \<lparr>seg_kind = routeParam, seg_value = tl w\<rparr>
      else if hasPrefix ''*'' w then \<lparr>seg_kind = routeWildcard, seg_value = tl w\<rparr>
      else \<lparr>seg_kind = routeLiteral, seg_value = w\<rparr>)"

abbreviation isKind :: "routeSegmentKind \<Rightarrow> routeSegment \<Rightarrow> bool" where
  "isKind k seg \<equiv> seg_kind seg = k"

lemma foldl_addSegment:
  "foldl addSegment p ws =
     \<lparr>pat_raw = pat_raw p, pat_segments = pat_segments p @ map segmentOf ws,
      pat_literals = pat_literals p + length (filter (isKind routeLiteral \<circ> segmentOf) ws),
      pat_hasParam = (pat_hasParam p \<or> list_ex (isKind routeParam \<circ> segmentOf) ws),
      pat_hasWildcard = (pat_hasWildcard p \<or> list_ex (isKind routeWildcard \<circ> segmentOf) ws)\<rparr>"
  by (induction ws arbitrary: p) (auto simp: addSegment_def segmentOf_def)

lemma parsed_segments: "pat_segments (parseRoutePattern path) = map segmentOf (splitRoutePath path)"
  and parsed_raw: "pat_raw (parseRoutePattern path) = path"
  by (simp_all add: parseRoutePattern_def foldl_addSegment)

lemma parsed_flags:
  "pat_literals (parseRoutePattern path) = length (filter (isKind routeLiteral) (pat_segments (parseRoutePattern path)))"
  "pat_hasParam (parseRoutePattern path) = list_ex (isKind routeParam) (pat_segments (parseRoutePattern path))"
  "pat_hasWildcard (parseRoutePattern path) = list_ex (isKind routeWildcard) (pat_segments (parseRoutePattern path))"
  by (simp_all add: parseRoutePattern_def foldl_addSegment filter_map list_ex_iff)

lemma exact_literal:
  "isExact (parseRoutePattern path) \<Longrightarrow> seg \<in> set (pat_segments (parseRoutePattern path)) \<Longrightarrow> isKind routeLiteral seg"
  by (cases "seg_kind seg") (auto simp: isExact_def parsed_flags list_ex_iff)

lemma matchLoop_literals:
  "\<forall>w \<in> set ws. isKind routeLiteral (segmentOf w) \<Longrightarrow> matchLoop params (map segmentOf ws) ws = Some params"
  by (induction ws) (auto simp: segmentOf_def split: if_splits)

lemma exact_matches: "isExact (parseRoutePattern path) \<Longrightarrow> patternMatch (parseRoutePattern path) path = Some []"
  using exact_literal [of path]
  by (auto simp: patternMatch_def parsed_segments intro!: matchLoop_literals)

lemma matchLoop_counts:
  assumes "matchLoop params segs req = Some qs" "\<forall>seg \<in> set (butlast segs). \<not> isKind routeWildcard seg"
  shows "length (filter (isKind routeLiteral) segs) \<le> length req
         \<and> (list_ex (isKind routeWildcard) segs \<or> length segs = length req)"
  using assms
proof (induction segs arbitrary: params req)
  case (Cons seg segs)
  have butl: "\<forall>seg \<in> set (butlast segs). \<not> isKind routeWildcard seg"
    using Cons.prems(2) by (cases "segs = []") simp_all
  show ?case
  proof (cases "isKind routeWildcard seg")
    case True
    with Cons.prems(2) have "segs = []" by (auto split: if_splits)
    with True show ?thesis by simp
  next
    case False
    with Cons.prems(1) obtain r rs params' where "req = r # rs" "matchLoop params' segs rs = Some qs"
      by (cases "seg_kind seg"; cases req) (auto split: if_splits)
    with Cons.IH [OF _ butl, of params' rs] show ?thesis by auto
  qed
qed (auto split: if_splits)

lemma exact_most_specific:
  assumes a: "isExact (rt_pattern a)" "rt_pattern a = parseRoutePattern path"
    and b: "patternMatch (rt_pattern b) path = Some ps" "wildcardLast (rt_pattern b)"
      "rt_pattern b = parseRoutePattern path'"
  shows "compareRoutes a b \<le> 0"
proof -
  let ?n = "length (splitRoutePath path)"
  have "filter (isKind routeLiteral) (pat_segments (parseRoutePattern path)) = pat_segments (parseRoutePattern path)"
    using exact_literal [of path] a by (auto simp: filter_id_conv)
  with a have "pat_literals (rt_pattern a) = ?n" "length (pat_segments (rt_pattern a)) = ?n"
    by (simp_all add: parsed_flags parsed_segments)
  moreover have "pat_literals (rt_pattern b) \<le> ?n"
    "pat_hasWildcard (rt_pattern b) \<or> length (pat_segments (rt_pattern b)) = ?n"
    using matchLoop_counts [of "[]" "pat_segments (rt_pattern b)" "splitRoutePath path" ps] b
    by (auto simp: patternMatch_def wildcardLast_def parsed_flags)
  ultimately show ?thesis
    using a by (auto simp: compareRoutes_def isExact_def)
qed

section \<open>The table\<close>

definition registered :: "(string list \<times> string \<times> 'h) list \<Rightarrow> 'h route list" where
  "registered regs = map (\<lambda>(ms, p, h). newRoute ms p h) regs"

definition exactAt :: "'h routeTable \<Rightarrow> string \<Rightarrow> 'h route list" where
  "exactAt t path = (case map_of (tab_exact t) path of None \<Rightarrow> [] | Some l \<Rightarrow> l)"

definition tableOK :: "'h routeTable \<Rightarrow> 'h route list \<Rightarrow> bool" where
  "tableOK t rs =
     (mset (tab_routes t) = mset rs
      \<and> sorted_wrt (\<lambda>a b. compareRoutes a b \<le> 0) (tab_routes t)
      \<and> (\<forall>z. filter (\<lambda>r. compareRoutes z r = 0) (tab_routes t) = filter (\<lambda>r. compareRoutes z r = 0) rs)
      \<and> (\<forall>path. exactAt t path = filter (\<lambda>r. isExact (rt_pattern r) \<and> pat_raw (rt_pattern r) = path) rs))"

definition routerOf :: "bool \<Rightarrow> bool \<Rightarrow> (string list \<times> string \<times> 'h) list \<Rightarrow> 'h routeTable" where
  "routerOf notFound globalOptions regs =
     (registerAll newRouteTable regs)\<lparr>tab_NotFound := notFound, tab_GlobalOPTIONS := globalOptions\<rparr>"

lemma tableOK_Handle [keeps]:
  assumes "tableOK t rs"
  shows "tableOK (Handle t ms p h) (rs @ [newRoute ms p h])"
  using assms
  by (auto simp: tableOK_def Handle_def Let_def specificity.mset_sortStable specificity.sorted_sortStable
      specificity.stable_sortStable exactAt_def update_conv newRoute_def isExact_def parsed_raw)

lemma tableOK_registerAll: "tableOK t rs \<Longrightarrow> tableOK (registerAll t regs) (rs @ registered regs)"
proof (induction regs arbitrary: t rs)
  case (Cons reg regs)
  then show ?case
    using Cons.IH [OF tableOK_Handle [OF Cons.prems]]
    by (cases reg) (auto simp: registerAll_def registered_def)
qed (simp add: registerAll_def registered_def)

lemma tableOK_routerOf: "tableOK (routerOf nf go regs) (registered regs)"
  using tableOK_registerAll [of newRouteTable "[]" regs]
  by (simp add: routerOf_def tableOK_def newRouteTable_def exactAt_def)

subsection \<open>Looking a route up\<close>

lemma find_map_filter:
  "find (\<lambda>mt. Q (fst mt)) (List.map_filter (\<lambda>c. map_option (Pair c) (f c)) l)
    = map_option (\<lambda>r. (r, the (f r))) (find (\<lambda>r. f r \<noteq> None \<and> Q r) l)"
  by (induction l) (auto simp: List.map_filter_simps split: option.splits)

lemma find_matching:
  "find (\<lambda>mt. Q (fst mt)) (matchingRoutes t path)
    = map_option (\<lambda>r. (r, the (patternMatch (rt_pattern r) path)))
        (find (\<lambda>r. patternMatch (rt_pattern r) path \<noteq> None \<and> Q r) (tab_routes t))"
  unfolding matchingRoutes_def by (rule find_map_filter [of Q "\<lambda>c. patternMatch (rt_pattern c) path"])

lemma set_matchingRoutes:
  "set (matchingRoutes t path)
    = {(r, ps). r \<in> set (tab_routes t) \<and> patternMatch (rt_pattern r) path = Some ps}"
proof -
  have "set (List.map_filter (\<lambda>c. map_option (Pair c) (f c)) l) = {(r, ps). r \<in> set l \<and> f r = Some ps}" for f l
    by (induction l) (auto simp: List.map_filter_simps split: option.splits)
  then show ?thesis by (simp add: matchingRoutes_def)
qed

lemma matchingRoutes_Nil:
  "matchingRoutes t path = [] \<longleftrightarrow> (\<forall>r \<in> set (tab_routes t). patternMatch (rt_pattern r) path = None)"
proof -
  have "matchingRoutes t path = [] \<longleftrightarrow> set (matchingRoutes t path) = {}" by simp
  then show ?thesis unfolding set_matchingRoutes by auto
qed

lemma registered_parsed:
  "r \<in> set (registered regs) \<Longrightarrow> rt_pattern r = parseRoutePattern (pat_raw (rt_pattern r))"
  by (auto simp: registered_def newRoute_def parsed_raw)

lemma tableOK_set: "tableOK t rs \<Longrightarrow> set (tab_routes t) = set rs"
  by (metis set_mset_mset tableOK_def)

lemma tableOK_exact: "tableOK t rs \<Longrightarrow> r \<in> set (exactAt t path) \<longleftrightarrow>
    r \<in> set rs \<and> isExact (rt_pattern r) \<and> pat_raw (rt_pattern r) = path"
  by (auto simp: tableOK_def)

text \<open>Dispatch as one scan of the exact index and one of the sorted table.\<close>

lemma ServeHTTP_scans:
  "ServeHTTP t m path =
     (case find (\<lambda>r. routeAllowsMethod (rt_methods r) m) (if m \<noteq> ''OPTIONS'' then exactAt t path else []) of
        Some rt \<Rightarrow> Dispatched rt [] (joinWith '', '' (expandedAllowedMethods (exactAt t path)))
      | None \<Rightarrow>
        (if matchingRoutes t path = [] then serveNotFound t
         else if m = ''OPTIONS'' \<and> tab_GlobalOPTIONS t
         then GlobalOptions (joinWith '', '' (allowedMethods (matchingRoutes t path) (tab_GlobalOPTIONS t)))
         else (case find (\<lambda>r. patternMatch (rt_pattern r) path \<noteq> None \<and> routeAllowsMethod (rt_methods r) m) (tab_routes t) of
                 Some rt \<Rightarrow> Dispatched rt (the (patternMatch (rt_pattern rt) path))
                              (joinWith '', '' (allowedMethods (matchingRoutes t path) (tab_GlobalOPTIONS t)))
               | None \<Rightarrow> MethodNotAllowed (joinWith '', '' (allowedMethods (matchingRoutes t path) (tab_GlobalOPTIONS t))))))"
proof -
  have e: "(if m \<noteq> ''OPTIONS'' then case map_of (tab_exact t) path of None \<Rightarrow> [] | Some l \<Rightarrow> l else [])
      = (if m \<noteq> ''OPTIONS'' then exactAt t path else [])"
    by (simp add: exactAt_def)
  show ?thesis
    unfolding ServeHTTP_def Let_def e find_matching [of "\<lambda>r. routeAllowsMethod (rt_methods r) m"]
    by (cases "m = ''OPTIONS''") (simp_all split: option.split)
qed

text \<open>The two ways a request is dispatched: by the exact index, or by the scan of the sorted table.\<close>

lemma dispatched_cases:
  assumes "ServeHTTP t m path = Dispatched rt ps allow"
  obtains (exact) "m \<noteq> ''OPTIONS''" "find (\<lambda>r. routeAllowsMethod (rt_methods r) m) (exactAt t path) = Some rt" "ps = []"
  | (scan) "find (\<lambda>r. patternMatch (rt_pattern r) path \<noteq> None \<and> routeAllowsMethod (rt_methods r) m) (tab_routes t) = Some rt"
      "patternMatch (rt_pattern rt) path = Some ps"
proof (cases "find (\<lambda>r. routeAllowsMethod (rt_methods r) m) (if m \<noteq> ''OPTIONS'' then exactAt t path else [])")
  case None
  with assms obtain "find (\<lambda>r. patternMatch (rt_pattern r) path \<noteq> None \<and> routeAllowsMethod (rt_methods r) m) (tab_routes t) = Some rt"
      "ps = the (patternMatch (rt_pattern rt) path)"
    by (auto simp: ServeHTTP_scans serveNotFound_def split: option.splits if_splits)
  then show ?thesis using find_In by (intro scan) fastforce+
next
  case (Some rt')
  with assms show ?thesis
    by (intro exact) (auto simp: ServeHTTP_scans split: if_splits)
qed



text \<open>
  The status of a request is decided by the registered routes alone.  A request is dispatched
  exactly when some registered route matches its path and allows its method (and it is not an
  \<open>OPTIONS\<close> request taken by the global handler), it is answered 405 exactly when routes match the
  path but none allows the method, and 404 (by the custom handler when there is one) exactly when no
  registered route matches the path.  The exact index never turns a servable request away.
\<close>

lemma dispatch_decided:
  "case ServeHTTP (routerOf nf go regs) m path of
     Dispatched rt ps allow \<Rightarrow>
       (\<exists>r \<in> set (registered regs). patternMatch (rt_pattern r) path \<noteq> None \<and> routeAllowsMethod (rt_methods r) m)
       \<and> \<not> (m = ''OPTIONS'' \<and> go)
   | GlobalOptions allow \<Rightarrow>
       m = ''OPTIONS'' \<and> go \<and> (\<exists>r \<in> set (registered regs). patternMatch (rt_pattern r) path \<noteq> None)
   | MethodNotAllowed allow \<Rightarrow>
       (\<exists>r \<in> set (registered regs). patternMatch (rt_pattern r) path \<noteq> None)
       \<and> \<not> (\<exists>r \<in> set (registered regs). patternMatch (rt_pattern r) path \<noteq> None \<and> routeAllowsMethod (rt_methods r) m)
       \<and> \<not> (m = ''OPTIONS'' \<and> go)
   | NotFoundHandler \<Rightarrow> nf \<and> \<not> (\<exists>r \<in> set (registered regs). patternMatch (rt_pattern r) path \<noteq> None)
   | DefaultNotFound \<Rightarrow> \<not> nf \<and> \<not> (\<exists>r \<in> set (registered regs). patternMatch (rt_pattern r) path \<noteq> None)"
proof -
  let ?t = "routerOf nf go regs"
  let ?fast = "find (\<lambda>r. routeAllowsMethod (rt_methods r) m) (if m \<noteq> ''OPTIONS'' then exactAt ?t path else [])"
  note ok = tableOK_routerOf [of nf go regs]
  note s = tableOK_set [OF ok]
  have flags: "tab_NotFound ?t = nf" "tab_GlobalOPTIONS ?t = go" by (simp_all add: routerOf_def)
  show ?thesis
  proof (cases ?fast)
    case None
    let ?slow = "find (\<lambda>r. patternMatch (rt_pattern r) path \<noteq> None \<and> routeAllowsMethod (rt_methods r) m) (tab_routes ?t)"
    show ?thesis
    proof (cases ?slow)
      case (Some rt)
      with None find_In [OF Some] show ?thesis
        by (auto simp: ServeHTTP_scans serveNotFound_def flags matchingRoutes_Nil s)
    next
      case None' : None
      then have "\<not> (\<exists>r \<in> set (registered regs). patternMatch (rt_pattern r) path \<noteq> None \<and> routeAllowsMethod (rt_methods r) m)"
        by (auto simp: find_None_iff s)
      with None None' show ?thesis
        by (auto simp: ServeHTTP_scans serveNotFound_def flags matchingRoutes_Nil s)
    qed
  next
    case (Some rt)
    then have rt: "m \<noteq> ''OPTIONS''" "rt \<in> set (exactAt ?t path)" "routeAllowsMethod (rt_methods rt) m"
      by (auto dest: find_In split: if_splits)
    then have rs: "rt \<in> set (registered regs)" "isExact (rt_pattern rt)" "pat_raw (rt_pattern rt) = path"
      using tableOK_exact [OF ok] by auto
    moreover have "patternMatch (rt_pattern rt) path \<noteq> None"
      using registered_parsed [OF rs(1)] exact_matches [of path] rs by simp
    ultimately show ?thesis
      using Some rt by (auto simp: ServeHTTP_scans)
  qed
qed

subsection \<open>The \<open>Allow\<close> header\<close>

text \<open>What the accumulator of \<open>appendAllowedMethod\<close> keeps: no repetition, and \<open>HEAD\<close> wherever \<open>GET\<close> is.\<close>

definition allowAcc :: "string list \<Rightarrow> bool" where
  "allowAcc ms = (distinct ms \<and> (''GET'' \<in> set ms \<longrightarrow> ''HEAD'' \<in> set ms))"

definition addMethod :: "string list \<Rightarrow> string \<Rightarrow> string list" where
  "addMethod acc m =
     (if m \<in> set acc then acc else if m = ''GET'' \<and> ''HEAD'' \<notin> set acc then acc @ [m, ''HEAD''] else acc @ [m])"

lemma appendAllowedMethod_foldl: "appendAllowedMethod acc ms = foldl addMethod acc ms"
  by (induction acc ms rule: appendAllowedMethod.induct) (auto simp: addMethod_def Let_def)

lemma addMethod_acc:
  "allowAcc acc \<Longrightarrow> allowAcc (addMethod acc m) \<and> set (addMethod acc m) = set acc \<union> {m'. routeAllowsMethod [m] m'}"
  by (auto simp: addMethod_def allowAcc_def routeAllowsMethod_def)

lemma set_appendAllowedMethod:
  "allowAcc acc \<Longrightarrow> allowAcc (appendAllowedMethod acc ms)
    \<and> set (appendAllowedMethod acc ms) = set acc \<union> {m. routeAllowsMethod ms m}"
  unfolding appendAllowedMethod_foldl
proof (induction ms arbitrary: acc)
  case (Cons m ms)
  show ?case
    using addMethod_acc [OF Cons.prems, of m] Cons.IH [of "addMethod acc m"]
    by (auto simp: routeAllowsMethod_def)
qed (auto simp: routeAllowsMethod_def)

lemma foldl_allowed:
  "allowAcc acc \<Longrightarrow> allowAcc (foldl (\<lambda>acc m. appendAllowedMethod acc (rt_methods (fst m))) acc l)
     \<and> set (foldl (\<lambda>acc m. appendAllowedMethod acc (rt_methods (fst m))) acc l)
         = set acc \<union> {m. \<exists>p \<in> set l. routeAllowsMethod (rt_methods (fst p)) m}"
  by (induction l arbitrary: acc) (auto simp: set_appendAllowedMethod)

lemma allowedMethods_set:
  "sorted (allowedMethods l go) \<and> distinct (allowedMethods l go)
   \<and> set (allowedMethods l go)
       = {m. \<exists>p \<in> set l. routeAllowsMethod (rt_methods (fst p)) m} \<union> (if go then {''OPTIONS''} else {})"
  using foldl_allowed [of "[]" l] by (auto simp: allowedMethods_def Let_def allowAcc_def)

text \<open>
  The \<open>Allow\<close> header of a 405 response and of a global \<open>OPTIONS\<close> response names, sorted and
  without repetition, exactly the methods for which some registered route that matches the path would
  be dispatched (\<open>HEAD\<close> included wherever \<open>GET\<close> is allowed), plus \<open>OPTIONS\<close> when the global handler is set.
\<close>

lemma allow_header_exact:
  assumes "ServeHTTP (routerOf nf go regs) m path \<in> {MethodNotAllowed allow, GlobalOptions allow}"
  shows "\<exists>ms. allow = joinWith '', '' ms \<and> sorted ms \<and> distinct ms
           \<and> set ms = {m'. (\<exists>r \<in> set (registered regs). patternMatch (rt_pattern r) path \<noteq> None
                               \<and> routeAllowsMethod (rt_methods r) m') \<or> go \<and> m' = ''OPTIONS''}"
proof -
  let ?t = "routerOf nf go regs"
  let ?ms = "allowedMethods (matchingRoutes ?t path) go"
  have flags: "tab_GlobalOPTIONS (routerOf nf g regs) = g" for g by (simp add: routerOf_def)
  have "allow = joinWith '', '' ?ms"
    using assms by (auto simp: ServeHTTP_scans flags serveNotFound_def split: option.splits if_splits)
  moreover have "set ?ms = {m'. (\<exists>r \<in> set (registered regs). patternMatch (rt_pattern r) path \<noteq> None
                               \<and> routeAllowsMethod (rt_methods r) m') \<or> go \<and> m' = ''OPTIONS''}"
    using allowedMethods_set [of "matchingRoutes ?t path" go] tableOK_set [OF tableOK_routerOf, of nf go regs]
    by (auto simp: set_matchingRoutes split: if_splits)
  ultimately show ?thesis
    using allowedMethods_set [of "matchingRoutes ?t path" go] by auto
qed

lemma allow_header_exact_witness:
  "\<exists>ms. ''GET, HEAD, OPTIONS, PUT'' = joinWith '', '' ms \<and> sorted ms \<and> distinct ms
     \<and> set ms = {m'. (\<exists>r \<in> set (registered [([''GET''], ''/a'', 1 :: nat), ([''PUT''], ''/:x'', 2), ([''POST''], ''/b'', 3)]).
          patternMatch (rt_pattern r) ''/a'' \<noteq> None \<and> routeAllowsMethod (rt_methods r) m') \<or> True \<and> m' = ''OPTIONS''}"
  by (rule allow_header_exact [where nf = False and m = "''DELETE''"]) code_simp

subsection \<open>Matching and registration\<close>

text \<open>
  Matching is exact.  When a pattern matches a path, replacing its parameters by the values the
  handler receives gives back the segments of the path: no byte of the path is lost or made up, a
  parameter holds one segment and a trailing wildcard the whole rest.
\<close>

lemma match_recovers_path:
  assumes "patternMatch p path = Some ps"
  shows "joinWith ''/'' (fill (pat_segments p) ps) = trimSet ''/'' path"
  using matchLoop_fill [OF assms [unfolded patternMatch_def] requestOK_split]
  by (auto simp: splitRoutePath_join)

lemma match_recovers_path_witness:
  "joinWith ''/'' (fill (pat_segments (parseRoutePattern ''/files/:id/*rest'')) [(''id'', ''7''), (''rest'', ''a//b'')])
     = trimSet ''/'' ''/files/7/a//b/''"
  by (rule match_recovers_path) code_simp

text \<open>
  Registration keeps the table in order.  After any sequence of registrations the table holds each
  registered route once, most specific first, and routes of equal specificity stay in the order of
  their registration.
\<close>

lemma registration_stable_sorted:
  "mset (tab_routes (routerOf nf go regs)) = mset (registered regs)
   \<and> sorted_wrt (\<lambda>a b. compareRoutes a b \<le> 0) (tab_routes (routerOf nf go regs))
   \<and> filter (\<lambda>r. compareRoutes z r = 0) (tab_routes (routerOf nf go regs))
       = filter (\<lambda>r. compareRoutes z r = 0) (registered regs)"
  using tableOK_routerOf [of nf go regs] by (simp add: tableOK_def)

end
