(* ===== verification/RequestDecode.thy ===== *)
theory RequestDecode
  imports GoTypes Middleware Router
begin

text \<open>
  How the runtime turns a request into typed arguments: \<open>runtime/decode.go\<close> and the decoding functions of
  \<open>runtime/server.go\<close>.  What is not the runtime's own is the record \<open>goEnv\<close>: \<open>json.Unmarshal\<close>, the methods \<open>UnmarshalText\<close> and
  \<open>Validate\<close> of application types, \<open>strconv.ParseFloat\<close>, how a type prints, and the integer an out-of-range
  float converts to.  A decoder ends with \<open>Ret\<close>, with an error (\<open>Fail\<close>), or panics.
\<close>

section \<open>Definitions\<close>

record goEnv =
  jsonUnmarshal :: "gotype \<Rightarrow> goval \<Rightarrow> string \<Rightarrow> string + goval"
  textUnmarshaler :: "gotype \<Rightarrow> (string \<Rightarrow> string + goval) option"
  validatorOf :: "gotype \<Rightarrow> (goval \<Rightarrow> goerr option) option"
  parseFloat :: "nat \<Rightarrow> string \<Rightarrow> string + 64 word"
  typeText :: "gotype \<Rightarrow> string"
  floatConv :: "64 word \<Rightarrow> int"

subsection \<open>Scalars\<close>

datatype ParamKind =
    ParamString | ParamBool | ParamInt | ParamInt8 | ParamInt16 | ParamInt32 | ParamInt64
  | ParamUint | ParamUint8 | ParamUint16 | ParamUint32 | ParamUint64 | ParamOther string

record ParamSpec =
  ps_Name :: string
  ps_Kind :: ParamKind

definition scalarInt :: "intKind \<Rightarrow> string \<Rightarrow> string + goval" where
  "scalarInt k s = map_sum (numErrText ''ParseInt'' s) VInt (parseInt (intBits k) s)"

definition scalarUint :: "uintKind \<Rightarrow> string \<Rightarrow> string + goval" where
  "scalarUint k s = map_sum (numErrText ''ParseUint'' s) VUint (parseUint (uintBits k) s)"

fun convertScalar :: "ParamKind \<Rightarrow> string \<Rightarrow> string + goval" where
  "convertScalar ParamString s = Inr (VString s)"
| "convertScalar ParamBool s = map_sum (numErrText ''ParseBool'' s) VBool (parseBool s)"
| "convertScalar ParamInt s = scalarInt KInt s"
| "convertScalar ParamInt8 s = scalarInt KInt8 s"
| "convertScalar ParamInt16 s = scalarInt KInt16 s"
| "convertScalar ParamInt32 s = scalarInt KInt32 s"
| "convertScalar ParamInt64 s = scalarInt KInt64 s"
| "convertScalar ParamUint s = scalarUint KUint s"
| "convertScalar ParamUint8 s = scalarUint KUint8 s"
| "convertScalar ParamUint16 s = scalarUint KUint16 s"
| "convertScalar ParamUint32 s = scalarUint KUint32 s"
| "convertScalar ParamUint64 s = scalarUint KUint64 s"
| "convertScalar (ParamOther k) s = Inl (''unsupported scalar kind '' @ k)"

definition decodeScalar :: "ParamKind \<Rightarrow> string \<Rightarrow> string + goval" where
  "decodeScalar kind value = convertScalar kind value"

text \<open>The Go type a parameter of a kind is handed over as.\<close>

fun paramType :: "ParamKind \<Rightarrow> gotype" where
  "paramType ParamString = GString" | "paramType ParamBool = GBool"
| "paramType ParamInt = GInt KInt" | "paramType ParamInt8 = GInt KInt8" | "paramType ParamInt16 = GInt KInt16"
| "paramType ParamInt32 = GInt KInt32" | "paramType ParamInt64 = GInt KInt64"
| "paramType ParamUint = GUint KUint" | "paramType ParamUint8 = GUint KUint8" | "paramType ParamUint16 = GUint KUint16"
| "paramType ParamUint32 = GUint KUint32" | "paramType ParamUint64 = GUint KUint64"
| "paramType (ParamOther k) = GOther k"

type_synonym pathParams = "(string \<times> string) list"

definition invalidArgument :: "string \<Rightarrow> goerr" where
  "invalidArgument msg = bErr (bMsg msg (bCode InvalidArgument B))"

fun decodePathParams :: "ParamSpec list \<Rightarrow> routeParams \<Rightarrow> goerr + goval list \<times> pathParams" where
  "decodePathParams [] params = Inr ([], [])"
| "decodePathParams (spec # specs) params =
     (let raw = trimPrefix ''/'' (ByName params (ps_Name spec)) in
      case decodeScalar (ps_Kind spec) raw of
        Inl err \<Rightarrow> Inl (invalidArgument (''invalid path param '' @ goQuote (ps_Name spec) @ '': '' @ err))
      | Inr v \<Rightarrow> map_sum id (\<lambda>(vs, ds). (v # vs, (ps_Name spec, raw) # ds)) (decodePathParams specs params))"

subsection \<open>Strings into fields\<close>

definition numFail :: "string \<Rightarrow> string \<Rightarrow> numErr + 'a \<Rightarrow> string + 'a" where
  "numFail func s r = map_sum (numErrText func s) id r"

definition assignScalar :: "goEnv \<Rightarrow> gotype \<Rightarrow> string \<Rightarrow> string + goval" where
  "assignScalar env t s =
     (case under t of
        GString \<Rightarrow> Inr (VString s)
      | GBool \<Rightarrow> map_sum id VBool (numFail ''ParseBool'' s (parseBool s))
      | GInt k \<Rightarrow> map_sum id VInt (numFail ''ParseInt'' s (parseInt (intBits k) s))
      | GUint k \<Rightarrow>
          if k = KUintptr then Inl (''unsupported field type '' @ typeText env t)
          else map_sum id VUint (numFail ''ParseUint'' s (parseUint (uintBits k) s))
      | GFloat32 \<Rightarrow> map_sum id (\<lambda>w. VFloat32 (float32OfFloat64 w)) (parseFloat env 32 s)
      | GFloat64 \<Rightarrow> map_sum id VFloat64 (parseFloat env 64 s)
      | _ \<Rightarrow> Inl (''unsupported field type '' @ typeText env t))"

text \<open>Only the first value counts, except for a slice, which takes one element per value.\<close>

function (sequential) assignStrings :: "goEnv \<Rightarrow> gotype \<Rightarrow> goval \<Rightarrow> string list \<Rightarrow> string + goval"
and assignElems :: "goEnv \<Rightarrow> gotype \<Rightarrow> string list \<Rightarrow> string + goval list" where
  "assignStrings env t old vals =
     (case ptrElem t of
        Some e \<Rightarrow>
          map_sum id (\<lambda>v. VPtr (Some v))
            (assignStrings env e (case old of VPtr (Some u) \<Rightarrow> u | _ \<Rightarrow> zeroValue e) vals)
      | None \<Rightarrow>
        (if vals = [] then Inr old
         else case textUnmarshaler env t of
           Some um \<Rightarrow> um (hd vals)
         | None \<Rightarrow>
           (case sliceElem t of
              Some e \<Rightarrow> map_sum id (\<lambda>vs. VSlice (Some vs)) (assignElems env e vals)
            | None \<Rightarrow> assignScalar env t (hd vals))))"
| "assignElems env e [] = Inr []"
| "assignElems env e (s # rest) =
     (case assignStrings env e (zeroValue e) [s] of
        Inl err \<Rightarrow> Inl err
      | Inr v \<Rightarrow> map_sum id (\<lambda>vs. v # vs) (assignElems env e rest))"
  by pat_completeness auto
termination
  by (relation "measures [case_sum (\<lambda>(env, t, old, vals). size t) (\<lambda>(env, e, vals). size e),
        case_sum (\<lambda>(env, t, old, vals). 0) (\<lambda>(env, e, vals). Suc (length vals))]")
    (simp_all add: ptrElem_Some sliceElem_Some under_smaller)

declare assignStrings.simps [simp del]

definition setFieldFromStrings :: "goEnv \<Rightarrow> gotype \<Rightarrow> goval \<Rightarrow> string list \<Rightarrow> string \<Rightarrow> goerr + goval" where
  "setFieldFromStrings env t old vals name =
     (if vals = [] then Inr old
      else let vals = (if sliceElem t \<noteq> None \<and> length vals = 1 \<and> CHR '','' \<in> set (hd vals) then splitOn CHR '','' (hd vals) else vals)
           in map_sum (\<lambda>err. invalidArgument (''invalid value for '' @ name @ '': '' @ err)) id
                (assignStrings env t old vals))"

subsection \<open>Validation and results\<close>

definition normalizeValidationError :: "goerr option \<Rightarrow> goerr option" where
  "normalizeValidationError err =
     (case err of None \<Rightarrow> None
      | Some e \<Rightarrow> (case As e of Some pe \<Rightarrow> Some e
                   | None \<Rightarrow> Some (bErr (bCause (Some e) (bMsg (Error e) (bCode InvalidArgument B))))))"

text \<open>The value handed over is a pointer to \<open>v\<close>, which is not nil.\<close>

definition maybeValidate :: "goEnv \<Rightarrow> gotype \<Rightarrow> goval \<Rightarrow> goerr option" where
  "maybeValidate env t v =
     (case validatorOf env (GPtr t) of
        Some f \<Rightarrow> normalizeValidationError (f (VPtr (Some v)))
      | None \<Rightarrow> (case validatorOf env t of Some f \<Rightarrow> normalizeValidationError (f v) | None \<Rightarrow> None))"

definition isPtr :: "gotype \<Rightarrow> bool" where
  "isPtr t = (ptrElem t \<noteq> None)"

definition elemType :: "gotype \<Rightarrow> gotype" where
  "elemType t = (case ptrElem t of Some e \<Rightarrow> e | None \<Rightarrow> t)"

definition isStructLike :: "gotype \<Rightarrow> bool" where
  "isStructLike t = (case under (elemType t) of GStruct fs \<Rightarrow> True | _ \<Rightarrow> False)"

text \<open>\<open>newValueForType\<close> makes a pointer to this zero value; \<open>finalizeValue\<close> is given what it points to.\<close>

definition newValueForType :: "gotype \<Rightarrow> goval" where
  "newValueForType t = zeroValue (elemType t)"

definition finalizeValue :: "goval \<Rightarrow> gotype \<Rightarrow> goval" where
  "finalizeValue v t = (if isPtr t then VPtr (Some v) else v)"

definition jsonName :: "structField \<Rightarrow> string" where
  "jsonName f =
     (let tag = tagGet f ''json'' in
      if tag = [] then sf_Name f
      else let name = hd (splitOn CHR '','' tag) in
        if name = ''-'' then [] else if name = [] then sf_Name f else name)"

subsection \<open>Requests\<close>

text \<open>
  What the decoders read of an \<open>http.Request\<close>.  The body is absent (nil) or what reading it gives;
  \<open>rq_Query\<close> is \<open>URL.Query()\<close>.
\<close>

record httpRequest =
  rq_Method :: string
  rq_Path :: string
  rq_Query :: "(string, string list) gomap"
  rq_Header :: httpHeader
  rq_Cookies :: "(string \<times> string) list"
  rq_Body :: "(string + string) option"

definition headerValues :: "httpHeader \<Rightarrow> string \<Rightarrow> string list" where
  "headerValues h k = (case map_of h (canonicalHeaderKey k) of None \<Rightarrow> [] | Some vs \<Rightarrow> vs)"

definition headerGet :: "httpHeader \<Rightarrow> string \<Rightarrow> string" where
  "headerGet h k = (case headerValues h k of [] \<Rightarrow> [] | v # vs \<Rightarrow> v)"

definition queryValues :: "httpRequest \<Rightarrow> string \<Rightarrow> string list" where
  "queryValues req k = (case map_of (rq_Query req) k of None \<Rightarrow> [] | Some vs \<Rightarrow> vs)"

definition wrapErr :: "string \<Rightarrow> string \<Rightarrow> goerr" where
  "wrapErr err msg = the (snd (Wrap [] (Some (Foreign err None)) msg []))"

text \<open>The strings a field is set from: the first of its tags \<open>header\<close>, \<open>query\<close>, \<open>qs\<close> and \<open>cookie\<close> that is not empty decides.\<close>

definition fieldSource :: "httpRequest \<Rightarrow> bool \<Rightarrow> structField \<Rightarrow> (string list \<times> string) option" where
  "fieldSource req useQueryDefaults f =
     (if tagGet f ''header'' \<noteq> [] then Some (headerValues (rq_Header req) (tagGet f ''header''), tagGet f ''header'')
      else if tagGet f ''query'' \<noteq> [] then Some (queryValues req (tagGet f ''query''), tagGet f ''query'')
      else if tagGet f ''qs'' \<noteq> [] then Some (queryValues req (tagGet f ''qs''), tagGet f ''qs'')
      else if tagGet f ''cookie'' \<noteq> []
      then map_option (\<lambda>v. ([v], tagGet f ''cookie'')) (map_of (rq_Cookies req) (tagGet f ''cookie''))
      else if useQueryDefaults \<and> jsonName f \<noteq> [] then Some (queryValues req (jsonName f), jsonName f)
      else None)"

fun decodeFields ::
  "goEnv \<Rightarrow> httpRequest \<Rightarrow> bool \<Rightarrow> (structField \<times> gotype) list \<Rightarrow> goval list \<Rightarrow> goerr + goval list" where
  "decodeFields env req dflt ((f, t) # fs) (v # vs) =
     (case (if sf_Exported f
            then (case fieldSource req dflt f of
                    None \<Rightarrow> Inr v
                  | Some (strs, name) \<Rightarrow> setFieldFromStrings env t v strs name)
            else Inr v) of
        Inl err \<Rightarrow> Inl err
      | Inr v' \<Rightarrow> map_sum id (\<lambda>vs'. v' # vs') (decodeFields env req dflt fs vs))"
| "decodeFields env req dflt _ vs = Inr vs"

definition usesQueryDefaults :: "httpRequest \<Rightarrow> bool \<Rightarrow> bool" where
  "usesQueryDefaults req authOnly = (rq_Method req \<in> {''GET'', ''HEAD'', ''DELETE''} \<or> authOnly)"

text \<open>The JSON body, if it is read at all, fills the target before the fields are set.\<close>

definition readBodyInto :: "goEnv \<Rightarrow> httpRequest \<Rightarrow> bool \<Rightarrow> gotype \<Rightarrow> goval \<Rightarrow> goerr + goval" where
  "readBodyInto env req dflt t v =
     (if dflt then Inr v
      else case rq_Body req of
        None \<Rightarrow> Inr v
      | Some (Inl err) \<Rightarrow> Inl (wrapErr err ''read request body'')
      | Some (Inr body) \<Rightarrow>
        if trimSpace body = [] then Inr v
        else map_sum (\<lambda>err. invalidArgument (''invalid json body: '' @ err)) id (jsonUnmarshal env t v body))"

text \<open>
  When the type is a pointer to a pointer the inner one is allocated first.  A JSON body \<open>null\<close> sets it back to nil: the
  fields are then set on the value it had, and the result keeps the nil.
\<close>

definition targetStruct :: "goval \<Rightarrow> gotype \<Rightarrow> (goval list \<times> (goval list \<Rightarrow> goval)) option" where
  "targetStruct v s =
     (case v of
        VStruct vs \<Rightarrow> Some (vs, VStruct)
      | VPtr (Some (VStruct vs)) \<Rightarrow> Some (vs, \<lambda>vs'. VPtr (Some (VStruct vs')))
      | VPtr None \<Rightarrow> (case zeroValue s of VStruct vs \<Rightarrow> Some (vs, \<lambda>_. VPtr None) | _ \<Rightarrow> None)
      | _ \<Rightarrow> None)"

definition decodeTaggedStruct :: "goEnv \<Rightarrow> httpRequest \<Rightarrow> gotype \<Rightarrow> bool \<Rightarrow> (goerr, goval) outcome" where
  "decodeTaggedStruct env req t authOnly =
     (let e = elemType t; s = (if isPtr e then elemType e else e);
          target = (if isPtr e then VPtr (Some (zeroValue s)) else newValueForType t);
          dflt = usesQueryDefaults req authOnly
      in case readBodyInto env req dflt e target of
           Inl err \<Rightarrow> Fail err
         | Inr v \<Rightarrow>
           (case (under s, targetStruct v s) of
              (GStruct fs, Some (vs, rebuild)) \<Rightarrow>
                (case decodeFields env req dflt fs vs of
                   Inl err \<Rightarrow> Fail err
                 | Inr vs' \<Rightarrow>
                   (case maybeValidate env e (rebuild vs') of
                      Some err \<Rightarrow> Fail err
                    | None \<Rightarrow> Ret (finalizeValue (rebuild vs') t)))
            | _ \<Rightarrow> Panic))"

text \<open>Without a body the pointer itself is returned, also when the type is not a pointer.\<close>

definition decodePayload :: "goEnv \<Rightarrow> httpRequest \<Rightarrow> gotype option \<Rightarrow> (goerr, goval option) outcome" where
  "decodePayload env req typ =
     (case typ of None \<Rightarrow> Ret None
      | Some t \<Rightarrow>
        if isStructLike t then obind (decodeTaggedStruct env req t False) (\<lambda>v. Ret (Some v))
        else case rq_Body req of
          None \<Rightarrow> Ret (Some (VPtr (Some (newValueForType t))))
        | Some (Inl err) \<Rightarrow> Fail (wrapErr err ''read request body'')
        | Some (Inr data) \<Rightarrow>
          if trimSpace data = [] then Ret (Some (finalizeValue (newValueForType t) t))
          else (case jsonUnmarshal env (elemType t) (newValueForType t) data of
                  Inl err \<Rightarrow> Fail (invalidArgument (''invalid json body: '' @ err))
                | Inr v \<Rightarrow> Ret (Some (finalizeValue v t))))"

text \<open>The parameters of the auth handler: a bearer token, or a struct read from headers, query and cookies.\<close>

fun bearerToken :: "string \<Rightarrow> string list \<Rightarrow> string option" where
  "bearerToken auth [] = None"
| "bearerToken auth (p # ps) =
     (if hasPrefix p auth \<and> trimSpace (drop (length p) auth) \<noteq> [] then Some (trimSpace (drop (length p) auth))
      else bearerToken auth ps)"

definition decodeAuthParams :: "goEnv \<Rightarrow> httpRequest \<Rightarrow> gotype option \<Rightarrow> (goerr, goval option) outcome" where
  "decodeAuthParams env req pt =
     (case pt of None \<Rightarrow> Ret None
      | Some t \<Rightarrow>
        if under t = GString
        then (case bearerToken (headerGet (rq_Header req) ''Authorization'') [''Bearer '', ''Token ''] of
                Some token \<Rightarrow> Ret (Some (VString token))
              | None \<Rightarrow> Fail (bErr (bMsg ''invalid auth param'' (bCode Unauthenticated B))))
        else obind (decodeTaggedStruct env req t True) (\<lambda>v. Ret (Some v)))"

section \<open>Decoded values have their types\<close>

text \<open>What the packages below promise: a value decoded into a type is one of that type.\<close>

definition envTyped :: "goEnv \<Rightarrow> bool" where
  "envTyped env \<longleftrightarrow>
     (\<forall>t v d u. hasType t v \<longrightarrow> jsonUnmarshal env t v d = Inr u \<longrightarrow> hasType t u) \<and>
     (\<forall>t um s u. textUnmarshaler env t = Some um \<longrightarrow> um s = Inr u \<longrightarrow> hasType t u)"

lemma convertScalar_typed: "convertScalar kind s = Inr v \<Longrightarrow> hasType (paramType kind) v"
  by (cases kind) (auto simp: scalarInt_def scalarUint_def map_sum_def parseInt_fits parseUint_fits split: sum.splits)

lemma decodePathParams_typed:
  "decodePathParams specs params = Inr (vs, ds) \<Longrightarrow>
     list_all2 (\<lambda>spec v. hasType (paramType (ps_Kind spec)) v) specs vs"
proof (induction specs arbitrary: vs ds)
  case (Cons spec specs)
  then show ?case
    by (auto simp: decodeScalar_def Let_def map_sum_def convertScalar_typed split: sum.splits)
qed simp

lemma envTyped_json: "envTyped env \<Longrightarrow> hasType t v \<Longrightarrow> jsonUnmarshal env t v d = Inr u \<Longrightarrow> hasType t u"
  unfolding envTyped_def by blast

lemma envTyped_text: "envTyped env \<Longrightarrow> textUnmarshaler env t = Some um \<Longrightarrow> um s = Inr u \<Longrightarrow> hasType t u"
  unfolding envTyped_def by blast

lemma map_sum_Inr: "map_sum f g x = Inr y \<longleftrightarrow> (\<exists>a. x = Inr a \<and> y = g a)"
  by (cases x) auto

lemma map_sum_Inl: "map_sum f g x = Inl y \<longleftrightarrow> (\<exists>a. x = Inl a \<and> y = f a)"
  by (cases x) auto

lemma pointee_typed: "hasType (GPtr e) old \<Longrightarrow> hasType e (case old of VPtr (Some u) \<Rightarrow> u | _ \<Rightarrow> zeroValue e)"
  by (auto split: goval.splits option.splits)

lemma assignScalar_typed: "assignScalar env t s = Inr v \<Longrightarrow> hasType t v"
  unfolding typed_under [of t v]
  by (auto simp: assignScalar_def numFail_def map_sum_Inr parseInt_fits parseUint_fits split: gotype.splits if_splits)

lemma assigned_typed:
  "assignStrings env t old vals = Inr v \<Longrightarrow> envTyped env \<Longrightarrow> hasType t old \<Longrightarrow> hasType t v"
  "assignElems env e vals = Inr vs \<Longrightarrow> envTyped env \<Longrightarrow> list_all (hasType e) vs"
proof (induction env t old vals and env e vals arbitrary: v and vs rule: assignStrings_assignElems.induct)
  case (1 env t old vals)
  note a = "1.prems"(1) [unfolded assignStrings.simps(1) [of env t old vals]]
  show ?case
  proof (cases "ptrElem t")
    case (Some e)
    then obtain u where u: "assignStrings env e (case old of VPtr (Some u) \<Rightarrow> u | _ \<Rightarrow> zeroValue e) vals = Inr u"
        "v = VPtr (Some u)"
      using a by (auto simp: map_sum_Inr)
    moreover have "hasType (GPtr e) old" using Some "1.prems"(3) typed_under [of t old] by (simp add: ptrElem_Some)
    ultimately have "hasType e u" using "1.IH"(2) [OF Some u(1) "1.prems"(2)] pointee_typed by blast
    then show ?thesis using Some u typed_under [of t v] by (simp add: ptrElem_Some)
  next
    case None
    show ?thesis
    proof (cases "vals = [] \<or> textUnmarshaler env t \<noteq> None")
      case True
      then show ?thesis using a None "1.prems"(2,3) envTyped_text by (auto split: if_splits)
    next
      case False
      show ?thesis
      proof (cases "sliceElem t")
        case (Some e)
        then obtain us where e: "assignElems env e vals = Inr us" "v = VSlice (Some us)"
          using a None False by (auto simp: map_sum_Inr)
        then have "list_all (hasType e) us" using "1.IH"(1) None False Some "1.prems"(2) by auto
        then show ?thesis using e Some typed_under [of t v] by (simp add: sliceElem_Some)
      next
        case none: None
        then have "assignScalar env t (hd vals) = Inr v" using a None False by auto
        then show ?thesis by (rule assignScalar_typed)
      qed
    qed
  qed
next
  case (3 env e s rest)
  then show ?case by (auto simp: map_sum_Inr split: sum.splits)
qed simp

lemma setField_typed:
  "envTyped env \<Longrightarrow> hasType t old \<Longrightarrow> setFieldFromStrings env t old vals name = Inr v \<Longrightarrow> hasType t v"
  using assigned_typed(1) by (fastforce simp: setFieldFromStrings_def Let_def map_sum_Inr split: if_splits)

lemma decodeFields_typed:
  "decodeFields env req dflt fs vs = Inr ws \<Longrightarrow> envTyped env \<Longrightarrow> list_all2 (\<lambda>f u. hasType (snd f) u) fs vs \<Longrightarrow>
    list_all2 (\<lambda>f u. hasType (snd f) u) fs ws"
proof (induction env req dflt fs vs arbitrary: ws rule: decodeFields.induct)
  case (1 env req dflt f t fs v vs)
  obtain v' ws' where w: "ws = v' # ws'" "decodeFields env req dflt fs vs = Inr ws'"
      "v' = v \<or> (\<exists>strs name. setFieldFromStrings env t v strs name = Inr v')"
    using "1.prems"(1) by (auto simp: map_sum_Inr split: sum.splits if_splits option.splits)
  have "hasType t v'" using w(3) setField_typed [OF "1.prems"(2)] "1.prems"(3) by auto
  moreover have "list_all2 (\<lambda>f u. hasType (snd f) u) fs ws'"
    using "1.prems"(1,3) w(2) "1.IH" [OF _ w(2) "1.prems"(2)] by (auto split: sum.splits)
  ultimately show ?case using w(1) by simp
qed auto

lemma readBody_typed:
  "envTyped env \<Longrightarrow> hasType t v \<Longrightarrow> readBodyInto env req dflt t v = Inr u \<Longrightarrow> hasType t u"
  using envTyped_json by (auto simp: readBodyInto_def map_sum_Inr split: if_splits option.splits sum.splits)

lemma isPtr_elem: "isPtr t \<Longrightarrow> under t = GPtr (elemType t)" "\<not> isPtr t \<Longrightarrow> elemType t = t"
proof -
  assume "isPtr t"
  then obtain e where e: "ptrElem t = Some e" unfolding isPtr_def by blast
  then have "elemType t = e" by (simp add: elemType_def)
  with e [unfolded ptrElem_Some] show "under t = GPtr (elemType t)" by simp
qed (simp add: isPtr_def elemType_def)

lemma finalize_typed: "hasType (elemType t) v \<Longrightarrow> hasType t (finalizeValue v t)"
  using typed_under [of t "VPtr (Some v)"] isPtr_elem [of t] by (auto simp: finalizeValue_def)

lemma struct_vals: "under s = GStruct fs \<Longrightarrow> hasType s (VStruct vs) \<longleftrightarrow> list_all2 (\<lambda>f u. hasType (snd f) u) fs vs"
  using typed_under [of s "VStruct vs"] by (simp add: hasType_struct)

lemma targetStruct_typed:
  assumes "targetStruct v s = Some (vs, rebuild)" "under s = GStruct fs"
    and "if isPtr e then elemType e = s \<and> hasType e v else e = s \<and> hasType e v"
  shows "list_all2 (\<lambda>f u. hasType (snd f) u) fs vs"
    and "list_all2 (\<lambda>f u. hasType (snd f) u) fs ws \<Longrightarrow> hasType e (rebuild ws)"
proof -
  have struct: "hasType s (VStruct us) \<longleftrightarrow> list_all2 (\<lambda>f u. hasType (snd f) u) fs us" for us
    using struct_vals [OF assms(2)] .
  have z: "zeroValue s = VStruct us \<Longrightarrow> list_all2 (\<lambda>f u. hasType (snd f) u) fs us" for us
    using struct [of us] zero_hasType [of s] by simp
  have ptr: "under e = GPtr s" "hasType (GPtr s) v" if "isPtr e"
    using that assms(3) typed_under [of e v] isPtr_elem(1) [of e] by auto
  have nptr: "hasType s v" "e = s" if "\<not> isPtr e" using that assms(3) by auto
  have sv: "hasType s v \<Longrightarrow> \<exists>us. v = VStruct us"
    using typed_under [of s v] assms(2) by (auto simp: hasType.simps(12) split: goval.splits)
  have "list_all2 (\<lambda>f u. hasType (snd f) u) fs vs \<and>
      (list_all2 (\<lambda>f u. hasType (snd f) u) fs ws \<longrightarrow> hasType e (rebuild ws))"
  proof (cases "isPtr e")
    case False
    then obtain us where "v = VStruct us" using nptr sv by blast
    then show ?thesis using assms(1) nptr [OF False] struct by (simp add: targetStruct_def)
  next
    case True
    note p = ptr [OF True]
    then obtain q where q: "v = VPtr q" "pred_option (hasType s) q" by (auto split: goval.splits)
    have r: "hasType e (VPtr r) \<longleftrightarrow> pred_option (hasType s) r" for r using typed_under [of e] p(1) by simp
    show ?thesis
    proof (cases q)
      case None
      then show ?thesis using assms(1) q(1) z r by (auto simp: targetStruct_def split: goval.splits)
    next
      case (Some w)
      then obtain us where "w = VStruct us" using q(2) typed_under [of s w] assms(2)
        by (auto simp: hasType.simps(12) split: goval.splits)
      then show ?thesis using assms(1) q Some struct r by (auto simp: targetStruct_def)
    qed
  qed
  then show "list_all2 (\<lambda>f u. hasType (snd f) u) fs vs"
    and "list_all2 (\<lambda>f u. hasType (snd f) u) fs ws \<Longrightarrow> hasType e (rebuild ws)" by blast+
qed

lemma decodeTaggedStruct_typed:
  assumes "envTyped env" "decodeTaggedStruct env req t authOnly = Ret v"
  shows "hasType t v"
proof -
  let ?e = "elemType t" and ?d = "usesQueryDefaults req authOnly"
  let ?s = "if isPtr ?e then elemType ?e else ?e"
  let ?target = "if isPtr ?e then VPtr (Some (zeroValue ?s)) else newValueForType t"
  obtain u fs vs rebuild ws where d: "readBodyInto env req ?d ?e ?target = Inr u" "under ?s = GStruct fs"
      "targetStruct u ?s = Some (vs, rebuild)" "decodeFields env req ?d fs vs = Inr ws" "v = finalizeValue (rebuild ws) t"
    using assms(2) unfolding decodeTaggedStruct_def Let_def
    by (auto split: sum.splits gotype.splits option.splits prod.splits)
  have "hasType ?e ?target"
    using typed_under [of ?e ?target] isPtr_elem(1) [of ?e] by (auto simp: newValueForType_def)
  then have u: "hasType ?e u" using readBody_typed [OF assms(1) _ d(1)] by blast
  then have e: "if isPtr ?e then elemType ?e = ?s \<and> hasType ?e u else ?e = ?s \<and> hasType ?e u" by simp
  have "list_all2 (\<lambda>f u. hasType (snd f) u) fs ws"
    by (rule decodeFields_typed [OF d(4) assms(1) targetStruct_typed(1) [OF d(3,2) e]])
  then have "hasType ?e (rebuild ws)" by (rule targetStruct_typed(2) [OF d(3,2) e])
  then show ?thesis unfolding d(5) by (rule finalize_typed)
qed

text \<open>
  (C24) Decoded payloads are well typed: what the runtime hands to an endpoint as its payload is a value of the
  endpoint's payload type, whatever the request holds: body, headers, query and cookies; every integer is in the
  range of its field.\<close>

theorem payload_well_typed:
  assumes "envTyped env" "rq_Body req \<noteq> None" "decodePayload env req (Some t) = Ret (Some v)"
  shows "hasType t v"
proof (cases "isStructLike t")
  case True
  then have "decodeTaggedStruct env req t False = Ret v"
    using assms(3) by (auto simp: decodePayload_def obind_eq_Ret)
  then show ?thesis using decodeTaggedStruct_typed assms(1) by blast
next
  case False
  have new: "hasType (elemType t) (newValueForType t)" by (simp add: newValueForType_def)
  have "\<exists>u. v = finalizeValue u t \<and> hasType (elemType t) u"
    using assms False new envTyped_json [OF assms(1) new]
    by (auto simp: decodePayload_def split: option.splits sum.splits if_splits)
  then show ?thesis using finalize_typed by blast
qed

definition wEnv :: goEnv where
  "wEnv = \<lparr>jsonUnmarshal = (\<lambda>t v d. Inr v), textUnmarshaler = (\<lambda>t. None), validatorOf = (\<lambda>t. None),
           parseFloat = (\<lambda>b s. Inl ''unsupported''), typeText = (\<lambda>t. ''T''), floatConv = (\<lambda>w. int64_min)\<rparr>"

text \<open>A struct with an eight-bit limit and a list of tags, read from the query of a GET request.\<close>

definition wStruct :: gotype where
  "wStruct = GStruct [(\<lparr>sf_Name = ''Limit'', sf_Tag = [(''query'', ''limit'')], sf_Anonymous = False, sf_Exported = True\<rparr>, GInt KInt8),
                      (\<lparr>sf_Name = ''Tags'', sf_Tag = [], sf_Anonymous = False, sf_Exported = True\<rparr>, GSlice GString)]"

definition wReq :: "string \<Rightarrow> httpRequest" where
  "wReq lim = \<lparr>rq_Method = ''GET'', rq_Path = ''/x'', rq_Query = [(''limit'', [lim]), (''Tags'', [''a,b''])],
              rq_Header = [], rq_Cookies = [], rq_Body = Some (Inr [])\<rparr>"

lemma wEnv_typed: "envTyped wEnv"
  by (auto simp: envTyped_def wEnv_def)

theorem payload_well_typed_witness:
  "decodePayload wEnv (wReq ''100'') (Some wStruct) =
     Ret (Some (VStruct [VInt 100, VSlice (Some [VString ''a'', VString ''b''])])) \<and>
   hasType wStruct (VStruct [VInt 100, VSlice (Some [VString ''a'', VString ''b''])]) \<and>
   decodePayload wEnv (wReq ''200'') (Some wStruct) =
     Fail (invalidArgument (''invalid value for limit: strconv.ParseInt: parsing '' @ goQuote ''200'' @ '': value out of range''))"
proof -
  have d: "decodePayload wEnv (wReq ''100'') (Some wStruct) =
     Ret (Some (VStruct [VInt 100, VSlice (Some [VString ''a'', VString ''b''])]))"
    by code_simp
  moreover have "hasType wStruct (VStruct [VInt 100, VSlice (Some [VString ''a'', VString ''b''])])"
    by (rule payload_well_typed [OF wEnv_typed _ d]) (simp add: wReq_def)
  moreover have "decodePayload wEnv (wReq ''200'') (Some wStruct) =
     Fail (invalidArgument (''invalid value for limit: strconv.ParseInt: parsing '' @ goQuote ''200'' @ '': value out of range''))"
    by code_simp
  ultimately show ?thesis by blast
qed

end
