(* ===== verification/WirePayload.thy ===== *)
theory WirePayload
  imports RequestDecode
begin

text \<open>
  Calls in the binary wire format, up to the typed arguments: the decoding half of \<open>runtime/wire.go\<close>.  A request body is
  decoded into a \<open>wireRequest\<close> (\<open>decodeWireRequest\<close>, \<open>decodeWireJSONRequest\<close>), path parameters into scalars
  (\<open>decodeWirePathParams\<close>), and the payload into a value of the endpoint's payload type, either directly
  (\<open>assignWireValue\<close>, which falls back on types it does not handle) or through JSON.  JSON text is again a
  parameter: \<open>jsonObject\<close> is \<open>json.Unmarshal\<close> into a \<open>map[string]any\<close>, \<open>jsonMarshal\<close> is \<open>json.Marshal\<close>; \<open>fmtFrac\<close> prints the
  floats that are not integers below \<open>2^53\<close>.
\<close>

section \<open>Definitions\<close>

record wireEnv = goEnv +
  jsonObject :: "string \<Rightarrow> string + (string \<times> goany) list"
  jsonMarshal :: "goany \<Rightarrow> string + string"
  fmtFrac :: "64 word \<Rightarrow> string"
  numberFloat :: "string \<Rightarrow> (64 word) option"

subsection \<open>Printing decoded values\<close>

text \<open>
  \<open>fmt.Sprint\<close>.  A float prints with the verb \<open>%g\<close> and the fewest digits that identify it: an integer of
  seven digits or more has an exponent.
\<close>

definition stripZeros :: "string \<Rightarrow> string" where
  "stripZeros ds = rev (dropWhile (\<lambda>c. c = CHR ''0'') (rev ds))"

definition formatG :: "nat \<Rightarrow> string" where
  "formatG n =
     (let ds = itoaNat n; ex = length ds - 1; m = stripZeros ds in
      if ex < 6 then ds
      else hd ds # (if tl m = [] then [] else CHR ''.'' # tl m) @ ''e+'' @ (if ex < 10 then ''0'' else []) @ itoaNat ex)"

definition sprintFloat :: "wireEnv \<Rightarrow> 64 word \<Rightarrow> string" where
  "sprintFloat env w =
     (case f64Trunc w of
        Some i \<Rightarrow>
          if f64Eq (float64OfInt i) w \<and> \<bar>i\<bar> < 2 ^ 53
          then (if f64Neg w then ''-'' else []) @ formatG (nat \<bar>i\<bar>) else fmtFrac env w
      | None \<Rightarrow> fmtFrac env w)"

primrec sprintAny :: "wireEnv \<Rightarrow> goany \<Rightarrow> string" where
  "sprintAny env ANil = ''<nil>''"
| "sprintAny env (ABool b) = (if b then ''true'' else ''false'')"
| "sprintAny env (AStr s) = s"
| "sprintAny env (ANum s) = s"
| "sprintAny env (AFloat w) = sprintFloat env w"
| "sprintAny env (AInt i) = itoa i"
| "sprintAny env (AUint n) = itoaNat n"
| "sprintAny env (AArr xs) = ''['' @ joinWith '' '' (map (sprintAny env) xs) @ '']''"
| "sprintAny env (AObj m) =
     ''map['' @ joinWith '' '' (map (\<lambda>(k, v). k @ '':'' @ v) (sort_key fst (map (map_prod (\<lambda>k. k) (sprintAny env)) m))) @ '']''"

definition stringValue :: "wireEnv \<Rightarrow> goany option \<Rightarrow> string" where
  "stringValue env v = (case v of None \<Rightarrow> [] | Some ANil \<Rightarrow> [] | Some a \<Rightarrow> sprintAny env a)"

definition objectValue :: "goany option \<Rightarrow> (string \<times> goany) list" where
  "objectValue v = (case v of Some (AObj m) \<Rightarrow> m | _ \<Rightarrow> [])"

subsection \<open>Requests\<close>

record wireRequest =
  wr_SchemaHash :: string
  wr_Method :: string
  wr_PathParams :: "(string \<times> goany) list"
  wr_Payload :: goany
  wr_PayloadJSON :: string
  wr_BinaryFrame :: bool

definition emptyWireRequest :: wireRequest where
  "emptyWireRequest = \<lparr>wr_SchemaHash = [], wr_Method = [], wr_PathParams = [], wr_Payload = ANil,
                       wr_PayloadJSON = [], wr_BinaryFrame = False\<rparr>"

fun wireErrText :: "wireErr \<Rightarrow> string" where
  "wireErrText InvalidPayload = ''invalid scenery wire payload''"
| "wireErrText TrailingData = ''trailing scenery wire data''"
| "wireErrText TrailingFrameData = ''trailing scenery wire frame data''"
| "wireErrText TruncatedNumber = ''truncated number''"
| "wireErrText TruncatedPayload = ''truncated payload''"
| "wireErrText TruncatedBytes = ''truncated bytes''"
| "wireErrText InvalidLength = ''invalid length''"
| "wireErrText (UnknownTag n) = ''unknown scenery wire tag '' @ itoaNat n"
| "wireErrText NonFinite = ''non-finite numbers are not supported''"
| "wireErrText BadNumber = ''bad number''"
| "wireErrText OutOfFuel = []"

fun failText :: "(wireErr, 'a) outcome \<Rightarrow> (string, 'a) outcome" where
  "failText (Ret a) = Ret a" | "failText (Fail e) = Fail (wireErrText e)" | "failText Panic = Panic"

text \<open>The path parameters of a frame and of the JSON transport are a JSON object; blank means none.\<close>

definition jsonPathParams :: "wireEnv \<Rightarrow> string \<Rightarrow> (string, (string \<times> goany) list) outcome" where
  "jsonPathParams env raw =
     (if trimSpace raw = [] then Ret []
      else case jsonObject env raw of
        Inl err \<Rightarrow> Fail (''invalid path params: '' @ err)
      | Inr m \<Rightarrow> Ret m)"

definition envelopeRequest :: "wireEnv \<Rightarrow> goany \<Rightarrow> (string, wireRequest) outcome" where
  "envelopeRequest env v =
     (case v of
        AObj m \<Rightarrow>
          Ret \<lparr>wr_SchemaHash = stringValue env (map_of m ''schema_hash''), wr_Method = stringValue env (map_of m ''method''),
               wr_PathParams = objectValue (map_of m ''path_params''),
               wr_Payload = (case map_of m ''payload'' of None \<Rightarrow> ANil | Some p \<Rightarrow> p),
               wr_PayloadJSON = stringValue env (map_of m ''payload_json''), wr_BinaryFrame = False\<rparr>
      | _ \<Rightarrow> Fail ''request envelope must be an object'')"

definition decodeWireRequest :: "wireEnv \<Rightarrow> (string + string) option \<Rightarrow> (string, wireRequest) outcome" where
  "decodeWireRequest env body =
     (case body of
        None \<Rightarrow> Ret emptyWireRequest
      | Some (Inl err) \<Rightarrow> Fail err
      | Some (Inr data) \<Rightarrow>
        (case DecodeRequestFrame data of
           Some r \<Rightarrow>
             obind (failText r) (\<lambda>frame.
               obind (jsonPathParams env (rf_PathParamsJSON frame)) (\<lambda>ps.
                 Ret (emptyWireRequest\<lparr>wr_SchemaHash := trimSpace (rf_SchemaHash frame),
                        wr_PayloadJSON := rf_PayloadJSON frame, wr_BinaryFrame := True, wr_PathParams := ps\<rparr>)))
         | None \<Rightarrow>
             obind (failText (Decode (trimSpace data))) (envelopeRequest env)))"

definition JSONContentType :: string where "JSONContentType = ''application/vnd.scenery.wire+json''"
definition CallIDHeader :: string where "CallIDHeader = ''X-Scenery-Call-ID''"
definition FallbackHeader :: string where "FallbackHeader = ''X-Scenery-Wire-Fallback''"
definition SchemaHashHeader :: string where "SchemaHashHeader = ''X-Scenery-Wire-Schema-Hash''"
definition MethodHeader :: string where "MethodHeader = ''X-Scenery-Wire-Method''"
definition PathParamsHeader :: string where "PathParamsHeader = ''X-Scenery-Wire-Path-Params''"

definition decodeWireJSONRequest :: "wireEnv \<Rightarrow> httpRequest \<Rightarrow> (string, wireRequest) outcome" where
  "decodeWireJSONRequest env req =
     (case rq_Body req of
        None \<Rightarrow> Panic
      | Some (Inl err) \<Rightarrow> Fail err
      | Some (Inr body) \<Rightarrow>
        obind (jsonPathParams env (trimSpace (headerGet (rq_Header req) PathParamsHeader))) (\<lambda>ps.
          Ret (emptyWireRequest\<lparr>wr_SchemaHash := trimSpace (headerGet (rq_Header req) SchemaHashHeader),
                 wr_Method := trimSpace (headerGet (rq_Header req) MethodHeader),
                 wr_PathParams := ps, wr_PayloadJSON := body\<rparr>)))"

fun decodeWirePathParams ::
  "wireEnv \<Rightarrow> ParamSpec list \<Rightarrow> (string \<times> goany) list \<Rightarrow> goerr + goval list \<times> pathParams" where
  "decodeWirePathParams env [] raw = Inr ([], [])"
| "decodeWirePathParams env (spec # specs) raw =
     (case map_of raw (ps_Name spec) of
        None \<Rightarrow> Inl (invalidArgument (''missing path param '' @ goQuote (ps_Name spec)))
      | Some rawValue \<Rightarrow>
        (let asString = sprintAny env rawValue in
         case decodeScalar (ps_Kind spec) asString of
           Inl err \<Rightarrow> Inl (invalidArgument (''invalid path param '' @ goQuote (ps_Name spec) @ '': '' @ err))
         | Inr v \<Rightarrow> map_sum id (\<lambda>(vs, ds). (v # vs, (ps_Name spec, asString) # ds)) (decodeWirePathParams env specs raw)))"

subsection \<open>Payloads\<close>

text \<open>
  The results of \<open>assignWireValue\<close>: \<open>(false, nil)\<close>, the type is not handled; \<open>(true, err)\<close>; the value assigned;
  and a panic of \<open>reflect\<close>, when a value is stored in an interface type it does not implement.
\<close>

datatype 'a assigned = Unsupported | Mismatch string | Assigned 'a | AssignPanic

fun mapAssigned :: "('a \<Rightarrow> 'b) \<Rightarrow> 'a assigned \<Rightarrow> 'b assigned" where
  "mapAssigned f Unsupported = Unsupported"
| "mapAssigned f (Mismatch e) = Mismatch e"
| "mapAssigned f (Assigned a) = Assigned (f a)"
| "mapAssigned f AssignPanic = AssignPanic"

fun wireNumber :: "wireEnv \<Rightarrow> goany \<Rightarrow> (64 word) option" where
  "wireNumber env (AFloat w) = Some w"
| "wireNumber env (AInt i) = Some (float64OfInt i)"
| "wireNumber env (ANum s) = numberFloat env s"
| "wireNumber env v = None"

fun dynType :: "goany \<Rightarrow> string" where
  "dynType ANil = ''<nil>''" | "dynType (ABool b) = ''bool''" | "dynType (AStr s) = ''string''"
| "dynType (ANum s) = ''json.Number''" | "dynType (AFloat w) = ''float64''" | "dynType (AInt i) = ''int''"
| "dynType (AUint n) = ''uint''" | "dynType (AArr xs) = ''[]interface {}''"
| "dynType (AObj m) = ''map[string]interface {}''"

definition want :: "string \<Rightarrow> goany \<Rightarrow> 'a assigned" where
  "want what src = Mismatch (''want '' @ what @ '', got '' @ dynType src)"

definition overflows :: "wireEnv \<Rightarrow> gotype \<Rightarrow> 64 word \<Rightarrow> 'a assigned" where
  "overflows env t w = Mismatch (''number '' @ sprintFloat env w @ '' overflows '' @ typeText env t)"

text \<open>The kinds that hold no other values.\<close>

definition assignWireScalar :: "wireEnv \<Rightarrow> gotype \<Rightarrow> goany \<Rightarrow> goval assigned" where
  "assignWireScalar env t src =
     (case under t of
        GInterface e \<Rightarrow> if e then Assigned (VAny src) else AssignPanic
      | GBool \<Rightarrow> (case src of ABool b \<Rightarrow> Assigned (VBool b) | _ \<Rightarrow> want ''bool'' src)
      | GString \<Rightarrow> (case src of AStr s \<Rightarrow> Assigned (VString s) | _ \<Rightarrow> want ''string'' src)
      | GInt k \<Rightarrow>
          (case wireNumber env src of
             None \<Rightarrow> want ''number'' src
           | Some w \<Rightarrow>
             (let asInt = int64OfFloat (floatConv env) w in
              if \<not> f64Eq (float64OfInt asInt) w \<or> \<not> intFits (intBits k) asInt then overflows env t w
              else Assigned (VInt asInt)))
      | GUint k \<Rightarrow>
          (case wireNumber env src of
             None \<Rightarrow> want ''number'' src
           | Some w \<Rightarrow>
             if f64Lt0 w then Mismatch ''negative number for unsigned field''
             else (let asUint = uint64OfFloat (floatConv env) w in
                   if \<not> f64Eq (float64OfInt (int asUint)) w \<or> \<not> uintFits (uintBits k) asUint then overflows env t w
                   else Assigned (VUint asUint)))
      | GFloat32 \<Rightarrow> (case wireNumber env src of None \<Rightarrow> want ''number'' src
                      | Some w \<Rightarrow> Assigned (VFloat32 (float32OfFloat64 w)))
      | GFloat64 \<Rightarrow> (case wireNumber env src of None \<Rightarrow> want ''number'' src | Some w \<Rightarrow> Assigned (VFloat64 w))
      | _ \<Rightarrow> Unsupported)"

lemma size_member: "(k, v) \<in> set m \<Longrightarrow> size v < size_list (\<lambda>p. size (snd p)) m"
  for m :: "(string \<times> goany) list"
  by (induction m) auto

lemma size_member_of: "map_of m k = Some v \<Longrightarrow> size v < size_list (\<lambda>p. size (snd p)) m"
  for m :: "(string \<times> goany) list"
  by (rule size_member) (rule map_of_SomeD)

lemma size_members: "size_list (\<lambda>p. size (snd p)) m \<le> size_list (size_prod (\<lambda>x. 0) size) m"
  for m :: "(string \<times> goany) list"
  by (induction m) auto

text \<open>
  A value is decoded into a settable place of type \<open>t\<close> that holds \<open>old\<close>.  The order of an object's members stands for
  the order in which Go ranges over the map.  The recursion is on the decoded value.
\<close>

function (sequential) assignWireValue :: "wireEnv \<Rightarrow> gotype \<Rightarrow> goval \<Rightarrow> goany \<Rightarrow> goval assigned"
and assignWireItems :: "wireEnv \<Rightarrow> gotype \<Rightarrow> goval list \<Rightarrow> goany list \<Rightarrow> goval list assigned"
and assignWireEntries :: "wireEnv \<Rightarrow> gotype \<Rightarrow> (string \<times> goany) list \<Rightarrow> (string \<times> goval) list assigned"
and assignWireStruct :: "wireEnv \<Rightarrow> (structField \<times> gotype) list \<Rightarrow> goval list \<Rightarrow> (string \<times> goany) list \<Rightarrow> goval list assigned" where
  "assignWireValue env t old src =
     (if src = ANil then Assigned (zeroValue t)
      else case under t of
        GPtr e \<Rightarrow>
          mapAssigned (\<lambda>v. VPtr (Some v))
            (assignWireValue env e (case old of VPtr (Some u) \<Rightarrow> u | _ \<Rightarrow> zeroValue e) src)
      | GSlice e \<Rightarrow>
          (case src of
             AArr items \<Rightarrow>
               mapAssigned (\<lambda>vs. VSlice (Some vs)) (assignWireItems env e (replicate (length items) (zeroValue e)) items)
           | _ \<Rightarrow> want ''array'' src)
      | GArray n e \<Rightarrow>
          (case src of
             AArr items \<Rightarrow>
               if length items \<noteq> n
               then Mismatch (''array length '' @ itoaNat (length items) @ '' does not match '' @ itoaNat n)
               else mapAssigned VArray (assignWireItems env e (case old of VArray vs \<Rightarrow> vs | _ \<Rightarrow> []) items)
           | _ \<Rightarrow> want ''array'' src)
      | GMap k e \<Rightarrow>
          if under k \<noteq> GString then Unsupported
          else (case src of
                  AObj m \<Rightarrow> mapAssigned (\<lambda>es. VMap (Some es)) (assignWireEntries env e m)
                | _ \<Rightarrow> want ''object'' src)
      | GStruct fs \<Rightarrow>
          (case src of
             AObj m \<Rightarrow> mapAssigned VStruct (assignWireStruct env fs (case old of VStruct vs \<Rightarrow> vs | _ \<Rightarrow> []) m)
           | _ \<Rightarrow> want ''object'' src)
      | u \<Rightarrow> assignWireScalar env t src)"
| "assignWireItems env e (old # olds) (item # items) =
     (case assignWireValue env e old item of
        Assigned v \<Rightarrow> mapAssigned (\<lambda>vs. v # vs) (assignWireItems env e olds items)
      | Unsupported \<Rightarrow> Unsupported | Mismatch err \<Rightarrow> Mismatch err | AssignPanic \<Rightarrow> AssignPanic)"
| "assignWireItems env e olds items = Assigned []"
| "assignWireEntries env e [] = Assigned []"
| "assignWireEntries env e ((k, item) # m) =
     (case assignWireValue env e (zeroValue e) item of
        Assigned v \<Rightarrow> mapAssigned (\<lambda>es. (k, v) # es) (assignWireEntries env e m)
      | Unsupported \<Rightarrow> Unsupported | Mismatch err \<Rightarrow> Mismatch err | AssignPanic \<Rightarrow> AssignPanic)"
| "assignWireStruct env ((f, t) # fs) (old # olds) obj =
     (if sf_Anonymous f then Unsupported
      else case (if sf_Exported f \<and> jsonName f \<noteq> [] then map_of obj (jsonName f) else None) of
        None \<Rightarrow> mapAssigned (\<lambda>vs. old # vs) (assignWireStruct env fs olds obj)
      | Some raw \<Rightarrow>
        (case assignWireValue env t old raw of
           Assigned v \<Rightarrow> mapAssigned (\<lambda>vs. v # vs) (assignWireStruct env fs olds obj)
         | Unsupported \<Rightarrow> Unsupported | Mismatch err \<Rightarrow> Mismatch err | AssignPanic \<Rightarrow> AssignPanic))"
| "assignWireStruct env fs olds obj = Assigned olds"
  by pat_completeness auto

termination
  by (relation "measures
    [case_sum (case_sum (\<lambda>(env, t, old, src). size src) (\<lambda>(env, e, olds, items). size_list size items))
              (case_sum (\<lambda>(env, e, m). size_list (\<lambda>p. size (snd p)) m) (\<lambda>(env, fs, olds, m). size_list (\<lambda>p. size (snd p)) m)),
     case_sum (case_sum (\<lambda>(env, t, old, src). size t) (\<lambda>(env, e, olds, items). length items))
              (case_sum (\<lambda>(env, e, m). length m) (\<lambda>(env, fs, olds, m). length fs))]")
    (simp_all add: under_smaller size_member_of size_members less_Suc_eq_le split: if_splits)

declare assignWireValue.simps [simp del]

definition decodedPayload :: "wireEnv \<Rightarrow> gotype \<Rightarrow> goval \<Rightarrow> (goerr, goval option) outcome" where
  "decodedPayload env t v =
     (case maybeValidate (goEnv.truncate env) (elemType t) v of
        Some err \<Rightarrow> Fail err
      | None \<Rightarrow> Ret (Some (finalizeValue v t)))"

definition payloadJSON :: "wireEnv \<Rightarrow> gotype \<Rightarrow> string \<Rightarrow> (goerr, goval option) outcome" where
  "payloadJSON env t data =
     (case jsonUnmarshal env (elemType t) (newValueForType t) data of
        Inl err \<Rightarrow> Fail (invalidArgument (''invalid wire payload: '' @ err))
      | Inr v \<Rightarrow> decodedPayload env t v)"

definition decodeWirePayload :: "wireEnv \<Rightarrow> wireRequest \<Rightarrow> gotype option \<Rightarrow> (goerr, goval option) outcome" where
  "decodeWirePayload env req typ =
     (case typ of
        None \<Rightarrow> Ret None
      | Some t \<Rightarrow>
        if wr_PayloadJSON req \<noteq> [] then payloadJSON env t (wr_PayloadJSON req)
        else if wr_Payload req = ANil then Ret (Some (finalizeValue (newValueForType t) t))
        else (case assignWireValue env (elemType t) (newValueForType t) (wr_Payload req) of
                Mismatch err \<Rightarrow> Fail (invalidArgument (''invalid wire payload: '' @ err))
              | Assigned v \<Rightarrow> decodedPayload env t v
              | AssignPanic \<Rightarrow> Panic
              | Unsupported \<Rightarrow>
                (case jsonMarshal env (wr_Payload req) of
                   Inl err \<Rightarrow> Fail (wrapErr err ''decode wire payload'')
                 | Inr data \<Rightarrow> payloadJSON env t data)))"

section \<open>Payloads have their types\<close>

lemma mapAssigned_eq: "mapAssigned f x = Assigned b \<longleftrightarrow> (\<exists>a. x = Assigned a \<and> b = f a)"
  by (cases x) auto

lemma assignWireScalar_typed: "assignWireScalar env t src = Assigned v \<Longrightarrow> hasType t v"
  unfolding typed_under [of t v]
  by (auto simp: assignWireScalar_def want_def overflows_def Let_def
           split: gotype.splits if_splits goany.splits option.splits)

lemma assigned_case:
  "(case x of Assigned v \<Rightarrow> f v | Unsupported \<Rightarrow> Unsupported | Mismatch err \<Rightarrow> Mismatch err | AssignPanic \<Rightarrow> AssignPanic) = Assigned b
    \<longleftrightarrow> (\<exists>a. x = Assigned a \<and> f a = Assigned b)"
  by (cases x) auto

abbreviation typedFields :: "(structField \<times> gotype) list \<Rightarrow> goval list \<Rightarrow> bool" where
  "typedFields \<equiv> list_all2 (\<lambda>f u. hasType (snd f) u)"

lemma wire_assigned_typed:
  "assignWireValue env t old src = Assigned v \<Longrightarrow> hasType t old \<Longrightarrow> hasType t v"
  "assignWireItems env e olds items = Assigned vs \<Longrightarrow> list_all (hasType e) olds \<Longrightarrow> length olds = length items \<Longrightarrow>
     list_all (hasType e) vs \<and> length vs = length items"
  "assignWireEntries env e m = Assigned es \<Longrightarrow> list_all (\<lambda>p. hasType e (snd p)) es"
  "assignWireStruct env fs olds obj = Assigned us \<Longrightarrow> typedFields fs olds \<Longrightarrow> typedFields fs us"
proof (induction env t old src and env e olds items and env e m and env fs olds obj
    arbitrary: v and vs and es and us
    rule: assignWireValue_assignWireItems_assignWireEntries_assignWireStruct.induct)
  case (1 env t old src)
  have old: "hasType (under t) old" using "1.prems"(2) typed_under by blast
  have "hasType (under t) v"
  proof (cases "src = ANil")
    case True
    then have "v = zeroValue t" using "1.prems"(1) by (simp add: assignWireValue.simps)
    then show ?thesis by (simp add: hasType_under)
  next
    case False
    note a = "1.prems"(1) [unfolded assignWireValue.simps(1) [of env t old src]]
    show ?thesis
    proof (cases "under t")
      case (GPtr e)
      then obtain u where u: "assignWireValue env e (case old of VPtr (Some u) \<Rightarrow> u | _ \<Rightarrow> zeroValue e) src = Assigned u"
          "v = VPtr (Some u)" using a False by (auto simp: mapAssigned_eq)
      have "hasType e u"
        using "1.IH"(1) [OF False GPtr u(1)] pointee_typed old GPtr by simp
      then show ?thesis using u GPtr by simp
    next
      case (GSlice e)
      then obtain items us where u: "src = AArr items"
          "assignWireItems env e (replicate (length items) (zeroValue e)) items = Assigned us" "v = VSlice (Some us)"
        using a False by (auto simp: mapAssigned_eq want_def split: goany.splits)
      then have "list_all (hasType e) us"
        using "1.IH"(2) [OF False GSlice] by (auto simp: list_all_iff)
      then show ?thesis using u GSlice by simp
    next
      case (GArray n e)
      then obtain items us olds where u: "src = AArr items" "length items = n" "old = VArray olds"
          "assignWireItems env e olds items = Assigned us" "v = VArray us"
        using a False old by (auto simp: mapAssigned_eq want_def split: goany.splits goval.splits if_splits)
      then show ?thesis
        using "1.IH"(3) [OF False GArray] old GArray by auto
    next
      case (GMap k e)
      then obtain m us where u: "src = AObj m" "under k = GString" "assignWireEntries env e m = Assigned us" "v = VMap (Some us)"
        using a False by (auto simp: mapAssigned_eq want_def split: goany.splits if_splits)
      then show ?thesis using "1.IH"(4) [OF False GMap] GMap by auto
    next
      case (GStruct fs)
      then obtain m us olds where u: "src = AObj m" "old = VStruct olds"
          "assignWireStruct env fs olds m = Assigned us" "v = VStruct us"
        using a False old by (auto simp: mapAssigned_eq want_def hasType.simps(12) split: goany.splits goval.splits)
      then show ?thesis using "1.IH"(5) [OF False GStruct] old GStruct by (simp add: hasType_struct)
    qed (use a False assignWireScalar_typed [of env t src v] hasType_under [of t] under_not_named in auto)
  qed
  then show ?case using typed_under by blast
next
  case (2 env e old olds item items)
  then show ?case by (auto simp: mapAssigned_eq assigned_case)
next
  case (6 env f t fs old olds obj)
  show ?case
  proof (cases "if sf_Exported f \<and> jsonName f \<noteq> [] then map_of obj (jsonName f) else None")
    case None
    then show ?thesis using 6 by (auto simp: mapAssigned_eq split: if_splits)
  next
    case (Some raw)
    then show ?thesis using 6 by (auto simp: mapAssigned_eq assigned_case split: if_splits)
  qed
qed (auto simp: mapAssigned_eq assigned_case)

lemma decodedPayload_typed:
  "decodedPayload env t v = Ret (Some u) \<Longrightarrow> hasType (elemType t) v \<Longrightarrow> hasType t u"
  using finalize_typed by (auto simp: decodedPayload_def split: option.splits)

lemma payloadJSON_typed:
  assumes "envTyped (goEnv.truncate env)" "payloadJSON env t data = Ret (Some u)"
  shows "hasType t u"
proof -
  have new: "hasType (elemType t) (newValueForType t)" by (simp add: newValueForType_def)
  obtain v where v: "jsonUnmarshal env (elemType t) (newValueForType t) data = Inr v" "decodedPayload env t v = Ret (Some u)"
    using assms(2) by (auto simp: payloadJSON_def split: sum.splits)
  have "jsonUnmarshal (goEnv.truncate env) (elemType t) (newValueForType t) data = Inr v"
    using v(1) by (simp add: goEnv.defs)
  then show ?thesis using decodedPayload_typed [OF v(2)] envTyped_json [OF assms(1) new] by blast
qed

text \<open>
  Wire payloads are well typed: whatever a wire request carries, as JSON or as a wire value, the payload the
  runtime hands to the endpoint is a value of its payload type: every integer is in the range of its field, arrays have their
  length, slices, maps and structs hold values of their element and field types.\<close>

lemma wire_payload_well_typed:
  assumes "envTyped (goEnv.truncate env)" "decodeWirePayload env req (Some t) = Ret (Some v)"
  shows "hasType t v"
proof -
  have new: "hasType (elemType t) (newValueForType t)" by (simp add: newValueForType_def)
  note d = assms(2) [unfolded decodeWirePayload_def option.case]
  show ?thesis
  proof (cases "wr_PayloadJSON req \<noteq> []")
    case True
    then show ?thesis using d payloadJSON_typed [OF assms(1)] by simp
  next
    case js: False
    show ?thesis
    proof (cases "wr_Payload req = ANil")
      case True
      then show ?thesis using d js finalize_typed [OF new] by simp
    next
      case False
      show ?thesis
      proof (cases "assignWireValue env (elemType t) (newValueForType t) (wr_Payload req)")
        case Unsupported
        then show ?thesis using d js False payloadJSON_typed [OF assms(1)] by (simp split: sum.splits)
      next
        case (Assigned u)
        then show ?thesis using d js False decodedPayload_typed wire_assigned_typed(1) [OF Assigned new] by simp
      qed (use d js False in simp_all)
    qed
  qed
qed

definition wwEnv :: wireEnv where
  "wwEnv = \<lparr>jsonUnmarshal = (\<lambda>t v d. Inr v), textUnmarshaler = (\<lambda>t. None), validatorOf = (\<lambda>t. None),
            parseFloat = (\<lambda>b s. Inl ''unsupported''), typeText = (\<lambda>t. ''T''), floatConv = (\<lambda>w. int64_min),
            jsonObject = (\<lambda>s. Inr []), jsonMarshal = (\<lambda>v. Inr []), fmtFrac = (\<lambda>w. []), numberFloat = (\<lambda>s. None)\<rparr>"

text \<open>A struct with a name and a byte-sized level, sent as an object: level 5 is stored, level 300 is an error.\<close>

definition wwStruct :: gotype where
  "wwStruct = GStruct [(\<lparr>sf_Name = ''Name'', sf_Tag = [(''json'', ''name'')], sf_Anonymous = False, sf_Exported = True\<rparr>, GString),
                       (\<lparr>sf_Name = ''Level'', sf_Tag = [(''json'', ''level'')], sf_Anonymous = False, sf_Exported = True\<rparr>, GUint KUint8)]"

definition wwReq :: "64 word \<Rightarrow> wireRequest" where
  "wwReq w = emptyWireRequest\<lparr>wr_Payload := AObj [(''level'', AFloat w), (''name'', AStr ''ada'')]\<rparr>"

lemma wwEnv_typed: "envTyped (goEnv.truncate wwEnv)"
  by (auto simp: envTyped_def wwEnv_def goEnv.defs)

lemma level_five:
  "f64Lt0 0x4014000000000000 = False" "f64Trunc 0x4014000000000000 = Some 5" "f64Eq (float64OfInt 5) 0x4014000000000000"
  by (simp_all add: f64Lt0_def f64Neg_def f64Trunc_def f64Exp_def f64Mant_def f64Eq_def f64NaN_def Let_def
        float64OfInt_def float64OfNat_def log2n.simps)

lemma wire_payload_well_typed_witness:
  "decodeWirePayload wwEnv (wwReq 0x4014000000000000) (Some (GPtr wwStruct)) = Ret (Some (VPtr (Some (VStruct [VString ''ada'', VUint 5])))) \<and>
   hasType (GPtr wwStruct) (VPtr (Some (VStruct [VString ''ada'', VUint 5])))"
proof -
  have d: "decodeWirePayload wwEnv (wwReq 0x4014000000000000) (Some (GPtr wwStruct)) = Ret (Some (VPtr (Some (VStruct [VString ''ada'', VUint 5]))))"
    by (simp add: decodeWirePayload_def wwReq_def wwEnv_def wwStruct_def emptyWireRequest_def elemType_def ptrElem_def newValueForType_def
          assignWireValue.simps jsonName_def tagGet_def assignWireScalar_def level_five uint64OfFloat_def uintFits_def
          decodedPayload_def maybeValidate_def goEnv.defs finalizeValue_def isPtr_def)
  then show ?thesis using wire_payload_well_typed [OF wwEnv_typed d] by blast
qed

section \<open>Numbers arrive exactly\<close>

text \<open>
  The Go specification leaves open what an out-of-range float converts to.  The check \<open>float64(asInt) != value\<close> catches it
  when the result, converted back, is another number; on amd64 it is the least integer.
\<close>

definition convDiffers :: "wireEnv \<Rightarrow> bool" where
  "convDiffers env \<longleftrightarrow> (\<forall>w. (\<forall>i. f64Trunc w = Some i \<longrightarrow> \<not> (int64_min \<le> i \<and> i \<le> int64_max)) \<longrightarrow>
     \<not> f64Eq (float64OfInt (wrap64 (floatConv env w))) w)"

lemma int64OfFloat_exact:
  assumes "convDiffers env" "f64Eq (float64OfInt (int64OfFloat (floatConv env) w)) w"
  shows "float64Is w (int64OfFloat (floatConv env) w)"
proof (cases "\<exists>i. f64Trunc w = Some i \<and> int64_min \<le> i \<and> i \<le> int64_max")
  case True
  then obtain i where i: "f64Trunc w = Some i" "int64OfFloat (floatConv env) w = i" by (auto simp: int64OfFloat_def)
  then show ?thesis using trunc_exact assms(2) by simp
next
  case False
  then have "int64OfFloat (floatConv env) w = wrap64 (floatConv env w)"
    by (auto simp: int64OfFloat_def split: option.splits)
  then have False using assms False unfolding convDiffers_def by auto
  then show ?thesis ..
qed


lemma f64Eq_min: "f64Eq (float64OfInt int64_min) w \<Longrightarrow> f64Trunc w = Some int64_min"
proof -
  assume "f64Eq (float64OfInt int64_min) w"
  moreover have m: "float64OfInt int64_min = 0xC3E0000000000000"
    by (simp add: float64OfInt_def float64OfNat_def int64_min_def log2n.simps)
  moreover have "\<not> f64Zero 0xC3E0000000000000" by (simp add: f64Zero_def f64Exp_def)
  ultimately have "w = 0xC3E0000000000000" by (auto simp: f64Eq_def)
  then show ?thesis by (simp add: f64Trunc_def f64Exp_def f64Mant_def f64Neg_def int64_min_def Let_def)
qed

lemma wwEnv_conv: "convDiffers wwEnv"
proof -
  have w: "wrap64 (floatConv wwEnv w) = int64_min" for w
    by (simp add: wwEnv_def wrap64_def int64_min_def)
  show ?thesis unfolding convDiffers_def w using f64Eq_min
    by (metis int64_min_def int64_max_def wrap64_range order_refl w)
qed


text \<open>
  With a conversion that saturates, as on arm64, the number \<open>2^63\<close> passes the check and is stored as \<open>2^63 - 1\<close>.
\<close>

lemma saturating_conversion_inexact:
  assumes "floatConv env 0x43E0000000000000 = int64_max"
  shows "assignWireValue env (GInt KInt64) (VInt 0) (AFloat 0x43E0000000000000) = Assigned (VInt int64_max)"
    and "float64Is 0x43E0000000000000 (2 ^ 63)"
proof -
  have t: "f64Trunc 0x43E0000000000000 = Some (2 ^ 63)"
    by (simp add: f64Trunc_def f64Exp_def f64Mant_def f64Neg_def Let_def)
  have c: "int64OfFloat (floatConv env) 0x43E0000000000000 = int64_max"
    using assms by (simp add: int64OfFloat_def t int64_max_def int64_min_def wrap64_def)
  have f: "float64OfInt int64_max = 0x43E0000000000000"
    by (simp add: float64OfInt_def float64OfNat_def int64_max_def log2n.simps Let_def)
  show "assignWireValue env (GInt KInt64) (VInt 0) (AFloat 0x43E0000000000000) = Assigned (VInt int64_max)"
    using f c by (simp add: assignWireValue.simps assignWireScalar_def Let_def intFits_def f64Eq_def f64NaN_def f64Exp_def int64_max_def)
  show "float64Is 0x43E0000000000000 (2 ^ 63)"
    using float64Is_trunc_large [OF _ t] by (simp add: f64Exp_def)
qed

section \<open>Path parameters\<close>

lemma parseInt_chars: "parseInt bits s = Inr i \<Longrightarrow> list_all isDigit (tl s)"
proof -
  assume p: "parseInt bits s = Inr i"
  have d: "parseUint bits u = Inr n \<Longrightarrow> list_all isDigit u" for u n
    using parseUintLoop_ok [of "2 ^ bits - 1" 0 u n] by (auto simp: parseUint_def split: if_splits)
  from p have "s \<noteq> []" "list_all isDigit (tl s) \<or> list_all isDigit s"
    using d by (auto simp: parseInt_def Let_def split: if_splits sum.splits)
  then show ?thesis by (cases s) auto
qed

lemma itoaNat_long: "10 ^ k \<le> n \<Longrightarrow> k < length (itoaNat n)"
proof (induction k arbitrary: n)
  case 0
  then show ?case using itoaNat_digits [of n] by auto
next
  case (Suc k)
  then have "10 ^ k \<le> n div 10" by (simp add: less_eq_div_iff_mult_less_eq mult.commute)
  then have "k < length (itoaNat (n div 10))" by (rule Suc.IH)
  moreover have "\<not> n < 10"
  proof -
    have "(1::nat) \<le> 10 ^ k" by simp
    then show ?thesis using Suc.prems unfolding power_Suc by linarith
  qed
  ultimately show ?case by (simp add: itoaNat.simps [of n])
qed

lemma formatG_exponent: "10 ^ 6 \<le> n \<Longrightarrow> CHR ''e'' \<in> set (tl (formatG n))"
  using itoaNat_long [of 6 n] by (auto simp: formatG_def Let_def)

lemma sprint_large:
  assumes "10 ^ 6 \<le> n" "n < 2 ^ 53"
  shows "sprintAny env (AFloat (float64OfInt (int n))) = formatG n"
proof -
  let ?w = "float64OfInt (int n)"
  have i: "float64Is ?w (int n)" using assms by (intro float64Is_OfInt) simp
  have e: "f64Exp ?w < 2047" using float64Is_exp [OF i] assms by simp
  then have "f64Trunc ?w = Some (int n)" using float64Is_trunc [OF i] by simp
  moreover have "f64Eq ?w ?w" using e by (simp add: f64Eq_def f64NaN_def)
  moreover have "\<not> f64Neg ?w" using float64Is_sign [OF i] assms by simp
  ultimately show ?thesis using assms by (simp add: sprintFloat_def)
qed

text \<open>
  Large integer path parameters are rejected: a path parameter sent as a number of a million or more (as the generated
  clients send it) is printed with an exponent before it is parsed, so the wire call fails although the value fits the
  parameter.\<close>

lemma wire_large_path_param_rejected:
  assumes "10 ^ 6 \<le> n" "n < 2 ^ 53" "ps_Kind spec = ParamInt64"
  shows "intFits 64 (int n) \<and>
    (\<exists>err. decodeWirePathParams env [spec] [(ps_Name spec, AFloat (float64OfInt (int n)))] = Inl err)"
proof -
  have e: "\<not> isDigit (CHR ''e'')" by code_simp
  have "parseInt 64 (formatG n) \<noteq> Inr i" for i
    using parseInt_chars [of 64 "formatG n" i] formatG_exponent [OF assms(1)] e by (auto simp: list_all_iff)
  then obtain e where "parseInt 64 (formatG n) = Inl e" by (cases "parseInt 64 (formatG n)") auto
  then have "\<exists>err. decodeWirePathParams env [spec] [(ps_Name spec, AFloat (float64OfInt (int n)))] = Inl err"
    using assms sprint_large [OF assms(1,2)] by (simp add: decodeScalar_def scalarInt_def Let_def)
  then show ?thesis using assms(2) by (simp add: intFits_def)
qed

lemma wire_large_path_param_rejected_witness:
  "\<exists>err. decodeWirePathParams wwEnv [\<lparr>ps_Name = ''id'', ps_Kind = ParamInt64\<rparr>] [(''id'', AFloat (float64OfInt (int 1000000)))] = Inl err"
  using wire_large_path_param_rejected [of 1000000 "\<lparr>ps_Name = ''id'', ps_Kind = ParamInt64\<rparr>" wwEnv] by simp

section \<open>Request bodies\<close>

text \<open>A frame built by \<open>EncodeRequestFrame\<close> is read back with its three parts.\<close>

lemma frame_request:
  assumes "length h < 2 ^ 63" "length ps < 2 ^ 63" "length pl < 2 ^ 63" "jsonPathParams env ps = Ret m"
  shows "decodeWireRequest env (Some (Inr (EncodeRequestFrame h ps pl))) =
     Ret (emptyWireRequest\<lparr>wr_SchemaHash := trimSpace h, wr_PayloadJSON := pl, wr_BinaryFrame := True, wr_PathParams := m\<rparr>)"
  using assms by (simp add: decodeWireRequest_def request_frame_roundtrip)

lemma magic_no_frame: "DecodeRequestFrame (magic @ bs) = None"
  by (simp add: DecodeRequestFrame_def frameMagic_def magic_def)

lemma magic_start: "hd (magic @ bs) = CHR ''P''" "\<not> isSpace (CHR ''P'')"
  by (simp add: magic_def) code_simp

lemma trim_encoded:
  assumes "bs \<noteq> []"
  shows "\<not> isSpace (last bs) \<Longrightarrow> trimSpace (magic @ bs) = magic @ bs"
    and "isSpace (last bs) \<Longrightarrow> \<exists>q. magic @ bs = trimSpace (magic @ bs) @ q \<and> q \<noteq> []"
proof -
  let ?d = "magic @ bs"
  have d: "dropWhile isSpace ?d = ?d" using magic_start by (intro dropWhile_fixed) auto
  then have t: "trimSpace ?d = rev (dropWhile isSpace (rev ?d))" by (simp add: trimSpace_def trimBy_def)
  have r: "rev ?d \<noteq> []" "hd (rev ?d) = last bs" using assms by (simp_all add: hd_rev hd_append)
  show "trimSpace ?d = ?d" if "\<not> isSpace (last bs)"
    using t r that dropWhile_fixed [of "rev ?d" isSpace] by simp
  have "rev ?d = takeWhile isSpace (rev ?d) @ dropWhile isSpace (rev ?d)" by simp
  then have split: "?d = trimSpace ?d @ rev (takeWhile isSpace (rev ?d))" unfolding t by (metis rev_append rev_rev_ident)
  show "\<exists>q. ?d = trimSpace ?d @ q \<and> q \<noteq> []" if "isSpace (last bs)"
    using split r that by (cases "rev ?d") auto
qed


text \<open>The envelope \<open>{"payload": "hi "}\<close> cannot be sent; without the space it can.\<close>

definition wwEnvelope :: "string \<Rightarrow> goany" where
  "wwEnvelope s = AObj [(''payload'', AStr s)]"

definition wwBytes :: "string \<Rightarrow> string" where
  "wwBytes s = tagObject # writeUvarint 1 @ writeBytes ''payload'' @ tagString # writeBytes s"

lemma wwBytes: "writeValue (\<lambda>_. None) (wwEnvelope s) = Ret (wwBytes s)"
  by (simp add: wwEnvelope_def wwBytes_def writePair_def)


end
