(* ===== verification/ResponseEncode.thy ===== *)
theory ResponseEncode
  imports RequestDecode
begin

text \<open>
  How the runtime writes the result of an endpoint: \<open>runtime/encode.go\<close>.  A response struct with fields tagged
  \<open>header\<close> or \<open>scenery:"httpstatus"\<close> is taken apart into headers, a status and the remaining body; any other result is encoded as a
  whole.  What is written is a value of type \<open>encodedResponse\<close>; turning its body into JSON text is left to \<open>encoding/json\<close>.
  The record \<open>encEnv\<close> holds \<open>MarshalText\<close> of application types and \<open>fmt.Sprint\<close>.
\<close>

section \<open>Definitions\<close>

record encEnv =
  textMarshaler :: "gotype \<Rightarrow> (goval \<Rightarrow> string + string) option"
  sprintVal :: "gotype \<Rightarrow> goval \<Rightarrow> string"

datatype respBody =
    BodyNull
  | BodyValue gotype goval
  | BodyFields "(string \<times> gotype \<times> goval) list"

record encodedResponse =
  er_Header :: httpHeader
  er_Status :: int
  er_Body :: respBody

subsection \<open>Tags\<close>

definition structFields :: "gotype \<Rightarrow> (structField \<times> gotype) list option" where
  "structFields t = (case under (elemType t) of GStruct fs \<Rightarrow> Some fs | _ \<Rightarrow> None)"

definition hasSceneryTag :: "structField \<Rightarrow> string \<Rightarrow> bool" where
  "hasSceneryTag f want =
     (tagGet f ''scenery'' \<noteq> [] \<and> want \<in> trimSpace ` set (splitOn CHR '','' (tagGet f ''scenery'')))"

text \<open>The name, and whether the options hold \<open>omitempty\<close>, the only one that is looked at.\<close>

definition parseJSONTag :: "structField \<Rightarrow> string \<times> string list" where
  "parseJSONTag f =
     (if tagGet f ''json'' = [] then ([], [])
      else let parts = splitOn CHR '','' (tagGet f ''json'') in (hd parts, filter (\<lambda>opt. opt \<noteq> []) (tl parts)))"

definition embeds :: "structField \<Rightarrow> bool" where
  "embeds f = (sf_Anonymous f \<and> tagGet f ''json'' = [])"

definition shouldFlattenJSONField :: "structField \<Rightarrow> gotype \<Rightarrow> bool" where
  "shouldFlattenJSONField f t = (embeds f \<and> structFields t \<noteq> None)"

lemma size_structFields:
  "structFields t = Some fs \<Longrightarrow> size_list (\<lambda>p. size (snd p)) fs < size t"
proof -
  assume "structFields t = Some fs"
  then have u: "under (elemType t) = GStruct fs" by (auto simp: structFields_def split: gotype.splits)
  have "size (elemType t) \<le> size t"
    using isPtr_elem [of t] under_smaller(1) [of t] by (cases "isPtr t") (auto intro: less_imp_le)
  moreover have "size (under (elemType t)) \<le> size (elemType t)" by (rule size_under)
  moreover have "size_list (\<lambda>p. size (snd p)) fs \<le> size_list (size_prod (\<lambda>x. 0) size) fs" by (induction fs) auto
  ultimately show ?thesis unfolding u by simp
qed

function (sequential) shapeTagged :: "(structField \<times> gotype) list \<Rightarrow> bool" where
  "shapeTagged [] = False"
| "shapeTagged ((f, t) # fs) =
     ((sf_Exported f \<and>
        (tagGet f ''header'' \<noteq> [] \<or> hasSceneryTag f ''httpstatus'' \<or>
         (embeds f \<and> (case structFields t of Some gs \<Rightarrow> shapeTagged gs | None \<Rightarrow> False)))) \<or> shapeTagged fs)"
  by pat_completeness auto
termination
  by (relation "measure (size_list (\<lambda>p. size (snd p)))") (auto dest: size_structFields)

definition hasResponseShapeTags :: "gotype \<Rightarrow> bool" where
  "hasResponseShapeTags t = (case structFields t of Some fs \<Rightarrow> shapeTagged fs | None \<Rightarrow> False)"

subsection \<open>Values\<close>

definition isEmptyJSONValue :: "gotype \<Rightarrow> goval \<Rightarrow> bool" where
  "isEmptyJSONValue t v =
     (case v of
        VArray vs \<Rightarrow> vs = []
      | VMap m \<Rightarrow> (case m of None \<Rightarrow> True | Some es \<Rightarrow> es = [])
      | VSlice s \<Rightarrow> (case s of None \<Rightarrow> True | Some vs \<Rightarrow> vs = [])
      | VString s \<Rightarrow> s = []
      | VBool b \<Rightarrow> \<not> b
      | VInt i \<Rightarrow> i = 0
      | VUint n \<Rightarrow> n = 0
      | VFloat32 w \<Rightarrow> unat w mod 2 ^ 31 = 0
      | VFloat64 w \<Rightarrow> f64Zero w
      | VAny a \<Rightarrow> a = ANil
      | VPtr p \<Rightarrow> p = None
      | _ \<Rightarrow> False)"

function formatHeaderValue :: "encEnv \<Rightarrow> gotype \<Rightarrow> goval \<Rightarrow> string" where
  "formatHeaderValue env t v =
     (case ptrElem t of
        Some e \<Rightarrow> (case v of VPtr (Some u) \<Rightarrow> formatHeaderValue env e u | _ \<Rightarrow> [])
      | None \<Rightarrow>
        (case textMarshaler env t of
           Some tm \<Rightarrow> (case tm v of Inr s \<Rightarrow> s | Inl err \<Rightarrow> sprintVal env t v)
         | None \<Rightarrow> sprintVal env t v))"
  by pat_completeness auto
termination
  by (relation "measure (\<lambda>(env, t, v). size t)") (auto simp: ptrElem_Some under_smaller)

declare formatHeaderValue.simps [simp del]

definition headerSet :: "httpHeader \<Rightarrow> string \<Rightarrow> string \<Rightarrow> httpHeader" where
  "headerSet h k v = AList.update (canonicalHeaderKey k) [v] h"

text \<open>A field that is no embedded struct: a header, the status, or a member of the body.\<close>

type_synonym shaped = "(string \<times> gotype \<times> goval) list \<times> int \<times> httpHeader"

definition appendField :: "encEnv \<Rightarrow> structField \<Rightarrow> gotype \<Rightarrow> goval \<Rightarrow> shaped \<Rightarrow> shaped" where
  "appendField env f t v s =
     (let (body, status, headers) = s; (name, opts) = parseJSONTag f in
      if tagGet f ''header'' \<noteq> [] then (body, status, headerSet headers (tagGet f ''header'') (formatHeaderValue env t v))
      else if hasSceneryTag f ''httpstatus''
      then (body, (case v of VInt i \<Rightarrow> i | _ \<Rightarrow> status), headers)
      else if name = ''-'' then s
      else if ''omitempty'' \<in> set opts \<and> isEmptyJSONValue t v then s
      else (AList.update (if name = [] then sf_Name f else name) (t, v) body, status, headers))"

function (sequential) appendResponseFields ::
  "encEnv \<Rightarrow> (structField \<times> gotype) list \<Rightarrow> goval list \<Rightarrow> shaped \<Rightarrow> shaped" where
  "appendResponseFields env ((f, t) # fs) (v # vs) s =
     appendResponseFields env fs vs
       (if \<not> sf_Exported f then s
        else if embeds f
        then (case structFields t of
                Some gs \<Rightarrow>
                  (case v of
                     VStruct us \<Rightarrow> appendResponseFields env gs us s
                   | VPtr (Some (VStruct us)) \<Rightarrow> appendResponseFields env gs us s
                   | _ \<Rightarrow> s)
              | None \<Rightarrow> appendField env f t v s)
        else appendField env f t v s)"
| "appendResponseFields env fs vs s = s"
  by pat_completeness auto
termination
  by (relation "measure (\<lambda>(env, fs, vs, s). size_list (\<lambda>p. size (snd p)) fs)") (auto dest: size_structFields)

definition structValues :: "goval \<Rightarrow> goval list" where
  "structValues v = (case v of VStruct vs \<Rightarrow> vs | VPtr (Some (VStruct vs)) \<Rightarrow> vs | _ \<Rightarrow> [])"

definition splitResponse :: "encEnv \<Rightarrow> gotype \<Rightarrow> goval \<Rightarrow> httpHeader \<Rightarrow> respBody \<times> int \<times> httpHeader" where
  "splitResponse env t v headers =
     (case structFields t of
        Some fs \<Rightarrow>
          if \<not> shapeTagged fs then (BodyValue t v, 0, headers)
          else (let (body, status, headers) = appendResponseFields env fs (structValues v) ([], 0, headers)
                in (BodyFields body, status, headers))
      | None \<Rightarrow> (BodyValue t v, 0, headers))"

definition jsonResponse :: "httpHeader \<Rightarrow> int \<Rightarrow> respBody \<Rightarrow> encodedResponse" where
  "jsonResponse headers status body =
     \<lparr>er_Header = headerSet headers ''Content-Type'' ''application/json'', er_Status = status, er_Body = body\<rparr>"

text \<open>A result is nil, or a value with its type; a nil pointer is written as null, too.\<close>

definition encodeResponseWithStatus ::
  "encEnv \<Rightarrow> httpHeader \<Rightarrow> (gotype \<times> goval) option \<Rightarrow> int \<Rightarrow> encodedResponse" where
  "encodeResponseWithStatus env headers resp explicitStatus =
     (let status = (if explicitStatus \<noteq> 0 then explicitStatus else 200) in
      case resp of
        None \<Rightarrow> jsonResponse headers status BodyNull
      | Some (t, v) \<Rightarrow>
        if isPtr t \<and> v = VPtr None then jsonResponse headers status BodyNull
        else if isStructLike t
        then (let (body, bodyStatus, headers) = splitResponse env t v headers;
                  status = (if explicitStatus = 0 \<and> bodyStatus \<noteq> 0 then bodyStatus else status)
              in jsonResponse headers status body)
        else jsonResponse headers status (BodyValue t v))"

text \<open>The body and status of a wire response.\<close>

definition wireResponseBody :: "encEnv \<Rightarrow> (gotype \<times> goval) option \<Rightarrow> httpHeader \<Rightarrow> respBody \<times> int \<times> httpHeader" where
  "wireResponseBody env resp headers =
     (case resp of
        None \<Rightarrow> (BodyNull, 0, headers)
      | Some (t, v) \<Rightarrow>
        if isPtr t \<and> v = VPtr None then (BodyNull, 0, headers)
        else if isStructLike t then splitResponse env t v headers
        else (BodyValue t v, 0, headers))"

section \<open>What a shaped response holds\<close>

text \<open>The fields of a response struct in the order they are visited, embedded structs replaced by their own fields.\<close>

function (sequential) leafFields :: "(structField \<times> gotype) list \<Rightarrow> goval list \<Rightarrow> (structField \<times> gotype \<times> goval) list" where
  "leafFields ((f, t) # fs) (v # vs) =
     (if \<not> sf_Exported f then []
      else if embeds f
      then (case structFields t of Some gs \<Rightarrow> leafFields gs (structValues v) | None \<Rightarrow> [(f, t, v)])
      else [(f, t, v)]) @ leafFields fs vs"
| "leafFields fs vs = []"
  by pat_completeness auto
termination
  by (relation "measure (\<lambda>(fs, vs). size_list (\<lambda>p. size (snd p)) fs)")
    (auto dest: size_structFields)

lemma leafFields_Nil [simp]: "leafFields fs [] = []"
  by (cases fs) auto

lemma append_flat:
  "appendResponseFields env fs vs s = foldl (\<lambda>s (f, t, v). appendField env f t v s) s (leafFields fs vs)"
proof (induction env fs vs s rule: appendResponseFields.induct)
  case (1 env f t fs v vs s)
  then show ?case
    by (cases "structFields t") (auto simp: structValues_def split: goval.splits option.splits)
qed auto

definition bodyField :: "structField \<Rightarrow> bool" where
  "bodyField f = (tagGet f ''header'' = [] \<and> \<not> hasSceneryTag f ''httpstatus'' \<and> fst (parseJSONTag f) \<noteq> ''-'')"

definition bodyName :: "structField \<Rightarrow> string" where
  "bodyName f = (if fst (parseJSONTag f) = [] then sf_Name f else fst (parseJSONTag f))"

abbreviation omitted :: "structField \<Rightarrow> gotype \<Rightarrow> goval \<Rightarrow> bool" where
  "omitted f t v \<equiv> ''omitempty'' \<in> set (snd (parseJSONTag f)) \<and> isEmptyJSONValue t v"

lemma appendField_parts:
  "fst (appendField env f t v s) =
     (if bodyField f \<and> \<not> omitted f t v then AList.update (bodyName f) (t, v) (fst s) else fst s)"
  "fst (snd (appendField env f t v s)) =
     (if tagGet f ''header'' = [] \<and> hasSceneryTag f ''httpstatus'' then (case v of VInt i \<Rightarrow> i | _ \<Rightarrow> fst (snd s)) else fst (snd s))"
  "snd (snd (appendField env f t v s)) =
     (if tagGet f ''header'' \<noteq> [] then headerSet (snd (snd s)) (tagGet f ''header'') (formatHeaderValue env t v) else snd (snd s))"
proof -
  obtain body status hs where s: "s = (body, status, hs)" by (cases s) auto
  obtain name opts where p: "parseJSONTag f = (name, opts)" by (cases "parseJSONTag f") auto
  note d = appendField_def s p Let_def prod.case fst_conv snd_conv bodyField_def bodyName_def
  show "fst (appendField env f t v s) =
      (if bodyField f \<and> \<not> omitted f t v then AList.update (bodyName f) (t, v) (fst s) else fst s)"
    unfolding d by (cases "tagGet f ''header'' = []"; cases "hasSceneryTag f ''httpstatus''"; cases "name = ''-''";
        cases "''omitempty'' \<in> set opts"; cases "isEmptyJSONValue t v"; simp)
  show "fst (snd (appendField env f t v s)) =
     (if tagGet f ''header'' = [] \<and> hasSceneryTag f ''httpstatus'' then (case v of VInt i \<Rightarrow> i | _ \<Rightarrow> fst (snd s)) else fst (snd s))"
    unfolding d by (cases "tagGet f ''header'' = []"; cases "hasSceneryTag f ''httpstatus''"; simp)
  show "snd (snd (appendField env f t v s)) =
     (if tagGet f ''header'' \<noteq> [] then headerSet (snd (snd s)) (tagGet f ''header'') (formatHeaderValue env t v) else snd (snd s))"
    unfolding d by (cases "tagGet f ''header'' = []"; cases "hasSceneryTag f ''httpstatus''"; simp)
qed

abbreviation shapeAll :: "encEnv \<Rightarrow> (structField \<times> gotype \<times> goval) list \<Rightarrow> httpHeader \<Rightarrow> shaped" where
  "shapeAll env flds headers \<equiv> foldl (\<lambda>s (f, t, v). appendField env f t v s) ([], 0, headers) flds"

lemma shaped_body:
  "(n, u) \<in> set (fst (shapeAll env flds headers)) \<Longrightarrow> \<exists>f. (f, u) \<in> set flds \<and> bodyField f \<and> n = bodyName f"
proof (induction flds rule: rev_induct)
  case (snoc x flds)
  obtain f t v where x: "x = (f, t, v)" by (cases x) auto
  have "(n, u) \<in> set (fst (shapeAll env flds headers)) \<or> (bodyField f \<and> n = bodyName f \<and> u = (t, v))"
    using snoc.prems set_update_subset [of "bodyName f" "(t, v)" "fst (shapeAll env flds headers)"]
    by (auto simp: x appendField_parts split: if_splits)
  then show ?case using snoc.IH x by auto
qed simp

lemma shaped_status:
  "fst (snd (shapeAll env flds headers)) = 0 \<or>
     (\<exists>f t. (f, t, VInt (fst (snd (shapeAll env flds headers)))) \<in> set flds \<and> hasSceneryTag f ''httpstatus'')"
proof (induction flds rule: rev_induct)
  case (snoc x flds)
  obtain f t v where x: "x = (f, t, v)" by (cases x) auto
  show ?case
    using snoc.IH by (auto simp: x appendField_parts split: goval.splits)
qed simp

lemma shaped_header_set:
  "(f, u) \<in> set flds \<Longrightarrow> tagGet f ''header'' \<noteq> [] \<Longrightarrow>
     map_of (snd (snd (shapeAll env flds headers))) (canonicalHeaderKey (tagGet f ''header'')) \<noteq> None"
  by (induction flds rule: rev_induct) (auto simp: appendField_parts headerSet_def update_conv)

lemma shaped_header_kept:
  "\<forall>(f, u) \<in> set flds. tagGet f ''header'' = [] \<or> k \<noteq> canonicalHeaderKey (tagGet f ''header'') \<Longrightarrow>
     map_of (snd (snd (shapeAll env flds headers))) k = map_of headers k"
  by (induction flds rule: rev_induct) (auto simp: appendField_parts headerSet_def update_conv)

text \<open>
  A shaped response holds what its fields say: when a response struct is taken apart, every member of the body comes from
  a visited field that is no header, no status and not hidden, under its JSON name; the status is the value of a status
  field or none; every header field sets its header and no other header changes.\<close>

lemma shaped_response:
  assumes "structFields t = Some fs" "splitResponse env t v headers = (BodyFields body, status, hs)"
  shows "(\<forall>(n, u) \<in> set body. \<exists>f. (f, u) \<in> set (leafFields fs (structValues v)) \<and> bodyField f \<and> n = bodyName f) \<and>
    (status = 0 \<or> (\<exists>f t. (f, t, VInt status) \<in> set (leafFields fs (structValues v)) \<and> hasSceneryTag f ''httpstatus'')) \<and>
    (\<forall>f u. (f, u) \<in> set (leafFields fs (structValues v)) \<longrightarrow> tagGet f ''header'' \<noteq> [] \<longrightarrow>
       map_of hs (canonicalHeaderKey (tagGet f ''header'')) \<noteq> None) \<and>
    (\<forall>k. (\<forall>(f, u) \<in> set (leafFields fs (structValues v)).
            tagGet f ''header'' = [] \<or> k \<noteq> canonicalHeaderKey (tagGet f ''header'')) \<longrightarrow> map_of hs k = map_of headers k)"
proof -
  let ?r = "shapeAll env (leafFields fs (structValues v)) headers"
  have r: "fst ?r = body" "fst (snd ?r) = status" "snd (snd ?r) = hs"
    using assms by (auto simp: splitResponse_def append_flat split: if_splits prod.splits)
  show ?thesis
    unfolding r(1) [symmetric] r(2) [symmetric] r(3) [symmetric]
    using shaped_body shaped_status shaped_header_set shaped_header_kept by (intro conjI allI impI) blast+
qed

definition plainField :: "string \<Rightarrow> (string \<times> string) list \<Rightarrow> structField" where
  "plainField name tags = \<lparr>sf_Name = name, sf_Tag = tags, sf_Anonymous = False, sf_Exported = True\<rparr>"

definition embeddedField :: "string \<Rightarrow> bool \<Rightarrow> structField" where
  "embeddedField name exported = \<lparr>sf_Name = name, sf_Tag = [], sf_Anonymous = True, sf_Exported = exported\<rparr>"

definition wCreated :: "(structField \<times> gotype) list" where
  "wCreated = [(plainField ''ID'' [(''json'', ''id'')], GInt KInt), (plainField ''Etag'' [(''header'', ''etag'')], GString),
               (plainField ''Status'' [(''scenery'', ''httpstatus'')], GInt KInt)]"

definition wEnc :: encEnv where
  "wEnc = \<lparr>textMarshaler = (\<lambda>t. None), sprintVal = (\<lambda>t v. case v of VString s \<Rightarrow> s | _ \<Rightarrow> [])\<rparr>"

lemma shaped_response_witness:
  "splitResponse wEnc (GStruct wCreated) (VStruct [VInt 7, VString ''v1'', VInt 201]) [] =
     (BodyFields [(''id'', GInt KInt, VInt 7)], 201, [(''Etag'', [''v1''])]) \<and>
   map_of [(''Etag'', [''v1''])] (canonicalHeaderKey (tagGet (plainField ''Etag'' [(''header'', ''etag'')]) ''header'')) \<noteq> None"
proof -
  have s: "splitResponse wEnc (GStruct wCreated) (VStruct [VInt 7, VString ''v1'', VInt 201]) [] =
     (BodyFields [(''id'', GInt KInt, VInt 7)], 201, [(''Etag'', [''v1''])])" by code_simp
  have f: "structFields (GStruct wCreated) = Some wCreated" by code_simp
  have "(plainField ''Etag'' [(''header'', ''etag'')], GString, VString ''v1'')
      \<in> set (leafFields wCreated (structValues (VStruct [VInt 7, VString ''v1'', VInt 201])))" by code_simp
  moreover have "tagGet (plainField ''Etag'' [(''header'', ''etag'')]) ''header'' \<noteq> []" by code_simp
  ultimately show ?thesis using s shaped_response [OF f s] by blast
qed

text \<open>
  Where a shaped response differs from \<open>encoding/json\<close>: an embedded struct declared after a field overrides the field of the
  outer struct with the same name, and the fields of an embedded struct of an unexported type are left out.
\<close>

lemma embedded_overrides_outer:
  "splitResponse wEnc (GStruct ([(plainField ''ID'' [(''json'', ''id'')], GInt KInt),
       (embeddedField ''Base'' True, GStruct [(plainField ''ID'' [(''json'', ''id'')], GInt KInt)])] @ tl wCreated))
     (VStruct [VInt 7, VStruct [VInt 0], VString ''v1'', VInt 201]) [] =
   (BodyFields [(''id'', GInt KInt, VInt 0)], 201, [(''Etag'', [''v1''])])"
  by code_simp

lemma unexported_embedding_dropped:
  "splitResponse wEnc (GStruct ((embeddedField ''base'' False, GStruct [(plainField ''Name'' [], GString)]) # wCreated))
     (VStruct [VStruct [VString ''ada''], VInt 7, VString ''v1'', VInt 201]) [] =
   (BodyFields [(''id'', GInt KInt, VInt 7)], 201, [(''Etag'', [''v1''])])"
  by code_simp

end
