(* ===== verification/RuntimeServer.thy ===== *)
theory RuntimeServer
  imports WirePayload ResponseEncode
begin

text \<open>
  The HTTP server of an application: the registration of endpoints (\<open>runtime/registry.go\<close>), the routes built from
  them, authentication and the handlers of typed and raw endpoints (\<open>runtime/server.go\<close>), and the
  wire transport with its recovery store (\<open>runtime/wire.go\<close>), composed with the route table, the middleware chain and the
  decoders and encoders of the other theories.  What the application provides (endpoint functions, middlewares, mocks, the
  auth handler) and the library functions below are fields of the record \<open>world\<close>.  Logging and tracing are
  not modelled.  A handler returns a reply, panics (the connection is then closed by \<open>net/http\<close>), or is \<open>None\<close> when the
  middleware chain has no fuel, which never happens.
\<close>

section \<open>Definitions\<close>

subsection \<open>Endpoints and requests in flight\<close>

datatype Access = Public | Auth | Private

type_synonym dyn = "gotype \<times> goval"

record AuthInfo =
  ai_UID :: string
  ai_Data :: "dyn option"

datatype RequestType = NoRequest | APICall | InternalCall | RawAPICall

record requestState =
  cx_Type :: RequestType
  cx_Service :: string
  cx_Endpoint :: string
  cx_Method :: string
  cx_Path :: string
  cx_PathParams :: pathParams
  cx_Payload :: "goval option"
  cx_Headers :: httpHeader
  cx_Exposed :: bool
  cx_AuthRequired :: bool
  cx_CronIdempotencyKey :: string
  cx_auth :: AuthInfo

record Endpoint =
  e_Service :: string
  e_Name :: string
  e_Access :: Access
  e_Raw :: bool
  e_Path :: string
  e_Methods :: "string list"
  e_MiddlewareIDs :: "string list"
  e_PathParams :: "ParamSpec list"
  e_PayloadType :: "gotype option"
  e_ResponseType :: "gotype option"
  e_WireID :: string
  e_WireSchemaHash :: string
  e_WireAvailable :: bool
  e_WireUnsupportedReason :: string
  e_Invoke :: "requestState \<Rightarrow> goval list \<Rightarrow> goval option \<Rightarrow> (dyn option \<times> goerr option) call"
  e_WireInvoke :: "(requestState \<Rightarrow> goval list \<Rightarrow> string \<Rightarrow> (dyn option \<times> goerr option) call) option"
  e_WireInvokeJSON :: "(requestState \<Rightarrow> goval list \<Rightarrow> string \<Rightarrow> (string \<times> goerr option) call) option"
  e_RawHandler :: "requestState \<Rightarrow> rawOp list \<times> unit call"

record AuthHandler =
  ah_ParamType :: "gotype option"
  ah_Authenticate :: "requestState \<Rightarrow> goval option \<Rightarrow> (AuthInfo \<times> goerr option) call"

record world =
  w_go :: wireEnv
  w_enc :: encEnv
  w_reflect :: "(dyn, gotype) reflection"
  w_middlewares :: "(string, (requestState option, dyn) Middleware) gomap"
  w_mocks :: "(string, nat) gomap"
  w_typedMock :: "nat \<Rightarrow> goval list \<Rightarrow> goval option \<Rightarrow> requestState \<Rightarrow> (dyn option \<times> goerr option) call"
  w_rawMock :: "nat \<Rightarrow> requestState \<Rightarrow> rawOp list \<times> goerr option call"
  w_background :: requestState
  w_authHandler :: "AuthHandler option"
  w_env :: "string \<Rightarrow> string"
  w_sha :: "string \<Rightarrow> string"
  w_normalize :: "goany \<Rightarrow> (wireErr, goany) outcome"
  w_marshal :: "respBody \<Rightarrow> string + string"
  w_marshalAny :: "goany \<Rightarrow> string + string"
  w_respAny :: "respBody \<Rightarrow> goany"
  w_redactValue :: "mval option \<Rightarrow> mval option"
  w_redactMeta :: "(string, mval) gomap \<Rightarrow> (string, mval) gomap"
  w_metas :: metaStore

definition core :: "Endpoint \<Rightarrow> gotype Middleware.Endpoint" where
  "core ep = \<lparr>ep_Service = e_Service ep, ep_Name = e_Name ep, ep_MiddlewareIDs = e_MiddlewareIDs ep,
              ep_ResponseType = e_ResponseType ep\<rparr>"

subsection \<open>Registration\<close>

text \<open>A registration ends with the new table of endpoints or a panic.\<close>

definition RegisterEndpoint :: "(string, Endpoint) gomap \<Rightarrow> Endpoint \<Rightarrow> (string, Endpoint) gomap call" where
  "RegisterEndpoint eps ep =
     (let key = endpointKey (e_Service ep) (e_Name ep) in
      if map_of eps key \<noteq> None then Panicked (''runtime: duplicate endpoint registration for '' @ key)
      else if e_Methods ep = [] then Panicked (''runtime: endpoint '' @ key @ '' missing methods'')
      else Returned (AList.update key (if trimSpace (e_WireID ep) = [] then ep\<lparr>e_WireID := key\<rparr> else ep) eps))"

fun RegisterEndpoints :: "(string, Endpoint) gomap \<Rightarrow> Endpoint list \<Rightarrow> (string, Endpoint) gomap call" where
  "RegisterEndpoints eps [] = Returned eps"
| "RegisterEndpoints eps (ep # rest) =
     (case RegisterEndpoint eps ep of Panicked v \<Rightarrow> Panicked v | Returned eps' \<Rightarrow> RegisterEndpoints eps' rest)"

definition compare :: "string \<Rightarrow> string \<Rightarrow> int" where
  "compare a b = (if a < b then -1 else if b < a then 1 else 0)"

definition compareEndpoints :: "Endpoint \<Rightarrow> Endpoint \<Rightarrow> int" where
  "compareEndpoints a b =
     (if e_Service a = e_Service b then compare (e_Name a) (e_Name b) else compare (e_Service a) (e_Service b))"

definition listEndpoints :: "(string, Endpoint) gomap \<Rightarrow> Endpoint list" where
  "listEndpoints eps = sortStable compareEndpoints (map snd eps)"

definition endpointWireID :: "Endpoint \<Rightarrow> string" where
  "endpointWireID ep = (if trimSpace (e_WireID ep) \<noteq> [] then e_WireID ep else EndpointID (e_Service ep) (e_Name ep))"

definition wireMethodsSafe :: "string list \<Rightarrow> bool" where
  "wireMethodsSafe methods = (methods \<noteq> [] \<and> list_all (\<lambda>m. m \<noteq> ''*'' \<and> IsSafeMethod m) methods)"

definition wireItem :: "Endpoint \<Rightarrow> Wire.Endpoint" where
  "wireItem ep =
     \<lparr>ep_ID = endpointWireID ep, ep_Service = e_Service ep, ep_Endpoint = e_Name ep, ep_Path = e_Path ep,
      ep_Methods = e_Methods ep, ep_Available = e_WireAvailable ep, ep_UnsupportedReason = e_WireUnsupportedReason ep,
      ep_SchemaHash = e_WireSchemaHash ep, ep_SafeJSONRetry = wireMethodsSafe (e_Methods ep),
      ep_WirePath = CallPathPrefix @ e_WireID ep, ep_RecoveryPathPattern = RecoverPathPrefix @ ''{call_id}''\<rparr>"

definition buildWireCapabilities :: "(string \<Rightarrow> string) \<Rightarrow> Endpoint list \<Rightarrow> Capabilities" where
  "buildWireCapabilities sha eps = NewCapabilities (HashEndpoints sha (map wireItem eps)) (map wireItem eps)"

subsection \<open>The server and its routes\<close>

datatype handler =
    TypedEndpoint Endpoint
  | RawEndpoint Endpoint
  | WireCapabilities
  | WireRecovery
  | WireEndpointCall Endpoint
  | WireCall
  | DevEndpoint string

record wireRecoveryRecord =
  wrr_StoredAt :: int
  wrr_Status :: int
  wrr_Result :: "respBody option"
  wrr_Error :: "goany option"

record server =
  srv_public :: "handler routeTable"
  srv_private :: "handler routeTable"
  srv_wireEndpoints :: "(string, Endpoint) gomap"
  srv_wireCaps :: Capabilities
  srv_wireRecovery :: "(string, wireRecoveryRecord) gomap"

definition CapabilitiesPath :: string where "CapabilitiesPath = ''/_wire/capabilities''"

definition endpointHandler :: "Endpoint \<Rightarrow> handler" where
  "endpointHandler ep = (if e_Raw ep then RawEndpoint ep else TypedEndpoint ep)"

definition selectRouter :: "Endpoint \<Rightarrow> server \<Rightarrow> (handler routeTable \<Rightarrow> handler routeTable) \<Rightarrow> server" where
  "selectRouter ep s f =
     (if e_Access ep = Private then s\<lparr>srv_private := f (srv_private s)\<rparr> else s\<lparr>srv_public := f (srv_public s)\<rparr>)"

definition registerRoute :: "string \<Rightarrow> string list \<Rightarrow> handler \<Rightarrow> handler routeTable \<Rightarrow> handler routeTable" where
  "registerRoute path methods h router = Handle router methods path h"

definition registerEndpoint :: "server \<Rightarrow> Endpoint \<Rightarrow> server" where
  "registerEndpoint s ep =
     (let s = s\<lparr>srv_wireEndpoints := AList.update (endpointWireID ep) ep (srv_wireEndpoints s)\<rparr>
      in selectRouter ep s (registerRoute (e_Path ep) (e_Methods ep) (endpointHandler ep)))"

text \<open>The routes of the wire transport, all in the public table, in the order they are registered.\<close>

definition wireRoutes :: "(string, Endpoint) gomap \<Rightarrow> (string list \<times> string \<times> handler) list" where
  "wireRoutes eps =
     [([''GET''], CapabilitiesPath, WireCapabilities), ([''GET''], RecoverPathPrefix @ '':call_id'', WireRecovery)]
     @ map (\<lambda>(i, ep). ([''POST''], CallPathPrefix @ i, WireEndpointCall ep)) eps
     @ [([''POST''], CallPathPrefix @ '':endpoint_id'', WireCall)]"

definition registerWire :: "server \<Rightarrow> server" where
  "registerWire s = s\<lparr>srv_public := registerAll (srv_public s) (wireRoutes (srv_wireEndpoints s))\<rparr>"

definition pprofRoutes :: "(string list \<times> string \<times> handler) list" where
  "pprofRoutes =
     map (\<lambda>p. ((if p = ''symbol'' then [''GET'', ''POST''] else [''GET'']), ''/debug/pprof/'' @ p, DevEndpoint p))
       ['''', ''cmdline'', ''profile'', ''symbol'', ''trace'', ''allocs'', ''block'', ''goroutine'', ''heap'', ''mutex'', ''threadcreate'']"

definition devRoutes :: "(string list \<times> string \<times> handler) list" where
  "devRoutes = [([''GET''], ''/__scenery/config'', DevEndpoint ''config''), ([''GET''], ''/platform.Stats'', DevEndpoint ''stats'')]
     @ pprofRoutes"

definition envBool :: "(string \<Rightarrow> string) \<Rightarrow> string \<Rightarrow> bool" where
  "envBool getenv name = (toLower (trimSpace (getenv name)) \<in> {''1'', ''true'', ''yes'', ''on''})"

definition devEndpointsEnabled :: "(string \<Rightarrow> string) \<Rightarrow> bool" where
  "devEndpointsEnabled getenv = (envBool getenv ''SCENERY_DEV_ENDPOINTS'' \<or> envBool getenv ''SCENERY_DEV_SUPERVISOR'')"

definition newServer :: "world \<Rightarrow> (string, Endpoint) gomap \<Rightarrow> server" where
  "newServer w eps =
     (let endpoints = listEndpoints eps;
          s = \<lparr>srv_public = newRouteTable\<lparr>tab_GlobalOPTIONS := True, tab_NotFound := True\<rparr>, srv_private = newRouteTable,
               srv_wireEndpoints = [], srv_wireCaps = NewCapabilities [] [], srv_wireRecovery = []\<rparr>;
          s = foldl registerEndpoint s endpoints;
          s = s\<lparr>srv_wireCaps := buildWireCapabilities (w_sha w) endpoints\<rparr>;
          s = registerWire s
      in if devEndpointsEnabled (w_env w) then s\<lparr>srv_public := registerAll (srv_public s) devRoutes\<rparr> else s)"

subsection \<open>Cross-origin requests\<close>

definition corsOriginAllowed :: "(string \<Rightarrow> string) \<Rightarrow> string \<Rightarrow> bool" where
  "corsOriginAllowed getenv origin =
     (devEndpointsEnabled getenv \<or>
      list_ex (\<lambda>item. let item = trimSpace item in item \<noteq> [] \<and> (item = ''*'' \<or> toLower item = toLower origin))
        (splitOn CHR '','' (getenv ''SCENERY_CORS_ALLOW_ORIGINS'')))"

definition addVary :: "httpHeader \<Rightarrow> string list \<Rightarrow> httpHeader" where
  "addVary headers vals =
     (let existing = filter (\<lambda>p. p \<noteq> [])
            (map trimSpace (concat (map (splitOn CHR '','') (headerValues headers ''Vary'')) @ vals))
      in if existing = [] then headers else headerSet headers ''Vary'' (joinWith '', '' (sort (remdups existing))))"

definition applyCORSHeaders :: "(string \<Rightarrow> string) \<Rightarrow> httpHeader \<Rightarrow> httpRequest \<Rightarrow> httpHeader" where
  "applyCORSHeaders getenv headers req =
     (let origin = trimSpace (headerGet (rq_Header req) ''Origin'') in
      if origin = [] \<or> \<not> corsOriginAllowed getenv origin then headers
      else let headers = headerSet headers ''Access-Control-Allow-Origin'' origin;
               headers = headerSet headers ''Access-Control-Allow-Credentials'' ''true'';
               headers = addVary headers [''Origin'', ''Authorization'']
           in if rq_Method req = ''OPTIONS''
              then addVary headers [''Access-Control-Request-Method'', ''Access-Control-Request-Headers''] else headers)"

subsection \<open>Replies\<close>

datatype replyBody =
    NoBody
  | RawBytes string
  | JSONBody respBody
  | ErrorBody errPayload
  | CapabilitiesBody Capabilities
  | RecoveryBody wireRecoveryRecord

record reply =
  rp_Status :: int
  rp_Header :: httpHeader
  rp_Body :: replyBody

definition HTTPErrorReply :: "world \<Rightarrow> httpHeader \<Rightarrow> goerr \<Rightarrow> int \<Rightarrow> reply" where
  "HTTPErrorReply w hdr err status =
     (let (st, pl) = HTTPErrorWithCode (w_redactValue w) (w_redactMeta w) (w_metas w) (Some err) (nat status)
      in \<lparr>rp_Status = int st, rp_Header = headerSet hdr ''Content-Type'' ''application/json'', rp_Body = ErrorBody pl\<rparr>)"

definition writeWireFallback :: "world \<Rightarrow> httpHeader \<Rightarrow> goerr \<Rightarrow> reply" where
  "writeWireFallback w hdr err = HTTPErrorReply w (headerSet hdr FallbackHeader ''json'') err 0"

subsection \<open>Authentication and execution\<close>

definition noAuth :: AuthInfo where "noAuth = \<lparr>ai_UID = [], ai_Data = None\<rparr>"

definition newExternalState :: "Endpoint \<Rightarrow> httpRequest \<Rightarrow> pathParams \<Rightarrow> goval option \<Rightarrow> AuthInfo \<Rightarrow> requestState" where
  "newExternalState ep req path payload auth =
     \<lparr>cx_Type = (if e_Raw ep then RawAPICall else APICall), cx_Service = e_Service ep, cx_Endpoint = e_Name ep, cx_Method = rq_Method req, cx_Path = rq_Path req,
      cx_PathParams = path, cx_Payload = payload, cx_Headers = rq_Header req, cx_Exposed = (e_Access ep \<noteq> Private),
      cx_AuthRequired = (e_Access ep = Auth), cx_CronIdempotencyKey = [], cx_auth = auth\<rparr>"

definition authenticateRequest :: "world \<Rightarrow> httpRequest \<Rightarrow> Endpoint \<Rightarrow> requestState \<Rightarrow> (goerr, AuthInfo) outcome" where
  "authenticateRequest w req ep ctx =
     (if e_Access ep \<noteq> Auth then Ret noAuth
      else case w_authHandler w of
        None \<Rightarrow> Fail (bErr (bMsg ''auth endpoint configured but no auth handler registered'' (bCode Internal B)))
      | Some handler \<Rightarrow>
        obind (decodeAuthParams (goEnv.truncate (w_go w)) req (ah_ParamType handler)) (\<lambda>params.
          case ah_Authenticate handler ctx params of
            Panicked v \<Rightarrow> Panic
          | Returned (info, Some err) \<Rightarrow> Fail err
          | Returned (info, None) \<Rightarrow>
            if ai_UID info = [] then Fail (bErr (bMsg ''auth handler returned empty user id'' (bCode Unauthenticated B)))
            else Ret info))"

definition runTyped ::
  "world \<Rightarrow> Endpoint \<Rightarrow> requestState \<Rightarrow> goval list \<Rightarrow> goval option \<Rightarrow>
   (dyn payload option \<times> int \<times> httpHeader option \<times> goerr option) call option" where
  "runTyped w ep ctx pathValues payload =
     executeTypedEndpoint (w_middlewares w) (w_mocks w) (w_reflect w) (core ep)
       (\<lambda>mock. w_typedMock w mock pathValues payload) (\<lambda>c. e_Invoke ep c pathValues payload) (w_background w) (Some ctx)"

text \<open>The dynamic value of a result; a raw payload is a struct with one unexported field.\<close>

definition rawPayloadType :: gotype where
  "rawPayloadType = GStruct [(\<lparr>sf_Name = ''body'', sf_Tag = [], sf_Anonymous = False, sf_Exported = False\<rparr>, GSlice (GUint KUint8))]"

definition rawPayloadVal :: "string \<Rightarrow> goval" where
  "rawPayloadVal b = VStruct [VSlice (Some (map (\<lambda>c. VUint (of_char c)) b))]"

fun respDyn :: "dyn payload option \<Rightarrow> dyn option" where
  "respDyn None = None"
| "respDyn (Some (Value d)) = Some d"
| "respDyn (Some (RawMiddlewarePayload b)) = Some (rawPayloadType, rawPayloadVal b)"
| "respDyn (Some (RawMiddlewarePayloadPtr p)) = Some (GPtr rawPayloadType, VPtr (map_option rawPayloadVal p))"

definition encodedReply :: "encodedResponse \<Rightarrow> reply" where
  "encodedReply r = \<lparr>rp_Status = er_Status r, rp_Header = er_Header r, rp_Body = JSONBody (er_Body r)\<rparr>"

definition hdrOf :: "httpHeader option \<Rightarrow> httpHeader" where
  "hdrOf h = (case h of None \<Rightarrow> [] | Some l \<Rightarrow> l)"

text \<open>The handler of a typed endpoint; \<open>hdr\<close> holds the headers set before.\<close>

definition serveTyped :: "world \<Rightarrow> httpHeader \<Rightarrow> httpRequest \<Rightarrow> Endpoint \<Rightarrow> routeParams \<Rightarrow> reply call option" where
  "serveTyped w hdr req ep params =
     (case decodePathParams (e_PathParams ep) params of
        Inl err \<Rightarrow> Some (Returned (HTTPErrorReply w hdr err 0))
      | Inr (pathValues, pathParams) \<Rightarrow>
        (case decodePayload (goEnv.truncate (w_go w)) req (e_PayloadType ep) of
           Panic \<Rightarrow> Some (Panicked ''decode'')
         | Fail err \<Rightarrow> Some (Returned (HTTPErrorReply w hdr err 0))
         | Ret payload \<Rightarrow>
           (let ctx = newExternalState ep req pathParams payload noAuth in
            case authenticateRequest w req ep ctx of
              Panic \<Rightarrow> Some (Panicked ''auth'')
            | Fail err \<Rightarrow> Some (Returned (HTTPErrorReply w hdr err 0))
            | Ret info \<Rightarrow>
              (case runTyped w ep (ctx\<lparr>cx_auth := info\<rparr>) pathValues payload of
                 None \<Rightarrow> None
               | Some (Panicked v) \<Rightarrow> Some (Panicked v)
               | Some (Returned (resp, status, headers, callErr)) \<Rightarrow>
                 (let hdr = applyHeaders hdr (hdrOf headers) in
                  case callErr of
                    Some err \<Rightarrow> Some (Returned (HTTPErrorReply w hdr err status))
                  | None \<Rightarrow> Some (Returned (encodedReply (encodeResponseWithStatus (w_enc w) hdr (respDyn resp) status))))))))"

text \<open>The handler of a raw endpoint: streamed when it has neither middleware nor mock.\<close>

definition streamHeaders :: "httpHeader \<Rightarrow> rawOp list \<Rightarrow> httpHeader" where
  "streamHeaders hdr ops =
     foldl (\<lambda>h p. case p of OpSetHeader k vs \<Rightarrow> AList.update k vs h | _ \<Rightarrow> h) hdr
       (takeWhile (\<lambda>p. case p of OpWriteHeader st \<Rightarrow> False | _ \<Rightarrow> True) ops)"

definition streamReply :: "world \<Rightarrow> httpHeader \<Rightarrow> rawStreamingResponseWriter \<Rightarrow> goerr option \<Rightarrow> reply" where
  "streamReply w hdr sw callErr =
     (let hdr = streamHeaders hdr (sw_out sw) in
      if callErr \<noteq> None \<and> \<not> sw_wroteHeader sw then HTTPErrorReply w hdr (the callErr) (int (HTTPStatus callErr))
      else \<lparr>rp_Status = swStatusCode sw, rp_Header = hdr,
            rp_Body = RawBytes (concat (map (\<lambda>p. case p of OpWrite d \<Rightarrow> d | _ \<Rightarrow> []) (sw_out sw)))\<rparr>)"

definition serveRaw :: "world \<Rightarrow> httpHeader \<Rightarrow> httpRequest \<Rightarrow> Endpoint \<Rightarrow> routeParams \<Rightarrow> reply call option" where
  "serveRaw w hdr req ep params =
     (let pathParams = map (\<lambda>(k, v). (k, trimPrefix ''/'' v)) params;
          ctx = newExternalState ep req pathParams None noAuth
      in case authenticateRequest w req ep ctx of
           Panic \<Rightarrow> Some (Panicked ''auth'')
         | Fail err \<Rightarrow> Some (Returned (HTTPErrorReply w hdr err 0))
         | Ret info \<Rightarrow>
           (let ctx = ctx\<lparr>cx_auth := info\<rparr> in
            if canStreamRawEndpoint (w_mocks w) (Some (core ep))
            then (let (sw, callErr) = executeStreamingRawEndpoint (e_RawHandler ep) ctx newRawStreamingResponseWriter
                  in Some (Returned (streamReply w hdr sw callErr)))
            else (case executeRawEndpoint (w_middlewares w) (w_mocks w) (core ep) (w_rawMock w) (e_RawHandler ep) ctx of
                    None \<Rightarrow> None
                  | Some (Panicked v) \<Rightarrow> Some (Panicked v)
                  | Some (Returned (status, headers, body, callErr)) \<Rightarrow>
                    (let hdr = applyHeaders hdr (hdrOf headers) in
                     case callErr of
                       Some err \<Rightarrow> Some (Returned (HTTPErrorReply w hdr err status))
                     | None \<Rightarrow> Some (Returned \<lparr>rp_Status = status, rp_Header = hdr, rp_Body = RawBytes body\<rparr>)))))"

subsection \<open>Wire calls\<close>

text \<open>\<open>strings.ReplaceAll\<close> with a non-empty old string.\<close>

function (sequential) replaceAll :: "string \<Rightarrow> string \<Rightarrow> string \<Rightarrow> string" where
  "replaceAll old new [] = []"
| "replaceAll old new (c # cs) =
     (if old \<noteq> [] \<and> hasPrefix old (c # cs) then new @ replaceAll old new (drop (length old) (c # cs))
      else c # replaceAll old new cs)"
  by pat_completeness auto
termination
  by (relation "measure (\<lambda>(old, new, s). length s)") auto

definition renderWireRequestPath :: "string \<Rightarrow> pathParams \<Rightarrow> string" where
  "renderWireRequestPath pattern params =
     foldl (\<lambda>path (name, value). replaceAll (CHR ''*'' # name) value (replaceAll (CHR '':'' # name) value path)) pattern params"

definition preferredRuntimeMethod :: "string list \<Rightarrow> string" where
  "preferredRuntimeMethod methods =
     (if list_ex (\<lambda>m. toUpper m = ''GET'') methods then ''GET''
      else case methods of [] \<Rightarrow> ''POST'' | m # ms \<Rightarrow> toUpper m)"

definition requestUsesWireJSON :: "httpRequest \<Rightarrow> bool" where
  "requestUsesWireJSON req =
     (let ct = headerGet (rq_Header req) ''Content-Type'' in ct = JSONContentType \<or> hasPrefix (JSONContentType @ '';'') ct)"

definition canUseFastWireInvoke :: "world \<Rightarrow> Endpoint \<Rightarrow> wireRequest \<Rightarrow> bool" where
  "canUseFastWireInvoke w ep wr =
     (e_WireInvoke ep \<noteq> None \<and> wr_BinaryFrame wr \<and> e_Access ep = Public \<and> e_MiddlewareIDs ep = [] \<and>
      lookupEndpointMock (w_mocks w) (core ep) = None)"

definition canUseFastWireJSON :: "world \<Rightarrow> Endpoint \<Rightarrow> wireRequest \<Rightarrow> httpRequest \<Rightarrow> bool" where
  "canUseFastWireJSON w ep wr req =
     (canUseFastWireInvoke w ep wr \<and> e_WireInvokeJSON ep \<noteq> None \<and> headerGet (rq_Header req) CallIDHeader = [] \<and>
      \<not> (case e_ResponseType ep of Some t \<Rightarrow> hasResponseShapeTags t | None \<Rightarrow> False))"

text \<open>The recovery store: results by call identifier, kept for ten minutes.\<close>

definition pruneWireRecovery :: "int \<Rightarrow> (string, wireRecoveryRecord) gomap \<Rightarrow> (string, wireRecoveryRecord) gomap" where
  "pruneWireRecovery before m = filter (\<lambda>(i, r). \<not> wrr_StoredAt r < before) m"

definition minute :: int where "minute = 60 * 1000000000"

definition storeWireRecovery ::
  "int \<Rightarrow> httpRequest \<Rightarrow> int \<Rightarrow> respBody option \<Rightarrow> goany option \<Rightarrow> server \<Rightarrow> server" where
  "storeWireRecovery now req status result errPayload s =
     (let callID = headerGet (rq_Header req) CallIDHeader in
      if callID = [] then s
      else s\<lparr>srv_wireRecovery := pruneWireRecovery (now - 10 * minute)
               (AList.update callID \<lparr>wrr_StoredAt = now, wrr_Status = status, wrr_Result = result, wrr_Error = errPayload\<rparr>
                 (srv_wireRecovery s))\<rparr>)"

definition lookupWireRecovery :: "int \<Rightarrow> string \<Rightarrow> server \<Rightarrow> server \<times> wireRecoveryRecord option" where
  "lookupWireRecovery now callID s =
     (let m = pruneWireRecovery (now - 10 * minute) (srv_wireRecovery s) in (s\<lparr>srv_wireRecovery := m\<rparr>, map_of m callID))"

definition serveWireRecovery :: "world \<Rightarrow> httpHeader \<Rightarrow> int \<Rightarrow> string \<Rightarrow> server \<Rightarrow> server \<times> reply" where
  "serveWireRecovery w hdr now callID s =
     (let callID = trimSpace callID in
      if callID = [] then (s, HTTPErrorReply w hdr (invalidArgument ''missing call id'') 0)
      else case lookupWireRecovery now callID s of
        (s, None) \<Rightarrow> (s, HTTPErrorReply w hdr (bErr (bMsg ''wire call result not found'' (bCode NotFound B))) 0)
      | (s, Some r) \<Rightarrow>
        (s, \<lparr>rp_Status = wrr_Status r,
             rp_Header = headerSet (headerSet hdr ''Content-Type'' ''application/json'') ''Cache-Control'' ''no-store'',
             rp_Body = RecoveryBody r\<rparr>))"

text \<open>The headers of a wire response; a success also names the schema.\<close>

definition wireHeaders :: "httpHeader \<Rightarrow> string \<Rightarrow> string option \<Rightarrow> httpRequest \<Rightarrow> httpHeader" where
  "wireHeaders hdr contentType schema req =
     (let hdr = headerSet hdr ''Content-Type'' contentType;
          hdr = headerSet hdr ''Cache-Control'' ''no-store'';
          hdr = (case schema of Some h \<Rightarrow> headerSet hdr SchemaHashHeader h | None \<Rightarrow> hdr);
          callID = headerGet (rq_Header req) CallIDHeader
      in if callID \<noteq> [] then headerSet hdr CallIDHeader callID else hdr)"

definition wireBytes :: "httpHeader \<Rightarrow> int \<Rightarrow> string \<Rightarrow> reply" where
  "wireBytes hdr status data = \<lparr>rp_Status = status, rp_Header = hdr, rp_Body = RawBytes data\<rparr>"

definition encodeEnvelope :: "world \<Rightarrow> (string \<times> goany) list \<Rightarrow> string + string" where
  "encodeEnvelope w m =
     (case Encode (w_normalize w) (numberFloat (w_go w)) (AObj m) of
        Ret data \<Rightarrow> Inr data | Fail e \<Rightarrow> Inl (wireErrText e) | Panic \<Rightarrow> Inl [])"

definition encodeFailure :: "world \<Rightarrow> httpHeader \<Rightarrow> string \<Rightarrow> reply" where
  "encodeFailure w hdr err = HTTPErrorReply w hdr (wrapErr err ''encode wire response'') 0"

definition writeWireSuccess ::
  "world \<Rightarrow> httpHeader \<Rightarrow> int \<Rightarrow> httpRequest \<Rightarrow> int \<Rightarrow> respBody \<Rightarrow> bool \<Rightarrow> bool \<Rightarrow> bool \<Rightarrow> server \<Rightarrow> server \<times> reply" where
  "writeWireSuccess w hdr now req status result resultJSON responseJSON binaryFrame s =
     (let schema = Some (cap_SchemaHash (srv_wireCaps s)); s' = storeWireRecovery now req status (Some result) None s in
      if responseJSON \<or> binaryFrame
      then (case w_marshal w result of
              Inl err \<Rightarrow> (s, encodeFailure w hdr err)
            | Inr data \<Rightarrow>
              (s', wireBytes (wireHeaders hdr (if responseJSON then JSONContentType else ContentType) schema req) status data))
      else (case (if resultJSON then map_sum id (\<lambda>d. (''result_json'', AStr d)) (w_marshal w result)
                  else Inr (''result'', w_respAny w result)) of
              Inl err \<Rightarrow> (s, encodeFailure w hdr err)
            | Inr part \<Rightarrow>
              (case encodeEnvelope w [(''ok'', ABool True), (''status'', AInt status), part] of
                 Inl err \<Rightarrow> (s', encodeFailure w hdr err)
               | Inr data \<Rightarrow> (s', wireBytes (wireHeaders hdr ContentType schema req) status data))))"

fun mvalAny :: "mval \<Rightarrow> goany" where
  "mvalAny (MString s) = AStr s" | "mvalAny (MOther i) = AInt i"

definition errorPayload :: "metaStore \<Rightarrow> goerr \<Rightarrow> goany" where
  "errorPayload st err =
     AObj ([(''code'', AStr (Code (Some err))), (''message'', AStr (Error err))]
       @ (case Details (Some err) of None \<Rightarrow> [] | Some d \<Rightarrow> [(''details'', mvalAny d)])
       @ (case Meta (Some err) of None \<Rightarrow> [] | Some r \<Rightarrow> [(''meta'', AObj (map (map_prod id mvalAny) (st ! r)))]))"

definition writeWireAppError ::
  "world \<Rightarrow> httpHeader \<Rightarrow> int \<Rightarrow> httpRequest \<Rightarrow> goerr \<Rightarrow> int \<Rightarrow> bool \<Rightarrow> bool \<Rightarrow> server \<Rightarrow> server \<times> reply" where
  "writeWireAppError w hdr now req err status responseJSON binaryFrame s =
     (let status = (if status = 0 then int (HTTPStatus (Some err)) else status);
          payload = errorPayload (w_metas w) err;
          s' = storeWireRecovery now req status None (Some payload) s
      in if responseJSON \<or> binaryFrame
         then (case w_marshalAny w payload of
                 Inl e \<Rightarrow> (s, HTTPErrorReply w hdr err status)
               | Inr data \<Rightarrow>
                 (s', wireBytes (wireHeaders hdr (if responseJSON then JSONContentType else ContentType) None req) status data))
         else (case encodeEnvelope w [(''ok'', ABool False), (''status'', AInt status), (''error'', payload)] of
                 Inl e \<Rightarrow> (s', HTTPErrorReply w hdr err status)
               | Inr data \<Rightarrow> (s', wireBytes (wireHeaders hdr ContentType None req) status data)))"

definition writeWireJSONBytes :: "httpHeader \<Rightarrow> int \<Rightarrow> string \<Rightarrow> server \<Rightarrow> reply" where
  "writeWireJSONBytes hdr status data s =
     wireBytes (headerSet (headerSet (headerSet hdr ''Content-Type'' ContentType) ''Cache-Control'' ''no-store'')
       SchemaHashHeader (cap_SchemaHash (srv_wireCaps s))) status data"

definition executeWireEndpoint ::
  "world \<Rightarrow> Endpoint \<Rightarrow> requestState \<Rightarrow> goval list \<Rightarrow> goval option \<Rightarrow> wireRequest \<Rightarrow> bool \<Rightarrow>
   (dyn option \<times> int \<times> httpHeader option \<times> goerr option) call option" where
  "executeWireEndpoint w ep ctx pathValues payload wr fastWire =
     (if fastWire
      then (case the (e_WireInvoke ep) ctx pathValues (wr_PayloadJSON wr) of
              Panicked v \<Rightarrow> Some (Panicked v)
            | Returned (resp, Some err) \<Rightarrow> Some (Returned (None, int (HTTPStatus (Some err)), None, Some err))
            | Returned (resp, None) \<Rightarrow> Some (Returned (resp, 0, None, None)))
      else (case runTyped w ep ctx pathValues payload of
              None \<Rightarrow> None
            | Some (Panicked v) \<Rightarrow> Some (Panicked v)
            | Some (Returned (resp, status, headers, err)) \<Rightarrow> Some (Returned (respDyn resp, status, headers, err))))"

text \<open>A call, up to its decoded arguments: anything wrong with them makes the client fall back to JSON.\<close>

definition decodeWireCall :: "world \<Rightarrow> httpRequest \<Rightarrow> Endpoint \<Rightarrow> (goerr, wireRequest) outcome" where
  "decodeWireCall w req ep =
     (case (if requestUsesWireJSON req then decodeWireJSONRequest (w_go w) req else decodeWireRequest (w_go w) (rq_Body req)) of
        Panic \<Rightarrow> Panic
      | Fail err \<Rightarrow> Fail (invalidArgument (''invalid wire request: '' @ err))
      | Ret wr \<Rightarrow>
        (let wr = (if wr_SchemaHash wr = [] then wr\<lparr>wr_SchemaHash := trimSpace (headerGet (rq_Header req) SchemaHashHeader)\<rparr> else wr) in
         if wr_SchemaHash wr \<noteq> [] \<and> e_WireSchemaHash ep \<noteq> [] \<and> wr_SchemaHash wr \<noteq> e_WireSchemaHash ep
         then Fail (bErr (bMsg ''wire schema mismatch'' (bCode FailedPrecondition B)))
         else Ret wr))"

definition decodeWireArgs ::
  "world \<Rightarrow> httpRequest \<Rightarrow> Endpoint \<Rightarrow> (goerr, wireRequest \<times> goval list \<times> pathParams \<times> goval option) outcome" where
  "decodeWireArgs w req ep =
     obind (decodeWireCall w req ep) (\<lambda>wr.
       case decodeWirePathParams (w_go w) (e_PathParams ep) (wr_PathParams wr) of
         Inl err \<Rightarrow> Fail err
       | Inr (pathValues, pathParams) \<Rightarrow>
         obind (if canUseFastWireInvoke w ep wr then Ret None else decodeWirePayload (w_go w) wr (e_PayloadType ep))
           (\<lambda>payload. Ret (wr, pathValues, pathParams, payload)))"

text \<open>The request as the endpoint sees it: the logical method and path of the call.\<close>

definition wireRequestForState :: "httpRequest \<Rightarrow> Endpoint \<Rightarrow> wireRequest \<Rightarrow> pathParams \<Rightarrow> httpRequest" where
  "wireRequestForState req ep wr pathParams =
     (let method = toUpper (trimSpace (wr_Method wr))
      in req\<lparr>rq_Method := (if method = [] then preferredRuntimeMethod (e_Methods ep) else method),
             rq_Path := renderWireRequestPath (e_Path ep) pathParams\<rparr>)"

definition finishWireCall ::
  "world \<Rightarrow> int \<Rightarrow> httpRequest \<Rightarrow> wireRequest \<Rightarrow> httpHeader \<Rightarrow>
   dyn option \<times> int \<times> httpHeader option \<times> goerr option \<Rightarrow> server \<Rightarrow> server \<times> reply" where
  "finishWireCall w now req wr hdr result s =
     (let (resp, status, headers, callErr) = result; hdr = applyHeaders hdr (hdrOf headers);
          fastJSON = requestUsesWireJSON req
      in case callErr of
           Some err \<Rightarrow> writeWireAppError w hdr now req err status fastJSON (wr_BinaryFrame wr) s
         | None \<Rightarrow>
           (let (body, bodyStatus, hdr) = wireResponseBody (w_enc w) resp hdr;
                status = (if status = 0 then bodyStatus else status);
                status = (if status = 0 then 200 else status)
            in writeWireSuccess w hdr now req status body (wr_PayloadJSON wr \<noteq> []) fastJSON (wr_BinaryFrame wr) s))"

definition serveWireEndpointCall ::
  "world \<Rightarrow> httpHeader \<Rightarrow> int \<Rightarrow> httpRequest \<Rightarrow> Endpoint \<Rightarrow> server \<Rightarrow> (server \<times> reply) call option" where
  "serveWireEndpointCall w hdr now req ep s =
     (case decodeWireArgs w req ep of
        Panic \<Rightarrow> Some (Panicked ''decode'')
      | Fail err \<Rightarrow> Some (Returned (s, writeWireFallback w hdr err))
      | Ret (wr, pathValues, pathParams, payload) \<Rightarrow>
        (let req' = wireRequestForState req ep wr pathParams;
             ctx = newExternalState ep req' pathParams payload noAuth;
             fastJSON = requestUsesWireJSON req
         in case authenticateRequest w req' ep ctx of
              Panic \<Rightarrow> Some (Panicked ''auth'')
            | Fail err \<Rightarrow>
              Some (Returned (writeWireAppError w hdr now req err (int (HTTPStatus (Some err))) fastJSON (wr_BinaryFrame wr) s))
            | Ret info \<Rightarrow>
              (let ctx = ctx\<lparr>cx_auth := info\<rparr> in
               if canUseFastWireJSON w ep wr req
               then (case the (e_WireInvokeJSON ep) ctx pathValues (wr_PayloadJSON wr) of
                       Panicked v \<Rightarrow> Some (Panicked v)
                     | Returned (data, Some err) \<Rightarrow>
                       Some (Returned (writeWireAppError w hdr now req err (int (HTTPStatus (Some err))) fastJSON (wr_BinaryFrame wr) s))
                     | Returned (data, None) \<Rightarrow> Some (Returned (s, writeWireJSONBytes hdr 200 data s)))
               else (case executeWireEndpoint w ep ctx pathValues payload wr (canUseFastWireInvoke w ep wr) of
                       None \<Rightarrow> None
                     | Some (Panicked v) \<Rightarrow> Some (Panicked v)
                     | Some (Returned result) \<Rightarrow> Some (Returned (finishWireCall w now req wr hdr result s))))))"

definition lookupWireEndpoint :: "string \<Rightarrow> server \<Rightarrow> Endpoint option" where
  "lookupWireEndpoint i s = (let i = trimSpace i in if i = [] then None else map_of (srv_wireEndpoints s) i)"

definition serveWireCall ::
  "world \<Rightarrow> httpHeader \<Rightarrow> int \<Rightarrow> httpRequest \<Rightarrow> string \<Rightarrow> server \<Rightarrow> (server \<times> reply) call option" where
  "serveWireCall w hdr now req endpointID s =
     (case lookupWireEndpoint endpointID s of
        None \<Rightarrow> Some (Returned (s, writeWireFallback w hdr (bErr (bMsg ''wire endpoint not found'' (bCode NotFound B)))))
      | Some ep \<Rightarrow>
        if e_Access ep = Private
        then Some (Returned (s, writeWireFallback w hdr (bErr (bMsg ''wire endpoint not found'' (bCode NotFound B)))))
        else if \<not> e_WireAvailable ep
        then (let msg = trimSpace (e_WireUnsupportedReason ep);
                  msg = (if msg = [] then ''wire transport unavailable for endpoint'' else msg)
              in Some (Returned (s, writeWireFallback w hdr (bErr (bMsg msg (bCode Unimplemented B))))))
        else serveWireEndpointCall w hdr now req ep s)"

subsection \<open>One request\<close>

definition serveWireCapabilities :: "httpHeader \<Rightarrow> server \<Rightarrow> reply" where
  "serveWireCapabilities hdr s =
     \<lparr>rp_Status = 200,
      rp_Header = headerSet (headerSet hdr ''Content-Type'' ''application/json'') ''Cache-Control'' ''no-store'',
      rp_Body = CapabilitiesBody (srv_wireCaps s)\<rparr>"

definition withState :: "server \<Rightarrow> reply call option \<Rightarrow> (server \<times> reply) call option" where
  "withState s r = map_option (\<lambda>c. case c of Returned p \<Rightarrow> Returned (s, p) | Panicked v \<Rightarrow> Panicked v) r"

definition runHandler ::
  "world \<Rightarrow> httpHeader \<Rightarrow> int \<Rightarrow> httpRequest \<Rightarrow> handler \<Rightarrow> routeParams \<Rightarrow> server \<Rightarrow> (server \<times> reply) call option" where
  "runHandler w hdr now req h params s =
     (case h of
        TypedEndpoint ep \<Rightarrow> withState s (serveTyped w hdr req ep params)
      | RawEndpoint ep \<Rightarrow> withState s (serveRaw w hdr req ep params)
      | WireCapabilities \<Rightarrow> Some (Returned (s, serveWireCapabilities hdr s))
      | WireRecovery \<Rightarrow> Some (Returned (serveWireRecovery w hdr now (ByName params ''call_id'') s))
      | WireEndpointCall ep \<Rightarrow> serveWireEndpointCall w hdr now req ep s
      | WireCall \<Rightarrow> serveWireCall w hdr now req (ByName params ''endpoint_id'') s
      | DevEndpoint n \<Rightarrow> Some (Returned (s, \<lparr>rp_Status = 200, rp_Header = hdr, rp_Body = NoBody\<rparr>)))"

definition globalOptions :: "httpHeader \<Rightarrow> httpRequest \<Rightarrow> string \<Rightarrow> world \<Rightarrow> reply" where
  "globalOptions hdr req allow w =
     (let hdr = headerSet hdr ''Allow'' allow; hdr = applyCORSHeaders (w_env w) hdr req;
          hdr = (if allow \<noteq> [] then headerSet hdr ''Access-Control-Allow-Methods'' allow else hdr);
          requested = headerGet (rq_Header req) ''Access-Control-Request-Headers'';
          hdr = (if requested \<noteq> [] then headerSet hdr ''Access-Control-Allow-Headers'' requested else hdr)
      in \<lparr>rp_Status = 204, rp_Header = hdr, rp_Body = NoBody\<rparr>)"

text \<open>The handler of the server, compression aside: CORS headers, then the public route table.\<close>

definition serveRequest :: "world \<Rightarrow> int \<Rightarrow> httpRequest \<Rightarrow> server \<Rightarrow> (server \<times> reply) call option" where
  "serveRequest w now req s =
     (let hdr = applyCORSHeaders (w_env w) [] req in
      case ServeHTTP (srv_public s) (rq_Method req) (rq_Path req) of
        Dispatched rt params allow \<Rightarrow> runHandler w (headerSet hdr ''Allow'' allow) now req (rt_handler rt) params s
      | GlobalOptions allow \<Rightarrow> Some (Returned (s, globalOptions hdr req allow w))
      | MethodNotAllowed allow \<Rightarrow>
          Some (Returned (s, HTTPErrorReply w (headerSet hdr ''Allow'' allow)
            (bErr (bMsg ''method not allowed'' (bCode InvalidArgument B))) 405))
      | NotFoundHandler \<Rightarrow> Some (Returned (s, HTTPErrorReply w hdr (bErr (bMsg ''endpoint not found'' (bCode NotFound B))) 0))
      | DefaultNotFound \<Rightarrow> Some (Returned (s, \<lparr>rp_Status = 404, rp_Header = hdr, rp_Body = NoBody\<rparr>)))"

section \<open>The routes of a server\<close>

definition wireEndpointsOf :: "Endpoint list \<Rightarrow> (string, Endpoint) gomap" where
  "wireEndpointsOf = foldl (\<lambda>m ep. AList.update (endpointWireID ep) ep m) []"

definition endpointRoutes :: "Endpoint list \<Rightarrow> (string list \<times> string \<times> handler) list" where
  "endpointRoutes eps = map (\<lambda>ep. (e_Methods ep, e_Path ep, endpointHandler ep)) (filter (\<lambda>ep. e_Access ep \<noteq> Private) eps)"

definition publicRoutes :: "world \<Rightarrow> (string, Endpoint) gomap \<Rightarrow> (string list \<times> string \<times> handler) list" where
  "publicRoutes w eps =
     endpointRoutes (listEndpoints eps) @ wireRoutes (wireEndpointsOf (listEndpoints eps))
     @ (if devEndpointsEnabled (w_env w) then devRoutes else [])"

lemma registerEndpoint_parts:
  "srv_public (registerEndpoint s ep) =
     (if e_Access ep = Private then srv_public s else Handle (srv_public s) (e_Methods ep) (e_Path ep) (endpointHandler ep))"
  "srv_wireEndpoints (registerEndpoint s ep) = AList.update (endpointWireID ep) ep (srv_wireEndpoints s)"
  by (simp_all add: registerEndpoint_def selectRouter_def registerRoute_def Let_def)

lemma register_fold:
  "srv_public (foldl registerEndpoint s eps) = registerAll (srv_public s) (endpointRoutes eps)"
  "srv_wireEndpoints (foldl registerEndpoint s eps) =
     foldl (\<lambda>m ep. AList.update (endpointWireID ep) ep m) (srv_wireEndpoints s) eps"
  by (induction eps arbitrary: s) (simp_all add: registerEndpoint_parts endpointRoutes_def registerAll_def)

lemma registerAll_append: "registerAll t (xs @ ys) = registerAll (registerAll t xs) ys" "registerAll t [] = t"
  by (simp_all add: registerAll_def)

lemma newServer_public:
  "srv_public (newServer w eps) = registerAll (newRouteTable\<lparr>tab_GlobalOPTIONS := True, tab_NotFound := True\<rparr>) (publicRoutes w eps)"
  and newServer_wire: "srv_wireEndpoints (newServer w eps) = wireEndpointsOf (listEndpoints eps)"
  by (simp_all add: newServer_def Let_def registerWire_def publicRoutes_def registerAll_append wireEndpointsOf_def register_fold)

lemma newServer_table: "tableOK (srv_public (newServer w eps)) (registered (publicRoutes w eps))"
proof -
  have "tableOK (newRouteTable\<lparr>tab_GlobalOPTIONS := True, tab_NotFound := True\<rparr>) []"
    by (simp add: tableOK_def newRouteTable_def exactAt_def)
  then show ?thesis unfolding newServer_public using tableOK_registerAll by fastforce
qed

lemma dispatched_registered:
  assumes "ServeHTTP (srv_public (newServer w eps)) m path = Dispatched rt ps allow"
  shows "rt \<in> set (registered (publicRoutes w eps))"
proof -
  let ?t = "srv_public (newServer w eps)"
  have "rt \<in> set (tab_routes ?t) \<or> rt \<in> set (exactAt ?t path)"
    using assms unfolding ServeHTTP_scans
    by (auto split: option.splits if_splits simp: serveNotFound_def dest!: find_In)
  then show ?thesis using newServer_table [of w eps] tableOK_set tableOK_exact by blast
qed

lemma exact_dispatch:
  assumes "(ms, p, h) \<in> set (publicRoutes w eps)" "isExact (parseRoutePattern p)" "m \<noteq> ''OPTIONS''"
    "routeAllowsMethod (expandMethods ms) m"
  obtains rt allow ms' h' where "ServeHTTP (srv_public (newServer w eps)) m p = Dispatched rt [] allow"
    "rt = newRoute ms' p h'" "(ms', p, h') \<in> set (publicRoutes w eps)" "routeAllowsMethod (expandMethods ms') m"
proof -
  let ?exact = "exactAt (srv_public (newServer w eps)) p"
  note mem = tableOK_exact [OF newServer_table [of w eps], of _ p]
  from assms(1) have "newRoute ms p h \<in> set (registered (publicRoutes w eps))" by (force simp: registered_def)
  with assms(2,4) have "newRoute ms p h \<in> set ?exact" "routeAllowsMethod (rt_methods (newRoute ms p h)) m"
    by (simp_all add: mem newRoute_def parsed_raw)
  then obtain r where r: "find (\<lambda>r. routeAllowsMethod (rt_methods r) m) ?exact = Some r"
    by (cases "find (\<lambda>r. routeAllowsMethod (rt_methods r) m) ?exact") (auto simp: find_None_iff)
  then have "ServeHTTP (srv_public (newServer w eps)) m p = Dispatched r [] (joinWith '', '' (expandedAllowedMethods ?exact))"
    using assms(3) by (simp add: ServeHTTP_scans)
  moreover obtain ms' h' where "r = newRoute ms' p h'" "(ms', p, h') \<in> set (publicRoutes w eps)"
    "routeAllowsMethod (expandMethods ms') m"
    using find_In [OF r] by (auto simp: mem registered_def newRoute_def parsed_raw)
  ultimately show thesis using that by blast
qed

lemma post_allowed [simp]:
  "routeAllowsMethod (expandMethods [''POST'']) ''POST''" "\<not> routeAllowsMethod (expandMethods [''GET'']) ''POST''"
  "routeAllowsMethod (expandMethods [''GET'', ''POST'']) ''POST''"
  by code_simp+

lemma wire_call_not_exact [simp]: "\<not> isExact (parseRoutePattern (CallPathPrefix @ '':endpoint_id''))"
  by code_simp

lemma wireEndpointsOf_mem: "(i, q) \<in> set (wireEndpointsOf eps) \<Longrightarrow> i = endpointWireID q \<and> q \<in> set eps"
proof -
  have "\<forall>(i, q) \<in> set m. i = endpointWireID q \<and> q \<in> D \<Longrightarrow> set eps \<subseteq> D \<Longrightarrow>
      (i, q) \<in> set (foldl (\<lambda>m ep. AList.update (endpointWireID ep) ep m) m eps) \<Longrightarrow> i = endpointWireID q \<and> q \<in> D" for m D
  proof (induction eps arbitrary: m)
    case (Cons e eps)
    have "set (AList.update (endpointWireID e) e m) \<subseteq> insert (endpointWireID e, e) (set m)"
      by (induction m) auto
    with Cons.prems(1,2) have "\<forall>(i, q) \<in> set (AList.update (endpointWireID e) e m). i = endpointWireID q \<and> q \<in> D" by auto
    from Cons.IH [OF this] Cons.prems show ?case by simp
  qed auto
  from this [of "[]" "set eps"] show "(i, q) \<in> set (wireEndpointsOf eps) \<Longrightarrow> i = endpointWireID q \<and> q \<in> set eps"
    by (simp add: wireEndpointsOf_def)
qed

lemma wireEndpointsOf_has:
  assumes "ep \<in> set eps" "\<And>q. q \<in> set eps \<Longrightarrow> q \<noteq> ep \<Longrightarrow> endpointWireID q \<noteq> endpointWireID ep"
  shows "(endpointWireID ep, ep) \<in> set (wireEndpointsOf eps)"
proof -
  have "map_of (foldl (\<lambda>m ep. AList.update (endpointWireID ep) ep m) m eps) (endpointWireID ep) = Some ep"
    if "ep \<in> set eps \<or> map_of m (endpointWireID ep) = Some ep" "\<forall>q \<in> set eps. q \<noteq> ep \<longrightarrow> endpointWireID q \<noteq> endpointWireID ep"
    for m using that
    by (induction eps arbitrary: m) (auto simp: update_conv)
  from this [of "[]"] assms show ?thesis by (auto simp: wireEndpointsOf_def intro: map_of_SomeD)
qed

text \<open>The routes that take a POST on an exact path of the wire transport.\<close>

lemma publicRoutes_post:
  assumes "(ms, CallPathPrefix @ i, h) \<in> set (publicRoutes w eps)" "routeAllowsMethod (expandMethods ms) ''POST''"
    "isExact (parseRoutePattern (CallPathPrefix @ i))"
  shows "(\<exists>q \<in> set (listEndpoints eps). e_Access q \<noteq> Private \<and> e_Path q = CallPathPrefix @ i)
    \<or> (\<exists>q \<in> set (listEndpoints eps). i = endpointWireID q \<and> h = WireEndpointCall q)"
proof -
  have "(ms, CallPathPrefix @ i, h) \<notin> set devRoutes"
    by (auto simp: devRoutes_def pprofRoutes_def CallPathPrefix_def)
  with assms show ?thesis
    by (auto simp: publicRoutes_def endpointRoutes_def wireRoutes_def dest!: wireEndpointsOf_mem)
qed

text \<open>
  Private endpoints have no route of their own in the public table: whatever request the server dispatches to the handler of a
  typed or raw endpoint, the endpoint is public or needs authentication.\<close>

lemma own_routes_not_private:
  assumes "ServeHTTP (srv_public (newServer w eps)) m path = Dispatched rt ps allow"
    and "rt_handler rt = TypedEndpoint ep \<or> rt_handler rt = RawEndpoint ep"
  shows "e_Access ep \<noteq> Private \<and> ep \<in> set (listEndpoints eps)"
proof -
  have "(rt_methods rt, rt_handler rt) \<in> (\<lambda>(ms, p, h). (expandMethods ms, h)) ` set (publicRoutes w eps)"
    using dispatched_registered [OF assms(1)] by (force simp: registered_def newRoute_def)
  then have "\<exists>ms p. (ms, p, rt_handler rt) \<in> set (publicRoutes w eps)" by force
  then show ?thesis
    using assms(2) by (auto simp: publicRoutes_def endpointRoutes_def wireRoutes_def devRoutes_def pprofRoutes_def
        endpointHandler_def split: if_splits)
qed

text \<open>An endpoint for the witnesses, and the table that holds it alone.\<close>

definition payGet :: "Access \<Rightarrow> Endpoint" where
  "payGet a = \<lparr>e_Service = ''pay'', e_Name = ''Get'', e_Access = a, e_Raw = False, e_Path = ''/pay'', e_Methods = [''GET''],
        e_MiddlewareIDs = [], e_PathParams = [], e_PayloadType = None, e_ResponseType = None, e_WireID = ''pay.Get'',
        e_WireSchemaHash = [], e_WireAvailable = False, e_WireUnsupportedReason = [],
        e_Invoke = (\<lambda>ctx vs p. Returned (None, None)), e_WireInvoke = None, e_WireInvokeJSON = None,
        e_RawHandler = (\<lambda>ctx. ([], Returned ()))\<rparr>"

lemma payGet_fields [simp]:
  "e_Access (payGet a) = a" "e_Path (payGet a) = ''/pay''" "e_Methods (payGet a) = [''GET'']" "e_Raw (payGet a) = False"
  "endpointWireID (payGet a) = ''pay.Get''"
  by (simp_all add: payGet_def endpointWireID_def trimSpace_def) code_simp?

lemma payGet_alone [simp]: "listEndpoints [(k, payGet a)] = [payGet a]"
  by (simp add: listEndpoints_def sortStable_def)

lemma own_routes_not_private_witness:
  "\<forall>w. (\<exists>rt allow. ServeHTTP (srv_public (newServer w [(''pay.Get'', payGet Auth)])) ''GET'' ''/pay'' = Dispatched rt [] allow
          \<and> rt_handler rt = TypedEndpoint (payGet Auth))
        \<and> e_Access (payGet Auth) \<noteq> Private \<and> payGet Auth \<in> set (listEndpoints [(''pay.Get'', payGet Auth)])"
proof
  fix w
  let ?eps = "[(''pay.Get'', payGet Auth)]"
  have x: "isExact (parseRoutePattern ''/pay'')" "routeAllowsMethod (expandMethods [''GET'']) ''GET''" by code_simp+
  have r: "([''GET''], ''/pay'', TypedEndpoint (payGet Auth)) \<in> set (publicRoutes w ?eps)"
    by (simp add: publicRoutes_def endpointRoutes_def endpointHandler_def)
  obtain rt allow ms h where d: "ServeHTTP (srv_public (newServer w ?eps)) ''GET'' ''/pay'' = Dispatched rt [] allow"
      "rt = newRoute ms ''/pay'' h" "(ms, ''/pay'', h) \<in> set (publicRoutes w ?eps)"
    by (rule exact_dispatch [OF r x(1) _ x(2)]) simp_all
  then have h: "rt_handler rt = TypedEndpoint (payGet Auth)"
    by (auto simp: publicRoutes_def endpointRoutes_def endpointHandler_def wireRoutes_def devRoutes_def pprofRoutes_def
        CapabilitiesPath_def RecoverPathPrefix_def CallPathPrefix_def newRoute_def split: if_splits)
  then show "(\<exists>rt allow. ServeHTTP (srv_public (newServer w ?eps)) ''GET'' ''/pay'' = Dispatched rt [] allow
          \<and> rt_handler rt = TypedEndpoint (payGet Auth))
        \<and> e_Access (payGet Auth) \<noteq> Private \<and> payGet Auth \<in> set (listEndpoints ?eps)"
    using d(1) own_routes_not_private [OF d(1), of "payGet Auth"] by blast
qed

text \<open>
  (C23) The wire transport reaches private endpoints.  A private endpoint has no route of its own, the call of an endpoint
  by identifier (\<open>serveWireCall\<close>) answers that it does not exist, and it is documented as internal to
  the application.  But the route made for each wire identifier calls \<open>serveWireEndpointCall\<close> directly: with an identifier
  that is a plain path segment and whose path no other endpoint takes, a POST from outside is served by the private endpoint, and no
  authentication is asked for, whether or not the wire transport is available for it.\<close>

theorem private_endpoint_exposed:
  assumes ep: "ep \<in> set (listEndpoints eps)" "e_Access ep = Private"
    and plain: "isExact (parseRoutePattern (CallPathPrefix @ endpointWireID ep))"
    and alone: "\<forall>q \<in> set (listEndpoints eps). q \<noteq> ep \<longrightarrow>
      endpointWireID q \<noteq> endpointWireID ep \<and> e_Path q \<noteq> CallPathPrefix @ endpointWireID ep"
    and req: "rq_Method req = ''POST''" "rq_Path req = CallPathPrefix @ endpointWireID ep"
  shows "(\<exists>hdr. serveRequest w now req (newServer w eps) = serveWireEndpointCall w hdr now req ep (newServer w eps))
         \<and> (\<forall>r ctx. authenticateRequest w r ep ctx = Ret noAuth)"
proof -
  let ?path = "CallPathPrefix @ endpointWireID ep"
  have "(endpointWireID ep, ep) \<in> set (wireEndpointsOf (listEndpoints eps))"
    using ep(1) alone by (intro wireEndpointsOf_has) blast+
  then have "([''POST''], ?path, WireEndpointCall ep) \<in> set (publicRoutes w eps)"
    by (force simp: publicRoutes_def wireRoutes_def)
  then obtain rt allow ms h where
    rt: "ServeHTTP (srv_public (newServer w eps)) ''POST'' ?path = Dispatched rt [] allow" "rt = newRoute ms ?path h"
      "(ms, ?path, h) \<in> set (publicRoutes w eps)" "routeAllowsMethod (expandMethods ms) ''POST''"
    using plain by (rule exact_dispatch [where m = "''POST''"]) simp_all
  have "h = WireEndpointCall ep"
    using publicRoutes_post [OF rt(3,4) plain] ep(2) alone by metis
  then show ?thesis
    using rt(1,2) req ep(2) by (auto simp: serveRequest_def newRoute_def runHandler_def authenticateRequest_def Let_def)
qed

theorem private_endpoint_exposed_witness:
  "\<forall>w. let eps = [(''pay.Get'', payGet Private)];
        req = \<lparr>rq_Method = ''POST'', rq_Path = ''/_wire/pay.Get'', rq_Query = [], rq_Header = [], rq_Cookies = [], rq_Body = None\<rparr>
    in \<not> e_WireAvailable (payGet Private) \<and>
       (\<exists>hdr. serveRequest w 0 req (newServer w eps) = serveWireEndpointCall w hdr 0 req (payGet Private) (newServer w eps))"
proof (intro allI, unfold Let_def, intro conjI)
  fix w
  let ?req = "\<lparr>rq_Method = ''POST'', rq_Path = ''/_wire/pay.Get'', rq_Query = [], rq_Header = [], rq_Cookies = [], rq_Body = None\<rparr>"
  have "isExact (parseRoutePattern (CallPathPrefix @ ''pay.Get''))" by code_simp
  then show "\<exists>hdr. serveRequest w 0 ?req (newServer w [(''pay.Get'', payGet Private)])
      = serveWireEndpointCall w hdr 0 ?req (payGet Private) (newServer w [(''pay.Get'', payGet Private)])"
    using private_endpoint_exposed [of "payGet Private" "[(''pay.Get'', payGet Private)]" ?req w 0]
    by (simp add: CallPathPrefix_def)
qed (simp add: payGet_def)

section \<open>Authentication\<close>

text \<open>The endpoint with other functions behind it.\<close>

definition withFunctions :: "Endpoint \<Rightarrow> Endpoint \<Rightarrow> Endpoint" where
  "withFunctions q ep = ep\<lparr>e_Invoke := e_Invoke q, e_WireInvoke := e_WireInvoke q, e_WireInvokeJSON := e_WireInvokeJSON q,
                           e_RawHandler := e_RawHandler q\<rparr>"

fun handlerWith :: "Endpoint \<Rightarrow> handler \<Rightarrow> handler" where
  "handlerWith q (TypedEndpoint ep) = TypedEndpoint (withFunctions q ep)"
| "handlerWith q (RawEndpoint ep) = RawEndpoint (withFunctions q ep)"
| "handlerWith q (WireEndpointCall ep) = WireEndpointCall (withFunctions q ep)"
| "handlerWith q h = h"

lemma withFunctions_simps [simp]:
  "e_PathParams (withFunctions q ep) = e_PathParams ep" "e_PayloadType (withFunctions q ep) = e_PayloadType ep"
  "e_Access (withFunctions q ep) = e_Access ep" "e_Methods (withFunctions q ep) = e_Methods ep"
  "e_Path (withFunctions q ep) = e_Path ep" "e_WireSchemaHash (withFunctions q ep) = e_WireSchemaHash ep"
  "newExternalState (withFunctions q ep) = newExternalState ep"
  "authenticateRequest w r (withFunctions q ep) = authenticateRequest w r ep"
  "wireRequestForState r (withFunctions q ep) = wireRequestForState r ep"
  by (auto simp: withFunctions_def newExternalState_def authenticateRequest_def wireRequestForState_def Let_def fun_eq_iff)

lemma wireRequestForState_headers: "rq_Header (wireRequestForState req ep wr ps) = rq_Header req"
  by (simp add: wireRequestForState_def Let_def)

lemma decodeWireArgs_auth:
  assumes "e_Access ep = Auth"
  shows "decodeWireArgs w req (withFunctions q ep) = decodeWireArgs w req ep"
proof -
  have "decodeWireCall w req (withFunctions q ep) = decodeWireCall w req ep"
    by (simp only: decodeWireCall_def withFunctions_simps)
  moreover have "canUseFastWireInvoke w e wr = False" if "e_Access e = Auth" for e wr
    using that by (simp add: canUseFastWireInvoke_def)
  ultimately show ?thesis
    using assms by (simp only: decodeWireArgs_def withFunctions_simps)
qed

lemma rejected:
  assumes "e_Access ep = Auth" "cx_Headers ctx = rq_Header req"
    and "\<And>h c params info. w_authHandler w = Some h \<Longrightarrow> cx_Headers c = rq_Header req \<Longrightarrow>
           ah_Authenticate h c params = Returned (info, None) \<Longrightarrow> ai_UID info = []"
  shows "authenticateRequest w r ep ctx \<noteq> Ret info"
  using assms
  by (cases "w_authHandler w"; cases "decodeAuthParams (goEnv.truncate (w_go w)) r (ah_ParamType (the (w_authHandler w)))")
    (auto simp: authenticateRequest_def split: option.splits call.splits if_splits prod.splits)

text \<open>
  (C22) Authentication cannot be skipped: when the auth handler accepts no context with the headers of a request (there is no auth handler, it
  returns an error, it panics, or it returns an empty user), the functions of an endpoint that needs authentication
  have no influence on what happens, be it called on its own route or through the wire transport: the
  reply and the state of the server are the same whatever code stands behind the endpoint.\<close>

theorem auth_not_bypassed:
  assumes "h \<in> {TypedEndpoint ep, RawEndpoint ep, WireEndpointCall ep}" "e_Access ep = Auth"
    and no: "\<And>a c params info. w_authHandler w = Some a \<Longrightarrow> cx_Headers c = rq_Header req \<Longrightarrow>
           ah_Authenticate a c params = Returned (info, None) \<Longrightarrow> ai_UID info = []"
  shows "runHandler w hdr now req (handlerWith q h) params s = runHandler w hdr now req h params s"
proof -
  have r: "authenticateRequest w r ep (newExternalState ep r' ps pl noAuth) \<noteq> Ret info"
    if "rq_Header r' = rq_Header req" for r r' ps pl info
    using assms(2) that no by (intro rejected [where req = req]) (auto simp: newExternalState_def)
  have typed: "serveTyped w hdr req (withFunctions q ep) params = serveTyped w hdr req ep params"
    using r by (simp add: serveTyped_def Let_def split: sum.splits outcome.splits)
  have raw: "serveRaw w hdr req (withFunctions q ep) params = serveRaw w hdr req ep params"
    using r by (simp add: serveRaw_def Let_def split: outcome.splits)
  have "serveWireEndpointCall w hdr now req (withFunctions q ep) s = serveWireEndpointCall w hdr now req ep s"
    using r [OF wireRequestForState_headers]
    by (simp add: serveWireEndpointCall_def decodeWireArgs_auth assms(2) Let_def split: outcome.splits)
  with typed raw assms(1) show ?thesis by (auto simp: runHandler_def)
qed

theorem auth_not_bypassed_witness:
  "\<forall>w0. let w = w0\<lparr>w_authHandler := Some \<lparr>ah_ParamType = None,
                    ah_Authenticate = (\<lambda>ctx p. Returned (noAuth, Some (bErr (bCode Unauthenticated B))))\<rparr>\<rparr>;
             req = \<lparr>rq_Method = ''GET'', rq_Path = ''/pay'', rq_Query = [], rq_Header = [], rq_Cookies = [], rq_Body = None\<rparr>
    in \<forall>q s. runHandler w [] 0 req (handlerWith q (TypedEndpoint (payGet Auth))) [] s
             = runHandler w [] 0 req (TypedEndpoint (payGet Auth)) [] s"
  unfolding Let_def by (intro allI auth_not_bypassed [where ep = "payGet Auth"]) (auto simp: payGet_def)

section \<open>The recovery store\<close>

text \<open>What happens to the store: results are stored and looked up.\<close>

datatype recoveryOp =
    Stored int httpRequest int "respBody option" "goany option"
  | LookedUp int string

fun recoveryStep :: "server \<Rightarrow> recoveryOp \<Rightarrow> server" where
  "recoveryStep s (Stored now req status result err) = storeWireRecovery now req status result err s"
| "recoveryStep s (LookedUp now callID) = fst (lookupWireRecovery now callID s)"

fun opTime :: "recoveryOp \<Rightarrow> int" where
  "opTime (Stored now req status result err) = now"
| "opTime (LookedUp now callID) = now"

fun overwrites :: "string \<Rightarrow> recoveryOp \<Rightarrow> bool" where
  "overwrites callID (Stored now req status result err) = (headerGet (rq_Header req) CallIDHeader = callID)"
| "overwrites callID (LookedUp now i) = False"

definition recoveryOK :: "server \<Rightarrow> bool" where
  "recoveryOK s = distinct (map fst (srv_wireRecovery s))"

lemma distinct_keys_filter: "distinct (map fst m) \<Longrightarrow> distinct (map fst (filter P m))"
  by (induction m) auto

lemma map_of_filter_keys:
  "distinct (map fst m) \<Longrightarrow> map_of (filter (\<lambda>(k, v). P v) m) k = (case map_of m k of Some v \<Rightarrow> if P v then Some v else None | None \<Rightarrow> None)"
  by (induction m) (auto simp: map_of_eq_None_iff [symmetric] split: option.splits)

lemma pruned_lookup:
  "distinct (map fst m) \<Longrightarrow> map_of (pruneWireRecovery b m) k =
     (case map_of m k of Some r \<Rightarrow> if wrr_StoredAt r < b then None else Some r | None \<Rightarrow> None)"
  unfolding pruneWireRecovery_def by (subst map_of_filter_keys) (auto split: option.splits)

lemma recoveryOK_step [keeps]: "recoveryOK s \<Longrightarrow> recoveryOK (recoveryStep s p)"
  by (cases p) (auto simp: recoveryOK_def storeWireRecovery_def lookupWireRecovery_def pruneWireRecovery_def Let_def
      intro!: distinct_keys_filter distinct_update)

lemma kept_step:
  assumes "recoveryOK s" "map_of (srv_wireRecovery s) callID = Some r" "\<not> overwrites callID p" "opTime p \<le> wrr_StoredAt r + 10 * minute"
  shows "map_of (srv_wireRecovery (recoveryStep s p)) callID = Some r"
  using assms
  by (cases p) (auto simp: recoveryOK_def storeWireRecovery_def lookupWireRecovery_def Let_def pruned_lookup distinct_update update_conv)

lemma kept_steps:
  assumes "recoveryOK s" "map_of (srv_wireRecovery s) callID = Some r"
    "\<forall>p \<in> set ops. \<not> overwrites callID p \<and> opTime p \<le> wrr_StoredAt r + 10 * minute"
  shows "recoveryOK (foldl recoveryStep s ops) \<and> map_of (srv_wireRecovery (foldl recoveryStep s ops)) callID = Some r"
  using assms by (induction ops arbitrary: s) (simp_all add: kept_step recoveryOK_step)

text \<open>
  (C27) The result of a wire call can be recovered for ten minutes.  A call that names itself stores its result; whatever
  calls and lookups follow, as long as none of them stores a result under the same name and none is later than ten minutes
  after the call, asking for the result at any time of those ten minutes returns it with its status, and
  asking later finds nothing, so the store keeps no result for longer.\<close>

theorem wire_result_recoverable:
  assumes "recoveryOK s" "headerGet (rq_Header req) CallIDHeader = callID" "trimSpace callID = callID" "callID \<noteq> []"
    and "\<forall>p \<in> set ops. \<not> overwrites callID p \<and> opTime p \<le> t + 10 * minute"
  shows "let s' = foldl recoveryStep (storeWireRecovery t req status result err s) ops;
             r = \<lparr>wrr_StoredAt = t, wrr_Status = status, wrr_Result = result, wrr_Error = err\<rparr>
         in (now \<le> t + 10 * minute \<longrightarrow>
               rp_Status (snd (serveWireRecovery w hdr now callID s')) = status
               \<and> rp_Body (snd (serveWireRecovery w hdr now callID s')) = RecoveryBody r)
            \<and> (now > t + 10 * minute \<longrightarrow>
               snd (serveWireRecovery w hdr now callID s')
                 = HTTPErrorReply w hdr (bErr (bMsg ''wire call result not found'' (bCode NotFound B))) 0)"
proof -
  let ?r = "\<lparr>wrr_StoredAt = t, wrr_Status = status, wrr_Result = result, wrr_Error = err\<rparr>"
  let ?s0 = "storeWireRecovery t req status result err s"
  have "recoveryOK ?s0" using recoveryOK_step [OF assms(1), of "Stored t req status result err"] by simp
  moreover have "map_of (srv_wireRecovery ?s0) callID = Some ?r"
    using assms(1,2,4) by (simp add: storeWireRecovery_def Let_def pruned_lookup recoveryOK_def distinct_update update_conv minute_def)
  ultimately have "recoveryOK (foldl recoveryStep ?s0 ops)" "map_of (srv_wireRecovery (foldl recoveryStep ?s0 ops)) callID = Some ?r"
    using kept_steps [of ?s0 callID ?r ops] assms(5) by simp_all
  then show ?thesis
    using assms(3,4) by (auto simp: Let_def serveWireRecovery_def lookupWireRecovery_def pruned_lookup recoveryOK_def)
qed

theorem wire_result_recoverable_witness:
  "\<forall>w. let s = (newServer w [])\<lparr>srv_wireRecovery := []\<rparr>;
        req = \<lparr>rq_Method = ''POST'', rq_Path = [], rq_Query = [], rq_Header = [(''X-Scenery-Call-Id'', [''c1''])], rq_Cookies = [], rq_Body = None\<rparr>
    in rp_Status (snd (serveWireRecovery w [] 7 ''c1'' (recoveryStep (storeWireRecovery 5 req 200 None None s) (LookedUp 6 ''c2'')))) = 200"
proof -
  have h: "headerGet [(''X-Scenery-Call-Id'', [''c1''])] CallIDHeader = ''c1''" "trimSpace ''c1'' = ''c1''" by code_simp+
  show ?thesis
    unfolding Let_def
  proof
    fix w
    let ?s = "(newServer w [])\<lparr>srv_wireRecovery := []\<rparr>"
    let ?req = "\<lparr>rq_Method = ''POST'', rq_Path = [], rq_Query = [], rq_Header = [(''X-Scenery-Call-Id'', [''c1''])], rq_Cookies = [], rq_Body = None\<rparr>"
    show "rp_Status (snd (serveWireRecovery w [] 7 ''c1'' (recoveryStep (storeWireRecovery 5 ?req 200 None None ?s) (LookedUp 6 ''c2'')))) = 200"
      using wire_result_recoverable [of ?s ?req "''c1''" "[LookedUp 6 ''c2'']" 5 200 None None 7 w "[]"] h
      by (simp add: recoveryOK_def minute_def Let_def)
  qed
qed

end
