(* ===== verification/Lifecycle.thy ===== *)
theory Lifecycle
  imports RuntimeServer
begin

text \<open>
  The life of an application process: the start of its services in concurrent goroutines and their ordered shutdown
  (\<open>runtime/registry.go\<close>), calls between endpoints and the state of the current request (\<open>registry.go\<close>, \<open>current.go\<close>), and
  the order in which \<open>Main\<close> starts and stops everything (\<open>runtime/app.go\<close>).  The start of the services is a step relation, so that
  every interleaving of the goroutines is covered; the outcome of the subsystems \<open>Main\<close> calls is a record.
\<close>

section \<open>Definitions\<close>

subsection \<open>Services\<close>

text \<open>
  What an initializer does to the registry: the services it marks as initialized, each with an optional shutdown
  hook (which returns or panics), and the error it returns in the end.\<close>

record initializer =
  in_marks :: "(string \<times> unit call option) list"
  in_err :: "string option"

record serviceShutdown =
  sd_service :: string
  sd_order :: int
  sd_shutdown :: "unit call option"

record services =
  sv_initializers :: "(string, initializer) gomap"
  sv_initOrder :: "(string, int) gomap"
  sv_shutdowns :: "(string, serviceShutdown) gomap"

definition RegisterServiceInitializer :: "services \<Rightarrow> string \<Rightarrow> initializer option \<Rightarrow> services call" where
  "RegisterServiceInitializer g service init =
     (if trimSpace service = [] then Panicked ''runtime: service initializer missing service name''
      else case init of
        None \<Rightarrow> Panicked (''runtime: service initializer for '' @ service @ '' is nil'')
      | Some i \<Rightarrow>
        if map_of (sv_initializers g) service \<noteq> None
        then Panicked (''runtime: duplicate service initializer for '' @ service)
        else Returned (g\<lparr>sv_initializers := AList.update service i (sv_initializers g)\<rparr>))"

definition MarkServiceInitialized :: "services \<Rightarrow> string \<Rightarrow> unit call option \<Rightarrow> services call" where
  "MarkServiceInitialized g service shutdown =
     (if trimSpace service = [] then Panicked ''runtime: service shutdown missing service name''
      else Returned (g\<lparr>sv_shutdowns := AList.update service
             \<lparr>sd_service = service, sd_order = (case map_of (sv_initOrder g) service of None \<Rightarrow> 0 | Some i \<Rightarrow> i), sd_shutdown = shutdown\<rparr>
             (sv_shutdowns g)\<rparr>))"

text \<open>
  \<open>InitializeServices\<close>: one goroutine per initializer, in the order of the names, and a channel with room for all results, from
  which the caller receives until an error or until all have answered.\<close>

record initRun =
  ir_services :: services
  ir_goroutines :: "(string \<times> (string \<times> unit call option) list \<times> string option) list"
  ir_results :: "string option list"
  ir_left :: nat
  ir_returned :: "string option option"

definition sortedInitializers :: "services \<Rightarrow> (string \<times> initializer) list" where
  "sortedInitializers g = sortStable (\<lambda>a b. compare (fst a) (fst b)) (sv_initializers g)"

definition startInitializers :: "services \<Rightarrow> initRun" where
  "startInitializers g =
     (let inits = sortedInitializers g
      in \<lparr>ir_services = g\<lparr>sv_initOrder := zip (map fst inits) [1..int (length inits)]\<rparr>,
          ir_goroutines = map (\<lambda>(s, i). (s, in_marks i, in_err i)) inits,
          ir_results = [], ir_left = length inits, ir_returned = None\<rparr>)"

definition initError :: "string \<Rightarrow> string \<Rightarrow> string" where
  "initError service err = ''initialize service '' @ service @ '': '' @ err"

inductive initStep :: "initRun \<Rightarrow> initRun \<Rightarrow> bool" where
  mark: "ir_goroutines r = us @ (s, (m, h) # ms, e) # vs \<Longrightarrow>
     MarkServiceInitialized (ir_services r) m h = Returned g \<Longrightarrow>
     initStep r (r\<lparr>ir_services := g, ir_goroutines := us @ (s, ms, e) # vs\<rparr>)"
| answer: "ir_goroutines r = us @ (s, [], e) # vs \<Longrightarrow>
     initStep r (r\<lparr>ir_goroutines := us @ vs, ir_results := ir_results r @ [map_option (initError s) e]\<rparr>)"
| received: "ir_returned r = None \<Longrightarrow> ir_left r = Suc n \<Longrightarrow> ir_results r = None # rest \<Longrightarrow>
     initStep r (r\<lparr>ir_left := n, ir_results := rest\<rparr>)"
| failed: "ir_returned r = None \<Longrightarrow> ir_left r = Suc n \<Longrightarrow> ir_results r = Some err # rest \<Longrightarrow>
     initStep r (r\<lparr>ir_results := rest, ir_returned := Some (Some err)\<rparr>)"
| succeeded: "ir_returned r = None \<Longrightarrow> ir_left r = 0 \<Longrightarrow> initStep r (r\<lparr>ir_returned := Some None\<rparr>)"

text \<open>
  \<open>ShutdownServices\<close>: the hooks in the order of the comparison, the context asked before each (\<open>ctxErr i\<close>, the error of the
  context when the \<open>i\<close>-th hook is about to run); the hooks that ran and the errors.\<close>

definition compareShutdowns :: "serviceShutdown \<Rightarrow> serviceShutdown \<Rightarrow> int" where
  "compareShutdowns a b =
     (if sd_order a > sd_order b then -1 else if sd_order a < sd_order b then 1
      else compare (sd_service b) (sd_service a))"

fun runHooks :: "(nat \<Rightarrow> string option) \<Rightarrow> nat \<Rightarrow> serviceShutdown list \<Rightarrow> string list \<times> string list" where
  "runHooks ctxErr i [] = ([], [])"
| "runHooks ctxErr i (hook # hooks) =
     (case ctxErr i of
        Some err \<Rightarrow> ([], [err])
      | None \<Rightarrow>
        (let (ran, errs) = runHooks ctxErr (Suc i) hooks
         in (sd_service hook # ran,
             (case sd_shutdown hook of
                Some (Panicked v) \<Rightarrow> (''shutdown service '' @ sd_service hook @ '': panic: '' @ v) # errs
              | _ \<Rightarrow> errs))))"

definition errorsJoin :: "string list \<Rightarrow> string option" where
  "errorsJoin errs = (if errs = [] then None else Some (joinWith [char_of (10 :: nat)] errs))"

definition ShutdownServices :: "(nat \<Rightarrow> string option) \<Rightarrow> services \<Rightarrow> string list \<times> string option" where
  "ShutdownServices ctxErr g =
     (let hooks = filter (\<lambda>h. sd_shutdown h \<noteq> None) (map snd (sv_shutdowns g));
          (ran, errs) = runHooks ctxErr 0 (sortStable compareShutdowns hooks)
      in (ran, errorsJoin errs))"

subsection \<open>Calls between endpoints\<close>

definition encodePathParams :: "(goval \<Rightarrow> string) \<Rightarrow> ParamSpec list \<Rightarrow> goval list \<Rightarrow> pathParams" where
  "encodePathParams sprint specs vals = map (\<lambda>(spec, v). (ps_Name spec, sprint v)) (zip specs vals)"

definition LookupEndpoint :: "(string, Endpoint) gomap \<Rightarrow> string \<Rightarrow> string \<Rightarrow> Endpoint option" where
  "LookupEndpoint eps service name = map_of eps (endpointKey service name)"

text \<open>The state of a call made inside the process; \<open>caller\<close> is the state found in the context.\<close>

definition callState ::
  "(goval \<Rightarrow> string) \<Rightarrow> Endpoint \<Rightarrow> requestState option \<Rightarrow> goval list \<Rightarrow> goval option \<Rightarrow> requestState" where
  "callState sprint ep caller pathArgs payload =
     (let cron = (case caller of Some st \<Rightarrow> cx_CronIdempotencyKey st | None \<Rightarrow> [])
      in \<lparr>cx_Type = (if cron \<noteq> [] then APICall else InternalCall), cx_Service = e_Service ep, cx_Endpoint = e_Name ep,
          cx_Method = (if cron \<noteq> [] then ''CRON'' else ''INTERNAL''), cx_Path = e_Path ep,
          cx_PathParams = encodePathParams sprint (e_PathParams ep) pathArgs, cx_Payload = payload,
          cx_Headers = (if cron \<noteq> [] then cx_Headers (the caller) else []),
          cx_Exposed = (e_Access ep \<noteq> Private), cx_AuthRequired = (e_Access ep = Auth), cx_CronIdempotencyKey = cron,
          cx_auth = (case caller of Some st \<Rightarrow> cx_auth st | None \<Rightarrow> noAuth)\<rparr>)"

definition CallEndpoint ::
  "world \<Rightarrow> (goval \<Rightarrow> string) \<Rightarrow> (string, Endpoint) gomap \<Rightarrow> requestState option \<Rightarrow> string \<Rightarrow> string \<Rightarrow> goval list \<Rightarrow> goval option \<Rightarrow>
   (dyn payload option \<times> goerr option) call option" where
  "CallEndpoint w sprint eps caller service name pathArgs payload =
     (case LookupEndpoint eps service name of
        None \<Rightarrow> Some (Returned (None, Some (bErr (bMsg (''endpoint '' @ service @ ''.'' @ name @ '' not found'') (bCode NotFound B)))))
      | Some ep \<Rightarrow>
        if e_Raw ep
        then Some (Returned (None, Some (bErr (bMsg ''raw endpoints cannot be called internally'' (bCode Unimplemented B)))))
        else (let st = callState sprint ep caller pathArgs payload in
              if e_Access ep = Auth \<and> ai_UID (cx_auth st) = []
              then Some (Returned (None, Some (bErr (bMsg ''endpoint requires auth'' (bCode Unauthenticated B)))))
              else map_option (\<lambda>c. case c of
                     Panicked v \<Rightarrow> Panicked v | Returned (resp, status, headers, err) \<Rightarrow> Returned (resp, err))
                   (runTyped w ep st pathArgs payload)))"

text \<open>The store of the current request by goroutine.\<close>

type_synonym stateStore = "(nat, requestState) gomap"

definition enterState :: "nat \<Rightarrow> requestState \<Rightarrow> stateStore \<Rightarrow> stateStore \<times> requestState option" where
  "enterState gid st store = (AList.update gid st store, map_of store gid)"

definition restoreState :: "nat \<Rightarrow> requestState option \<Rightarrow> stateStore \<Rightarrow> stateStore" where
  "restoreState gid prev store = (case prev of Some st \<Rightarrow> AList.update gid st store | None \<Rightarrow> AList.delete gid store)"

definition CurrentAuth :: "nat \<Rightarrow> stateStore \<Rightarrow> AuthInfo option" where
  "CurrentAuth gid store = map_option cx_auth (map_of store gid)"

definition WithAuthContext :: "requestState option \<Rightarrow> AuthInfo \<Rightarrow> requestState" where
  "WithAuthContext ctx auth =
     (case ctx of
        Some st \<Rightarrow> st\<lparr>cx_auth := auth\<rparr>
      | None \<Rightarrow> \<lparr>cx_Type = InternalCall, cx_Service = [], cx_Endpoint = [], cx_Method = [], cx_Path = [], cx_PathParams = [],
                  cx_Payload = None, cx_Headers = [], cx_Exposed = False, cx_AuthRequired = False, cx_CronIdempotencyKey = [],
                  cx_auth = auth\<rparr>)"

subsection \<open>The process\<close>

datatype runtimeRole = roleAll | roleAPI | roleWorker

definition ListenAddrFromEnv :: "(string \<Rightarrow> string) \<Rightarrow> string" where
  "ListenAddrFromEnv getenv = (if getenv ''SCENERY_LISTEN_ADDR'' \<noteq> [] then getenv ''SCENERY_LISTEN_ADDR'' else ''127.0.0.1:4000'')"

definition ListenNetworkFromEnv :: "(string \<Rightarrow> string) \<Rightarrow> string" where
  "ListenNetworkFromEnv getenv =
     (let v = toLower (trimSpace (getenv ''SCENERY_LISTEN_NETWORK''))
      in if v = [] \<or> v = ''tcp'' then ''tcp'' else if v = ''unix'' then ''unix'' else v)"

definition runtimeRoleFromEnv :: "(string \<Rightarrow> string) \<Rightarrow> string + runtimeRole" where
  "runtimeRoleFromEnv getenv =
     (let v = toLower (trimSpace (getenv ''SCENERY_ROLE''))
      in if v = [] \<or> v = ''all'' then Inr roleAll else if v = ''api'' then Inr roleAPI else if v = ''worker'' then Inr roleWorker
         else Inl (''runtime: unsupported SCENERY_ROLE '' @ goQuote v))"

text \<open>What is started and stopped, in order.\<close>

datatype procStep =
    Started string
  | Stopped string

text \<open>
  The outcomes of the subsystems: the error of each start (the initialization of the services among them), of each
  stop, the error of listening and the one the server ends with, if the process does not end by a signal.  The errors
  \<open>context.Canceled\<close> and \<open>http.ErrServerClosed\<close>, which the code filters, are \<open>None\<close> here.\<close>

record procEnv =
  pe_env :: "string \<Rightarrow> string"
  pe_startErr :: "string \<Rightarrow> string option"
  pe_stopErr :: "string \<Rightarrow> string option"
  pe_serveErr :: "string option"

definition shutdownRuntime :: "procEnv \<Rightarrow> bool \<Rightarrow> procStep list \<times> string option" where
  "shutdownRuntime e hasServer =
     (let parts = (if hasServer then [''server''] else []) @ [''cron'', ''temporal workers'', ''temporal'', ''services'']
      in (map Stopped parts, errorsJoin (List.map_filter (pe_stopErr e) parts)))"

definition joinErr :: "string option \<Rightarrow> string option \<Rightarrow> string option" where
  "joinErr a b = errorsJoin (List.map_filter id [a, b])"

definition Main :: "procEnv \<Rightarrow> procStep list \<times> string option" where
  "Main e =
     (case runtimeRoleFromEnv (pe_env e) of
        Inl err \<Rightarrow> ([], Some err)
      | Inr role \<Rightarrow>
        (case pe_startErr e ''temporal'' of
           Some err \<Rightarrow> ([], Some err)
         | None \<Rightarrow>
           (case pe_startErr e ''services'' of
              Some err \<Rightarrow> ([Started ''temporal'', Stopped ''temporal''], Some err)
            | None \<Rightarrow>
              (case pe_startErr e ''temporal workers'' of
                 Some err \<Rightarrow> ([Started ''temporal'', Started ''services'', Stopped ''temporal''], Some err)
               | None \<Rightarrow>
                 (case pe_startErr e ''cron'' of
                    Some err \<Rightarrow> ([Started ''temporal'', Started ''services'', Started ''temporal workers'',
                                  Stopped ''temporal workers'', Stopped ''temporal''], Some err)
                  | None \<Rightarrow>
                    (let up = [Started ''temporal'', Started ''services'', Started ''temporal workers'', Started ''cron''] in
                     if role = roleWorker
                     then (let (down, err) = shutdownRuntime e False in (up @ down, err))
                     else (case pe_startErr e ''server'' of
                             Some err \<Rightarrow> (let (down, stopErr) = shutdownRuntime e False in (up @ down, joinErr (Some err) stopErr))
                           | None \<Rightarrow> (let (down, stopErr) = shutdownRuntime e True
                                     in (up @ Started ''server'' # down, joinErr (pe_serveErr e) stopErr)))))))))"

section \<open>Sorting by names\<close>

interpretation by_name: comparison "\<lambda>a b. compare (fst a) (fst (b :: string \<times> 'a))"
  by unfold_locales (auto simp: compare_def split: if_splits)

interpretation shutdown_order: comparison compareShutdowns
  by unfold_locales (auto simp: compareShutdowns_def compare_def split: if_splits)

lemma compare_le: "compare a b \<le> 0 \<longleftrightarrow> a \<le> b"
  by (auto simp: compare_def)

lemma sorted_names: "map fst (sortedInitializers g) = sort (map fst (sv_initializers g))"
proof (rule properties_for_sort [symmetric])
  show "mset (map fst (sortedInitializers g)) = mset (map fst (sv_initializers g))"
    by (simp add: sortedInitializers_def by_name.mset_sortStable)
  show "sorted (map fst (sortedInitializers g))"
    using by_name.sorted_sortStable [of "sv_initializers g"]
    by (simp add: sortedInitializers_def sorted_map compare_le)
qed

lemma set_sortedInitializers [simp]: "set (sortedInitializers g) = set (sv_initializers g)"
  by (simp add: sortedInitializers_def by_name.set_sortStable)

lemma length_sortedInitializers [simp]: "length (sortedInitializers g) = length (sv_initializers g)"
  using arg_cong [OF sorted_names [of g], of length] by simp

section \<open>The start of the services\<close>

text \<open>Every run ends: each step takes something away.\<close>

definition weight :: "initRun \<Rightarrow> nat" where
  "weight r = sum_list (map (\<lambda>(s, ms, e). length ms + 2) (ir_goroutines r)) + length (ir_results r)
     + (if ir_returned r = None then 1 else 0)"

lemma step_weight: "initStep r r' \<Longrightarrow> weight r' < weight r"
  by (induction rule: initStep.induct) (auto simp: weight_def)

lemma steps_weight: "(initStep ^^ n) r r' \<Longrightarrow> weight r' + n \<le> weight r"
proof (induction n arbitrary: r')
  case (Suc n)
  then obtain q where "(initStep ^^ n) r q" "initStep q r'" by auto
  with Suc.IH step_weight show ?case by fastforce
qed simp

text \<open>
  The registered initializers have distinct names that are not blank, mark only their own service, and nothing has been
  marked before: what the generated code does.\<close>

definition ownMarks :: "services \<Rightarrow> bool" where
  "ownMarks g = (distinct (map fst (sv_initializers g)) \<and> sv_shutdowns g = []
     \<and> (\<forall>(s, i) \<in> set (sv_initializers g). trimSpace s \<noteq> [] \<and> (\<forall>(m, h) \<in> set (in_marks i). m = s)))"

definition initOrder :: "services \<Rightarrow> (string, int) gomap" where
  "initOrder g = zip (sort (map fst (sv_initializers g))) [1..int (length (sv_initializers g))]"

text \<open>What the registry holds for a service after some of its marks.\<close>

definition markedBy :: "services \<Rightarrow> string \<Rightarrow> (string \<times> unit call option) list \<Rightarrow> serviceShutdown option" where
  "markedBy g s ps = (if ps = [] then None
     else Some \<lparr>sd_service = s, sd_order = (case map_of (initOrder g) s of None \<Rightarrow> 0 | Some i \<Rightarrow> i), sd_shutdown = snd (last ps)\<rparr>)"

definition runningOK :: "services \<Rightarrow> initRun \<Rightarrow> bool" where
  "runningOK g r = (\<forall>(s, ms, e) \<in> set (ir_goroutines r). \<exists>i ps. (s, i) \<in> set (sv_initializers g) \<and> in_err i = e
     \<and> in_marks i = ps @ ms \<and> map_of (sv_shutdowns (ir_services r)) s = markedBy g s ps)"

definition finishedOK :: "services \<Rightarrow> initRun \<Rightarrow> bool" where
  "finishedOK g r = (\<forall>(s, i) \<in> set (sv_initializers g). s \<notin> fst ` set (ir_goroutines r) \<longrightarrow>
     map_of (sv_shutdowns (ir_services r)) s = markedBy g s (in_marks i)
     \<and> (\<forall>e. in_err i = Some e \<longrightarrow> Some (initError s e) \<in> set (ir_results r) \<or> (\<exists>x. ir_returned r = Some (Some x))))"

definition countsOK :: "initRun \<Rightarrow> bool" where
  "countsOK r = ((ir_returned r = None \<longrightarrow> ir_left r = length (ir_goroutines r) + length (ir_results r))
     \<and> (ir_returned r = Some None \<longrightarrow> ir_goroutines r = [] \<and> ir_results r = []))"

definition errorsOK :: "services \<Rightarrow> initRun \<Rightarrow> bool" where
  "errorsOK g r = (\<forall>x. Some x \<in> set (ir_results r) \<or> ir_returned r = Some (Some x) \<longrightarrow>
     (\<exists>(s, i) \<in> set (sv_initializers g). \<exists>e. in_err i = Some e \<and> x = initError s e))"

definition keysOK :: "services \<Rightarrow> initRun \<Rightarrow> bool" where
  "keysOK g r = (sv_initOrder (ir_services r) = initOrder g \<and> distinct (map fst (ir_goroutines r))
     \<and> distinct (map fst (sv_shutdowns (ir_services r)))
     \<and> fst ` set (sv_shutdowns (ir_services r)) \<subseteq> fst ` set (sv_initializers g))"

definition initInv :: "services \<Rightarrow> initRun \<Rightarrow> bool" where
  "initInv g r = (runningOK g r \<and> finishedOK g r \<and> countsOK r \<and> errorsOK g r \<and> keysOK g r)"

lemmas initInv_defs = runningOK_def finishedOK_def countsOK_def errorsOK_def keysOK_def

lemma initInv_start:
  assumes "ownMarks g"
  shows "initInv g (startInitializers g)"
proof -
  have go: "ir_goroutines (startInitializers g) = map (\<lambda>(s, i). (s, in_marks i, in_err i)) (sortedInitializers g)"
    by (simp add: startInitializers_def Let_def)
  have n: "map fst (ir_goroutines (startInitializers g)) = sort (map fst (sv_initializers g))"
    by (simp add: go sorted_names [symmetric] split_def)
  then have ns: "fst ` set (ir_goroutines (startInitializers g)) = fst ` set (sv_initializers g)"
    by (metis set_map set_sort)
  have sh: "sv_shutdowns (ir_services (startInitializers g)) = []"
    using assms by (simp add: startInitializers_def Let_def ownMarks_def)
  have "runningOK g (startInitializers g)"
    unfolding runningOK_def go sh
  proof (clarsimp)
    fix s i assume "(s, i) \<in> set (sv_initializers g)"
    then show "\<exists>ia. (s, ia) \<in> set (sv_initializers g) \<and> in_err ia = in_err i
        \<and> (\<exists>ps. in_marks ia = ps @ in_marks i \<and> None = markedBy g s ps)"
      by (intro exI [of _ i] conjI exI [of _ "[]"]) (simp_all add: markedBy_def)
  qed
  moreover have "finishedOK g (startInitializers g)" 
    unfolding finishedOK_def ns by (fastforce simp: image_iff)
  moreover have "countsOK (startInitializers g)" "errorsOK g (startInitializers g)"
    by (simp_all add: countsOK_def errorsOK_def startInitializers_def Let_def)
  moreover have "keysOK g (startInitializers g)"
    unfolding keysOK_def n sh using assms
    by (simp add: ownMarks_def) (simp add: startInitializers_def Let_def initOrder_def sorted_names)
  ultimately show ?thesis by (simp add: initInv_def)
qed

lemma own_mark:
  assumes "ownMarks g" "(s, i) \<in> set (sv_initializers g)" "in_marks i = ps @ (m, h) # ms"
  shows "m = s" "trimSpace m \<noteq> []"
  using assms by (auto simp: ownMarks_def)

lemma initInv_mark:
  assumes own: "ownMarks g" and inv: "initInv g r" and go: "ir_goroutines r = us @ (s, (m, h) # ms, e) # vs"
    and mk: "MarkServiceInitialized (ir_services r) m h = Returned g'"
  shows "initInv g (r\<lparr>ir_services := g', ir_goroutines := us @ (s, ms, e) # vs\<rparr>)"
proof -
  let ?r = "r\<lparr>ir_services := g', ir_goroutines := us @ (s, ms, e) # vs\<rparr>"
  from inv have inv': "runningOK g r" "finishedOK g r" "countsOK r" "errorsOK g r" "keysOK g r"
    by (simp_all add: initInv_def)
  from inv'(1) go obtain i ps where i: "(s, i) \<in> set (sv_initializers g)" "in_err i = e" "in_marks i = ps @ (m, h) # ms"
    by (auto simp: runningOK_def)
  note m = own_mark [OF own i(1,3)]
  have g': "sv_initOrder g' = initOrder g" "map_of (sv_shutdowns g') s = markedBy g s (ps @ [(m, h)])"
    "\<And>t. t \<noteq> s \<Longrightarrow> map_of (sv_shutdowns g') t = map_of (sv_shutdowns (ir_services r)) t"
    "sv_shutdowns g' = AList.update s (the (markedBy g s (ps @ [(m, h)]))) (sv_shutdowns (ir_services r))"
    using mk m inv'(5) by (auto simp: MarkServiceInitialized_def keysOK_def markedBy_def update_conv split: if_splits)
  have other: "fst x \<noteq> s" if "x \<in> set us \<union> set vs" for x
    using inv'(5) that by (auto simp: keysOK_def go)
  have "runningOK g ?r"
    unfolding runningOK_def
  proof (intro ballI, clarify)
    fix t ns f assume t: "(t, ns, f) \<in> set (ir_goroutines ?r)"
    show "\<exists>i ps. (t, i) \<in> set (sv_initializers g) \<and> in_err i = f \<and> in_marks i = ps @ ns
        \<and> map_of (sv_shutdowns (ir_services ?r)) t = markedBy g t ps"
    proof (cases "t = s")
      case True
      with t other have "ns = ms" "f = e" by fastforce+
      with True i g'(2) show ?thesis by (intro exI [of _ i] exI [of _ "ps @ [(m, h)]"]) simp
    next
      case False
      with t have "(t, ns, f) \<in> set (ir_goroutines r)" by (auto simp: go)
      with inv'(1) False show ?thesis by (fastforce simp: runningOK_def g'(3))
    qed
  qed
  moreover have "finishedOK g ?r"
    using inv'(2) unfolding finishedOK_def go by (auto simp: g'(3))
  moreover have "countsOK ?r" using inv'(3) by (simp add: countsOK_def go)
  moreover have "errorsOK g ?r" using inv'(4) by (simp add: errorsOK_def)
  moreover have "fst ` set (sv_shutdowns g') \<subseteq> fst ` set (sv_initializers g)"
    using inv'(5) i(1) unfolding g'(4) dom_update by (force simp: keysOK_def)
  then have "keysOK g ?r"
    using inv'(5) by (simp add: keysOK_def go g'(1)) (simp add: g'(4) distinct_update)
  ultimately show ?thesis by (simp add: initInv_def)
qed

lemma initInv_answer:
  assumes inv: "initInv g r" and go: "ir_goroutines r = us @ (s, [], e) # vs" and own: "ownMarks g"
  shows "initInv g (r\<lparr>ir_goroutines := us @ vs, ir_results := ir_results r @ [map_option (initError s) e]\<rparr>)"
proof -
  let ?r = "r\<lparr>ir_goroutines := us @ vs, ir_results := ir_results r @ [map_option (initError s) e]\<rparr>"
  from inv have inv': "runningOK g r" "finishedOK g r" "countsOK r" "errorsOK g r" "keysOK g r"
    by (simp_all add: initInv_def)
  from inv'(1) go obtain i where i: "(s, i) \<in> set (sv_initializers g)" "in_err i = e"
      "map_of (sv_shutdowns (ir_services r)) s = markedBy g s (in_marks i)"
    by (auto simp: runningOK_def)
  have uniq: "j = i" if "(s, j) \<in> set (sv_initializers g)" for j
    using own i(1) that by (auto simp: ownMarks_def dest: eq_key_imp_eq_value)
  have "finishedOK g ?r"
    unfolding finishedOK_def
  proof (clarify)
    fix t j assume t: "(t, j) \<in> set (sv_initializers g)" "t \<notin> fst ` set (ir_goroutines ?r)"
    show "map_of (sv_shutdowns (ir_services ?r)) t = markedBy g t (in_marks j) \<and>
       (\<forall>e. in_err j = Some e \<longrightarrow> Some (initError t e) \<in> set (ir_results ?r) \<or> (\<exists>x. ir_returned ?r = Some (Some x)))"
    proof (cases "t = s")
      case True
      with t uniq i show ?thesis by auto
    next
      case False
      with t inv'(2) show ?thesis by (fastforce simp: finishedOK_def go)
    qed
  qed
  moreover have "errorsOK g ?r" using inv'(4) i unfolding errorsOK_def by (cases e) fastforce+
  ultimately show ?thesis
    using inv'(1,3,5) by (auto simp: initInv_def runningOK_def countsOK_def keysOK_def go)
qed

lemma initInv_step: "initStep r r' \<Longrightarrow> ownMarks g \<Longrightarrow> initInv g r \<Longrightarrow> initInv g r'"
proof (induction rule: initStep.induct)
  case mark
  then show ?case by (blast intro: initInv_mark)
next
  case answer
  then show ?case by (blast intro: initInv_answer)
qed (auto simp: initInv_def initInv_defs)

lemma initInv_reachable: "initStep\<^sup>*\<^sup>* (startInitializers g) r \<Longrightarrow> ownMarks g \<Longrightarrow> initInv g r"
  by (induction rule: rtranclp_induct) (auto intro: initInv_start initInv_step)

lemma stuck_returned:
  assumes "ownMarks g" "initInv g r" "\<nexists>r'. initStep r r'"
  shows "ir_returned r \<noteq> None"
proof
  assume none: "ir_returned r = None"
  from assms(2) have inv: "runningOK g r" "countsOK r" by (simp_all add: initInv_def)
  show False
  proof (cases "ir_goroutines r")
    case Nil
    with inv(2) none have "ir_left r = length (ir_results r)" by (simp add: countsOK_def)
    with none assms(3) show False
      by (cases "ir_results r"; cases "hd (ir_results r)") (auto intro: initStep.intros)
  next
    case (Cons x xs)
    obtain s ms e where x: "x = (s, ms, e)" by (cases x)
    with Cons inv(1) obtain i ps where i: "(s, i) \<in> set (sv_initializers g)" "in_marks i = ps @ ms"
      by (auto simp: runningOK_def)
    show False
    proof (cases ms)
      case Nil
      with Cons x assms(3) show False using initStep.answer [of r "[]" s e xs] by auto
    next
      case ms: (Cons mh ns)
      obtain m h where mh: "mh = (m, h)" by (cases mh)
      have "trimSpace m \<noteq> []" using own_mark [OF assms(1) i(1)] i(2) ms mh by auto
      with Cons x ms mh assms(3) show False
        using initStep.mark [of r "[]" s m h ns e xs] by (auto simp: MarkServiceInitialized_def)
    qed
  qed
qed

text \<open>
  (C28) Starting the services.  Each initializer runs in a goroutine of its own and the results arrive in any order.  Whatever the
  interleaving, the number of steps is bounded; when nothing more can happen, \<open>InitializeServices\<close> has returned;
  it has returned no error only if every initializer has ended without one, and an error only if it is the error of one of them.\<close>

theorem initialization_ends:
  assumes "ownMarks g" and run: "(initStep ^^ n) (startInitializers g) r"
  shows "n \<le> weight (startInitializers g)
    \<and> ((\<nexists>r'. initStep r r') \<longrightarrow> ir_returned r \<noteq> None)
    \<and> (ir_returned r = Some None \<longrightarrow> (\<forall>(s, i) \<in> set (sv_initializers g). in_err i = None) \<and> ir_goroutines r = [])
    \<and> (\<forall>x. ir_returned r = Some (Some x) \<longrightarrow>
         (\<exists>(s, i) \<in> set (sv_initializers g). \<exists>e. in_err i = Some e \<and> x = initError s e))"
proof -
  have inv: "initInv g r"
    using initInv_reachable [OF _ assms(1)] run relpowp_imp_rtranclp by metis
  have "n \<le> weight (startInitializers g)" using steps_weight [OF run] by simp
  moreover have "\<forall>(s, i) \<in> set (sv_initializers g). in_err i = None" "ir_goroutines r = []" if "ir_returned r = Some None"
    using inv that by (auto simp: initInv_def finishedOK_def countsOK_def split: prod.splits)
  ultimately show ?thesis
    using inv stuck_returned [OF assms(1) inv] by (auto simp: initInv_def errorsOK_def)
qed

theorem initialization_ends_witness:
  "let g = \<lparr>sv_initializers = [(''a'', \<lparr>in_marks = [], in_err = Some ''no database''\<rparr>)], sv_initOrder = [], sv_shutdowns = []\<rparr>;
        r = (startInitializers g)\<lparr>ir_goroutines := [], ir_results := [], ir_returned := Some (Some ''initialize service a: no database'')\<rparr>
    in (\<exists>(s, i) \<in> set (sv_initializers g). \<exists>e. in_err i = Some e \<and> ''initialize service a: no database'' = initError s e)
       \<and> 2 \<le> weight (startInitializers g)"
proof -
  let ?g = "\<lparr>sv_initializers = [(''a'', \<lparr>in_marks = [], in_err = Some ''no database''\<rparr>)], sv_initOrder = [], sv_shutdowns = []\<rparr>"
  let ?s = "startInitializers ?g"
  let ?q = "?s\<lparr>ir_goroutines := [], ir_results := [Some (initError ''a'' ''no database'')]\<rparr>"
  let ?r = "?q\<lparr>ir_results := [], ir_returned := Some (Some (initError ''a'' ''no database''))\<rparr>"
  have o: "ownMarks ?g" by (simp add: ownMarks_def) code_simp
  have go: "ir_goroutines ?s = [] @ (''a'', [], Some ''no database'') # []" "ir_results ?s = []" "ir_left ?s = Suc 0" "ir_returned ?s = None"
    by (simp_all add: startInitializers_def sortedInitializers_def sortStable_def Let_def)
  have "initStep ?s ?q" using initStep.answer [OF go(1)] by (simp add: go(2))
  moreover have "initStep ?q ?r" using go by (intro initStep.failed [where n = 0 and rest = "[]"]) simp_all
  ultimately have "(initStep ^^ 2) ?s ?r" by (auto simp: numeral_2_eq_2)
  from initialization_ends [OF o this] show ?thesis by (simp add: initError_def)
qed

section \<open>Shutdown\<close>

text \<open>The names of the services that registered a shutdown hook when they started.\<close>

definition hookedServices :: "services \<Rightarrow> string list" where
  "hookedServices g = map fst (filter (\<lambda>(s, i). in_marks i \<noteq> [] \<and> snd (last (in_marks i)) \<noteq> None) (sv_initializers g))"

lemma runHooks_ran: "(\<And>i. ctxErr i = None) \<Longrightarrow> fst (runHooks ctxErr i hooks) = map sd_service hooks"
  by (induction ctxErr i hooks rule: runHooks.induct) (auto split: prod.splits)

lemma order_monotone:
  assumes "distinct ns" "sorted ns" "s \<in> set ns" "t \<in> set ns"
    "the (map_of (zip ns [1..int (length ns)]) t) \<le> the (map_of (zip ns [1..int (length ns)]) s)"
  shows "t \<le> (s :: string)"
proof -
  have ix: "the (map_of (zip ns [1..int (length ns)]) (ns ! i)) = int i + 1" if "i < length ns" for i
    using assms(1) that by (simp add: map_of_zip_nth)
  obtain i j where i: "s = ns ! i" "i < length ns" and j: "t = ns ! j" "j < length ns"
    using assms(3,4) by (metis in_set_conv_nth)
  with assms(5) ix have "j \<le> i" by simp
  with i j assms(2) show ?thesis by (simp add: sorted_nth_mono)
qed

lemma marked_hook:
  assumes "ownMarks g" "initInv g r" "ir_returned r = Some None"
  shows "(s, h) \<in> set (sv_shutdowns (ir_services r)) \<longleftrightarrow>
    (\<exists>i. (s, i) \<in> set (sv_initializers g) \<and> markedBy g s (in_marks i) = Some h)"
proof -
  from assms have d: "distinct (map fst (sv_shutdowns (ir_services r)))"
      "fst ` set (sv_shutdowns (ir_services r)) \<subseteq> fst ` set (sv_initializers g)"
      "\<And>s i. (s, i) \<in> set (sv_initializers g) \<Longrightarrow> map_of (sv_shutdowns (ir_services r)) s = markedBy g s (in_marks i)"
    by (auto simp: initInv_def keysOK_def finishedOK_def countsOK_def)
  show ?thesis
  proof
    assume h: "(s, h) \<in> set (sv_shutdowns (ir_services r))"
    with d(2) obtain i where "(s, i) \<in> set (sv_initializers g)" by force
    with d(1) d(3) h show "\<exists>i. (s, i) \<in> set (sv_initializers g) \<and> markedBy g s (in_marks i) = Some h"
      by (metis map_of_is_SomeI)
  next
    assume "\<exists>i. (s, i) \<in> set (sv_initializers g) \<and> markedBy g s (in_marks i) = Some h"
    with d(3) show "(s, h) \<in> set (sv_shutdowns (ir_services r))" by (metis map_of_SomeD)
  qed
qed

lemma hook_order:
  assumes "ownMarks g" "initInv g r" "ir_returned r = Some None" "h \<in> snd ` set (sv_shutdowns (ir_services r))"
  shows "sd_service h \<in> set (sort (map fst (sv_initializers g)))
    \<and> sd_order h = the (map_of (zip (sort (map fst (sv_initializers g))) [1..int (length (sv_initializers g))]) (sd_service h))"
proof -
  let ?ns = "sort (map fst (sv_initializers g))"
  from assms(4) obtain s where "(s, h) \<in> set (sv_shutdowns (ir_services r))" by auto
  then obtain i where i: "(s, i) \<in> set (sv_initializers g)" "markedBy g s (in_marks i) = Some h"
    using marked_hook [OF assms(1-3)] by blast
  then have "s \<in> set ?ns" by force
  moreover from this obtain n where "map_of (zip ?ns [1..int (length ?ns)]) s = Some n"
    by (cases "map_of (zip ?ns [1..int (length ?ns)]) s") (simp_all add: map_of_zip_is_None)
  moreover have "sd_service h = s" "sd_order h = (case map_of (zip ?ns [1..int (length ?ns)]) s of None \<Rightarrow> 0 | Some i \<Rightarrow> i)"
    using i(2) by (auto simp: markedBy_def initOrder_def split: if_splits)
  ultimately show ?thesis by simp
qed

text \<open>
  Shutting the services down.  After \<open>InitializeServices\<close> has returned without error, however its goroutines were
  interleaved, \<open>ShutdownServices\<close> with a live context runs the hook of every service that registered one, once, in the reverse of the
  alphabetical order in which the services are numbered, whether or not hooks panic.\<close>

lemma shutdown_reverses_start:
  assumes own: "ownMarks g" and run: "initStep\<^sup>*\<^sup>* (startInitializers g) r" and ret: "ir_returned r = Some None"
    and ctx: "\<And>i. ctxErr i = None"
  shows "fst (ShutdownServices ctxErr (ir_services r)) = rev (sort (hookedServices g))"
proof -
  let ?sh = "sv_shutdowns (ir_services r)" and ?ns = "sort (map fst (sv_initializers g))"
  let ?hooks = "filter (\<lambda>h. sd_shutdown h \<noteq> None) (map snd ?sh)"
  let ?run = "sortStable compareShutdowns ?hooks"
  note inv = initInv_reachable [OF run own]
  note mem = marked_hook [OF own inv ret]
  have svc: "\<forall>(s, h) \<in> set ?sh. sd_service h = s"
    by (auto simp: mem markedBy_def split: if_splits)
  then have names: "map sd_service ?hooks = map fst (filter (\<lambda>(s, h). sd_shutdown h \<noteq> None) ?sh)"
    by (induction ?sh) (auto simp: filter_map o_def split_def)
  have d: "distinct (map fst ?sh)" "distinct (map fst (sv_initializers g))"
    using inv own by (auto simp: initInv_def keysOK_def ownMarks_def)
  have "set (map sd_service ?hooks) = set (hookedServices g)"
    unfolding names hookedServices_def
    by (force simp: mem markedBy_def image_iff split: if_splits)
  moreover have "distinct (map sd_service ?hooks)" "distinct (hookedServices g)"
    unfolding names hookedServices_def using d by (simp_all add: distinct_keys_filter)
  ultimately have "mset (map sd_service ?hooks) = mset (hookedServices g)"
    using set_eq_iff_mset_eq_distinct by blast
  then have "mset (rev (map sd_service ?run)) = mset (hookedServices g)"
    by (simp only: mset_rev mset_map shutdown_order.mset_sortStable)
  moreover have "sorted_wrt (\<lambda>a b. sd_service b \<le> sd_service a) ?run"
  proof (rule sorted_wrt_mono_rel [OF _ shutdown_order.sorted_sortStable])
    fix a b assume ab: "a \<in> set ?run" "b \<in> set ?run" "compareShutdowns a b \<le> 0"
    have hooks: "a \<in> snd ` set ?sh" "b \<in> snd ` set ?sh"
      using ab(1,2) unfolding shutdown_order.set_sortStable by auto
    note ord = hook_order [OF own inv ret]
    show "sd_service b \<le> sd_service a"
      using order_monotone [of ?ns "sd_service a" "sd_service b"] ord [OF hooks(1)] ord [OF hooks(2)] ab(3) d(2)
      by (auto simp: compareShutdowns_def compare_le split: if_splits)
  qed
  then have "sorted (rev (map sd_service ?run))" by (simp add: sorted_wrt_rev sorted_wrt_map)
  ultimately have "rev (map sd_service ?run) = sort (hookedServices g)" by (intro properties_for_sort [symmetric])
  then have "map sd_service ?run = rev (sort (hookedServices g))" by (metis rev_rev_ident)
  then show ?thesis
    using runHooks_ran [of ctxErr 0 ?run] ctx by (auto simp: ShutdownServices_def Let_def split_def)
qed

lemma shutdown_reverses_start_witness:
  "let g = \<lparr>sv_initializers = [(''a'', \<lparr>in_marks = [(''a'', Some (Returned ()))], in_err = None\<rparr>)], sv_initOrder = [], sv_shutdowns = []\<rparr>
    in \<exists>r :: initRun. ir_returned r = Some None \<and> fst (ShutdownServices (\<lambda>i. None) (ir_services r)) = rev (sort (hookedServices g))
         \<and> hookedServices g = [''a'']"
proof -
  let ?g = "\<lparr>sv_initializers = [(''a'', \<lparr>in_marks = [(''a'', Some (Returned ()))], in_err = None\<rparr>)], sv_initOrder = [], sv_shutdowns = []\<rparr>"
  let ?s = "startInitializers ?g"
  have o: "ownMarks ?g" by (simp add: ownMarks_def) code_simp
  have go: "ir_goroutines ?s = [] @ (''a'', [(''a'', Some (Returned ()))], None) # []" "ir_results ?s = []" "ir_left ?s = Suc 0"
      "ir_returned ?s = None"
    by (simp_all add: startInitializers_def sortedInitializers_def sortStable_def Let_def)
  have "trimSpace ''a'' \<noteq> []" by code_simp
  then obtain g' where mk: "MarkServiceInitialized (ir_services ?s) ''a'' (Some (Returned ())) = Returned g'"
    by (auto simp: MarkServiceInitialized_def)
  let ?q = "?s\<lparr>ir_services := g', ir_goroutines := [] @ (''a'', [], None) # []\<rparr>"
  let ?p = "?q\<lparr>ir_goroutines := [], ir_results := [None]\<rparr>"
  let ?t = "?p\<lparr>ir_left := 0, ir_results := []\<rparr>"
  have "initStep ?s ?q" by (rule initStep.mark [OF go(1) mk])
  moreover have "initStep ?q ?p" using initStep.answer [of ?q "[]" "''a''" None "[]"] by (simp add: go(2))
  moreover have "initStep ?p ?t" using go by (intro initStep.received) simp_all
  moreover have "initStep ?t (?t\<lparr>ir_returned := Some None\<rparr>)" using go by (intro initStep.succeeded) simp_all
  ultimately have "initStep\<^sup>*\<^sup>* ?s (?t\<lparr>ir_returned := Some None\<rparr>)"
    by (rule rtranclp.rtrancl_into_rtrancl
        [OF rtranclp.rtrancl_into_rtrancl [OF rtranclp.rtrancl_into_rtrancl [OF rtranclp.rtrancl_into_rtrancl [OF rtranclp.rtrancl_refl]]]])
  from shutdown_reverses_start [OF o this, of "\<lambda>i. None"]
  have "fst (ShutdownServices (\<lambda>i. None) (ir_services (?t\<lparr>ir_returned := Some None\<rparr>))) = rev (sort (hookedServices ?g))" by simp
  moreover have "hookedServices ?g = [''a'']" by (simp add: hookedServices_def)
  ultimately show ?thesis
    unfolding Let_def by (intro exI [of _ "?t\<lparr>ir_returned := Some None\<rparr>"]) simp
qed

section \<open>Calls between endpoints\<close>

text \<open>An internal call runs its endpoint with the identity of the caller, and an endpoint that needs authentication only with one.\<close>

lemma call_inherits_identity:
  assumes "LookupEndpoint eps service name = Some ep"
    and "CallEndpoint w sprint eps caller service name args payload = Some (Returned (resp, None))"
  shows "\<exists>st status headers. cx_auth st = (case caller of Some c \<Rightarrow> cx_auth c | None \<Rightarrow> noAuth)
    \<and> (e_Access ep = Auth \<longrightarrow> ai_UID (cx_auth st) \<noteq> []) \<and> cx_Service st = e_Service ep \<and> cx_Endpoint st = e_Name ep
    \<and> runTyped w ep st args payload = Some (Returned (resp, status, headers, None))"
proof -
  let ?st = "callState sprint ep caller args payload"
  have "\<exists>status headers. runTyped w ep ?st args payload = Some (Returned (resp, status, headers, None))"
    "e_Access ep = Auth \<longrightarrow> ai_UID (cx_auth ?st) \<noteq> []"
    using assms
    by (cases "runTyped w ep ?st args payload"; cases "the (runTyped w ep ?st args payload)";
        auto simp: CallEndpoint_def Let_def split: if_splits prod.splits)+
  then show ?thesis by (intro exI [of _ ?st]) (auto simp: callState_def Let_def)
qed

text \<open>Whatever runs between entering and leaving a request on a goroutine, the goroutine's current request is the one from before.\<close>

lemma restore_undoes_enter:
  assumes "enterState gid st store = (store', prev)" "\<And>i. i \<noteq> gid \<Longrightarrow> map_of store'' i = map_of store i"
  shows "map_of (restoreState gid prev store'') = map_of store"
  using assms by (auto simp: enterState_def restoreState_def update_conv delete_conv fun_eq_iff split: option.splits)

section \<open>The process\<close>

text \<open>
  What \<open>Main\<close> starts it stops, whatever fails, with one exception: when the Temporal workers or the cron scheduler
  cannot start, \<open>Main\<close> returns without \<open>ShutdownServices\<close>, and the shutdown hooks of the services that are running are never called.\<close>

lemma started_is_stopped:
  assumes "Started p \<in> set (fst (Main e))"
  shows "Stopped p \<in> set (fst (Main e)) \<longleftrightarrow>
    \<not> (p = ''services'' \<and> (pe_startErr e ''temporal workers'' \<noteq> None \<or> pe_startErr e ''cron'' \<noteq> None))"
  using assms
  by (auto simp: Main_def shutdownRuntime_def Let_def split: sum.splits option.splits if_splits prod.splits)

lemma started_is_stopped_witness:
  "let e = \<lparr>pe_env = (\<lambda>x. []), pe_startErr = (\<lambda>p. if p = ''cron'' then Some ''bad schedule'' else None),
             pe_stopErr = (\<lambda>p. None), pe_serveErr = None\<rparr>
    in Started ''services'' \<in> set (fst (Main e)) \<and> Stopped ''services'' \<notin> set (fst (Main e))"
proof -
  let ?e = "\<lparr>pe_env = (\<lambda>x. []), pe_startErr = (\<lambda>p. if p = ''cron'' then Some ''bad schedule'' else None),
             pe_stopErr = (\<lambda>p. None), pe_serveErr = None\<rparr>"
  have "Started ''services'' \<in> set (fst (Main ?e))" by code_simp
  with started_is_stopped [of "''services''" ?e] show ?thesis by simp
qed

end
