(* ===== verification/Redact.thy ===== *)
theory Redact
  imports RuntimeServer
begin

text \<open>
  Redaction of values that leave the process in errors, logs and traces: \<open>internal/redact/redact.go\<close>.  A Go value as
  reflection shows it, with the pointers it holds as keys (type and address) of an explicit heap, so that values may share parts or
  be cyclic; what the redactor makes of it; the keys it hides; HTTP headers.  URLs and free text (\<open>URL\<close>, \<open>String\<close>) rest on
  \<open>net/url\<close> and \<open>regexp\<close> and are not modelled.
\<close>

section \<open>Definitions\<close>

definition Placeholder :: string where "Placeholder = ''[redacted]''"

subsection \<open>Keys\<close>

definition normalizeKey :: "string \<Rightarrow> string" where
  "normalizeKey key = filter (\<lambda>c. c \<notin> set ''-_ .'') (toLower (trimSpace key))"

definition SensitiveKey :: "string \<Rightarrow> bool" where
  "SensitiveKey key =
     (normalizeKey key \<in> set [''authorization'', ''cookie'', ''setcookie'', ''token'', ''accesstoken'', ''refreshtoken'', ''password'',
        ''secret'', ''apikey'', ''databaseurl'', ''jwt'', ''jwttoken''])"

definition isSensitiveField :: "structField \<Rightarrow> bool" where
  "isSensitiveField f = list_ex (\<lambda>part. trimSpace part = ''sensitive'') (splitOn CHR '','' (tagGet f ''scenery''))"

definition jsonFieldName :: "structField \<Rightarrow> string" where
  "jsonFieldName f =
     (let name = hd (splitOn CHR '','' (tagGet f ''json''))
      in if name = [] \<or> name = ''-'' then sf_Name f else name)"

subsection \<open>Values\<close>

type_synonym visit = "string \<times> nat"

text \<open>
  A \<open>reflect.Value\<close>: invalid, of interface kind, a pointer, a \<open>time.Time\<close>, a struct, a map (its keys as
  \<open>stringifyMapKey\<close> renders them, in the order they are met), a slice or an array, or any other value, by its rendering.\<close>

datatype rval =
    RInvalid
  | RInterface "rval option"
  | RPointer "visit option"
  | RTime string
  | RStruct "(structField \<times> rval) list"
  | RMap "(string \<times> rval) list option"
  | RSlice "rval list option"
  | RArray "rval list"
  | RScalar string

text \<open>What comes out, and what is still to be written as JSON.\<close>

datatype shown =
    SNil
  | SString string
  | STime string
  | SScalar string
  | SObject "(string \<times> shown) list"
  | SList "shown list"

type_synonym heap = "(visit, rval) gomap"

lemma unseen_mono:
  "card (fst ` set h - (X \<union> Y)) < card (fst ` set h - Y) \<or> card (fst ` set h - (X \<union> Y)) = card (fst ` set h - Y)"
  by (intro le_less [THEN iffD1] card_mono) auto

lemma unseen_less: "map_of h ref = Some u \<Longrightarrow> ref \<notin> set seen \<Longrightarrow>
    card (fst ` set h - insert ref (set seen)) < card (fst ` set h - set seen)"
  by (intro psubset_card_mono psubsetI) (force dest: map_of_SomeD)+

text \<open>
  The redactor, with the pointers seen so far; it returns the new ones and the result.  \<open>None\<close> from the heap would be a pointer to
  nothing, which Go does not have.\<close>

function (sequential) redactorValue :: "heap \<Rightarrow> visit list \<Rightarrow> rval \<Rightarrow> string \<Rightarrow> visit list \<times> shown"
and redactorFields :: "heap \<Rightarrow> visit list \<Rightarrow> (structField \<times> rval) list \<Rightarrow> visit list \<times> (string \<times> shown) list"
and redactorEntries :: "heap \<Rightarrow> visit list \<Rightarrow> (string \<times> rval) list \<Rightarrow> visit list \<times> (string \<times> shown) list"
and redactorItems :: "heap \<Rightarrow> visit list \<Rightarrow> rval list \<Rightarrow> string \<Rightarrow> visit list \<times> shown list" where
  "redactorValue h seen RInvalid key = ([], SNil)"
| "redactorValue h seen v key =
     (if SensitiveKey key then ([], SString Placeholder)
      else case v of
        RInterface None \<Rightarrow> ([], SNil)
      | RInterface (Some u) \<Rightarrow> redactorValue h seen u key
      | RPointer None \<Rightarrow> ([], SNil)
      | RPointer (Some ref) \<Rightarrow>
          if ref \<in> set seen then ([], SString Placeholder)
          else (case map_of h ref of
                  None \<Rightarrow> ([], SNil)
                | Some u \<Rightarrow> (let (new, out) = redactorValue h (ref # seen) u key in (ref # new, out)))
      | RTime t \<Rightarrow> ([], STime t)
      | RStruct fs \<Rightarrow> (let (new, out) = redactorFields h seen fs in (new, SObject (foldl (\<lambda>m (k, x). AList.update k x m) [] out)))
      | RMap None \<Rightarrow> ([], SNil)
      | RMap (Some es) \<Rightarrow> (let (new, out) = redactorEntries h seen es in (new, SObject (foldl (\<lambda>m (k, x). AList.update k x m) [] out)))
      | RSlice None \<Rightarrow> ([], SNil)
      | RSlice (Some vs) \<Rightarrow> (let (new, out) = redactorItems h seen vs key in (new, SList out))
      | RArray vs \<Rightarrow> (let (new, out) = redactorItems h seen vs key in (new, SList out))
      | RScalar t \<Rightarrow> ([], SScalar t)
      | RInvalid \<Rightarrow> ([], SNil))"
| "redactorFields h seen [] = ([], [])"
| "redactorFields h seen ((f, v) # fs) =
     (if \<not> sf_Exported f then redactorFields h seen fs
      else let (new, out) = (if isSensitiveField f \<or> SensitiveKey (jsonFieldName f) then ([], SString Placeholder)
                             else redactorValue h seen v (jsonFieldName f));
               (new', outs) = redactorFields h (new @ seen) fs
           in (new @ new', (jsonFieldName f, out) # outs))"
| "redactorEntries h seen [] = ([], [])"
| "redactorEntries h seen ((k, v) # es) =
     (let (new, out) = (if SensitiveKey k then ([], SString Placeholder) else redactorValue h seen v k);
          (new', outs) = redactorEntries h (new @ seen) es
      in (new @ new', (k, out) # outs))"
| "redactorItems h seen [] key = ([], [])"
| "redactorItems h seen (v # vs) key =
     (let (new, out) = redactorValue h seen v key; (new', outs) = redactorItems h (new @ seen) vs key
      in (new @ new', out # outs))"
  by pat_completeness auto

termination
  by (relation "measures
    [case_sum (case_sum (\<lambda>(h, seen, v, key). card (fst ` set h - set seen)) (\<lambda>(h, seen, fs). card (fst ` set h - set seen)))
              (case_sum (\<lambda>(h, seen, es). card (fst ` set h - set seen)) (\<lambda>(h, seen, vs, key). card (fst ` set h - set seen))),
     case_sum (case_sum (\<lambda>(h, seen, v, key). size v) (\<lambda>(h, seen, fs). size_list (size_prod (\<lambda>x. 0) size) fs))
              (case_sum (\<lambda>(h, seen, es). size_list (size_prod (\<lambda>x. 0) size) es) (\<lambda>(h, seen, vs, key). size_list size vs))]")
    (simp_all add: unseen_less unseen_mono less_Suc_eq_le)

declare redactorValue.simps [simp del]

lemmas redactor_induct = redactorValue_redactorFields_redactorEntries_redactorItems.induct
  [case_names invalid iface pointer time struct mapping slice array scalar no_field field no_entry entry no_item item]

definition ValueRedacted :: "heap \<Rightarrow> rval \<Rightarrow> shown" where
  "ValueRedacted h v = snd (redactorValue h [] v [])"

text \<open>\<open>redactor.any\<close> over the entries of a metadata map, in the order the map is walked; the pointers seen are shared.\<close>

definition Metadata :: "heap \<Rightarrow> (string \<times> rval) list \<Rightarrow> (string \<times> shown) list option" where
  "Metadata h meta = (if meta = [] then None else Some (snd (redactorEntries h [] meta)))"

definition Headers :: "httpHeader \<Rightarrow> (string \<times> string) list option" where
  "Headers headers = (if headers = [] then None
     else Some (map (\<lambda>(k, vs). (k, if SensitiveKey k then Placeholder else joinWith '', '' vs)) headers))"

section \<open>What the redactor hides\<close>

text \<open>A value with everything under a sensitive name taken out.\<close>

primrec blank :: "rval \<Rightarrow> rval" where
  "blank RInvalid = RInvalid"
| "blank (RInterface u) = RInterface (map_option blank u)"
| "blank (RPointer p) = RPointer p"
| "blank (RTime t) = RTime t"
| "blank (RStruct fs) = RStruct (map (\<lambda>(f, v). (f,
     if \<not> sf_Exported f \<or> isSensitiveField f \<or> SensitiveKey (jsonFieldName f) then RInvalid else v)) (map (map_prod id blank) fs))"
| "blank (RMap es) = RMap (map_option (map (\<lambda>(k, v). (k, if SensitiveKey k then RInvalid else v)))
     (map_option (map (map_prod id blank)) es))"
| "blank (RSlice vs) = RSlice (map_option (map blank) vs)"
| "blank (RArray vs) = RArray (map blank vs)"
| "blank (RScalar t) = RScalar t"

definition blankFields :: "(structField \<times> rval) list \<Rightarrow> (structField \<times> rval) list" where
  "blankFields fs = map (\<lambda>(f, v). (f,
     if \<not> sf_Exported f \<or> isSensitiveField f \<or> SensitiveKey (jsonFieldName f) then RInvalid else blank v)) fs"

definition blankEntries :: "(string \<times> rval) list \<Rightarrow> (string \<times> rval) list" where
  "blankEntries es = map (\<lambda>(k, v). (k, if SensitiveKey k then RInvalid else blank v)) es"

definition blankHeap :: "heap \<Rightarrow> heap" where
  "blankHeap h = map (map_prod id blank) h"

lemma blank_struct: "blank (RStruct fs) = RStruct (blankFields fs)"
  and blank_map: "blank (RMap es) = RMap (map_option blankEntries es)"
  by (simp add: blankFields_def split_def, cases es) (simp_all add: blankEntries_def split_def)

lemma map_of_blankHeap: "map_of (blankHeap h) ref = map_option blank (map_of h ref)"
  by (induction h) (auto simp: blankHeap_def)

lemma redactor_blank:
  "redactorValue (blankHeap h) seen (blank v) key = redactorValue h seen v key"
  "redactorFields (blankHeap h) seen (blankFields fs) = redactorFields h seen fs"
  "redactorEntries (blankHeap h) seen (blankEntries es) = redactorEntries h seen es"
  "redactorItems (blankHeap h) seen (map blank vs) key = redactorItems h seen vs key"
proof (induction h seen v key and h seen fs and h seen es and h seen vs key
    rule: redactor_induct)
  case (iface h seen u key)
  then show ?case by (cases u) (simp_all add: redactorValue.simps)
next
  case (pointer h seen p key)
  then show ?case by (cases p) (simp_all add: redactorValue.simps map_of_blankHeap split: option.split)
next
  case (struct h seen fs key)
  then show ?case by (simp add: redactorValue.simps blank_struct del: blank.simps)
next
  case (mapping h seen es key)
  then show ?case by (cases es) (simp_all add: redactorValue.simps blank_map del: blank.simps)
next
  case (slice h seen vs key)
  then show ?case by (cases vs) (simp_all add: redactorValue.simps)
next
  case (array h seen vs key)
  then show ?case by (simp add: redactorValue.simps)
next
  case (field h seen f v fs)
  then show ?case by (auto simp: redactorValue.simps blankFields_def split: prod.splits)
next
  case (entry h seen k v es)
  then show ?case by (auto simp: redactorValue.simps blankEntries_def split: prod.splits)
next
  case (item h seen v vs key)
  then show ?case by (auto simp: redactorValue.simps split: prod.splits)
qed (simp_all add: redactorValue.simps blankFields_def blankEntries_def)

text \<open>No entry of an object under a sensitive name is anything but the placeholder.\<close>

fun clean :: "shown \<Rightarrow> bool" where
  "clean (SObject es) = (\<forall>(k, x) \<in> set es. if SensitiveKey k then x = SString Placeholder else clean x)"
| "clean (SList xs) = (\<forall>x \<in> set xs. clean x)"
| "clean x = True"

definition cleanEntries :: "(string \<times> shown) list \<Rightarrow> bool" where
  "cleanEntries es = (\<forall>(k, x) \<in> set es. if SensitiveKey k then x = SString Placeholder else clean x)"

lemma clean_SObject: "clean (SObject es) = cleanEntries es"
  by (simp add: cleanEntries_def)

lemma cleanEntries_Cons [simp]: "cleanEntries [] \<longleftrightarrow> True"
  "cleanEntries ((k, x) # es) \<longleftrightarrow> (if SensitiveKey k then x = SString Placeholder else clean x) \<and> cleanEntries es"
  by (simp_all add: cleanEntries_def)

lemma cleanEntries_update: "cleanEntries m \<Longrightarrow> cleanEntries [(k, x)] \<Longrightarrow> cleanEntries (AList.update k x m)"
  by (induction m) (auto split: if_splits)

lemma cleanEntries_collect: "cleanEntries m \<Longrightarrow> cleanEntries out \<Longrightarrow> cleanEntries (foldl (\<lambda>m (k, x). AList.update k x m) m out)"
proof (induction out arbitrary: m)
  case (Cons p out)
  obtain k x where p: "p = (k, x)" by (cases p)
  with Cons.prems(2) have "cleanEntries [(k, x)]" "cleanEntries out" by (simp_all add: cleanEntries_def)
  with Cons.prems(1) have "cleanEntries (AList.update k x m)" "cleanEntries out" by (simp_all add: cleanEntries_update)
  with Cons.IH p show ?case by simp
qed simp

lemma redactor_clean:
  "clean (snd (redactorValue h seen v key))"
  "cleanEntries (snd (redactorFields h seen fs))"
  "cleanEntries (snd (redactorEntries h seen es))"
  "list_all clean (snd (redactorItems h seen vs key))"
proof (induction h seen v key and h seen fs and h seen es and h seen vs key
    rule: redactor_induct)
  case (iface h seen u key)
  then show ?case by (cases u) (simp_all add: redactorValue.simps)
next
  case (pointer h seen p key)
  then show ?case by (cases p) (fastforce simp: redactorValue.simps split: option.split prod.split)+
next
  case (struct h seen fs key)
  then show ?case
    by (auto simp: redactorValue.simps clean_SObject simp del: clean.simps(1) split: prod.splits intro!: cleanEntries_collect)
next
  case (mapping h seen es key)
  then show ?case
    by (cases es) (auto simp: redactorValue.simps clean_SObject simp del: clean.simps(1) split: prod.splits intro!: cleanEntries_collect)
next
  case (slice h seen vs key)
  then show ?case by (cases vs) (auto simp: redactorValue.simps list_all_iff split: prod.splits)
next
  case (array h seen vs key)
  then show ?case by (auto simp: redactorValue.simps list_all_iff split: prod.splits)
next
  case (field h seen f v fs)
  then show ?case by (auto simp: redactorValue.simps split: prod.splits if_splits)
next
  case (entry h seen k v es)
  then show ?case by (auto simp: redactorValue.simps split: prod.splits if_splits)
next
  case (item h seen v vs key)
  then show ?case by (auto simp: redactorValue.simps split: prod.splits)
qed (simp_all add: redactorValue.simps)


text \<open>A user record with a password field, reached through a pointer, for the witness.\<close>

definition plainF :: "string \<Rightarrow> structField" where
  "plainF n = \<lparr>sf_Name = n, sf_Tag = [], sf_Anonymous = False, sf_Exported = True\<rparr>"

definition userAt :: "string \<Rightarrow> heap" where
  "userAt pw = [((''*User'', 7), RStruct [(plainF ''Name'', RScalar ''ada''), (plainF ''Password'', RScalar pw)])]"


text \<open>
  The set of pointers seen is meant to stop cycles, but it is kept for the whole value: the second of two fields that point to the same
  object is shown as the placeholder although nothing in it is sensitive, and which entry of a metadata map this happens to
  depends on the order in which Go walks the map.\<close>

lemma shared_pointer_hidden:
  "let h = [((''*int'', 1), RScalar ''42'')]; p = RPointer (Some (''*int'', 1))
   in Metadata h [(''a'', p), (''b'', p)] = Some [(''a'', SScalar ''42''), (''b'', SString Placeholder)]
    \<and> Metadata h [(''b'', p), (''a'', p)] = Some [(''b'', SScalar ''42''), (''a'', SString Placeholder)]"
proof -
  have "\<not> SensitiveKey ''a''" "\<not> SensitiveKey ''b''" by code_simp+
  then show ?thesis by (simp add: Metadata_def redactorValue.simps Let_def)
qed

text \<open>The headers shown are those of the request, the values of sensitive ones hidden.\<close>

lemma headers_hidden: "Headers hs = Some out \<Longrightarrow> (k, x) \<in> set out \<Longrightarrow> SensitiveKey k \<Longrightarrow> x = Placeholder"
  by (auto simp: Headers_def split: if_splits)

text \<open>
  The error payload of the wire transport holds the metadata as it is, while the JSON error of the
  same endpoint holds what the redactor makes of it.\<close>

lemma wire_error_unredacted:
  assumes "Meta (Some err) = Some r" "(k, v) \<in> set (st ! r)"
  shows "\<exists>ms m. errorPayload st err = AObj ms \<and> (''meta'', AObj m) \<in> set ms \<and> (k, mvalAny v) \<in> set m"
proof (intro exI conjI)
  let ?m = "map (map_prod id mvalAny) (st ! r)"
  show "errorPayload st err = AObj ([(''code'', AStr (Code (Some err))), (''message'', AStr (Error err))]
      @ (case Details (Some err) of None \<Rightarrow> [] | Some d \<Rightarrow> [(''details'', mvalAny d)]) @ [(''meta'', AObj ?m)])"
    by (simp add: errorPayload_def assms(1))
  show "(k, mvalAny v) \<in> set ?m" using assms(2) by force
qed simp

end
