(* ===== verification/EnvPolicy.thy ===== *)
theory EnvPolicy
  imports GoPath GoTypes Router
begin

text \<open>
  Environment variables: the registry of the variables the program may use and their matching by name (\<open>internal/envpolicy\<close>), the
  parser of \<open>.env\<close> files (\<open>internal/envfile\<close>), and the secrets an application declares (\<open>runtime/secrets.go\<close>), with the warnings about those
  that are missing.  File contents are an argument, \<open>strconv.Unquote\<close> a parameter.
\<close>

section \<open>Definitions\<close>

subsection \<open>The registry of variables\<close>

record Variable =
  va_Name :: string
  va_Match :: string
  va_Scope :: string
  va_Direction :: string
  va_Category :: string
  va_Stability :: string
  va_Secret :: bool
  va_AllowedIn :: "string list"
  va_Owner :: string
  va_Rationale :: string

definition matchMode :: "Variable \<Rightarrow> string" where
  "matchMode v = (if va_Match v = [] then ''exact'' else va_Match v)"

definition SchemaVersion :: string where "SchemaVersion = ''scenery.environment.registry.v1''"
definition RedactedValue :: string where "RedactedValue = ''<redacted>''"

definition checkVariable :: "string list \<Rightarrow> nat \<Rightarrow> Variable \<Rightarrow> string option" where
  "checkVariable seen i v =
     (if trimSpace (va_Name v) = [] then Some (''environment registry variable '' @ itoa (int i) @ '' has empty name'')
      else if matchMode v \<notin> {''exact'', ''prefix'', ''glob''}
      then Some (''environment registry variable '' @ va_Name v @ '' has invalid match '' @ goQuote (va_Match v))
      else if matchMode v @ '':'' @ va_Name v \<in> set seen
      then Some (''environment registry duplicate variable entry: '' @ va_Name v)
      else if [] \<in> trimSpace ` {va_Scope v, va_Direction v, va_Category v, va_Stability v, va_Owner v, va_Rationale v}
      then Some (''environment registry variable '' @ va_Name v @ '' is missing required metadata'')
      else if va_AllowedIn v = [] then Some (''environment registry variable '' @ va_Name v @ '' has no allowed_in scopes'')
      else None)"

fun checkVariables :: "string list \<Rightarrow> nat \<Rightarrow> Variable list \<Rightarrow> string option" where
  "checkVariables seen i [] = None"
| "checkVariables seen i (v # vs) =
     (case checkVariable seen i v of
        Some err \<Rightarrow> Some err
      | None \<Rightarrow> checkVariables ((matchMode v @ '':'' @ va_Name v) # seen) (Suc i) vs)"

definition Validate :: "string \<Rightarrow> Variable list \<Rightarrow> string option" where
  "Validate schemaVersion vs =
     (if schemaVersion \<noteq> SchemaVersion
      then Some (''environment registry schema_version = '' @ goQuote schemaVersion @ '', want '' @ goQuote SchemaVersion)
      else checkVariables [] 0 vs)"

fun globMiddle :: "string list \<Rightarrow> string \<Rightarrow> string option" where
  "globMiddle [] rest = Some rest"
| "globMiddle (part # parts) rest =
     (case indexOf part rest of None \<Rightarrow> None | Some n \<Rightarrow> globMiddle parts (drop (n + length part) rest))"

definition globMatch :: "string \<Rightarrow> string \<Rightarrow> bool" where
  "globMatch pattern value =
     (if pattern = ''*'' then True
      else let parts = splitOn CHR ''*'' pattern in
           if length parts = 1 then pattern = value
           else if \<not> hasPrefix (hd parts) value then False
           else case globMiddle (butlast (tl parts)) (drop (length (hd parts)) value) of
                  None \<Rightarrow> False
                | Some rest \<Rightarrow> last parts = [] \<or> hasSuffix (last parts) rest)"

definition matchesName :: "Variable \<Rightarrow> string \<Rightarrow> bool" where
  "matchesName v name =
     (if matchMode v = ''prefix'' then hasPrefix (va_Name v) name
      else if matchMode v = ''glob'' then globMatch (va_Name v) name
      else va_Name v = name)"

text \<open>The index: exact names (the last entry of a name counts) and the patterns, longest first.\<close>

definition isPattern :: "Variable \<Rightarrow> bool" where
  "isPattern v = (matchMode v = ''prefix'' \<or> matchMode v = ''glob'')"

definition compareLength :: "Variable \<Rightarrow> Variable \<Rightarrow> int" where
  "compareLength a b = int (length (va_Name b)) - int (length (va_Name a))"

definition indexExact :: "Variable list \<Rightarrow> (string, Variable) gomap" where
  "indexExact vs = foldl (\<lambda>m v. AList.update (va_Name v) v m) [] (filter (\<lambda>v. \<not> isPattern v) vs)"

definition indexPatterns :: "Variable list \<Rightarrow> Variable list" where
  "indexPatterns vs = sortStable compareLength (filter isPattern vs)"

definition Find :: "Variable list \<Rightarrow> string \<Rightarrow> Variable option" where
  "Find vs name =
     (case map_of (indexExact vs) name of
        Some v \<Rightarrow> Some v
      | None \<Rightarrow> find (\<lambda>v. matchesName v name) (indexPatterns vs))"

definition containsStr :: "string \<Rightarrow> string \<Rightarrow> bool" where
  "containsStr p s = (indexOf p s \<noteq> None)"

definition SecretLikeName :: "string \<Rightarrow> bool" where
  "SecretLikeName name =
     (let normalized = toUpper (map (\<lambda>c. if c = CHR ''-'' then CHR ''_'' else c) name)
      in list_ex (\<lambda>part. containsStr part normalized)
           [''SECRET'', ''TOKEN'', ''API_KEY'', ''PASSWORD'', ''PRIVATE_KEY'', ''DATABASE_URL'', ''AUTH_DATABASE_URL'', ''JWT''])"

definition RedactValue :: "Variable list \<Rightarrow> string \<Rightarrow> string \<Rightarrow> string" where
  "RedactValue vs name value =
     (if (case Find vs name of Some v \<Rightarrow> va_Secret v | None \<Rightarrow> False) then RedactedValue
      else if SecretLikeName name then RedactedValue
      else value)"

definition Allows :: "Variable \<Rightarrow> string \<Rightarrow> bool" where
  "Allows v scope = (scope \<in> set (va_AllowedIn v))"

subsection \<open>References found in the repository\<close>

definition isEnvStart :: "char \<Rightarrow> bool" where "isEnvStart c = isUpperLetter c"

definition isEnvChar :: "char \<Rightarrow> bool" where "isEnvChar c = (isUpperLetter c \<or> isDigit c \<or> c = CHR ''_'')"

definition looksLikeEnvName :: "string \<Rightarrow> bool" where
  "looksLikeEnvName token =
     (\<not> (length token < 3 \<or> CHR ''_'' \<notin> set token) \<and> trimSet ''_'' token \<noteq> [] \<and>
      (list_ex (\<lambda>prefix. hasPrefix prefix token \<and> token \<noteq> prefix) [''SCENERY_'', ''GF_''] \<or>
       token \<in> set [''DATABASE_URL'', ''API_BASE_URL'', ''PUBLIC_APP_URL'', ''AUTH_COOKIE_DOMAIN'', ''AUTH_EMAIL_FROM'', ''JWT_SECRET'',
         ''CLICOLOR_FORCE'', ''NO_COLOR'', ''TEMPORAL_ADDRESS'', ''TEMPORAL_NAMESPACE'', ''TEMPORAL_API_KEY'', ''TEMPORAL_TLS_SERVER_NAME'',
         ''TEMPORAL_TLS_CA_CERT_FILE'', ''TEMPORAL_TLS_CERT_FILE'', ''TEMPORAL_TLS_KEY_FILE'', ''OTEL_EXPORTER_OTLP_METRICS_ENDPOINT'',
         ''OTEL_EXPORTER_OTLP_LOGS_ENDPOINT'', ''OTEL_EXPORTER_OTLP_TRACES_ENDPOINT'', ''VITE_API_BASE_URL'', ''VITE_ELECTRIC_URL'',
         ''ELECTRIC_URL'', ''ELECTRIC_PORT'', ''ELECTRIC_INSECURE'', ''ELECTRIC_USAGE_REPORTING'', ''ELECTRIC_REPLICATION_STREAM_ID'']))"

function envTokens :: "string \<Rightarrow> string list" where
  "envTokens text =
     (case text of
        [] \<Rightarrow> []
      | c # cs \<Rightarrow>
        if \<not> isEnvStart c then envTokens cs
        else (let token = c # takeWhile isEnvChar cs; rest = envTokens (drop 1 (dropWhile isEnvChar cs))
              in if looksLikeEnvName token then token # rest else rest))"
  by pat_completeness auto
termination
  by (relation "measure length") (auto simp: less_Suc_eq_le intro: le_trans [OF diff_le_self length_dropWhile_le])

declare envTokens.simps [simp del]

definition extractEnvTokens :: "string \<Rightarrow> string list" where
  "extractEnvTokens text = sort (remdups (envTokens text))"

definition fileScope :: "string \<Rightarrow> string" where
  "fileScope rel =
     (if hasPrefix ''docs/'' rel \<or> rel \<in> {''README.md'', ''AGENTS.md'', ''SKILL.md'', ''PLANS.md'', ''PLAN.md''} then ''docs''
      else if hasPrefix ''internal/testpostgres/'' rel then ''test''
      else if hasSuffix ''_test.go'' rel \<or> containsStr ''_test.'' rel then ''test''
      else if hasPrefix ''testdata/'' rel \<or> hasPrefix ''benchmarks/'' rel then ''fixture''
      else ''code'')"

definition referenceKind :: "string \<Rightarrow> string \<Rightarrow> string" where
  "referenceKind text token =
     (case indexOf token text of
        None \<Rightarrow> ''mention''
      | Some idx \<Rightarrow>
        (let start = idx - 120; context = take (idx + length token + 120 - start) (drop start text) in
         if containsStr ''Setenv'' context \<or> containsStr (token @ ''='') context \<or> containsStr ''Env:'' context \<or> containsStr ''Env ='' context
         then ''write''
         else if containsStr ''Getenv'' context \<or> containsStr ''LookupEnv'' context \<or> containsStr ''process.env'' context then ''read''
         else ''mention''))"

fun scopeLoop :: "string \<Rightarrow> string list \<Rightarrow> string option" where
  "scopeLoop scope [] = Some scope"
| "scopeLoop scope (s # ss) =
     (if s = ''code'' then None
      else if s = ''fixture'' then scopeLoop (if scope \<in> {[], ''docs'', ''test''} then ''fixture'' else scope) ss
      else if s = ''test'' then scopeLoop (if scope \<in> {[], ''docs''} then ''test'' else scope) ss
      else if s = ''docs'' then scopeLoop (if scope = [] then ''docs'' else scope) ss
      else scopeLoop scope ss)"

text \<open>The scope of a variable from the scopes of its references.\<close>

definition EffectiveScope :: "string list \<Rightarrow> string \<Rightarrow> string" where
  "EffectiveScope scopes name =
     (case scopeLoop [] scopes of
        None \<Rightarrow> ''runtime''
      | Some scope \<Rightarrow>
        if scope = [] then ''runtime''
        else if (hasPrefix ''SCENERY_TEST_'' name \<or> hasPrefix ''SCENERY_INTEGRATION_'' name) \<and> scope \<noteq> ''docs'' then ''test''
        else scope)"

definition ScopeAllowedInRegistry :: "string \<Rightarrow> string" where
  "ScopeAllowedInRegistry scope = (if scope = ''runtime'' then ''code'' else if scope \<in> {''fixture'', ''test''} then ''tests'' else scope)"

subsection \<open>Environment files\<close>

definition parseValue :: "(string \<Rightarrow> string + string) \<Rightarrow> string \<Rightarrow> string + string" where
  "parseValue unquote value =
     (if length value \<ge> 2 \<and> hd value = CHR 0x22 \<and> last value = CHR 0x22 then unquote value
      else if length value \<ge> 2 \<and> hd value = CHR 0x27 \<and> last value = CHR 0x27 then Inr (take (length value - 2) (drop 1 value))
      else Inr value)"

definition bom :: string where "bom = [char_of (239 :: nat), char_of (187 :: nat), char_of (191 :: nat)]"

text \<open>One line: nothing, an error, or a key with its value.\<close>

definition parseLine :: "(string \<Rightarrow> string + string) \<Rightarrow> nat \<Rightarrow> string \<Rightarrow> string + (string \<times> string) option" where
  "parseLine unquote lineNo raw =
     (let line = trimSpace raw; line = (if lineNo = 0 then trimPrefix bom line else line) in
      if line = [] \<or> hasPrefix ''#'' line then Inr None
      else let line = (if hasPrefix ''export '' line then trimSpace (drop 7 line) else line);
               (key, rawValue, found) = cut CHR ''='' line
           in if \<not> found then Inl (''invalid .env line '' @ itoa (int lineNo + 1))
              else if trimSpace key = [] then Inl (''invalid empty .env key on line '' @ itoa (int lineNo + 1))
              else case parseValue unquote (trimSpace rawValue) of
                     Inl err \<Rightarrow> Inl (''parse .env line '' @ itoa (int lineNo + 1) @ '': '' @ err)
                   | Inr value \<Rightarrow> Inr (Some (trimSpace key, value)))"

fun parseLines :: "(string \<Rightarrow> string + string) \<Rightarrow> nat \<Rightarrow> string list \<Rightarrow> (string, string) gomap \<Rightarrow> string + (string, string) gomap" where
  "parseLines unquote n [] data = Inr data"
| "parseLines unquote n (raw # raws) data =
     (case parseLine unquote n raw of
        Inl err \<Rightarrow> Inl err
      | Inr None \<Rightarrow> parseLines unquote (Suc n) raws data
      | Inr (Some (k, v)) \<Rightarrow> parseLines unquote (Suc n) raws (AList.update k v data))"

text \<open>A file is missing (\<open>Inr None\<close>), cannot be read, or has a content.\<close>

definition ParseFile :: "(string \<Rightarrow> string + string) \<Rightarrow> (string \<Rightarrow> string + string option) \<Rightarrow> string \<Rightarrow> string + (string, string) gomap" where
  "ParseFile unquote readFile path =
     (case readFile path of
        Inl err \<Rightarrow> Inl (''read '' @ path @ '': '' @ err)
      | Inr None \<Rightarrow> Inr []
      | Inr (Some content) \<Rightarrow> parseLines unquote 0 (splitOn (char_of (10 :: nat)) content) [])"

definition copyInto :: "(string, string) gomap \<Rightarrow> (string, string) gomap \<Rightarrow> (string, string) gomap" where
  "copyInto merged values = foldl (\<lambda>m (k, v). AList.update k v m) merged values"

fun mergeLoop ::
  "(string \<Rightarrow> string + string) \<Rightarrow> (string \<Rightarrow> string + string option) \<Rightarrow> string \<Rightarrow> string list \<Rightarrow> (string, string) gomap \<Rightarrow>
   string + (string, string) gomap" where
  "mergeLoop unquote readFile root [] merged = Inr merged"
| "mergeLoop unquote readFile root (name # names) merged =
     (case ParseFile unquote readFile (pathJoin root name) of
        Inl err \<Rightarrow> Inl err
      | Inr values \<Rightarrow> mergeLoop unquote readFile root names (copyInto merged values))"

definition MergeFiles ::
  "(string \<Rightarrow> string + string) \<Rightarrow> (string \<Rightarrow> string + string option) \<Rightarrow> string \<Rightarrow> string list \<Rightarrow> string + (string, string) gomap" where
  "MergeFiles unquote readFile root names = mergeLoop unquote readFile root names []"

definition AppendMissing :: "string list \<Rightarrow> (string, string) gomap \<Rightarrow> string list" where
  "AppendMissing base values =
     base @ map (\<lambda>k. k @ ''='' @ the (map_of values k))
       (filter (\<lambda>k. \<not> list_ex (\<lambda>item. CHR ''='' \<in> set item \<and> fst (cut CHR ''='' item) = k) base) (sort (remdups (map fst values))))"

subsection \<open>Secrets\<close>

definition isLower :: "char \<Rightarrow> bool" where "isLower c = isLowerLetter c"

definition shouldInsertUnderscore :: "char \<Rightarrow> char \<Rightarrow> char option \<Rightarrow> bool" where
  "shouldInsertUnderscore prev current next =
     (isUpperLetter current \<and>
      (isLower prev \<or> isDigit prev \<or> (isUpperLetter prev \<and> (case next of None \<Rightarrow> False | Some n \<Rightarrow> isLower n))))"

fun envKeyFrom :: "char \<Rightarrow> string \<Rightarrow> string" where
  "envKeyFrom prev [] = []"
| "envKeyFrom prev (c # cs) =
     (if shouldInsertUnderscore prev c (case cs of [] \<Rightarrow> None | n # ns \<Rightarrow> Some n) then CHR ''_'' # toUpperChar c # envKeyFrom c cs
      else toUpperChar c # envKeyFrom c cs)"

definition toEnvKey :: "string \<Rightarrow> string" where
  "toEnvKey name = (case name of [] \<Rightarrow> [] | c # cs \<Rightarrow> toUpperChar c # envKeyFrom c cs)"

definition secretEnvKeys :: "string \<Rightarrow> string list" where
  "secretEnvKeys fieldName =
     (let alt = toEnvKey fieldName in if alt \<noteq> [] \<and> alt \<noteq> fieldName then [fieldName, alt] else [fieldName])"

definition firstDefined :: "(string \<Rightarrow> string option) \<Rightarrow> string list \<Rightarrow> string option" where
  "firstDefined env keys = (case find (\<lambda>k. env k \<noteq> None) keys of None \<Rightarrow> None | Some k \<Rightarrow> env k)"

definition lookupSecretValue :: "(string \<Rightarrow> string option) \<Rightarrow> (string, string) gomap \<Rightarrow> string list \<Rightarrow> string option" where
  "lookupSecretValue osEnv fileEnv keys =
     (case firstDefined osEnv keys of Some v \<Rightarrow> Some v | None \<Rightarrow> firstDefined (map_of fileEnv) keys)"

definition strictSecretsRequired :: "(string \<Rightarrow> string option) \<Rightarrow> bool" where
  "strictSecretsRequired osEnv =
     list_ex (\<lambda>k. toLower (trimSpace (case osEnv k of None \<Rightarrow> [] | Some v \<Rightarrow> v)) = ''production'') [''SCENERY_RUNTIME_ENV'', ''SCENERY_ENV'']"

type_synonym missingSecret = "string \<times> string list"

definition formatMissingSecrets :: "missingSecret list \<Rightarrow> string" where
  "formatMissingSecrets missing =
     joinWith ''; '' (sort (map (\<lambda>(field, keys). field @ '' ('' @ joinWith '', '' keys @ '')'') missing))"

text \<open>The warnings: fields warned about, pending ones with their keys, and whether warnings go out at once.\<close>

record secretsState =
  ss_warned :: "string list"
  ss_pending :: "(string, string list) gomap"
  ss_flushed :: bool

type_synonym warning = "(string list \<times> string list) option"

definition collectMissingSecrets :: "secretsState \<Rightarrow> secretsState \<times> warning" where
  "collectMissingSecrets s =
     (let fresh = filter (\<lambda>(field, keys). field \<notin> set (ss_warned s)) (ss_pending s)
      in if fresh = [] then (s, None)
         else (s\<lparr>ss_warned := map fst fresh @ ss_warned s, ss_pending := filter (\<lambda>(field, keys). field \<in> set (ss_warned s)) (ss_pending s)\<rparr>,
               Some (sort (map fst fresh), sort (remdups (concat (map snd fresh))))))"

definition rememberSecret :: "secretsState \<Rightarrow> missingSecret \<Rightarrow> secretsState" where
  "rememberSecret s secret =
     (if fst secret \<in> set (ss_warned s) \<or> map_of (ss_pending s) (fst secret) \<noteq> None then s
      else s\<lparr>ss_pending := AList.update (fst secret) (snd secret) (ss_pending s)\<rparr>)"

definition rememberMissingSecrets :: "missingSecret list \<Rightarrow> secretsState \<Rightarrow> secretsState \<times> warning" where
  "rememberMissingSecrets missing s =
     (let s = foldl rememberSecret s missing
      in if ss_flushed s then collectMissingSecrets s else (s, None))"

definition logMissingSecrets :: "missingSecret list \<Rightarrow> secretsState \<Rightarrow> secretsState \<times> warning" where
  "logMissingSecrets missing s = (if missing = [] then (s, None) else rememberMissingSecrets missing s)"

definition FlushMissingSecretsWarnings :: "secretsState \<Rightarrow> secretsState \<times> warning" where
  "FlushMissingSecretsWarnings s = collectMissingSecrets (s\<lparr>ss_flushed := True\<rparr>)"

text \<open>The fields of the target, with \<open>Some\<close> the value of a string field; the fields as they are left, and the result.\<close>

fun populateFields ::
  "(string \<Rightarrow> string option) \<Rightarrow> (string, string) gomap \<Rightarrow> (structField \<times> string option) list \<Rightarrow>
   (structField \<times> string option) list \<times> (string + missingSecret list)" where
  "populateFields osEnv fileEnv [] = ([], Inr [])"
| "populateFields osEnv fileEnv ((f, v) # fs) =
     (if \<not> sf_Exported f then map_prod (Cons (f, v)) id (populateFields osEnv fileEnv fs)
      else if v = None then ((f, v) # fs, Inl (''runtime: secret field '' @ sf_Name f @ '' must be string''))
      else let keys = secretEnvKeys (sf_Name f) in
           case lookupSecretValue osEnv fileEnv keys of
             None \<Rightarrow> map_prod (Cons (f, v)) (map_sum id (Cons (sf_Name f, keys))) (populateFields osEnv fileEnv fs)
           | Some value \<Rightarrow> map_prod (Cons (f, Some value)) id (populateFields osEnv fileEnv fs))"

definition PopulateSecrets ::
  "(string \<Rightarrow> string option) \<Rightarrow> string + (string, string) gomap \<Rightarrow> (structField \<times> string option) list \<Rightarrow> secretsState \<Rightarrow>
   secretsState \<times> (structField \<times> string option) list \<times> warning \<times> string option" where
  "PopulateSecrets osEnv fileEnv target s =
     (case fileEnv of
        Inl err \<Rightarrow> (s, target, None, Some err)
      | Inr env \<Rightarrow>
        (case populateFields osEnv env target of
           (fs, Inl err) \<Rightarrow> (s, fs, None, Some err)
         | (fs, Inr missing) \<Rightarrow>
           if missing \<noteq> [] \<and> strictSecretsRequired osEnv
           then (s, fs, None, Some (''runtime: missing required secrets for production: '' @ formatMissingSecrets missing))
           else (let (s', warn) = logMissingSecrets missing s in (s', fs, warn, None))))"

definition LoadDotEnvIntoEnv :: "(string, string) gomap \<Rightarrow> (string \<Rightarrow> string option) \<Rightarrow> string \<Rightarrow> string option" where
  "LoadDotEnvIntoEnv fileEnv osEnv = foldl (\<lambda>e (k, v). if e k \<noteq> None then e else e(k := Some v)) osEnv fileEnv"

section \<open>Globs\<close>

text \<open>What a glob means: a star stands for any text.\<close>

fun globs :: "string \<Rightarrow> string \<Rightarrow> bool" where
  "globs [] v = (v = [])"
| "globs (c # p) v =
     (if c = CHR ''*'' then \<exists>i \<le> length v. globs p (drop i v)
      else case v of [] \<Rightarrow> False | x # xs \<Rightarrow> x = c \<and> globs p xs)"

text \<open>The same on the parts between the stars: the parts after the first star, in order and without overlap, the last at the end.\<close>

fun fits :: "string list \<Rightarrow> string \<Rightarrow> bool" where
  "fits [] v = True"
| "fits [l] v = (\<exists>g. v = g @ l)"
| "fits (p # q # ps) v = (\<exists>g r. v = g @ p @ r \<and> fits (q # ps) r)"

definition globParts :: "string list \<Rightarrow> string \<Rightarrow> bool" where
  "globParts parts v =
     (case parts of [] \<Rightarrow> False | [w] \<Rightarrow> v = w | w # q # ps \<Rightarrow> \<exists>r. v = w @ r \<and> fits (q # ps) r)"

lemma fits_append: "fits ps r \<Longrightarrow> fits ps (x @ r)"
  by (induction ps r rule: fits.induct) (auto, metis append.assoc)

lemma fits_parts: "ps \<noteq> [] \<Longrightarrow> fits ps v \<longleftrightarrow> (\<exists>i \<le> length v. globParts ps (drop i v))"
proof -
  assume "ps \<noteq> []"
  then consider (one) l where "ps = [l]" | (more) p q qs where "ps = p # q # qs"
    by (metis list.exhaust)
  then show ?thesis
  proof cases
    case one
    have "(\<exists>g. v = g @ l) \<longleftrightarrow> (\<exists>i \<le> length v. drop i v = l)"
      by (metis append_eq_conv_conj append_take_drop_id le_add1 length_append)
    with one show ?thesis by (simp add: globParts_def)
  next
    case more
    have "(\<exists>g r. v = g @ p @ r \<and> fits (q # qs) r) \<longleftrightarrow> (\<exists>i \<le> length v. \<exists>r. drop i v = p @ r \<and> fits (q # qs) r)"
      by (metis append_eq_conv_conj append_take_drop_id le_add1 length_append)
    with more show ?thesis by (simp add: globParts_def)
  qed
qed

lemma globs_parts: "globs pattern v = globParts (splitOn CHR ''*'' pattern) v"
proof (induction pattern arbitrary: v)
  case Nil
  show ?case by (simp add: globParts_def)
next
  case (Cons c p)
  obtain w ws where ws: "splitOn CHR ''*'' p = w # ws" by (cases "splitOn CHR ''*'' p") simp_all
  show ?case
  proof (cases "c = CHR ''*''")
    case True
    have "globs (c # p) v \<longleftrightarrow> fits (w # ws) v"
      using True fits_parts [of "w # ws" v] Cons ws by simp
    with True ws show ?thesis by (simp add: globParts_def)
  next
    case False
    then show ?thesis
      using Cons ws by (cases v; cases ws) (auto simp: globParts_def)
  qed
qed

lemma hasPrefix_append: "hasPrefix w v \<longleftrightarrow> (\<exists>r. v = w @ r)"
  by (auto simp: hasPrefix_def) (metis append_take_drop_id)

lemma hasSuffix_append: "hasSuffix w v \<longleftrightarrow> (\<exists>g. v = g @ w)"
  unfolding hasSuffix_def hasPrefix_append by (metis rev_append rev_rev_ident)

lemma indexOf_first:
  "indexOf p v = Some n \<Longrightarrow> n + length p \<le> length v \<and> take (length p) (drop n v) = p"
  "v = g @ p @ r \<Longrightarrow> \<exists>n \<le> length g. indexOf p v = Some n"
proof -
  show "indexOf p v = Some n \<Longrightarrow> n + length p \<le> length v \<and> take (length p) (drop n v) = p"
    by (induction p v arbitrary: n rule: indexOf.induct)
      (auto simp: hasPrefix_def split: if_splits dest: arg_cong [where f = length])
  show "v = g @ p @ r \<Longrightarrow> \<exists>n \<le> length g. indexOf p v = Some n"
  proof (induction g arbitrary: v)
    case Nil
    have "hasPrefix p u \<Longrightarrow> indexOf p u = Some 0" for u by (cases u) (auto simp: hasPrefix_def)
    with Nil show ?case by (auto simp: hasPrefix_append)
  next
    case (Cons x g)
    then obtain n where "n \<le> length g" "indexOf p (g @ p @ r) = Some n" by blast
    with Cons.prems show ?case by auto
  qed
qed

lemma fits_greedy:
  "fits (p # q # ps) v \<longleftrightarrow> (case indexOf p v of None \<Rightarrow> False | Some n \<Rightarrow> fits (q # ps) (drop (n + length p) v))"
proof (cases "indexOf p v")
  case None
  with indexOf_first(2) show ?thesis by fastforce
next
  case (Some n)
  note n = indexOf_first(1) [OF Some]
  show ?thesis
  proof
    assume "fits (p # q # ps) v"
    then obtain g r where g: "v = g @ p @ r" "fits (q # ps) r" by auto
    from indexOf_first(2) [OF g(1)] Some have "n \<le> length g" by auto
    then have "drop (n + length p) v = drop (n + length p) (g @ p) @ r" using g(1) by simp
    with g(2) Some show "case indexOf p v of None \<Rightarrow> False | Some n \<Rightarrow> fits (q # ps) (drop (n + length p) v)"
      by (simp add: fits_append)
  next
    assume "case indexOf p v of None \<Rightarrow> False | Some n \<Rightarrow> fits (q # ps) (drop (n + length p) v)"
    with Some have "fits (q # ps) (drop (n + length p) v)" by simp
    moreover have "v = take n v @ p @ drop (n + length p) v"
      using n by (metis append_take_drop_id drop_drop add.commute)
    ultimately show "fits (p # q # ps) v" by (auto intro: exI [of _ "take n v"])
  qed
qed

lemma globMiddle_fits:
  fixes ps :: "string list"
  shows "(case globMiddle ps v of None \<Rightarrow> False | Some rest \<Rightarrow> l = [] \<or> hasSuffix l rest) \<longleftrightarrow> fits (ps @ [l]) v"
proof (induction ps arbitrary: v)
  case Nil
  show ?case by (auto simp: hasSuffix_append)
next
  case (Cons p ps)
  obtain q qs where "ps @ [l] = q # qs" by (cases "ps @ [l]") simp_all
  with Cons.IH show ?case by (auto simp: fits_greedy simp del: fits.simps split: option.split)
qed

text \<open>
  (C30) The matcher for glob patterns, which looks for the parts between the stars one after the other and never goes back, accepts exactly
  the names of the pattern, with each star standing for any text.\<close>

theorem globMatch_globs: "globMatch pattern value = globs pattern value"
proof -
  consider (star) "pattern = ''*''" | (plain) "length (splitOn CHR ''*'' pattern) = 1" "pattern \<noteq> ''*''"
    | (parts) w q ps where "splitOn CHR ''*'' pattern = w # q # ps" "pattern \<noteq> ''*''"
    by (cases "splitOn CHR ''*'' pattern" rule: remdups_adj.cases) auto
  then show ?thesis
  proof cases
    case star
    then show ?thesis by (auto simp: globMatch_def)
  next
    case plain
    then obtain w where "splitOn CHR ''*'' pattern = [w]" by (auto simp: length_Suc_conv)
    moreover from this have "w = pattern" using joinWith_splitOn [of "CHR ''*''" pattern] by simp
    ultimately show ?thesis using plain by (auto simp: globMatch_def globs_parts globParts_def)
  next
    case parts
    have "fits (q # ps) r = (case globMiddle (butlast (q # ps)) r of None \<Rightarrow> False
        | Some rest \<Rightarrow> last (w # q # ps) = [] \<or> hasSuffix (last (w # q # ps)) rest)" for r
      using globMiddle_fits [where ps = "butlast (q # ps)" and v = r and l = "last (w # q # ps)"]
        append_butlast_last_id [of "q # ps"] last_ConsR [of "q # ps" w] by (simp del: butlast.simps last.simps)
    moreover have "globMatch pattern value \<longleftrightarrow> hasPrefix w value \<and> (case globMiddle (butlast (q # ps)) (drop (length w) value) of
        None \<Rightarrow> False | Some rest \<Rightarrow> last (w # q # ps) = [] \<or> hasSuffix (last (w # q # ps)) rest)"
      using parts by (simp add: globMatch_def Let_def del: butlast.simps last.simps)
    ultimately have "globMatch pattern value \<longleftrightarrow> hasPrefix w value \<and> fits (q # ps) (drop (length w) value)" by simp
    also have "\<dots> \<longleftrightarrow> (\<exists>r. value = w @ r \<and> fits (q # ps) r)"
      unfolding hasPrefix_append by auto
    finally show ?thesis using parts by (simp add: globs_parts globParts_def)
  qed
qed

section \<open>The registry\<close>

interpretation by_length: comparison compareLength
  by unfold_locales (auto simp: compareLength_def)

lemma checkVariables_names:
  "checkVariables seen i vs = None \<Longrightarrow>
     distinct (map (\<lambda>v. matchMode v @ '':'' @ va_Name v) vs) \<and> (\<forall>v \<in> set vs. matchMode v @ '':'' @ va_Name v \<notin> set seen
       \<and> matchMode v \<in> {''exact'', ''prefix'', ''glob''})"
proof (induction seen i vs rule: checkVariables.induct)
  case (2 seen i v vs)
  then have "checkVariable seen i v = None" "checkVariables ((matchMode v @ '':'' @ va_Name v) # seen) (Suc i) vs = None"
    by (auto split: option.splits)
  with 2 show ?case by (auto simp: checkVariable_def split: if_splits)
qed simp

lemma find_after: "find P (xs @ ys) = (case find P xs of Some x \<Rightarrow> Some x | None \<Rightarrow> find P ys)"
  by (induction xs) auto

lemma indexExact_lookup:
  "map_of (foldl (\<lambda>m v. AList.update (va_Name v) v m) m vs) name =
     (case find (\<lambda>v. va_Name v = name) (rev vs) of Some v \<Rightarrow> Some v | None \<Rightarrow> map_of m name)"
proof (induction vs arbitrary: m)
  case (Cons v vs)
  then show ?case by (auto simp: update_conv find_after split: option.splits)
qed simp

lemma find_Some_unique:
  assumes "v \<in> set vs" "P v" "\<And>u. u \<in> set vs \<Longrightarrow> P u \<Longrightarrow> u = v"
  shows "find P vs = Some v"
proof (cases "find P vs")
  case None
  with assms(1,2) show ?thesis by (auto simp: find_None_iff)
next
  case (Some u)
  with find_In [OF Some] assms(3) show ?thesis by auto
qed

text \<open>
  Looking a variable up in a valid registry.  The entry with exactly that name is found when there is one, whatever patterns also
  match; otherwise a matching prefix or glob entry, of which none with a longer name matches; and
  nothing is found only when no entry matches.\<close>

lemma find_most_specific:
  assumes "Validate sv vs = None"
  shows "(\<forall>v \<in> set vs. matchMode v = ''exact'' \<and> va_Name v = name \<longrightarrow> Find vs name = Some v)
    \<and> (\<forall>v. Find vs name = Some v \<longrightarrow> v \<in> set vs \<and> matchesName v name
         \<and> (matchMode v \<noteq> ''exact'' \<longrightarrow> (\<forall>u \<in> set vs. matchesName u name \<longrightarrow> length (va_Name u) \<le> length (va_Name v))))
    \<and> (Find vs name = None \<longleftrightarrow> (\<forall>v \<in> set vs. \<not> matchesName v name))"
proof -
  let ?ex = "filter (\<lambda>v. \<not> isPattern v) vs"
  have ok: "checkVariables [] 0 vs = None" using assms by (simp add: Validate_def split: if_splits)
  note chk = checkVariables_names [OF ok]
  have mode: "\<not> isPattern v \<longleftrightarrow> matchMode v = ''exact''" if "v \<in> set vs" for v
    using chk that by (auto simp: isPattern_def)
  have uniq: "u = v" if "u \<in> set vs" "v \<in> set vs" "matchMode u = ''exact''" "matchMode v = ''exact''" "va_Name u = va_Name v" for u v
    using chk that unfolding distinct_map inj_on_def by metis
  have exact: "map_of (indexExact vs) name = find (\<lambda>v. va_Name v = name) (rev ?ex)"
    by (simp add: indexExact_def indexExact_lookup split: option.splits)
  have hit: "map_of (indexExact vs) name = Some v \<longleftrightarrow> v \<in> set vs \<and> matchMode v = ''exact'' \<and> va_Name v = name" for v
  proof
    assume "map_of (indexExact vs) name = Some v"
    then show "v \<in> set vs \<and> matchMode v = ''exact'' \<and> va_Name v = name"
      using find_In [of "\<lambda>v. va_Name v = name" "rev ?ex" v] mode by (auto simp: exact)
  next
    assume "v \<in> set vs \<and> matchMode v = ''exact'' \<and> va_Name v = name"
    then show "map_of (indexExact vs) name = Some v"
      unfolding exact using mode uniq by (intro find_Some_unique) auto
  qed
  have matches_exact: "matchesName v name \<longleftrightarrow> va_Name v = name" if "matchMode v = ''exact''" for v
    using that by (simp add: matchesName_def)
  show ?thesis
  proof (cases "map_of (indexExact vs) name")
    case None
    have none: "\<not> matchesName v name" if "v \<in> set vs" "\<not> isPattern v" for v
      using that None hit [of v] mode matches_exact by auto
    have F: "Find vs name = find (\<lambda>v. matchesName v name) (indexPatterns vs)" using None by (simp add: Find_def)
    have set: "set (indexPatterns vs) = {v \<in> set vs. isPattern v}"
      by (simp add: indexPatterns_def by_length.set_sortStable)
    have "v \<in> set vs \<and> matchesName v name \<and> (\<forall>u \<in> set vs. matchesName u name \<longrightarrow> length (va_Name u) \<le> length (va_Name v))"
      if "Find vs name = Some v" for v
    proof -
      have v: "v \<in> set (indexPatterns vs)" "matchesName v name"
        using find_In [of "\<lambda>v. matchesName v name"] that unfolding F by auto
      have "length (va_Name u) \<le> length (va_Name v)" if u: "u \<in> set vs" "matchesName u name" for u
      proof -
        from u none have "u \<in> set (indexPatterns vs)" by (auto simp: set)
        moreover have "sorted_wrt (\<lambda>x y. compareLength x y \<le> 0) (indexPatterns vs)"
          by (simp add: indexPatterns_def by_length.sorted_sortStable)
        ultimately have "compareLength v u \<le> 0"
          using by_length.find_sorted [OF _ \<open>Find vs name = Some v\<close> [unfolded F]] u(2) by blast
        then show ?thesis by (simp add: compareLength_def)
      qed
      with v set show ?thesis by auto
    qed
    moreover have "Find vs name = None \<longleftrightarrow> (\<forall>v \<in> set vs. \<not> matchesName v name)"
      unfolding F find_None_iff set using none by auto
    ultimately show ?thesis using None hit by auto
  next
    case (Some v)
    with hit have v: "v \<in> set vs" "matchMode v = ''exact''" "va_Name v = name" by auto
    moreover have "Find vs name = Some v" using Some by (simp add: Find_def)
    ultimately show ?thesis using uniq matches_exact by auto
  qed
qed

lemma find_most_specific_witness:
  "let v = (\<lambda>n m. \<lparr>va_Name = n, va_Match = m, va_Scope = ''s'', va_Direction = ''in'', va_Category = ''c'', va_Stability = ''s'',
        va_Secret = False, va_AllowedIn = [''code''], va_Owner = ''o'', va_Rationale = ''r''\<rparr>)
   in Find [v ''GF_*'' ''glob'', v ''GF_PATHS'' []] ''GF_PATHS'' = Some (v ''GF_PATHS'' [])"
proof -
  let ?v = "\<lambda>n m. \<lparr>va_Name = n, va_Match = m, va_Scope = ''s'', va_Direction = ''in'', va_Category = ''c'', va_Stability = ''s'',
        va_Secret = False, va_AllowedIn = [''code''], va_Owner = ''o'', va_Rationale = ''r''\<rparr>"
  have "Validate SchemaVersion [?v ''GF_*'' ''glob'', ?v ''GF_PATHS'' []] = None" by code_simp
  from find_most_specific [OF this, of "''GF_PATHS''"] show ?thesis by (simp add: matchMode_def)
qed

section \<open>The environment of a process\<close>

text \<open>What a process finds under a name in its list of \<open>name=value\<close> items.\<close>

definition isItem :: "string \<Rightarrow> string \<Rightarrow> bool" where
  "isItem k item = (CHR ''='' \<in> set item \<and> fst (cut CHR ''='' item) = k)"

definition envGet :: "string list \<Rightarrow> string \<Rightarrow> string option" where
  "envGet env k = map_option (\<lambda>item. fst (snd (cut CHR ''='' item))) (find (isItem k) env)"

text \<open>The value of a name in the last of some files that defines it.\<close>

definition lastDefined ::
  "(string \<Rightarrow> string + string) \<Rightarrow> (string \<Rightarrow> string + string option) \<Rightarrow> string \<Rightarrow> string list \<Rightarrow> string \<Rightarrow> string option \<Rightarrow> string option" where
  "lastDefined unquote readFile root names k acc =
     foldl (\<lambda>acc name. case ParseFile unquote readFile (pathJoin root name) of
        Inr m \<Rightarrow> (case map_of m k of Some v \<Rightarrow> Some v | None \<Rightarrow> acc) | Inl err \<Rightarrow> acc) acc names"

definition plainKeys :: "(string, string) gomap \<Rightarrow> bool" where
  "plainKeys m = (distinct (map fst m) \<and> (\<forall>k \<in> fst ` set m. CHR ''='' \<notin> set k))"

lemma plainKeys_update: "plainKeys m \<Longrightarrow> CHR ''='' \<notin> set k \<Longrightarrow> plainKeys (AList.update k v m)"
  by (simp add: plainKeys_def distinct_update dom_update)

lemma trimSpace_chars: "c \<in> set (trimSpace s) \<Longrightarrow> c \<in> set s"
  unfolding trimSpace_def trimBy_def by (metis set_dropWhileD set_rev)

lemma parseLine_key: "parseLine unquote n raw = Inr (Some (k, v)) \<Longrightarrow> CHR ''='' \<notin> set k"
  by (auto simp: parseLine_def cut_def Let_def split: if_splits sum.splits dest!: trimSpace_chars set_takeWhileD)

lemma parseLines_keys: "parseLines unquote n raws m = Inr m' \<Longrightarrow> plainKeys m \<Longrightarrow> plainKeys m'"
proof (induction raws arbitrary: n m)
  case (Cons raw raws)
  then show ?case
    by (auto split: sum.splits option.splits dest!: parseLine_key intro: Cons.IH plainKeys_update)
qed simp

lemma ParseFile_keys: "ParseFile unquote readFile path = Inr m \<Longrightarrow> plainKeys m"
proof -
  have "plainKeys []" by (simp add: plainKeys_def)
  then show "ParseFile unquote readFile path = Inr m \<Longrightarrow> plainKeys m"
    by (auto simp: ParseFile_def split: sum.splits option.splits dest: parseLines_keys)
qed

lemma copyInto_lookup:
  assumes "distinct (map fst vs)"
  shows "map_of (copyInto m vs) k = (case map_of vs k of Some v \<Rightarrow> Some v | None \<Rightarrow> map_of m k)"
  using assms unfolding copyInto_def
proof (induction vs arbitrary: m)
  case (Cons p vs)
  then show ?case by (cases p) (auto simp: update_conv map_of_eq_None_iff split: option.splits dest: map_of_SomeD intro: rev_image_eqI)
qed simp

lemma copyInto_keys: "plainKeys m \<Longrightarrow> \<forall>(k, v) \<in> set vs. CHR ''='' \<notin> set k \<Longrightarrow> plainKeys (copyInto m vs)"
  unfolding copyInto_def by (induction vs arbitrary: m) (auto intro: plainKeys_update)

lemma mergeLoop_spec:
  "mergeLoop unquote readFile root names m = Inr merged \<Longrightarrow> plainKeys m \<Longrightarrow>
     plainKeys merged \<and> map_of merged k = lastDefined unquote readFile root names k (map_of m k)"
proof (induction unquote readFile root names m rule: mergeLoop.induct)
  case (2 unquote readFile root name names m)
  then obtain vs where vs: "ParseFile unquote readFile (pathJoin root name) = Inr vs"
      "mergeLoop unquote readFile root names (copyInto m vs) = Inr merged"
    by (auto split: sum.splits)
  note keys = ParseFile_keys [OF vs(1)]
  have "plainKeys (copyInto m vs)" using 2(3) keys by (intro copyInto_keys) (auto simp: plainKeys_def)
  with 2(1) vs keys show ?case by (simp add: lastDefined_def copyInto_lookup plainKeys_def)
qed (simp add: lastDefined_def)

lemma item_key: "CHR ''='' \<notin> set k \<Longrightarrow> isItem j (k @ ''='' @ v) \<longleftrightarrow> j = k"
  "CHR ''='' \<notin> set k \<Longrightarrow> fst (snd (cut CHR ''='' (k @ ''='' @ v))) = v"
  using cut_append [of "CHR ''=''" k v] by (auto simp: isItem_def)

lemma find_items:
  "distinct ks \<Longrightarrow> \<forall>k \<in> set ks. CHR ''='' \<notin> set k \<Longrightarrow>
     find (isItem j) (map (\<lambda>k. k @ ''='' @ f k) ks) = (if j \<in> set ks then Some (j @ ''='' @ f j) else None)"
  by (induction ks) (auto simp: item_key simp del: append_Cons)

text \<open>
  Which value a variable has in a process that is started with the environment files of the application: the one it was given
  by its parent; otherwise the one of the last file, in the order the files are named, that defines it; otherwise none.\<close>

lemma environment_precedence:
  assumes "MergeFiles unquote readFile root names = Inr merged"
  shows "envGet (AppendMissing base merged) k =
    (case envGet base k of Some v \<Rightarrow> Some v | None \<Rightarrow> lastDefined unquote readFile root names k None)"
proof -
  have m: "plainKeys merged" "map_of merged k = lastDefined unquote readFile root names k None"
    using mergeLoop_spec [of unquote readFile root names "[]" merged k] assms by (simp_all add: MergeFiles_def plainKeys_def)
  let ?new = "filter (\<lambda>k. \<not> list_ex (isItem k) base) (sort (remdups (map fst merged)))"
  have app: "AppendMissing base merged = base @ map (\<lambda>k. k @ ''='' @ the (map_of merged k)) ?new"
    unfolding AppendMissing_def isItem_def by simp
  have new: "find (isItem k) (map (\<lambda>k. k @ ''='' @ the (map_of merged k)) ?new) =
      (if k \<in> set ?new then Some (k @ ''='' @ the (map_of merged k)) else None)"
    using m(1) by (intro find_items) (auto simp: plainKeys_def)
  show ?thesis
  proof (cases "find (isItem k) base")
    case None
    then have "\<not> list_ex (isItem k) base" by (auto simp: find_None_iff list_ex_iff)
    then have "k \<in> set ?new \<longleftrightarrow> map_of merged k \<noteq> None" by (auto simp: map_of_eq_None_iff)
    moreover have "CHR ''='' \<notin> set k" if "map_of merged k \<noteq> None"
      using m(1) that by (auto simp: plainKeys_def map_of_eq_None_iff)
    ultimately show ?thesis
      using None m(2) item_key(2) [of k] by (auto simp: app envGet_def find_after new simp del: append_Cons)
  qed (simp add: app envGet_def find_after)
qed

lemma environment_precedence_witness:
  "let readFile = (\<lambda>p. if p = ''/app/.env'' then Inr (Some ''A=1'') else Inr None)
   in \<exists>merged. MergeFiles Inr readFile ''/app'' [''.env'', ''.env.local''] = Inr merged
      \<and> envGet (AppendMissing [''B=2''] merged) ''A'' = lastDefined Inr readFile ''/app'' [''.env'', ''.env.local''] ''A'' None
      \<and> lastDefined Inr readFile ''/app'' [''.env'', ''.env.local''] ''A'' None = Some ''1''"
proof -
  let ?r = "\<lambda>p. if p = ''/app/.env'' then Inr (Some ''A=1'') else Inr None"
  have "MergeFiles Inr ?r ''/app'' [''.env'', ''.env.local''] = Inr [(''A'', ''1'')]" by code_simp
  moreover have "envGet [''B=2''] ''A'' = None" "lastDefined Inr ?r ''/app'' [''.env'', ''.env.local''] ''A'' None = Some ''1''"
    by code_simp+
  ultimately show ?thesis
    using environment_precedence [of Inr ?r "''/app''" "[''.env'', ''.env.local'']" "[(''A'', ''1'')]" "[''B=2'']" "''A''"] by simp
qed

section \<open>Warnings about secrets\<close>

datatype secretOp = Missing "missingSecret list" | Flush

fun secretStep :: "secretOp \<Rightarrow> secretsState \<Rightarrow> secretsState \<times> warning" where
  "secretStep (Missing ms) s = logMissingSecrets ms s"
| "secretStep Flush s = FlushMissingSecretsWarnings s"

text \<open>A run, with the fields of each warning that went out.\<close>

fun secretRun :: "secretOp list \<Rightarrow> secretsState \<Rightarrow> secretsState \<times> string list list" where
  "secretRun [] s = (s, [])"
| "secretRun (p # ps) s =
     (let (s', w) = secretStep p s; (s'', ws) = secretRun ps s'
      in (s'', (case w of None \<Rightarrow> ws | Some (fs, ks) \<Rightarrow> fs # ws)))"

fun missingIn :: "secretOp \<Rightarrow> string set" where
  "missingIn (Missing ms) = fst ` set ms"
| "missingIn Flush = {}"

definition secretsOK :: "secretsState \<Rightarrow> bool" where
  "secretsOK s = (distinct (map fst (ss_pending s)) \<and> fst ` set (ss_pending s) \<inter> set (ss_warned s) = {}
     \<and> (ss_flushed s \<longrightarrow> ss_pending s = []))"

definition warnedFields :: "warning \<Rightarrow> string list" where
  "warnedFields w = (case w of None \<Rightarrow> [] | Some (fs, ks) \<Rightarrow> fs)"

lemma collect_spec:
  assumes "distinct (map fst (ss_pending s))" "fst ` set (ss_pending s) \<inter> set (ss_warned s) = {}" "collectMissingSecrets s = (s', w)"
  shows "ss_pending s' = [] \<and> set (ss_warned s') = set (ss_warned s) \<union> fst ` set (ss_pending s)
    \<and> set (warnedFields w) = fst ` set (ss_pending s) \<and> distinct (warnedFields w) \<and> ss_flushed s' = ss_flushed s"
proof -
  have fresh: "filter (\<lambda>(field, keys). field \<notin> set (ss_warned s)) (ss_pending s) = ss_pending s"
    using assms(2) by (force simp: filter_id_conv)
  have old: "filter (\<lambda>(field, keys). field \<in> set (ss_warned s)) (ss_pending s) = []"
    using assms(2) by (force simp: filter_empty_conv)
  have "collectMissingSecrets s = (if ss_pending s = [] then (s, None)
      else (s\<lparr>ss_warned := map fst (ss_pending s) @ ss_warned s, ss_pending := []\<rparr>,
            Some (sort (map fst (ss_pending s)), sort (remdups (concat (map snd (ss_pending s)))))))"
    unfolding collectMissingSecrets_def fresh old Let_def by simp
  with assms(3) have "if ss_pending s = [] then s' = s \<and> w = None
      else s' = s\<lparr>ss_warned := map fst (ss_pending s) @ ss_warned s, ss_pending := []\<rparr> \<and> warnedFields w = sort (map fst (ss_pending s))"
    by (auto simp: warnedFields_def split: if_splits)
  with assms(1) show ?thesis by (cases "ss_pending s = []") (simp_all add: warnedFields_def Un_commute)
qed

lemma remember_fold:
  assumes "distinct (map fst (ss_pending s))" "fst ` set (ss_pending s) \<inter> set (ss_warned s) = {}"
  shows "let s' = foldl rememberSecret s ms
    in distinct (map fst (ss_pending s')) \<and> fst ` set (ss_pending s') \<inter> set (ss_warned s) = {} \<and> ss_warned s' = ss_warned s
       \<and> ss_flushed s' = ss_flushed s \<and> fst ` set (ss_pending s') \<union> set (ss_warned s) = fst ` set (ss_pending s) \<union> set (ss_warned s) \<union> fst ` set ms"
  using assms
proof (induction ms arbitrary: s)
  case (Cons p ms)
  let ?s = "rememberSecret s p"
  have "distinct (map fst (ss_pending ?s))" "fst ` set (ss_pending ?s) \<inter> set (ss_warned s) = {}" "ss_warned ?s = ss_warned s"
      "ss_flushed ?s = ss_flushed s"
      "fst ` set (ss_pending ?s) \<union> set (ss_warned s) = insert (fst p) (fst ` set (ss_pending s) \<union> set (ss_warned s))"
    using Cons.prems by (auto simp: rememberSecret_def distinct_update dom_update map_of_eq_None_iff)
  with Cons.IH [of ?s] show ?case by (simp add: Let_def)
qed simp

lemma secretStep_spec:
  assumes "secretsOK s" "secretStep p s = (s', w)"
  shows "secretsOK s' \<and> distinct (warnedFields w) \<and> set (warnedFields w) \<inter> set (ss_warned s) = {}
    \<and> set (ss_warned s') = set (ss_warned s) \<union> set (warnedFields w)
    \<and> fst ` set (ss_pending s') \<union> set (ss_warned s') = fst ` set (ss_pending s) \<union> set (ss_warned s) \<union> missingIn p
    \<and> ss_flushed s' = (ss_flushed s \<or> p = Flush)"
proof (cases p)
  case Flush
  then show ?thesis
    using assms collect_spec [of "s\<lparr>ss_flushed := True\<rparr>" s' w]
    by (auto simp: secretsOK_def FlushMissingSecretsWarnings_def)
next
  case (Missing ms)
  let ?s = "foldl rememberSecret s ms"
  have f: "distinct (map fst (ss_pending ?s))" "fst ` set (ss_pending ?s) \<inter> set (ss_warned s) = {}" "ss_warned ?s = ss_warned s"
      "ss_flushed ?s = ss_flushed s" "fst ` set (ss_pending ?s) \<union> set (ss_warned s) = fst ` set (ss_pending s) \<union> set (ss_warned s) \<union> fst ` set ms"
    using remember_fold [of s ms] assms(1) by (simp_all add: secretsOK_def Let_def)
  consider (now) "ss_flushed ?s" "collectMissingSecrets ?s = (s', w)" | (later) "\<not> ss_flushed ?s" "s' = ?s" "w = None"
    | (none) "ms = []" "s' = s" "w = None"
    using assms(2) Missing by (auto simp: logMissingSecrets_def rememberMissingSecrets_def Let_def split: if_splits)
  then show ?thesis
  proof cases
    case now
    have "fst ` set (ss_pending ?s) \<inter> set (ss_warned ?s) = {}" using f(2,3) by simp
    note c = collect_spec [OF f(1) this now(2)]
    with f Missing show ?thesis by (simp add: secretsOK_def Un_commute Int_commute)
  next
    case later
    with f Missing show ?thesis by (simp add: secretsOK_def warnedFields_def)
  next
    case none
    with assms(1) Missing show ?thesis by (simp add: warnedFields_def)
  qed
qed

text \<open>
  Missing secrets are reported once.  However often secrets are populated and whenever the warnings are released, no field is named in two
  warnings or twice in one, no field is named that was not missing, and once the warnings have been released every field found missing so far
  has been named.\<close>

lemma missing_secret_warned_once:
  assumes "secretRun ops \<lparr>ss_warned = [], ss_pending = [], ss_flushed = False\<rparr> = (s, ws)"
  shows "distinct (concat ws) \<and> set (concat ws) \<subseteq> \<Union> (missingIn ` set ops)
    \<and> (Flush \<in> set ops \<longrightarrow> set (concat ws) = \<Union> (missingIn ` set ops))"
proof -
  have run: "secretsOK s' \<and> distinct (concat ws) \<and> set (concat ws) \<inter> set (ss_warned s0) = {}
      \<and> set (ss_warned s') = set (ss_warned s0) \<union> set (concat ws)
      \<and> fst ` set (ss_pending s') \<union> set (ss_warned s') = fst ` set (ss_pending s0) \<union> set (ss_warned s0) \<union> \<Union> (missingIn ` set ops)
      \<and> ss_flushed s' = (ss_flushed s0 \<or> Flush \<in> set ops)"
    if "secretsOK s0" "secretRun ops s0 = (s', ws)" for s0 s' ws
    using that
  proof (induction ops arbitrary: s0 s' ws)
    case (Cons p ps)
    obtain s1 w where p: "secretStep p s0 = (s1, w)" by (cases "secretStep p s0")
    obtain s2 vs where ps: "secretRun ps s1 = (s2, vs)" by (cases "secretRun ps s1")
    have ws: "s' = s2" "concat ws = warnedFields w @ concat vs"
      using Cons.prems(2) p ps by (auto simp: warnedFields_def split: option.splits)
    note one = secretStep_spec [OF Cons.prems(1) p]
    then have "secretsOK s1" by simp
    note rest = Cons.IH [OF this ps]
    have "set (warnedFields w) \<subseteq> set (ss_warned s1)" using one by blast
    then have "distinct (concat ws)" "set (concat ws) \<inter> set (ss_warned s0) = {}" using one rest ws(2) by auto
    moreover have "set (ss_warned s') = set (ss_warned s0) \<union> set (concat ws)" using one rest ws by auto
    moreover have "fst ` set (ss_pending s') \<union> set (ss_warned s') = fst ` set (ss_pending s0) \<union> set (ss_warned s0) \<union> \<Union> (missingIn ` set (p # ps))"
    proof -
      have "fst ` set (ss_pending s') \<union> set (ss_warned s') = (fst ` set (ss_pending s1) \<union> set (ss_warned s1)) \<union> \<Union> (missingIn ` set ps)"
        using rest ws(1) by blast
      also have "fst ` set (ss_pending s1) \<union> set (ss_warned s1) = fst ` set (ss_pending s0) \<union> set (ss_warned s0) \<union> missingIn p"
        using one by blast
      finally show ?thesis by auto
    qed
    ultimately show ?case using one rest ws(1) by auto
  qed simp
  have "secretsOK \<lparr>ss_warned = [], ss_pending = [], ss_flushed = False\<rparr>" by (simp add: secretsOK_def)
  from run [OF this assms] show ?thesis by (auto simp: secretsOK_def)
qed

lemma missing_secret_warned_once_witness:
  "let ops = [Missing [(''ApiKey'', [''ApiKey'', ''API_KEY''])], Flush, Missing [(''ApiKey'', [''ApiKey'', ''API_KEY''])]];
       ws = snd (secretRun ops \<lparr>ss_warned = [], ss_pending = [], ss_flushed = False\<rparr>)
   in distinct (concat ws) \<and> set (concat ws) = \<Union> (missingIn ` set ops) \<and> ws = [[''ApiKey'']]"
proof -
  let ?ops = "[Missing [(''ApiKey'', [''ApiKey'', ''API_KEY''])], Flush, Missing [(''ApiKey'', [''ApiKey'', ''API_KEY''])]]"
  let ?i = "\<lparr>ss_warned = [], ss_pending = [], ss_flushed = False\<rparr>"
  have "snd (secretRun ?ops ?i) = [[''ApiKey'']]" by code_simp
  with missing_secret_warned_once [of ?ops "fst (secretRun ?ops ?i)" "snd (secretRun ?ops ?i)"] show ?thesis by simp
qed

end
