(* ===== verification/ParseRoutes.thy ===== *)
theory ParseRoutes
  imports Router
begin

text \<open>
  What the parser of \<open>internal/parse/parser.go\<close> reads out of a \<open>scenery:\<close> comment: the directive with its options, fields and
  tags, the methods, the targets of a middleware, the parameters of a route path; and the check that two routes can
  match the same request, which guards the endpoints the framework generates.  The check and the parameters are related to the
  run-time route table of \<open>Router\<close>, which matches real requests.
\<close>

section \<open>Definitions\<close>

subsection \<open>Directives\<close>

text \<open>\<open>options\<close> holds the keys that are set, \<open>fields\<close> and the other maps the entries.\<close>

record directive =
  dir_name :: string
  dir_options :: "string list"
  dir_fields :: "(string, string) gomap"
  dir_tags :: "string list"

definition directiveBody :: "string \<Rightarrow> string option" where
  "directiveBody comment =
     (let t = trimSpace (trimPrefix ''//'' comment)
      in if hasPrefix ''scenery:'' t then Some (trimPrefix ''scenery:'' t) else None)"

definition directivePart :: "directive \<Rightarrow> string \<Rightarrow> directive" where
  "directivePart dir part =
     (if hasPrefix ''tag:'' part \<and> trimPrefix ''tag:'' part \<noteq> []
      then (if trimPrefix ''tag:'' part \<in> set (dir_tags dir) then dir
            else dir\<lparr>dir_tags := dir_tags dir @ [trimPrefix ''tag:'' part]\<rparr>)
      else case cut CHR ''='' part of
             (key, v, True) \<Rightarrow> dir\<lparr>dir_fields := AList.update key v (dir_fields dir)\<rparr>
           | _ \<Rightarrow> dir\<lparr>dir_options := List.insert part (dir_options dir)\<rparr>)"

text \<open>The lines of a comment group; an empty list is also the missing group.\<close>

fun parseDirective :: "string list \<Rightarrow> directive option" where
  "parseDirective [] = None"
| "parseDirective (comment # comments) =
     (case directiveBody comment of
        None \<Rightarrow> parseDirective comments
      | Some body \<Rightarrow>
        (case GoPrelude.fields body of
           [] \<Rightarrow> None
         | nm # parts \<Rightarrow>
           Some (foldl directivePart \<lparr>dir_name = nm, dir_options = [], dir_fields = [], dir_tags = []\<rparr> parts)))"

definition dirOption :: "directive \<Rightarrow> string \<Rightarrow> bool" where
  "dirOption dir key = (key \<in> set (dir_options dir))"

definition dirField :: "directive \<Rightarrow> string \<Rightarrow> string" where
  "dirField dir key = (case map_of (dir_fields dir) key of None \<Rightarrow> [] | Some v \<Rightarrow> v)"

subsection \<open>Paths, methods, targets\<close>

text \<open>The names of the parameters of a path, in order; \<open>Inl\<close> is the error text.\<close>

fun parsePathSegments :: "string list \<Rightarrow> string + string list" where
  "parsePathSegments [] = Inr []"
| "parsePathSegments (segment # rest) =
     (if segment = [] then parsePathSegments rest
      else if hd segment = CHR '':'' \<or> hd segment = CHR ''*''
      then (if tl segment = [] then Inl (''invalid path segment '' @ goQuote segment)
            else case parsePathSegments rest of Inl e \<Rightarrow> Inl e | Inr names \<Rightarrow> Inr (tl segment # names))
      else if hd segment = CHR ''!'' then Inl ''fallback paths are not supported in phase 1''
      else parsePathSegments rest)"

definition parsePath :: "string \<Rightarrow> string + string list" where
  "parsePath path =
     (if path = [] then Inr [] else parsePathSegments (splitOn CHR ''/'' (trimPrefix ''/'' path)))"

definition parseMethods :: "string \<Rightarrow> string list" where
  "parseMethods v =
     (if v = [] then []
      else filter (\<lambda>part. part \<noteq> []) (map (\<lambda>part. trimSpace (toUpper part)) (splitOn CHR '','' v)))"

datatype Selector = SelectorAll | SelectorTag string

fun parseTargets :: "string list \<Rightarrow> string + Selector list" where
  "parseTargets [] = Inr []"
| "parseTargets (part # parts) =
     (let part = trimSpace part;
          more = (\<lambda>target. case parseTargets parts of Inl e \<Rightarrow> Inl e | Inr ts \<Rightarrow> Inr (target # ts))
      in if part = [] then Inl ''invalid empty target selector''
         else if part = ''all'' then more SelectorAll
         else if hasPrefix ''tag:'' part
         then (let tag = trimSpace (trimPrefix ''tag:'' part)
               in if tag = [] then Inl (''invalid tag selector '' @ goQuote part) else more (SelectorTag tag))
         else Inl (''unsupported target selector '' @ goQuote part))"

definition parseMiddlewareTargets :: "string \<Rightarrow> string + Selector list" where
  "parseMiddlewareTargets v =
     (if trimSpace v = [] then Inl ''missing target selector'' else parseTargets (splitOn CHR '','' v))"

subsection \<open>Routes that can match the same request\<close>

record routeOwner =
  ow_id :: string
  ow_path :: string
  ow_methods :: "string list"

definition cleanRoutePath :: "string \<Rightarrow> string" where
  "cleanRoutePath path =
     (let path = trimSuffix ''/'' (trimSpace path)
      in if path = [] then ''/'' else if \<not> hasPrefix ''/'' path then CHR ''/'' # path else path)"

definition routePatternSegments :: "string \<Rightarrow> string list" where
  "routePatternSegments path =
     (let path = cleanRoutePath path
      in if path = ''/'' then [] else splitOn CHR ''/'' (trimPrefix ''/'' path))"

definition routeSegmentWildcard :: "string \<Rightarrow> bool" where
  "routeSegmentWildcard segment = hasPrefix ''*'' segment"

definition routeSegmentParam :: "string \<Rightarrow> bool" where
  "routeSegmentParam segment = hasPrefix '':'' segment"

definition routeSegmentsCanMatchSameValue :: "string \<Rightarrow> string \<Rightarrow> bool" where
  "routeSegmentsCanMatchSameValue left right = (routeSegmentParam left \<or> routeSegmentParam right \<or> left = right)"

fun routeSegmentsOverlap :: "string list \<Rightarrow> string list \<Rightarrow> bool" where
  "routeSegmentsOverlap [] right = (right = [] \<or> routeSegmentWildcard (hd right))"
| "routeSegmentsOverlap (l # left) [] = routeSegmentWildcard l"
| "routeSegmentsOverlap (l # left) (r # right) =
     (if routeSegmentWildcard l \<or> routeSegmentWildcard r then True
      else if \<not> routeSegmentsCanMatchSameValue l r then False
      else routeSegmentsOverlap left right)"

definition routePathsOverlap :: "string \<Rightarrow> string \<Rightarrow> bool" where
  "routePathsOverlap left right = routeSegmentsOverlap (routePatternSegments left) (routePatternSegments right)"

definition routeMethodsCollide :: "string list \<Rightarrow> string list \<Rightarrow> bool" where
  "routeMethodsCollide a b =
     (a = [] \<or> b = []
      \<or> list_ex (\<lambda>left. list_ex (\<lambda>right.
          let left = toUpper (trimSpace left); right = toUpper (trimSpace right)
          in left = [] \<or> right = [] \<or> left = ''*'' \<or> right = ''*'' \<or> left = right) b) a)"

definition routeOwnersCollide :: "routeOwner \<Rightarrow> routeOwner \<Rightarrow> bool" where
  "routeOwnersCollide left right =
     (if \<not> routePathsOverlap (ow_path left) (ow_path right) then False
      else routeMethodsCollide (ow_methods left) (ow_methods right))"

definition routePathHasPrefix :: "string \<Rightarrow> string \<Rightarrow> bool" where
  "routePathHasPrefix path prefix =
     (let path = cleanRoutePath path; prefix = cleanRoutePath prefix
      in path = prefix \<or> hasPrefix (prefix @ ''/'') path)"

definition generatedEndpointReservedRoutePrefixes :: "string list" where
  "generatedEndpointReservedRoutePrefixes = [''/__scenery'', ''/api'', ''/sync'']"

definition generatedEndpointReservedRoutePrefix :: "string \<Rightarrow> string" where
  "generatedEndpointReservedRoutePrefix path =
     (case find (routePathHasPrefix path) generatedEndpointReservedRoutePrefixes of None \<Rightarrow> [] | Some p \<Rightarrow> p)"

section \<open>Segments of the parser and of the route table\<close>

text \<open>A path with neither spaces at its ends nor empty segments, its single leading slash apart.\<close>

definition plainRoute :: "string \<Rightarrow> bool" where
  "plainRoute path = (trimSpace path = path \<and> [] \<notin> set (routePatternSegments path))"

lemma hasPrefix_single: "hasPrefix [c] s \<longleftrightarrow> s \<noteq> [] \<and> hd s = c"
  by (cases s) (auto simp: hasPrefix_def)

lemma hasSuffix_single: "hasSuffix [c] s \<longleftrightarrow> s \<noteq> [] \<and> last s = c"
  by (cases s rule: rev_cases) (auto simp: hasSuffix_def hasPrefix_def)

lemma splitOn_ends:
  "hd (splitOn c t) = [] \<longleftrightarrow> t = [] \<or> hd t = c"
  "last (splitOn c t) = [] \<longleftrightarrow> t = [] \<or> last t = c"
proof -
  show "hd (splitOn c t) = [] \<longleftrightarrow> t = [] \<or> hd t = c"
    by (cases t) (auto split: list.split)
  show "last (splitOn c t) = [] \<longleftrightarrow> t = [] \<or> last t = c"
    by (induction t) (auto simp: splitOn_single_Nil split: list.split if_splits)
qed

lemma trimSlash_fixed: "t \<noteq> [] \<Longrightarrow> hd t \<noteq> CHR ''/'' \<Longrightarrow> last t \<noteq> CHR ''/'' \<Longrightarrow> trimSet ''/'' t = t"
  by (simp add: trimSet_def trimBy_fixed)

lemma trimSlash_Cons: "trimSet ''/'' (CHR ''/'' # t) = trimSet ''/'' t"
  by (simp add: trimSet_def trimBy_def)

lemma trimSlash_snoc: "trimSet ''/'' (t @ ''/'') = trimSet ''/'' t"
proof -
  let ?p = "\<lambda>c. c \<in> set ''/''"
  have "dropWhile ?p (t @ ''/'') = (if dropWhile ?p t = [] then [] else dropWhile ?p t @ ''/'')"
    by (induction t) auto
  then show ?thesis by (simp add: trimSet_def trimBy_def del: dropWhile_eq_Nil_conv)
qed

lemma trimSlash_clean: "trimSpace path = path \<Longrightarrow> trimSet ''/'' (cleanRoutePath path) = trimSet ''/'' path"
  by (cases path rule: rev_cases)
    (auto simp: cleanRoutePath_def trimSuffix_def hasSuffix_single trimSlash_Cons trimSlash_snoc Let_def)

lemma clean_slash: "hasPrefix ''/'' (cleanRoutePath path)"
  by (simp add: cleanRoutePath_def Let_def hasPrefix_def)

lemma plain_split: 
  assumes "plainRoute path"
  shows "splitRoutePath path = routePatternSegments path"
proof -
  obtain t where t: "cleanRoutePath path = CHR ''/'' # t"
    using clean_slash [of path] by (cases "cleanRoutePath path") (auto simp: hasPrefix_single)
  have s: "trimSet ''/'' path = trimSet ''/'' t"
    using trimSlash_clean [of path] assms by (simp add: plainRoute_def t trimSlash_Cons)
  show ?thesis
  proof (cases "t = []")
    case True
    have "trimSet ''/'' path = []" unfolding s True by (simp add: trimSet_def trimBy_def)
    with True show ?thesis by (simp add: splitRoutePath_def routePatternSegments_def t)
  next
    case False
    then have segs: "routePatternSegments path = splitOn CHR ''/'' t"
      by (simp add: routePatternSegments_def t trimPrefix_def hasPrefix_def)
    with assms have "[] \<notin> set (splitOn CHR ''/'' t)" by (simp add: plainRoute_def)
    then have "hd (splitOn CHR ''/'' t) \<noteq> []" "last (splitOn CHR ''/'' t) \<noteq> []"
      by (metis hd_in_set splitOn_ne, metis last_in_set splitOn_ne)
    with False have "trimSet ''/'' t = t" by (intro trimSlash_fixed) (auto simp: splitOn_ends)
    with False show ?thesis by (simp add: splitRoutePath_def s segs)
  qed
qed

section \<open>The overlap check decides whether a request matches both routes\<close>

text \<open>Matching without the parameters.\<close>

fun segMatches :: "string list \<Rightarrow> string list \<Rightarrow> bool" where
  "segMatches [] req = (req = [])"
| "segMatches (s # ss) req =
     (routeSegmentWildcard s
      \<or> (\<exists>r rs. req = r # rs \<and> (routeSegmentParam s \<or> r = s) \<and> segMatches ss rs))"

definition requestWords :: "string list \<Rightarrow> bool" where
  "requestWords ws = (\<forall>w \<in> set ws. w \<noteq> [] \<and> CHR ''/'' \<notin> set w)"

lemma requestWords_simps [simp]:
  "requestWords []"
  "requestWords (w # ws) \<longleftrightarrow> w \<noteq> [] \<and> CHR ''/'' \<notin> set w \<and> requestWords ws"
  by (auto simp: requestWords_def)

lemma segment_kinds:
  "seg_kind (segmentOf w) = (if routeSegmentParam w then routeParam else if routeSegmentWildcard w then routeWildcard else routeLiteral)"
  "seg_kind (segmentOf w) = routeLiteral \<Longrightarrow> seg_value (segmentOf w) = w"
  "routeSegmentParam w \<Longrightarrow> \<not> routeSegmentWildcard w"
  by (auto simp: segmentOf_def routeSegmentParam_def routeSegmentWildcard_def hasPrefix_single split: if_splits)

lemma matchLoop_segMatches: "matchLoop ps (map segmentOf segs) req \<noteq> None \<longleftrightarrow> segMatches segs req"
proof (induction segs arbitrary: ps req)
  case (Cons s segs)
  then show ?case
    using segment_kinds(2) [of s] segment_kinds(3) [of s]
    by (cases req) (auto simp: segment_kinds(1) split: if_splits)
qed simp

lemma pattern_segMatches: "patternMatch (parseRoutePattern p) path \<noteq> None \<longleftrightarrow> segMatches (splitRoutePath p) (splitRoutePath path)"
  by (simp only: patternMatch_def parsed_segments matchLoop_segMatches)

lemma overlap_sound: "segMatches l req \<Longrightarrow> segMatches r req \<Longrightarrow> routeSegmentsOverlap l r"
proof (induction l r arbitrary: req rule: routeSegmentsOverlap.induct)
  case (1 right)
  then show ?case by (cases right) auto
qed (auto simp: routeSegmentsCanMatchSameValue_def)

lemma sample_request: "requestWords segs \<Longrightarrow> \<exists>req. segMatches segs req \<and> requestWords req"
proof (induction segs)
  case (Cons s segs)
  then obtain req where "segMatches segs req" "requestWords req" by auto
  with Cons.prems have "segMatches (s # segs) (s # req) \<and> requestWords (s # req)" by simp
  then show ?case by blast
qed (rule exI [of _ "[]"], simp)

lemma common_request:
  "routeSegmentsOverlap l r \<Longrightarrow> requestWords l \<Longrightarrow> requestWords r
    \<Longrightarrow> \<exists>req. segMatches l req \<and> segMatches r req \<and> requestWords req"
proof (induction l r rule: routeSegmentsOverlap.induct)
  case (1 right)
  then have "segMatches right []" by (cases right) auto
  then show ?case by (intro exI [of _ "[]"]) simp
next
  case (2 l left)
  then show ?case by (intro exI [of _ "[]"]) simp
next
  case (3 l left r right)
  consider (wild) "routeSegmentWildcard l \<or> routeSegmentWildcard r"
    | (step) "\<not> routeSegmentWildcard l" "\<not> routeSegmentWildcard r" "routeSegmentsCanMatchSameValue l r" "routeSegmentsOverlap left right"
    using "3.prems"(1) by (auto split: if_splits)
  then show ?case
  proof cases
    case wild
    obtain a b where "segMatches (l # left) a" "segMatches (r # right) b" "requestWords a" "requestWords b"
      using sample_request [OF "3.prems"(2)] sample_request [OF "3.prems"(3)] by blast
    with wild show ?thesis by (auto intro: exI [of _ a] exI [of _ b])
  next
    case step
    with 3 obtain req where "segMatches left req" "segMatches right req" "requestWords req" by auto
    with step "3.prems" show ?thesis
      by (intro exI [of _ "(if routeSegmentParam l then r else l) # req"]) (auto simp: routeSegmentsCanMatchSameValue_def)
  qed
qed

lemma split_join_words:
  assumes "requestWords req"
  shows "splitRoutePath (joinWith ''/'' req) = req"
proof (cases "req = []")
  case True
  then show ?thesis by (simp add: splitRoutePath_def trimSet_def trimBy_def)
next
  case False
  let ?t = "joinWith ''/'' req"
  have s: "splitOn CHR ''/'' ?t = req"
    using False assms by (intro splitOn_joinWith) (auto simp: requestWords_def)
  with False assms have "hd (splitOn CHR ''/'' ?t) \<noteq> []" "last (splitOn CHR ''/'' ?t) \<noteq> []"
    by (auto simp: requestWords_def)
  then have "?t \<noteq> []" "trimSet ''/'' ?t = ?t" by (auto simp: splitOn_ends intro: trimSlash_fixed)
  with s show ?thesis by (simp add: splitRoutePath_def)
qed

lemma plain_words: "plainRoute p \<Longrightarrow> requestWords (routePatternSegments p)"
  by (auto simp: plainRoute_def requestWords_def routePatternSegments_def Let_def dest: splitOn_no_sep split: if_splits)



text \<open>Slashes at the ends, which the parser keeps and the route table drops, escape the check.\<close>

lemma overlap_missed:
  "\<not> routePathsOverlap ''/users//'' ''/users''
   \<and> patternMatch (parseRoutePattern ''/users//'') ''/users'' \<noteq> None
   \<and> patternMatch (parseRoutePattern ''/users'') ''/users'' \<noteq> None"
  by code_simp

section \<open>The parameters of a path are what the route table binds\<close>

definition paramNames :: "string list \<Rightarrow> string list" where
  "paramNames segs = map tl (filter (\<lambda>w. routeSegmentParam w \<or> routeSegmentWildcard w) segs)"

lemma parsePathSegments_names: "parsePathSegments segs = Inr names \<Longrightarrow> names = paramNames segs"
  by (induction segs arbitrary: names)
    (auto simp: paramNames_def routeSegmentParam_def routeSegmentWildcard_def hasPrefix_single split: if_splits sum.splits)

lemma paramNames_Nil: "paramNames (filter (\<lambda>w. w \<noteq> []) segs) = paramNames segs"
  by (induction segs) (auto simp: paramNames_def routeSegmentParam_def routeSegmentWildcard_def hasPrefix_single)

text \<open>Slashes at the ends only add empty segments.\<close>

lemma words_Cons: "filter (\<lambda>w. w \<noteq> []) (splitOn c (c # t)) = filter (\<lambda>w. w \<noteq> []) (splitOn c t)"
  by simp

lemma splitOn_snoc: "splitOn c (t @ [c]) = splitOn c t @ [[]]"
  by (induction t) (auto split: list.split)

lemma words_dropWhile:
  "filter (\<lambda>w. w \<noteq> []) (splitOn c (dropWhile (\<lambda>x. x = c) t)) = filter (\<lambda>w. w \<noteq> []) (splitOn c t)"
  by (induction t) simp_all

lemma words_trimSlash:
  "filter (\<lambda>w. w \<noteq> []) (splitOn CHR ''/'' (trimSet ''/'' t)) = filter (\<lambda>w. w \<noteq> []) (splitOn CHR ''/'' t)"
proof -
  have "filter (\<lambda>w. w \<noteq> []) (splitOn c (rev (dropWhile (\<lambda>x. x = c) s))) = filter (\<lambda>w. w \<noteq> []) (splitOn c (rev s))" for c s
    by (induction s) (simp_all add: splitOn_snoc)
  then show ?thesis by (simp add: trimSet_def trimBy_def words_dropWhile)
qed

lemma paramNames_split: "paramNames (splitRoutePath path) = paramNames (splitOn CHR ''/'' (trimPrefix ''/'' path))"
proof -
  have "paramNames (splitRoutePath path) = paramNames (splitOn CHR ''/'' (trimSet ''/'' path))"
    by (simp add: splitRoutePath_def Let_def paramNames_def routeSegmentParam_def routeSegmentWildcard_def hasPrefix_single)
  also have "\<dots> = paramNames (splitOn CHR ''/'' path)"
    by (metis paramNames_Nil words_trimSlash)
  also have "\<dots> = paramNames (splitOn CHR ''/'' (trimPrefix ''/'' path))"
    by (cases path) (simp_all add: trimPrefix_def hasPrefix_single paramNames_def routeSegmentParam_def routeSegmentWildcard_def)
  finally show ?thesis .
qed

lemma parsePath_names:
  assumes "parsePath path = Inr names"
  shows "names = paramNames (splitRoutePath path)"
proof (cases "path = []")
  case True
  with assms show ?thesis by (simp add: parsePath_def splitRoutePath_def trimSet_def trimBy_def paramNames_def)
next
  case False
  with assms parsePathSegments_names show ?thesis by (simp add: parsePath_def paramNames_split)
qed

lemma matchLoop_names:
  "matchLoop ps (map segmentOf segs) req = Some qs \<Longrightarrow> \<forall>w \<in> set (butlast segs). \<not> routeSegmentWildcard w
    \<Longrightarrow> map fst qs = map fst ps @ paramNames segs"
proof (induction segs arbitrary: ps req)
  case (Cons w segs)
  have v: "seg_value (segmentOf w) = (if routeSegmentParam w \<or> routeSegmentWildcard w then tl w else w)"
    by (auto simp: segmentOf_def routeSegmentParam_def routeSegmentWildcard_def)
  show ?case
  proof (cases "routeSegmentWildcard w")
    case True
    with Cons.prems(2) have "segs = []" by (auto split: if_splits)
    moreover have "seg_kind (segmentOf w) = routeWildcard"
      using True segment_kinds(3) [of w] by (auto simp: segment_kinds(1))
    ultimately show ?thesis using True Cons.prems(1) by (auto simp: v paramNames_def)
  next
    case False
    with Cons.prems have "\<forall>w \<in> set (butlast segs). \<not> routeSegmentWildcard w" by (auto split: if_splits)
    with Cons False show ?thesis
      by (cases req) (auto simp: segment_kinds(1) v paramNames_def split: if_splits)
  qed
qed (auto simp: paramNames_def split: if_splits)

lemma wildcardLast_segments:
  "wildcardLast (parseRoutePattern path) \<longleftrightarrow> (\<forall>w \<in> set (butlast (splitRoutePath path)). \<not> routeSegmentWildcard w)"
  using segment_kinds(3)
  by (auto simp: wildcardLast_def parsed_segments map_butlast [symmetric] segment_kinds(1))

lemma path_params_bound:
  assumes "parsePath path = Inr names" "wildcardLast (parseRoutePattern path)"
    "patternMatch (parseRoutePattern path) req = Some ps"
  shows "map fst ps = names"
  using assms parsePath_names matchLoop_names [of "[]" "splitRoutePath path"]
  by (auto simp: wildcardLast_segments patternMatch_def parsed_segments)

text \<open>A parameter behind a wildcard is accepted, but never bound.\<close>

lemma param_behind_wildcard:
  "parsePath ''/files/*rest/:id'' = Inr [''rest'', ''id'']
   \<and> patternMatch (parseRoutePattern ''/files/*rest/:id'') ''/files/a/b/7'' = Some [(''rest'', ''a/b/7'')]"
  by code_simp

section \<open>Routes that do not collide\<close>

text \<open>Methods as \<open>parseMethods\<close> and the generator give them: no outer spaces.\<close>

definition plainMethods :: "string list \<Rightarrow> bool" where
  "plainMethods ms = (\<forall>m \<in> set ms. trimSpace m = m)"

definition routeTakes :: "string list \<Rightarrow> string \<Rightarrow> string \<Rightarrow> string \<Rightarrow> bool" where
  "routeTakes methods pattern m path =
     (patternMatch (parseRoutePattern pattern) path \<noteq> None \<and> routeAllowsMethod (expandMethods methods) m)"

lemma methods_collide:
  assumes "m \<in> set (expandMethods a)" "m \<in> set (expandMethods b)" "plainMethods a" "plainMethods b"
  shows "routeMethodsCollide a b"
proof -
  obtain x y where x: "x \<in> set a" "x = ''*'' \<or> toUpper x = m" and y: "y \<in> set b" "y = ''*'' \<or> toUpper y = m"
    using assms(1, 2) by (auto simp: expandMethods_def split: if_splits)
  have star: "toUpper ''*'' = ''*''" by code_simp
  have "trimSpace x = x" "trimSpace y = y" using x y assms(3, 4) by (auto simp: plainMethods_def)
  with x y star have "toUpper (trimSpace x) = ''*'' \<or> toUpper (trimSpace y) = ''*'' \<or> toUpper (trimSpace x) = toUpper (trimSpace y)"
    by auto
  with x(1) y(1) show ?thesis unfolding routeMethodsCollide_def Let_def list_ex_iff by blast
qed

text \<open>The table also answers \<open>HEAD\<close> with a \<open>GET\<close> route, which the check leaves aside.\<close>

lemma not_colliding:
  assumes "\<not> routeOwnersCollide a b" "plainRoute (ow_path a)" "plainRoute (ow_path b)"
    "plainMethods (ow_methods a)" "plainMethods (ow_methods b)" "m \<noteq> ''HEAD''"
    "routeTakes (ow_methods a) (ow_path a) m path"
  shows "\<not> routeTakes (ow_methods b) (ow_path b) m path"
proof
  assume b: "routeTakes (ow_methods b) (ow_path b) m path"
  with assms(2, 3, 7) have "routePathsOverlap (ow_path a) (ow_path b)"
    unfolding routeTakes_def pattern_segMatches routePathsOverlap_def
    by (metis overlap_sound plain_split)
  moreover have "routeMethodsCollide (ow_methods a) (ow_methods b)"
    using assms(4-7) b by (auto simp: routeTakes_def routeAllowsMethod_def intro: methods_collide)
  ultimately show False using assms(1) by (simp add: routeOwnersCollide_def)
qed

text \<open>The only route that takes a request is the one the table dispatches it to.\<close>

lemma only_route_dispatched:
  assumes "(ms, p, h) \<in> set regs" "routeTakes ms p m path" "m \<noteq> ''OPTIONS'' \<or> \<not> go"
    and only: "\<And>ms' p' h'. (ms', p', h') \<in> set regs \<Longrightarrow> routeTakes ms' p' m path \<Longrightarrow> (ms', p', h') = (ms, p, h)"
  shows "\<exists>allow. ServeHTTP (routerOf nf go regs) m path
           = Dispatched (newRoute ms p h) (the (patternMatch (parseRoutePattern p) path)) allow"
proof -
  let ?t = "routerOf nf go regs"
  let ?Q = "\<lambda>r. patternMatch (rt_pattern r) path \<noteq> None \<and> routeAllowsMethod (rt_methods r) m"
  have set: "set (tab_routes ?t) = set (registered regs)" by (rule tableOK_set [OF tableOK_routerOf])
  have uniq: "r = newRoute ms p h" if "r \<in> set (registered regs)" "?Q r" for r
    using that only by (auto simp: registered_def routeTakes_def newRoute_def)
  have here: "newRoute ms p h \<in> set (tab_routes ?t)" "?Q (newRoute ms p h)"
    using assms(1, 2) by (auto simp: set registered_def routeTakes_def newRoute_def intro: rev_image_eqI)
  have scan: "find ?Q (tab_routes ?t) = Some (newRoute ms p h)"
  proof (cases "find ?Q (tab_routes ?t)")
    case None
    with here show ?thesis by (auto simp: find_None_iff)
  next
    case (Some r)
    with uniq set show ?thesis by (metis (mono_tags, lifting) find_In)
  qed
  have ex: "find (\<lambda>r. routeAllowsMethod (rt_methods r) m) (exactAt ?t path) \<in> {None, Some (newRoute ms p h)}"
  proof (cases "find (\<lambda>r. routeAllowsMethod (rt_methods r) m) (exactAt ?t path)")
    case (Some r)
    then have r: "r \<in> set (registered regs)" "isExact (rt_pattern r)" "pat_raw (rt_pattern r) = path" "routeAllowsMethod (rt_methods r) m"
      using find_In [OF Some] tableOK_exact [OF tableOK_routerOf] by blast+
    then have "patternMatch (rt_pattern r) path = Some []"
      using exact_matches [of path] registered_parsed [OF r(1)] by simp
    with r uniq Some show ?thesis by simp
  qed simp
  have raw: "the (patternMatch (parseRoutePattern p) path) = []"
    if "find (\<lambda>r. routeAllowsMethod (rt_methods r) m) (exactAt ?t path) = Some (newRoute ms p h)"
    using find_In [OF that] tableOK_exact [OF tableOK_routerOf, of "newRoute ms p h" nf go regs path] exact_matches [of p]
    by (auto simp: newRoute_def parsed_raw)
  have "matchingRoutes ?t path \<noteq> []" using here by (auto simp: matchingRoutes_Nil)
  moreover have "tab_GlobalOPTIONS ?t = go" by (simp add: routerOf_def)
  ultimately show ?thesis
    using ex scan raw assms(3) by (auto simp: ServeHTTP_scans newRoute_def)
qed

end
