(* ===== verification/ParseModel.thy ===== *)
theory ParseModel
  imports ParseRoutes RuntimeServer
begin

text \<open>
  Declared models and what the parser generates for them: \<open>internal/model/model.go\<close> and the part of
  \<open>internal/parse/parser.go\<close> from \<open>model.Entity\<close> options to the generated endpoints and the check that they collide with
  nothing.  A syntax tree is represented by what the parser reads of it: for an expression, the constant it denotes if it is static;
  for a declaration, its comments and specs; for a type, a \<open>gotype\<close> without aliases.  Positions are their text, the pointer to the
  service of a package is its root and name.  Identifiers are ASCII.
\<close>

section \<open>Definitions\<close>

subsection \<open>Data\<close>

record serviceRef =
  sr_root :: string
  sr_name :: string

record Package =
  pk_RelDir :: string
  pk_Name :: string
  pk_ImportPath :: string
  pk_Service :: "serviceRef option"

datatype EntityFieldKind = EntityFieldStored | EntityFieldRelationship | EntityFieldComputed

record EntityField =
  ef_Name :: string
  ef_TypeExpr :: string
  ef_Type :: gotype
  ef_Kind :: EntityFieldKind
  ef_Column :: string
  ef_EnumValues :: "string list"
  ef_Filterable :: bool
  ef_RenamedFrom :: string

datatype EntityCRUDAction =
    EntityCRUDList | EntityCRUDGet | EntityCRUDCreate | EntityCRUDUpdate | EntityCRUDDelete | EntityCRUDOther string

record EntityCRUDOverride =
  ov_Action :: EntityCRUDAction
  ov_Endpoint :: string

record EntityCRUD =
  cr_Actions :: "EntityCRUDAction list"
  cr_Disabled :: "EntityCRUDAction list"
  cr_Overrides :: "EntityCRUDOverride list"

datatype EntitySeedValueKind = EntitySeedString | EntitySeedInteger | EntitySeedFloat | EntitySeedBool | EntitySeedTimestamp

record EntitySeedValue =
  sd_Field :: string
  sd_Kind :: EntitySeedValueKind
  sd_Value :: string
  sd_pos :: string

record EntitySeedRow =
  row_Values :: "EntitySeedValue list"
  row_pos :: string

record Entity =
  en_Package :: Package
  en_Name :: string
  en_TypeExpr :: string
  en_Table :: string
  en_Fields :: "EntityField list"
  en_Seeds :: "EntitySeedRow list"
  en_CRUD :: EntityCRUD
  en_pos :: string

fun actionText :: "EntityCRUDAction \<Rightarrow> string" where
  "actionText EntityCRUDList = ''list''"
| "actionText EntityCRUDGet = ''get''"
| "actionText EntityCRUDCreate = ''create''"
| "actionText EntityCRUDUpdate = ''update''"
| "actionText EntityCRUDDelete = ''delete''"
| "actionText (EntityCRUDOther s) = s"

definition sourceDiagnostic :: "string \<Rightarrow> string \<Rightarrow> string" where
  "sourceDiagnostic pos message = (if pos \<noteq> [] then pos @ '': '' @ message else message)"

subsection \<open>Names\<close>

definition equalFold :: "string \<Rightarrow> string \<Rightarrow> bool" where
  "equalFold a b = (toLower a = toLower b)"

definition isExported :: "string \<Rightarrow> bool" where
  "isExported s = (s \<noteq> [] \<and> isUpperLetter (hd s))"

fun snakeFrom :: "bool \<Rightarrow> string \<Rightarrow> string" where
  "snakeFrom first [] = []"
| "snakeFrom first (c # cs) =
     (if isUpperLetter c then (if first then [] else ''_'') @ toLowerChar c # snakeFrom False cs
      else c # snakeFrom False cs)"

definition toSnake :: "string \<Rightarrow> string" where
  "toSnake v = snakeFrom True v"

definition defaultTableName :: "string \<Rightarrow> string" where
  "defaultTableName typeName = toSnake typeName @ ''s''"

definition firstNonEmpty :: "string list \<Rightarrow> string" where
  "firstNonEmpty vs = (case find (\<lambda>v. trimSpace v \<noteq> []) vs of None \<Rightarrow> [] | Some v \<Rightarrow> v)"

text \<open>The common loop of \<open>safeDatabaseIdent\<close> and \<open>safeRouteSegment\<close>: each run of other bytes becomes one separator.\<close>

fun safeChars :: "char \<Rightarrow> bool \<Rightarrow> string \<Rightarrow> string" where
  "safeChars sep lastSep [] = []"
| "safeChars sep lastSep (c # cs) =
     (if isLowerLetter c \<or> isDigit c then c # safeChars sep False cs
      else if \<not> lastSep then sep # safeChars sep True cs
      else safeChars sep True cs)"

definition safeDatabaseIdent :: "string \<Rightarrow> string" where
  "safeDatabaseIdent v =
     (let out = trimSet ''_'' (safeChars CHR ''_'' False (toLower (trimSpace v)))
      in if out = [] then ''app'' else if isDigit (hd out) then ''s_'' @ out else out)"

definition safeRouteSegment :: "string \<Rightarrow> string" where
  "safeRouteSegment v = trimSet ''-'' (safeChars CHR ''-'' False (toLower (trimSet ''/'' (trimSpace v))))"

definition EntityService :: "Entity \<Rightarrow> string" where
  "EntityService entity =
     (let fallback = (let rel = pk_RelDir (en_Package entity)
                      in if rel \<noteq> ''.'' \<and> rel \<noteq> [] then fst (cut CHR ''/'' rel) else ''app'')
      in case pk_Service (en_Package entity) of
           Some svc \<Rightarrow> if trimSpace (sr_name svc) \<noteq> [] then sr_name svc else fallback
         | None \<Rightarrow> fallback)"

definition EntityDatabaseSchema :: "Entity \<Rightarrow> string" where
  "EntityDatabaseSchema entity = safeDatabaseIdent (EntityService entity)"

definition EntityQualifiedTable :: "Entity \<Rightarrow> string" where
  "EntityQualifiedTable entity = EntityDatabaseSchema entity @ ''.'' @ trimSpace (en_Table entity)"

definition EntityCRUDRouteBase :: "Entity \<Rightarrow> string" where
  "EntityCRUDRouteBase entity =
     (let service = safeRouteSegment (EntityService entity);
          service = (if service = [] then ''app'' else service);
          table = safeRouteSegment (en_Table entity);
          table = (if table = [] then safeRouteSegment (en_Name entity) else table);
          table = (if table = [] then ''model'' else table)
      in ''/'' @ service @ ''/'' @ table)"

subsection \<open>Tenant fields and primary keys\<close>

definition TenantField :: "Entity \<Rightarrow> EntityField option" where
  "TenantField e =
     find (\<lambda>f. ef_Kind f \<noteq> EntityFieldComputed \<and> (equalFold (ef_Name f) ''TenantID'' \<or> equalFold (ef_Column f) ''tenant_id''))
       (en_Fields e)"

definition isGeneratedTenantStringType :: "gotype \<Rightarrow> bool" where
  "isGeneratedTenantStringType t = (under t = GString)"

fun isGeneratedTenantUUIDType :: "gotype \<Rightarrow> bool" where
  "isGeneratedTenantUUIDType (GNamed pkg name t) = (pkg = ''github.com/google/uuid'' \<and> name = ''UUID'')"
| "isGeneratedTenantUUIDType t = False"

definition GeneratedTenantFieldKind :: "EntityField \<Rightarrow> string" where
  "GeneratedTenantFieldKind field =
     (if isGeneratedTenantStringType (ef_Type field) then ''string''
      else if isGeneratedTenantUUIDType (ef_Type field) then ''uuid'' else [])"

definition primaryKeyField :: "Entity \<Rightarrow> EntityField option" where
  "primaryKeyField entity = find (\<lambda>f. ef_Kind f \<noteq> EntityFieldComputed \<and> equalFold (ef_Name f) ''id'') (en_Fields entity)"

definition generatedIDParamKind :: "EntityField \<Rightarrow> ParamKind" where
  "generatedIDParamKind field =
     (let t = trimPrefix ''*'' (trimSpace (ef_TypeExpr field))
      in if t = ''bool'' then ParamBool
         else if t = ''int'' then ParamInt
         else if t = ''int8'' then ParamInt8
         else if t = ''int16'' then ParamInt16
         else if t = ''int32'' then ParamInt32
         else if t = ''int64'' then ParamInt64
         else if t = ''uint'' then ParamUint
         else if t = ''uint8'' then ParamUint8
         else if t = ''uint16'' then ParamUint16
         else if t = ''uint32'' then ParamUint32
         else if t = ''uint64'' then ParamUint64
         else ParamString)"

subsection \<open>Options of \<open>model.Entity\<close>\<close>

record entityFieldConfig =
  fc_Kind :: "EntityFieldKind option"
  fc_EnumValues :: "string list"
  fc_Filterable :: bool
  fc_RenamedFrom :: string

record entityConfig =
  ec_Table :: string
  ec_Fields :: "(string, entityFieldConfig) gomap"
  ec_Seeds :: "EntitySeedRow list"
  ec_CRUD :: EntityCRUD
  ec_GenerateSet :: bool

definition noFieldConfig :: entityFieldConfig where
  "noFieldConfig = \<lparr>fc_Kind = None, fc_EnumValues = [], fc_Filterable = False, fc_RenamedFrom = []\<rparr>"

definition noCRUD :: EntityCRUD where
  "noCRUD = \<lparr>cr_Actions = [], cr_Disabled = [], cr_Overrides = []\<rparr>"

definition noConfig :: entityConfig where
  "noConfig = \<lparr>ec_Table = [], ec_Fields = [], ec_Seeds = [], ec_CRUD = noCRUD, ec_GenerateSet = False\<rparr>"

text \<open>An argument is \<open>Some\<close> string when it is a constant string, as \<open>staticStringValue\<close> finds out.\<close>

datatype fieldOption =
    FNotCall
  | FEnumValues "string option list"
  | FFilterable nat
  | FComputed nat
  | FRelationship nat
  | FRenamedFrom "string option list"
  | FUnsupported

datatype seedExpr = SeedDate "string + string" | SeedConst EntitySeedValueKind string | SeedDynamic

datatype seedElt = SeedUnkeyed | SeedKeyed string seedExpr string

datatype seedArg = SeedNotLiteral | SeedLiteral "seedElt list" string

text \<open>The second argument of \<open>Override\<close> is the endpoint's name, empty when it is no identifier or selector.\<close>

datatype entityOption =
    ONotCall
  | OTable "string option list"
  | OField "string option list" "fieldOption list"
  | OGenerate "string option list"
  | OSeed "seedArg list"
  | ODisable "string option list"
  | OOverride "(string option \<times> string) option"
  | OUnsupported

fun parseEntityFieldOption :: "fieldOption \<Rightarrow> entityFieldConfig \<Rightarrow> string + entityFieldConfig" where
  "parseEntityFieldOption FNotCall cfg = Inl ''field options must be static model.* calls''"
| "parseEntityFieldOption (FEnumValues args) cfg =
     (if args = [] then Inl ''model.EnumValues requires at least one value''
      else if None \<in> set args then Inl ''model.EnumValues requires constant string arguments''
      else Inr (cfg\<lparr>fc_EnumValues := map the args\<rparr>))"
| "parseEntityFieldOption (FFilterable n) cfg =
     (if n \<noteq> 0 then Inl ''model.Filterable takes no arguments'' else Inr (cfg\<lparr>fc_Filterable := True\<rparr>))"
| "parseEntityFieldOption (FComputed n) cfg =
     (if n \<noteq> 0 then Inl ''model.Computed takes no arguments'' else Inr (cfg\<lparr>fc_Kind := Some EntityFieldComputed\<rparr>))"
| "parseEntityFieldOption (FRelationship n) cfg =
     (if n \<noteq> 0 then Inl ''model.Relationship takes no arguments'' else Inr (cfg\<lparr>fc_Kind := Some EntityFieldRelationship\<rparr>))"
| "parseEntityFieldOption (FRenamedFrom args) cfg =
     (case args of
        [Some v] \<Rightarrow> Inr (cfg\<lparr>fc_RenamedFrom := trimSpace v\<rparr>)
      | [None] \<Rightarrow> Inl ''model.RenamedFrom requires a constant string argument''
      | _ \<Rightarrow> Inl ''model.RenamedFrom requires one string argument'')"
| "parseEntityFieldOption FUnsupported cfg = Inl ''unsupported field option''"

fun parseFieldOptions :: "fieldOption list \<Rightarrow> entityFieldConfig \<Rightarrow> string + entityFieldConfig" where
  "parseFieldOptions [] cfg = Inr cfg"
| "parseFieldOptions (opt # opts) cfg =
     (case parseEntityFieldOption opt cfg of Inl e \<Rightarrow> Inl e | Inr cfg \<Rightarrow> parseFieldOptions opts cfg)"

definition normalizeEntityCRUDAction :: "string \<Rightarrow> EntityCRUDAction option" where
  "normalizeEntityCRUDAction v =
     (let a = toLower (trimSpace v)
      in if a = ''list'' then Some EntityCRUDList
         else if a = ''get'' then Some EntityCRUDGet
         else if a = ''create'' then Some EntityCRUDCreate
         else if a = ''update'' then Some EntityCRUDUpdate
         else if a = ''delete'' then Some EntityCRUDDelete
         else None)"

definition defaultEntityCRUDActions :: "EntityCRUDAction list" where
  "defaultEntityCRUDActions = [EntityCRUDList, EntityCRUDGet, EntityCRUDCreate, EntityCRUDUpdate, EntityCRUDDelete]"

fun actionArgs :: "EntityCRUDAction list \<Rightarrow> string option list \<Rightarrow> string + EntityCRUDAction list" where
  "actionArgs out [] = Inr out"
| "actionArgs out (arg # args) =
     (case arg of
        None \<Rightarrow> Inl ''actions must be constant model.Action/string values''
      | Some v \<Rightarrow>
        (case normalizeEntityCRUDAction v of
           None \<Rightarrow> Inl (''unsupported action '' @ goQuote v)
         | Some a \<Rightarrow> actionArgs (if a \<in> set out then out else out @ [a]) args))"

definition parseEntityActionArgs :: "string option list \<Rightarrow> string + EntityCRUDAction list" where
  "parseEntityActionArgs args = (if args = [] then Inr defaultEntityCRUDActions else actionArgs [] args)"

fun parseEntitySeedValue :: "seedExpr \<Rightarrow> string + (EntitySeedValueKind \<times> string)" where
  "parseEntitySeedValue (SeedDate d) = map_sum (\<lambda>e. e) (\<lambda>v. (EntitySeedTimestamp, v)) d"
| "parseEntitySeedValue (SeedConst kind v) = Inr (kind, v)"
| "parseEntitySeedValue SeedDynamic = Inl ''seed values must be compile-time constants or time.Date(...)''"

fun seedElts :: "EntitySeedValue list \<Rightarrow> seedElt list \<Rightarrow> string + EntitySeedValue list" where
  "seedElts values [] = Inr values"
| "seedElts values (SeedUnkeyed # elts) = Inl ''rows must use keyed struct fields''"
| "seedElts values (SeedKeyed key e pos # elts) =
     (if key = [] then Inl ''row field keys must be identifiers''
      else if key \<in> set (map sd_Field values) then Inl (''row field '' @ key @ '' is set more than once'')
      else case parseEntitySeedValue e of
             Inl err \<Rightarrow> Inl (key @ '': '' @ err)
           | Inr (kind, v) \<Rightarrow>
             seedElts (values @ [\<lparr>sd_Field = key, sd_Kind = kind, sd_Value = v, sd_pos = pos\<rparr>]) elts)"

fun parseEntitySeedRow :: "seedArg \<Rightarrow> string + EntitySeedRow" where
  "parseEntitySeedRow SeedNotLiteral = Inl ''rows must be static keyed struct literals''"
| "parseEntitySeedRow (SeedLiteral elts pos) =
     map_sum (\<lambda>e. e) (\<lambda>vs. \<lparr>row_Values = vs, row_pos = pos\<rparr>) (seedElts [] elts)"

text \<open>The rows before the first bad one are kept in the configuration.\<close>

fun seedArgs :: "entityConfig \<Rightarrow> seedArg list \<Rightarrow> entityConfig \<times> string option" where
  "seedArgs cfg [] = (cfg, None)"
| "seedArgs cfg (arg # args) =
     (case parseEntitySeedRow arg of
        Inl e \<Rightarrow> (cfg, Some (''model.Seed: '' @ e))
      | Inr row \<Rightarrow> seedArgs (cfg\<lparr>ec_Seeds := ec_Seeds cfg @ [row]\<rparr>) args)"

definition fieldConfigOf :: "entityConfig \<Rightarrow> string \<Rightarrow> entityFieldConfig" where
  "fieldConfigOf cfg name = (case map_of (ec_Fields cfg) name of None \<Rightarrow> noFieldConfig | Some c \<Rightarrow> c)"

fun parseEntityOption :: "entityOption \<Rightarrow> entityConfig \<Rightarrow> entityConfig \<times> string option" where
  "parseEntityOption ONotCall cfg = (cfg, Some ''model.Entity options must be static model.* calls'')"
| "parseEntityOption (OTable args) cfg =
     (case args of
        [Some v] \<Rightarrow> (cfg\<lparr>ec_Table := trimSpace v\<rparr>, None)
      | [None] \<Rightarrow> (cfg, Some ''model.Table requires a constant string argument'')
      | _ \<Rightarrow> (cfg, Some ''model.Table requires one string argument''))"
| "parseEntityOption (OField args opts) cfg =
     (case args of
        [] \<Rightarrow> (cfg, Some ''model.Field requires a field name'')
      | None # _ \<Rightarrow> (cfg, Some ''model.Field requires a constant field-name string'')
      | Some v # _ \<Rightarrow>
        (let name = trimSpace v
         in if name = [] then (cfg, Some ''model.Field requires a non-empty field name'')
            else case parseFieldOptions opts (fieldConfigOf cfg name) of
                   Inl e \<Rightarrow> (cfg, Some (''model.Field('' @ goQuote name @ ''): '' @ e))
                 | Inr fc \<Rightarrow> (cfg\<lparr>ec_Fields := AList.update name fc (ec_Fields cfg)\<rparr>, None)))"
| "parseEntityOption (OGenerate args) cfg =
     (case parseEntityActionArgs args of
        Inl e \<Rightarrow> (cfg, Some (''model.Generate: '' @ e))
      | Inr actions \<Rightarrow> (cfg\<lparr>ec_GenerateSet := True, ec_CRUD := (ec_CRUD cfg)\<lparr>cr_Actions := actions\<rparr>\<rparr>, None))"
| "parseEntityOption (OSeed args) cfg = seedArgs cfg args"
| "parseEntityOption (ODisable args) cfg =
     (case parseEntityActionArgs args of
        Inl e \<Rightarrow> (cfg, Some (''model.Disable: '' @ e))
      | Inr actions \<Rightarrow> (cfg\<lparr>ec_CRUD := (ec_CRUD cfg)\<lparr>cr_Disabled := cr_Disabled (ec_CRUD cfg) @ actions\<rparr>\<rparr>, None))"
| "parseEntityOption (OOverride args) cfg =
     (case args of
        None \<Rightarrow> (cfg, Some ''model.Override requires an action and endpoint'')
      | Some (action, endpoint) \<Rightarrow>
        (case parseEntityActionArgs [action] of
           Inl e \<Rightarrow> (cfg, Some (''model.Override: '' @ e))
         | Inr actions \<Rightarrow>
           if endpoint = [] then (cfg, Some ''model.Override endpoint must be a static function identifier or selector'')
           else (cfg\<lparr>ec_CRUD := (ec_CRUD cfg)\<lparr>cr_Overrides := cr_Overrides (ec_CRUD cfg)
                        @ [\<lparr>ov_Action = hd actions, ov_Endpoint = endpoint\<rparr>]\<rparr>\<rparr>, None)))"
| "parseEntityOption OUnsupported cfg =
     (cfg, Some ''unsupported model.Entity option; use model.Table, model.Field, model.Generate, model.Seed, model.Disable, or model.Override'')"

text \<open>The calls of \<open>model.Entity\<close> of all packages: package path, type argument, options with positions, position.\<close>

record entityCall =
  ca_ImportPath :: string
  ca_Type :: "string option"
  ca_Options :: "(entityOption \<times> string) list"
  ca_pos :: string

definition entityConfigKey :: "string \<Rightarrow> string \<Rightarrow> string" where
  "entityConfigKey importPath typeName = importPath @ '':'' @ typeName"

fun applyOptions :: "entityConfig \<Rightarrow> (entityOption \<times> string) list \<Rightarrow> entityConfig \<times> string list" where
  "applyOptions cfg [] = (cfg, [])"
| "applyOptions cfg ((opt, pos) # opts) =
     (let (cfg', err) = parseEntityOption opt cfg; (cfg'', errs) = applyOptions cfg' opts
      in (cfg'', (case err of None \<Rightarrow> [] | Some e \<Rightarrow> [sourceDiagnostic pos e]) @ errs))"

fun discoverEntityConfigs :: "(string, entityConfig) gomap \<Rightarrow> entityCall list \<Rightarrow> (string, entityConfig) gomap \<times> string list" where
  "discoverEntityConfigs configs [] = (configs, [])"
| "discoverEntityConfigs configs (call # calls) =
     (case ca_Type call of
        None \<Rightarrow> (let (configs, errs) = discoverEntityConfigs configs calls
                 in (configs, sourceDiagnostic (ca_pos call) ''model.Entity requires one static type argument'' # errs))
      | Some typeName \<Rightarrow>
        (let (cfg, errs) = applyOptions noConfig (ca_Options call);
             (configs, errs') = discoverEntityConfigs
               (AList.update (entityConfigKey (ca_ImportPath call) typeName) cfg configs) calls
         in (configs, errs @ errs')))"

subsection \<open>Entities\<close>

record astField =
  af_Names :: "string list"
  af_TypeExpr :: string
  af_Type :: gotype
  af_Tag :: "(string \<times> string) list"

text \<open>A type spec with its name and, for a struct type, its fields.\<close>

datatype astSpec = TypeSpec string "astField list option" string | OtherSpec

record GenDecl =
  gd_Doc :: "string list"
  gd_Specs :: "astSpec list"
  gd_pos :: string

definition firstTagValue :: "(string \<times> string) list \<Rightarrow> string \<Rightarrow> string" where
  "firstTagValue tag key =
     (let v = (case map_of tag key of None \<Rightarrow> [] | Some v \<Rightarrow> v)
      in if fst (cut CHR '','' v) = ''-'' then [] else v)"

definition tagSetting :: "(string \<times> string) list \<Rightarrow> string \<Rightarrow> string \<Rightarrow> string" where
  "tagSetting tag key setting =
     (let v = firstTagValue tag key
      in if v = [] then []
         else case find (\<lambda>part. case cut CHR ''='' (trimSpace part) of
                  (name, val, found) \<Rightarrow> found \<and> name = setting \<and> val \<noteq> []) (splitOn CHR '','' v) of
                None \<Rightarrow> []
              | Some part \<Rightarrow> fst (snd (cut CHR ''='' (trimSpace part))))"

definition fieldColumnName :: "astField \<Rightarrow> string \<Rightarrow> string" where
  "fieldColumnName field fieldName =
     (if tagSetting (af_Tag field) ''scenery'' ''column'' \<noteq> [] then tagSetting (af_Tag field) ''scenery'' ''column''
      else if firstTagValue (af_Tag field) ''db'' \<noteq> [] then firstTagValue (af_Tag field) ''db''
      else toSnake fieldName)"

definition normalizeEntityCRUD :: "entityConfig \<Rightarrow> EntityCRUD" where
  "normalizeEntityCRUD cfg =
     (if \<not> ec_GenerateSet cfg then noCRUD
      else let actions = (if cr_Actions (ec_CRUD cfg) = [] then defaultEntityCRUDActions else cr_Actions (ec_CRUD cfg))
           in \<lparr>cr_Actions = filter (\<lambda>a. a \<notin> set (cr_Disabled (ec_CRUD cfg))) actions,
               cr_Disabled = cr_Disabled (ec_CRUD cfg), cr_Overrides = cr_Overrides (ec_CRUD cfg)\<rparr>)"

definition entityFieldsOf :: "entityConfig \<Rightarrow> astField \<Rightarrow> EntityField list" where
  "entityFieldsOf cfg field =
     map (\<lambda>name. let fc = fieldConfigOf cfg name in
         \<lparr>ef_Name = name, ef_TypeExpr = af_TypeExpr field, ef_Type = af_Type field,
          ef_Kind = (case fc_Kind fc of None \<Rightarrow> EntityFieldStored | Some k \<Rightarrow> k),
          ef_Column = fieldColumnName field name, ef_EnumValues = fc_EnumValues fc,
          ef_Filterable = fc_Filterable fc, ef_RenamedFrom = fc_RenamedFrom fc\<rparr>)
       (filter isExported (af_Names field))"

text \<open>The fields by name: the last one of a name counts.\<close>

definition fieldByName :: "EntityField list \<Rightarrow> string \<Rightarrow> EntityField option" where
  "fieldByName fs name = find (\<lambda>f. ef_Name f = name) (rev fs)"

definition seedValueError :: "string \<Rightarrow> EntityField list \<Rightarrow> EntitySeedValue \<Rightarrow> string list" where
  "seedValueError typeName fs v =
     (case fieldByName fs (sd_Field v) of
        None \<Rightarrow> [sourceDiagnostic (sd_pos v)
                   (''model.Seed field '' @ goQuote (sd_Field v) @ '' does not match a field on '' @ typeName)]
      | Some f \<Rightarrow>
        if ef_Kind f = EntityFieldComputed
        then [sourceDiagnostic (sd_pos v) (''model.Seed field '' @ goQuote (sd_Field v) @ '' is computed and cannot be seeded'')]
        else if ef_EnumValues f \<noteq> [] \<and> sd_Kind v = EntitySeedString \<and> sd_Value v \<notin> set (ef_EnumValues f)
        then [sourceDiagnostic (sd_pos v)
                (''model.Seed field '' @ goQuote (sd_Field v) @ '' value '' @ goQuote (sd_Value v) @ '' is not in enum values'')]
        else [])"

definition setsID :: "EntityField list \<Rightarrow> EntitySeedValue \<Rightarrow> bool" where
  "setsID fs v =
     (case fieldByName fs (sd_Field v) of
        None \<Rightarrow> False | Some f \<Rightarrow> ef_Kind f \<noteq> EntityFieldComputed \<and> equalFold (ef_Name f) ''id'')"

definition validateEntitySeedRows :: "string \<Rightarrow> EntitySeedRow list \<Rightarrow> EntityField list \<Rightarrow> string list" where
  "validateEntitySeedRows typeName rows fs =
     concat (map (\<lambda>row. concat (map (seedValueError typeName fs) (row_Values row))
       @ (if list_ex (setsID fs) (row_Values row) then []
          else [sourceDiagnostic (row_pos row) (''model.Seed for '' @ typeName @ '' requires an ID field value'')])) rows)"

text \<open>The loop over the configured fields follows the order of the map, which Go leaves open.\<close>

definition parseEntity :: "Package \<Rightarrow> GenDecl \<Rightarrow> entityConfig \<Rightarrow> Entity option \<times> string list" where
  "parseEntity pkg decl cfg =
     (case gd_Specs decl of
        [TypeSpec name (Some sfs) pos] \<Rightarrow>
          (let fs = concat (map (entityFieldsOf cfg) sfs);
               unknown = map (\<lambda>fieldName. sourceDiagnostic (gd_pos decl)
                   (''model.Field('' @ goQuote fieldName @ '') does not match a field on '' @ name))
                 (filter (\<lambda>n. n \<notin> set (map ef_Name fs)) (map fst (ec_Fields cfg)));
               seedErrs = validateEntitySeedRows name (ec_Seeds cfg) fs;
               entity = \<lparr>en_Package = pkg, en_Name = name, en_TypeExpr = name,
                         en_Table = firstNonEmpty [ec_Table cfg, defaultTableName name], en_Fields = fs,
                         en_Seeds = (if seedErrs = [] then ec_Seeds cfg else []),
                         en_CRUD = normalizeEntityCRUD cfg, en_pos = pos\<rparr>;
               tenantErrs = (if cr_Actions (en_CRUD entity) = [] then []
                 else case TenantField entity of
                        None \<Rightarrow> []
                      | Some tf \<Rightarrow>
                        if GeneratedTenantFieldKind tf \<noteq> [] then []
                        else [sourceDiagnostic pos (''model '' @ name @ '' tenant field '' @ ef_Name tf @ '' has unsupported type ''
                               @ firstNonEmpty [ef_TypeExpr tf, ''<unknown>'']
                               @ ''; generated CRUD supports string, named string, or github.com/google/uuid.UUID tenant fields'')])
           in (Some entity, unknown @ seedErrs @ tenantErrs))
      | [TypeSpec name None pos] \<Rightarrow> (None, [''scenery:model must annotate a struct type''])
      | [OtherSpec] \<Rightarrow> (None, [''scenery:model must annotate a type declaration''])
      | _ \<Rightarrow> (None, [''scenery:model must be declared on a single struct type'']))"

subsection \<open>Generated endpoints\<close>

record Receiver =
  rc_Name :: string
  rc_TypeName :: string
  rc_TypeExpr :: string
  rc_Pointer :: bool

record Field =
  fd_Name :: string
  fd_TypeExpr :: string
  fd_Type :: gotype

record Middleware =
  pm_Service :: string
  pm_Name :: string
  pm_File :: string
  pm_Receiver :: "Receiver option"
  pm_Global :: bool
  pm_Targets :: "Selector list"
  pm_pos :: nat

record Endpoint =
  pe_Name :: string
  pe_ImplName :: string
  pe_Access :: Access
  pe_Raw :: bool
  pe_Path :: string
  pe_PathExplicit :: bool
  pe_Methods :: "string list"
  pe_Receiver :: "Receiver option"
  pe_Params :: "Field list"
  pe_Results :: "Field list"
  pe_PathParams :: "ParamSpec list"
  pe_Payload :: "Field option"
  pe_Response :: "Field option"
  pe_Tags :: "string list"
  pe_Middleware :: "Middleware list"

record GeneratedModelEndpoint =
  ge_Entity :: Entity
  ge_Action :: EntityCRUDAction
  ge_Name :: string
  ge_Access :: Access
  ge_Path :: string
  ge_Methods :: "string list"
  ge_PathParams :: "ParamSpec list"
  ge_HasPayload :: bool

record AuthHandler =
  ah_Service :: string
  ah_Name :: string
  ah_Receiver :: "Receiver option"
  ah_Param :: Field
  ah_AuthData :: "Field option"

record ServiceStruct =
  ss_TypeName :: string
  ss_InitFunc :: string
  ss_Shutdown :: string

text \<open>A service; the root directory identifies it.\<close>

record Service =
  sv_Name :: string
  sv_RootRelDir :: string
  sv_Packages :: "string list"
  sv_Struct :: "ServiceStruct option"
  sv_Endpoints :: "Endpoint list"
  sv_Generated :: "GeneratedModelEndpoint list"
  sv_AuthHandler :: "AuthHandler option"
  sv_Middleware :: "Middleware list"

definition needsID :: "Entity \<Rightarrow> string" where
  "needsID entity = ''model '' @ en_Name entity @ '' needs an ID field before CRUD endpoints can be generated''"

definition buildGeneratedModelEndpoint :: "Entity \<Rightarrow> EntityCRUDAction \<Rightarrow> string + GeneratedModelEndpoint" where
  "buildGeneratedModelEndpoint entity action =
     (case primaryKeyField entity of
        None \<Rightarrow> Inl (needsID entity)
      | Some idField \<Rightarrow>
        (let routeBase = EntityCRUDRouteBase entity;
             idParam = [\<lparr>ps_Name = ''id'', ps_Kind = generatedIDParamKind idField\<rparr>];
             ep = (\<lambda>name path methods params payload.
                 \<lparr>ge_Entity = entity, ge_Action = action, ge_Name = name, ge_Access = Auth, ge_Path = path,
                  ge_Methods = methods, ge_PathParams = params, ge_HasPayload = payload\<rparr>)
         in case action of
              EntityCRUDList \<Rightarrow> Inr (ep (''List'' @ en_Name entity @ ''s'') routeBase [''GET''] [] False)
            | EntityCRUDGet \<Rightarrow> Inr (ep (''Get'' @ en_Name entity) (routeBase @ ''/:id'') [''GET''] idParam False)
            | EntityCRUDCreate \<Rightarrow> Inr (ep (''Create'' @ en_Name entity) routeBase [''POST''] [] True)
            | EntityCRUDUpdate \<Rightarrow> Inr (ep (''Update'' @ en_Name entity) (routeBase @ ''/:id'') [''PATCH''] idParam True)
            | EntityCRUDDelete \<Rightarrow> Inr (ep (''Delete'' @ en_Name entity) (routeBase @ ''/:id'') [''DELETE''] idParam False)
            | EntityCRUDOther a \<Rightarrow> Inl (''unsupported generated model action '' @ goQuote a)))"

definition updateService :: "string \<Rightarrow> (Service \<Rightarrow> Service) \<Rightarrow> Service list \<Rightarrow> Service list" where
  "updateService root f = map (\<lambda>svc. if sv_RootRelDir svc = root then f svc else svc)"

definition serviceAt :: "string \<Rightarrow> Service list \<Rightarrow> Service option" where
  "serviceAt root = find (\<lambda>svc. sv_RootRelDir svc = root)"

definition serviceHasEndpoint :: "Service \<Rightarrow> string \<Rightarrow> bool" where
  "serviceHasEndpoint svc name = list_ex (\<lambda>ep. pe_Name ep = name) (sv_Endpoints svc)"

text \<open>The endpoint that overrides an action: the last one declared, none when it is empty.\<close>

definition overrideOf :: "EntityCRUD \<Rightarrow> EntityCRUDAction \<Rightarrow> string" where
  "overrideOf crud action = (case find (\<lambda>ov. ov_Action ov = action) (rev (cr_Overrides crud)) of None \<Rightarrow> [] | Some ov \<Rightarrow> ov_Endpoint ov)"

definition generatedFor :: "Entity \<Rightarrow> (string + GeneratedModelEndpoint) list" where
  "generatedFor entity =
     map (buildGeneratedModelEndpoint entity) (filter (\<lambda>a. overrideOf (en_CRUD entity) a = []) (cr_Actions (en_CRUD entity)))"

definition attachEntity :: "Entity \<Rightarrow> Service list \<Rightarrow> Service list \<times> string list" where
  "attachEntity entity svcs =
     (if cr_Actions (en_CRUD entity) = [] then (svcs, [])
      else case pk_Service (en_Package entity) of
             None \<Rightarrow> (svcs, [''model '' @ en_Name entity @ '' cannot generate CRUD endpoints without a service package''])
           | Some ref \<Rightarrow>
             if primaryKeyField entity = None then (svcs, [sourceDiagnostic (en_pos entity) (needsID entity)])
             else
               (let built = generatedFor entity;
                    eps = List.map_filter (\<lambda>r. case r of Inl e \<Rightarrow> None | Inr ep \<Rightarrow> Some ep) built;
                    errs = List.map_filter (\<lambda>r. case r of Inl e \<Rightarrow> Some (sourceDiagnostic (en_pos entity) e) | Inr ep \<Rightarrow> None) built;
                    svcs = updateService (sr_root ref) (\<lambda>svc. svc\<lparr>sv_Generated := sv_Generated svc @ eps\<rparr>) svcs;
                    present = (\<lambda>name. case serviceAt (sr_root ref) svcs of None \<Rightarrow> False | Some svc \<Rightarrow> serviceHasEndpoint svc name);
                    missing = filter (\<lambda>ov. \<not> present (ov_Endpoint ov)) (cr_Overrides (en_CRUD entity))
                in (svcs, errs @ map (\<lambda>ov. sourceDiagnostic (en_pos entity)
                     (''model.Override('' @ goQuote (actionText (ov_Action ov)) @ '', '' @ ov_Endpoint ov
                       @ '') references no endpoint in service '' @ sr_name ref)) missing)))"

fun attachGeneratedModelEndpoints :: "Entity list \<Rightarrow> Service list \<Rightarrow> Service list \<times> string list" where
  "attachGeneratedModelEndpoints [] svcs = (svcs, [])"
| "attachGeneratedModelEndpoints (entity # entities) svcs =
     (let (svcs, errs) = attachEntity entity svcs; (svcs, errs') = attachGeneratedModelEndpoints entities svcs
      in (svcs, errs @ errs'))"

subsection \<open>Collisions of generated endpoints\<close>

definition writtenOwner :: "string \<Rightarrow> Endpoint \<Rightarrow> routeOwner" where
  "writtenOwner svc ep = \<lparr>ow_id = svc @ ''.'' @ pe_Name ep, ow_path = pe_Path ep, ow_methods = pe_Methods ep\<rparr>"

definition generatedOwner :: "string \<Rightarrow> GeneratedModelEndpoint \<Rightarrow> routeOwner" where
  "generatedOwner svc ep = \<lparr>ow_id = svc @ ''.'' @ ge_Name ep, ow_path = ge_Path ep, ow_methods = ge_Methods ep\<rparr>"

definition writtenOf :: "Service list \<Rightarrow> (string \<times> Endpoint) list" where
  "writtenOf svcs = concat (map (\<lambda>svc. map (Pair (sv_Name svc)) (sv_Endpoints svc)) svcs)"

definition generatedOf :: "Service list \<Rightarrow> (string \<times> GeneratedModelEndpoint) list" where
  "generatedOf svcs = concat (map (\<lambda>svc. map (Pair (sv_Name svc)) (sv_Generated svc)) svcs)"

definition overrideHint :: string where
  "overrideHint = ''; declare model.Override or model.Disable for the action''"

definition generatedError :: "GeneratedModelEndpoint \<Rightarrow> string \<Rightarrow> string" where
  "generatedError ep message = sourceDiagnostic (en_pos (ge_Entity ep)) (''generated model endpoint '' @ message @ overrideHint)"

definition generatedRoute :: "GeneratedModelEndpoint \<Rightarrow> string" where
  "generatedRoute ep = joinWith '','' (ge_Methods ep) @ '' '' @ ge_Path ep"

definition ofTable :: "GeneratedModelEndpoint \<Rightarrow> string" where
  "ofTable ep = '' for entity '' @ en_Name (ge_Entity ep) @ '' table '' @ en_Table (ge_Entity ep)"

definition endpointErrors :: "(string \<times> string) list \<Rightarrow> routeOwner list \<Rightarrow> string \<Rightarrow> GeneratedModelEndpoint \<Rightarrow> string list" where
  "endpointErrors names routes svc ep =
     (let prefix = generatedEndpointReservedRoutePrefix (ge_Path ep)
      in if prefix \<noteq> [] then [generatedError ep (generatedRoute ep @ ofTable ep @ '' uses reserved route prefix '' @ prefix)] else [])
     @ (if (svc, ge_Name ep) \<in> set names
        then [generatedError ep (ge_Name ep @ '' collides with endpoint name '' @ svc @ ''.'' @ ge_Name ep @ '' in service '' @ svc
                @ ofTable ep @ '' route '' @ ge_Path ep)] else [])
     @ map (\<lambda>existing. generatedError ep (generatedRoute ep @ '' collides with endpoint '' @ ow_id existing @ '' at '' @ ow_path existing @ ofTable ep))
         (filter (\<lambda>existing. routeOwnersCollide existing (generatedOwner [] ep)) routes)"

fun collisionScan :: "(string \<times> string) list \<Rightarrow> routeOwner list \<Rightarrow> (string \<times> GeneratedModelEndpoint) list \<Rightarrow> string list" where
  "collisionScan names routes [] = []"
| "collisionScan names routes ((svc, ep) # eps) =
     endpointErrors names routes svc ep
     @ collisionScan (names @ [(svc, ge_Name ep)]) (routes @ [generatedOwner svc ep]) eps"

definition validateGeneratedEndpointCollisions :: "Service list \<Rightarrow> string list" where
  "validateGeneratedEndpointCollisions svcs =
     collisionScan (map (\<lambda>(svc, ep). (svc, pe_Name ep)) (writtenOf svcs))
       (map (\<lambda>(svc, ep). writtenOwner svc ep) (writtenOf svcs)) (generatedOf svcs)"

text \<open>The routes of an application, with the endpoint's full name for its handler.\<close>

definition appOwners :: "Service list \<Rightarrow> routeOwner list" where
  "appOwners svcs = map (\<lambda>(svc, ep). writtenOwner svc ep) (writtenOf svcs) @ map (\<lambda>(svc, ep). generatedOwner svc ep) (generatedOf svcs)"

definition appRoutes :: "Service list \<Rightarrow> (string list \<times> string \<times> string) list" where
  "appRoutes svcs = map (\<lambda>ow. (ow_methods ow, ow_path ow, ow_id ow)) (appOwners svcs)"

section \<open>Generated routes are plain\<close>

definition safeWord :: "string \<Rightarrow> bool" where
  "safeWord w = (w \<noteq> [] \<and> (\<forall>c \<in> set w. isLowerLetter c \<or> isDigit c \<or> c = CHR ''-''))"

lemma set_safeChars: "c \<in> set (safeChars sep l s) \<Longrightarrow> isLowerLetter c \<or> isDigit c \<or> c = sep"
  by (induction sep l s rule: safeChars.induct) (auto split: if_splits)

lemma safeRouteSegment_safe: "safeRouteSegment v = [] \<or> safeWord (safeRouteSegment v)"
proof -
  have "set (safeRouteSegment v) \<subseteq> set (safeChars CHR ''-'' False (toLower (trimSet ''/'' (trimSpace v))))"
    by (simp add: safeRouteSegment_def trimSet_def set_trimBy)
  then show ?thesis using set_safeChars by (fastforce simp: safeWord_def)
qed

lemma safeWord_constants: "safeWord ''app''" "safeWord ''model''"
  by code_simp+

lemma routeBase_words:
  obtains s t where "EntityCRUDRouteBase entity = ''/'' @ s @ ''/'' @ t" "safeWord s" "safeWord t"
proof
  let ?s = "safeRouteSegment (EntityService entity)"
  let ?t = "safeRouteSegment (en_Table entity)"
  let ?n = "safeRouteSegment (en_Name entity)"
  show "EntityCRUDRouteBase entity = ''/'' @ (if ?s = [] then ''app'' else ?s) @ ''/''
      @ (if ?t = [] then (if ?n = [] then ''model'' else ?n) else ?t)"
    by (simp add: EntityCRUDRouteBase_def Let_def)
  show "safeWord (if ?s = [] then ''app'' else ?s)" "safeWord (if ?t = [] then (if ?n = [] then ''model'' else ?n) else ?t)"
    using safeRouteSegment_safe safeWord_constants by auto
qed

lemma safe_not_special: "isLowerLetter c \<or> isDigit c \<or> c = CHR ''-'' \<Longrightarrow> \<not> isSpace c \<and> c \<noteq> CHR ''/'' \<and> c \<noteq> CHR '':'' \<and> c \<noteq> CHR ''*''"
  by (auto simp: isLowerLetter_def isDigit_def isSpace_def Let_def)

lemma set_joinWith: "set (joinWith sep ws) \<subseteq> set sep \<union> \<Union> (set ` set ws)"
  by (induction sep ws rule: joinWith.induct) auto

lemma plain_join:
  assumes "requestWords ws" "ws \<noteq> []" "\<forall>w \<in> set ws. \<forall>c \<in> set w. \<not> isSpace c"
  shows "plainRoute (''/'' @ joinWith ''/'' ws) \<and> routePatternSegments (''/'' @ joinWith ''/'' ws) = ws"
proof -
  let ?t = "joinWith ''/'' ws"
  have s: "splitOn CHR ''/'' ?t = ws"
    using assms(1, 2) by (intro splitOn_joinWith) (auto simp: requestWords_def)
  with assms(1, 2) have "last (splitOn CHR ''/'' ?t) \<noteq> []" by (auto simp: requestWords_def)
  then have t: "?t \<noteq> []" "last ?t \<noteq> CHR ''/''" by (auto simp: splitOn_ends)
  have slash: "\<not> isSpace CHR ''/''" by code_simp
  have "\<not> isSpace (last ?t)"
    using set_joinWith [of "''/''" ws] last_in_set [OF t(1)] assms(3) slash by fastforce
  with t slash have trim: "trimSpace (''/'' @ ?t) = ''/'' @ ?t"
    by (simp add: trimSpace_def trimBy_fixed)
  with t have "cleanRoutePath (''/'' @ ?t) = ''/'' @ ?t"
    by (simp add: cleanRoutePath_def trimSuffix_def hasSuffix_single hasPrefix_single)
  with t s have "routePatternSegments (''/'' @ ?t) = ws"
    by (simp add: routePatternSegments_def trimPrefix_def hasPrefix_single)
  with trim assms(1) show ?thesis by (auto simp: plainRoute_def requestWords_def)
qed

lemma safeWord_request: "safeWord w \<Longrightarrow> requestWords [w] \<and> (\<forall>c \<in> set w. \<not> isSpace c)"
  using safe_not_special by (fastforce simp: safeWord_def)

lemma built_plain:
  assumes "buildGeneratedModelEndpoint entity action = Inr g"
  shows "plainRoute (ge_Path g)" "plainMethods (ge_Methods g)" "''OPTIONS'' \<notin> set (expandMethods (ge_Methods g))"
proof -
  obtain s t where b: "EntityCRUDRouteBase entity = ''/'' @ s @ ''/'' @ t" and st: "safeWord s" "safeWord t"
    by (rule routeBase_words)
  have id: "requestWords ['':id'']" "\<forall>c \<in> set '':id''. \<not> isSpace c" by code_simp+
  have "plainRoute (''/'' @ joinWith ''/'' [s, t])" "plainRoute (''/'' @ joinWith ''/'' [s, t, '':id''])"
    using plain_join [of "[s, t]"] plain_join [of "[s, t, '':id'']"] safeWord_request [OF st(1)] safeWord_request [OF st(2)] id
    by simp_all
  moreover have "ge_Path g \<in> {''/'' @ joinWith ''/'' [s, t], ''/'' @ joinWith ''/'' [s, t, '':id'']}"
    using assms b by (auto simp: buildGeneratedModelEndpoint_def Let_def split: option.splits EntityCRUDAction.splits)
  ultimately show "plainRoute (ge_Path g)" by auto
  have "ge_Methods g \<in> {[''GET''], [''POST''], [''PATCH''], [''DELETE'']}"
    using assms by (auto simp: buildGeneratedModelEndpoint_def Let_def split: option.splits EntityCRUDAction.splits)
  moreover have "plainMethods [''GET'']" "plainMethods [''POST'']" "plainMethods [''PATCH'']" "plainMethods [''DELETE'']" by code_simp+
  moreover have "''OPTIONS'' \<notin> set (expandMethods [''GET''])" "''OPTIONS'' \<notin> set (expandMethods [''POST''])"
    "''OPTIONS'' \<notin> set (expandMethods [''PATCH''])" "''OPTIONS'' \<notin> set (expandMethods [''DELETE''])" by code_simp+
  ultimately show "plainMethods (ge_Methods g)" "''OPTIONS'' \<notin> set (expandMethods (ge_Methods g))" by auto
qed

section \<open>What is attached, and that it is reached\<close>

text \<open>Every generated endpoint comes from an action of a declared model that is not overridden.\<close>

definition generatedOK :: "Entity set \<Rightarrow> Service list \<Rightarrow> bool" where
  "generatedOK entities svcs =
     (\<forall>svc \<in> set svcs. \<forall>g \<in> set (sv_Generated svc). \<exists>e \<in> entities. \<exists>a \<in> set (cr_Actions (en_CRUD e)).
        overrideOf (en_CRUD e) a = [] \<and> buildGeneratedModelEndpoint e a = Inr g)"

lemma generatedOK_attachEntity:
  assumes "attachEntity e svcs = (svcs', errs)" "generatedOK E svcs" "e \<in> E"
  shows "generatedOK E svcs'"
proof -
  define eps where "eps = List.map_filter (\<lambda>r. case r of Inl e \<Rightarrow> None | Inr ep \<Rightarrow> Some ep) (generatedFor e)"
  have built: "\<exists>a \<in> set (cr_Actions (en_CRUD e)). overrideOf (en_CRUD e) a = [] \<and> buildGeneratedModelEndpoint e a = Inr g"
    if "g \<in> set eps" for g
    using that by (auto simp: eps_def List.map_filter_def generatedFor_def split: sum.splits)
  have "svcs' = svcs \<or> (\<exists>root. svcs' = updateService root (\<lambda>svc. svc\<lparr>sv_Generated := sv_Generated svc @ eps\<rparr>) svcs)"
    using assms(1) by (auto simp: attachEntity_def Let_def eps_def split: if_splits option.splits)
  then show ?thesis
  proof
    assume "\<exists>root. svcs' = updateService root (\<lambda>svc. svc\<lparr>sv_Generated := sv_Generated svc @ eps\<rparr>) svcs"
    with assms(2, 3) built show ?thesis by (fastforce simp: generatedOK_def updateService_def)
  qed (use assms(2) in simp)
qed

lemma generatedOK_attach:
  "attachGeneratedModelEndpoints entities svcs = (svcs', errs) \<Longrightarrow> generatedOK E svcs \<Longrightarrow> set entities \<subseteq> E \<Longrightarrow> generatedOK E svcs'"
proof (induction entities arbitrary: svcs errs)
  case (Cons e entities)
  obtain svcs1 errs1 where a: "attachEntity e svcs = (svcs1, errs1)" by fastforce
  with Cons.prems have "generatedOK E svcs1" by (intro generatedOK_attachEntity [OF a]) auto
  with Cons a show ?case by (auto split: prod.splits)
qed simp

text \<open>A scan without errors leaves no collision with a route before a generated one.\<close>

lemma collisionScan_clear:
  assumes "collisionScan names routes eps = []" "i < j" "length routes \<le> j" "j < length routes + length eps"
  shows "\<not> routeOwnersCollide ((routes @ map (\<lambda>(svc, ep). generatedOwner svc ep) eps) ! i)
           ((routes @ map (\<lambda>(svc, ep). generatedOwner svc ep) eps) ! j)"
  using assms
proof (induction names routes eps rule: collisionScan.induct)
  case (2 names routes svc ep eps)
  show ?case
  proof (cases "j = length routes")
    case True
    have "\<forall>r \<in> set routes. \<not> routeOwnersCollide r (generatedOwner [] ep)"
      using "2.prems"(1) by (auto simp: endpointErrors_def Let_def filter_empty_conv split: if_splits)
    moreover have "routeOwnersCollide r (generatedOwner svc ep) = routeOwnersCollide r (generatedOwner [] ep)" for r
      by (simp add: routeOwnersCollide_def generatedOwner_def)
    ultimately have "\<not> routeOwnersCollide (routes ! i) (generatedOwner svc ep)"
      using "2.prems"(2) True by simp
    with True "2.prems"(2) show ?thesis by (simp add: nth_append)
  next
    case False
    with "2.prems" have "\<not> routeOwnersCollide (((routes @ [generatedOwner svc ep]) @ map (\<lambda>(svc, ep). generatedOwner svc ep) eps) ! i)
        (((routes @ [generatedOwner svc ep]) @ map (\<lambda>(svc, ep). generatedOwner svc ep) eps) ! j)"
      by (intro "2.IH") auto
    then show ?thesis by simp
  qed
qed simp

lemma accepted_no_collision:
  assumes "validateGeneratedEndpointCollisions svcs = []" "i < j" "length (writtenOf svcs) \<le> j" "j < length (appOwners svcs)"
  shows "\<not> routeOwnersCollide (appOwners svcs ! i) (appOwners svcs ! j)"
  using assms collisionScan_clear [of _ "map (\<lambda>(svc, ep). writtenOwner svc ep) (writtenOf svcs)" "generatedOf svcs" i j]
  by (simp add: validateGeneratedEndpointCollisions_def appOwners_def)

definition plainEndpoints :: "Service list \<Rightarrow> bool" where
  "plainEndpoints svcs = (\<forall>svc \<in> set svcs. \<forall>ep \<in> set (sv_Endpoints svc). plainRoute (pe_Path ep) \<and> plainMethods (pe_Methods ep))"

lemma appOwners_plain:
  assumes "plainEndpoints svcs" "generatedOK E svcs" "ow \<in> set (appOwners svcs)"
  shows "plainRoute (ow_path ow) \<and> plainMethods (ow_methods ow)"
proof -
  consider (written) svc ep where "svc \<in> set svcs" "ep \<in> set (sv_Endpoints svc)" "ow = writtenOwner (sv_Name svc) ep"
    | (generated) svc g where "svc \<in> set svcs" "g \<in> set (sv_Generated svc)" "ow = generatedOwner (sv_Name svc) g"
    using assms(3) by (auto simp: appOwners_def writtenOf_def generatedOf_def)
  then show ?thesis
  proof cases
    case written
    with assms(1) show ?thesis by (auto simp: plainEndpoints_def writtenOwner_def)
  next
    case generated
    with assms(2) obtain e a where "buildGeneratedModelEndpoint e a = Inr g" unfolding generatedOK_def by meson
    with generated(3) built_plain show ?thesis by (simp add: generatedOwner_def)
  qed
qed

text \<open>Of two routes of an accepted application, one of them generated, at most one takes a request.\<close>

lemma accepted_one_taker:
  assumes "validateGeneratedEndpointCollisions svcs = []" "plainEndpoints svcs" "generatedOK E svcs"
    "i \<noteq> j" "length (writtenOf svcs) \<le> j" "i < length (appOwners svcs)" "j < length (appOwners svcs)" "m \<noteq> ''HEAD''"
    "routeTakes (ow_methods (appOwners svcs ! i)) (ow_path (appOwners svcs ! i)) m path"
  shows "\<not> routeTakes (ow_methods (appOwners svcs ! j)) (ow_path (appOwners svcs ! j)) m path"
proof -
  have plain: "plainRoute (ow_path (appOwners svcs ! k)) \<and> plainMethods (ow_methods (appOwners svcs ! k))"
    if "k < length (appOwners svcs)" for k
    using that appOwners_plain [OF assms(2, 3)] nth_mem by blast
  show ?thesis
  proof (cases "i < j")
    case True
    with not_colliding [OF accepted_no_collision [OF assms(1) True assms(5, 7)]] plain assms(6-9) show ?thesis by blast
  next
    case False
    with assms(4, 5) have "j < i" "length (writtenOf svcs) \<le> i" by auto
    with not_colliding [OF accepted_no_collision [OF assms(1) this(1) this(2) assms(6)]] plain assms(6-9) show ?thesis by blast
  qed
qed


definition userPackage :: Package where
  "userPackage = \<lparr>pk_RelDir = ''crm'', pk_Name = ''crm'', pk_ImportPath = ''app/crm'', pk_Service = Some \<lparr>sr_root = ''crm'', sr_name = ''crm''\<rparr>\<rparr>"

definition userDecl :: GenDecl where
  "userDecl = \<lparr>gd_Doc = [''//scenery:model''],
     gd_Specs = [TypeSpec ''User'' (Some
       [\<lparr>af_Names = [''ID''], af_TypeExpr = ''int64'', af_Type = GInt KInt64, af_Tag = []\<rparr>,
        \<lparr>af_Names = [''Name''], af_TypeExpr = ''string'', af_Type = GString, af_Tag = []\<rparr>]) []], gd_pos = []\<rparr>"

definition userConfig :: entityConfig where
  "userConfig = fst (applyOptions noConfig [(OGenerate [], []), (ODisable [Some ''delete''], [])])"

definition userEntity :: Entity where
  "userEntity = the (fst (parseEntity userPackage userDecl userConfig))"

definition crmService :: Service where
  "crmService = \<lparr>sv_Name = ''crm'', sv_RootRelDir = ''crm'', sv_Packages = [''crm''], sv_Struct = None,
     sv_Endpoints = [\<lparr>pe_Name = ''Report'', pe_ImplName = ''sceneryInternalImplReport'', pe_Access = Public, pe_Raw = False,
       pe_Path = ''/crm/users/:id/report'', pe_PathExplicit = True, pe_Methods = [''GET''], pe_Receiver = None, pe_Params = [],
       pe_Results = [], pe_PathParams = [], pe_Payload = None, pe_Response = None, pe_Tags = [], pe_Middleware = []\<rparr>],
     sv_Generated = [], sv_AuthHandler = None, sv_Middleware = []\<rparr>"

definition getUser :: GeneratedModelEndpoint where
  "getUser = \<lparr>ge_Entity = userEntity, ge_Action = EntityCRUDGet, ge_Name = ''GetUser'', ge_Access = Auth,
     ge_Path = ''/crm/users/:id'', ge_Methods = [''GET''], ge_PathParams = [\<lparr>ps_Name = ''id'', ps_Kind = ParamInt64\<rparr>],
     ge_HasPayload = False\<rparr>"

lemma crm_attached:
  "snd (attachGeneratedModelEndpoints [userEntity] [crmService]) = []"
  "validateGeneratedEndpointCollisions (fst (attachGeneratedModelEndpoints [userEntity] [crmService])) = []"
  "plainEndpoints (fst (attachGeneratedModelEndpoints [userEntity] [crmService]))"
  "list_ex (\<lambda>(svc, g). svc = ''crm'' \<and> g = getUser) (generatedOf (fst (attachGeneratedModelEndpoints [userEntity] [crmService])))"
  "routeTakes (ge_Methods getUser) (ge_Path getUser) ''GET'' ''/crm/users/7''"
  "the (patternMatch (parseRoutePattern (ge_Path getUser)) ''/crm/users/7'') = [(''id'', ''7'')]"
  by code_simp+


section \<open>Declared models\<close>

lemma normalized_disjoint: "a \<in> set (cr_Actions (normalizeEntityCRUD cfg)) \<Longrightarrow> a \<notin> set (cr_Disabled (normalizeEntityCRUD cfg))"
  by (auto simp: normalizeEntityCRUD_def noCRUD_def Let_def split: if_splits)

lemma built_action: "buildGeneratedModelEndpoint e a = Inr g \<Longrightarrow> ge_Entity g = e \<and> ge_Action g = a"
  by (auto simp: buildGeneratedModelEndpoint_def Let_def split: option.splits EntityCRUDAction.splits)

lemma parseEntity_cases:
  assumes "parseEntity pkg decl cfg = (Some e, errs)"
  obtains name sfs pos where "gd_Specs decl = [TypeSpec name (Some sfs) pos]"
    "en_Fields e = concat (map (entityFieldsOf cfg) sfs)" "en_CRUD e = normalizeEntityCRUD cfg" "en_Package e = pkg"
    "en_Seeds e = (if validateEntitySeedRows name (ec_Seeds cfg) (en_Fields e) = [] then ec_Seeds cfg else [])"
  using assms
  by (auto simp: parseEntity_def Let_def split: list.splits astSpec.splits option.splits)

text \<open>
  What a model disables or overrides is not generated.  Every generated endpoint of an application belongs to one of the
  declared models and to an action that this model neither disables nor overrides, and it asks for
  authentication.
\<close>

lemma disabled_not_generated:
  assumes "attachGeneratedModelEndpoints entities svcs0 = (svcs, errs)" "\<forall>svc \<in> set svcs0. sv_Generated svc = []"
    "\<forall>e \<in> set entities. \<exists>pkg decl cfg. fst (parseEntity pkg decl cfg) = Some e"
    "(svc, g) \<in> set (generatedOf svcs)"
  shows "ge_Entity g \<in> set entities \<and> ge_Action g \<in> set (cr_Actions (en_CRUD (ge_Entity g)))
         \<and> ge_Action g \<notin> set (cr_Disabled (en_CRUD (ge_Entity g)))
         \<and> overrideOf (en_CRUD (ge_Entity g)) (ge_Action g) = [] \<and> ge_Access g = Auth"
proof -
  have ok: "generatedOK (set entities) svcs"
    using generatedOK_attach [OF assms(1)] assms(2) by (simp add: generatedOK_def)
  from assms(4) obtain s where s: "s \<in> set svcs" "g \<in> set (sv_Generated s)" by (auto simp: generatedOf_def)
  with ok obtain e a where b: "e \<in> set entities" "a \<in> set (cr_Actions (en_CRUD e))" "overrideOf (en_CRUD e) a = []"
    "buildGeneratedModelEndpoint e a = Inr g" unfolding generatedOK_def by meson
  from assms(3) b(1) obtain pkg decl cfg where "fst (parseEntity pkg decl cfg) = Some e" by blast
  then have "en_CRUD e = normalizeEntityCRUD cfg"
    using parseEntity_cases [of pkg decl cfg e "snd (parseEntity pkg decl cfg)"] by (metis prod.collapse)
  moreover have "ge_Access g = Auth"
    using b(4) by (auto simp: buildGeneratedModelEndpoint_def Let_def split: option.splits EntityCRUDAction.splits)
  ultimately show ?thesis using b built_action [OF b(4)] normalized_disjoint by metis
qed

lemma disabled_not_generated_witness:
  "EntityCRUDGet \<notin> set (cr_Disabled (en_CRUD userEntity))"
proof -
  have m: "(''crm'', getUser) \<in> set (generatedOf (fst (attachGeneratedModelEndpoints [userEntity] [crmService])))"
    using crm_attached(4) unfolding list_ex_iff by auto
  have p: "fst (parseEntity userPackage userDecl userConfig) = Some userEntity" by code_simp
  have "\<forall>svc \<in> set [crmService]. sv_Generated svc = []" by (simp add: crmService_def)
  moreover have "\<forall>e \<in> set [userEntity]. \<exists>pkg decl cfg. fst (parseEntity pkg decl cfg) = Some e" using p by auto
  ultimately show ?thesis
    using disabled_not_generated [OF prod.collapse [symmetric] _ _ m] by (simp add: getUser_def)
qed

text \<open>The seed rows that are kept set the ID, and only stored fields of the model.\<close>

lemma kept_seeds_valid:
  assumes "parseEntity pkg decl cfg = (Some e, errs)" "row \<in> set (en_Seeds e)"
  shows "\<exists>v \<in> set (row_Values row). setsID (en_Fields e) v"
    and "\<forall>v \<in> set (row_Values row). \<exists>f \<in> set (en_Fields e). ef_Name f = sd_Field v \<and> ef_Kind f \<noteq> EntityFieldComputed"
proof -
  obtain name where s: "en_Seeds e = (if validateEntitySeedRows name (ec_Seeds cfg) (en_Fields e) = [] then ec_Seeds cfg else [])"
    using parseEntity_cases [OF assms(1)] by metis
  with assms(2) have v: "validateEntitySeedRows name (ec_Seeds cfg) (en_Fields e) = []" "row \<in> set (ec_Seeds cfg)"
    by (auto split: if_splits)
  then show "\<exists>v \<in> set (row_Values row). setsID (en_Fields e) v"
    by (auto simp: validateEntitySeedRows_def list_ex_iff split: if_splits)
  have "seedValueError name (en_Fields e) w = []" if "w \<in> set (row_Values row)" for w
    using v that by (auto simp: validateEntitySeedRows_def)
  then show "\<forall>v \<in> set (row_Values row). \<exists>f \<in> set (en_Fields e). ef_Name f = sd_Field v \<and> ef_Kind f \<noteq> EntityFieldComputed"
    by (fastforce simp: seedValueError_def fieldByName_def dest: find_In split: option.splits if_splits)
qed

end
