(* ===== verification/ParseApp.thy ===== *)
theory ParseApp
  imports ParseModel GoPath
begin

text \<open>
  The parser of an application, \<open>App\<close> of \<open>internal/parse/parser.go\<close>: endpoints, auth handlers, middleware and service structs from their
  declarations, the grouping of packages into services, and the checks that make the model of an application consistent.  The
  input is what \<open>go/packages\<close> returns, each declaration as its comments and signature.  Three parts that only walk
  syntax trees are arguments: the errors of the calls of the temporal package, the reading of a page literal, and the calls
  of raw endpoints.  A dereference of a missing service is \<open>Panic\<close>.
\<close>

section \<open>Definitions\<close>

subsection \<open>Types in signatures\<close>

definition errorType :: gotype where
  "errorType = GNamed [] ''error'' (GInterface False)"

fun unwrapNamed :: "gotype \<Rightarrow> (string \<times> string) option" where
  "unwrapNamed (GNamed pkg name t) = Some (pkg, name)"
| "unwrapNamed (GPtr (GNamed pkg name t)) = Some (pkg, name)"
| "unwrapNamed t = None"

definition isNamedType :: "gotype \<Rightarrow> string \<Rightarrow> string \<Rightarrow> bool" where
  "isNamedType t pkgPath name = (unwrapNamed t = Some (pkgPath, name))"

definition isErrorType :: "gotype \<Rightarrow> bool" where
  "isErrorType t = (t = errorType)"

fun isStruct :: "gotype \<Rightarrow> bool" where
  "isStruct (GPtr t) = isStruct t"
| "isStruct t = (case under t of GStruct fs \<Rightarrow> True | _ \<Rightarrow> False)"

fun isStringOrStruct :: "gotype \<Rightarrow> bool" where
  "isStringOrStruct GString = True"
| "isStringOrStruct (GPtr t) = (unwrapNamed t \<noteq> None \<or> isStruct t)"
| "isStringOrStruct t = isStruct t"

definition isAuthUIDType :: "gotype \<Rightarrow> bool" where
  "isAuthUIDType t = isNamedType t ''scenery.sh/auth'' ''UID''"

definition isMiddlewareNamedType :: "gotype \<Rightarrow> string \<Rightarrow> bool" where
  "isMiddlewareNamedType t name = isNamedType t ''scenery.sh/middleware'' name"

definition isContext :: "gotype \<Rightarrow> bool" where
  "isContext t = isNamedType t ''context'' ''Context''"

fun paramKind :: "gotype \<Rightarrow> ParamKind option" where
  "paramKind GString = Some ParamString"
| "paramKind GBool = Some ParamBool"
| "paramKind (GInt KInt) = Some ParamInt"
| "paramKind (GInt KInt8) = Some ParamInt8"
| "paramKind (GInt KInt16) = Some ParamInt16"
| "paramKind (GInt KInt32) = Some ParamInt32"
| "paramKind (GInt KInt64) = Some ParamInt64"
| "paramKind (GUint KUint) = Some ParamUint"
| "paramKind (GUint KUint8) = Some ParamUint8"
| "paramKind (GUint KUint16) = Some ParamUint16"
| "paramKind (GUint KUint32) = Some ParamUint32"
| "paramKind (GUint KUint64) = Some ParamUint64"
| "paramKind (GNamed pkg name t) = (if isAuthUIDType (GNamed pkg name t) then Some ParamString else None)"
| "paramKind t = None"

subsection \<open>Declarations\<close>

datatype definedObject = Unresolved | NotFunction | FunctionObject

record astReceiver =
  ar_Names :: "string list"
  ar_Pointer :: bool
  ar_TypeName :: string

record FuncDecl =
  fn_Doc :: "string list"
  fn_Name :: string
  fn_Object :: definedObject
  fn_Recv :: "astReceiver list"
  fn_Params :: "astField list"
  fn_Results :: "astField list"
  fn_pos :: nat

fun expandFieldsFrom :: "string \<Rightarrow> nat \<Rightarrow> astField list \<Rightarrow> Field list" where
  "expandFieldsFrom prefix index [] = []"
| "expandFieldsFrom prefix index (field # rest) =
     (if af_Names field = []
      then \<lparr>fd_Name = prefix @ itoaNat index, fd_TypeExpr = af_TypeExpr field, fd_Type = af_Type field\<rparr>
             # expandFieldsFrom prefix (index + 1) rest
      else map (\<lambda>name. \<lparr>fd_Name = name, fd_TypeExpr = af_TypeExpr field, fd_Type = af_Type field\<rparr>) (af_Names field)
             @ expandFieldsFrom prefix (index + length (af_Names field)) rest)"

definition expandFields :: "astField list \<Rightarrow> string \<Rightarrow> Field list" where
  "expandFields fs prefix = expandFieldsFrom prefix 0 fs"

definition receiverFromFieldList :: "astReceiver list \<Rightarrow> Receiver option" where
  "receiverFromFieldList list =
     (case list of
        [] \<Rightarrow> None
      | field # _ \<Rightarrow> Some
          \<lparr>rc_Name = (case ar_Names field of [] \<Rightarrow> ''receiver'' | name # _ \<Rightarrow> name), rc_TypeName = ar_TypeName field,
           rc_TypeExpr = (if ar_Pointer field then ''*'' else []) @ ar_TypeName field, rc_Pointer = ar_Pointer field\<rparr>)"

fun bindPathParams :: "string \<Rightarrow> string list \<Rightarrow> Field list \<Rightarrow> string + ParamSpec list" where
  "bindPathParams ep [] fs = Inr []"
| "bindPathParams ep (name # names) [] = Inr []"
| "bindPathParams ep (name # names) (field # fs) =
     (if fd_Name field \<noteq> name
      then Inl (''endpoint '' @ ep @ '' path param '' @ name @ '' must match function param '' @ fd_Name field)
      else case paramKind (fd_Type field) of
             None \<Rightarrow> Inl (''endpoint '' @ ep @ '' path param '' @ fd_Name field @ '' has unsupported type '' @ fd_TypeExpr field)
           | Some kind \<Rightarrow>
             (case bindPathParams ep names fs of
                Inl e \<Rightarrow> Inl e
              | Inr ps \<Rightarrow> Inr (\<lparr>ps_Name = fd_Name field, ps_Kind = kind\<rparr> # ps)))"

definition rawEndpointOf :: "Endpoint \<Rightarrow> string + Endpoint" where
  "rawEndpointOf ep =
     (if length (pe_Params ep) \<noteq> 2
      then Inl (''raw endpoint '' @ pe_Name ep @ '' must have signature func(http.ResponseWriter, *http.Request)'')
      else if pe_Results ep \<noteq> [] then Inl (''raw endpoint '' @ pe_Name ep @ '' cannot return values'')
      else if pe_Access ep = Private then Inl (''raw endpoint '' @ pe_Name ep @ '' cannot be private'')
      else Inr (if pe_Methods ep = [] then ep\<lparr>pe_Methods := [''*'']\<rparr> else ep))"

definition typedEndpointOf :: "Endpoint \<Rightarrow> string + Endpoint" where
  "typedEndpointOf ep =
     (case pe_Params ep of
        [] \<Rightarrow> Inl (''endpoint '' @ pe_Name ep @ '' must accept context.Context'')
      | ctx # afterContext \<Rightarrow>
        if \<not> isContext (fd_Type ctx) then Inl (''endpoint '' @ pe_Name ep @ '' first parameter must be context.Context'')
        else if pe_Results ep = [] \<or> length (pe_Results ep) > 2 \<or> \<not> isErrorType (fd_Type (last (pe_Results ep)))
        then Inl (''endpoint '' @ pe_Name ep @ '' must return error or (resp, error)'')
        else
          (case parsePath (pe_Path ep) of
             Inl e \<Rightarrow> Inl (''endpoint '' @ pe_Name ep @ '': '' @ e)
           | Inr pathParams \<Rightarrow>
             if length afterContext < length pathParams \<or> length afterContext > length pathParams + 1
             then Inl (''endpoint '' @ pe_Name ep @ '' has wrong number of parameters for path '' @ pe_Path ep)
             else
               (case bindPathParams (pe_Name ep) pathParams afterContext of
                  Inl e \<Rightarrow> Inl e
                | Inr specs \<Rightarrow>
                  (let payload = (if length afterContext = length pathParams + 1 then Some (last afterContext) else None)
                   in Inr (ep\<lparr>pe_Response := (if length (pe_Results ep) = 2 then Some (hd (pe_Results ep)) else None),
                              pe_PathParams := specs, pe_Payload := payload,
                              pe_Methods := (if pe_Methods ep \<noteq> [] then pe_Methods ep
                                             else if payload = None then [''GET'', ''POST''] else [''POST''])\<rparr>)))))"

definition endpointOf :: "FuncDecl \<Rightarrow> directive \<Rightarrow> Endpoint" where
  "endpointOf fn dir =
     \<lparr>pe_Name = fn_Name fn, pe_ImplName = ''sceneryInternalImpl'' @ fn_Name fn,
      pe_Access = (if dirOption dir ''auth'' then Auth else if dirOption dir ''public'' then Public else Private),
      pe_Raw = dirOption dir ''raw'', pe_Path = dirField dir ''path'', pe_PathExplicit = (dirField dir ''path'' \<noteq> []),
      pe_Methods = parseMethods (dirField dir ''method''), pe_Receiver = receiverFromFieldList (fn_Recv fn),
      pe_Params = expandFields (fn_Params fn) ''arg'', pe_Results = expandFields (fn_Results fn) ''ret'',
      pe_PathParams = [], pe_Payload = None, pe_Response = None, pe_Tags = dir_tags dir, pe_Middleware = []\<rparr>"

definition parseEndpoint :: "FuncDecl \<Rightarrow> directive \<Rightarrow> string + Endpoint" where
  "parseEndpoint fn dir =
     (case fn_Object fn of
        Unresolved \<Rightarrow> Inl (''unable to resolve '' @ fn_Name fn)
      | NotFunction \<Rightarrow> Inl (fn_Name fn @ '' is not a function'')
      | FunctionObject \<Rightarrow>
        (let ep = endpointOf fn dir in if pe_Raw ep then rawEndpointOf ep else typedEndpointOf ep))"

definition parseAuthHandler :: "string \<Rightarrow> FuncDecl \<Rightarrow> string + AuthHandler" where
  "parseAuthHandler service fn =
     (case fn_Object fn of
        Unresolved \<Rightarrow> Inl (''unable to resolve auth handler '' @ fn_Name fn)
      | NotFunction \<Rightarrow> Inl (fn_Name fn @ '' is not a function'')
      | FunctionObject \<Rightarrow>
        (let params = expandFields (fn_Params fn) ''arg''; results = expandFields (fn_Results fn) ''ret''
         in if length params \<noteq> 2 \<or> \<not> isContext (fd_Type (params ! 0))
            then Inl (''auth handler '' @ fn_Name fn @ '' must have signature func(context.Context, ...)'')
            else if length results < 2 \<or> length results > 3 \<or> \<not> isErrorType (fd_Type (last results))
            then Inl (''auth handler '' @ fn_Name fn @ '' must return (auth.UID, error) or (auth.UID, data, error)'')
            else if \<not> isAuthUIDType (fd_Type (results ! 0))
            then Inl (''auth handler '' @ fn_Name fn @ '' first return must be auth.UID'')
            else if \<not> isStringOrStruct (fd_Type (params ! 1))
            then Inl (''auth handler '' @ fn_Name fn @ '' parameter must be string or struct'')
            else Inr \<lparr>ah_Service = service, ah_Name = fn_Name fn, ah_Receiver = receiverFromFieldList (fn_Recv fn),
                      ah_Param = params ! 1, ah_AuthData = (if length results = 3 then Some (results ! 1) else None)\<rparr>))"

definition parseMiddleware :: "string \<Rightarrow> string \<Rightarrow> FuncDecl \<Rightarrow> directive \<Rightarrow> string + Middleware" where
  "parseMiddleware service file fn dir =
     (let badSignature = ''middleware '' @ fn_Name fn @ '' must have signature func(middleware.Request, middleware.Next) middleware.Response''
      in case fn_Object fn of
           Unresolved \<Rightarrow> Inl (''unable to resolve middleware '' @ fn_Name fn)
         | NotFunction \<Rightarrow> Inl (fn_Name fn @ '' is not a function'')
         | FunctionObject \<Rightarrow>
           (let params = map fd_Type (expandFields (fn_Params fn) ''arg''); results = map fd_Type (expandFields (fn_Results fn) ''ret'')
            in if length params \<noteq> 2 \<or> length results \<noteq> 1 then Inl badSignature
               else if \<not> isMiddlewareNamedType (params ! 0) ''Request'' \<or> \<not> isMiddlewareNamedType (params ! 1) ''Next''
                       \<or> \<not> isMiddlewareNamedType (results ! 0) ''Response'' then Inl badSignature
               else case parseMiddlewareTargets (dirField dir ''target'') of
                      Inl e \<Rightarrow> Inl (''middleware '' @ fn_Name fn @ '': '' @ e)
                    | Inr targets \<Rightarrow>
                      Inr \<lparr>pm_Service = service, pm_Name = fn_Name fn, pm_File = file, pm_Receiver = receiverFromFieldList (fn_Recv fn),
                           pm_Global = dirOption dir ''global'', pm_Targets = targets, pm_pos = fn_pos fn\<rparr>))"

text \<open>
  The package scope: the signature of a function, and for a type the signature of its \<open>Shutdown\<close> method
  (\<open>None\<close> twice: there is none, it is no function).
\<close>

record scope =
  sc_functions :: "(string \<times> gotype list \<times> gotype list) list"
  sc_shutdown :: "(string \<times> (gotype list \<times> gotype list) option) list"

definition parseServiceStruct :: "scope \<Rightarrow> string \<Rightarrow> GenDecl \<Rightarrow> string + ServiceStruct" where
  "parseServiceStruct sc importPath decl =
     (case gd_Specs decl of
        [TypeSpec typeName (Some fs) pos] \<Rightarrow>
          (let init = (case map_of (sc_functions sc) (''init'' @ typeName) of
                         Some ([], [GPtr t, e]) \<Rightarrow>
                           if isNamedType (GPtr t) importPath typeName \<and> isErrorType e then ''init'' @ typeName else []
                       | _ \<Rightarrow> []);
               ss = \<lparr>ss_TypeName = typeName, ss_InitFunc = init, ss_Shutdown = []\<rparr>
           in case map_of (sc_shutdown sc) typeName of
                None \<Rightarrow> Inr ss
              | Some (Some ([ctx], [])) \<Rightarrow>
                if isContext ctx then Inr (ss\<lparr>ss_Shutdown := ''Shutdown''\<rparr>)
                else Inl (''service '' @ typeName @ '' Shutdown method must have signature func(context.Context)'')
              | Some _ \<Rightarrow> Inl (''service '' @ typeName @ '' Shutdown method must have signature func(context.Context)''))
      | [TypeSpec typeName None pos] \<Rightarrow> Inl ''scenery:service must annotate a struct type''
      | [OtherSpec] \<Rightarrow> Inl ''scenery:service must annotate a type declaration''
      | _ \<Rightarrow> Inl ''scenery:service must be declared on a single struct type'')"

subsection \<open>Services\<close>

definition serviceRootForDir :: "string \<Rightarrow> string" where
  "serviceRootForDir relDir = (if relDir = ''.'' then ''.'' else fst (cut CHR ''/'' relDir))"

definition sameOrDescendantDir :: "string \<Rightarrow> string \<Rightarrow> bool" where
  "sameOrDescendantDir relDir root =
     (if relDir = root then True else if root = ''.'' then False else hasPrefix (root @ ''/'') relDir)"

text \<open>The loop over the map of explicit roots, in the order Go happens to choose.\<close>

fun rootLoop :: "string \<Rightarrow> string \<Rightarrow> string list \<Rightarrow> string" where
  "rootLoop relDir root [] = root"
| "rootLoop relDir root (explicit # rest) =
     (if explicit = ''.'' then (if relDir = ''.'' then ''.'' else rootLoop relDir root rest)
      else if \<not> sameOrDescendantDir relDir explicit then rootLoop relDir root rest
      else rootLoop relDir (if root = ''.'' \<or> length explicit > length root then explicit else root) rest)"

definition serviceRootForPackage :: "string \<Rightarrow> string list \<Rightarrow> string" where
  "serviceRootForPackage relDir explicitRoots = rootLoop relDir (serviceRootForDir relDir) explicitRoots"

definition discoverServiceName :: "Package \<Rightarrow> string \<Rightarrow> Package list \<Rightarrow> string" where
  "discoverServiceName pkg root pkgs =
     (case find (\<lambda>p. pk_RelDir p = root) (rev pkgs) of
        Some rootPkg \<Rightarrow> pk_Name rootPkg
      | None \<Rightarrow> if root = ''.'' then pk_Name pkg else pathBase root)"

datatype decl = DGen GenDecl | DFunc FuncDecl

record sourceFile =
  fl_Path :: string
  fl_Decls :: "decl list"

record sourcePackage =
  sp_Package :: Package
  sp_Files :: "sourceFile list"
  sp_Scope :: scope

definition packageDeclaresService :: "sourcePackage \<Rightarrow> bool" where
  "packageDeclaresService sp =
     list_ex (\<lambda>file. list_ex (\<lambda>d. case d of
         DGen gen \<Rightarrow> (case parseDirective (gd_Doc gen) of None \<Rightarrow> False | Some dir \<Rightarrow> dir_name dir = ''service'')
       | DFunc fn \<Rightarrow> False) (fl_Decls file)) (sp_Files sp)"

definition newService :: "string \<Rightarrow> string \<Rightarrow> Service" where
  "newService name root =
     \<lparr>sv_Name = name, sv_RootRelDir = root, sv_Packages = [], sv_Struct = None, sv_Endpoints = [], sv_Generated = [],
      sv_AuthHandler = None, sv_Middleware = []\<rparr>"

definition linkPackage :: "string \<Rightarrow> string \<Rightarrow> sourcePackage \<Rightarrow> sourcePackage" where
  "linkPackage root name sp = sp\<lparr>sp_Package := (sp_Package sp)\<lparr>pk_Service := Some \<lparr>sr_root = root, sr_name = name\<rparr>\<rparr>\<rparr>"

fun groupServices :: "Package list \<Rightarrow> string list \<Rightarrow> Service list \<Rightarrow> sourcePackage list \<Rightarrow> Service list \<times> sourcePackage list \<times> string list" where
  "groupServices byRelDir explicit svcs [] = (svcs, [], [])"
| "groupServices byRelDir explicit svcs (sp # sps) =
     (let pkg = sp_Package sp;
          root = serviceRootForPackage (pk_RelDir pkg) explicit;
          name = discoverServiceName pkg root byRelDir;
          join = (\<lambda>svc svcs.
            (let svcs = updateService root (\<lambda>s. s\<lparr>sv_Packages := sv_Packages s @ [pk_RelDir pkg]\<rparr>) svcs;
                 (svcs, sps, errs) = groupServices byRelDir explicit svcs sps
             in (svcs, linkPackage root (sv_Name svc) sp # sps, errs)))
      in case serviceAt root svcs of
           Some svc \<Rightarrow> join svc svcs
         | None \<Rightarrow>
           if list_ex (\<lambda>s. sv_Name s = name \<and> sv_RootRelDir s \<noteq> root) svcs
           then (let (svcs, sps, errs) = groupServices byRelDir explicit svcs sps
                 in (svcs, sp # sps, (''two services were found with the same name '' @ goQuote name) # errs))
           else join (newService name root) (svcs @ [newService name root]))"

subsection \<open>The declarations of all packages\<close>

record View =
  vw_Name :: string
  vw_Entity :: string
  vw_RelDir :: string
  vw_pos :: string

record found =
  fo_Services :: "Service list"
  fo_Entities :: "Entity list"
  fo_Views :: "View list"
  fo_AuthHandlers :: "AuthHandler list"
  fo_Middlewares :: "Middleware list"
  fo_Raw :: "(string \<times> Endpoint) list"
  fo_Directive :: bool
  fo_Errs :: "string list"

type_synonym 'a parsed = "(string, 'a) outcome"

definition addErr :: "string \<Rightarrow> found \<Rightarrow> found" where
  "addErr e st = st\<lparr>fo_Errs := fo_Errs st @ [e]\<rparr>"

text \<open>The service of a package; a missing one is a nil pointer.\<close>

definition withService :: "Package \<Rightarrow> (serviceRef \<Rightarrow> found parsed) \<Rightarrow> found parsed" where
  "withService pkg f = (case pk_Service pkg of None \<Rightarrow> Panic | Some ref \<Rightarrow> f ref)"

definition genDecl ::
  "(Package \<Rightarrow> GenDecl \<Rightarrow> View option \<times> string list) \<Rightarrow> (string, entityConfig) gomap \<Rightarrow> sourcePackage \<Rightarrow> GenDecl \<Rightarrow> found \<Rightarrow> found parsed" where
  "genDecl parsePageView configs sp gd st =
     (let pkg = sp_Package sp
      in case parseDirective (gd_Doc gd) of
           None \<Rightarrow> Ret st
         | Some dir \<Rightarrow>
           (let st = st\<lparr>fo_Directive := True\<rparr>
            in if dir_name dir = ''service''
               then (case parseServiceStruct (sp_Scope sp) (pk_ImportPath pkg) gd of
                       Inl e \<Rightarrow> Ret (addErr e st)
                     | Inr ss \<Rightarrow> withService pkg (\<lambda>ref.
                         if pred_option (\<lambda>svc. sv_Struct svc \<noteq> None) (serviceAt (sr_root ref) (fo_Services st))
                         then Ret (addErr (''duplicate scenery:service directive in service '' @ sr_name ref) st)
                         else Ret (st\<lparr>fo_Services := updateService (sr_root ref) (\<lambda>svc. svc\<lparr>sv_Struct := Some ss\<rparr>) (fo_Services st)\<rparr>)))
               else if dir_name dir = ''model''
               then (let name = (case gd_Specs gd of [TypeSpec n fs pos] \<Rightarrow> n | _ \<Rightarrow> []);
                         cfg = (case map_of configs (entityConfigKey (pk_ImportPath pkg) name) of None \<Rightarrow> noConfig | Some c \<Rightarrow> c);
                         (entity, errs) = parseEntity pkg gd cfg
                     in Ret (st\<lparr>fo_Errs := fo_Errs st @ errs,
                                fo_Entities := fo_Entities st @ (case entity of None \<Rightarrow> [] | Some e \<Rightarrow> [e])\<rparr>))
               else if dir_name dir = ''page''
               then (let (view, errs) = parsePageView pkg gd
                     in Ret (st\<lparr>fo_Errs := fo_Errs st @ errs, fo_Views := fo_Views st @ (case view of None \<Rightarrow> [] | Some v \<Rightarrow> [v])\<rparr>))
               else Ret st))"

definition funcDecl :: "sourcePackage \<Rightarrow> string \<Rightarrow> FuncDecl \<Rightarrow> found \<Rightarrow> found parsed" where
  "funcDecl sp file fn st =
     (let pkg = sp_Package sp
      in case parseDirective (fn_Doc fn) of
           None \<Rightarrow> Ret st
         | Some dir \<Rightarrow>
           (let st = st\<lparr>fo_Directive := True\<rparr>
            in if dir_name dir = ''api''
               then (case parseEndpoint fn dir of
                       Inl e \<Rightarrow> Ret (addErr e st)
                     | Inr ep \<Rightarrow> withService pkg (\<lambda>ref.
                         let ep = (if pe_PathExplicit ep then ep else ep\<lparr>pe_Path := ''/'' @ sr_name ref @ ''.'' @ pe_Name ep\<rparr>)
                         in Ret (st\<lparr>fo_Services := updateService (sr_root ref) (\<lambda>svc. svc\<lparr>sv_Endpoints := sv_Endpoints svc @ [ep]\<rparr>) (fo_Services st),
                                    fo_Raw := fo_Raw st @ (if pe_Raw ep then [(sr_name ref, ep)] else [])\<rparr>)))
               else if dir_name dir = ''authhandler''
               then (case parseAuthHandler (case pk_Service pkg of None \<Rightarrow> [] | Some ref \<Rightarrow> sr_root ref) fn of
                       Inl e \<Rightarrow> Ret (addErr e st)
                     | Inr ah \<Rightarrow> Ret (st\<lparr>fo_AuthHandlers := fo_AuthHandlers st @ [ah]\<rparr>))
               else if dir_name dir = ''middleware''
               then (case parseMiddleware (case pk_Service pkg of None \<Rightarrow> [] | Some ref \<Rightarrow> sr_root ref) file fn dir of
                       Inl e \<Rightarrow> Ret (addErr e st)
                     | Inr mw \<Rightarrow> withService pkg (\<lambda>ref.
                         Ret (st\<lparr>fo_Middlewares := fo_Middlewares st @ [mw],
                                 fo_Services := updateService (sr_root ref) (\<lambda>svc. svc\<lparr>sv_Middleware := sv_Middleware svc @ [mw]\<rparr>) (fo_Services st)\<rparr>)))
               else Ret st))"

fun foldDecls :: "('d \<Rightarrow> found \<Rightarrow> found parsed) \<Rightarrow> 'd list \<Rightarrow> found \<Rightarrow> found parsed" where
  "foldDecls f [] st = Ret st"
| "foldDecls f (d # ds) st = obind (f d st) (foldDecls f ds)"

definition packageDecls ::
  "(Package \<Rightarrow> GenDecl \<Rightarrow> View option \<times> string list) \<Rightarrow> (string, entityConfig) gomap \<Rightarrow> sourcePackage \<Rightarrow> found \<Rightarrow> found parsed" where
  "packageDecls parsePageView configs sp =
     foldDecls (\<lambda>file. foldDecls (\<lambda>d. case d of
         DGen gd \<Rightarrow> genDecl parsePageView configs sp gd
       | DFunc fn \<Rightarrow> funcDecl sp (fl_Path file) fn) (fl_Decls file)) (sp_Files sp)"

subsection \<open>Middleware\<close>

text \<open>\<open>filepath.Rel\<close>; \<open>None\<close> is its error.\<close>

definition pathElems :: "string \<Rightarrow> string list" where
  "pathElems p = (if p = ''.'' then [] else filter (\<lambda>w. w \<noteq> []) (splitOn CHR ''/'' p))"

fun dropCommon :: "string list \<Rightarrow> string list \<Rightarrow> string list \<times> string list" where
  "dropCommon (b # bs) (t # ts) = (if b = t then dropCommon bs ts else (b # bs, t # ts))"
| "dropCommon bs ts = (bs, ts)"

definition pathRel :: "string \<Rightarrow> string \<Rightarrow> string option" where
  "pathRel base targ =
     (let b = pathClean base; t = pathClean targ
      in if t = b then Some ''.''
         else if pathRooted b \<noteq> pathRooted t then None
         else case dropCommon (pathElems b) (pathElems t) of
                (bs, ts) \<Rightarrow> if bs \<noteq> [] \<and> hd bs = ''..'' then None
                            else Some (joinWith ''/'' (map (\<lambda>_. ''..'') bs @ ts)))"

definition relativeFilePath :: "string \<Rightarrow> string \<Rightarrow> string" where
  "relativeFilePath root path = (case pathRel root path of None \<Rightarrow> path | Some rel \<Rightarrow> rel)"

definition compareMiddleware :: "string \<Rightarrow> Middleware \<Rightarrow> Middleware \<Rightarrow> int" where
  "compareMiddleware root a b =
     (if pm_Global a \<noteq> pm_Global b then (if pm_Global a then -1 else 1)
      else let cmp = compare (relativeFilePath root (pm_File a)) (relativeFilePath root (pm_File b))
           in if cmp \<noteq> 0 then cmp
              else if pm_pos a < pm_pos b then -1 else if pm_pos a > pm_pos b then 1 else 0)"

definition sortMiddleware :: "string \<Rightarrow> Middleware list \<Rightarrow> Middleware list" where
  "sortMiddleware root mws = sortStable (compareMiddleware root) mws"

definition candidateEndpoints :: "Service list \<Rightarrow> Middleware \<Rightarrow> Endpoint list" where
  "candidateEndpoints svcs mw =
     (if pm_Global mw then concat (map sv_Endpoints svcs)
      else case serviceAt (pm_Service mw) svcs of None \<Rightarrow> [] | Some svc \<Rightarrow> sv_Endpoints svc)"

definition middlewareAppliesToService :: "Middleware \<Rightarrow> Service \<Rightarrow> bool" where
  "middlewareAppliesToService mw svc = (pm_Global mw \<or> pm_Service mw = sv_RootRelDir svc)"

fun targetMatches :: "Endpoint \<Rightarrow> Selector \<Rightarrow> bool" where
  "targetMatches ep SelectorAll = True"
| "targetMatches ep (SelectorTag tag) = (tag \<in> set (pe_Tags ep))"

definition middlewareMatchesEndpoint :: "Middleware \<Rightarrow> Endpoint \<Rightarrow> bool" where
  "middlewareMatchesEndpoint mw ep = list_ex (targetMatches ep) (pm_Targets mw)"

definition applyMiddleware :: "Middleware list \<Rightarrow> Service \<Rightarrow> Service" where
  "applyMiddleware mws svc =
     svc\<lparr>sv_Endpoints := map (\<lambda>ep. ep\<lparr>pe_Middleware := pe_Middleware ep
        @ filter (\<lambda>mw. middlewareAppliesToService mw svc \<and> middlewareMatchesEndpoint mw ep) mws\<rparr>) (sv_Endpoints svc)\<rparr>"

subsection \<open>Checks\<close>

definition receiverError :: "Service \<Rightarrow> string \<Rightarrow> Receiver option \<Rightarrow> string list" where
  "receiverError svc what recv =
     (case recv of
        None \<Rightarrow> []
      | Some r \<Rightarrow>
        (case sv_Struct svc of
           Some ss \<Rightarrow> if rc_TypeName r = ss_TypeName ss then []
             else [what @ '' receiver '' @ rc_TypeName r @ '' does not match scenery:service struct '' @ ss_TypeName ss]
         | None \<Rightarrow> [what @ '' uses receiver '' @ rc_TypeName r @ '' but service '' @ sv_Name svc @ '' has no scenery:service struct'']))"

definition receiverErrors :: "Service \<Rightarrow> string list" where
  "receiverErrors svc =
     concat (map (\<lambda>ep. receiverError svc (''endpoint '' @ sv_Name svc @ ''.'' @ pe_Name ep) (pe_Receiver ep)) (sv_Endpoints svc))
     @ (case sv_AuthHandler svc of None \<Rightarrow> [] | Some ah \<Rightarrow> receiverError svc (''auth handler '' @ ah_Name ah) (ah_Receiver ah))
     @ concat (map (\<lambda>mw. receiverError svc (''middleware '' @ pm_Name mw) (pm_Receiver mw)) (sv_Middleware svc))"

fun seenErrors :: "(string \<Rightarrow> string) \<Rightarrow> string list \<Rightarrow> string list \<Rightarrow> string list" where
  "seenErrors msg seen [] = []"
| "seenErrors msg seen (name # names) =
     (if name \<in> set seen then [msg name] else []) @ seenErrors msg (name # seen) names"

definition nameErrors :: "Service \<Rightarrow> string list" where
  "nameErrors svc =
     seenErrors (\<lambda>n. ''duplicate endpoint name '' @ n @ '' in service '' @ sv_Name svc) [] (map pe_Name (sv_Endpoints svc))
     @ seenErrors (\<lambda>n. ''generated model endpoint '' @ n @ '' collides with endpoint name in service '' @ sv_Name svc @ overrideHint)
         (map pe_Name (sv_Endpoints svc)) (map ge_Name (sv_Generated svc))"

definition unmatchedErrors :: "Service list \<Rightarrow> Middleware list \<Rightarrow> string list" where
  "unmatchedErrors svcs mws =
     map (\<lambda>mw. ''middleware '' @ pm_Name mw @ '' target matches no endpoints'')
       (filter (\<lambda>mw. \<not> list_ex (middlewareMatchesEndpoint mw) (candidateEndpoints svcs mw)) mws)"

definition pruneEmptyServices :: "Service list \<Rightarrow> Service list" where
  "pruneEmptyServices svcs = filter (\<lambda>svc. sv_Endpoints svc \<noteq> [] \<or> sv_Generated svc \<noteq> []) svcs"

definition validateViews :: "Entity list \<Rightarrow> View list \<Rightarrow> string list" where
  "validateViews entities views =
     map (\<lambda>v. sourceDiagnostic (vw_pos v) (''page '' @ vw_Name v @ '' references unknown model '' @ vw_Entity v))
       (filter (\<lambda>v. vw_Entity v \<notin> set (map en_Name entities)) views)"

subsection \<open>The application\<close>

record appInput =
  in_Root :: string
  in_Packages :: "sourcePackage list"
  in_EntityCalls :: "entityCall list"
  in_RuntimeErrs :: "string list"

record App =
  ap_Services :: "Service list"
  ap_Middleware :: "Middleware list"
  ap_Entities :: "Entity list"
  ap_Views :: "View list"

definition sortBy :: "('a \<Rightarrow> string list) \<Rightarrow> 'a list \<Rightarrow> 'a list" where
  "sortBy key xs = sortStable (\<lambda>a b. if key a < key b then -1 else if key b < key a then 1 else 0) xs"

definition setAuthHandler :: "found \<Rightarrow> found parsed" where
  "setAuthHandler st =
     (case fo_AuthHandlers st of
        [ah] \<Rightarrow>
          (if serviceAt (ah_Service ah) (fo_Services st) = None then Panic
           else Ret (st\<lparr>fo_Services := updateService (ah_Service ah) (\<lambda>svc. svc\<lparr>sv_AuthHandler := Some ah\<rparr>) (fo_Services st)\<rparr>))
      | _ \<Rightarrow> Ret st)"

definition finishApp :: "string \<Rightarrow> ((string \<times> Endpoint) list \<Rightarrow> string list) \<Rightarrow> found \<Rightarrow> App parsed" where
  "finishApp root rawCallErrs st =
     (let mws = sortMiddleware root (fo_Middlewares st);
          (svcs, attachErrs) = attachGeneratedModelEndpoints (fo_Entities st) (fo_Services st);
          errs = fo_Errs st @ attachErrs @ validateGeneratedEndpointCollisions svcs
            @ concat (map (\<lambda>svc. receiverErrors svc @ nameErrors svc) svcs)
            @ unmatchedErrors svcs mws
            @ validateViews (fo_Entities st) (fo_Views st)
            @ rawCallErrs (fo_Raw st);
          svcs = pruneEmptyServices (map (applyMiddleware mws) svcs)
      in if errs \<noteq> [] then Fail (joinWith [CHR 0x0A] errs)
         else Ret \<lparr>ap_Services = map (\<lambda>svc. svc\<lparr>sv_Endpoints := sortBy (\<lambda>ep. [pe_Name ep]) (sv_Endpoints svc)\<rparr>)
                                  (sortBy (\<lambda>svc. [sv_Name svc]) svcs),
                   ap_Middleware = mws,
                   ap_Entities = sortBy (\<lambda>e. [pk_RelDir (en_Package e), en_Name e]) (fo_Entities st),
                   ap_Views = sortBy (\<lambda>v. [vw_RelDir v, vw_Name v]) (fo_Views st)\<rparr>)"

definition handlerErrs :: "found \<Rightarrow> found" where
  "handlerErrs st =
     (let st = (if length (fo_AuthHandlers st) > 1
                then addErr ''only one scenery:authhandler is supported per application'' st else st)
      in if \<not> fo_Directive st then addErr ''no scenery directives found in application'' st else st)"

definition parseApp ::
  "(Package \<Rightarrow> GenDecl \<Rightarrow> View option \<times> string list) \<Rightarrow> ((string \<times> Endpoint) list \<Rightarrow> string list) \<Rightarrow> appInput \<Rightarrow> App parsed" where
  "parseApp parsePageView rawCallErrs inp =
     (let explicit = map (pk_RelDir \<circ> sp_Package) (filter packageDeclaresService (in_Packages inp));
          sps = sortBy (\<lambda>sp. [pk_RelDir (sp_Package sp)]) (in_Packages inp);
          (configs, configErrs) = discoverEntityConfigs [] (in_EntityCalls inp);
          (svcs, sps, groupErrs) = groupServices (map sp_Package (in_Packages inp)) explicit [] sps;
          st = \<lparr>fo_Services = svcs, fo_Entities = [], fo_Views = [], fo_AuthHandlers = [], fo_Middlewares = [], fo_Raw = [],
                fo_Directive = False, fo_Errs = in_RuntimeErrs inp @ configErrs @ groupErrs\<rparr>
      in obind (foldDecls (packageDecls parsePageView configs) sps st)
           (\<lambda>st. obind (setAuthHandler (handlerErrs st)) (finishApp (in_Root inp) rawCallErrs)))"

section \<open>Orders\<close>

interpretation mworder: comparison "compareMiddleware root" for root
proof
  fix x y z :: Middleware
  show "compareMiddleware root y x < 0 \<longleftrightarrow> 0 < compareMiddleware root x y"
    by (auto simp: compareMiddleware_def compare_def Let_def)
  show "compareMiddleware root x y \<le> 0 \<Longrightarrow> compareMiddleware root y z \<le> 0 \<Longrightarrow> compareMiddleware root x z \<le> 0"
    by (cases "pm_Global x"; cases "pm_Global y"; cases "pm_Global z")
      (auto simp: compareMiddleware_def compare_def Let_def split: if_splits)
qed

interpretation keyorder: comparison "\<lambda>a b. if key a < key b then -1 else if key b < key a then 1 else (0::int)"
  for key :: "'a \<Rightarrow> string list"
  by unfold_locales (auto split: if_splits)

lemma set_sortBy_key [simp]: "set (sortBy key xs) = set xs"
  by (simp add: sortBy_def keyorder.set_sortStable)

lemma mset_sortBy: "mset (sortBy key xs) = mset xs"
  by (simp add: sortBy_def keyorder.mset_sortStable)

section \<open>The root of a package's service\<close>

definition rootCandidates :: "string \<Rightarrow> string set \<Rightarrow> string set" where
  "rootCandidates relDir explicit =
     insert (serviceRootForDir relDir) {e \<in> explicit. e \<noteq> ''.'' \<and> sameOrDescendantDir relDir e}"

lemma prefix_of_append: "hasPrefix (p @ q) s \<Longrightarrow> take (length p) s = p"
proof -
  assume "hasPrefix (p @ q) s"
  then have "take (length p) (take (length (p @ q)) s) = take (length p) (p @ q)" by (simp add: hasPrefix_def)
  then show ?thesis by (simp add: min_def)
qed

lemma candidate_prefix: "c \<in> rootCandidates relDir E \<Longrightarrow> take (length c) relDir = c"
proof -
  have "take (length (serviceRootForDir relDir)) relDir = serviceRootForDir relDir"
    using takeWhile_eq_take [of "\<lambda>x. x \<noteq> CHR ''/''" relDir] by (auto simp: serviceRootForDir_def cut_def)
  moreover have "take (length e) relDir = e" if "sameOrDescendantDir relDir e" for e
    using that prefix_of_append [of e "''/''" relDir] by (auto simp: sameOrDescendantDir_def split: if_splits)
  ultimately show "c \<in> rootCandidates relDir E \<Longrightarrow> take (length c) relDir = c" by (auto simp: rootCandidates_def)
qed

lemma dot_no_parent: "e \<noteq> ''.'' \<Longrightarrow> \<not> sameOrDescendantDir ''.'' e"
  by (cases e) (auto simp: sameOrDescendantDir_def hasPrefix_def)

lemma rootLoop_dot: "rootLoop ''.'' ''.'' explicit = ''.''"
  by (induction explicit) (auto simp: dot_no_parent)

lemma rootLoop_longest:
  assumes "root \<noteq> ''.''" "relDir \<noteq> ''.''"
  shows "rootLoop relDir root explicit \<in> insert root {e \<in> set explicit. e \<noteq> ''.'' \<and> sameOrDescendantDir relDir e}
    \<and> (\<forall>c \<in> insert root {e \<in> set explicit. e \<noteq> ''.'' \<and> sameOrDescendantDir relDir e}. length c \<le> length (rootLoop relDir root explicit))"
  using assms(1)
proof (induction explicit arbitrary: root)
  case (Cons e es)
  let ?S = "{x \<in> set es. x \<noteq> ''.'' \<and> sameOrDescendantDir relDir x}"
  show ?case
  proof (cases "e = ''.'' \<or> \<not> sameOrDescendantDir relDir e")
    case True
    then have l: "rootLoop relDir root (e # es) = rootLoop relDir root es" using assms(2) by auto
    have s: "{x \<in> set (e # es). x \<noteq> ''.'' \<and> sameOrDescendantDir relDir x} = ?S" using True by auto
    show ?thesis unfolding l s by (rule Cons.IH [OF Cons.prems])
  next
    case False
    let ?r = "if length e > length root then e else root"
    have l: "rootLoop relDir root (e # es) = rootLoop relDir ?r es" using False Cons.prems by simp
    have s: "{x \<in> set (e # es). x \<noteq> ''.'' \<and> sameOrDescendantDir relDir x} = insert e ?S" using False by auto
    have "?r \<noteq> ''.''" using False Cons.prems by simp
    from Cons.IH [OF this] have "rootLoop relDir ?r es \<in> insert ?r ?S" "\<forall>c \<in> insert ?r ?S. length c \<le> length (rootLoop relDir ?r es)"
      by blast+
    then show ?thesis unfolding l s by (cases "length e > length root") auto
  qed
qed simp

text \<open>
  The service of a package is well defined.  Although the parser looks for it in the order of a Go map, the root it
  finds is the only longest one among the directories that declare a service around the package and the package's
  first directory.
\<close>

lemma service_root_longest:
  assumes "serviceRootForDir relDir = ''.'' \<longrightarrow> relDir = ''.''"
  shows "serviceRootForPackage relDir explicit = root \<longleftrightarrow>
    root \<in> rootCandidates relDir (set explicit) \<and> (\<forall>c \<in> rootCandidates relDir (set explicit). length c \<le> length root)"
proof -
  let ?r = "serviceRootForPackage relDir explicit"
  have "?r \<in> rootCandidates relDir (set explicit) \<and> (\<forall>c \<in> rootCandidates relDir (set explicit). length c \<le> length ?r)"
  proof (cases "relDir = ''.''")
    case True
    then show ?thesis
      using dot_no_parent by (auto simp: serviceRootForPackage_def rootCandidates_def serviceRootForDir_def rootLoop_dot)
  next
    case False
    with assms show ?thesis
      unfolding serviceRootForPackage_def rootCandidates_def by (intro rootLoop_longest) auto
  qed
  moreover have "root = ?r" if "length root = length ?r" "root \<in> rootCandidates relDir (set explicit)" "?r \<in> rootCandidates relDir (set explicit)"
    using that candidate_prefix by metis
  ultimately show ?thesis by (auto intro: le_antisym)
qed

lemma service_root_longest_witness:
  "''shop/cart'' \<in> rootCandidates ''shop/cart/api'' (set [''shop'', ''.'', ''shop/cart'', ''shop/cartoon''])
   \<and> serviceRootForPackage ''shop/cart/api'' [''shop/cartoon'', ''shop/cart'', ''shop'', ''.''] = ''shop/cart''"
proof -
  have "serviceRootForDir ''shop/cart/api'' = ''.'' \<longrightarrow> ''shop/cart/api'' = ''.''" by code_simp
  moreover have "serviceRootForPackage ''shop/cart/api'' [''shop'', ''.'', ''shop/cart'', ''shop/cartoon''] = ''shop/cart''" by code_simp
  ultimately have "''shop/cart'' \<in> rootCandidates ''shop/cart/api'' (set [''shop'', ''.'', ''shop/cart'', ''shop/cartoon''])"
    using service_root_longest by blast
  moreover have "serviceRootForPackage ''shop/cart/api'' [''shop/cartoon'', ''shop/cart'', ''shop'', ''.''] = ''shop/cart''" by code_simp
  ultimately show ?thesis by blast
qed

section \<open>An endpoint's parameters\<close>

text \<open>\<open>auth.UID\<close> is declared as a string type.\<close>

definition uidIsString :: "Field list \<Rightarrow> bool" where
  "uidIsString fs = (\<forall>f \<in> set fs. \<forall>t. fd_Type f = GNamed ''scenery.sh/auth'' ''UID'' t \<longrightarrow> t = GString)"

lemma paramKind_type:
  "paramKind t = Some k \<Longrightarrow> (\<forall>u. t = GNamed ''scenery.sh/auth'' ''UID'' u \<longrightarrow> u = GString) \<Longrightarrow> hasType (paramType k) v \<Longrightarrow> hasType t v"
  by (induction t rule: paramKind.induct) (auto simp: isAuthUIDType_def isNamedType_def split: if_splits)

definition specFits :: "ParamSpec \<Rightarrow> Field \<Rightarrow> bool" where
  "specFits spec f = (fd_Name f = ps_Name spec \<and> paramKind (fd_Type f) = Some (ps_Kind spec))"

lemma bindPathParams_fits:
  "bindPathParams ep names fs = Inr specs \<Longrightarrow> length names \<le> length fs
    \<Longrightarrow> map ps_Name specs = names \<and> list_all2 specFits specs (take (length names) fs)"
proof (induction names arbitrary: fs specs)
  case (Cons name names)
  then obtain f fs' where fs: "fs = f # fs'" by (cases fs) auto
  with Cons.prems obtain kind ps where b: "fd_Name f = name" "paramKind (fd_Type f) = Some kind"
      "bindPathParams ep names fs' = Inr ps" "specs = \<lparr>ps_Name = fd_Name f, ps_Kind = kind\<rparr> # ps"
    by (auto split: if_splits option.splits sum.splits)
  with Cons.IH [OF b(3)] Cons.prems(2) fs show ?case by (simp add: specFits_def)
qed simp

lemma typedEndpoint_params:
  assumes "typedEndpointOf e = Inr ep" 
  shows "pe_Path ep = pe_Path e \<and> pe_Params ep = pe_Params e \<and> pe_Raw ep = pe_Raw e \<and> pe_PathExplicit ep = pe_PathExplicit e
    \<and> parsePath (pe_Path ep) = Inr (map ps_Name (pe_PathParams ep))
    \<and> list_all2 specFits (pe_PathParams ep) (take (length (pe_PathParams ep)) (tl (pe_Params ep)))"
proof -
  from assms obtain ctx after names specs where p: "pe_Params e = ctx # after" "parsePath (pe_Path e) = Inr names"
      "length names \<le> length after" "bindPathParams (pe_Name e) names after = Inr specs"
      "pe_Path ep = pe_Path e" "pe_Params ep = pe_Params e" "pe_Raw ep = pe_Raw e" "pe_PathExplicit ep = pe_PathExplicit e"
      "pe_PathParams ep = specs"
    by (auto simp: typedEndpointOf_def Let_def split: list.splits if_splits sum.splits)
  have f: "map ps_Name specs = names" "list_all2 specFits specs (take (length names) after)"
    using bindPathParams_fits [OF p(4, 3)] by auto
  then have "length specs = length names" by (metis length_map)
  with p f show ?thesis by simp
qed

lemma parseEndpoint_params:
  assumes "parseEndpoint fn dir = Inr ep" "\<not> pe_Raw ep"
  shows "parsePath (pe_Path ep) = Inr (map ps_Name (pe_PathParams ep))"
    and "list_all2 specFits (pe_PathParams ep) (take (length (pe_PathParams ep)) (tl (pe_Params ep)))"
proof -
  have "rawEndpointOf e = Inr ep \<Longrightarrow> pe_Raw e = pe_Raw ep" for e
    by (auto simp: rawEndpointOf_def split: if_splits)
  with assms have "typedEndpointOf (endpointOf fn dir) = Inr ep"
    by (auto simp: parseEndpoint_def Let_def split: definedObject.splits if_splits)
  from typedEndpoint_params [OF this]
  show "parsePath (pe_Path ep) = Inr (map ps_Name (pe_PathParams ep))"
    "list_all2 specFits (pe_PathParams ep) (take (length (pe_PathParams ep)) (tl (pe_Params ep)))" by auto
qed

lemma fits_typed:
  "list_all2 specFits specs fs \<Longrightarrow> list_all2 (\<lambda>spec v. hasType (paramType (ps_Kind spec)) v) specs vs \<Longrightarrow> uidIsString fs
    \<Longrightarrow> list_all2 (\<lambda>f v. hasType (fd_Type f) v) fs vs"
proof (induction specs fs arbitrary: vs rule: list_all2_induct)
  case (Cons spec specs f fs)
  from Cons.prems(1) obtain v vs' where v: "vs = v # vs'" "hasType (paramType (ps_Kind spec)) v"
      "list_all2 (\<lambda>spec v. hasType (paramType (ps_Kind spec)) v) specs vs'"
    by (auto simp: list_all2_Cons1)
  have kind: "paramKind (fd_Type f) = Some (ps_Kind spec)" using Cons.hyps(1) by (simp add: specFits_def)
  have uid: "\<forall>u. fd_Type f = GNamed ''scenery.sh/auth'' ''UID'' u \<longrightarrow> u = GString" "uidIsString fs"
    using Cons.prems(2) unfolding uidIsString_def by simp_all
  from paramKind_type [OF kind uid(1) v(2)] Cons.IH [OF v(3) uid(2)] show ?case by (simp add: v(1))
qed simp


definition contextType :: gotype where
  "contextType = GNamed ''context'' ''Context'' (GInterface False)"

definition getOrder :: FuncDecl where
  "getOrder = \<lparr>fn_Doc = [''// GetOrder returns an order.'', ''//scenery:api auth path=/orders/:id method=GET tag:cached''], fn_Name = ''GetOrder'',
     fn_Object = FunctionObject, fn_Recv = [],
     fn_Params = [\<lparr>af_Names = [''ctx''], af_TypeExpr = ''context.Context'', af_Type = contextType, af_Tag = []\<rparr>,
                  \<lparr>af_Names = [''id''], af_TypeExpr = ''int8'', af_Type = GInt KInt8, af_Tag = []\<rparr>],
     fn_Results = [\<lparr>af_Names = [], af_TypeExpr = ''error'', af_Type = errorType, af_Tag = []\<rparr>], fn_pos = 10\<rparr>"

definition getOrderEndpoint :: Endpoint where
  "getOrderEndpoint =
     (case parseEndpoint getOrder (the (parseDirective (fn_Doc getOrder))) of Inr ep \<Rightarrow> ep | Inl e \<Rightarrow> endpointOf getOrder (the None))"


section \<open>Accepted applications\<close>

subsection \<open>What each part of the parser keeps\<close>

text \<open>No endpoint has middleware before the last phase, and none is generated.\<close>

definition fresh :: "Service list \<Rightarrow> bool" where
  "fresh svcs = (\<forall>svc \<in> set svcs. sv_Generated svc = [] \<and> (\<forall>ep \<in> set (sv_Endpoints svc). pe_Middleware ep = []))"

lemma fresh_update:
  "fresh svcs \<Longrightarrow> (\<And>svc. svc \<in> set svcs \<Longrightarrow> sv_Generated (f svc) = sv_Generated svc \<and> set (sv_Endpoints (f svc)) \<subseteq> set (sv_Endpoints svc) \<union> E)
    \<Longrightarrow> \<forall>ep \<in> E. pe_Middleware ep = [] \<Longrightarrow> fresh (updateService root f svcs)"
  by (fastforce simp: fresh_def updateService_def)

lemma fresh_groupServices:
  "groupServices byRelDir explicit svcs sps = (svcs', sps', errs) \<Longrightarrow> fresh svcs \<Longrightarrow> fresh svcs'"
proof (induction sps arbitrary: svcs svcs' sps' errs)
  case (Cons sp sps)
  have j: "fresh (updateService root (\<lambda>s. s\<lparr>sv_Packages := sv_Packages s @ [d]\<rparr>) l)" if "fresh l" for root d l
    using that by (rule fresh_update [where E = "{}"]) auto
  have n: "fresh (svcs @ [newService name root])" for name root
    using Cons.prems(2) by (auto simp: fresh_def newService_def)
  from Cons.prems(1) j [OF Cons.prems(2)] j [OF n] Cons.prems(2) show ?case
    by (auto simp: Let_def split: option.splits if_splits prod.splits dest: Cons.IH)
qed simp

lemma parseEndpoint_fresh: "parseEndpoint fn dir = Inr ep \<Longrightarrow> pe_Middleware ep = []"
  by (auto simp: parseEndpoint_def rawEndpointOf_def typedEndpointOf_def endpointOf_def Let_def
      split: definedObject.splits if_splits list.splits sum.splits)

definition freshFound :: "found \<Rightarrow> bool" where
  "freshFound st = fresh (fo_Services st)"

lemma fresh_genDecl: "genDecl pv configs sp gd st = Ret st' \<Longrightarrow> freshFound st \<Longrightarrow> freshFound st'"
  by (auto simp: genDecl_def freshFound_def addErr_def withService_def Let_def
      split: option.splits if_splits sum.splits prod.splits intro!: fresh_update [where E = "{}"])

lemma fresh_funcDecl:
  assumes "funcDecl sp file fn st = Ret st'" "freshFound st"
  shows "freshFound st'"
proof -
  have ep: "fresh (updateService root (\<lambda>svc. svc\<lparr>sv_Endpoints := sv_Endpoints svc @ [ep]\<rparr>) (fo_Services st))" if "pe_Middleware ep = []" for root ep
    using assms(2) that by (intro fresh_update [where E = "{ep}"]) (auto simp: freshFound_def)
  have mw: "fresh (updateService root (\<lambda>svc. svc\<lparr>sv_Middleware := sv_Middleware svc @ [m]\<rparr>) (fo_Services st))" for root m
    using assms(2) by (intro fresh_update [where E = "{}"]) (auto simp: freshFound_def)
  from assms ep mw show ?thesis
    by (auto simp: funcDecl_def freshFound_def addErr_def withService_def Let_def parseEndpoint_fresh
        split: option.splits if_splits sum.splits)
qed

lemma fresh_foldDecls:
  "foldDecls f ds st = Ret st' \<Longrightarrow> freshFound st \<Longrightarrow> (\<And>d st st'. f d st = Ret st' \<Longrightarrow> freshFound st \<Longrightarrow> freshFound st') \<Longrightarrow> freshFound st'"
  by (induction ds arbitrary: st) (auto simp: obind_eq_Ret)

lemma fresh_packageDecls: "packageDecls pv configs sp st = Ret st' \<Longrightarrow> freshFound st \<Longrightarrow> freshFound st'"
  unfolding packageDecls_def
  by (erule fresh_foldDecls, assumption, erule fresh_foldDecls, assumption)
    (auto intro: fresh_genDecl fresh_funcDecl split: decl.splits)

lemma fresh_setAuthHandler: "setAuthHandler st = Ret st' \<Longrightarrow> freshFound st \<Longrightarrow> freshFound st'"
  by (auto simp: setAuthHandler_def freshFound_def split: list.splits if_splits intro!: fresh_update [where E = "{}"])

lemma parseApp_finish:
  assumes "parseApp pv rc inp = Ret app"
  obtains st where "finishApp (in_Root inp) rc st = Ret app" "freshFound st"
proof -
  obtain configs configErrs where c: "discoverEntityConfigs [] (in_EntityCalls inp) = (configs, configErrs)" by fastforce
  let ?explicit = "map (pk_RelDir \<circ> sp_Package) (filter packageDeclaresService (in_Packages inp))"
  obtain svcs sps groupErrs where g: "groupServices (map sp_Package (in_Packages inp)) ?explicit []
      (sortBy (\<lambda>sp. [pk_RelDir (sp_Package sp)]) (in_Packages inp)) = (svcs, sps, groupErrs)"
    by (metis prod_cases3)
  have "fresh svcs" by (rule fresh_groupServices [OF g]) (simp add: fresh_def)
  from assms c g obtain st1 st2 where
    st1: "foldDecls (packageDecls pv configs) sps
       \<lparr>fo_Services = svcs, fo_Entities = [], fo_Views = [], fo_AuthHandlers = [], fo_Middlewares = [], fo_Raw = [],
        fo_Directive = False, fo_Errs = in_RuntimeErrs inp @ configErrs @ groupErrs\<rparr> = Ret st1"
    and st2: "setAuthHandler (handlerErrs st1) = Ret st2" "finishApp (in_Root inp) rc st2 = Ret app"
    by (auto simp: parseApp_def Let_def obind_eq_Ret)
  have "freshFound st1"
    by (rule fresh_foldDecls [OF st1 _ fresh_packageDecls]) (simp_all add: freshFound_def \<open>fresh svcs\<close>)
  then have "freshFound (handlerErrs st1)" by (simp add: handlerErrs_def freshFound_def addErr_def Let_def)
  with st2 fresh_setAuthHandler have "finishApp (in_Root inp) rc st2 = Ret app" "freshFound st2" by blast+
  then show ?thesis by (rule that)
qed

subsection \<open>The invariant of an application\<close>

definition receiverFits :: "Service \<Rightarrow> Receiver option \<Rightarrow> bool" where
  "receiverFits svc recv =
     (case recv of None \<Rightarrow> True
      | Some r \<Rightarrow> (case sv_Struct svc of None \<Rightarrow> False | Some ss \<Rightarrow> rc_TypeName r = ss_TypeName ss))"

definition serviceOK :: "Middleware list \<Rightarrow> Service \<Rightarrow> bool" where
  "serviceOK mws svc =
     (distinct (map pe_Name (sv_Endpoints svc) @ map ge_Name (sv_Generated svc))
      \<and> (sv_Endpoints svc \<noteq> [] \<or> sv_Generated svc \<noteq> [])
      \<and> (\<forall>ep \<in> set (sv_Endpoints svc).
           receiverFits svc (pe_Receiver ep)
           \<and> pe_Middleware ep = filter (\<lambda>mw. middlewareAppliesToService mw svc \<and> middlewareMatchesEndpoint mw ep) mws))"

definition appOK :: "string \<Rightarrow> App \<Rightarrow> bool" where
  "appOK root app =
     ((\<forall>svc \<in> set (ap_Services app). serviceOK (ap_Middleware app) svc)
      \<and> sorted_wrt (\<lambda>a b. compareMiddleware root a b \<le> 0) (ap_Middleware app)
      \<and> (\<forall>mw \<in> set (ap_Middleware app). \<exists>svc \<in> set (ap_Services app). \<exists>ep \<in> set (sv_Endpoints svc). mw \<in> set (pe_Middleware ep))
      \<and> (\<forall>v \<in> set (ap_Views app). \<exists>e \<in> set (ap_Entities app). en_Name e = vw_Entity v))"

lemma seenErrors_Nil: "seenErrors msg seen names = [] \<longleftrightarrow> distinct names \<and> set names \<inter> set seen = {}"
  by (induction names arbitrary: seen) auto

lemma nameErrors_Nil: "nameErrors svc = [] \<Longrightarrow> distinct (map pe_Name (sv_Endpoints svc) @ map ge_Name (sv_Generated svc))"
  by (auto simp: nameErrors_def seenErrors_Nil)

lemma receiverErrors_Nil: "receiverErrors svc = [] \<Longrightarrow> ep \<in> set (sv_Endpoints svc) \<Longrightarrow> receiverFits svc (pe_Receiver ep)"
  by (fastforce simp: receiverErrors_def receiverError_def receiverFits_def split: option.splits if_splits)

lemma endpoints_attachEntity: "attachEntity e svcs = (svcs', errs) \<Longrightarrow> map sv_Endpoints svcs' = map sv_Endpoints svcs"
  by (auto simp: attachEntity_def updateService_def Let_def split: if_splits option.splits)

lemma endpoints_attach: "attachGeneratedModelEndpoints es svcs = (svcs', errs) \<Longrightarrow> map sv_Endpoints svcs' = map sv_Endpoints svcs"
  by (induction es arbitrary: svcs errs) (auto split: prod.splits dest: endpoints_attachEntity)

text \<open>The service after the last phase, from the service before it.\<close>

definition finished :: "Middleware list \<Rightarrow> Service \<Rightarrow> Service" where
  "finished mws svc = (let svc = applyMiddleware mws svc in svc\<lparr>sv_Endpoints := sortBy (\<lambda>ep. [pe_Name ep]) (sv_Endpoints svc)\<rparr>)"

lemma finished_endpoints:
  "set (sv_Endpoints (finished mws svc)) = (\<lambda>ep. ep\<lparr>pe_Middleware := pe_Middleware ep
      @ filter (\<lambda>mw. middlewareAppliesToService mw svc \<and> middlewareMatchesEndpoint mw ep) mws\<rparr>) ` set (sv_Endpoints svc)"
  "mset (map pe_Name (sv_Endpoints (finished mws svc))) = mset (map pe_Name (sv_Endpoints svc))"
  "sv_Generated (finished mws svc) = sv_Generated svc" "sv_Struct (finished mws svc) = sv_Struct svc"
  "sv_RootRelDir (finished mws svc) = sv_RootRelDir svc"
  by (simp_all add: finished_def applyMiddleware_def Let_def mset_sortBy multiset.map_comp comp_def)

lemma finished_ok:
  assumes "receiverErrors svc = []" "nameErrors svc = []" "sv_Endpoints svc \<noteq> [] \<or> sv_Generated svc \<noteq> []"
    "\<forall>ep \<in> set (sv_Endpoints svc). pe_Middleware ep = []"
  shows "serviceOK mws (finished mws svc)"
proof -
  have "distinct (map pe_Name (sv_Endpoints (finished mws svc)) @ map ge_Name (sv_Generated (finished mws svc)))"
  proof -
    have "mset (map pe_Name (sv_Endpoints (finished mws svc)) @ map ge_Name (sv_Generated (finished mws svc)))
        = mset (map pe_Name (sv_Endpoints svc) @ map ge_Name (sv_Generated svc))"
      using finished_endpoints(2, 3) [of mws svc] by simp
    from mset_eq_imp_distinct_iff [OF this] nameErrors_Nil [OF assms(2)] show ?thesis by blast
  qed
  moreover have "sv_Endpoints (finished mws svc) \<noteq> [] \<or> sv_Generated (finished mws svc) \<noteq> []"
    using assms(3) mset_eq_length [OF finished_endpoints(2) [of mws svc]] by (auto simp: finished_endpoints(3))
  moreover have "receiverFits (finished mws svc) (pe_Receiver ep)
      \<and> pe_Middleware ep = filter (\<lambda>mw. middlewareAppliesToService mw (finished mws svc) \<and> middlewareMatchesEndpoint mw ep) mws"
    if ep: "ep \<in> set (sv_Endpoints (finished mws svc))" for ep
  proof -
    from ep obtain e where e: "e \<in> set (sv_Endpoints svc)" "ep = e\<lparr>pe_Middleware := pe_Middleware e
        @ filter (\<lambda>mw. middlewareAppliesToService mw svc \<and> middlewareMatchesEndpoint mw e) mws\<rparr>"
      by (auto simp: finished_endpoints(1))
    have t: "targetMatches (e\<lparr>pe_Middleware := l\<rparr>) = targetMatches e" for l
    proof
      fix t show "targetMatches (e\<lparr>pe_Middleware := l\<rparr>) t = targetMatches e t" by (cases t) simp_all
    qed
    have "receiverFits (finished mws svc) r = receiverFits svc r" for r
      unfolding receiverFits_def finished_endpoints(4) ..
    then show ?thesis
      using receiverErrors_Nil [OF assms(1) e(1)] assms(4) e
      by (simp add: finished_endpoints(5) middlewareAppliesToService_def middlewareMatchesEndpoint_def t)
  qed
  ultimately show ?thesis by (simp add: serviceOK_def)
qed

lemma fresh_attached:
  assumes "attachGeneratedModelEndpoints es svcs = (svcs', errs)" "fresh svcs" "svc \<in> set svcs'" "ep \<in> set (sv_Endpoints svc)"
  shows "pe_Middleware ep = []"
proof -
  have "sv_Endpoints svc \<in> set (map sv_Endpoints svcs)"
    using endpoints_attach [OF assms(1)] assms(3) by (metis imageI list.set_map)
  with assms(2, 4) show ?thesis by (auto simp: fresh_def)
qed

lemma candidate_service:
  assumes "ep \<in> set (candidateEndpoints svcs mw)"
  obtains svc where "svc \<in> set svcs" "ep \<in> set (sv_Endpoints svc)" "middlewareAppliesToService mw svc"
  using assms that
  by (auto simp: candidateEndpoints_def middlewareAppliesToService_def serviceAt_def dest: find_In [OF sym] split: if_splits option.splits)

lemma finishApp_Ret:
  assumes "finishApp root rc st = Ret app" "attachGeneratedModelEndpoints (fo_Entities st) (fo_Services st) = (svcs, errs)"
  shows "\<forall>svc \<in> set svcs. receiverErrors svc = [] \<and> nameErrors svc = []"
    "unmatchedErrors svcs (ap_Middleware app) = []" "validateViews (fo_Entities st) (fo_Views st) = []"
    "ap_Middleware app = sortMiddleware root (fo_Middlewares st)"
    "set (ap_Entities app) = set (fo_Entities st)" "set (ap_Views app) = set (fo_Views st)"
    "set (ap_Services app) = finished (ap_Middleware app) ` {svc \<in> set svcs. sv_Endpoints svc \<noteq> [] \<or> sv_Generated svc \<noteq> []}"
proof -
  let ?mws = "sortMiddleware root (fo_Middlewares st)"
  let ?P = "\<lambda>svc. sv_Endpoints svc \<noteq> [] \<or> sv_Generated svc \<noteq> []"
  let ?h = "\<lambda>svc. svc\<lparr>sv_Endpoints := sortBy (\<lambda>ep. [pe_Name ep]) (sv_Endpoints svc)\<rparr>"
  have alive: "?P (applyMiddleware ?mws svc) = ?P svc" for svc by (simp add: applyMiddleware_def)
  have "set (map ?h (sortBy (\<lambda>svc. [sv_Name svc]) (pruneEmptyServices (map (applyMiddleware ?mws) svcs)))) = finished ?mws ` {svc \<in> set svcs. ?P svc}"
    unfolding pruneEmptyServices_def filter_map comp_def alive by (auto simp: finished_def Let_def image_image)
  with assms show "\<forall>svc \<in> set svcs. receiverErrors svc = [] \<and> nameErrors svc = []"
    "unmatchedErrors svcs (ap_Middleware app) = []" "validateViews (fo_Entities st) (fo_Views st) = []"
    "ap_Middleware app = ?mws" "set (ap_Entities app) = set (fo_Entities st)" "set (ap_Views app) = set (fo_Views st)"
    "set (ap_Services app) = finished (ap_Middleware app) ` {svc \<in> set svcs. ?P svc}"
    by (auto simp only: finishApp_def Let_def prod.case append_is_Nil_conv concat_eq_Nil_conv set_map set_sortBy_key
        ball_simps outcome.inject outcome.distinct App.simps split: if_splits)
qed


definition sourceOf :: "string \<Rightarrow> string \<Rightarrow> decl list \<Rightarrow> sourcePackage" where
  "sourceOf relDir name decls =
     \<lparr>sp_Package = \<lparr>pk_RelDir = relDir, pk_Name = name, pk_ImportPath = ''app/'' @ relDir, pk_Service = None\<rparr>,
      sp_Files = [\<lparr>fl_Path = ''/app/'' @ relDir @ ''/main.go'', fl_Decls = decls\<rparr>],
      sp_Scope = \<lparr>sc_functions = [], sc_shutdown = []\<rparr>\<rparr>"

definition cacheMiddleware :: FuncDecl where
  "cacheMiddleware =
     (let named = (\<lambda>n. \<lparr>af_Names = [], af_TypeExpr = ''middleware.'' @ n, af_Type = GNamed ''scenery.sh/middleware'' n (GInterface False), af_Tag = []\<rparr>)
      in \<lparr>fn_Doc = [''//scenery:middleware target=tag:cached''], fn_Name = ''Cache'', fn_Object = FunctionObject, fn_Recv = [],
          fn_Params = [named ''Request'', named ''Next''], fn_Results = [named ''Response''], fn_pos = 90\<rparr>)"

definition appOf :: "sourcePackage list \<Rightarrow> appInput" where
  "appOf sps = \<lparr>in_Root = ''/app'', in_Packages = sps, in_EntityCalls = [], in_RuntimeErrs = []\<rparr>"

definition ordersApp :: appInput where
  "ordersApp = appOf [sourceOf ''orders'' ''orders'' [DFunc getOrder, DFunc cacheMiddleware]]"

definition noPage :: "Package \<Rightarrow> GenDecl \<Rightarrow> View option \<times> string list" where
  "noPage pkg gd = (None, [])"

definition noRawCalls :: "(string \<times> Endpoint) list \<Rightarrow> string list" where
  "noRawCalls raw = []"

definition parsedOrders :: App where
  "parsedOrders = (case parseApp noPage noRawCalls ordersApp of Ret app \<Rightarrow> app
     | _ \<Rightarrow> \<lparr>ap_Services = [], ap_Middleware = [], ap_Entities = [], ap_Views = []\<rparr>)"


section \<open>Two services of one name\<close>


end
