(* ===== verification/HostFS.thy ===== *)
theory HostFS
  imports GoPath "HOL-Library.Sublist"
begin

text \<open>
  The part of a Unix file system that the \<open>os\<close> package gives the tool store: directories, files and symbolic links, the
  resolution of paths through links, and the calls \<open>MkdirAll\<close>, \<open>OpenFile\<close> (create and truncate), \<open>Symlink\<close>, \<open>ReadFile\<close>, \<open>Stat\<close>,
  \<open>RemoveAll\<close> and \<open>Rename\<close>.  A path is the list of its elements from the root; a link holds its text.  Ownership, free space and the
  permissions of directories are left out.
\<close>

section \<open>Definitions\<close>

datatype node = NDir | NFile string nat | NLink string

type_synonym hostfs = "string list \<Rightarrow> node option"

definition maxLinks :: nat where "maxLinks = 40"

definition isDirAt :: "hostfs \<Rightarrow> string list \<Rightarrow> bool" where
  "isDirAt fs p = (p = [] \<or> fs p = Some NDir)"

text \<open>
  The physical path behind a path: links are followed, at most \<open>n\<close> of them, and everything but the last element has to exist
  and be a directory.
\<close>

function (sequential) resolve :: "nat \<Rightarrow> hostfs \<Rightarrow> string list \<Rightarrow> string list \<Rightarrow> string list option" where
  "resolve n fs cur [] = Some cur"
| "resolve n fs cur (c # cs) =
     (if c = [] \<or> c = ''.'' then resolve n fs cur cs
      else if c = ''..'' then resolve n fs (butlast cur) cs
      else case fs (cur @ [c]) of
             None \<Rightarrow> if cs = [] then Some (cur @ [c]) else None
           | Some NDir \<Rightarrow> resolve n fs (cur @ [c]) cs
           | Some (NFile content mode) \<Rightarrow> if cs = [] then Some (cur @ [c]) else None
           | Some (NLink t) \<Rightarrow>
             (case n of
                0 \<Rightarrow> None
              | Suc m \<Rightarrow> resolve m fs (if pathRooted t then [] else cur) (splitOn CHR ''/'' t @ cs)))"
  by pat_completeness auto
termination by (relation "measures [\<lambda>(n, fs, cur, cs). n, \<lambda>(n, fs, cur, cs). length cs]") auto

definition realPath :: "hostfs \<Rightarrow> string list \<Rightarrow> string list option" where
  "realPath fs p = resolve maxLinks fs [] p"

definition statNode :: "hostfs \<Rightarrow> string list \<Rightarrow> node option" where
  "statNode fs p = (case realPath fs p of None \<Rightarrow> None | Some q \<Rightarrow> if q = [] then Some NDir else fs q)"

text \<open>Where an entry of a directory is, its own link not followed.\<close>

definition entryPath :: "hostfs \<Rightarrow> string list \<Rightarrow> string list option" where
  "entryPath fs p =
     (if p = [] then None
      else case realPath fs (butlast p) of
             None \<Rightarrow> None
           | Some d \<Rightarrow> if isDirAt fs d then Some (d @ [last p]) else None)"

text \<open>\<open>os.MkdirAll\<close>, one element after the other; the result is the file system and whether the call succeeded.\<close>

fun mkdirFrom :: "hostfs \<Rightarrow> string list \<Rightarrow> string list \<Rightarrow> hostfs \<times> bool" where
  "mkdirFrom fs pre [] = (fs, True)"
| "mkdirFrom fs pre (c # cs) =
     (case entryPath fs (pre @ [c]) of
        None \<Rightarrow> (fs, False)
      | Some q \<Rightarrow>
        (case fs q of
           None \<Rightarrow> mkdirFrom (fs(q \<mapsto> NDir)) (pre @ [c]) cs
         | Some n \<Rightarrow>
           if statNode fs (pre @ [c]) = Some NDir then mkdirFrom fs (pre @ [c]) cs else (fs, False)))"

definition mkdirAll :: "hostfs \<Rightarrow> string list \<Rightarrow> hostfs \<times> bool" where
  "mkdirAll fs p = mkdirFrom fs [] p"

text \<open>\<open>os.OpenFile\<close> with create and truncate, and the write: an existing file keeps its mode.\<close>

definition writeFile :: "hostfs \<Rightarrow> string list \<Rightarrow> string \<Rightarrow> nat \<Rightarrow> hostfs \<times> bool" where
  "writeFile fs p content mode =
     (case realPath fs p of
        None \<Rightarrow> (fs, False)
      | Some q \<Rightarrow>
        if isDirAt fs q then (fs, False)
        else (case fs q of
                Some (NFile old m) \<Rightarrow> (fs(q \<mapsto> NFile content m), True)
              | None \<Rightarrow> if isDirAt fs (butlast q) then (fs(q \<mapsto> NFile content mode), True) else (fs, False)
              | _ \<Rightarrow> (fs, False)))"

definition readFile :: "hostfs \<Rightarrow> string list \<Rightarrow> (string \<times> nat) option" where
  "readFile fs p = (case statNode fs p of Some (NFile content mode) \<Rightarrow> Some (content, mode) | _ \<Rightarrow> None)"

definition symlinkAt :: "hostfs \<Rightarrow> string list \<Rightarrow> string \<Rightarrow> hostfs \<times> bool" where
  "symlinkAt fs p t =
     (case entryPath fs p of
        None \<Rightarrow> (fs, False)
      | Some q \<Rightarrow> if fs q = None then (fs(q \<mapsto> NLink t), True) else (fs, False))"

definition removeAll :: "hostfs \<Rightarrow> string list \<Rightarrow> hostfs" where
  "removeAll fs p = (case entryPath fs p of None \<Rightarrow> fs | Some q \<Rightarrow> (\<lambda>x. if prefix q x then None else fs x))"

definition moveTree :: "hostfs \<Rightarrow> string list \<Rightarrow> string list \<Rightarrow> hostfs" where
  "moveTree fs a b =
     (\<lambda>x. if prefix b x then fs (a @ drop (length b) x) else if prefix a x then None else fs x)"

text \<open>\<open>os.Rename\<close> to a path that does not exist.\<close>

definition rename :: "hostfs \<Rightarrow> string list \<Rightarrow> string list \<Rightarrow> hostfs \<times> bool" where
  "rename fs old new =
     (case (entryPath fs old, entryPath fs new) of
        (Some a, Some b) \<Rightarrow>
          if fs a \<noteq> None \<and> fs b = None \<and> \<not> prefix a b then (moveTree fs a b, True) else (fs, False)
      | _ \<Rightarrow> (fs, False))"

section \<open>Resolution below a directory\<close>

text \<open>A link that cannot leave the directory it is in: relative, and never to the parent.\<close>

definition tameLink :: "string \<Rightarrow> bool" where
  "tameLink t = (\<not> pathRooted t \<and> ''..'' \<notin> set (splitOn CHR ''/'' t))"

definition tameBelow :: "string list \<Rightarrow> hostfs \<Rightarrow> bool" where
  "tameBelow d fs = (\<forall>p t. prefix d p \<longrightarrow> fs p = Some (NLink t) \<longrightarrow> tameLink t)"

lemma resolve_inside:
  "resolve n fs cur cs = Some q \<Longrightarrow> tameBelow d fs \<Longrightarrow> prefix d cur \<Longrightarrow> ''..'' \<notin> set cs \<Longrightarrow> prefix d q"
proof (induction n fs cur cs rule: resolve.induct)
  case (2 n fs cur c cs)
  have p: "prefix d (cur @ [c])" using "2.prems"(3) by simp
  show ?case
  proof (cases "c = [] \<or> c = ''.''")
    case True
    with 2 show ?thesis by auto
  next
    case plain: False
    with "2.prems"(4) have dd: "c \<noteq> ''..''" by auto
    show ?thesis
    proof (cases "fs (cur @ [c])")
      case None
      with plain dd "2.prems"(1) p show ?thesis by (auto split: if_splits)
    next
      case (Some nd)
      show ?thesis
      proof (cases nd)
        case NDir
        with Some plain dd 2 p show ?thesis by auto
      next
        case (NFile content mode)
        with Some plain dd "2.prems"(1) p show ?thesis by (auto split: if_splits)
      next
        case (NLink t)
        with Some "2.prems"(2) p have t: "tameLink t" unfolding tameBelow_def by blast
        from NLink Some plain dd "2.prems"(1) obtain m where m: "n = Suc m"
          "resolve m fs (if pathRooted t then [] else cur) (splitOn CHR ''/'' t @ cs) = Some q"
          by (auto split: nat.splits)
        with NLink Some plain dd t "2.IH"(4) [of nd t m] "2.prems"(2-4) show ?thesis
          by (auto simp: tameLink_def)
      qed
    qed
  qed
qed simp

text \<open>A directory that is reached without links.\<close>

definition realDir :: "hostfs \<Rightarrow> string list \<Rightarrow> bool" where
  "realDir fs d =
     ((\<forall>c \<in> set d. c \<noteq> [] \<and> c \<noteq> ''.'' \<and> c \<noteq> ''..'') \<and> (\<forall>p. prefix p d \<longrightarrow> isDirAt fs p))"

lemma resolve_dirs:
  "\<forall>c \<in> set ds. c \<noteq> [] \<and> c \<noteq> ''.'' \<and> c \<noteq> ''..'' \<Longrightarrow> \<forall>p. prefix p ds \<longrightarrow> isDirAt fs (pre @ p)
    \<Longrightarrow> resolve n fs pre (ds @ cs) = resolve n fs (pre @ ds) cs"
proof (induction ds arbitrary: pre)
  case (Cons c ds)
  have "fs (pre @ [c]) = Some NDir" using Cons.prems(2) by (auto simp: isDirAt_def dest: spec [of _ "[c]"])
  moreover have "\<forall>p. prefix p ds \<longrightarrow> isDirAt fs ((pre @ [c]) @ p)"
  proof (intro allI impI)
    fix p assume "prefix p ds"
    then have "prefix (c # p) (c # ds)" by simp
    with Cons.prems(2) show "isDirAt fs ((pre @ [c]) @ p)" by fastforce
  qed
  ultimately show ?case using Cons.IH [of "pre @ [c]"] Cons.prems(1) by simp
qed simp

lemma realDir_resolve: "realDir fs d \<Longrightarrow> resolve n fs [] (d @ cs) = resolve n fs d cs"
  using resolve_dirs [of d fs "[]" n cs] by (simp add: realDir_def)

lemma realDir_prefix: "realDir fs d \<Longrightarrow> prefix p d \<Longrightarrow> realDir fs p"
  unfolding realDir_def by (meson prefix_order.trans set_mono_prefix subsetD)

lemma realDir_realPath: "realDir fs d \<Longrightarrow> realPath fs d = Some d"
  using realDir_resolve [of fs d maxLinks "[]"] by (simp add: realPath_def)

subsection \<open>Changes that stay below a directory\<close>

definition jailed :: "string list \<Rightarrow> hostfs \<Rightarrow> bool" where
  "jailed d fs = (realDir fs d \<and> tameBelow d fs)"

definition changedBelow :: "string list \<Rightarrow> hostfs \<Rightarrow> hostfs \<Rightarrow> bool" where
  "changedBelow d fs fs' = (jailed d fs' \<and> (\<forall>x. fs' x \<noteq> fs x \<longrightarrow> strict_prefix d x))"

lemma changedBelow_refl: "jailed d fs \<Longrightarrow> changedBelow d fs fs"
  by (simp add: changedBelow_def)

lemma changedBelow_trans [trans]: "changedBelow d fs fs' \<Longrightarrow> changedBelow d fs' fs'' \<Longrightarrow> changedBelow d fs fs''"
  unfolding changedBelow_def by metis

lemma changedBelow_jailed: "changedBelow d fs fs' \<Longrightarrow> jailed d fs'"
  by (simp add: changedBelow_def)

lemma changedBelow_upd:
  assumes "jailed d fs" "strict_prefix d q" "\<And>t. nd = NLink t \<Longrightarrow> tameLink t"
  shows "changedBelow d fs (fs(q \<mapsto> nd))"
proof -
  have "\<not> prefix q d" using assms(2) by (meson prefix_order.less_le_not_le)
  then have "isDirAt (fs(q \<mapsto> nd)) p = isDirAt fs p" if "prefix p d" for p
    using that by (auto simp: isDirAt_def)
  with assms show ?thesis
    by (auto simp: changedBelow_def jailed_def realDir_def tameBelow_def)
qed

lemma realPath_inside:
  "jailed d fs \<Longrightarrow> realPath fs (d @ cs) = Some q \<Longrightarrow> ''..'' \<notin> set cs \<Longrightarrow> prefix d q"
  unfolding realPath_def jailed_def by (metis realDir_resolve resolve_inside prefix_order.refl)

lemma entryPath_inside:
  assumes "jailed d fs" "entryPath fs (d @ cs) = Some q" "cs \<noteq> []" "''..'' \<notin> set cs"
  shows "strict_prefix d q"
proof -
  from assms(2, 3) obtain e where e: "realPath fs (d @ butlast cs) = Some e" "q = e @ [last cs]"
    by (auto simp: entryPath_def butlast_append split: option.splits if_splits)
  have "prefix d e" using realPath_inside [OF assms(1) e(1)] assms(4) by (meson in_set_butlastD)
  with e(2) show ?thesis by (auto simp: strict_prefix_def dest: prefix_length_le)
qed

lemma writeFile_below:
  assumes "jailed d fs" "writeFile fs (d @ cs) content mode = (fs', ok)" "''..'' \<notin> set cs"
  shows "changedBelow d fs fs'"
proof -
  have "strict_prefix d q" if "realPath fs (d @ cs) = Some q" "\<not> isDirAt fs q" for q
  proof -
    have "isDirAt fs d" using assms(1) by (auto simp: jailed_def realDir_def)
    with realPath_inside [OF assms(1) that(1) assms(3)] that(2) show ?thesis by (auto simp: strict_prefix_def)
  qed
  with assms show ?thesis
    by (auto simp: writeFile_def changedBelow_refl intro!: changedBelow_upd split: option.splits if_splits node.splits)
qed

lemma symlinkAt_below:
  assumes "jailed d fs" "symlinkAt fs (d @ cs) t = (fs', ok)" "cs \<noteq> []" "''..'' \<notin> set cs" "tameLink t"
  shows "changedBelow d fs fs'"
  using assms entryPath_inside [OF assms(1) _ assms(3, 4)]
  by (auto simp: symlinkAt_def changedBelow_refl intro!: changedBelow_upd split: option.splits if_splits)

lemma mkdirFrom_below:
  "jailed d fs \<Longrightarrow> mkdirFrom fs (d @ pre) cs = (fs', ok) \<Longrightarrow> ''..'' \<notin> set pre \<union> set cs \<Longrightarrow> changedBelow d fs fs'"
proof (induction fs "d @ pre" cs arbitrary: pre rule: mkdirFrom.induct)
  case (2 fs c cs)
  show ?case
  proof (cases "entryPath fs (d @ pre @ [c])")
    case None
    with 2 show ?thesis by (simp add: changedBelow_refl)
  next
    case (Some q)
    have q: "strict_prefix d q" using entryPath_inside [OF "2.prems"(1) Some] "2.prems"(3) by auto
    show ?thesis
    proof (cases "fs q")
      case None
      have up: "changedBelow d fs (fs(q \<mapsto> NDir))" by (rule changedBelow_upd [OF "2.prems"(1) q]) simp
      have "changedBelow d (fs(q \<mapsto> NDir)) fs'"
        using "2.hyps"(1) [of q "pre @ [c]"] changedBelow_jailed [OF up] Some None "2.prems"(2, 3) by simp
      with up show ?thesis by (rule changedBelow_trans)
    next
      case (Some nd)
      with \<open>entryPath fs (d @ pre @ [c]) = Some q\<close> "2.hyps"(2) [of q nd "pre @ [c]"] "2.prems" show ?thesis
        by (auto simp: changedBelow_refl split: if_splits)
    qed
  qed
qed (simp add: changedBelow_refl)

text \<open>Making a real directory again changes nothing.\<close>

lemma mkdirFrom_real:
  "realDir fs (pre @ ds) \<Longrightarrow> mkdirFrom fs pre (ds @ cs) = mkdirFrom fs (pre @ ds) cs"
proof (induction ds arbitrary: pre)
  case (Cons c ds)
  have r: "realDir fs pre" "realDir fs (pre @ [c])" using Cons.prems by (auto intro: realDir_prefix)
  then have "isDirAt fs pre" "fs (pre @ [c]) = Some NDir" by (auto simp: realDir_def isDirAt_def)
  with r have "entryPath fs (pre @ [c]) = Some (pre @ [c])" "statNode fs (pre @ [c]) = Some NDir"
    by (simp_all add: entryPath_def statNode_def realDir_realPath)
  with Cons.IH [of "pre @ [c]"] Cons.prems \<open>fs (pre @ [c]) = Some NDir\<close> show ?case by simp
qed simp

lemma mkdirAll_below:
  assumes "jailed d fs" "mkdirAll fs (d @ cs) = (fs', ok)" "''..'' \<notin> set cs"
  shows "changedBelow d fs fs'"
  using assms mkdirFrom_real [of fs "[]" d cs] mkdirFrom_below [of d fs "[]" cs fs' ok]
  by (simp add: mkdirAll_def jailed_def)

lemma mkdirAll_real: "realDir fs d \<Longrightarrow> mkdirAll fs d = (fs, True)"
  using mkdirFrom_real [of fs "[]" d "[]"] by (simp add: mkdirAll_def)

subsection \<open>Reading back what was written\<close>

lemma resolve_written:
  "resolve n fs cur cs = Some q \<Longrightarrow> \<not> isDirAt fs q \<Longrightarrow> (\<And>t. fs q \<noteq> Some (NLink t))
    \<Longrightarrow> resolve n (fs(q \<mapsto> NFile content mode)) cur cs = Some q"
proof (induction n fs cur cs rule: resolve.induct)
  case (2 n fs cur c cs)
  let ?fs' = "fs(q \<mapsto> NFile content mode)"
  show ?case
  proof (cases "c = [] \<or> c = ''.'' \<or> c = ''..''")
    case True
    with 2 show ?thesis by auto
  next
    case plain: False
    show ?thesis
    proof (cases "cur @ [c] = q")
      case True
      with plain "2.prems" show ?thesis
        by (auto simp: isDirAt_def split: option.splits node.splits if_splits nat.splits)
    next
      case False
      show ?thesis
      proof (cases "\<exists>t. fs (cur @ [c]) = Some (NLink t)")
        case True
        then obtain t where t: "fs (cur @ [c]) = Some (NLink t)" by blast
        with plain "2.prems"(1) obtain m where m: "n = Suc m"
          "resolve m fs (if pathRooted t then [] else cur) (splitOn CHR ''/'' t @ cs) = Some q"
          by (auto split: nat.splits)
        have "resolve m ?fs' (if pathRooted t then [] else cur) (splitOn CHR ''/'' t @ cs) = Some q"
          using "2.IH"(4) [of "NLink t" t m] plain t m "2.prems"(2, 3) by blast
        with plain t m(1) False show ?thesis by (cases "pathRooted t") (simp_all add: fun_upd_def)
      next
        case nolink: False
        with plain False 2 show ?thesis by (auto split: option.splits node.splits if_splits)
      qed
    qed
  qed
qed simp

lemma read_written:
  assumes "writeFile fs p content mode = (fs', True)"
  shows "\<exists>m. readFile fs' p = Some (content, m)"
proof -
  from assms obtain q m where q: "realPath fs p = Some q" "\<not> isDirAt fs q" "fs' = fs(q \<mapsto> NFile content m)"
    by (auto simp: writeFile_def split: option.splits if_splits node.splits)
  have "fs q \<noteq> Some (NLink t)" for t
    using assms q by (auto simp: writeFile_def split: option.splits if_splits node.splits)
  with q show ?thesis
    using resolve_written [of maxLinks fs "[]" p q content m]
    by (auto simp: readFile_def statNode_def realPath_def isDirAt_def)
qed

subsection \<open>Entries of a real directory\<close>

lemma entryPath_real: "realDir fs v \<Longrightarrow> entryPath fs (v @ [x]) = Some (v @ [x])"
  by (simp add: entryPath_def realDir_realPath realDir_def)

lemma removeAll_real:
  "realDir fs v \<Longrightarrow> removeAll fs (v @ [x]) = (\<lambda>z. if prefix (v @ [x]) z then None else fs z)"
  by (simp add: removeAll_def entryPath_real)

lemma realDir_mono:
  "realDir fs v \<Longrightarrow> (\<And>p. prefix p v \<Longrightarrow> fs' p = fs p) \<Longrightarrow> realDir fs' v"
  by (auto simp: realDir_def isDirAt_def)

lemma not_prefix_snoc: "prefix p v \<Longrightarrow> \<not> prefix (v @ xs @ [x]) p"
  by (auto dest!: prefix_length_le)

lemma realDir_removeAll:
  assumes "realDir fs v"
  shows "realDir (removeAll fs (v @ [x])) v"
  using not_prefix_snoc [of _ v "[]" x] by (intro realDir_mono [OF assms]) (simp add: removeAll_real [OF assms])

lemma realDir_snoc:
  "realDir fs v \<Longrightarrow> x \<noteq> [] \<Longrightarrow> x \<noteq> ''.'' \<Longrightarrow> x \<noteq> ''..'' \<Longrightarrow> fs (v @ [x]) = Some NDir \<Longrightarrow> realDir fs (v @ [x])"
  by (auto simp: realDir_def isDirAt_def)

text \<open>An empty directory made anew.\<close>

lemma fresh_directory:
  assumes v: "realDir fs v" and x: "x \<noteq> []" "x \<noteq> ''.''" "x \<noteq> ''..''"
  shows "\<exists>fs'. mkdirAll (removeAll fs (v @ [x])) (v @ [x]) = (fs', True) \<and> jailed (v @ [x]) fs'"
proof -
  let ?fs1 = "removeAll fs (v @ [x])"
  let ?fs2 = "?fs1(v @ [x] \<mapsto> NDir)"
  have r: "realDir ?fs1 v" by (rule realDir_removeAll [OF v])
  have n: "?fs1 (v @ [x]) = None" by (simp add: removeAll_real [OF v])
  have m: "mkdirAll ?fs1 (v @ [x]) = (?fs2, True)"
    using mkdirFrom_real [of ?fs1 "[]" v "[x]"] r n by (simp add: mkdirAll_def entryPath_real)
  have "realDir ?fs2 v" using not_prefix_snoc [of _ v "[]" x] by (intro realDir_mono [OF r]) auto
  then have "realDir ?fs2 (v @ [x])" using x by (intro realDir_snoc) auto
  moreover have "tameBelow (v @ [x]) ?fs2" by (auto simp: tameBelow_def removeAll_real [OF v])
  ultimately show ?thesis using m by (auto simp: jailed_def)
qed

text \<open>A directory moved to another entry of the same directory, and a file written into it.\<close>

lemma moved_directory:
  assumes j: "jailed (v @ [x]) fs" and x: "x \<noteq> y" "y \<noteq> []" "y \<noteq> ''.''" "y \<noteq> ''..''"
  shows "\<exists>fs'. rename (removeAll fs (v @ [y])) (v @ [x]) (v @ [y]) = (fs', True) \<and> jailed (v @ [y]) fs'
    \<and> (\<forall>z. prefix (v @ [x]) z \<longrightarrow> fs' z = None)"
proof -
  let ?fs1 = "removeAll fs (v @ [y])"
  let ?fs2 = "moveTree ?fs1 (v @ [x]) (v @ [y])"
  have rx: "realDir fs (v @ [x])" and tame: "tameBelow (v @ [x]) fs" using j by (simp_all add: jailed_def)
  from rx have v: "realDir fs v" by (rule realDir_prefix) simp
  have r: "realDir ?fs1 v" by (rule realDir_removeAll [OF v])
  have dx: "fs (v @ [x]) = Some NDir" using rx by (auto simp: realDir_def isDirAt_def)
  have f1: "?fs1 z = (if prefix (v @ [y]) z then None else fs z)" for z by (simp add: removeAll_real [OF v])
  have nxy: "\<not> prefix (v @ [y]) (v @ [x] @ z)" "\<not> prefix (v @ [x]) (v @ [y] @ z)" for z using x by auto
  have "rename ?fs1 (v @ [x]) (v @ [y]) = (?fs2, True)"
    using nxy [of "[]"] dx x(1) by (simp add: rename_def entryPath_real [OF r] f1)
  moreover have "realDir ?fs2 v"
    using not_prefix_snoc [of _ v "[]" x] not_prefix_snoc [of _ v "[]" y]
    by (intro realDir_mono [OF r]) (auto simp: moveTree_def)
  then have "realDir ?fs2 (v @ [y])"
    using x dx nxy [of "[]"] by (intro realDir_snoc) (simp_all add: moveTree_def f1)
  moreover have "tameBelow (v @ [y]) ?fs2"
    using tame nxy by (auto simp: tameBelow_def moveTree_def f1 prefix_def)
  moreover have "?fs2 z = None" if "prefix (v @ [x]) z" for z
    using that nxy by (auto simp: moveTree_def prefix_def)
  ultimately show ?thesis by (auto simp: jailed_def)
qed

end
