(* ===== verification/Toolchain.thy ===== *)
theory Toolchain
  imports HostFS
begin

text \<open>
  The store of pinned tools, \<open>internal/toolchain/manifest.go\<close> and \<open>store.go\<close>: the manifest and its validation, the download,
  verification and extraction of an archive into the store, its status, and container images.  The store works on the file system
  of \<open>HostFS\<close>; SHA-256, HTTP, the decoding of compressed tar archives, JSON, the shell, the Go compiler and Docker are the record
  \<open>toolEnv\<close>.  Text of errors that come from these is left out (\<open>OsError\<close>).
\<close>

unbundle bit_operations_syntax

section \<open>Definitions\<close>

subsection \<open>The manifest\<close>

record SourceLock =
  sl_Name :: string
  sl_Kind :: string
  sl_Manager :: string
  sl_Manifest :: string
  sl_Lock :: string

record SourceBuildArtifact =
  sb_Kind :: string
  sb_Package :: string

record PlatformArtifact =
  pa_Archive :: string
  pa_URL :: string
  pa_SHA256 :: string
  pa_Extract :: string
  pa_Home :: bool
  pa_StripComponents :: int
  pa_Build :: "string list"
  pa_BuildOutput :: string

record ImageArtifact =
  im_Ref :: string
  im_Digest :: string
  im_Optional :: bool
  im_Usage :: string
  im_Stability :: string

record Artifact =
  at_Name :: string
  at_Kind :: string
  at_Version :: string
  at_License :: string
  at_DefaultBinary :: string
  at_Binaries :: "string list"
  at_Platforms :: "(string, PlatformArtifact) gomap"
  at_SourceBuild :: "SourceBuildArtifact option"
  at_Images :: "ImageArtifact list"

record Manifest =
  mf_SchemaVersion :: string
  mf_ManifestVersion :: int
  mf_SourceLocks :: "SourceLock list"
  mf_Artifacts :: "Artifact list"

record Platform =
  pl_GOOS :: string
  pl_GOARCH :: string

definition ParsePlatform :: "string \<Rightarrow> string + Platform" where
  "ParsePlatform v =
     (case cut CHR ''/'' (trimSpace v) of
        (goos, goarch, found) \<Rightarrow>
          if \<not> found \<or> goos = [] \<or> goarch = [] \<or> CHR ''/'' \<in> set goarch
          then Inl (''invalid platform '' @ goQuote v @ '', want goos/goarch'')
          else Inr \<lparr>pl_GOOS = goos, pl_GOARCH = goarch\<rparr>)"

definition platformString :: "Platform \<Rightarrow> string" where
  "platformString p = (if pl_GOOS p = [] \<or> pl_GOARCH p = [] then [] else pl_GOOS p @ ''/'' @ pl_GOARCH p)"

definition DirName :: "Platform \<Rightarrow> string" where
  "DirName p = map (\<lambda>c. if c = CHR ''/'' then CHR ''-'' else c) (platformString p)"

definition isHexLower :: "char \<Rightarrow> bool" where
  "isHexLower c = (isDigit c \<or> (97 \<le> (of_char c :: nat) \<and> (of_char c :: nat) \<le> 102))"

definition isSHA256 :: "string \<Rightarrow> bool" where
  "isSHA256 v = (let v = toLower (trimSpace v) in length v = 64 \<and> list_all isHexLower v)"

definition leavesRoot :: "string \<Rightarrow> bool" where
  "leavesRoot v = (v = ''.'' \<or> v = [] \<or> hasPrefix ''../'' v \<or> hasPrefix ''/'' v)"

definition cleanExtract :: "string \<Rightarrow> string" where
  "cleanExtract v = (let v = pathClean (trimSpace v) in if leavesRoot v then [] else v)"

definition cleanSourceBuildPackage :: "string \<Rightarrow> string" where
  "cleanSourceBuildPackage v =
     (let raw = trimSpace v
      in if \<not> hasPrefix ''./'' raw then []
         else let v = pathClean raw
              in if leavesRoot v then [] else if \<not> hasPrefix ''.'' v then ''./'' @ v else v)"

fun validateLocks :: "nat \<Rightarrow> string list \<Rightarrow> SourceLock list \<Rightarrow> string option" where
  "validateLocks i seen [] = None"
| "validateLocks i seen (lock # locks) =
     (if trimSpace (sl_Name lock) = [] then Some (''source_locks['' @ itoaNat i @ ''] missing name'')
      else if sl_Name lock \<in> set seen then Some (''duplicate source lock '' @ goQuote (sl_Name lock))
      else if sl_Kind lock \<notin> {''go-modules'', ''package-manager''}
      then Some (''source_locks['' @ itoaNat i @ ''] has invalid kind '' @ goQuote (sl_Kind lock))
      else if trimSpace (sl_Manifest lock) = [] then Some (''source_locks['' @ itoaNat i @ ''] missing manifest'')
      else validateLocks (i + 1) (sl_Name lock # seen) locks)"

definition firstError :: "('a \<Rightarrow> string option) \<Rightarrow> 'a list \<Rightarrow> string option" where
  "firstError f xs = (case List.map_filter f xs of [] \<Rightarrow> None | e # _ \<Rightarrow> Some e)"

definition validatePlatform :: "Artifact \<Rightarrow> string \<times> PlatformArtifact \<Rightarrow> string option" where
  "validatePlatform artifact kp =
     (case kp of (key, p) \<Rightarrow>
        let what = ''artifact '' @ goQuote (at_Name artifact) in
        case ParsePlatform key of
          Inl e \<Rightarrow> Some (what @ '': '' @ e)
        | Inr pl \<Rightarrow>
          let what = what @ '' platform '' @ key in
          if pa_Archive p \<noteq> ''tar.gz'' then Some (what @ '' has unsupported archive '' @ goQuote (pa_Archive p))
          else if trimSpace (pa_URL p) = [] then Some (what @ '' missing url'')
          else if \<not> isSHA256 (pa_SHA256 p) then Some (what @ '' missing valid sha256'')
          else if cleanExtract (pa_Extract p) = [] then Some (what @ '' missing valid extract path'')
          else if pa_Build p \<noteq> [] \<and> cleanExtract (pa_BuildOutput p) = [] then Some (what @ '' missing valid build_output'')
          else None)"

fun validateImages :: "string \<Rightarrow> nat \<Rightarrow> ImageArtifact list \<Rightarrow> string option" where
  "validateImages name j [] = None"
| "validateImages name j (img # imgs) =
     (if trimSpace (im_Ref img) = [] then Some (''artifact '' @ goQuote name @ '' images['' @ itoaNat j @ ''] missing ref'')
      else if im_Digest img \<noteq> [] \<and> \<not> hasPrefix ''sha256:'' (im_Digest img)
      then Some (''artifact '' @ goQuote name @ '' images['' @ itoaNat j @ ''] has invalid digest'')
      else validateImages name (j + 1) imgs)"

definition validateArtifact :: "Artifact \<Rightarrow> string option" where
  "validateArtifact a =
     (let what = ''artifact '' @ goQuote (at_Name a) in
      if at_Kind a \<notin> {''binary'', ''image'', ''plugin''} then Some (what @ '' has invalid kind '' @ goQuote (at_Kind a))
      else if trimSpace (at_Version a) = [] then Some (what @ '' missing version'')
      else if at_Kind a = ''binary'' \<and> trimSpace (at_DefaultBinary a) = [] then Some (''binary '' @ what @ '' missing default_binary'')
      else
        let build = (case at_SourceBuild a of
              None \<Rightarrow> None
            | Some sb \<Rightarrow>
              if at_Kind a \<noteq> ''binary'' then Some (what @ '' has source_build but kind '' @ goQuote (at_Kind a))
              else if sb_Kind sb \<noteq> ''go'' then Some (what @ '' has unsupported source_build kind '' @ goQuote (sb_Kind sb))
              else if cleanSourceBuildPackage (sb_Package sb) = [] then Some (what @ '' source_build missing valid package'')
              else None)
        in case build of
             Some e \<Rightarrow> Some e
           | None \<Rightarrow>
             (case firstError (validatePlatform a) (at_Platforms a) of
                Some e \<Rightarrow> Some e
              | None \<Rightarrow> validateImages (at_Name a) 0 (at_Images a)))"

fun validateArtifacts :: "nat \<Rightarrow> string list \<Rightarrow> Artifact list \<Rightarrow> string option" where
  "validateArtifacts i seen [] = None"
| "validateArtifacts i seen (a # as) =
     (if trimSpace (at_Name a) = [] then Some (''artifacts['' @ itoaNat i @ ''] missing name'')
      else if at_Name a \<in> set seen then Some (''duplicate artifact '' @ goQuote (at_Name a))
      else case validateArtifact a of
             Some e \<Rightarrow> Some e
           | None \<Rightarrow> validateArtifacts (i + 1) (at_Name a # seen) as)"

definition Validate :: "Manifest \<Rightarrow> string option" where
  "Validate m =
     (if mf_SchemaVersion m \<noteq> ''scenery.toolchain.v1'' then Some (''unsupported toolchain manifest schema '' @ goQuote (mf_SchemaVersion m))
      else if mf_ManifestVersion m \<le> 0 then Some ''toolchain manifest_version must be positive''
      else case validateLocks 0 [] (mf_SourceLocks m) of
             Some e \<Rightarrow> Some e
           | None \<Rightarrow> validateArtifacts 0 [] (mf_Artifacts m))"

definition artifactNamed :: "Manifest \<Rightarrow> string \<Rightarrow> Artifact option" where
  "artifactNamed m name = find (\<lambda>a. at_Name a = name) (mf_Artifacts m)"

definition platformArtifact :: "Artifact \<Rightarrow> Platform \<Rightarrow> PlatformArtifact option" where
  "platformArtifact a p = map_of (at_Platforms a) (platformString p)"

subsection \<open>Environment\<close>

datatype tcErr = OsError | Msg string

datatype tcResult = Done | Failed tcErr | Crashed

datatype tarType = TypeDir | TypeReg | TypeSymlink | TypeOther

record tarEntry =
  th_Name :: string
  th_Type :: tarType
  th_Mode :: nat
  th_Linkname :: string
  th_Content :: string

record InstallMetadata =
  md_SchemaVersion :: string
  md_Name :: string
  md_Version :: string
  md_Platform :: string
  md_ManifestSHA256 :: string
  md_SourceURL :: string
  md_SourceSHA256 :: string
  md_SourceKind :: string
  md_InstalledAt :: string

datatype dockerErr = DockerUnavailable | DockerError string

record DockerRunner =
  InspectImage :: "string \<Rightarrow> dockerErr option"
  PullImage :: "string \<Rightarrow> dockerErr option"

text \<open>
  \<open>fetch\<close> is the answer to a request: an error, or the status code, the status line and the body, \<open>None\<close> when reading it fails.  \<open>untar\<close> gives the entries of an archive and whether it ends in
  an error.  \<open>shell\<close> and \<open>goBuild\<close> run a command in a directory and change the file system.
\<close>

record toolEnv =
  te_sha256 :: "string \<Rightarrow> string"
  te_fetch :: "string \<Rightarrow> tcErr + (int \<times> string \<times> string option)"
  te_untar :: "string \<Rightarrow> tarEntry list \<times> bool"
  te_marshal :: "InstallMetadata \<Rightarrow> string"
  te_unmarshal :: "string \<Rightarrow> InstallMetadata option"
  te_manifestJSON :: "Manifest \<Rightarrow> string"
  te_shell :: "string \<Rightarrow> string \<Rightarrow> hostfs \<Rightarrow> hostfs \<times> bool"
  te_goBuild :: "string \<Rightarrow> string \<Rightarrow> string \<Rightarrow> hostfs \<Rightarrow> hostfs \<times> bool"
  te_getenv :: "string \<Rightarrow> string"
  te_cwd :: string
  te_stamp :: string
  te_now :: string

record Store =
  st_Dir :: string
  st_RootDir :: string
  st_Manifest :: Manifest
  st_ManifestSHA256 :: string
  st_Platform :: Platform
  st_Docker :: "DockerRunner option"

text \<open>\<open>filepath.Join\<close> of several elements, and the elements of a path from the root.\<close>

definition pathJoins :: "string list \<Rightarrow> string" where
  "pathJoins ws = (case dropWhile (\<lambda>w. w = []) ws of [] \<Rightarrow> [] | vs \<Rightarrow> pathClean (joinWith ''/'' vs))"

definition hostPath :: "toolEnv \<Rightarrow> string \<Rightarrow> string list" where
  "hostPath env p = cleanParts True [] (splitOn CHR ''/'' (if pathRooted p then p else te_cwd env @ ''/'' @ p))"

subsection \<open>Extraction\<close>

datatype archiveName = NameCrash | NoName | Name string

text \<open>A negative number of components to strip slices out of range.\<close>

definition cleanArchivePath :: "string \<Rightarrow> int \<Rightarrow> archiveName" where
  "cleanArchivePath name strip =
     (let name = pathClean (trimSpace name)
      in if leavesRoot name then NoName
         else let parts = splitOn CHR ''/'' name
              in if strip > int (length parts) then NoName
                 else if strip < 0 then NameCrash
                 else let parts = drop (nat strip) parts
                      in if parts = [] then NoName
                         else let cleaned = pathClean (joinWith ''/'' parts)
                              in if leavesRoot cleaned then NoName else Name cleaned)"

definition containsText :: "string \<Rightarrow> string \<Rightarrow> bool" where
  "containsText p s = (indexOf p s \<noteq> None)"

definition executable :: "nat \<Rightarrow> bool" where
  "executable mode = (mode AND 73 \<noteq> 0)"

text \<open>The mode of an extracted or copied file: one that nobody may execute gets \<open>0755\<close> added.\<close>

definition installMode :: "nat \<Rightarrow> nat" where
  "installMode mode = (let mode = mode AND 511 in if mode AND 73 = 0 then mode OR 493 else mode)"

definition extractTarEntry :: "toolEnv \<Rightarrow> tarEntry \<Rightarrow> string \<Rightarrow> hostfs \<Rightarrow> hostfs \<times> bool" where
  "extractTarEntry env h target fs =
     (let cleanTarget = pathClean target; p = hostPath env cleanTarget; parent = hostPath env (pathDir cleanTarget)
      in case th_Type h of
           TypeDir \<Rightarrow> mkdirAll fs p
         | TypeReg \<Rightarrow>
           (case mkdirAll fs parent of
              (fs, ok) \<Rightarrow> if ok then writeFile fs p (th_Content h) (installMode (th_Mode h)) else (fs, False))
         | TypeSymlink \<Rightarrow>
           if th_Linkname h = [] \<or> pathRooted (th_Linkname h) \<or> containsText ''../'' (th_Linkname h) then (fs, True)
           else (case mkdirAll fs parent of
                   (fs, ok) \<Rightarrow> if ok then symlinkAt fs p (th_Linkname h) else (fs, False))
         | TypeOther \<Rightarrow> (fs, True))"

fun extractLoop :: "toolEnv \<Rightarrow> int \<Rightarrow> string \<Rightarrow> bool \<Rightarrow> tarEntry list \<Rightarrow> hostfs \<Rightarrow> hostfs \<times> tcResult" where
  "extractLoop env strip dir broken [] fs = (fs, if broken then Failed OsError else Done)"
| "extractLoop env strip dir broken (h # hs) fs =
     (case cleanArchivePath (th_Name h) strip of
        NameCrash \<Rightarrow> (fs, Crashed)
      | NoName \<Rightarrow> extractLoop env strip dir broken hs fs
      | Name name \<Rightarrow>
        (case extractTarEntry env h (pathJoins [dir, name]) fs of
           (fs, ok) \<Rightarrow> if ok then extractLoop env strip dir broken hs fs else (fs, Failed OsError)))"

definition extractTarArchive :: "toolEnv \<Rightarrow> string \<Rightarrow> int \<Rightarrow> string \<Rightarrow> hostfs \<Rightarrow> hostfs \<times> tcResult" where
  "extractTarArchive env data strip dir fs =
     (case te_untar env data of (hs, broken) \<Rightarrow> extractLoop env strip dir broken hs fs)"

fun selectedLoop :: "toolEnv \<Rightarrow> Artifact \<Rightarrow> PlatformArtifact \<Rightarrow> string \<Rightarrow> bool \<Rightarrow> bool \<Rightarrow> tarEntry list \<Rightarrow> hostfs \<Rightarrow> hostfs \<times> tcResult" where
  "selectedLoop env a entry dir broken found [] fs =
     (fs, if broken then Failed OsError
          else if \<not> found then Failed (Msg (''archive did not contain expected path '' @ pa_Extract entry)) else Done)"
| "selectedLoop env a entry dir broken found (h # hs) fs =
     (case cleanArchivePath (th_Name h) (pa_StripComponents entry) of
        NameCrash \<Rightarrow> (fs, Crashed)
      | NoName \<Rightarrow> selectedLoop env a entry dir broken found hs fs
      | Name name \<Rightarrow>
        if pa_Home entry
        then (case extractTarEntry env h (pathJoins [dir, ''home'', name]) fs of
                (fs, ok) \<Rightarrow> if ok then selectedLoop env a entry dir broken (found \<or> name = cleanExtract (pa_Extract entry)) hs fs
                            else (fs, Failed OsError))
        else if pathBase name \<noteq> pathBase (pa_Extract entry) then selectedLoop env a entry dir broken found hs fs
        else (case extractTarEntry env h (pathJoins [dir, ''bin'', at_DefaultBinary a]) fs of
                (fs, ok) \<Rightarrow> if ok then selectedLoop env a entry dir broken True hs fs else (fs, Failed OsError)))"

text \<open>\<open>extractArtifact\<close> looks at the binaries afterwards, without any effect.\<close>

definition extractArtifact :: "toolEnv \<Rightarrow> string \<Rightarrow> Artifact \<Rightarrow> PlatformArtifact \<Rightarrow> string \<Rightarrow> hostfs \<Rightarrow> hostfs \<times> tcResult" where
  "extractArtifact env data a entry dir fs =
     (case te_untar env data of (hs, broken) \<Rightarrow> selectedLoop env a entry dir broken False hs fs)"

definition isExecutableFile :: "toolEnv \<Rightarrow> string \<Rightarrow> hostfs \<Rightarrow> bool" where
  "isExecutableFile env p fs = (case readFile fs (hostPath env p) of None \<Rightarrow> False | Some (content, mode) \<Rightarrow> executable mode)"

definition copyExecutableFile :: "toolEnv \<Rightarrow> string \<Rightarrow> string \<Rightarrow> hostfs \<Rightarrow> hostfs \<times> bool" where
  "copyExecutableFile env source target fs =
     (case readFile fs (hostPath env source) of
        None \<Rightarrow> (fs, False)
      | Some (content, mode) \<Rightarrow>
        (case mkdirAll fs (hostPath env (pathDir target)) of
           (fs, ok) \<Rightarrow> if ok then writeFile fs (hostPath env target) content (installMode mode) else (fs, False)))"

function (sequential) replaceText :: "string \<Rightarrow> string \<Rightarrow> string \<Rightarrow> string" where
  "replaceText old new [] = []"
| "replaceText old new (c # cs) =
     (if old \<noteq> [] \<and> hasPrefix old (c # cs) then new @ replaceText old new (drop (length old) (c # cs))
      else c # replaceText old new cs)"
  by pat_completeness auto
termination by (relation "measure (\<lambda>(old, new, s). length s)") (auto simp: neq_Nil_conv)

definition shellQuote :: "string \<Rightarrow> string" where
  "shellQuote v =
     (if v = [] then [CHR 0x27, CHR 0x27]
      else [CHR 0x27] @ replaceText [CHR 0x27] [CHR 0x27, CHR 0x5C, CHR 0x27, CHR 0x27] v @ [CHR 0x27])"

definition expandBuildCommand :: "string \<Rightarrow> string \<Rightarrow> string \<Rightarrow> string" where
  "expandBuildCommand command sourceDir installDir =
     replaceText ''{install}'' (shellQuote installDir) (replaceText ''{source}'' (shellQuote sourceDir) command)"

fun buildCommands :: "toolEnv \<Rightarrow> string \<Rightarrow> string \<Rightarrow> string list \<Rightarrow> hostfs \<Rightarrow> hostfs \<times> bool" where
  "buildCommands env srcDir installDir [] fs = (fs, True)"
| "buildCommands env srcDir installDir (command # commands) fs =
     (let command = trimSpace command
      in if command = [] then buildCommands env srcDir installDir commands fs
         else case te_shell env srcDir (expandBuildCommand command srcDir installDir) fs of
                (fs, ok) \<Rightarrow> if ok then buildCommands env srcDir installDir commands fs else (fs, False))"

definition buildArtifact :: "toolEnv \<Rightarrow> string \<Rightarrow> Artifact \<Rightarrow> PlatformArtifact \<Rightarrow> string \<Rightarrow> hostfs \<Rightarrow> hostfs \<times> tcResult" where
  "buildArtifact env data a entry dir fs =
     (let srcDir = pathJoins [dir, ''src'']; installDir = pathJoins [dir, ''build-install'']
      in case mkdirAll fs (hostPath env srcDir) of (fs, ok) \<Rightarrow>
         if \<not> ok then (fs, Failed OsError)
         else case mkdirAll fs (hostPath env installDir) of (fs, ok) \<Rightarrow>
         if \<not> ok then (fs, Failed OsError)
         else case extractTarArchive env data (pa_StripComponents entry) srcDir fs of (fs, r) \<Rightarrow>
         if r \<noteq> Done then (fs, r)
         else case buildCommands env srcDir installDir (pa_Build entry) fs of (fs, ok) \<Rightarrow>
         if \<not> ok then (fs, Failed (Msg (''build '' @ at_Name a)))
         else case copyExecutableFile env (pathJoins [installDir, cleanExtract (pa_BuildOutput entry)])
                     (pathJoins [dir, ''bin'', at_DefaultBinary a]) fs of (fs, ok) \<Rightarrow>
         (fs, if ok then Done else Failed (Msg (''install built '' @ at_Name a @ '' from '' @ pa_BuildOutput entry))))"

subsection \<open>Installation\<close>

definition artifactPlatformDir :: "Store \<Rightarrow> Artifact \<Rightarrow> Platform \<Rightarrow> string" where
  "artifactPlatformDir s a p = pathJoins [st_Dir s, ''artifacts'', at_Name a, at_Version a, DirName p]"

definition manifestSHA256 :: "toolEnv \<Rightarrow> Store \<Rightarrow> string" where
  "manifestSHA256 env s =
     (if st_ManifestSHA256 s \<noteq> [] then st_ManifestSHA256 s else te_sha256 env (te_manifestJSON env (st_Manifest s)))"

definition verifySHA256 :: "toolEnv \<Rightarrow> string \<Rightarrow> string \<Rightarrow> string option" where
  "verifySHA256 env data want =
     (let want = toLower (trimSpace want); got = te_sha256 env data
      in if \<not> isSHA256 want then Some ''invalid sha256''
         else if got \<noteq> want then Some (''checksum mismatch: got '' @ got @ '' want '' @ want) else None)"

definition limitReader :: "nat \<Rightarrow> string \<Rightarrow> string" where
  "limitReader n s = (if length s \<le> n then s else take n s)"

definition tmpDirFor :: "toolEnv \<Rightarrow> string \<Rightarrow> Artifact \<Rightarrow> string" where
  "tmpDirFor env finalDir a = pathJoins [pathDir finalDir, ''.tmp-'' @ at_Name a @ ''-'' @ te_stamp env]"

text \<open>The end of both kinds of installation: move the directory into place and write the metadata.\<close>

definition commitInstall :: "toolEnv \<Rightarrow> string \<Rightarrow> string \<Rightarrow> InstallMetadata \<Rightarrow> hostfs \<Rightarrow> hostfs \<times> tcResult" where
  "commitInstall env tmpDir finalDir meta fs =
     (case mkdirAll fs (hostPath env (pathDir finalDir)) of (fs, ok) \<Rightarrow>
      if \<not> ok then (fs, Failed OsError)
      else let fs = removeAll fs (hostPath env finalDir)
           in case rename fs (hostPath env tmpDir) (hostPath env finalDir) of (fs, ok) \<Rightarrow>
              if \<not> ok then (fs, Failed OsError)
              else case writeFile fs (hostPath env (pathJoins [finalDir, ''install.json'']))
                          (te_marshal env meta @ [CHR 0x0A]) 420 of (fs, ok) \<Rightarrow>
                   (fs, if ok then Done else Failed OsError))"

definition installMeta :: "toolEnv \<Rightarrow> Store \<Rightarrow> Artifact \<Rightarrow> Platform \<Rightarrow> InstallMetadata" where
  "installMeta env s a p =
     \<lparr>md_SchemaVersion = ''scenery.toolchain.install.v1'', md_Name = at_Name a, md_Version = at_Version a, md_Platform = platformString p,
      md_ManifestSHA256 = manifestSHA256 env s, md_SourceURL = [], md_SourceSHA256 = [], md_SourceKind = [], md_InstalledAt = te_now env\<rparr>"

text \<open>The deferred removal of the temporary directory.\<close>

definition withTmp :: "toolEnv \<Rightarrow> string \<Rightarrow> (hostfs \<Rightarrow> hostfs \<times> tcResult) \<Rightarrow> hostfs \<Rightarrow> hostfs \<times> tcResult" where
  "withTmp env tmpDir body fs =
     (case body (removeAll fs (hostPath env tmpDir)) of (fs, r) \<Rightarrow> (removeAll fs (hostPath env tmpDir), r))"

text \<open>What \<open>installArtifact\<close> does with the verified archive.\<close>

definition placeArtifact :: "toolEnv \<Rightarrow> Store \<Rightarrow> Artifact \<Rightarrow> Platform \<Rightarrow> PlatformArtifact \<Rightarrow> string \<Rightarrow> hostfs \<Rightarrow> hostfs \<times> tcResult" where
  "placeArtifact env s a p entry data fs =
     (let finalDir = artifactPlatformDir s a p; tmpDir = tmpDirFor env finalDir a
      in withTmp env tmpDir (\<lambda>fs.
           case mkdirAll fs (hostPath env tmpDir) of (fs, ok) \<Rightarrow>
           if \<not> ok then (fs, Failed OsError)
           else case (if pa_Build entry \<noteq> [] then buildArtifact env data a entry tmpDir fs
                      else extractArtifact env data a entry tmpDir fs) of (fs, r) \<Rightarrow>
           if r \<noteq> Done then (fs, r)
           else commitInstall env tmpDir finalDir
             ((installMeta env s a p)\<lparr>md_SourceURL := pa_URL entry, md_SourceSHA256 := toLower (pa_SHA256 entry)\<rparr>) fs) fs)"

definition installArtifact :: "toolEnv \<Rightarrow> Store \<Rightarrow> Artifact \<Rightarrow> Platform \<Rightarrow> hostfs \<Rightarrow> hostfs \<times> tcResult" where
  "installArtifact env s a p fs =
     (case platformArtifact a p of
        None \<Rightarrow> (fs, Failed (Msg (''toolchain artifact '' @ at_Name a @ '' has no platform artifact for '' @ platformString p)))
      | Some entry \<Rightarrow>
        (case te_fetch env (pa_URL entry) of
           Inl e \<Rightarrow> (fs, Failed e)
         | Inr (code, status, body) \<Rightarrow>
           if code \<noteq> 200 then (fs, Failed (Msg (''download '' @ pa_URL entry @ '': unexpected status '' @ status)))
           else
             (case map_option (limitReader (768 * 2 ^ 20)) body of
                None \<Rightarrow> (fs, Failed OsError)
              | Some data \<Rightarrow>
                (case verifySHA256 env data (pa_SHA256 entry) of
                   Some e \<Rightarrow> (fs, Failed (Msg (''verify '' @ at_Name a @ '': '' @ e)))
                 | None \<Rightarrow> placeArtifact env s a p entry data fs))))"

definition installSourceBuildArtifact :: "toolEnv \<Rightarrow> Store \<Rightarrow> Artifact \<Rightarrow> Platform \<Rightarrow> string \<Rightarrow> hostfs \<Rightarrow> hostfs \<times> tcResult" where
  "installSourceBuildArtifact env s a p root fs =
     (case at_SourceBuild a of
        None \<Rightarrow> (fs, Failed (Msg (''toolchain artifact '' @ at_Name a @ '' has no source_build'')))
      | Some sb \<Rightarrow>
        (let pkg = cleanSourceBuildPackage (sb_Package sb); root = (if root = [] then ''.'' else root)
         in if pkg = []
            then (fs, Failed (Msg (''toolchain artifact '' @ at_Name a @ '' has invalid source_build package '' @ goQuote (sb_Package sb))))
            else
              (let finalDir = artifactPlatformDir s a p; tmpDir = tmpDirFor env finalDir a; binDir = pathJoins [tmpDir, ''bin'']
               in withTmp env tmpDir (\<lambda>fs.
                    case mkdirAll fs (hostPath env binDir) of (fs, ok) \<Rightarrow>
                    if \<not> ok then (fs, Failed OsError)
                    else case te_goBuild env root (pathJoins [binDir, at_DefaultBinary a]) pkg fs of (fs, ok) \<Rightarrow>
                    if \<not> ok then (fs, Failed (Msg (''build source toolchain artifact '' @ at_Name a)))
                    else commitInstall env tmpDir finalDir
                      ((installMeta env s a p)\<lparr>md_SourceURL := pkg, md_SourceSHA256 := manifestSHA256 env s, md_SourceKind := ''source-build''\<rparr>) fs) fs)))"

definition readMeta :: "toolEnv \<Rightarrow> Store \<Rightarrow> Artifact \<Rightarrow> Platform \<Rightarrow> hostfs \<Rightarrow> tcErr + InstallMetadata" where
  "readMeta env s a p fs =
     (case readFile fs (hostPath env (pathJoins [artifactPlatformDir s a p, ''install.json''])) of
        None \<Rightarrow> Inl OsError
      | Some (content, mode) \<Rightarrow>
        (case te_unmarshal env content of
           None \<Rightarrow> Inl OsError
         | Some m \<Rightarrow>
           if md_SchemaVersion m \<noteq> ''scenery.toolchain.install.v1'' \<or> md_Name m \<noteq> at_Name a \<or> md_Version m \<noteq> at_Version a
              \<or> md_Platform m \<noteq> platformString p
           then Inl (Msg ''install metadata does not match manifest'') else Inr m))"

definition verifyInstall :: "toolEnv \<Rightarrow> Store \<Rightarrow> Artifact \<Rightarrow> PlatformArtifact \<Rightarrow> Platform \<Rightarrow> hostfs \<Rightarrow> tcErr option" where
  "verifyInstall env s a entry p fs =
     (case readMeta env s a p fs of
        Inl e \<Rightarrow> Some e
      | Inr m \<Rightarrow> if toLower (md_SourceSHA256 m) \<noteq> toLower (pa_SHA256 entry)
                 then Some (Msg ''install metadata checksum does not match manifest'') else None)"

definition verifySourceBuildInstall :: "toolEnv \<Rightarrow> Store \<Rightarrow> Artifact \<Rightarrow> Platform \<Rightarrow> hostfs \<Rightarrow> tcErr option" where
  "verifySourceBuildInstall env s a p fs =
     (case readMeta env s a p fs of
        Inl e \<Rightarrow> Some e
      | Inr m \<Rightarrow>
        if md_SourceKind m \<noteq> ''source-build'' then Some (Msg ''install metadata source_kind does not match source build'')
        else if pred_option (\<lambda>sb. md_SourceURL m \<noteq> cleanSourceBuildPackage (sb_Package sb)) (at_SourceBuild a)
        then Some (Msg ''install metadata source package does not match manifest'')
        else if md_ManifestSHA256 m \<noteq> manifestSHA256 env s \<or> md_SourceSHA256 m \<noteq> manifestSHA256 env s
        then Some (Msg ''install metadata manifest checksum does not match bundled manifest'') else None)"

subsection \<open>Status\<close>

record ArtifactStatus =
  as_Name :: string
  as_Kind :: string
  as_Version :: string
  as_Status :: string
  as_Source :: string
  as_ManagedPath :: string
  as_HomePath :: string
  as_Message :: "tcErr option"
  as_Images :: "(ImageArtifact \<times> string \<times> string) list"

record ToolStatus =
  ts_SchemaVersion :: string
  ts_ManifestSHA256 :: string
  ts_StoreDir :: string
  ts_Platform :: string
  ts_SourceLocks :: "(SourceLock \<times> string) list"
  ts_Artifacts :: "ArtifactStatus list"

record ToolOptions =
  op_RootDir :: string
  op_Platform :: Platform
  op_Tool :: string
  op_Strict :: bool
  op_Images :: bool

definition DefaultStoreDir :: "toolEnv \<Rightarrow> string \<Rightarrow> string" where
  "DefaultStoreDir env appRoot =
     (let value = trimSpace (te_getenv env ''SCENERY_TOOLCHAIN_DIR'')
      in if value \<noteq> [] then value
         else pathJoins [if trimSpace appRoot = [] then ''.'' else appRoot, ''.scenery'', ''toolchain''])"

definition NewStore :: "toolEnv \<Rightarrow> Platform \<Rightarrow> DockerRunner \<Rightarrow> string \<Rightarrow> Manifest \<Rightarrow> string + Store" where
  "NewStore env current docker dir m =
     (if trimSpace dir = [] then Inl ''toolchain store dir is empty''
      else case Validate m of
             Some e \<Rightarrow> Inl e
           | None \<Rightarrow> Inr \<lparr>st_Dir = dir, st_RootDir = ''.'', st_Manifest = m, st_ManifestSHA256 = te_sha256 env (te_manifestJSON env m),
                            st_Platform = current, st_Docker = Some docker\<rparr>)"

definition isFalseEnv :: "string \<Rightarrow> bool" where
  "isFalseEnv v = (toLower (trimSpace v) \<in> {''0'', ''false'', ''no'', ''off''})"

definition homePath :: "Store \<Rightarrow> Artifact \<Rightarrow> Platform \<Rightarrow> string" where
  "homePath s a p = pathJoins [artifactPlatformDir s a p, ''home'']"

definition managedBinaryPath :: "Store \<Rightarrow> Artifact \<Rightarrow> PlatformArtifact \<Rightarrow> Platform \<Rightarrow> string" where
  "managedBinaryPath s a entry p =
     (if pa_Home entry then pathJoins [homePath s a p, cleanExtract (pa_Extract entry)]
      else pathJoins [artifactPlatformDir s a p, ''bin'', at_DefaultBinary a])"

definition sourceBuildManagedBinaryPath :: "Store \<Rightarrow> Artifact \<Rightarrow> Platform \<Rightarrow> string" where
  "sourceBuildManagedBinaryPath s a p = pathJoins [artifactPlatformDir s a p, ''bin'', at_DefaultBinary a]"

definition checkedStatus :: "bool \<Rightarrow> tcErr option \<Rightarrow> ArtifactStatus \<Rightarrow> ArtifactStatus" where
  "checkedStatus verify err st =
     (case err of Some e \<Rightarrow> if verify then st\<lparr>as_Status := ''invalid'', as_Message := Some e\<rparr> else st | None \<Rightarrow> st)"

definition artifactStatus :: "toolEnv \<Rightarrow> Store \<Rightarrow> Artifact \<Rightarrow> Platform \<Rightarrow> bool \<Rightarrow> hostfs \<Rightarrow> ArtifactStatus" where
  "artifactStatus env s a p verify fs =
     (let st = \<lparr>as_Name = at_Name a, as_Kind = at_Kind a, as_Version = at_Version a, as_Status = ''missing'', as_Source = [],
                as_ManagedPath = [], as_HomePath = [], as_Message = None, as_Images = []\<rparr>
      in if at_Kind a \<noteq> ''binary'' then st\<lparr>as_Status := ''declared''\<rparr>
         else if at_SourceBuild a \<noteq> None
         then let st = st\<lparr>as_ManagedPath := sourceBuildManagedBinaryPath s a p\<rparr>
              in if \<not> isExecutableFile env (as_ManagedPath st) fs then st
                 else checkedStatus verify (verifySourceBuildInstall env s a p fs)
                        (st\<lparr>as_Status := ''installed'', as_Source := ''source-build''\<rparr>)
         else case platformArtifact a p of
                None \<Rightarrow> st\<lparr>as_Status := ''unsupported'', as_Message := Some (Msg (''no platform artifact for '' @ platformString p))\<rparr>
              | Some entry \<Rightarrow>
                let st = st\<lparr>as_ManagedPath := managedBinaryPath s a entry p, as_HomePath := (if pa_Home entry then homePath s a p else [])\<rparr>
                in if \<not> isExecutableFile env (as_ManagedPath st) fs then st
                   else checkedStatus verify (verifyInstall env s a entry p fs)
                          (st\<lparr>as_Status := ''installed'', as_Source := ''managed-store''\<rparr>))"

definition imageRuntimeRef :: "ImageArtifact \<Rightarrow> string" where
  "imageRuntimeRef img =
     (if trimSpace (im_Digest img) = [] \<or> CHR ''@'' \<in> set (im_Ref img) then im_Ref img
      else let name = im_Ref img;
               name = (case lastIndexByte CHR ''/'' name of
                         Some slash \<Rightarrow>
                           (case lastIndexByte CHR '':'' (drop (slash + 1) name) of
                              Some colon \<Rightarrow> take (slash + 1 + colon) name
                            | None \<Rightarrow> name)
                       | None \<Rightarrow>
                           (case lastIndexByte CHR '':'' name of Some colon \<Rightarrow> take colon name | None \<Rightarrow> name))
           in name @ ''@'' @ im_Digest img)"

fun dockerText :: "dockerErr \<Rightarrow> string" where
  "dockerText DockerUnavailable = ''docker unavailable''"
| "dockerText (DockerError e) = e"

definition isDockerImageMissing :: "dockerErr \<Rightarrow> bool" where
  "isDockerImageMissing e =
     (let msg = toLower (dockerText e) in containsText ''no such image'' msg \<or> containsText ''not found'' msg)"

definition imageStatus :: "DockerRunner option \<Rightarrow> bool \<Rightarrow> bool \<Rightarrow> ImageArtifact \<Rightarrow> ImageArtifact \<times> string \<times> string" where
  "imageStatus docker strict inspect img =
     (if strict \<and> im_Digest img = [] then (img, ''invalid'', ''image is tag-only and has no digest'')
      else if \<not> inspect then (img, ''declared'', [])
      else case docker of
             None \<Rightarrow> (img, ''unavailable'', ''docker runner unavailable'')
           | Some runner \<Rightarrow>
             (case InspectImage runner (imageRuntimeRef img) of
                Some e \<Rightarrow> (img, if e \<noteq> DockerUnavailable \<and> isDockerImageMissing e then ''missing'' else ''unavailable'', dockerText e)
              | None \<Rightarrow> (img, ''present'', [])))"

definition imageStatuses :: "Store \<Rightarrow> ImageArtifact list \<Rightarrow> bool \<Rightarrow> bool \<Rightarrow> (ImageArtifact \<times> string \<times> string) list" where
  "imageStatuses s imgs strict inspect = map (imageStatus (st_Docker s) strict inspect) imgs"

text \<open>The result of \<open>syncImages\<close> is the list of the references that were pulled and the error.\<close>

fun syncImages :: "DockerRunner option \<Rightarrow> ImageArtifact list \<Rightarrow> string list \<times> tcErr option" where
  "syncImages docker [] = ([], None)"
| "syncImages docker (img # imgs) =
     (case docker of
        None \<Rightarrow>
          if im_Optional img then syncImages docker imgs
          else ([], Some (Msg (''docker runner unavailable for required image '' @ im_Ref img)))
      | Some runner \<Rightarrow>
        (let ref = imageRuntimeRef img;
             pull = (case PullImage runner ref of
                       Some e \<Rightarrow> if im_Optional img \<and> e = DockerUnavailable then syncImages docker imgs
                                  else ([], Some (Msg (dockerText e)))
                     | None \<Rightarrow> (case syncImages docker imgs of (refs, err) \<Rightarrow> (ref # refs, err)))
         in case InspectImage runner ref of
              None \<Rightarrow> syncImages docker imgs
            | Some e \<Rightarrow>
              if e = DockerUnavailable
              then (if im_Optional img then syncImages docker imgs else ([], Some (Msg (dockerText e))))
              else if \<not> isDockerImageMissing e \<and> \<not> im_Optional img then ([], Some (Msg (dockerText e)))
              else pull))"

definition sourceLockStatus :: "toolEnv \<Rightarrow> string \<Rightarrow> hostfs \<Rightarrow> SourceLock \<Rightarrow> SourceLock \<times> string" where
  "sourceLockStatus env root fs lock =
     (lock, if statNode fs (hostPath env (pathJoins [root, sl_Manifest lock])) = None then ''missing''
            else if sl_Lock lock \<noteq> [] \<and> statNode fs (hostPath env (pathJoins [root, sl_Lock lock])) = None then ''missing-lock''
            else ''present'')"

definition selectedArtifacts :: "Store \<Rightarrow> string \<Rightarrow> string + Artifact list" where
  "selectedArtifacts s tool =
     (if tool = [] then Inr (mf_Artifacts (st_Manifest s))
      else case artifactNamed (st_Manifest s) tool of
             Some a \<Rightarrow> Inr [a]
           | None \<Rightarrow> Inl (''unknown toolchain artifact '' @ goQuote tool))"

definition optPlatform :: "Store \<Rightarrow> Platform \<Rightarrow> Platform" where
  "optPlatform s p = (if platformString p = [] then st_Platform s else p)"

definition optRoot :: "Store \<Rightarrow> ToolOptions \<Rightarrow> string" where
  "optRoot s opts = (if op_RootDir opts = [] then st_RootDir s else op_RootDir opts)"

definition statusItem :: "toolEnv \<Rightarrow> Store \<Rightarrow> ToolOptions \<Rightarrow> bool \<Rightarrow> hostfs \<Rightarrow> Artifact \<Rightarrow> ArtifactStatus" where
  "statusItem env s opts verify fs a =
     (let item = artifactStatus env s a (optPlatform s (op_Platform opts)) verify fs
      in if op_Images opts \<or> at_Kind a = ''image''
         then let item = item\<lparr>as_Images := imageStatuses s (at_Images a) (op_Strict opts) True\<rparr>
              in if at_Kind a = ''image'' \<and> as_Images item \<noteq> [] then item\<lparr>as_Status := ''declared''\<rparr> else item
         else item)"

definition storeStatus :: "toolEnv \<Rightarrow> Store \<Rightarrow> ToolOptions \<Rightarrow> bool \<Rightarrow> hostfs \<Rightarrow> tcErr + ToolStatus" where
  "storeStatus env s opts verify fs =
     (case selectedArtifacts s (op_Tool opts) of
        Inl e \<Rightarrow> Inl (Msg e)
      | Inr selected \<Rightarrow>
        Inr \<lparr>ts_SchemaVersion = ''scenery.toolchain.status.v1'', ts_ManifestSHA256 = manifestSHA256 env s, ts_StoreDir = pathClean (st_Dir s),
             ts_Platform = platformString (optPlatform s (op_Platform opts)),
             ts_SourceLocks = map (sourceLockStatus env (optRoot s opts) fs) (mf_SourceLocks (st_Manifest s)),
             ts_Artifacts = map (statusItem env s opts verify fs) selected\<rparr>)"

fun syncBinaries :: "toolEnv \<Rightarrow> Store \<Rightarrow> Platform \<Rightarrow> string \<Rightarrow> Artifact list \<Rightarrow> hostfs \<Rightarrow> hostfs \<times> tcResult" where
  "syncBinaries env s p root [] fs = (fs, Done)"
| "syncBinaries env s p root (a # as) fs =
     (if at_Kind a \<noteq> ''binary'' \<or> as_Status (artifactStatus env s a p True fs) = ''installed'' then syncBinaries env s p root as fs
      else case (if at_SourceBuild a \<noteq> None then installSourceBuildArtifact env s a p root fs
                 else if isFalseEnv (te_getenv env ''SCENERY_TOOLCHAIN_DOWNLOAD'')
                 then (fs, Failed (Msg ''toolchain downloads disabled by SCENERY_TOOLCHAIN_DOWNLOAD=0''))
                 else installArtifact env s a p fs) of
             (fs, r) \<Rightarrow> if r = Done then syncBinaries env s p root as fs else (fs, r))"

fun syncAllImages :: "DockerRunner option \<Rightarrow> Artifact list \<Rightarrow> string list \<times> tcErr option" where
  "syncAllImages docker [] = ([], None)"
| "syncAllImages docker (a # as) =
     (case syncImages docker (at_Images a) of
        (refs, Some e) \<Rightarrow> (refs, Some e)
      | (refs, None) \<Rightarrow> (case syncAllImages docker as of (rest, err) \<Rightarrow> (refs @ rest, err)))"

text \<open>\<open>Sync\<close> gives the file system, the references pulled, how it ended and, when it is done, the status.\<close>

definition storeSync :: "toolEnv \<Rightarrow> Store \<Rightarrow> ToolOptions \<Rightarrow> hostfs \<Rightarrow> hostfs \<times> string list \<times> tcResult \<times> ToolStatus option" where
  "storeSync env s opts fs =
     (case selectedArtifacts s (op_Tool opts) of
        Inl e \<Rightarrow> (fs, [], Failed (Msg e), None)
      | Inr selected \<Rightarrow>
        (case syncBinaries env s (optPlatform s (op_Platform opts)) (optRoot s opts) selected fs of (fs, r) \<Rightarrow>
         if r \<noteq> Done then (fs, [], r, None)
         else case (if op_Images opts then syncAllImages (st_Docker s) selected else ([], None)) of
                (refs, Some e) \<Rightarrow> (fs, refs, Failed e, None)
              | (refs, None) \<Rightarrow>
                (case storeStatus env s opts True fs of
                   Inl e \<Rightarrow> (fs, refs, Failed e, None)
                 | Inr st \<Rightarrow> (fs, refs, Done, Some st))))"

definition storePath :: "toolEnv \<Rightarrow> Store \<Rightarrow> string \<Rightarrow> Platform \<Rightarrow> hostfs \<Rightarrow> string + ArtifactStatus" where
  "storePath env s name p fs =
     (case artifactNamed (st_Manifest s) name of
        None \<Rightarrow> Inl (''unknown toolchain artifact '' @ goQuote name)
      | Some a \<Rightarrow>
        (let p = optPlatform s p; st = artifactStatus env s a p True fs
         in if as_ManagedPath st = [] then Inl (''toolchain artifact '' @ goQuote name @ '' has no managed path for '' @ platformString p)
            else Inr st))"

end
