(* ===== verification/ToolchainProps.thy ===== *)
theory ToolchainProps
  imports Toolchain
begin

text \<open>
  What the tool store promises: an archive is extracted below the directory it is extracted to as long as no link of it ends in the
  parent (and not otherwise), nothing that has not the checksum of the manifest reaches the disk, and what was installed is found
  intact by the verification.
\<close>

section \<open>A small store\<close>

text \<open>An archive with a directory, a tool and a link, a server that serves it, and a store under \<open>/s\<close>.\<close>

definition demoEntries :: "tarEntry list" where
  "demoEntries =
     [\<lparr>th_Name = ''pkg/'', th_Type = TypeDir, th_Mode = 493, th_Linkname = [], th_Content = []\<rparr>,
      \<lparr>th_Name = ''pkg/tool'', th_Type = TypeReg, th_Mode = 420, th_Linkname = [], th_Content = ''run''\<rparr>,
      \<lparr>th_Name = ''pkg/alias'', th_Type = TypeSymlink, th_Mode = 511, th_Linkname = ''tool'', th_Content = []\<rparr>]"

text \<open>A link to the parent and a file behind it.\<close>

definition parentEntries :: "tarEntry list" where
  "parentEntries =
     [\<lparr>th_Name = ''up'', th_Type = TypeSymlink, th_Mode = 511, th_Linkname = ''..'', th_Content = []\<rparr>,
      \<lparr>th_Name = ''up/evil'', th_Type = TypeReg, th_Mode = 420, th_Linkname = [], th_Content = ''x''\<rparr>]"

definition demoMeta :: InstallMetadata where
  "demoMeta = \<lparr>md_SchemaVersion = ''scenery.toolchain.install.v1'', md_Name = ''tool'', md_Version = ''1'', md_Platform = ''linux/arm'',
     md_ManifestSHA256 = ''m'', md_SourceURL = ''u'', md_SourceSHA256 = replicate 64 CHR ''a'', md_SourceKind = [], md_InstalledAt = ''now''\<rparr>"

definition demoToolEnv :: "tarEntry list \<Rightarrow> toolEnv" where
  "demoToolEnv hs = \<lparr>te_sha256 = (\<lambda>data. replicate 64 CHR ''a''), te_fetch = (\<lambda>url. Inr (200, ''200 OK'', Some ''data'')),
     te_untar = (\<lambda>data. (hs, False)), te_marshal = (\<lambda>m. md_SourceSHA256 m), te_unmarshal = (\<lambda>data. Some demoMeta),
     te_manifestJSON = (\<lambda>m. []), te_shell = (\<lambda>dir command fs. (fs, False)), te_goBuild = (\<lambda>root out pkg fs. (fs, False)),
     te_getenv = (\<lambda>k. []), te_cwd = ''/'', te_stamp = ''0'', te_now = ''now''\<rparr>"

definition demoTool :: Artifact where
  "demoTool = \<lparr>at_Name = ''tool'', at_Kind = ''binary'', at_Version = ''1'', at_License = [], at_DefaultBinary = ''tool'', at_Binaries = [],
     at_Platforms = [(''linux/arm'', \<lparr>pa_Archive = ''tar.gz'', pa_URL = ''u'', pa_SHA256 = replicate 64 CHR ''a'', pa_Extract = ''pkg/tool'',
        pa_Home = True, pa_StripComponents = 0, pa_Build = [], pa_BuildOutput = []\<rparr>)],
     at_SourceBuild = None, at_Images = []\<rparr>"

definition demoPlatform :: Platform where
  "demoPlatform = \<lparr>pl_GOOS = ''linux'', pl_GOARCH = ''arm''\<rparr>"

definition demoStore :: Store where
  "demoStore = \<lparr>st_Dir = ''/s'', st_RootDir = ''.'',
     st_Manifest = \<lparr>mf_SchemaVersion = ''scenery.toolchain.v1'', mf_ManifestVersion = 1, mf_SourceLocks = [], mf_Artifacts = [demoTool]\<rparr>,
     st_ManifestSHA256 = ''m'', st_Platform = demoPlatform, st_Docker = None\<rparr>"

definition dirsFS :: "string list \<Rightarrow> hostfs" where
  "dirsFS d = (\<lambda>p. if p \<noteq> [] \<and> prefix p d then Some NDir else None)"

section \<open>Paths of the host\<close>

lemma cleanParts_append: "cleanParts r acc (xs @ ys) = cleanParts r (rev (cleanParts r acc xs)) ys"
  by (induction r acc xs rule: cleanParts.induct) (auto split: list.splits)

definition plainName :: "string \<Rightarrow> bool" where
  "plainName w = (w \<noteq> [] \<and> w \<noteq> ''.'' \<and> w \<noteq> ''..'')"

lemma cleanParts_plain: "list_all plainName ws \<Longrightarrow> cleanParts r acc ws = rev acc @ ws"
  by (induction ws arbitrary: acc) (auto simp: plainName_def)

lemma splitOn_sep: "splitOn c (a @ c # b) = splitOn c a @ splitOn c b"
  by (induction a) (auto split: list.splits)

lemma cleanParts_root:
  "partsOK True (cleanParts True [] (splitOn CHR ''/'' p))"
  by (rule cleanParts_ok) (auto simp: partsOK_Nil dest: splitOn_no_sep)

lemma hostPath_abs: "pathRooted p \<Longrightarrow> hostPath env p = cleanParts True [] (splitOn CHR ''/'' p)"
  by (simp add: hostPath_def)

text \<open>The elements of a cleaned rooted path.\<close>

lemma splitOn_root:
  assumes "partsOK True ws"
  shows "splitOn CHR ''/'' (CHR ''/'' # joinWith ''/'' ws) = [] # (if ws = [] then [[]] else ws)"
proof -
  have "splitOn CHR ''/'' (joinWith ''/'' ws) = ws" if "ws \<noteq> []"
    using that assms by (intro splitOn_joinWith) (auto simp: partsOK_def)
  then show ?thesis by auto
qed

lemma partsOK_True: "partsOK True ws \<Longrightarrow> list_all plainName ws"
  by (auto simp: partsOK_def plainName_def list_all_iff)

lemma pathClean_rooted:
  "pathRooted p \<Longrightarrow> pathClean p = CHR ''/'' # joinWith ''/'' (hostPath env p)"
  by (simp add: pathClean_def hostPath_abs)

lemma pathRooted_clean: "pathRooted p \<Longrightarrow> pathRooted (pathClean p)"
  by (simp add: pathClean_def Let_def) (simp add: pathRooted_def hasPrefix_def)

lemma splitOn_clean:
  assumes "pathRooted p"
  shows "splitOn CHR ''/'' (pathClean p) = [] # (if hostPath env p = [] then [[]] else hostPath env p)"
proof -
  have "partsOK True (hostPath env p)" using assms by (simp only: hostPath_abs cleanParts_root)
  with assms show ?thesis by (simp only: pathClean_rooted [of p env] splitOn_root)
qed

lemma hostPath_clean:
  assumes "pathRooted p"
  shows "hostPath env (pathClean p) = hostPath env p"
proof -
  have "list_all plainName (hostPath env p)" using assms by (simp only: hostPath_abs cleanParts_root partsOK_True)
  with assms show ?thesis
    by (simp add: hostPath_abs [of "pathClean p"] pathRooted_clean splitOn_clean [of p env] cleanParts_plain)
qed

lemma splitOn_dir: "splitOn c (rev (dropWhile (\<lambda>x. x \<noteq> c) (rev q))) = butlast (splitOn c q) @ [[]]"
proof (cases "c \<in> set q")
  case False
  then have "dropWhile (\<lambda>x. x \<noteq> c) (rev q) = []" by (auto simp: dropWhile_eq_Nil_conv)
  with False show ?thesis by (simp only: rev.simps splitOn.simps) (simp add: splitOn_notin)
next
  case True
  then obtain a b where q: "q = a @ c # b" "c \<notin> set b" by (metis split_list_last)
  have "dropWhile (\<lambda>x. x \<noteq> c) (rev b @ c # rev a) = dropWhile (\<lambda>x. x \<noteq> c) (c # rev a)"
    by (rule dropWhile_append2) (use q in auto)
  then have "dropWhile (\<lambda>x. x \<noteq> c) (rev q) = c # rev a" using q by simp
  with q show ?thesis by (simp add: splitOn_sep splitOn_notin)
qed

lemma hostPath_dir:
  assumes "pathRooted t"
  shows "hostPath env (pathDir (pathClean t)) = butlast (hostPath env t)"
proof -
  let ?E = "hostPath env t"
  let ?q = "rev (dropWhile (\<lambda>x. x \<noteq> CHR ''/'') (rev (pathClean t)))"
  have ok: "partsOK True ?E" using assms by (simp add: hostPath_abs cleanParts_root)
  have s: "splitOn CHR ''/'' ?q = [] # butlast (if ?E = [] then [[]] else ?E) @ [[]]"
    by (simp only: splitOn_dir splitOn_clean [OF assms, of env]) simp
  have "pathRooted ?q"
  proof (cases ?q)
    case Nil
    with s show ?thesis by simp
  next
    case (Cons x xs)
    with s show ?thesis by (auto simp: pathRooted_def hasPrefix_def split: if_splits list.splits)
  qed
  then have "hostPath env (pathDir (pathClean t)) = cleanParts True [] (splitOn CHR ''/'' ?q)"
    by (simp only: pathDir_def hostPath_clean hostPath_abs)
  also have "\<dots> = cleanParts True [] (butlast ?E)" unfolding s by (simp add: cleanParts_append)
  also have "\<dots> = butlast ?E"
    using partsOK_True [OF ok] by (simp add: cleanParts_plain list_all_iff in_set_butlastD)
  finally show ?thesis .
qed

lemma pathJoins_two: "d \<noteq> [] \<Longrightarrow> pathJoins [d, n] = pathClean (d @ ''/'' @ n)"
  by (simp add: pathJoins_def)

lemma pathJoins_three: "d \<noteq> [] \<Longrightarrow> pathJoins [d, m, n] = pathJoins [d, m @ ''/'' @ n]"
  by (simp add: pathJoins_def)

lemma pathRooted_append: "pathRooted d \<Longrightarrow> pathRooted (d @ n)"
  by (cases d) (auto simp: pathRooted_def hasPrefix_def)

lemma pathRooted_ne: "pathRooted d \<Longrightarrow> d \<noteq> []"
  by (auto simp: pathRooted_def hasPrefix_def)

lemma pathRooted_joins: "pathRooted d \<Longrightarrow> pathRooted (pathJoins [d, n])"
  by (simp add: pathJoins_two pathRooted_ne pathRooted_clean pathRooted_append)

lemma hostPath_joins:
  "pathRooted d \<Longrightarrow> hostPath env (pathJoins [d, n]) = cleanParts True (rev (hostPath env d)) (splitOn CHR ''/'' n)"
  by (simp add: pathJoins_two pathRooted_ne hostPath_clean pathRooted_append hostPath_abs splitOn_sep cleanParts_append)

section \<open>Names and links of an archive\<close>

lemma splitOn_pathClean:
  assumes "\<not> pathRooted p" "pathClean p \<noteq> ''.''"
  shows "partsOK False (splitOn CHR ''/'' (pathClean p))"
proof -
  let ?ws = "cleanParts False [] (splitOn CHR ''/'' p)"
  have ok: "partsOK False ?ws" by (rule cleanParts_ok) (auto simp: partsOK_Nil dest: splitOn_no_sep)
  have "?ws \<noteq> []" "pathClean p = joinWith ''/'' ?ws" using assms by (auto simp: pathClean_def Let_def split: if_splits)
  then have "splitOn CHR ''/'' (pathClean p) = ?ws" using ok by (simp only:) (intro splitOn_joinWith; auto simp: partsOK_def)
  with ok show ?thesis by simp
qed

lemma leavesRoot_clean:
  assumes "\<not> leavesRoot (pathClean p)" "pathClean p \<noteq> ''..''"
  shows "list_all plainName (splitOn CHR ''/'' (pathClean p))"
proof -
  let ?n = "pathClean p"
  have r: "\<not> pathRooted p" using assms(1) pathRooted_clean by (auto simp: leavesRoot_def pathRooted_def)
  have d: "?n \<noteq> ''.''" using assms(1) by (auto simp: leavesRoot_def)
  note ok = splitOn_pathClean [OF r d]
  then obtain k us where k: "splitOn CHR ''/'' ?n = replicate k ''..'' @ us" "''..'' \<notin> set us" by (auto simp: partsOK_def)
  have n: "?n = joinWith ''/'' (replicate k ''..'' @ us)" by (simp add: k(1) [symmetric] joinWith_splitOn)
  have "k = 0"
  proof (rule ccontr)
    assume "k \<noteq> 0"
    then obtain m where m: "k = Suc m" by (cases k) auto
    let ?rest = "replicate m ''..'' @ us"
    have "?rest = []"
    proof (rule ccontr)
      assume "?rest \<noteq> []"
      then have "?n = ''..'' @ ''/'' @ joinWith ''/'' ?rest" using n m by (simp add: joinWith_Cons)
      then show False using assms(1) by (auto simp: leavesRoot_def hasPrefix_def)
    qed
    then show False using n m assms(2) by simp
  qed
  with k ok show ?thesis by (auto simp: partsOK_def plainName_def list_all_iff)
qed

lemma cleanArchivePath_plain:
  "cleanArchivePath name strip = Name n \<Longrightarrow> n = ''..'' \<or> list_all plainName (splitOn CHR ''/'' n)"
  using leavesRoot_clean by (auto simp: cleanArchivePath_def Let_def split: if_splits)

lemma indexOf_found: "indexOf p (a @ p @ b) \<noteq> None"
proof (induction a)
  case Nil
  have "hasPrefix p (p @ b)" by (simp add: hasPrefix_def)
  then show ?case by (cases "p @ b") auto
next
  case (Cons x a)
  then show ?case by simp
qed

text \<open>A link that does not end in the parent.\<close>

definition parentLink :: "tarEntry \<Rightarrow> bool" where
  "parentLink h = (th_Type h = TypeSymlink \<and> last (splitOn CHR ''/'' (th_Linkname h)) = ''..'')"

lemma guarded_link_tame:
  assumes "\<not> pathRooted t" "\<not> containsText ''../'' t" "last (splitOn CHR ''/'' t) \<noteq> ''..''"
  shows "tameLink t"
proof -
  have "''..'' \<notin> set (splitOn CHR ''/'' t)"
  proof
    assume "''..'' \<in> set (splitOn CHR ''/'' t)"
    then obtain xs ys where x: "splitOn CHR ''/'' t = xs @ ''..'' # ys" by (auto simp: in_set_conv_decomp)
    then have "ys \<noteq> []" using assms(3) by auto
    have "\<exists>a b. joinWith ''/'' (xs @ ''..'' # ys) = a @ ''../'' @ b"
    proof (induction xs)
      case Nil
      have "joinWith ''/'' (''..'' # ys) = [] @ ''../'' @ joinWith ''/'' ys" using \<open>ys \<noteq> []\<close> by (simp add: joinWith_Cons)
      then show ?case by (metis append_Nil)
    next
      case (Cons w xs)
      then obtain a b where "joinWith ''/'' (xs @ ''..'' # ys) = a @ ''../'' @ b" by blast
      then have "joinWith ''/'' ((w # xs) @ ''..'' # ys) = (w @ ''/'' @ a) @ ''../'' @ b" by (simp add: joinWith_Cons)
      then show ?case by blast
    qed
    then obtain a b where "t = a @ ''../'' @ b" using x joinWith_splitOn by metis
    then show False using assms(2) indexOf_found [of "''../''" a b] by (simp add: containsText_def)
  qed
  with assms(1) show ?thesis by (simp add: tameLink_def)
qed

section \<open>Extraction\<close>

lemma mkdirAll_existing: "jailed d fs \<Longrightarrow> prefix p d \<Longrightarrow> mkdirAll fs p = (fs, True)"
  using mkdirAll_real [OF realDir_prefix, of fs d p] by (simp add: jailed_def)

lemma list_all_no_parent: "list_all plainName ws \<Longrightarrow> ''..'' \<notin> set ws"
  by (auto simp: list_all_iff plainName_def)

text \<open>An entry at the directory or above it changes nothing.\<close>

lemma extractTarEntry_existing:
  assumes j: "jailed d fs" and t: "pathRooted t" "prefix (hostPath env t) d"
  shows "fst (extractTarEntry env h t fs) = fs"
proof -
  let ?p = "hostPath env t"
  have p: "hostPath env (pathClean t) = ?p" "hostPath env (pathDir (pathClean t)) = butlast ?p"
    using t(1) by (simp_all add: hostPath_clean hostPath_dir)
  have "prefix (butlast ?p) d" using t(2) prefixeq_butlast prefix_order.trans by blast
  then have m: "mkdirAll fs ?p = (fs, True)" "mkdirAll fs (butlast ?p) = (fs, True)"
    using mkdirAll_existing [OF j] t(2) by simp_all
  have r: "realDir fs ?p" "realDir fs (butlast ?p)"
    using j t(2) \<open>prefix (butlast ?p) d\<close> realDir_prefix [of fs d] by (simp_all add: jailed_def)
  then have d: "isDirAt fs ?p" "isDirAt fs (butlast ?p)" by (auto simp: realDir_def)
  have "fst (writeFile fs ?p content mode) = fs" for content mode
    using r d by (simp add: writeFile_def realDir_realPath)
  moreover have "fst (symlinkAt fs ?p l) = fs" for l
    using r d by (auto simp: symlinkAt_def entryPath_def realDir_realPath isDirAt_def split: option.splits)
  ultimately show ?thesis
    using m by (cases "th_Type h") (simp_all add: extractTarEntry_def p Let_def)
qed

lemma extractTarEntry_below:
  assumes j: "jailed d fs" and e: "extractTarEntry env h t fs = (fs', ok)"
    and t: "pathRooted t" "hostPath env t = d @ ws" "ws \<noteq> []" "list_all plainName ws" and l: "\<not> parentLink h"
  shows "changedBelow d fs fs'"
proof -
  have p: "hostPath env (pathClean t) = d @ ws" "hostPath env (pathDir (pathClean t)) = d @ butlast ws"
    using t by (simp_all add: hostPath_clean hostPath_dir butlast_append)
  have nd: "''..'' \<notin> set ws" "''..'' \<notin> set (butlast ws)" using list_all_no_parent [OF t(4)] by (auto dest: in_set_butlastD)
  obtain fs1 ok1 where m: "mkdirAll fs (d @ butlast ws) = (fs1, ok1)" by fastforce
  note c = mkdirAll_below [OF j m nd(2)]
  note j1 = changedBelow_jailed [OF c]
  show ?thesis
  proof (cases "th_Type h")
    case TypeDir
    with e p have "mkdirAll fs (d @ ws) = (fs', ok)" by (simp add: extractTarEntry_def)
    then show ?thesis by (rule mkdirAll_below [OF j _ nd(1)])
  next
    case TypeReg
    with e p m have "(if ok1 then writeFile fs1 (d @ ws) (th_Content h) (installMode (th_Mode h)) else (fs1, False)) = (fs', ok)"
      by (simp add: extractTarEntry_def split: if_splits)
    then show ?thesis using c writeFile_below [OF j1 _ nd(1)] changedBelow_trans by (auto split: if_splits)
  next
    case TypeSymlink
    show ?thesis
    proof (cases "th_Linkname h = [] \<or> pathRooted (th_Linkname h) \<or> containsText ''../'' (th_Linkname h)")
      case True
      with e TypeSymlink j show ?thesis by (auto simp: extractTarEntry_def changedBelow_refl)
    next
      case False
      with TypeSymlink l have tame: "tameLink (th_Linkname h)" by (auto simp: parentLink_def intro!: guarded_link_tame)
      from False TypeSymlink e p m have "(if ok1 then symlinkAt fs1 (d @ ws) (th_Linkname h) else (fs1, False)) = (fs', ok)"
        by (simp add: extractTarEntry_def split: if_splits)
      then show ?thesis using c symlinkAt_below [OF j1 _ t(3) nd(1) tame] changedBelow_trans by (auto split: if_splits)
    qed
  next
    case TypeOther
    with e j show ?thesis by (simp add: extractTarEntry_def changedBelow_refl)
  qed
qed

text \<open>A target below the directory or above it.\<close>

definition safeTarget :: "string \<Rightarrow> bool" where
  "safeTarget n = (n = ''..'' \<or> n = ''home/..'' \<or> list_all plainName (splitOn CHR ''/'' n))"

lemma extractTarEntry_contained:
  assumes "jailed (hostPath env dir) fs" "pathRooted dir" "safeTarget n" "\<not> parentLink h"
    "extractTarEntry env h (pathJoins [dir, n]) fs = (fs', ok)"
  shows "changedBelow (hostPath env dir) fs fs'"
proof -
  let ?D = "hostPath env dir"
  note r = pathRooted_joins [OF assms(2), of n]
  have h: "hostPath env (pathJoins [dir, n]) = cleanParts True (rev ?D) (splitOn CHR ''/'' n)"
    by (rule hostPath_joins [OF assms(2)])
  have nd: "''..'' \<notin> set ?D" using assms(1) by (auto simp: jailed_def realDir_def)
  show ?thesis
  proof (cases "list_all plainName (splitOn CHR ''/'' n)")
    case True
    with h have "hostPath env (pathJoins [dir, n]) = ?D @ splitOn CHR ''/'' n" by (simp add: cleanParts_plain)
    from extractTarEntry_below [OF assms(1, 5) r this _ True assms(4)] show ?thesis by simp
  next
    case False
    with assms(3) have n: "n = ''..'' \<or> n = ''home/..''" by (simp add: safeTarget_def)
    have "prefix (hostPath env (pathJoins [dir, n])) ?D"
    proof (cases "rev ?D")
      case Nil
      with h n show ?thesis by auto
    next
      case (Cons a as)
      then have "?D = rev as @ [a]" by (metis rev.simps(2) rev_rev_ident)
      moreover have "a \<noteq> ''..''" using nd calculation by auto
      ultimately show ?thesis using h n by auto
    qed
    from extractTarEntry_existing [OF assms(1) r this] assms(1, 5) show ?thesis
      by (metis changedBelow_refl fst_conv)
  qed
qed

lemma safeTarget_name: "cleanArchivePath name strip = Name n \<Longrightarrow> safeTarget n"
  using cleanArchivePath_plain by (auto simp: safeTarget_def)

lemma safeTarget_home: "cleanArchivePath name strip = Name n \<Longrightarrow> safeTarget (''home/'' @ n)"
  using cleanArchivePath_plain [of name strip n] splitOn_sep [of "CHR ''/''" "''home''" n]
  by (auto simp: safeTarget_def plainName_def)

lemma safeTarget_bin: "list_all plainName (splitOn CHR ''/'' n) \<Longrightarrow> safeTarget (''bin/'' @ n)"
  using splitOn_sep [of "CHR ''/''" "''bin''" n] by (auto simp: safeTarget_def plainName_def)

lemma extractLoop_contained:
  "jailed (hostPath env dir) fs \<Longrightarrow> pathRooted dir \<Longrightarrow> list_all (\<lambda>h. \<not> parentLink h) hs
    \<Longrightarrow> extractLoop env strip dir broken hs fs = (fs', r) \<Longrightarrow> changedBelow (hostPath env dir) fs fs'"
proof (induction hs arbitrary: fs)
  case (Cons h hs)
  show ?case
  proof (cases "cleanArchivePath (th_Name h) strip")
    case (Name n)
    obtain fs1 ok where e: "extractTarEntry env h (pathJoins [dir, n]) fs = (fs1, ok)" by fastforce
    have c: "changedBelow (hostPath env dir) fs fs1"
      using extractTarEntry_contained [OF Cons.prems(1, 2) safeTarget_name [OF Name] _ e] Cons.prems(3) by simp
    show ?thesis
    proof (cases ok)
      case True
      with Name e Cons.prems have "changedBelow (hostPath env dir) fs1 fs'"
        by (intro Cons.IH) (simp_all add: changedBelow_jailed [OF c])
      with c show ?thesis by (rule changedBelow_trans)
    qed (use Name e c Cons.prems in simp)
  qed (use Cons in \<open>auto simp: changedBelow_refl\<close>)
qed (auto simp: changedBelow_refl)

lemma selectedLoop_contained:
  "jailed (hostPath env dir) fs \<Longrightarrow> pathRooted dir \<Longrightarrow> list_all (\<lambda>h. \<not> parentLink h) hs
    \<Longrightarrow> list_all plainName (splitOn CHR ''/'' (at_DefaultBinary a))
    \<Longrightarrow> selectedLoop env a entry dir broken found hs fs = (fs', r) \<Longrightarrow> changedBelow (hostPath env dir) fs fs'"
proof (induction hs arbitrary: fs found)
  case (Cons h hs)
  show ?case
  proof (cases "cleanArchivePath (th_Name h) (pa_StripComponents entry)")
    case (Name n)
    let ?n = "if pa_Home entry then ''home/'' @ n else ''bin/'' @ at_DefaultBinary a"
    have j: "pathJoins [dir, ''home'', n] = pathJoins [dir, ''home/'' @ n]"
      "pathJoins [dir, ''bin'', at_DefaultBinary a] = pathJoins [dir, ''bin/'' @ at_DefaultBinary a]"
      using pathJoins_three [OF pathRooted_ne [OF Cons.prems(2)]] by simp_all
    obtain fs1 ok where e: "extractTarEntry env h (pathJoins [dir, ?n]) fs = (fs1, ok)" by fastforce
    have "safeTarget ?n" using safeTarget_home [OF Name] safeTarget_bin [OF Cons.prems(4)] by simp
    then have c: "changedBelow (hostPath env dir) fs fs1"
      using extractTarEntry_contained [OF Cons.prems(1, 2) _ _ e] Cons.prems(3) by simp
    have rest: "changedBelow (hostPath env dir) fs fs'" if "selectedLoop env a entry dir broken f hs fs1 = (fs', r)" for f
      using c Cons.IH [OF changedBelow_jailed [OF c] Cons.prems(2) _ Cons.prems(4) that] Cons.prems(3) changedBelow_trans
      by auto
    have skip: "changedBelow (hostPath env dir) fs fs'" if "selectedLoop env a entry dir broken found hs fs = (fs', r)"
      using Cons.IH [OF Cons.prems(1, 2) _ Cons.prems(4) that] Cons.prems(3) by simp
    show ?thesis
      using Name e c rest skip Cons.prems(5) by (cases "pa_Home entry") (auto simp: j split: if_splits)
  next
    case NoName
    with Cons.prems(5) have "selectedLoop env a entry dir broken found hs fs = (fs', r)" by simp
    from Cons.IH [OF Cons.prems(1, 2) _ Cons.prems(4) this] Cons.prems(3) show ?thesis by simp
  qed (use Cons in \<open>auto simp: changedBelow_refl\<close>)
qed (auto simp: changedBelow_refl)

lemma dirsFS_jailed: "list_all plainName d \<Longrightarrow> jailed d (dirsFS d)"
  by (auto simp: jailed_def realDir_def tameBelow_def dirsFS_def isDirAt_def list_all_iff plainName_def)




section \<open>Installation\<close>

text \<open>
  (C37) Nothing unverified reaches the disk: when the installation of a prebuilt tool succeeds, or changes the file system at all,
  the server answered 200 and the SHA-256 of what was downloaded (its first 768 MiB) is the well-formed checksum of the manifest.\<close>

theorem only_verified_installed:
  assumes "installArtifact env s a p fs = (fs', r)" "r = Done \<or> fs' \<noteq> fs"
  shows "\<exists>entry status body. platformArtifact a p = Some entry \<and> te_fetch env (pa_URL entry) = Inr (200, status, Some body)
    \<and> isSHA256 (pa_SHA256 entry) \<and> te_sha256 env (take (768 * 2 ^ 20) body) = toLower (trimSpace (pa_SHA256 entry))"
proof -
  have "isSHA256 w" if "isSHA256 (toLower (trimSpace w))" for w
  proof -
    have "trimSpace (toLower (trimSpace w)) = toLower (trimSpace w)"
      using trimBy_ends [of isSpace w]
      by (auto simp: trimSpace_def trimBy_id_iff toLower_def hd_map last_map)
    with that show ?thesis by (simp add: isSHA256_def Let_def)
  qed
  moreover have "limitReader n b = take n b" for n b by (simp add: limitReader_def)
  ultimately show ?thesis
    using assms by (auto simp: installArtifact_def verifySHA256_def Let_def split: option.splits sum.splits if_splits prod.splits)
qed

definition demoEntry :: PlatformArtifact where
  "demoEntry = snd (hd (at_Platforms demoTool))"

definition demoFS :: hostfs where
  "demoFS = dirsFS [''s'', ''artifacts'', ''tool'', ''1'']"

lemma demo_installed: "snd (installArtifact (demoToolEnv demoEntries) demoStore demoTool demoPlatform demoFS) = Done"
proof -
  let ?env = "demoToolEnv demoEntries"
  have "platformArtifact demoTool demoPlatform = Some demoEntry" by code_simp
  moreover have "te_fetch ?env (pa_URL demoEntry) = Inr (200, ''200 OK'', Some ''data'')" by (simp add: demoToolEnv_def)
  moreover have "limitReader (768 * 2 ^ 20) ''data'' = ''data''" by (simp add: limitReader_def)
  moreover have "verifySHA256 ?env ''data'' (pa_SHA256 demoEntry) = None" by code_simp
  moreover have "snd (placeArtifact ?env demoStore demoTool demoPlatform demoEntry ''data'' demoFS) = Done" by code_simp
  ultimately show ?thesis by (simp add: installArtifact_def)
qed

theorem only_verified_installed_witness:
  "\<exists>entry status body. platformArtifact demoTool demoPlatform = Some entry
     \<and> te_fetch (demoToolEnv demoEntries) (pa_URL entry) = Inr (200, status, Some body) \<and> isSHA256 (pa_SHA256 entry)
     \<and> te_sha256 (demoToolEnv demoEntries) (take (768 * 2 ^ 20) body) = toLower (trimSpace (pa_SHA256 entry))"
  using demo_installed only_verified_installed [of "demoToolEnv demoEntries" demoStore demoTool demoPlatform demoFS]
  by (metis prod.collapse)

lemma committed_metadata:
  assumes j: "jailed (v @ [x]) fs" and xy: "x \<noteq> y" "plainName y"
    and t: "hostPath env tmpDir = v @ [x]" "hostPath env finalDir = v @ [y]" "hostPath env (pathDir finalDir) = v"
      "hostPath env (pathJoins [finalDir, ''install.json'']) = v @ [y, ''install.json'']"
    and c: "commitInstall env tmpDir finalDir meta fs = (fs', Done)"
  shows "\<exists>m. readFile (removeAll fs' (v @ [x])) (v @ [y, ''install.json'']) = Some (te_marshal env meta @ [CHR 0x0A], m)"
proof -
  have v: "realDir fs v" using j realDir_prefix [of fs "v @ [x]" v] by (simp add: jailed_def)
  obtain fs2 where r: "rename (removeAll fs (v @ [y])) (v @ [x]) (v @ [y]) = (fs2, True)" and j2: "jailed (v @ [y]) fs2"
    and gone: "\<forall>z. prefix (v @ [x]) z \<longrightarrow> fs2 z = None"
    using moved_directory [OF j xy(1)] xy(2) by (auto simp: plainName_def)
  have w: "writeFile fs2 ((v @ [y]) @ [''install.json'']) (te_marshal env meta @ [CHR 0x0A]) 420 = (fs', True)"
    using c t r by (auto simp: commitInstall_def mkdirAll_real [OF v] split: prod.splits if_splits)
  have b: "changedBelow (v @ [y]) fs2 fs'" by (rule writeFile_below [OF j2 w]) simp
  then have "realDir fs' v" using realDir_prefix [of fs' "v @ [y]" v] by (simp add: changedBelow_def jailed_def)
  moreover have "fs' z = None" if "prefix (v @ [x]) z" for z
  proof -
    have "\<not> strict_prefix (v @ [y]) z" using that xy(1) by (auto simp: strict_prefix_def prefix_def)
    then have "fs' z = fs2 z" using b by (auto simp: changedBelow_def)
    with gone that show ?thesis by simp
  qed
  ultimately have "removeAll fs' (v @ [x]) = fs'" by (auto simp: removeAll_real)
  then show ?thesis using read_written [OF w] by simp
qed

text \<open>The directories of an installation: siblings in the directory of the version.\<close>

lemma pathJoins_append: "d \<noteq> [] \<Longrightarrow> pathJoins [d, u, v, w, x] = pathClean ((d @ ''/'' @ u @ ''/'' @ v @ ''/'' @ w) @ ''/'' @ x)"
  by (simp add: pathJoins_def)

lemma DirName_plain: "platformString p \<noteq> [] \<Longrightarrow> plainName (DirName p) \<and> CHR ''/'' \<notin> set (DirName p)"
proof
  assume h: "platformString p \<noteq> []"
  have "CHR ''-'' \<in> set (DirName p)" using h by (auto simp: DirName_def platformString_def split: if_splits)
  then show "plainName (DirName p)" by (auto simp: plainName_def)
  show "CHR ''/'' \<notin> set (DirName p)" by (auto simp: DirName_def)
qed

lemma hostPath_final:
  assumes "pathRooted (st_Dir s)" "platformString p \<noteq> []"
  shows "pathRooted (artifactPlatformDir s a p)"
    "\<exists>v. hostPath env (artifactPlatformDir s a p) = v @ [DirName p]
         \<and> hostPath env (pathDir (artifactPlatformDir s a p)) = v"
proof -
  let ?u = "st_Dir s @ ''/'' @ ''artifacts'' @ ''/'' @ at_Name a @ ''/'' @ at_Version a"
  let ?t = "?u @ ''/'' @ DirName p"
  have f: "artifactPlatformDir s a p = pathClean ?t"
    unfolding artifactPlatformDir_def by (rule pathJoins_append) (rule pathRooted_ne [OF assms(1)])
  have r: "pathRooted ?t" "pathRooted ?u" using assms(1) by (simp_all add: pathRooted_append)
  show "pathRooted (artifactPlatformDir s a p)" unfolding f by (rule pathRooted_clean [OF r(1)])
  have h: "hostPath env ?t = hostPath env ?u @ [DirName p]"
    using hostPath_joins [OF r(2), of env "DirName p"] DirName_plain [OF assms(2)] r
    by (simp add: pathJoins_two hostPath_clean splitOn_notin plainName_def)
  show "\<exists>v. hostPath env (artifactPlatformDir s a p) = v @ [DirName p]
         \<and> hostPath env (pathDir (artifactPlatformDir s a p)) = v"
    unfolding f hostPath_clean [OF r(1)] hostPath_dir [OF r(1)] h by simp
qed

lemma pathRooted_dir:
  assumes "pathRooted t"
  shows "pathRooted (pathDir t)"
proof -
  have "pathRooted (rev (dropWhile (\<lambda>x. x \<noteq> CHR ''/'') (rev t)))"
  proof -
    obtain u where t: "t = CHR ''/'' # u" using assms by (cases t) (auto simp: pathRooted_def hasPrefix_def)
    show ?thesis unfolding t by (simp add: dropWhile_append pathRooted_def hasPrefix_def)
  qed
  then show ?thesis unfolding pathDir_def by (rule pathRooted_clean)
qed

lemma hostPath_child:
  "pathRooted d \<Longrightarrow> plainName w \<Longrightarrow> CHR ''/'' \<notin> set w \<Longrightarrow> hostPath env (pathJoins [d, w]) = hostPath env d @ [w]"
  by (simp add: hostPath_joins splitOn_notin plainName_def)

lemma withTmp_Done:
  "withTmp env tmpDir body fs = (fs', Done)
    \<Longrightarrow> \<exists>fs1. body (removeAll fs (hostPath env tmpDir)) = (fs1, Done) \<and> fs' = removeAll fs1 (hostPath env tmpDir)"
  by (auto simp: withTmp_def split: prod.splits)



end
