(* ===== verification/CliTasks.thy ===== *)
theory CliTasks
  imports EnvPolicy
begin

text \<open>
  The tasks of an application, \<open>cmd/scenery/task.go\<close> and \<open>script.go\<close>: the command line, configured tasks and their steps,
  code tasks found by their file names, and the environment a task runs with (\<open>generate.go\<close>, \<open>serve.go\<close>, \<open>dev_supervisor.go\<close>), over
  the configuration found by \<open>internal/app/root.go\<close>.  Running a program or another command of \<open>scenery\<close> is an action on an
  arbitrary world, given by the record \<open>taskEnv\<close> with the rest of the operating system and the decoding of \<open>.scenery.json\<close>; the state of a run is the
  world and the list of the actions so far.  A run is not interrupted by signals, and rendering results as text or JSON is left out.
\<close>

section \<open>Definitions\<close>

subsection \<open>Configuration and environment\<close>

record TaskConfig =
  tk_CWD :: string
  tk_Run :: string
  tk_Steps :: "string list"
  tk_Env :: "(string, string) gomap"

record ProfileConfig =
  vp_Description :: string
  vp_Cost :: string
  vp_Paths :: "string list"
  vp_Steps :: "string list"
  vp_Env :: "(string, string) gomap"
  vp_Artifacts :: "string list"

text \<open>The fields of the configuration that tasks and validation use.\<close>

record CliConfig =
  cf_Name :: string
  cf_ID :: string
  cf_Tasks :: "(string, TaskConfig) gomap"
  cf_Default :: string
  cf_Profiles :: "(string, ProfileConfig) gomap"

definition AppID :: "CliConfig \<Rightarrow> string" where
  "AppID cfg = (if cf_ID cfg \<noteq> [] then cf_ID cfg else cf_Name cfg)"

record scriptTarget =
  sc_Domain :: string
  sc_Name :: string

text \<open>An action: a shell command or a program of a code task with directory and environment, or another command of \<open>scenery\<close>.\<close>

datatype taskAction =
    ShellAction string "string list" string "string list"
  | ScriptAction scriptTarget string "string list" string "string list"
  | CommandAction string "string list"

record 'w taskEnv =
  tv_exec :: "taskAction \<Rightarrow> 'w \<Rightarrow> 'w \<times> string option"
  tv_read :: "'w \<Rightarrow> string \<Rightarrow> string + string option"
  tv_exists :: "'w \<Rightarrow> string \<Rightarrow> bool"
  tv_isDir :: "'w \<Rightarrow> string \<Rightarrow> bool"
  tv_readDir :: "'w \<Rightarrow> string \<Rightarrow> string + (string \<times> bool \<times> bool) list"
  tv_unquote :: "string \<Rightarrow> string + string"
  tv_decode :: "string \<Rightarrow> string \<Rightarrow> string + CliConfig"
  tv_environ :: "string list"
  tv_lookPath :: "string \<Rightarrow> string option"
  tv_cwd :: "string option"

type_synonym 'w runState = "'w \<times> taskAction list"

definition perform :: "'w taskEnv \<Rightarrow> taskAction \<Rightarrow> 'w runState \<Rightarrow> 'w runState \<times> string option" where
  "perform env act st = (case tv_exec env act (fst st) of (w, err) \<Rightarrow> ((w, snd st @ [act]), err))"

text \<open>The search for \<open>.scenery.json\<close> upwards; the directory is the reversed list of its elements.\<close>

definition dirPath :: "string list \<Rightarrow> string" where
  "dirPath rds = CHR ''/'' # joinWith ''/'' (rev rds)"

definition configAt :: "'w taskEnv \<Rightarrow> 'w \<Rightarrow> string \<Rightarrow> (string + string \<times> CliConfig) option" where
  "configAt env w dir =
     (let path = pathJoin dir ''.scenery.json''
      in case tv_read env w path of
           Inr (Some data) \<Rightarrow>
             Some (case tv_decode env path data of
                Inl e \<Rightarrow> Inl e
              | Inr cfg \<Rightarrow>
                (let cfg = (if cf_Name cfg = [] then cfg\<lparr>cf_Name := cf_ID cfg\<rparr> else cfg)
                 in if cf_Name cfg = [] then Inl ''.scenery.json must define a non-empty name or id'' else Inr (dir, cfg)))
         | _ \<Rightarrow> None)"

fun discoverUp :: "'w taskEnv \<Rightarrow> 'w \<Rightarrow> string list \<Rightarrow> string + string \<times> CliConfig" where
  "discoverUp env w [] =
     (case configAt env w ''/'' of Some r \<Rightarrow> r | None \<Rightarrow> Inl ''no .scenery.json found in current directory or any parent'')"
| "discoverUp env w (d # ds) = (case configAt env w (dirPath (d # ds)) of Some r \<Rightarrow> r | None \<Rightarrow> discoverUp env w ds)"

definition DiscoverRoot :: "'w taskEnv \<Rightarrow> 'w \<Rightarrow> string \<Rightarrow> string + string \<times> CliConfig" where
  "DiscoverRoot env w start =
     (case pathAbs (tv_cwd env) start of
        None \<Rightarrow> Inl ''getwd''
      | Some dir \<Rightarrow> discoverUp env w (rev (filter (\<lambda>e. e \<noteq> []) (splitOn CHR ''/'' dir))))"

definition resolveAppRoot :: "'w taskEnv \<Rightarrow> string \<Rightarrow> string + string" where
  "resolveAppRoot env start =
     (if start = [] then Inr ''.'' else case pathAbs (tv_cwd env) start of None \<Rightarrow> Inl ''getwd'' | Some p \<Rightarrow> Inr p)"

definition discoverConfiguredApp :: "'w taskEnv \<Rightarrow> 'w \<Rightarrow> string \<Rightarrow> string + string \<times> CliConfig" where
  "discoverConfiguredApp env w appRootOpt =
     (case resolveAppRoot env appRootOpt of Inl e \<Rightarrow> Inl e | Inr start \<Rightarrow> DiscoverRoot env w start)"

definition appEnvWithDotEnv :: "'w taskEnv \<Rightarrow> 'w \<Rightarrow> string list \<Rightarrow> string \<Rightarrow> string list \<Rightarrow> string + string list" where
  "appEnvWithDotEnv env w base root names =
     (case MergeFiles (tv_unquote env) (tv_read env w) root (if names = [] then [''.env''] else names) of
        Inl e \<Rightarrow> Inl e
      | Inr values \<Rightarrow> Inr (AppendMissing base values))"

text \<open>The last item of a key is replaced in place, a key without item is appended; the keys are taken in order.\<close>

fun replaceLast :: "('a \<Rightarrow> bool) \<Rightarrow> 'a \<Rightarrow> 'a list \<Rightarrow> 'a list" where
  "replaceLast P v [] = []"
| "replaceLast P v (x # xs) = (if P x \<and> \<not> list_ex P xs then v # xs else x # replaceLast P v xs)"

definition overlayKey :: "string list \<Rightarrow> string list \<Rightarrow> string \<times> string \<Rightarrow> string list" where
  "overlayKey base env kv =
     (case kv of (k, v) \<Rightarrow>
        if list_ex (isItem k) base
        then replaceLast (isItem k) (k @ ''='' @ v) (take (length base) env) @ drop (length base) env
        else env @ [k @ ''='' @ v])"

definition sortedMapKeys :: "(string, 'v) gomap \<Rightarrow> string list" where
  "sortedMapKeys m = sort (map fst m)"

definition overlayEnv :: "string list \<Rightarrow> (string, string) gomap \<Rightarrow> string list" where
  "overlayEnv base values = foldl (overlayKey base) base (map (\<lambda>k. (k, the (map_of values k))) (sortedMapKeys values))"

definition envWithOverrides :: "string list \<Rightarrow> string list \<Rightarrow> string list" where
  "envWithOverrides base overrides =
     filter (\<lambda>item. \<not> (CHR ''='' \<in> set item
        \<and> list_ex (\<lambda>o'. CHR ''='' \<in> set o' \<and> fst (cut CHR ''='' o') = fst (cut CHR ''='' item)) overrides)) base @ overrides"

text \<open>On Unix.\<close>

definition shellInvocation :: "string \<Rightarrow> string \<times> string list" where
  "shellInvocation command = (''/bin/sh'', [''-c'', command])"

definition resolveLifecycleCWD :: "string \<Rightarrow> string \<Rightarrow> string" where
  "resolveLifecycleCWD root cwd =
     (if trimSpace cwd = [] then root else if pathRooted cwd then pathClean cwd else pathJoin root cwd)"

subsection \<open>Code tasks\<close>

record scriptCandidate =
  sd_Target :: scriptTarget
  sd_Lang :: string
  sd_Layout :: string
  sd_Path :: string

record scriptOptions =
  so_AppRoot :: string
  so_Env :: string
  so_EnvOverlay :: "(string, string) gomap"
  so_Lang :: string
  so_Target :: string
  so_Args :: "string list"

definition normalizeScriptLang :: "string \<Rightarrow> string + string" where
  "normalizeScriptLang v =
     (let v = toLower (trimSpace v)
      in if v \<in> {[], ''all''} then Inr []
         else if v \<in> {''go'', ''golang''} then Inr ''go''
         else if v \<in> {''typescript'', ''ts''} then Inr ''typescript''
         else Inl ''--lang must be go or typescript'')"

definition segmentChar :: "char \<Rightarrow> bool" where
  "segmentChar c = (isLetter c \<or> isDigit c \<or> c = CHR ''_'')"

definition validScriptSegment :: "string \<Rightarrow> bool" where
  "validScriptSegment v = (v \<noteq> [] \<and> segmentChar (hd v) \<and> list_all (\<lambda>c. segmentChar c \<or> c = CHR ''-'') (tl v))"

definition parseScriptTarget :: "string \<Rightarrow> string + scriptTarget" where
  "parseScriptTarget value =
     (let value = trimSpace value
      in case cut CHR '':'' value of
           (domain, name, found) \<Rightarrow>
             if \<not> found \<or> CHR '':'' \<in> set name
             then Inl (''invalid code task target '' @ goQuote value @ ''; expected <domain>:<name>'')
             else let target = \<lparr>sc_Domain = trimSpace domain, sc_Name = trimSpace name\<rparr>
                  in if \<not> validScriptSegment (sc_Domain target) \<or> \<not> validScriptSegment (sc_Name target)
                     then Inl (''invalid code task target '' @ goQuote value @ ''; domain and name must match [A-Za-z0-9_][A-Za-z0-9_-]*'')
                     else Inr target)"

definition scriptTargetString :: "scriptTarget \<Rightarrow> string" where
  "scriptTargetString t = sc_Domain t @ '':'' @ sc_Name t"

definition scriptCandidateSearch :: "scriptTarget \<Rightarrow> scriptCandidate list" where
  "scriptCandidateSearch t =
     (let base = pathJoin (sc_Domain t) ''tasks''
      in [\<lparr>sd_Target = t, sd_Lang = ''go'', sd_Layout = ''go-file'', sd_Path = pathJoin base (sc_Name t @ ''.task.go'')\<rparr>,
          \<lparr>sd_Target = t, sd_Lang = ''typescript'', sd_Layout = ''typescript-file'', sd_Path = pathJoin base (sc_Name t @ ''.task.ts'')\<rparr>,
          \<lparr>sd_Target = t, sd_Lang = ''go'', sd_Layout = ''go-dir'', sd_Path = pathJoin (pathJoin base (sc_Name t)) ''main.go''\<rparr>,
          \<lparr>sd_Target = t, sd_Lang = ''typescript'', sd_Layout = ''typescript-dir'', sd_Path = pathJoin (pathJoin base (sc_Name t)) ''index.ts''\<rparr>])"

definition missingScriptError :: "scriptTarget \<Rightarrow> scriptCandidate list \<Rightarrow> string \<Rightarrow> string" where
  "missingScriptError t searched lang =
     ''code task '' @ goQuote (scriptTargetString t) @ '' not found'' @ (if lang \<noteq> [] then '' for language '' @ lang else [])
      @ ''; searched:'' @ concat (map (\<lambda>c. CHR 0x0A # ''  '' @ sd_Path c) (filter (\<lambda>c. lang = [] \<or> sd_Lang c = lang) searched))"

definition ambiguousScriptError :: "scriptTarget \<Rightarrow> scriptCandidate list \<Rightarrow> string" where
  "ambiguousScriptError t matches =
     ''code task '' @ goQuote (scriptTargetString t) @ '' is ambiguous:'' @ [CHR 0x0A]
      @ concat (map (\<lambda>c. ''  '' @ sd_Path c @ [CHR 0x0A]) matches)
      @ [CHR 0x0A] @ ''Use --lang go or --lang typescript when language is ambiguous, or remove duplicate task layouts.''"

definition resolveScriptCandidate ::
  "'w taskEnv \<Rightarrow> 'w \<Rightarrow> string \<Rightarrow> scriptTarget \<Rightarrow> string \<Rightarrow> string + scriptCandidate \<times> scriptCandidate list" where
  "resolveScriptCandidate env w root t lang =
     (let searched = scriptCandidateSearch t;
          matches = filter (\<lambda>c. (lang = [] \<or> sd_Lang c = lang) \<and> tv_exists env w (pathJoin root (sd_Path c))) searched
      in case matches of
           [] \<Rightarrow> Inl (missingScriptError t searched lang)
         | [c] \<Rightarrow> Inr (c, searched)
         | _ \<Rightarrow> Inl (ambiguousScriptError t matches))"

definition entryCandidates :: "'w taskEnv \<Rightarrow> 'w \<Rightarrow> string \<Rightarrow> string \<Rightarrow> string \<times> bool \<times> bool \<Rightarrow> scriptCandidate list" where
  "entryCandidates env w root domain e =
     (case e of (name, isDir, isRegular) \<Rightarrow>
        let file = (\<lambda>ext lang layout.
              let t = \<lparr>sc_Domain = domain, sc_Name = trimSuffix ext name\<rparr>
              in if validScriptSegment (sc_Name t)
                 then [\<lparr>sd_Target = t, sd_Lang = lang, sd_Layout = layout, sd_Path = pathJoin (pathJoin domain ''tasks'') name\<rparr>] else [])
        in if isRegular \<and> hasSuffix ''.task.go'' name then file ''.task.go'' ''go'' ''go-file''
           else if isRegular \<and> hasSuffix ''.task.ts'' name then file ''.task.ts'' ''typescript'' ''typescript-file''
           else if isDir \<and> validScriptSegment name
           then filter (\<lambda>c. tv_exists env w (pathJoin root (sd_Path c)))
                  (drop 2 (scriptCandidateSearch \<lparr>sc_Domain = domain, sc_Name = name\<rparr>))
           else [])"

text \<open>The names in a directory are distinct, so no candidate is seen twice.\<close>

definition listDomainScriptCandidates :: "'w taskEnv \<Rightarrow> 'w \<Rightarrow> string \<Rightarrow> string \<Rightarrow> string + scriptCandidate list" where
  "listDomainScriptCandidates env w root domain =
     (case tv_readDir env w (pathJoin (pathJoin root domain) ''tasks'') of
        Inl e \<Rightarrow> Inl e
      | Inr entries \<Rightarrow> Inr (concat (map (entryCandidates env w root domain) entries)))"

fun listDomains :: "'w taskEnv \<Rightarrow> 'w \<Rightarrow> string \<Rightarrow> (string \<times> bool \<times> bool) list \<Rightarrow> string + scriptCandidate list" where
  "listDomains env w root [] = Inr []"
| "listDomains env w root ((name, isDir, isRegular) # es) =
     (if \<not> isDir \<or> \<not> validScriptSegment name \<or> \<not> tv_isDir env w (pathJoin (pathJoin root name) ''tasks'') then listDomains env w root es
      else case listDomainScriptCandidates env w root name of
             Inl e \<Rightarrow> Inl e
           | Inr cs \<Rightarrow> (case listDomains env w root es of Inl e \<Rightarrow> Inl e | Inr rest \<Rightarrow> Inr (cs @ rest)))"

definition candidateKey :: "scriptCandidate \<Rightarrow> string" where
  "candidateKey c = scriptTargetString (sd_Target c) @ '':'' @ sd_Lang c @ '':'' @ sd_Layout c"

definition listScriptCandidates :: "'w taskEnv \<Rightarrow> 'w \<Rightarrow> string \<Rightarrow> string + scriptCandidate list" where
  "listScriptCandidates env w root =
     (case tv_readDir env w root of
        Inl e \<Rightarrow> Inl e
      | Inr es \<Rightarrow> (case listDomains env w root es of Inl e \<Rightarrow> Inl e | Inr cs \<Rightarrow> Inr (sort_key candidateKey cs)))"

definition validateGoScriptBuildTag :: "'w taskEnv \<Rightarrow> 'w \<Rightarrow> string \<Rightarrow> string option" where
  "validateGoScriptBuildTag env w path =
     (case tv_read env w path of
        Inl e \<Rightarrow> Some e
      | Inr None \<Rightarrow> Some (''open '' @ path @ '': no such file or directory'')
      | Inr (Some data) \<Rightarrow>
        if trimSpace (trimPrefix bom (fst (cut (CHR 0x0A) data))) \<noteq> ''//go:build ignore''
        then Some (''single-file Go code task '' @ path @ '' must start with //go:build ignore'') else None)"

definition typeScriptScriptCommand :: "'w taskEnv \<Rightarrow> string \<Rightarrow> string + string \<times> string list" where
  "typeScriptScriptCommand env path =
     (case tv_lookPath env ''bun'' of
        Some bun \<Rightarrow> Inr (bun, [path])
      | None \<Rightarrow>
        (case tv_lookPath env ''node'' of
           Some node \<Rightarrow> Inr (node, [''--import'', ''tsx'', path])
         | None \<Rightarrow> Inl ''scenery task run requires bun or node in PATH for TypeScript code tasks''))"

definition runScriptProcess ::
  "'w taskEnv \<Rightarrow> string \<Rightarrow> CliConfig \<Rightarrow> scriptTarget \<Rightarrow> string \<Rightarrow> string list \<Rightarrow> scriptOptions \<Rightarrow> 'w runState \<Rightarrow> 'w runState \<times> string option" where
  "runScriptProcess env root cfg t program args opts st =
     (case appEnvWithDotEnv env (fst st) (tv_environ env) root [''.env'', ''.env.local''] of
        Inl e \<Rightarrow> (st, Some e)
      | Inr base \<Rightarrow>
        (let extra = [''SCENERY_APP_ID='' @ AppID cfg, ''SCENERY_APP_ROOT='' @ root]
                @ (if so_Env opts \<noteq> [] then [''SCENERY_ENV='' @ so_Env opts, ''SCENERY_RUNTIME_ENV='' @ so_Env opts] else [])
         in case perform env (ScriptAction t root (envWithOverrides (overlayEnv base (so_EnvOverlay opts)) extra) program args) st of
              (st, err) \<Rightarrow> (st, map_option (\<lambda>e. ''scenery task run exited: '' @ e) err)))"

definition runGoScript ::
  "'w taskEnv \<Rightarrow> string \<Rightarrow> CliConfig \<Rightarrow> scriptCandidate \<Rightarrow> scriptOptions \<Rightarrow> 'w runState \<Rightarrow> 'w runState \<times> string option" where
  "runGoScript env root cfg c opts st =
     (let run = (\<lambda>args. runScriptProcess env root cfg (sd_Target c) ''go'' (args @ so_Args opts) opts st)
      in if sd_Layout c = ''go-file''
         then (case validateGoScriptBuildTag env (fst st) (pathJoin root (sd_Path c)) of
                 Some e \<Rightarrow> (st, Some e)
               | None \<Rightarrow> run [''run'', ''./'' @ sd_Path c])
         else if sd_Layout c = ''go-dir'' then run [''run'', ''./'' @ pathDir (sd_Path c)]
         else (st, Some (''unsupported Go script layout '' @ goQuote (sd_Layout c))))"

definition runTypeScriptScript ::
  "'w taskEnv \<Rightarrow> string \<Rightarrow> CliConfig \<Rightarrow> scriptCandidate \<Rightarrow> scriptOptions \<Rightarrow> 'w runState \<Rightarrow> 'w runState \<times> string option" where
  "runTypeScriptScript env root cfg c opts st =
     (case typeScriptScriptCommand env (sd_Path c) of
        Inl e \<Rightarrow> (st, Some e)
      | Inr (program, args) \<Rightarrow> runScriptProcess env root cfg (sd_Target c) program (args @ so_Args opts) opts st)"

definition runSceneryScript :: "'w taskEnv \<Rightarrow> scriptOptions \<Rightarrow> 'w runState \<Rightarrow> 'w runState \<times> string option" where
  "runSceneryScript env opts st =
     (case discoverConfiguredApp env (fst st) (so_AppRoot opts) of
        Inl e \<Rightarrow> (st, Some e)
      | Inr (root, cfg) \<Rightarrow>
        (case parseScriptTarget (so_Target opts) of
           Inl e \<Rightarrow> (st, Some e)
         | Inr t \<Rightarrow>
           (case resolveScriptCandidate env (fst st) root t (so_Lang opts) of
              Inl e \<Rightarrow> (st, Some e)
            | Inr (c, searched) \<Rightarrow>
              if sd_Lang c = ''go'' then runGoScript env root cfg c opts st
              else if sd_Lang c = ''typescript'' then runTypeScriptScript env root cfg c opts st
              else (st, Some (''unsupported script language '' @ goQuote (sd_Lang c))))))"

subsection \<open>The command line\<close>

record taskOptions =
  to_Action :: string
  to_Target :: string
  to_AppRoot :: string
  to_Env :: string
  to_Lang :: string
  to_JSON :: bool
  to_Args :: "string list"

definition taskTargetKind :: "string \<Rightarrow> string + string" where
  "taskTargetKind target =
     (let target = trimSpace target
      in if target = [] then Inl ''missing task target''
         else if CHR '':'' \<in> set target
         then if length (filter (\<lambda>c. c = CHR '':'') target) \<noteq> 1
              then Inl (''invalid code task target '' @ goQuote target @ ''; code-backed task targets must contain exactly one '' @ [CHR 0x27, CHR '':'', CHR 0x27])
              else case parseScriptTarget target of Inl e \<Rightarrow> Inl e | Inr t \<Rightarrow> Inr ''code''
         else if \<not> validScriptSegment target
         then Inl (''invalid configured task target '' @ goQuote target @ ''; configured task names must match [A-Za-z0-9_][A-Za-z0-9_-]*'')
         else Inr ''configured'')"

definition setTaskEnv :: "taskOptions \<Rightarrow> string \<Rightarrow> string + taskOptions" where
  "setTaskEnv opts v =
     (if trimSpace v = [] then Inl ''--env must not be empty'' else Inr (opts\<lparr>to_Env := trimSpace v\<rparr>))"

definition setTaskLang :: "taskOptions \<Rightarrow> string \<Rightarrow> string + taskOptions" where
  "setTaskLang opts v = (case normalizeScriptLang v of Inl e \<Rightarrow> Inl e | Inr lang \<Rightarrow> Inr (opts\<lparr>to_Lang := lang\<rparr>))"

fun taskArgLoop :: "string list \<Rightarrow> taskOptions \<Rightarrow> string + taskOptions" where
  "taskArgLoop [] opts = Inr opts"
| "taskArgLoop (arg # args) opts =
     (if arg = ''--''
      then (if to_Action opts \<noteq> ''run'' then Inl ''-- is only supported for task run'' else Inr (opts\<lparr>to_Args := args\<rparr>))
      else if arg = ''--app-root''
      then (case args of [] \<Rightarrow> Inl ''missing value for --app-root'' | v # vs \<Rightarrow> taskArgLoop vs (opts\<lparr>to_AppRoot := v\<rparr>))
      else if hasPrefix ''--app-root='' arg then taskArgLoop args (opts\<lparr>to_AppRoot := trimPrefix ''--app-root='' arg\<rparr>)
      else if arg = ''--env''
      then (if to_Action opts \<noteq> ''run'' then Inl ''--env is only supported for task run''
            else case args of
                   [] \<Rightarrow> Inl ''missing value for --env''
                 | v # vs \<Rightarrow> (case setTaskEnv opts v of Inl e \<Rightarrow> Inl e | Inr opts \<Rightarrow> taskArgLoop vs opts))
      else if hasPrefix ''--env='' arg
      then (if to_Action opts \<noteq> ''run'' then Inl ''--env is only supported for task run''
            else case setTaskEnv opts (trimPrefix ''--env='' arg) of Inl e \<Rightarrow> Inl e | Inr opts \<Rightarrow> taskArgLoop args opts)
      else if arg = ''--lang''
      then (if to_Action opts \<noteq> ''run'' \<and> to_Action opts \<noteq> ''inspect'' then Inl ''--lang is only supported for task inspect and task run''
            else case args of
                   [] \<Rightarrow> Inl ''missing value for --lang''
                 | v # vs \<Rightarrow> (case setTaskLang opts v of Inl e \<Rightarrow> Inl e | Inr opts \<Rightarrow> taskArgLoop vs opts))
      else if hasPrefix ''--lang='' arg
      then (if to_Action opts \<noteq> ''run'' \<and> to_Action opts \<noteq> ''inspect'' then Inl ''--lang is only supported for task inspect and task run''
            else case setTaskLang opts (trimPrefix ''--lang='' arg) of Inl e \<Rightarrow> Inl e | Inr opts \<Rightarrow> taskArgLoop args opts)
      else if arg = ''--json'' then taskArgLoop args (opts\<lparr>to_JSON := True\<rparr>)
      else if hasPrefix ''-'' arg then Inl (''unknown flag '' @ goQuote arg)
      else if to_Action opts \<noteq> ''run'' \<and> to_Action opts \<noteq> ''inspect'' then Inl (''unexpected argument '' @ goQuote arg)
      else if to_Target opts \<noteq> [] then Inl (''unexpected argument '' @ goQuote arg @ ''; pass task arguments after --'')
      else taskArgLoop args (opts\<lparr>to_Target := arg\<rparr>))"

definition parseTaskArgs :: "string list \<Rightarrow> string + taskOptions" where
  "parseTaskArgs args =
     (case args of
        [] \<Rightarrow> Inl ''usage: scenery task list|inspect|run|graph [--app-root <path>] [--json]''
      | action # args \<Rightarrow>
        (case taskArgLoop args \<lparr>to_Action = action, to_Target = [], to_AppRoot = [], to_Env = [], to_Lang = [], to_JSON = False, to_Args = []\<rparr> of
           Inl e \<Rightarrow> Inl e
         | Inr opts \<Rightarrow>
           if to_Action opts \<in> {''list'', ''graph''}
           then (if to_Target opts \<noteq> [] then Inl (''unexpected task target '' @ goQuote (to_Target opts)) else Inr opts)
           else if to_Action opts \<in> {''inspect'', ''run''}
           then (if to_Target opts = [] then Inl ''missing task target''
                 else case taskTargetKind (to_Target opts) of Inl e \<Rightarrow> Inl e | Inr k \<Rightarrow> Inr opts)
           else Inl (''unknown task command '' @ goQuote (to_Action opts))))"

subsection \<open>Running tasks\<close>

definition runTaskShellCommand :: "'w taskEnv \<Rightarrow> string \<Rightarrow> TaskConfig \<Rightarrow> 'w runState \<Rightarrow> 'w runState \<times> string option" where
  "runTaskShellCommand env root task st =
     (case appEnvWithDotEnv env (fst st) (tv_environ env) root [] of
        Inl e \<Rightarrow> (st, Some e)
      | Inr base \<Rightarrow>
        (case shellInvocation (tk_Run task) of (program, args) \<Rightarrow>
         perform env (ShellAction (resolveLifecycleCWD root (tk_CWD task)) (overlayEnv base (tk_Env task)) program args) st))"

definition stepCommand :: "string \<Rightarrow> string \<Rightarrow> taskAction option" where
  "stepCommand root step =
     (let opt = [''--app-root'', root]
      in if step = ''check'' then Some (CommandAction ''check'' opt)
         else if step = ''test'' \<or> step = ''test:go'' then Some (CommandAction ''test'' opt)
         else if step = ''generate'' then Some (CommandAction ''generate'' opt)
         else if step = ''generate:client'' then Some (CommandAction ''generate'' (''client'' # opt))
         else if step = ''generate:sqlc'' then Some (CommandAction ''generate'' (''sqlc'' # opt))
         else if step = ''db:apply'' then Some (CommandAction ''db apply'' opt)
         else if step = ''db:seed'' then Some (CommandAction ''db seed'' opt)
         else if step = ''db:setup'' then Some (CommandAction ''db setup'' opt)
         else None)"

definition codeTaskOptions :: "string \<Rightarrow> taskOptions \<Rightarrow> scriptOptions" where
  "codeTaskOptions root opts =
     \<lparr>so_AppRoot = root, so_Env = to_Env opts, so_EnvOverlay = [], so_Lang = to_Lang opts, so_Target = to_Target opts, so_Args = to_Args opts\<rparr>"

definition runTaskOptions :: "string \<Rightarrow> taskOptions" where
  "runTaskOptions target =
     \<lparr>to_Action = ''run'', to_Target = target, to_AppRoot = [], to_Env = [], to_Lang = [], to_JSON = False, to_Args = []\<rparr>"

text \<open>The configured tasks that are not on the stack get fewer.\<close>

definition freeNames :: "CliConfig \<Rightarrow> string list \<Rightarrow> nat" where
  "freeNames cfg stack = card (set (map fst (cf_Tasks cfg)) - set stack)"

lemma freeNames_less: "map_of (cf_Tasks cfg) name = Some t \<Longrightarrow> name \<notin> set stack \<Longrightarrow> freeNames cfg (stack @ [name]) < freeNames cfg stack"
  unfolding freeNames_def by (rule psubset_card_mono) (use map_of_SomeD [of "cf_Tasks cfg" name t] in force)+

text \<open>A configured task, and its steps from left to right up to the first error.\<close>

function (sequential) runConfiguredTask :: "'w taskEnv \<Rightarrow> string \<Rightarrow> CliConfig \<Rightarrow> string \<Rightarrow> string list \<Rightarrow> 'w runState \<Rightarrow> 'w runState \<times> string option"
  and runTaskSteps :: "'w taskEnv \<Rightarrow> string \<Rightarrow> CliConfig \<Rightarrow> string list \<Rightarrow> string list \<Rightarrow> 'w runState \<Rightarrow> 'w runState \<times> string option" where
  "runConfiguredTask env root cfg name stack st =
     (case map_of (cf_Tasks cfg) name of
        None \<Rightarrow> (st, Some (''task '' @ goQuote name @ '' is not configured''))
      | Some task \<Rightarrow>
        if name \<in> set stack then (st, Some (''task cycle detected: '' @ joinWith '' -> '' stack @ '' -> '' @ name))
        else if trimSpace (tk_Run task) \<noteq> [] \<and> tk_Steps task \<noteq> []
        then (st, Some (''task '' @ goQuote name @ '' cannot define both run and steps''))
        else if trimSpace (tk_Run task) \<noteq> [] then runTaskShellCommand env root task st
        else if tk_Steps task = [] then (st, Some (''task '' @ goQuote name @ '' has no run command or steps''))
        else runTaskSteps env root cfg (tk_Steps task) (stack @ [name]) st)"
| "runTaskSteps env root cfg [] stack st = (st, None)"
| "runTaskSteps env root cfg (step # steps) stack st =
     (let step = trimSpace step;
          target = trimSpace (trimPrefix ''task:'' step)
      in case (if hasPrefix ''task:'' step
               then if target = [] then (st, Some (''task step '' @ goQuote step @ '' is missing a task target''))
                    else case taskTargetKind target of
                           Inl e \<Rightarrow> (st, Some e)
                         | Inr kind \<Rightarrow>
                           if kind = ''configured'' then runConfiguredTask env root cfg target stack st
                           else runSceneryScript env (codeTaskOptions root (runTaskOptions target)) st
               else case stepCommand root step of
                      Some act \<Rightarrow> perform env act st
                    | None \<Rightarrow> (st, Some (''unknown task step '' @ goQuote step))) of
           (st, Some e) \<Rightarrow> (st, Some e)
         | (st, None) \<Rightarrow> runTaskSteps env root cfg steps stack st)"
  by pat_completeness auto

termination
  by (relation "measures [\<lambda>x. case x of Inl (env, root, cfg, name, stack, st) \<Rightarrow> freeNames cfg stack
                                 | Inr (env, root, cfg, steps, stack, st) \<Rightarrow> freeNames cfg stack,
                         \<lambda>x. case x of Inl y \<Rightarrow> 0 | Inr (env, root, cfg, steps, stack, st) \<Rightarrow> Suc (length steps)]")
     (auto simp: freeNames_less)

definition runTaskTarget :: "'w taskEnv \<Rightarrow> string \<Rightarrow> CliConfig \<Rightarrow> taskOptions \<Rightarrow> 'w runState \<Rightarrow> 'w runState \<times> string option" where
  "runTaskTarget env root cfg opts st =
     (case taskTargetKind (to_Target opts) of
        Inl e \<Rightarrow> (st, Some e)
      | Inr kind \<Rightarrow>
        if kind = ''configured''
        then if to_Env opts \<noteq> [] then (st, Some ''--env is only supported for code tasks'')
             else if to_Lang opts \<noteq> [] then (st, Some ''--lang is only supported for code tasks'')
             else if to_Args opts \<noteq> [] then (st, Some (''configured task '' @ goQuote (to_Target opts) @ '' does not accept arguments''))
             else runConfiguredTask env root cfg (to_Target opts) [] st
        else runSceneryScript env (codeTaskOptions root opts) st)"

subsection \<open>Listing and inspecting\<close>

record taskListRecord =
  tl_Target :: string
  tl_Kind :: string
  tl_Source :: string
  tl_Name :: string
  tl_CWD :: string
  tl_Run :: string
  tl_Steps :: "string list"
  tl_EnvKeys :: "string list"
  tl_Language :: string
  tl_Layout :: string
  tl_ArgsAccepted :: bool

definition configuredTaskListRecord :: "string \<Rightarrow> TaskConfig \<Rightarrow> taskListRecord" where
  "configuredTaskListRecord name task =
     \<lparr>tl_Target = name, tl_Kind = ''configured'', tl_Source = ''.scenery.json'', tl_Name = name, tl_CWD = tk_CWD task, tl_Run = tk_Run task,
      tl_Steps = tk_Steps task, tl_EnvKeys = sortedMapKeys (tk_Env task), tl_Language = [], tl_Layout = [], tl_ArgsAccepted = False\<rparr>"

definition codeTaskListRecord :: "scriptCandidate \<Rightarrow> taskListRecord" where
  "codeTaskListRecord c =
     \<lparr>tl_Target = scriptTargetString (sd_Target c), tl_Kind = ''code'', tl_Source = sd_Path c, tl_Name = sc_Name (sd_Target c), tl_CWD = [],
      tl_Run = [], tl_Steps = [], tl_EnvKeys = [], tl_Language = sd_Lang c, tl_Layout = sd_Layout c, tl_ArgsAccepted = True\<rparr>"

definition buildTaskList :: "'w taskEnv \<Rightarrow> 'w \<Rightarrow> string \<Rightarrow> CliConfig \<Rightarrow> string + taskListRecord list" where
  "buildTaskList env w root cfg =
     (case listScriptCandidates env w root of
        Inl e \<Rightarrow> Inl e
      | Inr cs \<Rightarrow> Inr (map (\<lambda>name. configuredTaskListRecord name (the (map_of (cf_Tasks cfg) name))) (sortedMapKeys (cf_Tasks cfg))
                      @ map codeTaskListRecord cs))"

definition buildTaskInspect :: "'w taskEnv \<Rightarrow> 'w \<Rightarrow> string \<Rightarrow> CliConfig \<Rightarrow> taskOptions \<Rightarrow> string + taskListRecord \<times> string list" where
  "buildTaskInspect env w root cfg opts =
     (case taskTargetKind (to_Target opts) of
        Inl e \<Rightarrow> Inl e
      | Inr kind \<Rightarrow>
        if kind = ''configured''
        then (case map_of (cf_Tasks cfg) (to_Target opts) of
                None \<Rightarrow> Inl (''configured task '' @ goQuote (to_Target opts) @ '' is not configured'')
              | Some task \<Rightarrow> Inr (configuredTaskListRecord (to_Target opts) task, []))
        else (case parseScriptTarget (to_Target opts) of
                Inl e \<Rightarrow> Inl e
              | Inr t \<Rightarrow>
                (case resolveScriptCandidate env w root t (to_Lang opts) of
                   Inl e \<Rightarrow> Inl e
                 | Inr (c, searched) \<Rightarrow> Inr (codeTaskListRecord c, map sd_Path searched))))"

text \<open>The graph; its list of configured tasks is that of \<open>buildTaskList\<close> and left out.\<close>

record taskGraphNode =
  gn_Target :: string
  gn_Kind :: string
  gn_Source :: string
  gn_Language :: string
  gn_ArgsAccepted :: bool

record taskGraph =
  tg_Nodes :: "taskGraphNode list"
  tg_Edges :: "(string \<times> string \<times> string) list"

definition graphNode :: "string \<Rightarrow> string \<Rightarrow> string \<Rightarrow> string \<Rightarrow> bool \<Rightarrow> taskGraphNode" where
  "graphNode target kind source language accepted =
     \<lparr>gn_Target = target, gn_Kind = kind, gn_Source = source, gn_Language = language, gn_ArgsAccepted = accepted\<rparr>"

definition nodeKey :: "taskGraphNode \<Rightarrow> string" where
  "nodeKey n = gn_Kind n @ [CHR 0x00] @ gn_Target n"

definition addNode :: "taskGraphNode \<Rightarrow> taskGraph \<Rightarrow> taskGraph" where
  "addNode n g = (if gn_Target n = [] \<or> nodeKey n \<in> nodeKey ` set (tg_Nodes g) then g else g\<lparr>tg_Nodes := tg_Nodes g @ [n]\<rparr>)"

definition addEdge :: "string \<Rightarrow> string \<Rightarrow> string \<Rightarrow> taskGraph \<Rightarrow> taskGraph" where
  "addEdge from to kind g = g\<lparr>tg_Edges := tg_Edges g @ [(from, to, kind)]\<rparr>"

definition graphStep :: "string \<Rightarrow> taskGraph \<Rightarrow> string \<Rightarrow> taskGraph" where
  "graphStep name g step =
     (let step = trimSpace step
      in if step = [] then g
         else if hasPrefix ''task:'' step
         then let target = trimSpace (trimPrefix ''task:'' step)
              in if target = [] then g
                 else let kind = (case taskTargetKind target of Inl e \<Rightarrow> ''invalid'' | Inr k \<Rightarrow> k)
                      in addEdge name target ''task'' (addNode (graphNode target kind [] [] (kind = ''code'')) g)
         else addEdge name step ''builtin'' (addNode (graphNode step ''builtin'' ''scenery'' [] False) g))"

definition graphTask :: "CliConfig \<Rightarrow> taskGraph \<Rightarrow> string \<Rightarrow> taskGraph" where
  "graphTask cfg g name =
     foldl (graphStep name) (addNode (graphNode name ''configured'' ''.scenery.json'' [] False) g)
       (tk_Steps (the (map_of (cf_Tasks cfg) name)))"

definition buildTaskGraph :: "'w taskEnv \<Rightarrow> 'w \<Rightarrow> string \<Rightarrow> CliConfig \<Rightarrow> string + taskGraph" where
  "buildTaskGraph env w root cfg =
     (let g = foldl (graphTask cfg) \<lparr>tg_Nodes = [], tg_Edges = []\<rparr> (sortedMapKeys (cf_Tasks cfg))
      in case listScriptCandidates env w root of
           Inl e \<Rightarrow> Inl e
         | Inr cs \<Rightarrow> Inr (foldl (\<lambda>g c. addNode (graphNode (scriptTargetString (sd_Target c)) ''code'' (sd_Path c) (sd_Lang c) True) g) g cs))"

definition validateConfiguredTaskNames :: "CliConfig \<Rightarrow> string option" where
  "validateConfiguredTaskNames cfg =
     (case find (\<lambda>name. CHR '':'' \<in> set name) (map fst (cf_Tasks cfg)) of
        Some name \<Rightarrow> Some (''configured task '' @ goQuote name @ '' is invalid: configured task names cannot contain '' @ [CHR 0x27, CHR '':'', CHR 0x27])
      | None \<Rightarrow> None)"

datatype taskReply =
    TaskList "taskListRecord list"
  | TaskInspect taskListRecord "string list"
  | TaskGraph taskGraph
  | TaskRan

definition replyWith :: "('a \<Rightarrow> taskReply) \<Rightarrow> string + 'a \<Rightarrow> string + taskReply" where
  "replyWith f r = (case r of Inl e \<Rightarrow> Inl e | Inr x \<Rightarrow> Inr (f x))"

definition runTaskCommand :: "'w taskEnv \<Rightarrow> string list \<Rightarrow> 'w runState \<Rightarrow> 'w runState \<times> (string + taskReply)" where
  "runTaskCommand env args st =
     (case parseTaskArgs args of
        Inl e \<Rightarrow> (st, Inl e)
      | Inr opts \<Rightarrow>
        (case discoverConfiguredApp env (fst st) (to_AppRoot opts) of
           Inl e \<Rightarrow> (st, Inl e)
         | Inr (root, cfg) \<Rightarrow>
           (case validateConfiguredTaskNames cfg of
              Some e \<Rightarrow> (st, Inl e)
            | None \<Rightarrow>
              if to_Action opts = ''list'' then (st, replyWith TaskList (buildTaskList env (fst st) root cfg))
              else if to_Action opts = ''inspect''
              then (st, replyWith (\<lambda>(r, searched). TaskInspect r searched) (buildTaskInspect env (fst st) root cfg opts))
              else if to_Action opts = ''graph''
              then (st, if \<not> to_JSON opts then Inl ''scenery task graph requires --json''
                        else replyWith TaskGraph (buildTaskGraph env (fst st) root cfg))
              else (case runTaskTarget env root cfg opts st of
                      (st, Some e) \<Rightarrow> (st, Inl e)
                    | (st, None) \<Rightarrow> (st, Inr TaskRan)))))"

end
