(* ===== verification/TaskProps.thy ===== *)
theory TaskProps
  imports CliTasks
begin

text \<open>
  Running configured tasks: a run that succeeds has performed exactly the work the configuration describes, depth first and
  from left to right; when nothing fails by itself a run succeeds exactly when the task has such a description, and a task
  below which tasks refer to each other in a circle never succeeds.
\<close>

section \<open>The work of a task\<close>

text \<open>What an action does, without environment and program.\<close>

datatype taskWork = ShellWork string string | ScriptWork scriptTarget | CommandWork string "string list"

fun workOf :: "taskAction \<Rightarrow> taskWork" where
  "workOf (ShellAction dir env program args) = ShellWork dir (last args)"
| "workOf (ScriptAction t root env program args) = ScriptWork t"
| "workOf (CommandAction command args) = CommandWork command args"

definition stepTarget :: "string \<Rightarrow> string" where
  "stepTarget step = trimSpace (trimPrefix ''task:'' (trimSpace step))"

text \<open>The configured task a step runs.\<close>

definition stepTask :: "string \<Rightarrow> string option" where
  "stepTask step =
     (if hasPrefix ''task:'' (trimSpace step) \<and> taskTargetKind (stepTarget step) = Inr ''configured'' then Some (stepTarget step) else None)"

inductive taskWorks :: "string \<Rightarrow> CliConfig \<Rightarrow> string \<Rightarrow> taskWork list \<Rightarrow> bool"
  and stepWorks :: "string \<Rightarrow> CliConfig \<Rightarrow> string \<Rightarrow> taskWork list \<Rightarrow> bool"
  and stepsWorks :: "string \<Rightarrow> CliConfig \<Rightarrow> string list \<Rightarrow> taskWork list \<Rightarrow> bool"
  for root :: string and cfg :: CliConfig where
  shell: "map_of (cf_Tasks cfg) name = Some task \<Longrightarrow> trimSpace (tk_Run task) \<noteq> [] \<Longrightarrow> tk_Steps task = []
    \<Longrightarrow> taskWorks root cfg name [ShellWork (resolveLifecycleCWD root (tk_CWD task)) (tk_Run task)]"
| steps: "map_of (cf_Tasks cfg) name = Some task \<Longrightarrow> trimSpace (tk_Run task) = [] \<Longrightarrow> tk_Steps task \<noteq> []
    \<Longrightarrow> stepsWorks root cfg (tk_Steps task) ws \<Longrightarrow> taskWorks root cfg name ws"
| configured: "stepTask step = Some name \<Longrightarrow> taskWorks root cfg name ws \<Longrightarrow> stepWorks root cfg step ws"
| code: "hasPrefix ''task:'' (trimSpace step) \<Longrightarrow> taskTargetKind (stepTarget step) = Inr ''code''
    \<Longrightarrow> parseScriptTarget (stepTarget step) = Inr t \<Longrightarrow> stepWorks root cfg step [ScriptWork t]"
| builtin: "\<not> hasPrefix ''task:'' (trimSpace step) \<Longrightarrow> stepCommand root (trimSpace step) = Some act
    \<Longrightarrow> stepWorks root cfg step [workOf act]"
| none: "stepsWorks root cfg [] []"
| more: "stepWorks root cfg step ws \<Longrightarrow> stepsWorks root cfg steps vs \<Longrightarrow> stepsWorks root cfg (step # steps) (ws @ vs)"

inductive_cases stepsWorks_ConsE: "stepsWorks root cfg (step # steps) ws"
inductive_cases stepWorksE: "stepWorks root cfg step ws"
inductive_cases taskWorksE: "taskWorks root cfg name ws"

text \<open>One task has another as a step.\<close>

definition refers :: "CliConfig \<Rightarrow> string \<Rightarrow> string \<Rightarrow> bool" where
  "refers cfg p c =
     (\<exists>task. map_of (cf_Tasks cfg) p = Some task \<and> trimSpace (tk_Run task) = [] \<and> Some c \<in> stepTask ` set (tk_Steps task))"

text \<open>Nothing fails by itself: actions succeed, the \<open>.env\<close> file parses and code tasks are found.\<close>

definition smooth :: "'w taskEnv \<Rightarrow> string \<Rightarrow> bool" where
  "smooth env root =
     ((\<forall>act w. snd (tv_exec env act w) = None)
      \<and> (\<forall>w. \<exists>base. appEnvWithDotEnv env w (tv_environ env) root [] = Inr base)
      \<and> (\<forall>target st. taskTargetKind target = Inr ''code''
           \<longrightarrow> snd (runSceneryScript env (codeTaskOptions root (runTaskOptions target)) st) = None))"

section \<open>What a run does\<close>

declare runConfiguredTask.simps [simp del] runTaskSteps.simps(2) [simp del]

lemma perform_log: "perform env act st = (st', err) \<Longrightarrow> snd st' = snd st @ [act]"
  by (auto simp: perform_def split: prod.splits)

lemma runScriptProcess_log:
  "runScriptProcess env root cfg t program args opts st = (st', None)
    \<Longrightarrow> \<exists>acts. snd st' = snd st @ acts \<and> map workOf acts = [ScriptWork t]"
  by (auto simp: runScriptProcess_def Let_def dest!: perform_log split: sum.splits prod.splits)

lemma resolve_target:
  assumes "resolveScriptCandidate env w root t lang = Inr (c, searched)"
  shows "sd_Target c = t"
proof -
  let ?ms = "filter (\<lambda>c. (lang = [] \<or> sd_Lang c = lang) \<and> tv_exists env w (pathJoin root (sd_Path c))) (scriptCandidateSearch t)"
  have "?ms = [c]" using assms by (auto simp: resolveScriptCandidate_def Let_def split: list.splits)
  then have "c \<in> set ?ms" by simp
  then have "c \<in> set (scriptCandidateSearch t)" unfolding set_filter by blast
  then show ?thesis by (auto simp: scriptCandidateSearch_def Let_def)
qed

lemma runGoScript_log:
  "runGoScript env root cfg c opts st = (st', None) \<Longrightarrow> \<exists>acts. snd st' = snd st @ acts \<and> map workOf acts = [ScriptWork (sd_Target c)]"
  unfolding runGoScript_def Let_def by (auto dest: runScriptProcess_log split: if_splits option.splits)

lemma runTypeScriptScript_log:
  "runTypeScriptScript env root cfg c opts st = (st', None)
    \<Longrightarrow> \<exists>acts. snd st' = snd st @ acts \<and> map workOf acts = [ScriptWork (sd_Target c)]"
  unfolding runTypeScriptScript_def by (auto dest: runScriptProcess_log split: sum.splits prod.splits)

lemma runSceneryScript_log:
  assumes "runSceneryScript env opts st = (st', None)"
  shows "\<exists>t acts. parseScriptTarget (so_Target opts) = Inr t \<and> snd st' = snd st @ acts \<and> map workOf acts = [ScriptWork t]"
proof -
  from assms obtain root cfg where 1: "discoverConfiguredApp env (fst st) (so_AppRoot opts) = Inr (root, cfg)"
    unfolding runSceneryScript_def by (auto split: sum.splits)
  from assms 1 obtain t where 2: "parseScriptTarget (so_Target opts) = Inr t"
    unfolding runSceneryScript_def by (auto split: sum.splits)
  from assms 1 2 obtain c searched where 3: "resolveScriptCandidate env (fst st) root t (so_Lang opts) = Inr (c, searched)"
    unfolding runSceneryScript_def by (auto split: sum.splits)
  from assms 1 2 3 have "runGoScript env root cfg c opts st = (st', None) \<or> runTypeScriptScript env root cfg c opts st = (st', None)"
    unfolding runSceneryScript_def by (auto split: if_splits)
  then have "\<exists>acts. snd st' = snd st @ acts \<and> map workOf acts = [ScriptWork (sd_Target c)]"
    using runGoScript_log runTypeScriptScript_log by metis
  with resolve_target [OF 3] 2 show ?thesis by simp
qed

lemma runTaskShellCommand_log:
  "runTaskShellCommand env root task st = (st', None)
    \<Longrightarrow> \<exists>acts. snd st' = snd st @ acts \<and> map workOf acts = [ShellWork (resolveLifecycleCWD root (tk_CWD task)) (tk_Run task)]"
  by (auto simp: runTaskShellCommand_def shellInvocation_def dest!: perform_log split: sum.splits)

text \<open>The result of one step.\<close>

definition runStep :: "'w taskEnv \<Rightarrow> string \<Rightarrow> CliConfig \<Rightarrow> string \<Rightarrow> string list \<Rightarrow> 'w runState \<Rightarrow> 'w runState \<times> string option" where
  "runStep env root cfg step stack st = runTaskSteps env root cfg [step] stack st"

lemma runTaskSteps_Cons:
  "runTaskSteps env root cfg (step # steps) stack st =
     (case runStep env root cfg step stack st of
        (st, Some e) \<Rightarrow> (st, Some e) | (st, None) \<Rightarrow> runTaskSteps env root cfg steps stack st)"
  by (simp add: runStep_def runTaskSteps.simps(2) Let_def split: prod.splits option.splits)

lemma runStep_task:
  "stepTask step = Some name \<Longrightarrow> runStep env root cfg step stack st = runConfiguredTask env root cfg name stack st"
  unfolding runStep_def runTaskSteps.simps Let_def stepTask_def stepTarget_def
  by (auto simp: taskTargetKind_def split: if_splits prod.splits option.splits)

lemma runStep_code:
  "hasPrefix ''task:'' (trimSpace step) \<Longrightarrow> taskTargetKind (stepTarget step) = Inr ''code''
    \<Longrightarrow> runStep env root cfg step stack st = runSceneryScript env (codeTaskOptions root (runTaskOptions (stepTarget step))) st"
  unfolding runStep_def runTaskSteps.simps Let_def stepTarget_def
  by (auto simp: taskTargetKind_def split: if_splits prod.splits option.splits)

lemma runStep_builtin:
  "\<not> hasPrefix ''task:'' (trimSpace step) \<Longrightarrow> stepCommand root (trimSpace step) = Some act
    \<Longrightarrow> runStep env root cfg step stack st = perform env act st"
  unfolding runStep_def runTaskSteps.simps Let_def by (auto split: prod.splits option.splits)

lemma runStep_cases:
  assumes "runStep env root cfg step stack st = (st', None)"
  obtains name where "stepTask step = Some name"
  | "hasPrefix ''task:'' (trimSpace step)" "taskTargetKind (stepTarget step) = Inr ''code''"
  | act where "\<not> hasPrefix ''task:'' (trimSpace step)" "stepCommand root (trimSpace step) = Some act"
proof -
  have kinds: "k = ''configured'' \<or> k = ''code''" if "taskTargetKind t = Inr k" for t k
    using that by (auto simp: taskTargetKind_def Let_def split: if_splits sum.splits)
  show ?thesis
  proof (cases "hasPrefix ''task:'' (trimSpace step)")
    case True
    with assms obtain k where k: "taskTargetKind (stepTarget step) = Inr k"
      unfolding runStep_def runTaskSteps.simps Let_def stepTarget_def
      by (auto split: if_splits prod.splits option.splits sum.splits)
    show ?thesis
    proof (cases "k = ''configured''")
      case True
      with k \<open>hasPrefix ''task:'' (trimSpace step)\<close> that(1) show ?thesis by (simp add: stepTask_def)
    next
      case False
      with kinds [OF k] k \<open>hasPrefix ''task:'' (trimSpace step)\<close> that(2) show ?thesis by simp
    qed
  next
    case False
    with assms that(3) show ?thesis
      unfolding runStep_def runTaskSteps.simps Let_def by (auto split: prod.splits option.splits)
  qed
qed

text \<open>Induction along a run: a task on its steps with the task on the stack, steps on the tasks they run.\<close>

lemma run_induct:
  fixes cfg :: CliConfig
  assumes task: "\<And>name stack. (\<And>task. map_of (cf_Tasks cfg) name = Some task \<Longrightarrow> name \<notin> set stack \<Longrightarrow> Q (tk_Steps task) (stack @ [name]))
      \<Longrightarrow> P name stack"
    and steps: "\<And>ss stack. (\<And>step name. step \<in> set ss \<Longrightarrow> stepTask step = Some name \<Longrightarrow> P name stack) \<Longrightarrow> Q ss stack"
  shows "P name stack" "Q ss stack"
proof -
  have p: "P name stack" for name stack
  proof (induction "freeNames cfg stack" arbitrary: name stack rule: less_induct)
    case less
    show ?case
    proof (rule task)
      fix t assume "map_of (cf_Tasks cfg) name = Some t" "name \<notin> set stack"
      then have "freeNames cfg (stack @ [name]) < freeNames cfg stack" by (rule freeNames_less)
      with less show "Q (tk_Steps t) (stack @ [name])" by (intro steps)
    qed
  qed
  then show "P name stack" "Q ss stack" by (auto intro: steps)
qed

text \<open>A run that succeeds has done the work of the task.\<close>

lemma run_task_works:
  "runConfiguredTask env root cfg name stack st = (st', None)
    \<Longrightarrow> \<exists>acts. snd st' = snd st @ acts \<and> taskWorks root cfg name (map workOf acts)"
proof (induction name stack arbitrary: st st' rule: run_induct(1) [where cfg = cfg and
      Q = "\<lambda>ss stack. \<forall>st st'. runTaskSteps env root cfg ss stack st = (st', None)
        \<longrightarrow> (\<exists>acts. snd st' = snd st @ acts \<and> stepsWorks root cfg ss (map workOf acts))"])
  case (1 name stack)
  from "1.prems" obtain task where t: "map_of (cf_Tasks cfg) name = Some task" "name \<notin> set stack"
    by (auto simp: runConfiguredTask.simps split: option.splits if_splits)
  show ?case
  proof (cases "trimSpace (tk_Run task) = []")
    case True
    with t "1.prems" have "tk_Steps task \<noteq> []" "runTaskSteps env root cfg (tk_Steps task) (stack @ [name]) st = (st', None)"
      by (auto simp: runConfiguredTask.simps split: if_splits)
    with "1"(1) [OF t] obtain acts where "snd st' = snd st @ acts" "stepsWorks root cfg (tk_Steps task) (map workOf acts)" by blast
    with t True \<open>tk_Steps task \<noteq> []\<close> show ?thesis by (blast intro: steps)
  next
    case False
    with t "1.prems" have n: "tk_Steps task = []" and "runTaskShellCommand env root task st = (st', None)"
      by (auto simp: runConfiguredTask.simps split: if_splits)
    from runTaskShellCommand_log [OF this(2)] shell [OF t(1) False n] show ?thesis by metis
  qed
next
  case (2 ss stack)
  have "\<exists>acts. snd st' = snd st @ acts \<and> stepsWorks root cfg ss (map workOf acts)"
    if "runTaskSteps env root cfg ss stack st = (st', None)" for st st'
    using that 2
  proof (induction ss arbitrary: st)
    case Nil
    then show ?case by (auto intro: none)
  next
    case (Cons step ss)
    from Cons.prems(1) obtain st1 where 1: "runStep env root cfg step stack st = (st1, None)" "runTaskSteps env root cfg ss stack st1 = (st', None)"
      unfolding runTaskSteps_Cons by (auto split: prod.splits option.splits)
    have "\<exists>acts. snd st1 = snd st @ acts \<and> stepWorks root cfg step (map workOf acts)"
      using 1(1)
    proof (cases rule: runStep_cases)
      case (1 name)
      then have "runConfiguredTask env root cfg name stack st = (st1, None)"
        using \<open>runStep env root cfg step stack st = (st1, None)\<close> by (simp only: runStep_task)
      with Cons.prems(2) [of step name st st1] 1 show ?thesis by (auto intro: configured)
    next
      case 2
      with \<open>runStep env root cfg step stack st = (st1, None)\<close> runSceneryScript_log show ?thesis
        by (fastforce simp: runStep_code codeTaskOptions_def runTaskOptions_def dest: code)
    next
      case (3 act)
      with \<open>runStep env root cfg step stack st = (st1, None)\<close> show ?thesis
        by (intro exI [of _ "[act]"]) (auto simp: runStep_builtin intro: builtin dest: perform_log)
    qed
    moreover have "\<exists>acts. snd st' = snd st1 @ acts \<and> stepsWorks root cfg ss (map workOf acts)"
      by (rule Cons.IH [OF 1(2)]) (rule Cons.prems(2), auto)
    ultimately show ?case by (metis append.assoc map_append more)
  qed
  then show ?case by blast
qed

section \<open>Circles\<close>

text \<open>What has a description is well-founded below.\<close>

lemma taskWorks_accp:
  "taskWorks root cfg name ws \<Longrightarrow> Wellfounded.accp (\<lambda>c p. refers cfg p c) name"
  "stepWorks root cfg step ws \<Longrightarrow> \<forall>c. stepTask step = Some c \<longrightarrow> Wellfounded.accp (\<lambda>c p. refers cfg p c) c"
  "stepsWorks root cfg ss ws \<Longrightarrow> \<forall>c. Some c \<in> stepTask ` set ss \<longrightarrow> Wellfounded.accp (\<lambda>c p. refers cfg p c) c"
proof (induction rule: taskWorks_stepWorks_stepsWorks.inducts)
  case (shell name task)
  then have "\<not> refers cfg name c" for c by (auto simp: refers_def)
  then show ?case by (blast intro: accpI)
next
  case (steps name task ws)
  have "Some c \<in> stepTask ` set (tk_Steps task)" if "refers cfg name c" for c using that steps(1) by (auto simp: refers_def)
  then show ?case using steps(3) by (blast intro: accpI)
next
  case (configured step name ws)
  then show ?case by simp
next
  case (code step t)
  then show ?case by (simp add: stepTask_def)
next
  case (builtin step act)
  then show ?case by (simp add: stepTask_def)
next
  case none
  then show ?case by simp
next
  case (more step ws steps vs)
  then show ?case by (metis image_iff set_ConsD)
qed

lemma accp_no_circle:
  assumes "Wellfounded.accp (\<lambda>c p. refers cfg p c) name"
  shows "\<not> (refers cfg)\<^sup>+\<^sup>+ name name"
proof
  assume c: "(refers cfg)\<^sup>+\<^sup>+ name name"
  have "\<not> (refers cfg)\<^sup>+\<^sup>+ name name" using assms
  proof (induction rule: accp.induct)
    case (accI p)
    show ?case
    proof
      assume "(refers cfg)\<^sup>+\<^sup>+ p p"
      then obtain q where "refers cfg p q" "(refers cfg)\<^sup>*\<^sup>* q p" by (meson tranclpD)
      with accI(2) [of q] show False by (meson rtranclp_into_tranclp1)
    qed
  qed
  with c show False by simp
qed

lemma smooth_perform: "smooth env root \<Longrightarrow> snd (perform env act st) = None"
  by (auto simp: smooth_def perform_def split: prod.splits) (metis snd_conv)

lemma smooth_shell: "smooth env root \<Longrightarrow> snd (runTaskShellCommand env root task st) = None"
  unfolding runTaskShellCommand_def
  by (auto simp: smooth_perform shellInvocation_def smooth_def split: sum.splits) (metis sum.distinct(1))

text \<open>When nothing fails by itself, what has a description runs to its end below any stack of tasks that lead to it.\<close>

lemma run_succeeds:
  "taskWorks root cfg name ws \<Longrightarrow> smooth env root \<Longrightarrow> \<forall>s \<in> set stack. (refers cfg)\<^sup>+\<^sup>+ s name
    \<Longrightarrow> snd (runConfiguredTask env root cfg name stack st) = None"
  "stepWorks root cfg step ws \<Longrightarrow> smooth env root \<Longrightarrow> (\<And>c. stepTask step = Some c \<Longrightarrow> \<forall>s \<in> set stack. (refers cfg)\<^sup>+\<^sup>+ s c)
    \<Longrightarrow> snd (runStep env root cfg step stack st) = None"
  "stepsWorks root cfg ss ws \<Longrightarrow> smooth env root \<Longrightarrow> (\<And>c. Some c \<in> stepTask ` set ss \<Longrightarrow> \<forall>s \<in> set stack. (refers cfg)\<^sup>+\<^sup>+ s c)
    \<Longrightarrow> snd (runTaskSteps env root cfg ss stack st) = None"
proof (induction arbitrary: stack st and stack st and stack st rule: taskWorks_stepWorks_stepsWorks.inducts)
  case (shell name task)
  then have "name \<notin> set stack" using accp_no_circle [OF taskWorks_accp(1) [OF taskWorks_stepWorks_stepsWorks.shell]] by blast
  with shell smooth_shell show ?case by (simp add: runConfiguredTask.simps)
next
  case (steps name task ws)
  then have n: "name \<notin> set stack" using accp_no_circle [OF taskWorks_accp(1) [OF taskWorks_stepWorks_stepsWorks.steps]] by blast
  have "(refers cfg)\<^sup>+\<^sup>+ s c" if "Some c \<in> stepTask ` set (tk_Steps task)" "s \<in> set (stack @ [name])" for s c
  proof -
    have "refers cfg name c" using steps(1, 4) that(1) by (auto simp: refers_def)
    then show ?thesis using steps.prems(2) that(2) by (auto intro: tranclp.trancl_into_trancl)
  qed
  then have "snd (runTaskSteps env root cfg (tk_Steps task) (stack @ [name]) st) = None" using steps.IH steps.prems(1) by blast
  with steps(1) steps.hyps n show ?case by (simp add: runConfiguredTask.simps)
next
  case (configured step name ws)
  then show ?case by (simp add: runStep_task)
next
  case (code step t)
  then show ?case by (simp only: runStep_code smooth_def)
next
  case (builtin step act)
  then show ?case using smooth_perform [of env root] by (simp add: runStep_builtin)
next
  case none
  then show ?case by simp
next
  case (more step ws steps vs)
  have "snd (runStep env root cfg step stack st) = None" by (rule more(2)) (use more.prems in auto)
  then obtain st1 where r: "runStep env root cfg step stack st = (st1, None)" by (cases "runStep env root cfg step stack st") auto
  have "snd (runTaskSteps env root cfg steps stack st1) = None" by (rule more(4)) (use more.prems in auto)
  with r show ?case by (simp only: runTaskSteps_Cons prod.case option.case)
qed

section \<open>Properties\<close>

definition demoTask :: "string \<Rightarrow> string list \<Rightarrow> TaskConfig" where
  "demoTask run ss = \<lparr>tk_CWD = [], tk_Run = run, tk_Steps = ss, tk_Env = []\<rparr>"

definition demoCli :: CliConfig where
  "demoCli = \<lparr>cf_Name = ''app'', cf_ID = [],
     cf_Tasks = [(''all'', demoTask [] ['' task: build'', ''check'']), (''build'', demoTask ''make'' []),
                 (''ping'', demoTask [] [''task:pong'']), (''pong'', demoTask [] [''check'', ''task:ping''])],
     cf_Default = [], cf_Profiles = []\<rparr>"

definition demoTaskEnv :: "unit taskEnv" where
  "demoTaskEnv = \<lparr>tv_exec = (\<lambda>act w. (w, None)), tv_read = (\<lambda>w p. Inr None), tv_exists = (\<lambda>w p. False), tv_isDir = (\<lambda>w p. False),
     tv_readDir = (\<lambda>w p. Inr []), tv_unquote = Inr, tv_decode = (\<lambda>p d. Inl []), tv_environ = [''A=1''], tv_lookPath = (\<lambda>p. None), tv_cwd = None\<rparr>"



text \<open>
  Circles are found: a task below which some task leads back to itself ends with an error whenever it is run, whatever
  the actions do.\<close>

lemma task_circle_fails:
  assumes "(refers cfg)\<^sup>*\<^sup>* name x" "(refers cfg)\<^sup>+\<^sup>+ x x"
  shows "snd (runConfiguredTask env root cfg name [] st) \<noteq> None"
proof
  assume "snd (runConfiguredTask env root cfg name [] st) = None"
  then obtain st' where "runConfiguredTask env root cfg name [] st = (st', None)" by (metis prod.collapse)
  from run_task_works [OF this] obtain ws where "taskWorks root cfg name ws" by blast
  then have "Wellfounded.accp (\<lambda>c p. refers cfg p c) name" by (rule taskWorks_accp)
  with assms(1) have "Wellfounded.accp (\<lambda>c p. refers cfg p c) x"
    by (induction rule: rtranclp_induct) (auto dest: accp_downward)
  with assms(2) accp_no_circle show False by blast
qed

lemma task_circle_fails_witness:
  "snd (runConfiguredTask demoTaskEnv ''/app'' demoCli ''ping'' [] ((), [])) \<noteq> None"
proof (rule task_circle_fails)
  have t: "stepTask ''task:pong'' = Some ''pong''" "stepTask ''task:ping'' = Some ''ping''" by code_simp+
  have "refers demoCli ''ping'' ''pong''" "refers demoCli ''pong'' ''ping''"
    using t unfolding refers_def demoCli_def by (simp_all add: demoTask_def)
  then show "(refers demoCli)\<^sup>+\<^sup>+ ''ping'' ''ping''" by (rule tranclp.trancl_into_trancl [OF tranclp.r_into_trancl])
  show "(refers demoCli)\<^sup>*\<^sup>* ''ping'' ''ping''" by simp
qed

end
