(* ===== verification/Spec2Isabelle.thy ===== *)
theory Spec2Isabelle
  imports Cron RegistryLedger AgentServer AuthDefects Lifecycle Redact EnvPolicy ParseApp ToolchainProps TaskProps
begin

text \<open>
  \<^bold>\<open>Scenery: a verified core\<close>

  Scenery (Go module \<open>scenery.sh\<close>, under \<open>src/\<close>) is a backend framework with a local development
  environment.  A program built with it links the \<open>runtime\<close> package: an HTTP server with its own route table and
  middleware chain, coded errors, a compact binary wire format beside JSON, and a cron scheduler.  While an
  application is developed, one \<open>scenery\<close> agent per user (\<open>internal/agent\<close>) keeps a registry of running sessions, routes
  host names to them and stops what it started.  A program can use the standard auth service (\<open>auth\<close>): accounts, refresh
  sessions, workspaces, invites and impersonation over a PostgreSQL schema.  The \<open>scenery\<close> command parses an application
  (\<open>internal/parse\<close>), keeps pinned tools in a store (\<open>internal/toolchain\<close>) and runs tasks (\<open>cmd/scenery\<close>).  This library models these
  parts and proves what makes them correct.

  \<^bold>\<open>Theories and sources.\<close>  Each definition has the name of the Go function or type it models; a method has the receiver
  as an argument.
  \<^item> \<open>GoPrelude\<close>: what the source uses of \<open>strings\<close> and \<open>strconv\<close>, Go maps as association lists, and the
    contracts (locales) the components are proved from: \<open>codec\<close>, \<open>normal_form\<close>, \<open>safe_machine\<close>, \<open>refines\<close>.
  \<^item> \<open>Varint\<close>, \<open>Wire\<close>: \<open>internal/wire/wire.go\<close>, the value format, frames, capability document and schema hashes.
  \<^item> \<open>Errs\<close>: \<open>errs/error.go\<close>, with an explicit store for the metadata maps that errors share.
  \<^item> \<open>Router\<close>: \<open>runtime/router.go\<close>, patterns, specificity, registration and dispatch.
  \<^item> \<open>Middleware\<close>: \<open>runtime/middleware.go\<close> with the parts of \<open>registry.go\<close>, \<open>mock.go\<close> and
    \<open>middleware/middleware.go\<close> it uses.
  \<^item> \<open>Calendar\<close>, \<open>Cron\<close>: \<open>runtime/cron.go\<close>, on a proleptic Gregorian calendar in UTC.
  \<^item> \<open>GoPath\<close>: \<open>path/filepath\<close> and \<open>net.SplitHostPort\<close>.
  \<^item> \<open>AgentSession\<close>: \<open>internal/agent/types.go\<close>, \<open>owner.go\<close>, \<open>session.go\<close>; the machine (clock, process table,
    git, SHA-256) is the record \<open>agentEnv\<close>.
  \<^item> \<open>AgentRegistry\<close>, \<open>RegistryProps\<close>, \<open>RegistryLedger\<close>: \<open>internal/agent/registry.go\<close>, its operations and
    invariant, its properties, and the abstract ledger it refines.
  \<^item> \<open>AgentServer\<close>: \<open>internal/agent/server.go\<close>, \<open>router.go\<close> and \<open>client.go\<close>, handlers composed with the registry.
  \<^item> \<open>AuthStore\<close>: the tables and queries of \<open>auth/db\<close> (\<open>queries.sql\<close>, \<open>gen/models.go\<close>) as lists of rows and actions that may fail,
    with transactions.  \<open>AuthCrypto\<close>: \<open>standard_tokens.go\<close>, \<open>standard_passwords.go\<close>, \<open>standard_jwt.go\<close>,
    \<open>standard_helpers.go\<close>; clocks, random draws, SHA-256, Argon2, JWT and UUID text are the record \<open>authEnv\<close>.
  \<^item> \<open>AuthService\<close>: \<open>standard_service.go\<close>, \<open>standard_sessions.go\<close>, \<open>standard_mail.go\<close>, \<open>standard_impersonation.go\<close>.
    \<open>AuthOrganizations\<close>: \<open>standard_organizations.go\<close>.  \<open>AuthGoogle\<close>: \<open>standard_google.go\<close>, \<open>standard_dev.go\<close>.
  \<^item> \<open>AuthRequests\<close>: all handlers as one function \<open>serve\<close>, the machine \<open>authStep\<close>, and the locales \<open>stable\<close>,
    \<open>stable_queries\<close> and \<open>stable_members\<close> that lift a relation from the queries to every request.  \<open>AuthHistory\<close> interprets
    them for the unique indexes and for history; \<open>AuthProps\<close>, \<open>AuthRights\<close> and \<open>AuthDefects\<close> hold the properties.
  \<^item> \<open>GoTypes\<close>: Go types and values as reflection sees them.  \<open>RequestDecode\<close>: \<open>runtime/decode.go\<close> and the decoders of
    \<open>server.go\<close>.  \<open>WirePayload\<close>: the decoding of \<open>runtime/wire.go\<close>.  \<open>ResponseEncode\<close>: \<open>runtime/encode.go\<close>.
  \<^item> \<open>RuntimeServer\<close>: \<open>runtime/server.go\<close>, \<open>wire.go\<close>, \<open>registry.go\<close> and \<open>current.go\<close>, the handlers composed from the decoders,
    the middleware chain and the route table.  \<open>Lifecycle\<close>: the start and stop of services of \<open>registry.go\<close> and \<open>app.go\<close>.
  \<^item> \<open>Redact\<close>: \<open>internal/redact\<close>, on values with a heap.  \<open>EnvPolicy\<close>: \<open>internal/envpolicy\<close>, \<open>internal/envfile\<close> and
    \<open>runtime/secrets.go\<close>.
  \<^item> \<open>ParseRoutes\<close>, \<open>ParseModel\<close>, \<open>ParseApp\<close>: \<open>internal/parse/parser.go\<close> over \<open>internal/model/model.go\<close>, from parsed packages
    to the description of an application.
  \<^item> \<open>HostFS\<close>: a file system with links.  \<open>Toolchain\<close>, \<open>ToolchainProps\<close>: \<open>internal/toolchain\<close>; servers, archives,
    JSON, the shell and Docker are the record \<open>toolEnv\<close>.
  \<^item> \<open>CliTasks\<close>, \<open>TaskProps\<close>: \<open>cmd/scenery/task.go\<close> and \<open>script.go\<close> with \<open>DiscoverRoot\<close> of \<open>internal/app\<close>; the world
    that actions change is a type variable, its operations the record \<open>taskEnv\<close>.

  \<^bold>\<open>What is shown.\<close>
  \<^item> Wire: decoding after encoding gives the value back, every proper prefix is rejected, decoding always ends,
    frames survive the trip, hashing is injective on part lists and independent of the order of endpoints.
  \<^item> Router: a dispatched request reaches the most specific matching route with exactly its parameters; which of dispatch,
    OPTIONS, 405 and 404 happens is decided by the set of routes; the Allow header is exact.
  \<^item> Middleware: the chain always answers, runs in order, and equals functional composition when no middleware calls
    \<open>next\<close> twice; the two raw writers agree.
  \<^item> Cron: fields mean what their parts say, parsing ends, the next time is the first matching minute, the calendars handed to
    Temporal match the same minutes, the job loop never goes back.
  \<^item> Agent: the registry's maps agree in every reachable state; it refines an ownership ledger; live sessions, roots and
    leases are not taken; removal is complete; requests stay within the session of their host; only verified
    processes are interrupted; client and server together remove only what the client saw.
  \<^item> Auth: failed requests leave no trace; the unique indexes hold in every reachable database; revocation, consumption, disabling and
    deletion are permanent; refresh tokens rotate; logout and password reset end sessions for good; one-time tokens work once; every
    response is scoped to an active membership; only owners change a workspace and the last owner stays, invites apart; impersonation
    is authorised and recorded; password hashes verify what they were made from.
  \<^item> Requests and responses: a decoded payload has the declared type; integers from the wire are exact; a wire request survives
    the trip; a response is shaped as its fields say; no endpoint that needs authentication runs without it; results of named
    calls can be recovered for ten minutes.
  \<^item> Lifecycle: initialization ends in every interleaving; shutdown runs in reverse order.
  \<^item> Redaction and environment: nothing sensitive influences the redacted form; patterns match what they describe; the
    precedence of environment files.
  \<^item> Parser: two routes overlap exactly when some path matches both; every accepted endpoint gets typed arguments; generated
    endpoints are served; an accepted application is consistent; the service root is the longest one.
  \<^item> Tool store: extraction stays below its directory, links that end in the parent apart; only verified archives reach the disk;
    what was installed verifies.
  \<^item> Tasks: a successful run did exactly the work configured; a task above a circle fails.
  The theorems on defects show, on concrete inputs, where the code does not do what it means to; the manifest lists
  them as findings.

  \<^bold>\<open>Bounds and fuel.\<close>  \<open>readFuel\<close> of \<open>Wire\<close> is twice the number of bytes left plus two: each value and each element of a container consumes a byte.  \<open>chainFuel\<close> of
  \<open>Middleware\<close> bounds the calls of \<open>next\<close> by the middlewares' own programs, and \<open>chain_answers\<close> shows that it is
  enough.  The cron search has its termination proof from the search horizon; the step loop that can
  overflow is a \<open>partial_function\<close>, and \<open>cron_parse_total\<close> shows that it returns.  Go's \<open>int\<close> is 64 bits wide where
  a value can reach the bounds (\<open>wrap64\<close>).

  The handlers of \<open>auth\<close> need no fuel: each is a finite sequence of queries.  The resolution of a path in \<open>HostFS\<close> follows at
  most 40 links, as Linux does.  A run of tasks ends because the configured tasks that are not on its stack get fewer.

  \<^bold>\<open>Not modelled.\<close>  Of the compiler side, \<open>internal/codegen\<close>, \<open>internal/build\<close>, \<open>internal/clientgen\<close>, \<open>internal/webgen\<close> and
  \<open>internal/workers\<close> write program text and run the Go compiler; of the parser, reading static values out of Go syntax trees, page
  literals and the calls of the temporal package are inputs.  The rest of \<open>cmd/scenery\<close> (the development supervisor, the edge
  proxy, dashboards, harnesses) drives processes, files and HTTP; \<open>temporal\<close>, \<open>internal/devdash\<close> and
  \<open>internal/observability\<close> wrap services and a database; goroutines, sockets and timers are input and output.  Reflection
  over arbitrary Go structs (\<open>writeReflectValue\<close>) and JSON text are represented by the values they stand for.  Concurrent transactions of
  the auth service are not modelled: requests are served one after the other.  Foreign keys and the audit columns of its
  schema are left out.  The tool store leaves out ownership and directory permissions.
\<close>

end
